(* ===== verification/Prelude.thy ===== *)
theory Prelude
  imports
    Main
    "HOL-Library.Word"
    "HOL-Library.Multiset"
    "HOL-Library.List_Lexorder"
    "HOL-Library.Product_Lexorder"
begin

text \<open>
  Shared vocabulary of the development: the machine integers and byte strings of the Rust
  sources, \<open>Result\<close> values with the \<open>?\<close> operator, the integer operations of the
  standard library that the sources use (\<open>checked_add\<close>, \<open>saturating_add\<close>,
  \<open>saturating_sub\<close>, \<open>to_be_bytes\<close>, \<open>Iterator::sum\<close>), and generic lemmas
  on words, sorted lists, filters and sums which the component theories use.

  Conventions. Every unsigned Rust integer of width \<open>w\<close> is a \<open>w word\<close>; plain
  \<open>+\<close>, \<open>-\<close>, \<open>*\<close> have the wrap-around meaning of a release build.
  \<open>usize\<close> values are list lengths, indices and counts, far below the address range,
  and are modelled as \<^typ>\<open>nat\<close>. A byte string (\<open>Vec<u8>\<close>, \<open>&[u8]\<close>,
  \<open>[u8; N]\<close>) is a \<open>u8 list\<close>, ordered lexicographically as in Rust.
\<close>

section \<open>Machine integers and bytes\<close>

type_synonym u8 = "8 word"
type_synonym u16 = "16 word"
type_synonym u32 = "32 word"
type_synonym u64 = "64 word"
type_synonym u128 = "128 word"
type_synonym bytes = "8 word list"

type_synonym ('a, 'e) result = "'e + 'a"

text \<open>
  A computation that may panic: \<open>Inl\<close> carries the message of the failed \<open>expect\<close>.
\<close>

type_synonym 'a panics = "('a, string) result"

text \<open>Collections of rewrite rules shared by the component proofs.\<close>

named_theorems result_simps "rewriting of results and the question-mark operator"
named_theorems arith_simps "unsigned readings of word operations"

section \<open>Results\<close>

text \<open>\<open>and_then r f\<close> is the control flow of \<open>let x = r?; f(x)\<close>.\<close>

fun and_then :: "('a, 'e) result \<Rightarrow> ('a \<Rightarrow> ('b, 'e) result) \<Rightarrow> ('b, 'e) result" where
  "and_then (Inl e) f = Inl e"
| "and_then (Inr x) f = f x"

fun map_err :: "('e \<Rightarrow> 'f) \<Rightarrow> ('a, 'e) result \<Rightarrow> ('a, 'f) result" where
  "map_err h (Inl e) = Inl (h e)"
| "map_err h (Inr x) = Inr x"

fun ok_or :: "'e \<Rightarrow> 'a option \<Rightarrow> ('a, 'e) result" where
  "ok_or e None = Inl e"
| "ok_or e (Some x) = Inr x"

fun is_ok :: "('a, 'e) result \<Rightarrow> bool" where
  "is_ok (Inl e) = False"
| "is_ok (Inr x) = True"

lemma and_then_Inr [result_simps]:
  "and_then r f = Inr y \<longleftrightarrow> (\<exists>x. r = Inr x \<and> f x = Inr y)"
  by (cases r) auto

lemma and_then_Inl [result_simps]:
  "and_then r f = Inl e \<longleftrightarrow> r = Inl e \<or> (\<exists>x. r = Inr x \<and> f x = Inl e)"
  by (cases r) auto

lemma map_err_Inr [result_simps]: "map_err h r = Inr x \<longleftrightarrow> r = Inr x"
  by (cases r) auto

lemma map_err_Inl [result_simps]: "map_err h r = Inl e \<longleftrightarrow> (\<exists>d. r = Inl d \<and> e = h d)"
  by (cases r) auto

lemma ok_or_Inr [result_simps]: "ok_or e q = Inr x \<longleftrightarrow> q = Some x"
  by (cases q) auto

lemma ok_or_Inl [result_simps]: "ok_or e q = Inl d \<longleftrightarrow> q = None \<and> d = e"
  by (cases q) auto

lemma is_ok_iff [result_simps]: "is_ok r \<longleftrightarrow> (\<exists>x. r = Inr x)"
  by (cases r) auto

lemma and_then_split:
  "P (and_then r f) \<longleftrightarrow> (\<forall>e. r = Inl e \<longrightarrow> P (Inl e)) \<and> (\<forall>x. r = Inr x \<longrightarrow> P (f x))"
  by (cases r) auto

lemma if_Err_Ok [result_simps]:
  "(if c then Inl e else r) = Inr x \<longleftrightarrow> \<not> c \<and> r = Inr x"
  by auto

text \<open>A fallible loop body run over a list, stopping at the first error.\<close>

fun try_fold :: "('s \<Rightarrow> 'a \<Rightarrow> ('s, 'e) result) \<Rightarrow> 's \<Rightarrow> 'a list \<Rightarrow> ('s, 'e) result" where
  "try_fold f s [] = Inr s"
| "try_fold f s (x # xs) = and_then (f s x) (\<lambda>s'. try_fold f s' xs)"

lemma try_fold_append:
  "try_fold f s (xs @ ys) = and_then (try_fold f s xs) (\<lambda>s'. try_fold f s' ys)"
  by (induction xs arbitrary: s) (auto split: and_then_split)

text \<open>A fallible function mapped over a list, stopping at the first error.\<close>

fun try_map :: "('a \<Rightarrow> ('b, 'e) result) \<Rightarrow> 'a list \<Rightarrow> ('b list, 'e) result" where
  "try_map f [] = Inr []"
| "try_map f (x # xs) = and_then (f x) (\<lambda>y. and_then (try_map f xs) (\<lambda>ys. Inr (y # ys)))"

lemma try_map_Inr_iff:
  "try_map f xs = Inr ys \<longleftrightarrow> length xs = length ys \<and> (\<forall>i < length xs. f (xs ! i) = Inr (ys ! i))"
proof (induction xs arbitrary: ys)
  case Nil
  then show ?case by auto
next
  case (Cons x xs)
  show ?case
    by (cases ys) (auto simp: result_simps Cons.IH nth_Cons' less_Suc_eq_0_disj)
qed

lemma try_map_length: "try_map f xs = Inr ys \<Longrightarrow> length ys = length xs"
  by (simp add: try_map_Inr_iff)

lemma try_map_append:
  "try_map f (xs @ ys) =
     and_then (try_map f xs) (\<lambda>us. and_then (try_map f ys) (\<lambda>vs. Inr (us @ vs)))"
proof (induction xs)
  case Nil
  show ?case by (cases "try_map f ys") auto
next
  case (Cons x xs)
  then show ?case
    by (cases "f x"; cases "try_map f xs"; cases "try_map f ys") auto
qed

section \<open>Integer operations of the standard library\<close>

definition checked_add :: "'w::len word \<Rightarrow> 'w word \<Rightarrow> 'w word option" where
  "checked_add a b = (if unat a + unat b < 2 ^ LENGTH('w) then Some (a + b) else None)"

definition saturating_add :: "'w::len word \<Rightarrow> 'w word \<Rightarrow> 'w word" where
  "saturating_add a b = (if unat a + unat b < 2 ^ LENGTH('w) then a + b else - 1)"

definition saturating_sub :: "'w::len word \<Rightarrow> 'w word \<Rightarrow> 'w word" where
  "saturating_sub a b = (if b \<le> a then a - b else 0)"

text \<open>\<open>u64::MAX\<close> and its kin are \<open>- 1\<close> in word arithmetic.\<close>

lemma checked_add_Some_iff:
  fixes a b c :: "'w::len word"
  shows "checked_add a b = Some c \<longleftrightarrow> unat c = unat a + unat b"
proof
  assume "checked_add a b = Some c"
  then show "unat c = unat a + unat b"
    by (auto simp: checked_add_def unat_word_ariths split: if_splits)
next
  assume eq: "unat c = unat a + unat b"
  have "unat c < 2 ^ LENGTH('w)" by (rule unsigned_less)
  with eq have lt: "unat a + unat b < 2 ^ LENGTH('w)" by simp
  have "unat (a + b) = unat c"
    using eq lt by (simp add: unat_word_ariths)
  then have "a + b = c" by (simp add: word_unat_eq_iff)
  with lt show "checked_add a b = Some c" by (simp add: checked_add_def)
qed

lemma checked_add_None_iff:
  fixes a b :: "'w::len word"
  shows "checked_add a b = None \<longleftrightarrow> 2 ^ LENGTH('w) \<le> unat a + unat b"
  by (auto simp: checked_add_def)

lemma unat_saturating_add:
  fixes a b :: "'w::len word"
  shows "unat (saturating_add a b) = min (unat a + unat b) (2 ^ LENGTH('w) - 1)"
  by (auto simp: saturating_add_def unat_word_ariths unsigned_minus_1_eq_mask
      mask_eq_exp_minus_1 min_def)

lemma unat_saturating_sub: "unat (saturating_sub a b) = unat a - unat b"
  by (auto simp: saturating_sub_def unat_sub word_le_nat_alt)

lemma unat_sub_le: "b \<le> a \<Longrightarrow> unat (a - b) = unat a - unat b"
  by (simp add: unat_sub)

lemma word_not_pos: "\<not> 0 < w \<Longrightarrow> unat w = 0"
  by (simp add: word_less_nat_alt)

lemma unat_inj: "unat a = unat b \<Longrightarrow> a = b"
  by (simp add: word_unat_eq_iff)

lemma word_eq_of_nat: "unat w = n \<Longrightarrow> w = of_nat n"
  by auto

lemma unat_u64: "unat (w :: u64) < 2 ^ 64"
  by (rule order.strict_trans2 [OF unsigned_less]) simp

lemma unat_u128: "unat (w :: u128) < 2 ^ 128"
  by (rule order.strict_trans2 [OF unsigned_less]) simp

lemma u64_sum_split:
  fixes t a b :: u64
  shows "(\<exists>c :: u64. unat c = unat a + unat b \<and> unat t = unat c + n) \<longleftrightarrow> unat t = unat a + unat b + n"
proof
  assume eq: "unat t = unat a + unat b + n"
  then have "unat a + unat b < 2 ^ 64" using unat_u64 [of t] by linarith
  then have "unat (a + b) = unat a + unat b" by (simp add: unat_word_ariths)
  with eq show "\<exists>c :: u64. unat c = unat a + unat b \<and> unat t = unat c + n" by (intro exI [of _ "a + b"]) simp
qed auto

lemma unat_min: "unat (min a b) = min (unat a) (unat b)"
  by (simp add: min_def word_le_nat_alt)

lemma unat_max: "unat (max a b) = max (unat a) (unat b)"
  by (simp add: max_def word_le_nat_alt)

lemma unat_ucast_down:
  fixes a :: "'a::len word"
  assumes "unat a < 2 ^ LENGTH('b::len)"
  shows "unat (ucast a :: 'b word) = unat a"
  using assms by (simp add: unsigned_ucast_eq take_bit_nat_eq_self)

text \<open>\<open>Iterator::sum\<close> over words wraps; below the bound it is the sum of the values.\<close>

lemma unat_sum_list:
  fixes xs :: "'w::len word list"
  assumes "sum_list (map unat xs) < 2 ^ LENGTH('w)"
  shows "unat (sum_list xs) = sum_list (map unat xs)"
  using assms
proof (induction xs)
  case Nil
  then show ?case by simp
next
  case (Cons x xs)
  then have "unat (sum_list xs) = sum_list (map unat xs)" by simp
  with Cons.prems show ?case by (simp add: unat_word_ariths)
qed

lemma unat_ucast_up:
  fixes a :: "'a::len word"
  assumes "LENGTH('a) \<le> LENGTH('b::len)"
  shows "unat (ucast a :: 'b word) = unat a"
proof -
  have "unat a < 2 ^ LENGTH('a)" by (rule unsigned_less)
  also have "\<dots> \<le> 2 ^ LENGTH('b)" using assms by (simp add: power_increasing)
  finally show ?thesis by (simp add: unsigned_ucast_eq take_bit_nat_eq_self)
qed

text \<open>
  \<open>to_be_bytes\<close> and \<open>to_le_bytes\<close> of an \<open>n\<close>-byte integer, and
  \<open>from_be_bytes\<close>.
\<close>

definition to_be_bytes :: "nat \<Rightarrow> 'w::len word \<Rightarrow> bytes" where
  "to_be_bytes n w = map (\<lambda>i. ucast (drop_bit (8 * i) w)) (rev [0..<n])"

definition to_le_bytes :: "nat \<Rightarrow> 'w::len word \<Rightarrow> bytes" where
  "to_le_bytes n w = map (\<lambda>i. ucast (drop_bit (8 * i) w)) [0..<n]"

definition from_be_bytes :: "bytes \<Rightarrow> 'w::len word" where
  "from_be_bytes bs = foldl (\<lambda>acc b. push_bit 8 acc + ucast b) 0 bs"

lemma length_to_be_bytes [simp]: "length (to_be_bytes n w) = n"
  by (simp add: to_be_bytes_def)

lemma length_to_le_bytes [simp]: "length (to_le_bytes n w) = n"
  by (simp add: to_le_bytes_def)

lemma xor_neq:
  fixes x m :: "'w::len word"
  assumes "m \<noteq> 0"
  shows "Bit_Operations.xor x m \<noteq> x"
proof
  assume "Bit_Operations.xor x m = x"
  then have "Bit_Operations.xor x (Bit_Operations.xor x m) = Bit_Operations.xor x x" by simp
  with assms show False by (simp add: xor.assoc [symmetric])
qed

text \<open>An integer is determined by its bytes.\<close>

lemma bytes_determine_word:
  fixes a b :: "'w::len word"
  assumes "LENGTH('w) \<le> 8 * n"
    and "\<forall>i < n. (ucast (drop_bit (8 * i) a) :: u8) = ucast (drop_bit (8 * i) b)"
  shows "a = b"
proof (rule bit_word_eqI)
  fix k assume "k < LENGTH('w)"
  then have i: "k div 8 < n" using assms(1) by linarith
  have "bit w k = bit (ucast (drop_bit (8 * (k div 8)) w) :: u8) (k mod 8)" for w :: "'w word"
    by (simp add: bit_ucast_iff bit_drop_bit_eq)
  then show "bit a k = bit b k" using assms(2) i by simp
qed

lemma to_be_bytes_inj:
  fixes a b :: "'w::len word"
  assumes "LENGTH('w) \<le> 8 * n"
  shows "to_be_bytes n a = to_be_bytes n b \<longleftrightarrow> a = b"
proof
  assume "to_be_bytes n a = to_be_bytes n b"
  then have "\<forall>i \<in> set (rev [0..<n]). (ucast (drop_bit (8 * i) a) :: u8) = ucast (drop_bit (8 * i) b)"
    unfolding to_be_bytes_def by (simp only: map_eq_conv)
  then show "a = b" using bytes_determine_word [OF assms] by simp
qed simp

lemma to_le_bytes_inj:
  fixes a b :: "'w::len word"
  assumes "LENGTH('w) \<le> 8 * n"
  shows "to_le_bytes n a = to_le_bytes n b \<longleftrightarrow> a = b"
proof
  assume "to_le_bytes n a = to_le_bytes n b"
  then have "\<forall>i \<in> set [0..<n]. (ucast (drop_bit (8 * i) a) :: u8) = ucast (drop_bit (8 * i) b)"
    unfolding to_le_bytes_def by (simp only: map_eq_conv)
  then show "a = b" using bytes_determine_word [OF assms] by simp
qed simp

text \<open>Reading back the bytes of an integer.\<close>

lemma to_be_bytes_Suc: "to_be_bytes (Suc n) w = ucast (drop_bit (8 * n) w) # to_be_bytes n w"
  by (simp add: to_be_bytes_def)

lemma read_be_bytes:
  fixes w acc :: "'w::len word"
  shows "foldl (\<lambda>acc b. push_bit 8 acc + ucast b) acc (to_be_bytes n w) = push_bit (8 * n) acc + take_bit (8 * n) w"
proof (induction n arbitrary: acc)
  case 0
  then show ?case by (simp add: to_be_bytes_def)
next
  case (Suc n)
  have byte: "(ucast (ucast (drop_bit (8 * n) w) :: u8) :: 'w word) = take_bit 8 (drop_bit (8 * n) w)"
    by (simp add: unsigned_ucast_eq)
  have "push_bit (8 * n) (drop_bit (8 * n) (take_bit (8 * Suc n) w)) + take_bit (8 * n) (take_bit (8 * Suc n) w) =
      take_bit (8 * Suc n) w"
    by (rule bits_ident)
  then have split: "push_bit (8 * n) (take_bit 8 (drop_bit (8 * n) w)) + take_bit (8 * n) w = take_bit (8 * Suc n) w"
    by (simp add: drop_bit_take_bit min_def)
  show ?case
    unfolding to_be_bytes_Suc foldl_Cons Suc.IH byte push_bit_add
    using split by (simp add: push_bit_push_bit add.assoc add.commute)
qed

lemma from_be_to_be:
  fixes w :: "'w::len word"
  assumes "LENGTH('w) \<le> 8 * n"
  shows "from_be_bytes (to_be_bytes n w) = w"
  unfolding from_be_bytes_def read_be_bytes using assms by (simp add: take_bit_word_eq_self)

text \<open>The bytes of a string literal \<open>b"..."\<close>.\<close>

definition bytes_of :: "string \<Rightarrow> bytes" where
  "bytes_of s = map of_char s"

lemma unat_of_char: "unat (of_char c :: u8) = of_char c"
proof -
  have "(of_char c :: u8) = of_nat (of_char c)" by (simp add: of_nat_of_char)
  then show ?thesis using nat_of_char_less_256 [of c] by (simp add: unat_of_nat take_bit_nat_eq_self)
qed

lemma length_bytes_of [simp]: "length (bytes_of s) = length s"
  by (simp add: bytes_of_def)

section \<open>Lists\<close>

text \<open>\<open>Iterator::position\<close>, \<open>Iterator::find\<close> and \<open>Vec::remove\<close>.\<close>

fun position :: "('a \<Rightarrow> bool) \<Rightarrow> 'a list \<Rightarrow> nat option" where
  "position P [] = None"
| "position P (x # xs) = (if P x then Some 0 else map_option Suc (position P xs))"

definition remove_nth :: "nat \<Rightarrow> 'a list \<Rightarrow> 'a list" where
  "remove_nth i xs = take i xs @ drop (Suc i) xs"

lemma position_Some:
  "position P xs = Some i \<Longrightarrow> i < length xs \<and> P (xs ! i) \<and> (\<forall>j < i. \<not> P (xs ! j))"
proof (induction xs arbitrary: i)
  case Nil
  then show ?case by simp
next
  case (Cons x xs)
  show ?case
  proof (cases "P x")
    case True
    with Cons.prems show ?thesis by simp
  next
    case False
    with Cons.prems obtain k where k: "position P xs = Some k" "i = Suc k" by auto
    with Cons.IH [OF k(1)] False show ?thesis
      by (auto simp: nth_Cons' less_Suc_eq_0_disj)
  qed
qed

lemma position_None: "position P xs = None \<longleftrightarrow> (\<forall>x \<in> set xs. \<not> P x)"
  by (induction xs) auto

lemma position_append_new:
  "\<forall>x \<in> set xs. \<not> P x \<Longrightarrow> P y \<Longrightarrow> position P (xs @ [y]) = Some (length xs)"
  by (induction xs) auto

lemma remove_nth_last [simp]: "remove_nth (length xs) (xs @ [x]) = xs"
  by (simp add: remove_nth_def)

lemma mset_remove_nth: "i < length xs \<Longrightarrow> add_mset (xs ! i) (mset (remove_nth i xs)) = mset xs"
proof -
  assume i: "i < length xs"
  have "mset xs = mset (take i xs @ xs ! i # drop (Suc i) xs)"
    using id_take_nth_drop [OF i] by simp
  then show ?thesis by (simp add: remove_nth_def)
qed

lemma find_Some_iff_first:
  "find P xs = Some x \<Longrightarrow> x \<in> set xs \<and> P x"
  by (auto simp: find_Some_iff)

lemma find_append: "find P (xs @ ys) = (case find P xs of None \<Rightarrow> find P ys | Some x \<Rightarrow> Some x)"
  by (induction xs) auto

lemma find_unique:
  assumes "x \<in> set xs" and "P x" and "\<And>y. y \<in> set xs \<Longrightarrow> P y \<Longrightarrow> y = x"
  shows "find P xs = Some x"
proof -
  obtain y where y: "find P xs = Some y"
    using assms(1,2) by (cases "find P xs") (auto simp: find_None_iff)
  then have "y = x" using assms(3) find_Some_iff_first by metis
  with y show ?thesis by simp
qed

lemma filter_eq_single: "distinct zs \<Longrightarrow> k \<in> set zs \<Longrightarrow> filter (\<lambda>x. x = k) zs = [k]"
  by (induction zs) (auto simp: filter_empty_conv)

section \<open>Stable sorting\<close>

text \<open>
  \<open>slice::sort_by\<close> is stable; its model is \<^const>\<open>sort_key\<close> with the compared
  components as the key.
\<close>

text \<open>With pairwise distinct keys the sorted list depends on the elements only.\<close>

lemma sort_key_mset_eq:
  assumes "mset xs = mset ys" and "distinct (map f xs)"
  shows "sort_key f xs = sort_key f ys"
proof (rule properties_for_sort_key)
  show "mset (sort_key f ys) = mset xs" using assms(1) by simp
  fix k assume "k \<in> set (sort_key f ys)"
  have inj: "inj_on f (set xs)" using assms(2) by (simp add: distinct_map)
  have sets: "set ys = set xs" using assms(1) mset_eq_setD by metis
  with \<open>k \<in> set (sort_key f ys)\<close> have "k \<in> set xs" by simp
  have dx: "distinct xs" using assms(2) by (simp add: distinct_map)
  have dy: "distinct ys" using assms(1) dx mset_eq_imp_distinct_iff by blast
  have one: "filter (\<lambda>x. f k = f x) zs = [k]" if "distinct zs" "set zs = set xs" for zs
  proof -
    have "\<forall>x \<in> set zs. (f k = f x) = (x = k)"
      using that(2) inj \<open>k \<in> set xs\<close> by (auto dest: inj_onD)
    then have "filter (\<lambda>x. f k = f x) zs = filter (\<lambda>x. x = k) zs"
      by (simp cong: filter_cong)
    also have "\<dots> = [k]"
      using that \<open>k \<in> set xs\<close> by (intro filter_eq_single) auto
    finally show ?thesis .
  qed
  have "filter (\<lambda>x. f k = f x) (sort_key f ys) = [k]"
    by (rule one) (use sets dy in auto)
  moreover have "filter (\<lambda>x. f k = f x) xs = [k]"
    by (rule one) (use dx in auto)
  ultimately show "filter (\<lambda>x. f k = f x) (sort_key f ys) = filter (\<lambda>x. f k = f x) xs"
    by simp
next
  show "sorted (map f (sort_key f ys))" by simp
qed

section \<open>Ordered maps\<close>

text \<open>
  A \<open>BTreeMap\<close> with byte-string or other ordered keys is an association list sorted
  strictly by key; \<open>btree_insert\<close> is \<open>insert\<close>.
\<close>

fun btree_insert :: "'k::linorder \<Rightarrow> 'v \<Rightarrow> ('k \<times> 'v) list \<Rightarrow> ('k \<times> 'v) list" where
  "btree_insert k v [] = [(k, v)]"
| "btree_insert k v ((j, w) # rest) =
     (if k < j then (k, v) # (j, w) # rest
      else if k = j then (k, v) # rest
      else (j, w) # btree_insert k v rest)"

definition btree_ok :: "('k::linorder \<times> 'v) list \<Rightarrow> bool" where
  "btree_ok m \<longleftrightarrow> sorted_wrt (<) (map fst m)"

lemma btree_ok_simps [simp]:
  "btree_ok []" "btree_ok ((k, v) # m) \<longleftrightarrow> (\<forall>j \<in> fst ` set m. k < j) \<and> btree_ok m"
  by (auto simp: btree_ok_def)

lemma map_of_btree_insert: "btree_ok m \<Longrightarrow> map_of (btree_insert k v m) = (map_of m)(k \<mapsto> v)"
  by (induction m rule: btree_insert.induct) (auto simp: fun_eq_iff)

lemma keys_btree_insert: "fst ` set (btree_insert k v m) = insert k (fst ` set m)"
  by (induction m rule: btree_insert.induct) auto

lemma btree_ok_insert: "btree_ok m \<Longrightarrow> btree_ok (btree_insert k v m)"
  by (induction m rule: btree_insert.induct) (auto simp: keys_btree_insert)

lemma btree_ok_distinct: "btree_ok m \<Longrightarrow> distinct (map fst m)"
  by (simp add: btree_ok_def strict_sorted_iff)

text \<open>An ordered map is determined by its lookups.\<close>

lemma btree_eqI:
  assumes "btree_ok m" and "btree_ok n" and "map_of m = map_of n"
  shows "m = n"
proof -
  have d: "distinct (map fst m)" "distinct (map fst n)" using assms(1,2) by (simp_all add: btree_ok_distinct)
  then have s: "set m = set n" using assms(3) by (simp add: map_of_inject_set [symmetric])
  have "sorted_wrt (<) (map fst m)" "sorted_wrt (<) (map fst n)" using assms(1,2) by (simp_all add: btree_ok_def)
  moreover have "set (map fst m) = set (map fst n)" using s by simp
  ultimately have keys: "map fst m = map fst n" by (simp add: strict_sorted_equal)
  have len: "length m = length n" using arg_cong [OF keys, of length] by simp
  show ?thesis
  proof (rule nth_equalityI [OF len])
    fix i assume i: "i < length m"
    have "map fst m ! i = map fst n ! i" by (simp only: keys)
    then have k: "fst (m ! i) = fst (n ! i)" using i len by simp
    have "m ! i \<in> set n" using nth_mem [OF i] s by simp
    then have "map_of n (fst (m ! i)) = Some (snd (m ! i))" using d(2) by simp
    moreover have "map_of n (fst (n ! i)) = Some (snd (n ! i))" using d(2) i len by simp
    ultimately show "m ! i = n ! i" using k by (simp add: prod_eq_iff)
  qed
qed

lemma btree_of_list:
  assumes "btree_ok m"
  shows "btree_ok (fold (\<lambda>(k, v). btree_insert k v) kvs m) \<and>
    map_of (fold (\<lambda>(k, v). btree_insert k v) kvs m) = map_of m ++ map_of (rev kvs)"
  using assms
proof (induction kvs arbitrary: m)
  case (Cons kv kvs)
  obtain k v where kv: "kv = (k, v)" by (cases kv)
  have "map_of (btree_insert k v m) ++ map_of (rev kvs) = map_of m ++ map_of (rev (kv # kvs))"
    using Cons.prems kv by (simp add: map_of_btree_insert)
  with Cons.IH [OF btree_ok_insert [OF Cons.prems, of k v]] kv show ?case by simp
qed simp

section \<open>Keyed stores\<close>

text \<open>
  The contract of a component that keeps one value per key: an admissible write succeeds,
  keeps the invariant, changes what is read at its key and nothing else, and leaves the set of
  admissible writes as it was. A sequence of writes is then read back as a map update.
\<close>

locale keyed_store =
  fixes inv :: "'s \<Rightarrow> bool"
    and admissible :: "'s \<Rightarrow> 'k \<Rightarrow> 'v \<Rightarrow> bool"
    and put :: "'s \<Rightarrow> 'k \<Rightarrow> 'v \<Rightarrow> ('s, 'e) result"
    and get :: "'s \<Rightarrow> 'k \<Rightarrow> 'v option"
  assumes put_ok: "inv s \<Longrightarrow> admissible s k v \<Longrightarrow> \<exists>s'. put s k v = Inr s'"
    and put_inv: "inv s \<Longrightarrow> put s k v = Inr s' \<Longrightarrow> inv s'"
    and put_get: "inv s \<Longrightarrow> admissible s k v \<Longrightarrow> put s k v = Inr s' \<Longrightarrow> get s' = (get s)(k \<mapsto> v)"
    and put_admissible: "put s k v = Inr s' \<Longrightarrow> admissible s' = admissible s"
begin

lemma puts_get:
  assumes "inv s" and "\<forall>(k, v) \<in> set kvs. admissible s k v"
  shows "\<exists>s'. try_fold (\<lambda>s (k, v). put s k v) s kvs = Inr s' \<and> inv s' \<and> get s' = get s ++ map_of (rev kvs)"
  using assms
proof (induction kvs arbitrary: s)
  case (Cons kv kvs)
  obtain k v where kv: "kv = (k, v)" by (cases kv)
  have a: "admissible s k v" using Cons.prems(2) kv by simp
  with Cons.prems(1) obtain s1 where s1: "put s k v = Inr s1" using put_ok [of s k v] by auto
  have i1: "inv s1" using Cons.prems(1) s1 by (rule put_inv)
  have a1: "\<forall>(k, v) \<in> set kvs. admissible s1 k v"
    using Cons.prems(2) put_admissible [OF s1] by simp
  obtain s' where "try_fold (\<lambda>s (k, v). put s k v) s1 kvs = Inr s'" "inv s'"
    "get s' = get s1 ++ map_of (rev kvs)" using Cons.IH [OF i1 a1] by (elim exE conjE)
  moreover have "(get s)(k \<mapsto> v) ++ map_of (rev kvs) = get s ++ map_of (rev (kv # kvs))"
    by (simp add: kv)
  ultimately show ?case
    by (simp only: try_fold.simps kv prod.case s1 and_then.simps put_get [OF Cons.prems(1) a s1]) blast
qed simp

lemma put_same: "inv s \<Longrightarrow> admissible s k v \<Longrightarrow> put s k v = Inr s' \<Longrightarrow> get s' k = Some v"
  by (simp add: put_get)

lemma put_other: "inv s \<Longrightarrow> admissible s k v \<Longrightarrow> put s k v = Inr s' \<Longrightarrow> j \<noteq> k \<Longrightarrow> get s' j = get s j"
  by (simp add: put_get)

end

section \<open>Scenarios\<close>

text \<open>\<open>expect\<close> followed by assertions on the value.\<close>

definition passes :: "('a, 'e) result \<Rightarrow> ('a \<Rightarrow> bool) \<Rightarrow> bool" where
  "passes r P = (case r of Inr x \<Rightarrow> P x | Inl _ \<Rightarrow> False)"

lemma passes_simps [simp]: "passes (Inr x) P = P x" "passes (Inl e) P = False"
  by (simp_all add: passes_def)

end
