(* ===== verification/Types.thy ===== *)
theory Types
  imports Prelude
begin

text \<open>
  The data model of \<open>src/src/blockchain/types.rs\<close>: one \<open>record\<close> per struct and
  one \<open>datatype\<close> per enum. Field names carry a short prefix for their struct
  (\<open>tx_\<close>, \<open>h_\<close>, \<open>b_\<close>, \<open>a_\<close>, \<open>c_\<close>, \<open>p_\<close>, \<open>v_\<close>,
  \<open>r_\<close>), because record fields of different structs share names such as
  \<open>signature\<close> and \<open>nonce\<close>.

  The second part fixes how third-party code enters the development. The crates
  \<open>sha2\<close>, \<open>ed25519_dalek\<close> and \<open>bincode\<close> are not defined here: they are
  the fields of a record \<open>env\<close> that every definition using them takes as an
  argument. What the program relies on is stated by the named predicates
  \<open>sha256_spec\<close>, \<open>ed25519_spec\<close> and \<open>roundtrips\<close>, which occur as
  hypotheses of the theorems that need them.
\<close>

section \<open>Structs and enums\<close>

definition FIXED_TRANSACTION_FEE :: u64 where
  "FIXED_TRANSACTION_FEE = 1"

definition DEFAULT_SHARD_ID :: u16 where
  "DEFAULT_SHARD_ID = 0"

definition RECEIPT_PROOF_LENGTH :: nat where
  "RECEIPT_PROOF_LENGTH = 32"

datatype TransactionType =
    Transfer
  | Stake (stake_duration: u64)
  | Unstake
  | PublicToAnon
  | AnonToPublic
  | DeployContract
  | CallContract

datatype CrossShardPhase = Prepare | Validate | Commit

record CrossShardReceipt =
  r_tx_hash :: bytes
  r_source_shard :: u16
  r_destination_shard :: u16
  r_phase :: CrossShardPhase
  r_proof :: bytes

record Transaction =
  tx_type :: TransactionType
  tx_from :: bytes
  tx_to :: bytes
  tx_amount :: u64
  tx_fee :: u64
  tx_nonce :: u64
  tx_source_shard :: u16
  tx_destination_shard :: u16
  tx_signature :: bytes
  tx_data :: "bytes option"

definition is_cross_shard :: "Transaction \<Rightarrow> bool" where
  "is_cross_shard t \<longleftrightarrow> tx_source_shard t \<noteq> tx_destination_shard t"

record BlockHeader =
  h_version :: u32
  h_previous_hash :: bytes
  h_merkle_root :: bytes
  h_timestamp :: u64
  h_height :: u64
  h_validator :: bytes
  h_signature :: bytes

record Block =
  b_header :: BlockHeader
  b_transactions :: "Transaction list"
  b_receipts :: "CrossShardReceipt list"

record AnonymousAccountState =
  viewing_hint :: "bytes option"
  note_commitments :: "bytes list"

definition AnonymousAccountState_default :: AnonymousAccountState where
  "AnonymousAccountState_default = \<lparr>viewing_hint = None, note_commitments = []\<rparr>"

record Account =
  a_balance :: u64
  a_nonce :: u64
  a_code_hash :: "bytes option"
  a_anonymous_state :: AnonymousAccountState

record Contract =
  c_code_wasm :: bytes
  c_storage_root :: bytes

record ContractCallPayload =
  p_method :: string
  p_params :: bytes
  p_gas_limit :: u64

record Validator =
  v_address :: bytes
  v_stake :: u64
  v_locked_until :: u64

section \<open>Third-party code\<close>

text \<open>
  A serde type under \<open>bincode\<close>: both directions may fail with a message.
\<close>

record 'a codec =
  serialize :: "'a \<Rightarrow> string + bytes"
  deserialize :: "bytes \<Rightarrow> string + 'a"

text \<open>
  \<open>sha256_digest\<close> is the digest of everything a \<open>Sha256\<close> hasher absorbed.
  \<open>signing_public sk\<close> is \<open>SigningKey::from_bytes(sk).verifying_key().to_bytes()\<close>,
  \<open>signing_sign sk m\<close> is \<open>SigningKey::from_bytes(sk).sign(m).to_bytes()\<close>,
  \<open>verifying_key_ok\<close> says that \<open>VerifyingKey::from_bytes\<close> accepts the bytes and
  \<open>verifying_verify\<close> that \<open>verify\<close> returns \<open>Ok\<close>.
\<close>

record env =
  sha256_digest :: "bytes \<Rightarrow> bytes"
  signing_public :: "bytes \<Rightarrow> bytes"
  signing_sign :: "bytes \<Rightarrow> bytes \<Rightarrow> bytes"
  verifying_key_ok :: "bytes \<Rightarrow> bool"
  verifying_verify :: "bytes \<Rightarrow> bytes \<Rightarrow> bytes \<Rightarrow> bool"
  bc_transaction :: "Transaction codec"
  bc_header :: "BlockHeader codec"
  bc_block :: "Block codec"
  bc_account :: "Account codec"
  bc_contract :: "Contract codec"
  bc_payload :: "ContractCallPayload codec"
  bc_validator :: "Validator codec"
  bc_u64 :: "u64 codec"

text \<open>SHA-256 digests have 32 bytes.\<close>

definition sha256_spec :: "'z env_scheme \<Rightarrow> bool" where
  "sha256_spec E \<longleftrightarrow> (\<forall>x. length (sha256_digest E x) = 32)"

text \<open>
  Ed25519 keys made from a 32-byte secret are accepted by \<open>VerifyingKey::from_bytes\<close>,
  have 32 bytes, and verify the 64-byte signatures of their own secret.
\<close>

definition ed25519_spec :: "'z env_scheme \<Rightarrow> bool" where
  "ed25519_spec E \<longleftrightarrow>
     (\<forall>sk m. length sk = 32 \<longrightarrow>
        length (signing_public E sk) = 32 \<and>
        verifying_key_ok E (signing_public E sk) \<and>
        length (signing_sign E sk m) = 64 \<and>
        verifying_verify E (signing_public E sk) m (signing_sign E sk m))"

text \<open>A value survives serialisation followed by deserialisation.\<close>

definition roundtrips :: "'a codec \<Rightarrow> 'a \<Rightarrow> bool" where
  "roundtrips c x \<longleftrightarrow> (case serialize c x of Inl _ \<Rightarrow> False | Inr b \<Rightarrow> deserialize c b = Inr x)"

lemma roundtripsE:
  assumes "roundtrips c x"
  obtains b where "serialize c x = Inr b" and "deserialize c b = Inr x"
  using assms by (auto simp: roundtrips_def split: sum.splits)

lemma roundtrips_inj:
  assumes "roundtrips c x" and "roundtrips c y" and "serialize c x = serialize c y"
  shows "x = y"
  using assms by (auto elim!: roundtripsE)

text \<open>\<open>try_into\<close> from a byte string to an array of \<open>n\<close> bytes.\<close>

definition try_into_array :: "nat \<Rightarrow> 'e \<Rightarrow> bytes \<Rightarrow> (bytes, 'e) result" where
  "try_into_array n e bs = (if length bs = n then Inr bs else Inl e)"

lemma try_into_array_Inr [result_simps]:
  "try_into_array n e bs = Inr x \<longleftrightarrow> length bs = n \<and> x = bs"
  by (auto simp: try_into_array_def)

lemma try_into_array_Inl [result_simps]:
  "try_into_array n e bs = Inl d \<longleftrightarrow> length bs \<noteq> n \<and> d = e"
  by (auto simp: try_into_array_def)

end
