(* ===== verification/Text.thy ===== *)
theory Text
  imports Prelude
begin

text \<open>
  The text operations of the standard library that the sources use: \<open>trim\<close>, \<open>split\<close>,
  \<open>from_utf8\<close>, formatting an unsigned integer in decimal and parsing one, with the round
  trip between the last two. A character is a code point below 256.
\<close>

section \<open>White space and splitting\<close>

text \<open>\<open>str::trim\<close>.\<close>

definition is_whitespace :: "char \<Rightarrow> bool" where
  "is_whitespace c \<longleftrightarrow> (9 \<le> (of_char c :: nat) \<and> (of_char c :: nat) \<le> 13) \<or> of_char c \<in> {32, 133, 160 :: nat}"

definition trim :: "string \<Rightarrow> string" where
  "trim s = rev (dropWhile is_whitespace (rev (dropWhile is_whitespace s)))"

text \<open>\<open>str::split\<close> at a character.\<close>

fun split_char :: "char \<Rightarrow> string \<Rightarrow> string list" where
  "split_char sep [] = [[]]"
| "split_char sep (c # s) =
     (if c = sep then [] # split_char sep s
      else (case split_char sep s of [] \<Rightarrow> [[c]] | w # ws \<Rightarrow> (c # w) # ws))"

section \<open>UTF-8\<close>

text \<open>
  \<open>str::from_utf8\<close>: the well-formed byte sequences of the Unicode standard.
\<close>

definition utf8_cont :: "u8 \<Rightarrow> bool" where
  "utf8_cont b \<longleftrightarrow> 128 \<le> b \<and> b \<le> 191"

function utf8_valid :: "bytes \<Rightarrow> bool" where
  "utf8_valid bs = (case bs of
      [] \<Rightarrow> True
    | a # r \<Rightarrow>
        if a < 128 then utf8_valid r
        else if 194 \<le> a \<and> a \<le> 223 then r \<noteq> [] \<and> utf8_cont (hd r) \<and> utf8_valid (drop 1 r)
        else if 224 \<le> a \<and> a \<le> 239 then
          2 \<le> length r \<and> utf8_cont (r ! 0) \<and> utf8_cont (r ! 1) \<and>
          (if a = 224 then 160 \<le> r ! 0 else if a = 237 then r ! 0 \<le> 159 else True) \<and> utf8_valid (drop 2 r)
        else if 240 \<le> a \<and> a \<le> 244 then
          3 \<le> length r \<and> utf8_cont (r ! 0) \<and> utf8_cont (r ! 1) \<and> utf8_cont (r ! 2) \<and>
          (if a = 240 then 144 \<le> r ! 0 else if a = 244 then r ! 0 \<le> 143 else True) \<and> utf8_valid (drop 3 r)
        else False)"
  by pat_completeness auto
termination by (relation "measure length") auto

declare utf8_valid.simps [simp del]

section \<open>Decimal formatting\<close>

text \<open>\<open>format!\<close> of an unsigned integer.\<close>

definition digit :: "nat \<Rightarrow> char" where
  "digit d = char_of (48 + d)"

fun decimal :: "nat \<Rightarrow> string" where
  "decimal n = (if n < 10 then [digit n] else decimal (n div 10) @ [digit (n mod 10)])"

declare decimal.simps [simp del]

definition read_decimal :: "string \<Rightarrow> nat" where
  "read_decimal s = foldl (\<lambda>acc c. 10 * acc + (of_char c - 48)) 0 s"

lemma of_char_digit: "d < 10 \<Longrightarrow> of_char (digit d) = (48 + d :: nat)"
  by (simp add: digit_def)

lemma read_decimal_decimal: "read_decimal (decimal n) = n"
proof (induction n rule: decimal.induct)
  case (1 n)
  show ?case
  proof (cases "n < 10")
    case True
    then show ?thesis by (simp add: decimal.simps [of n] read_decimal_def of_char_digit)
  next
    case False
    then have "read_decimal (decimal n) = 10 * read_decimal (decimal (n div 10)) + n mod 10"
      by (subst decimal.simps) (simp add: read_decimal_def of_char_digit)
    with 1 False show ?thesis by simp
  qed
qed

lemma decimal_inj: "decimal m = decimal n \<longleftrightarrow> m = n"
  by (metis read_decimal_decimal)

lemma bytes_of_append: "bytes_of (s @ t) = bytes_of s @ bytes_of t"
  by (simp add: bytes_of_def)

lemma bytes_of_inj: "bytes_of s = bytes_of t \<longleftrightarrow> s = t"
proof
  have inj: "inj (of_char :: char \<Rightarrow> u8)"
  proof (rule injI)
    fix c d :: char assume "(of_char c :: u8) = of_char d"
    then have "unat (of_nat (of_char c) :: u8) = unat (of_nat (of_char d) :: u8)"
      by (simp only: of_nat_of_char)
    then have "(of_char c :: nat) = of_char d"
      using nat_of_char_less_256 [of c] nat_of_char_less_256 [of d]
      by (simp add: unat_of_nat take_bit_nat_eq_self)
    then show "c = d" by simp
  qed
  assume "bytes_of s = bytes_of t"
  then show "s = t" using inj by (simp add: bytes_of_def inj_map_eq_map)
qed simp

section \<open>Parsing\<close>

text \<open>
  \<open>str::parse\<close> to an unsigned integer of \<open>w\<close> bits: an optional plus sign and at least one
  digit, without overflow.
\<close>

fun parse_digits :: "nat \<Rightarrow> nat \<Rightarrow> bytes \<Rightarrow> nat option" where
  "parse_digits w acc [] = Some acc"
| "parse_digits w acc (c # cs) =
     (if 48 \<le> c \<and> c \<le> 57
      then let v = 10 * acc + unat (c - 48) in if v < 2 ^ w then parse_digits w v cs else None
      else None)"

definition parse_uint :: "nat \<Rightarrow> bytes \<Rightarrow> nat option" where
  "parse_uint w text =
     (if text = [] \<or> text = [43] \<or> text = [45] then None
      else parse_digits w 0 (if hd text = 43 then tl text else text))"

lemma parse_digits_append:
  "parse_digits w acc (xs @ ys) = (case parse_digits w acc xs of None \<Rightarrow> None | Some a \<Rightarrow> parse_digits w a ys)"
  by (induction xs arbitrary: acc) (auto simp: Let_def)

lemma digit_byte: "d < 10 \<Longrightarrow> bytes_of [digit d] = [48 + of_nat d]"
proof -
  assume "d < 10"
  then have "(of_char (digit d) :: nat) = 48 + d" by (rule of_char_digit)
  then have "(of_nat (of_char (digit d)) :: u8) = of_nat (48 + d)" by simp
  then show ?thesis by (simp add: bytes_of_def of_nat_of_char)
qed

lemma digit_word: "d < 10 \<Longrightarrow> unat (48 + of_nat d :: u8) = 48 + d"
  by (simp add: unat_word_ariths unat_of_nat take_bit_nat_eq_self)

lemma decimal_bytes:
  "bytes_of (decimal n) \<noteq> [] \<and> (\<forall>b \<in> set (bytes_of (decimal n)). 48 \<le> unat b \<and> unat b \<le> 57)"
proof (induction n rule: decimal.induct)
  case (1 n)
  have d: "unat (48 + of_nat (n mod 10) :: u8) = 48 + n mod 10" by (rule digit_word) simp
  show ?case
  proof (cases "n < 10")
    case True
    with d show ?thesis by (simp add: decimal.simps [of n] digit_byte)
  next
    case False
    then have "bytes_of (decimal n) = bytes_of (decimal (n div 10)) @ [48 + of_nat (n mod 10)]"
      using digit_byte [of "n mod 10"] by (simp add: decimal.simps [of n] bytes_of_append)
    with 1 [OF False] d show ?thesis by auto
  qed
qed

lemma parse_digit_byte:
  assumes "d < 10" and "10 * a + d < 2 ^ w"
  shows "parse_digits w a [48 + of_nat d] = Some (10 * a + d)"
proof -
  have w: "unat (48 + of_nat d :: u8) = 48 + d" using assms(1) by (rule digit_word)
  have "(48 :: u8) \<le> 48 + of_nat d" "48 + of_nat d \<le> (57 :: u8)"
    using w assms(1) by (simp_all add: word_le_nat_alt)
  moreover have "unat (of_nat d :: u8) = d" using assms(1) by (simp add: unat_of_nat take_bit_nat_eq_self)
  ultimately show ?thesis using assms(2) by (simp add: Let_def)
qed

lemma parse_decimal: "n < 2 ^ w \<Longrightarrow> parse_digits w 0 (bytes_of (decimal n)) = Some n"
proof (induction n rule: decimal.induct)
  case (1 n)
  show ?case
  proof (cases "n < 10")
    case True
    with 1 parse_digit_byte [of n 0] show ?thesis by (simp add: decimal.simps [of n] digit_byte)
  next
    case False
    then have "bytes_of (decimal n) = bytes_of (decimal (n div 10)) @ [48 + of_nat (n mod 10)]"
      using digit_byte [of "n mod 10"] by (simp add: decimal.simps [of n] bytes_of_append)
    moreover have "parse_digits w 0 (bytes_of (decimal (n div 10))) = Some (n div 10)"
      using 1 False by simp
    moreover have "parse_digits w (n div 10) [48 + of_nat (n mod 10)] = Some n"
      using parse_digit_byte [of "n mod 10" "n div 10"] 1(2) by simp
    ultimately show ?thesis by (simp add: parse_digits_append del: parse_digits.simps)
  qed
qed

lemma utf8_ascii: "\<forall>b \<in> set bs. b < 128 \<Longrightarrow> utf8_valid bs"
  by (induction bs) (simp_all add: utf8_valid.simps)

lemma parse_uint_decimal:
  assumes "n < 2 ^ w"
  shows "parse_uint w (bytes_of (decimal n)) = Some n"
proof -
  let ?t = "bytes_of (decimal n)"
  have ne: "?t \<noteq> []" and range: "\<forall>b \<in> set ?t. 48 \<le> unat b \<and> unat b \<le> 57" using decimal_bytes [of n] by auto
  have "hd ?t \<in> set ?t" using ne by simp
  with range have "hd ?t \<noteq> 43" "hd ?t \<noteq> 45" by fastforce+
  with ne have "\<not> (?t = [] \<or> ?t = [43] \<or> ?t = [45])" by auto
  with \<open>hd ?t \<noteq> 43\<close> show ?thesis
    using parse_decimal [OF assms] by (simp add: parse_uint_def)
qed

end
