(* ===== verification/Keys.thy ===== *)
theory Keys
  imports Types Text "HOL-Library.Sublist"
begin

text \<open>
  \<open>src/src/storage/keys.rs\<close>: the keys of the database. The theory shows that different
  kinds of keys never meet, and exactly when two keys are equal: keys with one part determine
  it; contract storage keys and viewing index keys join two parts by a colon and determine them
  when the first parts have the same length, but not in general.
\<close>

section \<open>Keys\<close>

definition BLOCK_PREFIX :: string where "BLOCK_PREFIX = ''b:''"
definition HEIGHT_INDEX_PREFIX :: string where "HEIGHT_INDEX_PREFIX = ''h:''"
definition TRANSACTION_PREFIX :: string where "TRANSACTION_PREFIX = ''t:''"
definition ACCOUNT_PREFIX :: string where "ACCOUNT_PREFIX = ''a:''"
definition STAKE_PREFIX :: string where "STAKE_PREFIX = ''s:''"
definition CONTRACT_CODE_PREFIX :: string where "CONTRACT_CODE_PREFIX = ''c:''"
definition CONTRACT_STORAGE_PREFIX :: string where "CONTRACT_STORAGE_PREFIX = ''m:''"
definition ANON_NOTE_PREFIX :: string where "ANON_NOTE_PREFIX = ''n:''"
definition VIEWING_NOTE_INDEX_PREFIX :: string where "VIEWING_NOTE_INDEX_PREFIX = ''v:''"
definition NOTE_MERKLE_ROOT_PREFIX :: string where "NOTE_MERKLE_ROOT_PREFIX = ''r:''"

lemmas prefix_defs = BLOCK_PREFIX_def HEIGHT_INDEX_PREFIX_def TRANSACTION_PREFIX_def ACCOUNT_PREFIX_def
  STAKE_PREFIX_def CONTRACT_CODE_PREFIX_def CONTRACT_STORAGE_PREFIX_def ANON_NOTE_PREFIX_def
  VIEWING_NOTE_INDEX_PREFIX_def NOTE_MERKLE_ROOT_PREFIX_def

definition prefixed_key :: "string \<Rightarrow> bytes \<Rightarrow> bytes" where
  "prefixed_key pre rest = bytes_of pre @ rest"

definition block_key :: "u64 \<Rightarrow> bytes" where
  "block_key height = bytes_of (BLOCK_PREFIX @ decimal (unat height))"

definition height_index_key :: "bytes \<Rightarrow> bytes" where
  "height_index_key hash = prefixed_key HEIGHT_INDEX_PREFIX hash"

definition transaction_key :: "bytes \<Rightarrow> bytes" where
  "transaction_key hash = prefixed_key TRANSACTION_PREFIX hash"

definition account_key :: "bytes \<Rightarrow> bytes" where
  "account_key address = prefixed_key ACCOUNT_PREFIX address"

definition stake_key :: "bytes \<Rightarrow> bytes" where
  "stake_key address = prefixed_key STAKE_PREFIX address"

definition contract_key :: "bytes \<Rightarrow> bytes" where
  "contract_key address = prefixed_key CONTRACT_CODE_PREFIX address"

definition contract_code_key :: "bytes \<Rightarrow> bytes" where
  "contract_code_key address = contract_key address"

definition contract_storage_prefix :: "bytes \<Rightarrow> bytes" where
  "contract_storage_prefix address = bytes_of CONTRACT_STORAGE_PREFIX @ address @ bytes_of '':''"

definition contract_storage_key :: "bytes \<Rightarrow> bytes \<Rightarrow> bytes" where
  "contract_storage_key address key = contract_storage_prefix address @ key"

definition anonymous_note_key :: "bytes \<Rightarrow> bytes" where
  "anonymous_note_key c = prefixed_key ANON_NOTE_PREFIX c"

definition viewing_hint_prefix :: "bytes \<Rightarrow> bytes" where
  "viewing_hint_prefix hint = bytes_of VIEWING_NOTE_INDEX_PREFIX @ hint @ bytes_of '':''"

definition viewing_hint_note_key :: "bytes \<Rightarrow> bytes \<Rightarrow> bytes" where
  "viewing_hint_note_key hint c = viewing_hint_prefix hint @ c"

fun note_merkle_root_key :: "u16 option \<Rightarrow> bytes" where
  "note_merkle_root_key (Some shard_id) = bytes_of (NOTE_MERKLE_ROOT_PREFIX @ ''shard:'' @ decimal (unat shard_id))"
| "note_merkle_root_key None = bytes_of (NOTE_MERKLE_ROOT_PREFIX @ ''global'')"

section \<open>Separation\<close>

text \<open>Every key the storage layer writes.\<close>

datatype db_key =
    BlockKey u64
  | HeightIndexKey bytes
  | TransactionKey bytes
  | AccountKey bytes
  | StakeKey bytes
  | ContractKey bytes
  | StorageKey bytes bytes
  | NoteKey bytes
  | ViewingKey bytes bytes
  | NoteRootKey "u16 option"

fun encode_key :: "db_key \<Rightarrow> bytes" where
  "encode_key (BlockKey h) = block_key h"
| "encode_key (HeightIndexKey h) = height_index_key h"
| "encode_key (TransactionKey h) = transaction_key h"
| "encode_key (AccountKey a) = account_key a"
| "encode_key (StakeKey a) = stake_key a"
| "encode_key (ContractKey a) = contract_key a"
| "encode_key (StorageKey a k) = contract_storage_key a k"
| "encode_key (NoteKey c) = anonymous_note_key c"
| "encode_key (ViewingKey h c) = viewing_hint_note_key h c"
| "encode_key (NoteRootKey s) = note_merkle_root_key s"

lemmas key_defs = height_index_key_def transaction_key_def account_key_def stake_key_def
  contract_key_def contract_storage_key_def contract_storage_prefix_def anonymous_note_key_def
  viewing_hint_note_key_def viewing_hint_prefix_def prefixed_key_def

lemma note_merkle_root_key_inj: "note_merkle_root_key s = note_merkle_root_key t \<longleftrightarrow> s = t"
proof -
  have "unat a = unat b \<longleftrightarrow> a = b" for a b :: u16 by (auto intro: unat_inj)
  then show ?thesis
    by (cases s; cases t) (simp_all add: bytes_of_inj decimal_inj prefix_defs)
qed

fun key_tag :: "db_key \<Rightarrow> u8" where
  "key_tag (BlockKey h) = 98"
| "key_tag (HeightIndexKey h) = 104"
| "key_tag (TransactionKey h) = 116"
| "key_tag (AccountKey a) = 97"
| "key_tag (StakeKey a) = 115"
| "key_tag (ContractKey a) = 99"
| "key_tag (StorageKey a k) = 109"
| "key_tag (NoteKey c) = 110"
| "key_tag (ViewingKey h c) = 118"
| "key_tag (NoteRootKey s) = 114"

lemma encode_key_tag: "take 1 (encode_key k) = [key_tag k]"
proof (cases k)
  case (NoteRootKey s)
  then show ?thesis by (cases s) (simp_all add: prefix_defs bytes_of_def)
qed (simp_all add: block_key_def key_defs prefix_defs bytes_of_def)

lemma same_tag_cases:
  "key_tag k = key_tag k' \<Longrightarrow>
   (\<exists>a b. k = BlockKey a \<and> k' = BlockKey b) \<or> (\<exists>a b. k = HeightIndexKey a \<and> k' = HeightIndexKey b) \<or>
   (\<exists>a b. k = TransactionKey a \<and> k' = TransactionKey b) \<or> (\<exists>a b. k = AccountKey a \<and> k' = AccountKey b) \<or>
   (\<exists>a b. k = StakeKey a \<and> k' = StakeKey b) \<or> (\<exists>a b. k = ContractKey a \<and> k' = ContractKey b) \<or>
   (\<exists>a b c d. k = StorageKey a b \<and> k' = StorageKey c d) \<or> (\<exists>a b. k = NoteKey a \<and> k' = NoteKey b) \<or>
   (\<exists>a b c d. k = ViewingKey a b \<and> k' = ViewingKey c d) \<or> (\<exists>a b. k = NoteRootKey a \<and> k' = NoteRootKey b)"
  by (cases k; cases k') simp_all

lemma block_key_inj: "block_key a = block_key b \<longleftrightarrow> a = b"
  using unat_inj [of a b] by (auto simp: block_key_def bytes_of_inj decimal_inj)

text \<open>The two parts of the keys that join two parts, and how they are joined.\<close>

fun key_parts :: "db_key \<Rightarrow> (bytes \<times> bytes) option" where
  "key_parts (StorageKey a k) = Some (a, k)"
| "key_parts (ViewingKey h c) = Some (h, c)"
| "key_parts k = None"

definition joined :: "bytes \<times> bytes \<Rightarrow> bytes" where
  "joined = (\<lambda>(a, k). a @ bytes_of '':'' @ k)"

text \<open>
  C33. Exactly which database keys coincide. Keys of different kinds never do, so a write for one
  kind of record cannot touch another. Keys of one kind coincide only when they are built from the
  same value, except that two contract storage keys, or two viewing index keys, coincide exactly
  when their parts joined by a colon do, which for first parts of equal length means equal parts.
\<close>

theorem encode_key_eq_iff:
  "encode_key k = encode_key k' \<longleftrightarrow>
     key_tag k = key_tag k' \<and>
     (k = k' \<or> (\<exists>p q. key_parts k = Some p \<and> key_parts k' = Some q \<and> joined p = joined q \<and> length (fst p) \<noteq> length (fst q)))"
    (is "_ \<longleftrightarrow> ?tags \<and> ?same")
proof
  assume eq: "encode_key k = encode_key k'"
  then have tags: ?tags using encode_key_tag [of k] encode_key_tag [of k'] by simp
  from same_tag_cases [OF tags] eq have ?same
    by (elim disjE exE conjE) (auto simp: block_key_inj note_merkle_root_key_inj key_defs joined_def)
  with tags show "?tags \<and> ?same" ..
next
  assume r: "?tags \<and> ?same"
  then have ?tags ..
  from same_tag_cases [OF this] r show "encode_key k = encode_key k'"
    by (elim disjE exE conjE) (auto simp: key_defs joined_def)
qed

text \<open>
  With addresses of different lengths contract storage is not separated: the slot of one
  contract can be the slot of another, because the separator byte may also occur in addresses
  and keys.
\<close>

theorem contract_storage_key_ambiguous:
  "\<exists>a k b l. a \<noteq> b \<and> contract_storage_key a k = contract_storage_key b l"
  by (intro exI [of _ "[1]"] exI [of _ "[2, 58, 3]"] exI [of _ "[1, 58, 2]"] exI [of _ "[3]"])
    (simp add: contract_storage_key_def contract_storage_prefix_def bytes_of_def)

end
