(* ===== verification/Samples.thy ===== *)
theory Samples
  imports Types
begin

text \<open>
  Concrete values for the witness theorems: transactions that differ in their nonce, as the
  fixtures of the unit tests do, and an instance \<open>sample_env\<close> of the third-party
  interface that satisfies \<open>sha256_spec\<close>, \<open>ed25519_spec\<close> and round-trips the
  sample values. Nothing outside the witnesses refers to it.
\<close>

definition sample_tx :: "u64 \<Rightarrow> Transaction" where
  "sample_tx n = \<lparr>tx_type = Transfer, tx_from = replicate 32 1, tx_to = replicate 32 2,
     tx_amount = 42, tx_fee = 1, tx_nonce = n, tx_source_shard = 0, tx_destination_shard = 0,
     tx_signature = replicate 64 9, tx_data = None\<rparr>"

definition sample_header :: "bytes \<Rightarrow> bytes \<Rightarrow> BlockHeader" where
  "sample_header prev root = \<lparr>h_version = 1, h_previous_hash = prev, h_merkle_root = root,
     h_timestamp = 0, h_height = 1, h_validator = replicate 32 7, h_signature = []\<rparr>"

definition sample_account :: "u64 \<Rightarrow> u64 \<Rightarrow> Account" where
  "sample_account bal n = \<lparr>a_balance = bal, a_nonce = n, a_code_hash = None,
     a_anonymous_state = AnonymousAccountState_default\<rparr>"

text \<open>A codec that writes one 64-bit field and rebuilds the rest from a template.\<close>

definition field_codec :: "('a \<Rightarrow> u64) \<Rightarrow> (u64 \<Rightarrow> 'a) \<Rightarrow> 'a codec" where
  "field_codec get mk =
     \<lparr>serialize = (\<lambda>x. Inr (to_be_bytes 8 (get x))),
      deserialize = (\<lambda>b. Inr (mk (from_be_bytes b)))\<rparr>"

definition sample_digest :: "bytes \<Rightarrow> bytes" where
  "sample_digest x = replicate 32 (of_nat (length x))"

definition sample_env :: env where
  "sample_env = \<lparr>
     sha256_digest = sample_digest,
     signing_public = (\<lambda>sk. sk),
     signing_sign = (\<lambda>sk m. sk @ sample_digest m),
     verifying_key_ok = (\<lambda>pk. True),
     verifying_verify = (\<lambda>pk m s. s = pk @ sample_digest m),
     bc_transaction = field_codec tx_nonce sample_tx,
     bc_header = field_codec h_height (\<lambda>n. (sample_header [] [])\<lparr>h_height := n\<rparr>),
     bc_block = field_codec (h_height \<circ> b_header)
       (\<lambda>n. \<lparr>b_header = (sample_header [] [])\<lparr>h_height := n\<rparr>, b_transactions = [], b_receipts = []\<rparr>),
     bc_account = field_codec a_balance (\<lambda>n. sample_account n 0),
     bc_contract = field_codec (\<lambda>c. 0) (\<lambda>n. \<lparr>c_code_wasm = [], c_storage_root = []\<rparr>),
     bc_payload = field_codec p_gas_limit (\<lambda>n. \<lparr>p_method = ''run'', p_params = [], p_gas_limit = n\<rparr>),
     bc_validator = field_codec v_stake (\<lambda>n. \<lparr>v_address = [], v_stake = n, v_locked_until = 0\<rparr>),
     bc_u64 = field_codec (\<lambda>n. n) (\<lambda>n. n)\<rparr>"

lemma sample_env_sha256: "sha256_spec sample_env"
  by (simp add: sha256_spec_def sample_env_def sample_digest_def)

lemma sample_env_ed25519: "ed25519_spec sample_env"
  by (simp add: ed25519_spec_def sample_env_def sample_digest_def)

lemma replicate_32_le: "(replicate 32 a \<le> replicate 32 b) = (a \<le> (b :: u8))"
proof -
  have "replicate 32 x = x # replicate 31 x" for x :: u8 by (simp add: numeral_eq_Suc)
  then show ?thesis by (auto simp: order.order_iff_strict)
qed

text \<open>
  A second instance, whose hash has 16 bits, written 16 times, for statements that need digests without collisions
  among given strings.
\<close>

definition spread :: "bytes \<Rightarrow> 16 word" where
  "spread x = foldl (\<lambda>h b. h * 31 + ucast b + 1) 7 x"

definition spread_bytes :: "16 word \<Rightarrow> bytes" where
  "spread_bytes h = concat (replicate 16 [ucast h, ucast (drop_bit 8 h)])"

definition spread_env :: env where
  "spread_env = sample_env\<lparr>sha256_digest := spread_bytes \<circ> spread\<rparr>"

lemma spread_digest: "sha256_digest spread_env x = spread_bytes (spread x)"
  by (simp add: spread_env_def)

lemma spread_bytes_inj: "spread_bytes a = spread_bytes b \<longleftrightarrow> a = b"
proof
  assume "spread_bytes a = spread_bytes b"
  then have low: "(ucast a :: u8) = ucast b" and high: "(ucast (drop_bit 8 a) :: u8) = ucast (drop_bit 8 b)"
    by (simp_all add: spread_bytes_def numeral_eq_Suc)
  show "a = b"
  proof (rule bit_word_eqI)
    fix n
    assume n: "n < LENGTH(16)"
    show "bit a n = bit b n"
    proof (cases "n < 8")
      case True
      with arg_cong [OF low, of "\<lambda>w. bit w n"] n show ?thesis by (simp add: bit_ucast_iff)
    next
      case False
      then have "n - 8 < 8" using n by simp
      with False arg_cong [OF high, of "\<lambda>w. bit w (n - 8)"] n show ?thesis by (simp add: bit_ucast_iff bit_drop_bit_eq)
    qed
  qed
qed simp

lemma spread_env_spec: "sha256_spec spread_env" "ed25519_spec spread_env"
proof -
  have "length (spread_bytes h) = 32" for h by (simp add: spread_bytes_def numeral_eq_Suc)
  then show "sha256_spec spread_env" by (simp add: sha256_spec_def spread_digest)
  show "ed25519_spec spread_env" by (simp add: ed25519_spec_def spread_env_def sample_env_def sample_digest_def)
qed

end
