(* ===== verification/Hash.thy ===== *)
theory Hash
  imports Types Samples
begin

text \<open>
  \<open>src/src/blockchain/hash.rs\<close>: SHA-256 wrappers, contract addresses and the
  transaction Merkle root. The pairing step of a Merkle level is shared with the note tree
  of the privacy module, so its laws are an interface here: the locale
  \<open>level_reduction\<close>, with the loop's length, determinism and binding lemmas proved
  once.
\<close>

section \<open>Pairing one level\<close>

text \<open>\<open>slice::chunks(2)\<close>.\<close>

fun chunks2 :: "'a list \<Rightarrow> 'a list list" where
  "chunks2 [] = []"
| "chunks2 [x] = [[x]]"
| "chunks2 (x # y # zs) = [x, y] # chunks2 zs"

text \<open>
  The specification of a level step: element \<open>i\<close> of the next level combines elements
  \<open>2 i\<close> and \<open>2 i + 1\<close>, or \<open>2 i\<close> with itself at an odd end.
\<close>

fun pairs_of :: "'a list \<Rightarrow> ('a \<times> 'a) list" where
  "pairs_of [] = []"
| "pairs_of [x] = [(x, x)]"
| "pairs_of (x # y # zs) = (x, y) # pairs_of zs"

lemma length_pairs_of [simp]: "length (pairs_of l) = (length l + 1) div 2"
  by (induction l rule: pairs_of.induct) auto

lemma pairs_of_set: "(a, b) \<in> set (pairs_of l) \<Longrightarrow> a \<in> set l \<and> b \<in> set l"
  by (induction l rule: pairs_of.induct) auto

lemma pairs_of_inj:
  "length l = length l' \<Longrightarrow> pairs_of l = pairs_of l' \<Longrightarrow> l = l'"
proof (induction l arbitrary: l' rule: pairs_of.induct)
  case 1
  then show ?case by simp
next
  case (2 x)
  then show ?case by (cases l' rule: pairs_of.cases) auto
next
  case (3 x y zs)
  then show ?case by (cases l' rule: pairs_of.cases) auto
qed

lemma pairs_of_duplicate_last:
  "odd (length l) \<Longrightarrow> pairs_of (l @ [last l]) = pairs_of l"
  by (induction l rule: pairs_of.induct) auto

lemma nth_pairs_of:
  "i < length l \<Longrightarrow>
   pairs_of l ! (i div 2) =
     (if even i then (l ! i, if i + 1 < length l then l ! (i + 1) else l ! i)
      else (l ! (i - 1), l ! i))"
proof (induction l arbitrary: i rule: pairs_of.induct)
  case (3 x y zs)
  show ?case
  proof (cases "i < 2")
    case True
    then have "i = 0 \<or> i = 1" by auto
    then show ?thesis by (elim disjE) simp_all
  next
    case False
    then obtain j where j: "i = Suc (Suc j)" by (metis add_2_eq_Suc le_add_diff_inverse not_less)
    have "pairs_of zs ! (j div 2) =
      (if even j then (zs ! j, if j + 1 < length zs then zs ! (j + 1) else zs ! j)
       else (zs ! (j - 1), zs ! j))"
      by (rule 3) (use 3(2) j in simp)
    then show ?thesis using j by (cases j) auto
  qed
qed auto

text \<open>
  Exactly the pairs that a loop with level step \<open>nxt\<close> combines when it starts from \<open>l\<close>: those of
  every level that the loop enters with more than one element.
\<close>

definition combined :: "('h list \<Rightarrow> 'h list) \<Rightarrow> 'h list \<Rightarrow> ('h \<times> 'h) set" where
  "combined nxt l = (\<Union>k \<in> set (filter (\<lambda>k. 1 < length ((nxt ^^ k) l)) [0..<length l]). set (pairs_of ((nxt ^^ k) l)))"

text \<open>
  The interface: a combiner \<open>node\<close>, the code's level step \<open>nxt\<close> and its
  \<open>while level.len() > 1\<close> loop \<open>reduce\<close>.
\<close>

locale level_reduction =
  fixes node :: "'h \<Rightarrow> 'h \<Rightarrow> 'h"
    and nxt :: "'h list \<Rightarrow> 'h list"
    and reduce :: "'h list \<Rightarrow> 'h list"
  assumes nxt_pairs: "nxt l = map (\<lambda>(a, b). node a b) (pairs_of l)"
    and reduce_unfold: "reduce l = (if 1 < length l then reduce (nxt l) else l)"
begin

lemma length_nxt: "length (nxt l) = (length l + 1) div 2"
  by (simp add: nxt_pairs)

lemma reduce_step: "1 < length l \<Longrightarrow> reduce l = reduce (nxt l)"
  by (subst reduce_unfold) simp

lemma reduce_stop: "\<not> 1 < length l \<Longrightarrow> reduce l = l"
  by (subst reduce_unfold) simp

lemma length_reduce: "l \<noteq> [] \<Longrightarrow> length (reduce l) = 1"
proof (induction "length l" arbitrary: l rule: less_induct)
  case less
  show ?case
  proof (cases "1 < length l")
    case True
    then have lt: "length (nxt l) < length l" by (simp add: length_nxt)
    have "nxt l \<noteq> []" using True length_nxt [of l] by auto
    with less.hyps [OF lt] have "length (reduce (nxt l)) = 1" by simp
    with True show ?thesis by (simp add: reduce_step)
  next
    case False
    with less.prems have "length l = 1" by (cases l) auto
    then show ?thesis by (simp add: reduce_stop)
  qed
qed

text \<open>An odd level and the level with its last element repeated reduce to the same value.\<close>

lemma reduce_duplicate_last:
  assumes "odd (length l)" and "1 < length l"
  shows "reduce (l @ [last l]) = reduce l"
proof -
  have "nxt (l @ [last l]) = nxt l"
    using assms(1) by (simp add: nxt_pairs pairs_of_duplicate_last)
  moreover have "1 < length (l @ [last l])" using assms(2) by (cases l) auto
  ultimately show ?thesis using assms(2) by (simp only: reduce_step)
qed

lemma combined_iff: "p \<in> combined nxt l \<longleftrightarrow> (\<exists>k < length l. 1 < length ((nxt ^^ k) l) \<and> p \<in> set (pairs_of ((nxt ^^ k) l)))"
  by (auto simp: combined_def)

lemma pairs_combined: "1 < length l \<Longrightarrow> set (pairs_of l) \<subseteq> combined nxt l"
  by (auto simp: combined_iff intro!: exI [of _ 0])

lemma combined_nxt:
  assumes "1 < length l"
  shows "combined nxt (nxt l) \<subseteq> combined nxt l"
proof
  fix p assume "p \<in> combined nxt (nxt l)"
  then obtain k where k: "k < length (nxt l)" "1 < length ((nxt ^^ Suc k) l)" "p \<in> set (pairs_of ((nxt ^^ Suc k) l))"
    unfolding funpow_Suc_right by (auto simp: combined_iff)
  moreover have "Suc k < length l" using k(1) assms by (simp add: length_nxt)
  ultimately show "p \<in> combined nxt l" unfolding combined_iff by blast
qed

text \<open>A property of all leaves that the combiner keeps holds of every combined value.\<close>

lemma combined_invariant:
  assumes leaves: "\<forall>x \<in> set l. Q x" and node: "\<And>a b. Q a \<Longrightarrow> Q b \<Longrightarrow> Q (node a b)"
    and ab: "(a, b) \<in> combined nxt l"
  shows "Q a \<and> Q b"
proof -
  have nxtQ: "\<forall>x \<in> set (nxt m). Q x" if "\<forall>x \<in> set m. Q x" for m
  proof
    fix x assume "x \<in> set (nxt m)"
    then obtain c d where cd: "(c, d) \<in> set (pairs_of m)" "x = node c d"
      by (auto simp: nxt_pairs)
    with that pairs_of_set [OF cd(1)] show "Q x" by (simp add: node)
  qed
  have levels: "\<forall>x \<in> set ((nxt ^^ k) l). Q x" for k
    by (induction k) (simp_all add: leaves nxtQ)
  obtain k where "(a, b) \<in> set (pairs_of ((nxt ^^ k) l))"
    using ab unfolding combined_iff by blast
  from pairs_of_set [OF this] levels [of k] show ?thesis by simp
qed

text \<open>
  Binding: if no two of the combined pairs collide, the loop's result and the length
  determine the level it started from.
\<close>

lemma reduce_binding:
  assumes "inj_on (\<lambda>(a, b). node a b) (combined nxt l \<union> combined nxt l')"
    and "length l = length l'" and "reduce l = reduce l'"
  shows "l = l'"
  using assms
proof (induction "length l" arbitrary: l l' rule: less_induct)
  case less
  show ?case
  proof (cases "1 < length l")
    case False
    with less.prems(2,3) show ?thesis by (simp add: reduce_stop)
  next
    case True
    with less.prems(2) have True': "1 < length l'" by simp
    have lt: "length (nxt l) < length l" using True by (simp add: length_nxt)
    have inj: "inj_on (\<lambda>(a, b). node a b) (combined nxt (nxt l) \<union> combined nxt (nxt l'))"
      by (rule inj_on_subset [OF less.prems(1)])
        (use combined_nxt [OF True] combined_nxt [OF True'] in blast)
    have len: "length (nxt l) = length (nxt l')"
      using less.prems(2) by (simp add: length_nxt)
    have "reduce (nxt l) = reduce (nxt l')"
      using less.prems(3) True True' by (simp add: reduce_step)
    with less.hyps [OF lt inj len] have "nxt l = nxt l'" by simp
    then have "map (\<lambda>(a, b). node a b) (pairs_of l) = map (\<lambda>(a, b). node a b) (pairs_of l')"
      by (simp add: nxt_pairs)
    moreover have "inj_on (\<lambda>(a, b). node a b) (set (pairs_of l) \<union> set (pairs_of l'))"
      by (rule inj_on_subset [OF less.prems(1)])
        (use pairs_combined [OF True] pairs_combined [OF True'] in blast)
    ultimately have "pairs_of l = pairs_of l'" by (rule map_inj_on)
    with less.prems(2) show ?thesis by (rule pairs_of_inj)
  qed
qed

end

section \<open>Hashing\<close>

definition sha256 :: "'z env_scheme \<Rightarrow> bytes \<Rightarrow> bytes" where
  "sha256 E data = sha256_digest E data"

lemma sha256_eq: "sha256 E = sha256_digest E"
  by (rule ext) (simp add: sha256_def)

definition contract_code_hash :: "'z env_scheme \<Rightarrow> bytes \<Rightarrow> bytes" where
  "contract_code_hash E code_wasm = sha256 E code_wasm"

definition derive_contract_address :: "'z env_scheme \<Rightarrow> bytes \<Rightarrow> bytes \<Rightarrow> bytes" where
  "derive_contract_address E sender code_wasm =
     (let code_hash = contract_code_hash E code_wasm in
      sha256 E (bytes_of ''prims-contract'' @ sender @ code_hash))"

text \<open>
  \<open>expect\<close> on the serialisation turns an error into a panic, which the model keeps as
  an \<open>Inl\<close> value.
\<close>

definition hash_transaction :: "'z env_scheme \<Rightarrow> Transaction \<Rightarrow> bytes panics" where
  "hash_transaction E tx =
     and_then (serialize (bc_transaction E) tx) (\<lambda>encoded. Inr (sha256 E encoded))"

definition hash_block_header :: "'z env_scheme \<Rightarrow> BlockHeader \<Rightarrow> bytes panics" where
  "hash_block_header E header =
     and_then (serialize (bc_header E) header) (\<lambda>encoded. Inr (sha256 E encoded))"

section \<open>The transaction Merkle root\<close>

text \<open>The body of \<open>while level.len() > 1\<close>: pad an odd level, then hash the pairs.\<close>

definition merkle_next_level :: "'z env_scheme \<Rightarrow> bytes list \<Rightarrow> bytes list" where
  "merkle_next_level E level =
     (let padded = (if length level mod 2 = 1 then level @ [last level] else level)
      in map (\<lambda>pair. sha256 E (pair ! 0 @ pair ! 1)) (chunks2 padded))"

lemma chunks2_even:
  "even (length l) \<Longrightarrow> map (\<lambda>pair. f (pair ! 0) (pair ! 1)) (chunks2 l) = map (\<lambda>(a, b). f a b) (pairs_of l)"
  by (induction l rule: chunks2.induct) auto

lemma merkle_next_level_pairs:
  "merkle_next_level E level = map (\<lambda>(a, b). sha256 E (a @ b)) (pairs_of level)"
proof (cases "odd (length level)")
  case True
  then have "even (length (level @ [last level]))" by simp
  from chunks2_even [OF this, of "\<lambda>a b. sha256 E (a @ b)"] True show ?thesis
    by (simp add: merkle_next_level_def odd_iff_mod_2_eq_one pairs_of_duplicate_last [OF True])
next
  case False
  then show ?thesis
    using chunks2_even [of level "\<lambda>a b. sha256 E (a @ b)"]
    by (simp add: merkle_next_level_def even_iff_mod_2_eq_zero)
qed

function merkle_loop :: "'z env_scheme \<Rightarrow> bytes list \<Rightarrow> bytes list" where
  "merkle_loop E level =
     (if 1 < length level then merkle_loop E (merkle_next_level E level) else level)"
  by pat_completeness auto
termination
  by (relation "measure (\<lambda>(E, level). length level)") (auto simp: merkle_next_level_pairs)

declare merkle_loop.simps [simp del]

definition calculate_merkle_root :: "'z env_scheme \<Rightarrow> Transaction list \<Rightarrow> bytes panics" where
  "calculate_merkle_root E transactions =
     (if transactions = [] then Inr (sha256 E [])
      else and_then (try_map (hash_transaction E) transactions)
        (\<lambda>level. Inr (last (merkle_loop E level))))"

interpretation chain: level_reduction
  "\<lambda>a b. sha256 E (a @ b)" "merkle_next_level E" "merkle_loop E" for E :: "'z env_scheme"
  by unfold_locales (rule merkle_next_level_pairs, rule merkle_loop.simps)

section \<open>Properties of the Merkle root\<close>

lemma try_map_hash_transaction:
  "try_map (hash_transaction E) txs =
     and_then (try_map (serialize (bc_transaction E)) txs) (\<lambda>bs. Inr (map (sha256 E) bs))"
proof (induction txs)
  case (Cons t txs)
  then show ?case
    by (cases "serialize (bc_transaction E) t"; cases "try_map (serialize (bc_transaction E)) txs")
      (auto simp: hash_transaction_def)
qed simp

text \<open>
  Everything the root computation feeds to SHA-256 for a non-empty list: the serialised transactions
  and the concatenated pairs of every level that the loop reduces.
\<close>

definition merkle_preimages :: "'z env_scheme \<Rightarrow> Transaction list \<Rightarrow> bytes set" where
  "merkle_preimages E txs =
     (case try_map (serialize (bc_transaction E)) txs of
        Inl _ \<Rightarrow> {}
      | Inr bs \<Rightarrow> set bs \<union>
          (\<lambda>(a, b). a @ b) ` combined (merkle_next_level E) (map (sha256 E) bs))"

lemma merkle_root_nonempty:
  assumes "txs \<noteq> []" and "try_map (serialize (bc_transaction E)) txs = Inr bs"
  shows "calculate_merkle_root E txs = Inr (last (merkle_loop E (map (sha256 E) bs)))"
  using assms by (simp add: calculate_merkle_root_def try_map_hash_transaction)

lemma merkle_node_inj:
  assumes "sha256_spec E" and "inj_on (sha256_digest E) (P \<union> Q)"
    and "(\<lambda>(a, b). a @ b) ` combined (merkle_next_level E) (map (sha256 E) bs) \<subseteq> P"
    and "(\<lambda>(a, b). a @ b) ` combined (merkle_next_level E) (map (sha256 E) bs') \<subseteq> Q"
  shows "inj_on (\<lambda>(a, b). sha256 E (a @ b))
    (combined (merkle_next_level E) (map (sha256 E) bs) \<union>
     combined (merkle_next_level E) (map (sha256 E) bs'))" (is "inj_on ?f (?S \<union> ?T)")
proof (rule inj_onI)
  have sha: "length (sha256 E x) = 32" for x
    using assms(1) by (simp add: sha256_spec_def sha256_def)
  have len1: "length a = 32 \<and> length b = 32"
    if "(a, b) \<in> combined (merkle_next_level E) (map (sha256 E) cs)" for a b cs
    by (rule chain.combined_invariant [where Q = "\<lambda>x. length x = 32", OF _ _ that])
      (simp_all add: sha)
  have len: "length a = 32 \<and> length b = 32" if "(a, b) \<in> ?S \<union> ?T" for a b
    using that len1 by blast
  fix p q assume p: "p \<in> ?S \<union> ?T" and q: "q \<in> ?S \<union> ?T" and eq: "?f p = ?f q"
  obtain a b c d where pq: "p = (a, b)" "q = (c, d)" by (cases p, cases q)
  have "a @ b \<in> P \<union> Q" "c @ d \<in> P \<union> Q"
    using p q assms(3,4) unfolding pq by force+
  with eq assms(2) have "a @ b = c @ d" by (auto simp: pq sha256_def dest: inj_onD)
  with len [of a b] len [of c d] p q show "p = q" by (auto simp: pq)
qed

lemma equal_merkle_roots:
  assumes "sha256_spec E" and "length txs = length txs'"
    and "calculate_merkle_root E txs = Inr r" and "calculate_merkle_root E txs' = Inr r"
    and "inj_on (sha256_digest E) (merkle_preimages E txs \<union> merkle_preimages E txs')"
    and "\<forall>t \<in> set txs \<union> set txs'. roundtrips (bc_transaction E) t"
  shows "txs = txs'"
proof (cases "txs = []")
  case True
  with assms(2) show ?thesis by simp
next
  case False
  with assms(2) have ne': "txs' \<noteq> []" by auto
  obtain bs where bs: "try_map (serialize (bc_transaction E)) txs = Inr bs"
    using assms(3) False
    by (auto simp: calculate_merkle_root_def try_map_hash_transaction result_simps)
  obtain bs' where bs': "try_map (serialize (bc_transaction E)) txs' = Inr bs'"
    using assms(4) ne'
    by (auto simp: calculate_merkle_root_def try_map_hash_transaction result_simps)
  let ?l = "map (sha256 E) bs" and ?l' = "map (sha256 E) bs'"
  have pre: "set bs \<subseteq> merkle_preimages E txs" "set bs' \<subseteq> merkle_preimages E txs'"
    by (simp_all add: merkle_preimages_def bs bs')
  have inj: "inj_on (\<lambda>(a, b). sha256 E (a @ b))
      (combined (merkle_next_level E) ?l \<union> combined (merkle_next_level E) ?l')"
    by (rule merkle_node_inj [OF assms(1) assms(5)]) (simp_all add: merkle_preimages_def bs bs')
  have len: "length ?l = length ?l'"
    using assms(2) bs bs' by (simp add: try_map_length)
  have "last (merkle_loop E ?l) = last (merkle_loop E ?l')"
    using assms(3,4) merkle_root_nonempty [OF False bs] merkle_root_nonempty [OF ne' bs'] by simp
  moreover have "length (merkle_loop E ?l) = 1" "length (merkle_loop E ?l') = 1"
    using False ne' bs bs' by (intro chain.length_reduce; auto dest: try_map_length)+
  ultimately have "merkle_loop E ?l = merkle_loop E ?l'"
    by (auto simp: length_Suc_conv)
  from chain.reduce_binding [OF inj len this] have "?l = ?l'" .
  moreover have "inj_on (sha256 E) (set bs \<union> set bs')"
    unfolding sha256_eq by (rule inj_on_subset [OF assms(5)]) (use pre in blast)
  ultimately have "bs = bs'" by (rule map_inj_on)
  show ?thesis
  proof (rule nth_equalityI [OF assms(2)])
    fix i assume i: "i < length txs"
    with bs bs' \<open>bs = bs'\<close> assms(2)
    have "serialize (bc_transaction E) (txs ! i) = serialize (bc_transaction E) (txs' ! i)"
      by (simp add: try_map_Inr_iff)
    then show "txs ! i = txs' ! i"
      by (rule roundtrips_inj [rotated 2]) (use assms(2,6) i in auto)
  qed
qed

text \<open>
  C6. The Merkle root commits to the transactions: two transaction lists of the same length
  with the same root are equal, provided every transaction survives serialisation and no two
  of the byte strings hashed on the way to the two roots collide under SHA-256.
\<close>

theorem merkle_root_binding:
  assumes "sha256_spec E" and "length txs = length txs'"
    and "calculate_merkle_root E txs = Inr r" and "calculate_merkle_root E txs' = Inr r"
    and "inj_on (sha256_digest E) (merkle_preimages E txs \<union> merkle_preimages E txs')"
    and "\<forall>t \<in> set txs \<union> set txs'. roundtrips (bc_transaction E) t"
  shows "txs = txs'"
  by (rule equal_merkle_roots [OF assms])

theorem merkle_root_binding_witness:
  "sha256_spec sample_env \<and>
   inj_on (sha256_digest sample_env) (merkle_preimages sample_env [sample_tx 5]) \<and>
   calculate_merkle_root sample_env [sample_tx 5] = Inr (replicate 32 8) \<and>
   [sample_tx 5] = [sample_tx 5]"
proof -
  have pre: "merkle_preimages sample_env [sample_tx 5] =
      {to_be_bytes 8 (5 :: u64)}"
    by (simp add: merkle_preimages_def sample_env_def field_codec_def sample_tx_def combined_def
        sha256_def)
  have inj: "inj_on (sha256_digest sample_env) (merkle_preimages sample_env [sample_tx 5])"
    unfolding pre by (auto simp: sample_env_def sample_digest_def)
  have root: "calculate_merkle_root sample_env [sample_tx 5] = Inr (replicate 32 8)"
    by (simp add: calculate_merkle_root_def hash_transaction_def merkle_loop.simps sample_env_def
        field_codec_def sample_tx_def sha256_def sample_digest_def)
  have rt: "roundtrips (bc_transaction sample_env) (sample_tx 5)"
    by (simp add: roundtrips_def sample_env_def field_codec_def sample_tx_def to_be_bytes_def
        from_be_bytes_def upt_rec)
  show ?thesis
    using sample_env_sha256 inj root rt
      merkle_root_binding [of sample_env "[sample_tx 5]" "[sample_tx 5]" "replicate 32 8"]
    by simp
qed

lemma merkle_root_odd_repeat:
  assumes "odd (length txs)" and "1 < length txs"
  shows "calculate_merkle_root E (txs @ [last txs]) = calculate_merkle_root E txs"
proof -
  have ne: "txs \<noteq> []" using assms(2) by auto
  show ?thesis
  proof (cases "try_map (hash_transaction E) txs")
    case (Inl e)
    then show ?thesis using ne by (simp add: calculate_merkle_root_def try_map_append)
  next
    case (Inr level)
    then have len: "length level = length txs" by (simp add: try_map_length)
    have "level \<noteq> []" using ne len by auto
    have "hash_transaction E (txs ! (length txs - 1)) = Inr (level ! (length txs - 1))"
      using Inr ne by (auto simp: try_map_Inr_iff simp del: length_greater_0_conv
          simp add: length_greater_0_conv [symmetric])
    then have "hash_transaction E (last txs) = Inr (last level)"
      using ne \<open>level \<noteq> []\<close> len by (simp add: last_conv_nth)
    then have "try_map (hash_transaction E) (txs @ [last txs]) = Inr (level @ [last level])"
      by (simp add: try_map_append Inr)
    with Inr ne chain.reduce_duplicate_last [of level E] assms len show ?thesis
      by (simp add: calculate_merkle_root_def)
  qed
qed

text \<open>
  The root does not commit to the number of transactions: for a block with an odd number
  (at least three) of transactions, repeating the last one leaves the root unchanged.
\<close>

theorem merkle_root_duplicate_last:
  assumes "odd (length txs)" and "1 < length txs"
  shows "calculate_merkle_root E (txs @ [last txs]) = calculate_merkle_root E txs"
  using assms by (rule merkle_root_odd_repeat)

theorem merkle_root_duplicate_last_witness:
  "calculate_merkle_root sample_env [sample_tx 1, sample_tx 2, sample_tx 3, sample_tx 3] =
   calculate_merkle_root sample_env [sample_tx 1, sample_tx 2, sample_tx 3]"
  using merkle_root_duplicate_last [of "[sample_tx 1, sample_tx 2, sample_tx 3]" sample_env] by simp

end
