(* ===== verification/NoteTree.thy ===== *)
theory NoteTree
  imports Hash
begin

text \<open>
  Notes and the note Merkle tree of \<open>src/src/privacy/mod.rs\<close> (lines 80 to 378 and 571 to
  586). Arrays \<open>[u8; 32]\<close> are byte strings of length 32. The tree's level step and loop
  are a second instance of \<open>level_reduction\<close>; membership proofs are shown complete, and
  binding up to SHA-256 collisions, with the leaf and node prefixes keeping the two kinds of
  hashes apart.
\<close>

section \<open>Notes\<close>

definition zero32 :: bytes where
  "zero32 = replicate 32 0"

record Note =
  commitment :: bytes

datatype NoteError =
    ZeroValue
  | InvalidRecipientPublicKey
  | InvalidBlinding
  | InvalidViewingKey

definition compute_commitment :: "'z env_scheme \<Rightarrow> u64 \<Rightarrow> bytes \<Rightarrow> bytes \<Rightarrow> bytes" where
  "compute_commitment E value recipient_public_key blinding =
     sha256_digest E (to_le_bytes 8 value @ recipient_public_key @ blinding)"

definition Note_new :: "'z env_scheme \<Rightarrow> u64 \<Rightarrow> bytes \<Rightarrow> bytes \<Rightarrow> (Note, NoteError) result" where
  "Note_new E value recipient_public_key blinding =
     (if value = 0 then Inl ZeroValue
      else if recipient_public_key = zero32 then Inl InvalidRecipientPublicKey
      else if blinding = zero32 then Inl InvalidBlinding
      else Inr \<lparr>commitment = compute_commitment E value recipient_public_key blinding\<rparr>)"

record ViewableNote =
  vn_note :: Note
  vn_viewing_hint :: bytes
  vn_shard_id :: u16

definition compute_viewing_hint :: "'z env_scheme \<Rightarrow> bytes \<Rightarrow> bytes option" where
  "compute_viewing_hint E viewing_key =
     (if viewing_key = zero32 then None
      else Some (sha256_digest E (bytes_of ''prims-viewing-key'' @ viewing_key)))"

definition from_note :: "'z env_scheme \<Rightarrow> Note \<Rightarrow> bytes \<Rightarrow> u16 \<Rightarrow> (ViewableNote, NoteError) result" where
  "from_note E note viewing_key shard_id =
     and_then (ok_or InvalidViewingKey (compute_viewing_hint E viewing_key)) (\<lambda>hint.
       Inr \<lparr>vn_note = note, vn_viewing_hint = hint, vn_shard_id = shard_id\<rparr>)"

definition ViewableNote_new ::
  "'z env_scheme \<Rightarrow> u64 \<Rightarrow> bytes \<Rightarrow> bytes \<Rightarrow> bytes \<Rightarrow> u16 \<Rightarrow> (ViewableNote, NoteError) result" where
  "ViewableNote_new E value recipient_public_key viewing_key blinding shard_id =
     and_then (Note_new E value recipient_public_key blinding)
       (\<lambda>note. from_note E note viewing_key shard_id)"

definition is_visible_to :: "'z env_scheme \<Rightarrow> ViewableNote \<Rightarrow> bytes \<Rightarrow> bool" where
  "is_visible_to E note viewing_key \<longleftrightarrow>
     (case compute_viewing_hint E viewing_key of
        Some hint \<Rightarrow> hint = vn_viewing_hint note
      | None \<Rightarrow> False)"

section \<open>The tree\<close>

record NoteMerkleProof =
  leaf_index :: nat
  leaf :: bytes
  siblings :: "bytes list"

record NoteMerkleTree =
  leaves :: "bytes list"

datatype NoteMerkleTreeError = LeafIndexOutOfBounds nat nat

definition leaf_prefix :: bytes where
  "leaf_prefix = bytes_of ''prims-note-merkle-leaf''"

definition node_prefix :: bytes where
  "node_prefix = bytes_of ''prims-note-merkle-node''"

definition hash_empty_tree :: "'z env_scheme \<Rightarrow> bytes" where
  "hash_empty_tree E = sha256_digest E (bytes_of ''prims-note-merkle-empty'')"

definition hash_leaf :: "'z env_scheme \<Rightarrow> bytes \<Rightarrow> bytes" where
  "hash_leaf E c = sha256_digest E (leaf_prefix @ c)"

definition hash_internal :: "'z env_scheme \<Rightarrow> bytes \<Rightarrow> bytes \<Rightarrow> bytes" where
  "hash_internal E left right = sha256_digest E (node_prefix @ left @ right)"

text \<open>One chunk of one or two hashes.\<close>

fun hash_chunk :: "'z env_scheme \<Rightarrow> bytes list \<Rightarrow> bytes" where
  "hash_chunk E [l] = hash_internal E l l"
| "hash_chunk E (l # r # rest) = hash_internal E l r"
| "hash_chunk E [] = []"

definition build_next_level :: "'z env_scheme \<Rightarrow> bytes list \<Rightarrow> bytes list" where
  "build_next_level E level = map (hash_chunk E) (chunks2 level)"

lemma build_next_level_pairs:
  "build_next_level E l = map (\<lambda>(a, b). hash_internal E a b) (pairs_of l)"
  unfolding build_next_level_def by (induction l rule: pairs_of.induct) auto

lemma length_build_next_level [simp]: "length (build_next_level E l) = (length l + 1) div 2"
  by (simp add: build_next_level_pairs)

function note_levels :: "'z env_scheme \<Rightarrow> bytes list \<Rightarrow> bytes list" where
  "note_levels E level = (if 1 < length level then note_levels E (build_next_level E level) else level)"
  by auto
termination
  by (relation "measure (\<lambda>(E, level). length level)") auto

declare note_levels.simps [simp del]

definition compute_root_from_leaves :: "'z env_scheme \<Rightarrow> bytes list \<Rightarrow> bytes" where
  "compute_root_from_leaves E ls =
     (if ls = [] then hash_empty_tree E else note_levels E (map (hash_leaf E) ls) ! 0)"

definition NoteMerkleTree_new :: NoteMerkleTree where
  "NoteMerkleTree_new = \<lparr>leaves = []\<rparr>"

definition from_notes :: "Note list \<Rightarrow> NoteMerkleTree" where
  "from_notes notes = \<lparr>leaves = map commitment notes\<rparr>"

definition from_commitments :: "bytes list \<Rightarrow> NoteMerkleTree" where
  "from_commitments ls = \<lparr>leaves = ls\<rparr>"

definition tree_append :: "NoteMerkleTree \<Rightarrow> Note \<Rightarrow> NoteMerkleTree" where
  "tree_append t note = t\<lparr>leaves := leaves t @ [commitment note]\<rparr>"

definition leaf_count :: "NoteMerkleTree \<Rightarrow> nat" where
  "leaf_count t = length (leaves t)"

definition tree_root :: "'z env_scheme \<Rightarrow> NoteMerkleTree \<Rightarrow> bytes" where
  "tree_root E t = compute_root_from_leaves E (leaves t)"

definition sibling_at :: "nat \<Rightarrow> bytes list \<Rightarrow> bytes" where
  "sibling_at index level =
     (let sibling_index = (if index mod 2 = 0 then index + 1 else index - 1)
      in if sibling_index < length level then level ! sibling_index else level ! index)"

function proof_loop :: "'z env_scheme \<Rightarrow> nat \<Rightarrow> bytes list \<Rightarrow> bytes list \<Rightarrow> bytes list" where
  "proof_loop E index level acc =
     (if 1 < length level
      then proof_loop E (index div 2) (build_next_level E level) (acc @ [sibling_at index level])
      else acc)"
  by auto
termination
  by (relation "measure (\<lambda>(E, index, level, acc). length level)") auto

declare proof_loop.simps [simp del]

definition generate_proof :: "'z env_scheme \<Rightarrow> NoteMerkleTree \<Rightarrow> nat \<Rightarrow> (NoteMerkleProof, NoteMerkleTreeError) result" where
  "generate_proof E t index =
     (if length (leaves t) \<le> index then Inl (LeafIndexOutOfBounds index (length (leaves t)))
      else Inr \<lparr>leaf_index = index, leaf = leaves t ! index,
                siblings = proof_loop E index (map (hash_leaf E) (leaves t)) []\<rparr>)"

fun path_loop :: "'z env_scheme \<Rightarrow> bytes \<Rightarrow> nat \<Rightarrow> bytes list \<Rightarrow> bytes" where
  "path_loop E hash index [] = hash"
| "path_loop E hash index (s # ss) =
     path_loop E (if index mod 2 = 0 then hash_internal E hash s else hash_internal E s hash) (index div 2) ss"

definition compute_note_merkle_root_from_proof :: "'z env_scheme \<Rightarrow> NoteMerkleProof \<Rightarrow> bytes" where
  "compute_note_merkle_root_from_proof E proof =
     path_loop E (hash_leaf E (leaf proof)) (leaf_index proof) (siblings proof)"

definition verify_proof :: "'z env_scheme \<Rightarrow> bytes \<Rightarrow> NoteMerkleProof \<Rightarrow> bool" where
  "verify_proof E root proof \<longleftrightarrow>
     path_loop E (hash_leaf E (leaf proof)) (leaf_index proof) (siblings proof) = root"

interpretation note_tree: level_reduction "hash_internal E" "build_next_level E" "note_levels E"
  for E :: "'z env_scheme"
  by unfold_locales (rule build_next_level_pairs, rule note_levels.simps)

section \<open>Completeness of proofs\<close>

lemma path_step:
  assumes "1 < length level" and "i < length level"
  shows "(if i mod 2 = 0 then hash_internal E (level ! i) (sibling_at i level)
          else hash_internal E (sibling_at i level) (level ! i)) = build_next_level E level ! (i div 2)"
proof -
  have "i div 2 < length (pairs_of level)" using assms(2) by simp
  then have "build_next_level E level ! (i div 2) = (\<lambda>(a, b). hash_internal E a b) (pairs_of level ! (i div 2))"
    by (simp add: build_next_level_pairs)
  also have "\<dots> = hash_internal E (level ! (2 * (i div 2)))
      (if 2 * (i div 2) + 1 < length level then level ! (2 * (i div 2) + 1) else level ! (2 * (i div 2)))"
    using assms(2) by (subst nth_pairs_of) simp_all
  finally have next_level: "build_next_level E level ! (i div 2) = hash_internal E (level ! (2 * (i div 2)))
      (if 2 * (i div 2) + 1 < length level then level ! (2 * (i div 2) + 1) else level ! (2 * (i div 2)))" .
  show ?thesis
  proof (cases "even i")
    case True
    then obtain k where "i = 2 * k" by (elim evenE)
    then show ?thesis unfolding next_level by (simp add: sibling_at_def)
  next
    case False
    then obtain k where "i = 2 * k + 1" by (elim oddE)
    then show ?thesis using assms(2) unfolding next_level by (simp add: sibling_at_def)
  qed
qed

lemma proof_loop_acc: "proof_loop E i level acc = acc @ proof_loop E i level []"
proof (induction "length level" arbitrary: i level acc rule: less_induct)
  case less
  show ?case
  proof (cases "1 < length level")
    case True
    then have lt: "length (build_next_level E level) < length level" by simp
    have "proof_loop E i level acc = proof_loop E (i div 2) (build_next_level E level) (acc @ [sibling_at i level])"
      using True by (subst proof_loop.simps) simp
    also have "\<dots> = acc @ [sibling_at i level] @ proof_loop E (i div 2) (build_next_level E level) []"
      using less.hyps [OF lt, of "i div 2" "acc @ [sibling_at i level]"] by simp
    also have "[sibling_at i level] @ proof_loop E (i div 2) (build_next_level E level) [] =
        proof_loop E (i div 2) (build_next_level E level) ([] @ [sibling_at i level])"
      using less.hyps [OF lt, of "i div 2" "[] @ [sibling_at i level]"] by simp
    also have "\<dots> = proof_loop E i level []"
      using True by (subst (2) proof_loop.simps) simp
    finally show ?thesis .
  next
    case False
    then show ?thesis by (simp add: proof_loop.simps [of E i level])
  qed
qed

lemma path_of_proof:
  "i < length level \<Longrightarrow> path_loop E (level ! i) i (proof_loop E i level []) = note_levels E level ! 0"
proof (induction "length level" arbitrary: i level rule: less_induct)
  case less
  show ?case
  proof (cases "1 < length level")
    case True
    then have lt: "length (build_next_level E level) < length level" by simp
    have i2: "i div 2 < length (build_next_level E level)" using less.prems by simp
    have "proof_loop E i level [] = sibling_at i level # proof_loop E (i div 2) (build_next_level E level) []"
      using True by (subst proof_loop.simps) (subst proof_loop_acc, simp)
    then have "path_loop E (level ! i) i (proof_loop E i level []) =
        path_loop E (build_next_level E level ! (i div 2)) (i div 2) (proof_loop E (i div 2) (build_next_level E level) [])"
      using path_step [OF True less.prems, of E] by simp
    also have "\<dots> = note_levels E (build_next_level E level) ! 0" by (rule less.hyps [OF lt i2])
    finally show ?thesis using True by (simp add: note_tree.reduce_step)
  next
    case False
    with less.prems have "i = 0" by linarith
    with False show ?thesis by (simp add: proof_loop.simps [of E 0 level] note_tree.reduce_stop)
  qed
qed

lemma generated_proof_verifies:
  assumes "generate_proof E t i = Inr p"
  shows "i < leaf_count t \<and> leaf p = leaves t ! i \<and> leaf_index p = i \<and> verify_proof E (tree_root E t) p"
proof -
  have i: "i < length (leaves t)" using assms by (auto simp: generate_proof_def split: if_splits)
  then have "leaves t \<noteq> []" by auto
  then have "path_loop E (hash_leaf E (leaves t ! i)) i (proof_loop E i (map (hash_leaf E) (leaves t)) []) = tree_root E t"
    using path_of_proof [of i "map (hash_leaf E) (leaves t)" E] i
    by (simp add: tree_root_def compute_root_from_leaves_def)
  with assms i show ?thesis by (auto simp: generate_proof_def verify_proof_def leaf_count_def)
qed

text \<open>
  C25. Membership proofs are complete: for every leaf of the tree \<open>generate_proof\<close>
  returns a proof of that leaf that verifies against the tree's root, and out of range it
  reports the index and the number of leaves.
\<close>

theorem note_proof_complete:
  "if i < leaf_count t
   then \<exists>p. generate_proof E t i = Inr p \<and> leaf p = leaves t ! i \<and> leaf_index p = i \<and>
     verify_proof E (tree_root E t) p \<and> compute_note_merkle_root_from_proof E p = tree_root E t
   else generate_proof E t i = Inl (LeafIndexOutOfBounds i (leaf_count t))"
proof (cases "i < leaf_count t")
  case True
  then obtain p where p: "generate_proof E t i = Inr p" by (simp add: generate_proof_def leaf_count_def)
  from generated_proof_verifies [OF p] p True show ?thesis
    by (auto simp: verify_proof_def compute_note_merkle_root_from_proof_def)
qed (simp add: generate_proof_def leaf_count_def)

section \<open>Binding of proofs\<close>

context level_reduction
begin

lemma reduce_level: "l \<noteq> [] \<Longrightarrow> \<exists>k < length l. reduce l = (nxt ^^ k) l \<and> (\<forall>j < k. 1 < length ((nxt ^^ j) l))"
proof (induction "length l" arbitrary: l rule: less_induct)
  case less
  show ?case
  proof (cases "1 < length l")
    case True
    then have lt: "length (nxt l) < length l" "nxt l \<noteq> []" using length_nxt [of l] by auto
    then obtain k where k: "k < length (nxt l)" "reduce (nxt l) = (nxt ^^ k) (nxt l)" "\<forall>j < k. 1 < length ((nxt ^^ j) (nxt l))"
      using less.hyps [of "nxt l"] by auto
    then have "reduce l = (nxt ^^ Suc k) l" "Suc k < length l"
      using True lt(1) by (simp_all add: reduce_step funpow_Suc_right del: funpow.simps)
    moreover have "1 < length ((nxt ^^ j) l)" if "j < Suc k" for j
      using that k(3) True by (cases j) (auto simp: funpow_Suc_right simp del: funpow.simps(2))
    ultimately show ?thesis by blast
  next
    case False
    with less.prems show ?thesis by (intro exI [of _ 0]) (simp add: reduce_stop)
  qed
qed

lemma level_pairs: "k < length l \<Longrightarrow> 1 < length ((nxt ^^ k) l) \<Longrightarrow> set (pairs_of ((nxt ^^ k) l)) \<subseteq> combined nxt l"
  by (auto simp: combined_iff)

lemma level_Suc: "x \<in> set ((nxt ^^ Suc k) l) \<Longrightarrow> \<exists>a b. (a, b) \<in> set (pairs_of ((nxt ^^ k) l)) \<and> x = node a b"
  by (auto simp: nxt_pairs)

end

text \<open>Everything that hashing a non-empty tree, and checking a proof, feeds to SHA-256.\<close>

definition tree_preimages :: "'z env_scheme \<Rightarrow> bytes list \<Rightarrow> bytes set" where
  "tree_preimages E ls = (\<lambda>c. leaf_prefix @ c) ` set ls \<union>
     (\<lambda>(a, b). node_prefix @ a @ b) ` combined (build_next_level E) (map (hash_leaf E) ls)"

fun path_preimages :: "'z env_scheme \<Rightarrow> bytes \<Rightarrow> nat \<Rightarrow> bytes list \<Rightarrow> bytes set" where
  "path_preimages E hash index [] = {}"
| "path_preimages E hash index (s # ss) =
     insert (node_prefix @ (if index mod 2 = 0 then hash @ s else s @ hash))
       (path_preimages E (if index mod 2 = 0 then hash_internal E hash s else hash_internal E s hash) (index div 2) ss)"

definition proof_preimages :: "'z env_scheme \<Rightarrow> NoteMerkleProof \<Rightarrow> bytes set" where
  "proof_preimages E p = insert (leaf_prefix @ leaf p)
     (path_preimages E (hash_leaf E (leaf p)) (leaf_index p) (siblings p))"

lemma path_snoc:
  "\<exists>a b. path_loop E h i (ss @ [s]) = hash_internal E a b \<and> (path_loop E h i ss = a \<or> path_loop E h i ss = b) \<and>
     {a, b} = {path_loop E h i ss, s} \<and>
     path_preimages E h i (ss @ [s]) = insert (node_prefix @ a @ b) (path_preimages E h i ss)"
proof (induction ss arbitrary: h i)
  case Nil
  show ?case by (cases "i mod 2 = 0") auto
next
  case (Cons t ss)
  let ?h = "if i mod 2 = 0 then hash_internal E h t else hash_internal E t h"
  obtain a b where "path_loop E ?h (i div 2) (ss @ [s]) = hash_internal E a b"
    "path_loop E ?h (i div 2) ss = a \<or> path_loop E ?h (i div 2) ss = b"
    "{a, b} = {path_loop E ?h (i div 2) ss, s}"
    "path_preimages E ?h (i div 2) (ss @ [s]) = insert (node_prefix @ a @ b) (path_preimages E ?h (i div 2) ss)"
    using Cons.IH [of ?h "i div 2"] by (elim exE conjE)
  then show ?case
    unfolding append_Cons path_loop.simps path_preimages.simps
    by (intro exI [of _ a] exI [of _ b]) (simp only: insert_commute simp_thms)
qed

lemma prefixes_differ: "leaf_prefix @ x \<noteq> node_prefix @ y"
  by (simp add: leaf_prefix_def node_prefix_def bytes_of_def)

lemma path_length:
  assumes "sha256_spec E" and "length h = 32"
  shows "length (path_loop E h i ss) = 32"
  using assms(2)
proof (induction ss arbitrary: h i)
  case (Cons s ss)
  show ?case unfolding path_loop.simps
    by (rule Cons.IH) (use assms(1) in \<open>simp add: hash_internal_def sha256_spec_def\<close>)
qed simp

text \<open>A path that ends in a leaf hash is the empty path from that leaf.\<close>

lemma path_at_leaves:
  assumes inj: "inj_on (sha256_digest E) P" and tree: "tree_preimages E ls \<subseteq> P" and lf: "leaf_prefix @ c \<in> P"
    and path: "path_preimages E (hash_leaf E c) i ss \<subseteq> P" and d: "d \<in> set ls" "path_loop E (hash_leaf E c) i ss = hash_leaf E d"
  shows "c = d"
proof -
  have dP: "leaf_prefix @ d \<in> P" using tree d(1) by (auto simp: tree_preimages_def)
  show ?thesis
  proof (cases ss rule: rev_cases)
    case Nil
    with d have "sha256_digest E (leaf_prefix @ c) = sha256_digest E (leaf_prefix @ d)"
      by (simp add: hash_leaf_def)
    then have "leaf_prefix @ c = leaf_prefix @ d" using inj lf dP by (auto dest: inj_onD)
    then show ?thesis by simp
  next
    case (snoc ts s)
    obtain a b where ab: "path_loop E (hash_leaf E c) i ss = hash_internal E a b"
      "path_preimages E (hash_leaf E c) i ss = insert (node_prefix @ a @ b) (path_preimages E (hash_leaf E c) i ts)"
      using path_snoc [of E "hash_leaf E c" i ts s] unfolding snoc by blast
    with path have "node_prefix @ a @ b \<in> P" by simp
    with ab(1) d(2) dP inj have "leaf_prefix @ d = node_prefix @ a @ b"
      by (auto simp: hash_leaf_def hash_internal_def dest: inj_onD)
    with prefixes_differ show ?thesis by blast
  qed
qed

lemma path_in_level:
  assumes sha: "sha256_spec E" and inj: "inj_on (sha256_digest E) P"
    and tree: "tree_preimages E ls \<subseteq> P" and lf: "leaf_prefix @ c \<in> P"
  shows "k < length ls \<Longrightarrow> \<forall>j < k. 1 < length ((build_next_level E ^^ j) (map (hash_leaf E) ls)) \<Longrightarrow> path_preimages E (hash_leaf E c) i ss \<subseteq> P \<Longrightarrow> \<forall>s \<in> set ss. length s = 32 \<Longrightarrow>
    path_loop E (hash_leaf E c) i ss \<in> set ((build_next_level E ^^ k) (map (hash_leaf E) ls)) \<Longrightarrow> c \<in> set ls"
proof (induction k arbitrary: ss)
  case 0
  then show ?case using path_at_leaves [OF inj tree lf, of i ss] by auto
next
  case (Suc k)
  let ?l = "map (hash_leaf E) ls"
  have kl: "k < length ?l" "1 < length ((build_next_level E ^^ k) ?l)" using Suc.prems(1,2) by simp_all
  obtain x y where xy: "(x, y) \<in> set (pairs_of ((build_next_level E ^^ k) ?l))"
    "path_loop E (hash_leaf E c) i ss = hash_internal E x y"
    using note_tree.level_Suc [OF Suc.prems(5)] by blast
  have comb: "(x, y) \<in> combined (build_next_level E) ?l" using note_tree.level_pairs [OF kl] xy(1) by blast
  then have xyP: "node_prefix @ x @ y \<in> P" using tree by (force simp: tree_preimages_def)
  have len: "length x = 32 \<and> length y = 32"
    by (rule note_tree.combined_invariant [where Q = "\<lambda>h. length h = 32", OF _ _ comb])
      (use sha in \<open>auto simp: hash_leaf_def hash_internal_def sha256_spec_def\<close>)
  show ?case
  proof (cases ss rule: rev_cases)
    case Nil
    with xy(2) have "sha256_digest E (leaf_prefix @ c) = sha256_digest E (node_prefix @ x @ y)"
      by (simp add: hash_leaf_def hash_internal_def)
    then have "leaf_prefix @ c = node_prefix @ x @ y" using inj lf xyP by (auto dest: inj_onD)
    with prefixes_differ show ?thesis by blast
  next
    case (snoc ts s)
    let ?h = "path_loop E (hash_leaf E c) i ts"
    obtain a b where ab: "path_loop E (hash_leaf E c) i ss = hash_internal E a b" "?h = a \<or> ?h = b" "{a, b} = {?h, s}"
      "path_preimages E (hash_leaf E c) i ss = insert (node_prefix @ a @ b) (path_preimages E (hash_leaf E c) i ts)"
      using path_snoc [of E "hash_leaf E c" i ts s] unfolding snoc by blast
    have "length ?h = 32"
      by (rule path_length [OF sha]) (use sha in \<open>simp add: hash_leaf_def sha256_spec_def\<close>)
    moreover have "length s = 32" using Suc.prems(4) snoc by simp
    ultimately have "length a = 32" "length b = 32" using ab(3) by (auto simp: doubleton_eq_iff)
    moreover have "node_prefix @ a @ b = node_prefix @ x @ y"
      using ab(1,4) xy(2) xyP inj Suc.prems(3) by (auto simp: hash_internal_def dest: inj_onD)
    ultimately have "a = x" "b = y" using len by simp_all
    with ab(2) pairs_of_set [OF xy(1)] have "?h \<in> set ((build_next_level E ^^ k) ?l)" by auto
    with Suc.IH [of ts] Suc.prems ab(4) snoc show ?thesis by simp
  qed
qed

lemma verified_leaf:
  assumes "sha256_spec E" and "leaves t \<noteq> []" and "inj_on (sha256_digest E) P"
    and "tree_preimages E (leaves t) \<subseteq> P" and "proof_preimages E p \<subseteq> P"
    and "\<forall>s \<in> set (siblings p). length s = 32" and "verify_proof E (tree_root E t) p"
  shows "leaf p \<in> set (leaves t)"
proof -
  let ?l = "map (hash_leaf E) (leaves t)"
  obtain k where k: "k < length ?l" "note_levels E ?l = (build_next_level E ^^ k) ?l"
    "\<forall>j < k. 1 < length ((build_next_level E ^^ j) ?l)"
    using note_tree.reduce_level [of ?l E] assms(2) by auto
  have "length (note_levels E ?l) = 1" using note_tree.length_reduce [of ?l E] assms(2) by simp
  then have "note_levels E ?l ! 0 \<in> set (note_levels E ?l)" by (intro nth_mem) simp
  then have "path_loop E (hash_leaf E (leaf p)) (leaf_index p) (siblings p) \<in> set ((build_next_level E ^^ k) ?l)"
    using assms(2,7) k(2) by (simp add: verify_proof_def tree_root_def compute_root_from_leaves_def)
  moreover have "leaf_prefix @ leaf p \<in> P" "path_preimages E (hash_leaf E (leaf p)) (leaf_index p) (siblings p) \<subseteq> P"
    using assms(5) by (auto simp: proof_preimages_def)
  ultimately show ?thesis
    using path_in_level [OF assms(1,3,4), of "leaf p" k "leaf_index p" "siblings p"] k(1,3) assms(6) by simp
qed

text \<open>
  Membership proofs are binding: a proof with 32-byte siblings, of any length and for any
  index, that verifies against the root of a non-empty tree proves a leaf of that tree,
  provided no two of the byte strings hashed for the tree and for the proof collide.
\<close>

theorem note_proof_binding:
  assumes "sha256_spec E" and "leaves t \<noteq> []"
    and "inj_on (sha256_digest E) (tree_preimages E (leaves t) \<union> proof_preimages E p)"
    and "\<forall>s \<in> set (siblings p). length s = 32"
    and "verify_proof E (tree_root E t) p"
  shows "leaf p \<in> set (leaves t)"
  using verified_leaf [OF assms(1-3) _ _ assms(4,5)] by simp

theorem note_proof_binding_witness:
  "leaf \<lparr>leaf_index = 0, leaf = [7], siblings = []\<rparr> \<in> set (leaves \<lparr>leaves = [[7]]\<rparr>)"
proof (rule note_proof_binding [OF sample_env_sha256])
  show "inj_on (sha256_digest sample_env) (tree_preimages sample_env (leaves \<lparr>leaves = [[7]]\<rparr>) \<union>
      proof_preimages sample_env \<lparr>leaf_index = 0, leaf = [7], siblings = []\<rparr>)"
    by (simp add: tree_preimages_def proof_preimages_def combined_def sample_env_def sample_digest_def
        inj_on_def hash_leaf_def leaf_prefix_def node_prefix_def)
  show "verify_proof sample_env (tree_root sample_env \<lparr>leaves = [[7]]\<rparr>) \<lparr>leaf_index = 0, leaf = [7], siblings = []\<rparr>"
    by (simp add: verify_proof_def tree_root_def compute_root_from_leaves_def note_levels.simps)
qed simp_all

end
