(* ===== verification/Storage.thy ===== *)
theory Storage
  imports Keys NoteTree
begin

text \<open>
  \<open>src/src/storage/mod.rs\<close> and \<open>src/src/storage/checksum.rs\<close>. The RocksDB engine is
  a parameter: a record of the five operations the code calls. What the code relies on is
  \<open>rocksdb_spec\<close>: the database is a finite map from byte strings to byte strings, sorted
  by key when iterated, and a write batch is applied as a whole. It describes a database whose
  operations succeed; what holds when they fail, such as a contract call that leaves the storage
  as it was, is proved without it. Every operation of
  \<open>RocksDbStorage\<close> takes the storage and returns it with the result, so an error after a
  first write leaves that write in place, as in the code.
\<close>

section \<open>The engine\<close>

record 'd rocksdb =
  db_put :: "'d \<Rightarrow> bytes \<Rightarrow> bytes \<Rightarrow> string + 'd"
  db_get :: "'d \<Rightarrow> bytes \<Rightarrow> string + bytes option"
  db_delete :: "'d \<Rightarrow> bytes \<Rightarrow> string + 'd"
  db_iterator :: "'d \<Rightarrow> bytes \<Rightarrow> (string + bytes \<times> bytes) list"
  db_write :: "'d \<Rightarrow> (bytes \<times> bytes) list \<Rightarrow> string + 'd"

record 'd RocksDbStorage =
  engine :: "'d rocksdb"
  db :: 'd

definition rocksdb_spec :: "'d rocksdb \<Rightarrow> ('d \<Rightarrow> (bytes \<times> bytes) list) \<Rightarrow> bool" where
  "rocksdb_spec R entries \<longleftrightarrow>
     (\<forall>d. btree_ok (entries d)) \<and>
     (\<forall>d k. db_get R d k = Inr (map_of (entries d) k)) \<and>
     (\<forall>d k v. \<exists>d'. db_put R d k v = Inr d' \<and> map_of (entries d') = (map_of (entries d))(k \<mapsto> v)) \<and>
     (\<forall>d k. \<exists>d'. db_delete R d k = Inr d' \<and> map_of (entries d') = (map_of (entries d))(k := None)) \<and>
     (\<forall>d p. db_iterator R d p = map Inr (filter (\<lambda>(k, v). p \<le> k) (entries d))) \<and>
     (\<forall>d kvs. \<exists>d'. db_write R d kvs = Inr d' \<and> map_of (entries d') = map_of (entries d) ++ map_of (rev kvs))"

datatype storage_error =
    DbError string
  | Bincode string
  | EmptySender
  | EmptyBytecode
  | ContractAddressExists
  | ContractDoesNotExist
  | ChecksumMismatch

record CheckedPayload =
  checksum :: bytes
  payload :: bytes

record storage_env = env +
  bc_viewable_note :: "ViewableNote codec"
  bc_note_root :: "bytes codec"
  bc_checked :: "CheckedPayload codec"

section \<open>Threading the storage\<close>

type_synonym ('s, 'a) storage_op = "'s \<Rightarrow> 's \<times> ('a, storage_error) result"

definition st_bind :: "('s, 'a) storage_op \<Rightarrow> ('a \<Rightarrow> ('s, 'b) storage_op) \<Rightarrow> ('s, 'b) storage_op" where
  "st_bind m f s = (case m s of (s', Inl e) \<Rightarrow> (s', Inl e) | (s', Inr x) \<Rightarrow> f x s')"

definition st_lift :: "('a, storage_error) result \<Rightarrow> ('s, 'a) storage_op" where
  "st_lift r s = (s, r)"

definition st_reads :: "('s \<Rightarrow> ('a, storage_error) result) \<Rightarrow> ('s, 'a) storage_op" where
  "st_reads g s = (s, g s)"

section \<open>The storage backend\<close>

definition storage_put :: "bytes \<Rightarrow> bytes \<Rightarrow> ('d RocksDbStorage, unit) storage_op" where
  "storage_put key value s =
     (case db_put (engine s) (db s) key value of
        Inl e \<Rightarrow> (s, Inl (DbError e))
      | Inr d \<Rightarrow> (s\<lparr>db := d\<rparr>, Inr ()))"

definition storage_get :: "bytes \<Rightarrow> 'd RocksDbStorage \<Rightarrow> (bytes option, storage_error) result" where
  "storage_get key s = map_err DbError (db_get (engine s) (db s) key)"

definition storage_delete :: "bytes \<Rightarrow> ('d RocksDbStorage, unit) storage_op" where
  "storage_delete key s =
     (case db_delete (engine s) (db s) key of
        Inl e \<Rightarrow> (s, Inl (DbError e))
      | Inr d \<Rightarrow> (s\<lparr>db := d\<rparr>, Inr ()))"

fun iter_loop :: "bytes \<Rightarrow> (bytes \<times> bytes) list \<Rightarrow> (string + bytes \<times> bytes) list
    \<Rightarrow> ((bytes \<times> bytes) list, storage_error) result" where
  "iter_loop p entries [] = Inr entries"
| "iter_loop p entries (Inl e # items) = Inl (DbError e)"
| "iter_loop p entries (Inr (key, value) # items) =
     (if \<not> prefix p key then Inr entries else iter_loop p (entries @ [(key, value)]) items)"

definition storage_iter :: "bytes \<Rightarrow> 'd RocksDbStorage \<Rightarrow> ((bytes \<times> bytes) list, storage_error) result" where
  "storage_iter p s = iter_loop p [] (db_iterator (engine s) (db s) p)"

text \<open>The recurring shapes: write a serialised value, read and decode one.\<close>

definition put_encoded :: "'a codec \<Rightarrow> bytes \<Rightarrow> 'a \<Rightarrow> ('d RocksDbStorage, unit) storage_op" where
  "put_encoded c key v = st_bind (st_lift (map_err Bincode (serialize c v))) (\<lambda>b. storage_put key b)"

definition get_decoded :: "'a codec \<Rightarrow> bytes \<Rightarrow> 'd RocksDbStorage \<Rightarrow> ('a option, storage_error) result" where
  "get_decoded c key s =
     and_then (storage_get key s) (\<lambda>found. case found of
        Some b \<Rightarrow> and_then (map_err Bincode (deserialize c b)) (\<lambda>v. Inr (Some v))
      | None \<Rightarrow> Inr None)"

section \<open>Blocks, transactions, accounts, validators\<close>

definition save_block :: "'z env_scheme \<Rightarrow> Block \<Rightarrow> 'd RocksDbStorage
    \<Rightarrow> ('d RocksDbStorage \<times> (bytes, storage_error) result) panics" where
  "save_block E block s =
     and_then (hash_block_header E (b_header block)) (\<lambda>block_hash.
       Inr (st_bind (put_encoded (bc_block E) (block_key (h_height (b_header block))) block) (\<lambda>_.
            st_bind (put_encoded (bc_u64 E) (height_index_key block_hash) (h_height (b_header block))) (\<lambda>_.
            st_lift (Inr block_hash))) s))"

definition get_block :: "'z env_scheme \<Rightarrow> u64 \<Rightarrow> 'd RocksDbStorage \<Rightarrow> (Block option, storage_error) result" where
  "get_block E height = get_decoded (bc_block E) (block_key height)"

definition save_transaction :: "'z env_scheme \<Rightarrow> Transaction \<Rightarrow> 'd RocksDbStorage
    \<Rightarrow> ('d RocksDbStorage \<times> (bytes, storage_error) result) panics" where
  "save_transaction E tx s =
     and_then (hash_transaction E tx) (\<lambda>tx_hash.
       Inr (st_bind (put_encoded (bc_transaction E) (transaction_key tx_hash) tx) (\<lambda>_. st_lift (Inr tx_hash)) s))"

definition get_transaction :: "'z env_scheme \<Rightarrow> bytes \<Rightarrow> 'd RocksDbStorage \<Rightarrow> (Transaction option, storage_error) result" where
  "get_transaction E hash = get_decoded (bc_transaction E) (transaction_key hash)"

definition update_account :: "'z env_scheme \<Rightarrow> bytes \<Rightarrow> Account \<Rightarrow> ('d RocksDbStorage, unit) storage_op" where
  "update_account E address account = put_encoded (bc_account E) (account_key address) account"

definition get_account :: "'z env_scheme \<Rightarrow> bytes \<Rightarrow> 'd RocksDbStorage \<Rightarrow> (Account option, storage_error) result" where
  "get_account E address = get_decoded (bc_account E) (account_key address)"

definition save_validator :: "'z env_scheme \<Rightarrow> Validator \<Rightarrow> ('d RocksDbStorage, unit) storage_op" where
  "save_validator E v = put_encoded (bc_validator E) (stake_key (v_address v)) v"

definition get_validator :: "'z env_scheme \<Rightarrow> bytes \<Rightarrow> 'd RocksDbStorage \<Rightarrow> (Validator option, storage_error) result" where
  "get_validator E address = get_decoded (bc_validator E) (stake_key address)"

section \<open>Contracts\<close>

definition update_contract :: "'z env_scheme \<Rightarrow> bytes \<Rightarrow> Contract \<Rightarrow> ('d RocksDbStorage, unit) storage_op" where
  "update_contract E address contract = put_encoded (bc_contract E) (contract_key address) contract"

definition get_contract :: "'z env_scheme \<Rightarrow> bytes \<Rightarrow> 'd RocksDbStorage \<Rightarrow> (Contract option, storage_error) result" where
  "get_contract E address = get_decoded (bc_contract E) (contract_key address)"

definition deploy_contract :: "'z env_scheme \<Rightarrow> bytes \<Rightarrow> bytes \<Rightarrow> ('d RocksDbStorage, bytes) storage_op" where
  "deploy_contract E sender code_wasm =
     (if sender = [] then st_lift (Inl EmptySender)
      else if code_wasm = [] then st_lift (Inl EmptyBytecode)
      else let contract_address = derive_contract_address E sender code_wasm in
        st_bind (st_reads (get_account E contract_address)) (\<lambda>found_account.
        st_bind (if found_account \<noteq> None then st_lift (Inr True)
                 else st_bind (st_reads (get_contract E contract_address)) (\<lambda>c. st_lift (Inr (c \<noteq> None)))) (\<lambda>taken.
        if taken then st_lift (Inl ContractAddressExists) else
        st_bind (update_contract E contract_address
          \<lparr>c_code_wasm = code_wasm, c_storage_root = sha256 E []\<rparr>) (\<lambda>_.
        st_bind (update_account E contract_address
          \<lparr>a_balance = 0, a_nonce = 0, a_code_hash = Some (contract_code_hash E code_wasm),
           a_anonymous_state = AnonymousAccountState_default\<rparr>) (\<lambda>_.
        st_lift (Inr contract_address))))))"

text \<open>The payload of the storage root: the hashes of every slot and value in order.\<close>

definition slots_payload :: "'z env_scheme \<Rightarrow> (bytes \<times> bytes) list \<Rightarrow> bytes" where
  "slots_payload E slots = concat (map (\<lambda>(slot, value). sha256 E slot @ sha256 E value) slots)"

definition strip_prefix :: "bytes \<Rightarrow> bytes \<times> bytes \<Rightarrow> bytes \<times> bytes" where
  "strip_prefix p e = (drop (length p) (fst e), snd e)"

definition compute_contract_storage_root :: "'z env_scheme \<Rightarrow> bytes \<Rightarrow> 'd RocksDbStorage \<Rightarrow> (bytes, storage_error) result" where
  "compute_contract_storage_root E address s =
     (let p = contract_storage_prefix address in
      and_then (storage_iter p s) (\<lambda>found.
      let entries = sort_key fst found in
      if entries = [] then Inr (sha256 E [])
      else Inr (sha256 E (slots_payload E (map (strip_prefix p) entries)))))"

definition set_contract_storage :: "'z env_scheme \<Rightarrow> bytes \<Rightarrow> bytes \<Rightarrow> bytes \<Rightarrow> ('d RocksDbStorage, unit) storage_op" where
  "set_contract_storage E address key value =
     st_bind (st_reads (get_contract E address)) (\<lambda>found.
     st_bind (st_lift (ok_or ContractDoesNotExist found)) (\<lambda>contract.
     st_bind (storage_put (contract_storage_key address key) value) (\<lambda>_.
     st_bind (st_reads (compute_contract_storage_root E address)) (\<lambda>root.
       update_contract E address (contract\<lparr>c_storage_root := root\<rparr>)))))"

definition get_contract_storage :: "'z env_scheme \<Rightarrow> bytes \<Rightarrow> bytes \<Rightarrow> 'd RocksDbStorage \<Rightarrow> (bytes option, storage_error) result" where
  "get_contract_storage E address key s =
     and_then (get_contract E address s) (\<lambda>found.
     and_then (ok_or ContractDoesNotExist found) (\<lambda>_.
       storage_get (contract_storage_key address key) s))"

text \<open>\<open>writes\<close> is the \<open>BTreeMap\<close> of pending writes, in key order.\<close>

definition commit_contract_storage_batch ::
  "'z env_scheme \<Rightarrow> bytes \<Rightarrow> (bytes \<times> bytes) list \<Rightarrow> ('d RocksDbStorage, unit) storage_op" where
  "commit_contract_storage_batch E address writes =
     (if writes = [] then st_lift (Inr ()) else
      st_bind (st_reads (get_contract E address)) (\<lambda>found.
      st_bind (st_lift (ok_or ContractDoesNotExist found)) (\<lambda>contract.
      let p = contract_storage_prefix address in
      st_bind (st_reads (storage_iter p)) (\<lambda>entries.
      let slots = fold (\<lambda>(k, v). btree_insert k v) (map (strip_prefix p) entries) [];
          slot_entries = fold (\<lambda>(k, v). btree_insert k v) writes slots;
          content_bytes = slots_payload E slot_entries;
          contract' = contract\<lparr>c_storage_root :=
            (if content_bytes = [] then sha256 E [] else sha256 E content_bytes)\<rparr> in
      st_bind (st_lift (map_err Bincode (serialize (bc_contract E) contract'))) (\<lambda>encoded.
      (\<lambda>s. case db_write (engine s) (db s)
              (map (\<lambda>(k, v). (contract_storage_key address k, v)) writes @ [(contract_key address, encoded)]) of
             Inl e \<Rightarrow> (s, Inl (DbError e))
           | Inr d \<Rightarrow> (s\<lparr>db := d\<rparr>, Inr ())))))))"

section \<open>Notes\<close>

definition save_viewable_note :: "'z storage_env_scheme \<Rightarrow> ViewableNote \<Rightarrow> ('d RocksDbStorage, unit) storage_op" where
  "save_viewable_note E vn =
     (let c = commitment (vn_note vn) in
      st_bind (put_encoded (bc_viewable_note E) (anonymous_note_key c) vn) (\<lambda>_.
        storage_put (viewing_hint_note_key (vn_viewing_hint vn) c) (bytes_of ''1'')))"

definition get_viewable_note :: "'z storage_env_scheme \<Rightarrow> bytes \<Rightarrow> 'd RocksDbStorage \<Rightarrow> (ViewableNote option, storage_error) result" where
  "get_viewable_note E c = get_decoded (bc_viewable_note E) (anonymous_note_key c)"

fun find_notes_loop :: "'z storage_env_scheme \<Rightarrow> bytes \<Rightarrow> 'd RocksDbStorage \<Rightarrow> ViewableNote list \<Rightarrow> (bytes \<times> bytes) list
    \<Rightarrow> (ViewableNote list, storage_error) result" where
  "find_notes_loop E p s acc [] = Inr acc"
| "find_notes_loop E p s acc ((key, v) # rest) =
     and_then (get_viewable_note E (drop (length p) key) s) (\<lambda>found.
       find_notes_loop E p s (acc @ (case found of Some vn \<Rightarrow> [vn] | None \<Rightarrow> [])) rest)"

definition find_notes_for_viewing_key :: "'z storage_env_scheme \<Rightarrow> bytes \<Rightarrow> 'd RocksDbStorage
    \<Rightarrow> (ViewableNote list, storage_error) result" where
  "find_notes_for_viewing_key E viewing_key s =
     (case compute_viewing_hint E viewing_key of
        None \<Rightarrow> Inr []
      | Some hint \<Rightarrow>
          let p = viewing_hint_prefix hint in
          and_then (storage_iter p s) (\<lambda>entries. find_notes_loop E p s [] entries))"

definition save_note_merkle_root :: "'z storage_env_scheme \<Rightarrow> u16 option \<Rightarrow> bytes \<Rightarrow> ('d RocksDbStorage, unit) storage_op" where
  "save_note_merkle_root E shard_id root = put_encoded (bc_note_root E) (note_merkle_root_key shard_id) root"

definition get_note_merkle_root :: "'z storage_env_scheme \<Rightarrow> u16 option \<Rightarrow> 'd RocksDbStorage \<Rightarrow> (bytes option, storage_error) result" where
  "get_note_merkle_root E shard_id = get_decoded (bc_note_root E) (note_merkle_root_key shard_id)"

section \<open>Checksums\<close>

definition wrap_payload :: "'z storage_env_scheme \<Rightarrow> bytes \<Rightarrow> (bytes, storage_error) result" where
  "wrap_payload E p = map_err Bincode (serialize (bc_checked E) \<lparr>checksum = sha256 E p, payload = p\<rparr>)"

definition unwrap_payload :: "'z storage_env_scheme \<Rightarrow> bytes \<Rightarrow> (bytes, storage_error) result" where
  "unwrap_payload E encoded =
     and_then (map_err Bincode (deserialize (bc_checked E) encoded)) (\<lambda>checked.
       if sha256 E (payload checked) \<noteq> checksum checked then Inl ChecksumMismatch
       else Inr (payload checked))"

end
