(* ===== verification/StorageLaws.thy ===== *)
theory StorageLaws
  imports Storage
begin

text \<open>
  What \<open>RocksDbStorage\<close> promises on an engine that satisfies \<open>rocksdb_spec\<close>: typed
  reads return the last write under their key, iteration returns exactly the entries with the
  prefix in key order, and the batched commit of contract storage maintains the same root as
  the direct computation.
\<close>

section \<open>Iteration\<close>

lemma prefix_le: "prefix p k \<Longrightarrow> p \<le> (k :: bytes)"
  by (induction p arbitrary: k) (auto simp: prefix_def)

lemma prefix_block:
  "prefix p j \<Longrightarrow> p \<le> k \<Longrightarrow> \<not> prefix p k \<Longrightarrow> j < (k :: bytes)"
proof (induction p arbitrary: j k)
  case (Cons a p)
  obtain j' where j: "j = a # j'" "prefix p j'" using Cons.prems(1) by (cases j) auto
  obtain b k' where k: "k = b # k'" using Cons.prems(2) by (cases k) auto
  show ?case
  proof (cases "a = b")
    case True
    with Cons.prems j k have "j' < k'" by (intro Cons.IH) auto
    with True j k show ?thesis by simp
  next
    case False
    with Cons.prems(2) j k show ?thesis by simp
  qed
qed simp

lemma iter_loop_sorted:
  "btree_ok es \<Longrightarrow> \<forall>k \<in> fst ` set es. p \<le> k \<Longrightarrow>
   iter_loop p acc (map Inr es) = Inr (acc @ filter (\<lambda>(k, v). prefix p k) es)"
proof (induction es arbitrary: acc)
  case (Cons e es)
  obtain k v where e: "e = (k, v)" by (cases e)
  show ?case
  proof (cases "prefix p k")
    case True
    with Cons e show ?thesis by simp
  next
    case False
    have "\<not> prefix p j" if "j \<in> fst ` set es" for j
      using prefix_block [of p j k] Cons.prems e False that by auto
    then have "filter (\<lambda>(k, v). prefix p k) es = []" by (force simp: filter_empty_conv)
    with False e show ?thesis by simp
  qed
qed simp

section \<open>Storage as a map\<close>

definition storage_ok :: "'d RocksDbStorage \<Rightarrow> bool" where
  "storage_ok s \<longleftrightarrow> (\<exists>entries. rocksdb_spec (engine s) entries)"

definition content :: "'d RocksDbStorage \<Rightarrow> bytes \<Rightarrow> bytes option" where
  "content s k = (case db_get (engine s) (db s) k of Inr found \<Rightarrow> found | Inl _ \<Rightarrow> None)"

lemma content_entries: "rocksdb_spec (engine s) entries \<Longrightarrow> content s = map_of (entries (db s))"
  by (auto simp: rocksdb_spec_def content_def fun_eq_iff)

lemma storage_ok_db [simp]: "storage_ok (s\<lparr>db := d\<rparr>) = storage_ok s"
  by (simp add: storage_ok_def)

lemma storage_get_content: "storage_ok s \<Longrightarrow> storage_get k s = Inr (content s k)"
  by (auto simp: storage_ok_def rocksdb_spec_def storage_get_def content_def)

lemma storage_put_content:
  assumes "storage_ok s"
  shows "\<exists>s'. storage_put k v s = (s', Inr ()) \<and> storage_ok s' \<and> content s' = (content s)(k \<mapsto> v)"
proof -
  obtain entries where R: "rocksdb_spec (engine s) entries" using assms by (auto simp: storage_ok_def)
  then obtain d where d: "db_put (engine s) (db s) k v = Inr d"
    "map_of (entries d) = (map_of (entries (db s)))(k \<mapsto> v)"
    unfolding rocksdb_spec_def by blast
  have "content (s\<lparr>db := d\<rparr>) = map_of (entries d)"
    using content_entries [of "s\<lparr>db := d\<rparr>" entries] R by simp
  with d R assms show ?thesis by (simp add: storage_put_def content_entries)
qed

lemma storage_delete_content:
  assumes "storage_ok s"
  shows "\<exists>s'. storage_delete k s = (s', Inr ()) \<and> storage_ok s' \<and> content s' = (content s)(k := None)"
proof -
  obtain entries where R: "rocksdb_spec (engine s) entries" using assms by (auto simp: storage_ok_def)
  then obtain d where d: "db_delete (engine s) (db s) k = Inr d"
    "map_of (entries d) = (map_of (entries (db s)))(k := None)"
    unfolding rocksdb_spec_def by blast
  have "content (s\<lparr>db := d\<rparr>) = map_of (entries d)"
    using content_entries [of "s\<lparr>db := d\<rparr>" entries] R by simp
  with d R assms show ?thesis by (simp add: storage_delete_def content_entries)
qed

lemma storage_batch_content:
  assumes "storage_ok s"
  shows "\<exists>d. db_write (engine s) (db s) kvs = Inr d \<and> content (s\<lparr>db := d\<rparr>) = content s ++ map_of (rev kvs)"
proof -
  obtain entries where R: "rocksdb_spec (engine s) entries" using assms by (auto simp: storage_ok_def)
  then obtain d where d: "db_write (engine s) (db s) kvs = Inr d"
    "map_of (entries d) = map_of (entries (db s)) ++ map_of (rev kvs)"
    unfolding rocksdb_spec_def by blast
  have "content (s\<lparr>db := d\<rparr>) = map_of (entries d)"
    using content_entries [of "s\<lparr>db := d\<rparr>" entries] R by simp
  with d R assms show ?thesis by (simp add: content_entries)
qed

lemma map_of_filter_key: "map_of (filter (\<lambda>(k, v). P k) es) k = (if P k then map_of es k else None)"
  by (induction es) auto

lemma btree_ok_filter: "btree_ok es \<Longrightarrow> btree_ok (filter Q es)"
  by (induction es) auto

lemma storage_iter_content:
  assumes "storage_ok s"
  shows "\<exists>es. storage_iter p s = Inr es \<and> btree_ok es \<and>
    map_of es = (\<lambda>k. if prefix p k then content s k else None)"
proof -
  obtain entries where R: "rocksdb_spec (engine s) entries" using assms by (auto simp: storage_ok_def)
  let ?es = "entries (db s)"
  have ok: "btree_ok ?es" using R by (simp add: rocksdb_spec_def)
  have "iter_loop p [] (map Inr (filter (\<lambda>(k, v). p \<le> k) ?es)) =
      Inr ([] @ filter (\<lambda>(k, v). prefix p k) (filter (\<lambda>(k, v). p \<le> k) ?es))"
    by (rule iter_loop_sorted) (use btree_ok_filter [OF ok] in auto)
  moreover have "filter (\<lambda>(k, v). prefix p k) (filter (\<lambda>(k, v). p \<le> k) ?es) = filter (\<lambda>(k, v). prefix p k) ?es"
    by (auto simp: filter_filter intro!: filter_cong dest: prefix_le)
  ultimately have "storage_iter p s = Inr (filter (\<lambda>(k, v). prefix p k) ?es)"
    using R by (simp add: storage_iter_def rocksdb_spec_def)
  then show ?thesis
    using map_of_filter_key [of "prefix p" ?es] content_entries [OF R] btree_ok_filter [OF ok] by auto
qed

text \<open>
  Prefix iteration returns, in strictly ascending key order, exactly the stored entries
  whose key starts with the prefix: stopping at the first key without the prefix loses none.
\<close>

theorem storage_iter_exact:
  assumes "storage_ok s"
  shows "\<exists>es. storage_iter p s = Inr es \<and> sorted_wrt (<) (map fst es) \<and>
    (\<forall>k. map_of es k = (if prefix p k then content s k else None))"
  using storage_iter_content [OF assms, of p] by (auto simp: btree_ok_def)

section \<open>A reference engine\<close>

text \<open>
  A log-structured engine: the database is the log of writes, newest first, with deletions as
  tombstones. It satisfies \<open>rocksdb_spec\<close>, so the hypotheses of this theory can hold.
\<close>

type_synonym db_log = "(bytes \<times> bytes option) list"

definition log_apply :: "bytes \<times> bytes option \<Rightarrow> (bytes \<times> bytes) list \<Rightarrow> (bytes \<times> bytes) list" where
  "log_apply e m = (case snd e of
      Some v \<Rightarrow> btree_insert (fst e) v m
    | None \<Rightarrow> filter (\<lambda>(k, v). k \<noteq> fst e) m)"

definition log_entries :: "db_log \<Rightarrow> (bytes \<times> bytes) list" where
  "log_entries d = foldr log_apply d []"

definition log_engine :: "db_log rocksdb" where
  "log_engine = \<lparr>
     db_put = (\<lambda>d k v. Inr ((k, Some v) # d)),
     db_get = (\<lambda>d k. Inr (map_of (log_entries d) k)),
     db_delete = (\<lambda>d k. Inr ((k, None) # d)),
     db_iterator = (\<lambda>d p. map Inr (filter (\<lambda>(k, v). p \<le> k) (log_entries d))),
     db_write = (\<lambda>d kvs. Inr (map (\<lambda>(k, v). (k, Some v)) (rev kvs) @ d))\<rparr>"

lemma log_entries_ok: "btree_ok (log_entries d)"
  by (induction d) (auto simp: log_entries_def log_apply_def btree_ok_insert btree_ok_filter split: option.splits)

lemma log_entries_Cons: "log_entries (e # d) = log_apply e (log_entries d)"
  by (simp add: log_entries_def)

lemma log_batch: "map_of (log_entries (map (\<lambda>(k, v). (k, Some v)) kvs @ d)) = map_of (log_entries d) ++ map_of kvs"
proof (induction kvs)
  case (Cons kv kvs)
  then show ?case
    using log_entries_ok
    by (cases kv) (auto simp: log_entries_Cons log_apply_def map_of_btree_insert fun_eq_iff map_add_def)
qed simp

lemma log_engine_spec: "rocksdb_spec log_engine log_entries"
proof -
  have "map_of (log_entries ((k, Some v) # d)) = (map_of (log_entries d))(k \<mapsto> v)" for k v d
    using log_entries_ok by (simp add: log_entries_Cons log_apply_def map_of_btree_insert)
  moreover have "map_of (log_entries ((k, None) # d)) = (map_of (log_entries d))(k := None)" for k d
    using map_of_filter_key [of "\<lambda>j. j \<noteq> k" "log_entries d"]
    by (auto simp: log_entries_Cons log_apply_def fun_eq_iff)
  ultimately show ?thesis
    by (simp add: rocksdb_spec_def log_engine_def log_entries_ok log_batch)
qed

definition sample_storage :: "db_log RocksDbStorage" where
  "sample_storage = \<lparr>engine = log_engine, db = []\<rparr>"

lemma sample_storage_ok: "storage_ok sample_storage"
  using log_engine_spec by (auto simp: storage_ok_def sample_storage_def)

theorem storage_iter_exact_witness:
  "\<exists>es. storage_iter [7] (sample_storage\<lparr>db := [([7, 2], Some [1])]\<rparr>) = Inr es \<and>
     map_of es [7, 2] = content (sample_storage\<lparr>db := [([7, 2], Some [1])]\<rparr>) [7, 2]"
  using storage_iter_exact [of "sample_storage\<lparr>db := [([7, 2], Some [1])]\<rparr>" "[7]"] sample_storage_ok by auto

section \<open>Typed values\<close>

text \<open>The state after an operation that succeeds.\<close>

definition ran :: "('s, 'a) storage_op \<Rightarrow> 's \<Rightarrow> ('s, storage_error) result" where
  "ran m s = (case m s of (s', Inl e) \<Rightarrow> Inl e | (s', Inr _) \<Rightarrow> Inr s')"

lemma st_bind_Inr: "m s = (s', Inr x) \<Longrightarrow> st_bind m f s = f x s'"
  by (simp add: st_bind_def)

lemma st_bind_reads: "st_bind (st_reads g) f s = (case g s of Inl e \<Rightarrow> (s, Inl e) | Inr x \<Rightarrow> f x s)"
  by (simp add: st_bind_def st_reads_def split: sum.splits)

lemma st_bind_lift: "st_bind (st_lift r) f s = (case r of Inl e \<Rightarrow> (s, Inl e) | Inr x \<Rightarrow> f x s)"
  by (simp add: st_bind_def st_lift_def split: sum.splits)

lemma put_encoded_content:
  assumes "storage_ok s" and "serialize c v = Inr b"
  shows "\<exists>s'. put_encoded c k v s = (s', Inr ()) \<and> storage_ok s' \<and> content s' = (content s)(k \<mapsto> b)"
  using storage_put_content [OF assms(1), of k b] assms(2) by (auto simp: put_encoded_def st_bind_lift)

lemma get_decoded_content:
  "storage_ok s \<Longrightarrow> get_decoded c k s = (case content s k of None \<Rightarrow> Inr None
     | Some b \<Rightarrow> and_then (map_err Bincode (deserialize c b)) (\<lambda>v. Inr (Some v)))"
  by (simp add: get_decoded_def storage_get_content)

definition found :: "('a option, storage_error) result \<Rightarrow> 'a option" where
  "found r = (case r of Inr x \<Rightarrow> x | Inl _ \<Rightarrow> None)"

text \<open>
  A typed table: values of one codec under an injective key function. Every such table of
  the storage layer is a keyed store.
\<close>

lemma typed_table:
  assumes "\<And>a b. key a = key b \<longleftrightarrow> a = b"
  shows "keyed_store storage_ok (\<lambda>s k v. roundtrips c v)
    (\<lambda>s k v. ran (put_encoded c (key k) v) s) (\<lambda>s k. found (get_decoded c (key k) s))"
proof
  fix s :: "'d RocksDbStorage" and s' k v
  show "\<exists>s'. ran (put_encoded c (key k) v) s = Inr s'" if ok: "storage_ok s" and rt: "roundtrips c v"
  proof -
    obtain b where "serialize c v = Inr b" using rt by (elim roundtripsE)
    from put_encoded_content [OF ok this, of "key k"] show ?thesis by (auto simp: ran_def)
  qed
  assume st: "ran (put_encoded c (key k) v) s = Inr s'"
  show "(\<lambda>k v. roundtrips c v) = (\<lambda>k v. roundtrips c v)" ..
  assume ok: "storage_ok s"
  obtain b where b: "serialize c v = Inr b"
    using st by (cases "serialize c v") (simp_all add: ran_def put_encoded_def st_bind_lift)
  obtain s2 where s2: "put_encoded c (key k) v s = (s2, Inr ())" "storage_ok s2" "content s2 = (content s)(key k \<mapsto> b)"
    using put_encoded_content [OF ok b] by blast
  have s': "s' = s2" using st s2(1) by (simp add: ran_def)
  then show "storage_ok s'" using s2(2) by simp
  assume "roundtrips c v"
  with b have "deserialize c b = Inr v" by (auto elim: roundtripsE)
  with s2 ok s' assms show "(\<lambda>k. found (get_decoded c (key k) s')) = (\<lambda>k. found (get_decoded c (key k) s))(k \<mapsto> v)"
    by (auto simp: fun_eq_iff get_decoded_content found_def)
qed

lemma prefixed_key_inj [simp]: "prefixed_key p a = prefixed_key p b \<longleftrightarrow> a = b"
  by (simp add: prefixed_key_def)

interpretation accounts: keyed_store storage_ok "\<lambda>s a v. roundtrips (bc_account E) v"
  "\<lambda>s a v. ran (update_account E a v) s" "\<lambda>s a. found (get_account E a s)"
  for E :: "'z env_scheme"
  unfolding update_account_def get_account_def by (rule typed_table) (simp add: account_key_def)

interpretation contracts: keyed_store storage_ok "\<lambda>s a v. roundtrips (bc_contract E) v"
  "\<lambda>s a v. ran (update_contract E a v) s" "\<lambda>s a. found (get_contract E a s)"
  for E :: "'z env_scheme"
  unfolding update_contract_def get_contract_def by (rule typed_table) (simp add: contract_key_def)

interpretation note_roots: keyed_store storage_ok "\<lambda>s a v. roundtrips (bc_note_root E) v"
  "\<lambda>s a v. ran (save_note_merkle_root E a v) s" "\<lambda>s a. found (get_note_merkle_root E a s)"
  for E :: "'z storage_env_scheme"
  unfolding save_note_merkle_root_def get_note_merkle_root_def
  by (rule typed_table) (rule note_merkle_root_key_inj)

text \<open>
  The account table is a last-writer-wins store: after any sequence of account updates
  whose values survive serialisation, reading an account returns the last value written for
  its address, or what was stored before.
\<close>

theorem account_writes:
  assumes "storage_ok s" and "\<forall>(a, v) \<in> set ws. roundtrips (bc_account E) v"
  shows "\<exists>s'. try_fold (\<lambda>s (a, v). ran (update_account E a v) s) s ws = Inr s' \<and> storage_ok s' \<and>
    (\<forall>a. found (get_account E a s') =
      (case map_of (rev ws) a of Some v \<Rightarrow> Some v | None \<Rightarrow> found (get_account E a s)))"
proof -
  obtain s' where "try_fold (\<lambda>s (a, v). ran (update_account E a v) s) s ws = Inr s'" "storage_ok s'"
    "(\<lambda>a. found (get_account E a s')) = (\<lambda>a. found (get_account E a s)) ++ map_of (rev ws)"
    using accounts.puts_get [OF assms] by (elim exE conjE)
  then show ?thesis by (intro exI [of _ s']) (simp add: fun_eq_iff map_add_def)
qed

lemma sample_account_roundtrips: "roundtrips (bc_account sample_env) (sample_account 7 0)"
  by (simp add: roundtrips_def sample_env_def field_codec_def sample_account_def from_be_to_be)

theorem account_writes_witness:
  "\<exists>s'. ran (update_account sample_env [9] (sample_account 7 0)) sample_storage = Inr s' \<and>
     found (get_account sample_env [9] s') = Some (sample_account 7 0)"
proof -
  have "\<forall>(a, v) \<in> set [([9], sample_account 7 0)]. roundtrips (bc_account sample_env) v"
    using sample_account_roundtrips by simp
  from account_writes [OF sample_storage_ok this] show ?thesis by (auto simp: result_simps)
qed

end
