(* ===== verification/ContractStorage.thy ===== *)
theory ContractStorage
  imports StorageLaws
begin

text \<open>
  The contract operations of \<open>src/src/storage/mod.rs\<close>: deployment, direct writes and the
  batched commit. The batched commit computes the storage root in memory before anything is
  written; the theory shows that it is the root \<open>compute_contract_storage_root\<close> reads back
  afterwards. It also holds the laws of the note index and of the checksum envelope.
\<close>

section \<open>Slots of a contract\<close>

definition contract_slots :: "bytes \<Rightarrow> 'd RocksDbStorage \<Rightarrow> bytes \<Rightarrow> bytes option" where
  "contract_slots a s k = content s (contract_storage_key a k)"

lemma map_of_strip_prefix:
  "\<forall>e \<in> set es. prefix p (fst e) \<Longrightarrow> map_of (map (strip_prefix p) es) k = map_of es (p @ k)"
  by (induction es) (auto simp: strip_prefix_def prefix_def)

lemma append_less_append: "p @ j < p @ (k :: bytes) \<longleftrightarrow> j < k"
  by (induction p) simp_all

lemma btree_ok_strip_prefix:
  "\<forall>e \<in> set es. prefix p (fst e) \<Longrightarrow> btree_ok es \<Longrightarrow> btree_ok (map (strip_prefix p) es)"
proof (induction es)
  case (Cons e es)
  have "drop (length p) (fst e) < drop (length p) (fst x)" if x: "x \<in> set es" for x
  proof -
    obtain j k where "fst e = p @ j" "fst x = p @ k" using Cons.prems(1) x by (auto simp: prefix_def)
    moreover have "fst e < fst x" using Cons.prems(2) x by (cases e) auto
    ultimately show ?thesis by (simp add: append_less_append)
  qed
  with Cons show ?case by (cases e) (auto simp: strip_prefix_def)
qed simp

lemma contract_slots_iter:
  assumes "storage_ok s"
  shows "\<exists>es. storage_iter (contract_storage_prefix a) s = Inr es \<and> btree_ok es \<and>
    btree_ok (map (strip_prefix (contract_storage_prefix a)) es) \<and>
    map_of (map (strip_prefix (contract_storage_prefix a)) es) = contract_slots a s"
proof -
  let ?p = "contract_storage_prefix a"
  obtain es where es: "storage_iter ?p s = Inr es" "btree_ok es"
    "map_of es = (\<lambda>k. if prefix ?p k then content s k else None)"
    using storage_iter_content [OF assms, of ?p] by (elim exE conjE)
  have pre: "\<forall>e \<in> set es. prefix ?p (fst e)"
  proof
    fix e assume "e \<in> set es"
    then have "map_of es (fst e) \<noteq> None" by (simp add: map_of_eq_None_iff)
    with es(3) show "prefix ?p (fst e)" by (simp split: if_splits)
  qed
  have "map_of (map (strip_prefix ?p) es) = contract_slots a s"
    using map_of_strip_prefix [OF pre] es(3)
    by (simp add: fun_eq_iff contract_slots_def contract_storage_key_def)
  with es btree_ok_strip_prefix [OF pre es(2)] show ?thesis by blast
qed

lemma compute_root_slots:
  assumes "storage_ok s" and "btree_ok m" and "map_of m = contract_slots a s"
  shows "compute_contract_storage_root E a s = Inr (sha256 E (slots_payload E m))"
proof -
  let ?p = "contract_storage_prefix a"
  obtain es where es: "storage_iter ?p s = Inr es" "btree_ok es" "btree_ok (map (strip_prefix ?p) es)"
    "map_of (map (strip_prefix ?p) es) = contract_slots a s"
    using contract_slots_iter [OF assms(1), of a] by (elim exE conjE)
  have "sort_key fst es = es"
    using es(2) by (intro sort_key_id_if_sorted) (simp add: btree_ok_def strict_sorted_iff)
  moreover have "map (strip_prefix ?p) es = m"
    using es(3,4) assms(2,3) by (intro btree_eqI) simp_all
  ultimately show ?thesis
    using es(1) by (auto simp: compute_contract_storage_root_def slots_payload_def result_simps)
qed

section \<open>Updates of contract storage\<close>

definition slot_writes :: "bytes \<Rightarrow> (bytes \<times> bytes) list \<Rightarrow> bytes \<Rightarrow> bytes option" where
  "slot_writes a ws = map_of (rev (map (\<lambda>(k, v). (contract_storage_key a k, v)) ws))"

text \<open>
  \<open>updated E a c ws s s'\<close>: the storage \<open>s'\<close> is \<open>s\<close> with the slots \<open>ws\<close> of
  contract \<open>a\<close> written and its record \<open>c\<close> carrying the root of the new slots.
\<close>

definition updated :: "'z env_scheme \<Rightarrow> bytes \<Rightarrow> Contract \<Rightarrow> (bytes \<times> bytes) list
    \<Rightarrow> 'd RocksDbStorage \<Rightarrow> 'd RocksDbStorage \<Rightarrow> bool" where
  "updated E a c ws s s' \<longleftrightarrow> storage_ok s' \<and>
     (\<exists>root b. compute_contract_storage_root E a s' = Inr root \<and>
        serialize (bc_contract E) (c\<lparr>c_storage_root := root\<rparr>) = Inr b \<and>
        content s' = (content s ++ slot_writes a ws)(contract_key a \<mapsto> b))"

lemma contract_key_not_slot: "contract_key b \<noteq> contract_storage_key a k"
  by (simp add: key_defs prefix_defs bytes_of_def)

lemma contract_storage_key_inj: "contract_storage_key a k = contract_storage_key a l \<longleftrightarrow> k = l"
  by (simp add: contract_storage_key_def)

lemma slot_writes_slot: "slot_writes a ws (contract_storage_key a k) = map_of (rev ws) k"
proof -
  have "map_of (map (\<lambda>(k, v). (contract_storage_key a k, v)) us) (contract_storage_key a k) = map_of us k" for us
    by (induction us) (auto simp: contract_storage_key_inj)
  then show ?thesis by (simp add: slot_writes_def rev_map)
qed

lemma slot_writes_append: "slot_writes a (ws @ [(k, v)]) = (slot_writes a ws)(contract_storage_key a k \<mapsto> v)"
  by (simp add: slot_writes_def)

text \<open>Two updates with the same writes leave the same database.\<close>

lemma updated_unique:
  assumes "updated E a c ws s s1" and "updated E a c ws s s2"
  shows "content s1 = content s2"
proof -
  obtain r1 b1 where 1: "compute_contract_storage_root E a s1 = Inr r1"
    "serialize (bc_contract E) (c\<lparr>c_storage_root := r1\<rparr>) = Inr b1"
    "content s1 = (content s ++ slot_writes a ws)(contract_key a \<mapsto> b1)" and ok1: "storage_ok s1"
    using assms(1) unfolding updated_def by (elim exE conjE)
  obtain r2 b2 where 2: "compute_contract_storage_root E a s2 = Inr r2"
    "serialize (bc_contract E) (c\<lparr>c_storage_root := r2\<rparr>) = Inr b2"
    "content s2 = (content s ++ slot_writes a ws)(contract_key a \<mapsto> b2)" and ok2: "storage_ok s2"
    using assms(2) unfolding updated_def by (elim exE conjE)
  have "contract_slots a s1 = contract_slots a s2"
    by (simp add: fun_eq_iff contract_slots_def 1(3) 2(3) contract_key_not_slot [symmetric])
  moreover obtain m where "btree_ok m" "map_of m = contract_slots a s1"
    using contract_slots_iter [OF ok1, of a] by (elim exE conjE)
  ultimately have "r1 = r2"
    using compute_root_slots [OF ok1, of m a E] compute_root_slots [OF ok2, of m a E] 1(1) 2(1) by simp
  with 1 2 show ?thesis by simp
qed

lemma storage_root_digest: "compute_contract_storage_root E a s = Inr root \<Longrightarrow> \<exists>x. root = sha256 E x"
  by (auto simp: compute_contract_storage_root_def result_simps Let_def split: if_splits)

lemma updated_reads:
  assumes "updated E a c ws s s'" and "\<forall>x. roundtrips (bc_contract E) (c\<lparr>c_storage_root := sha256 E x\<rparr>)"
  shows "\<exists>root. compute_contract_storage_root E a s' = Inr root \<and>
     get_contract E a s' = Inr (Some (c\<lparr>c_storage_root := root\<rparr>)) \<and>
     (\<forall>k. get_contract_storage E a k s' = Inr (case map_of (rev ws) k of Some v \<Rightarrow> Some v | None \<Rightarrow> contract_slots a s k))"
proof -
  obtain root b where u: "compute_contract_storage_root E a s' = Inr root"
    "serialize (bc_contract E) (c\<lparr>c_storage_root := root\<rparr>) = Inr b"
    "content s' = (content s ++ slot_writes a ws)(contract_key a \<mapsto> b)" and ok: "storage_ok s'"
    using assms(1) unfolding updated_def by (elim exE conjE)
  have "deserialize (bc_contract E) b = Inr (c\<lparr>c_storage_root := root\<rparr>)"
    using assms(2) storage_root_digest [OF u(1)] u(2) by (metis roundtripsE sum.inject(2))
  then have g: "get_contract E a s' = Inr (Some (c\<lparr>c_storage_root := root\<rparr>))"
    using u(3) by (simp add: get_contract_def get_decoded_content [OF ok] result_simps)
  moreover have "get_contract_storage E a k s' =
      Inr (case map_of (rev ws) k of Some v \<Rightarrow> Some v | None \<Rightarrow> contract_slots a s k)" for k
    using g u(3) by (simp add: get_contract_storage_def storage_get_content [OF ok] result_simps
      contract_key_not_slot [symmetric] map_add_def slot_writes_slot contract_slots_def split: option.splits)
  ultimately show ?thesis using u(1) by blast
qed

section \<open>The batched commit\<close>

lemma commit_updates:
  assumes "storage_ok s" and "get_contract E a s = Inr (Some c)" and "ws \<noteq> []"
    and "\<forall>x. roundtrips (bc_contract E) (c\<lparr>c_storage_root := sha256 E x\<rparr>)"
  shows "\<exists>s'. commit_contract_storage_batch E a ws s = (s', Inr ()) \<and> updated E a c ws s s'"
proof -
  let ?p = "contract_storage_prefix a"
  obtain es where es: "storage_iter ?p s = Inr es"
    "btree_ok (map (strip_prefix ?p) es)" "map_of (map (strip_prefix ?p) es) = contract_slots a s"
    using contract_slots_iter [OF assms(1), of a] by (elim exE conjE)
  define slots where "slots = fold (\<lambda>(k, v). btree_insert k v) (map (strip_prefix ?p) es) []"
  have "btree_ok slots \<and> map_of slots = map_of (rev (map (strip_prefix ?p) es))"
    unfolding slots_def using btree_of_list [of "[]" "map (strip_prefix ?p) es"] by simp
  moreover have "map_of (rev (map (strip_prefix ?p) es)) = contract_slots a s"
    using es(3) btree_ok_distinct [OF es(2)] map_of_inject_set [of "rev (map (strip_prefix ?p) es)" "map (strip_prefix ?p) es"]
    by (simp add: rev_map [symmetric])
  ultimately have slots: "btree_ok slots" "map_of slots = contract_slots a s" by auto
  define m where "m = fold (\<lambda>(k, v). btree_insert k v) ws slots"
  have m: "btree_ok m" "map_of m = contract_slots a s ++ map_of (rev ws)"
    using btree_of_list [OF slots(1), of ws] slots(2) by (simp_all add: m_def)
  define root where "root = sha256 E (slots_payload E m)"
  obtain b where b: "serialize (bc_contract E) (c\<lparr>c_storage_root := root\<rparr>) = Inr b"
    using assms(4) unfolding root_def by (metis roundtripsE)
  let ?kvs = "map (\<lambda>(k, v). (contract_storage_key a k, v)) ws @ [(contract_key a, b)]"
  obtain d where d: "db_write (engine s) (db s) ?kvs = Inr d" "content (s\<lparr>db := d\<rparr>) = content s ++ map_of (rev ?kvs)"
    using storage_batch_content [OF assms(1), of ?kvs] by (elim exE conjE)
  have ok: "storage_ok (s\<lparr>db := d\<rparr>)" using assms(1) by simp
  have c: "content (s\<lparr>db := d\<rparr>) = (content s ++ slot_writes a ws)(contract_key a \<mapsto> b)"
    using d(2) by (simp add: slot_writes_def)
  have "contract_slots a (s\<lparr>db := d\<rparr>) = map_of m"
    by (simp add: fun_eq_iff contract_slots_def c m(2) contract_key_not_slot [symmetric] map_add_def slot_writes_slot split: option.splits)
  then have r: "compute_contract_storage_root E a (s\<lparr>db := d\<rparr>) = Inr root"
    using compute_root_slots [OF ok m(1), of a E] by (simp add: root_def)
  have "commit_contract_storage_batch E a ws s = (s\<lparr>db := d\<rparr>, Inr ())"
    using assms(2,3) es(1) b d(1)
    by (cases "slots_payload E m = []") (simp_all add: commit_contract_storage_batch_def st_bind_reads
      st_bind_lift Let_def slots_def [symmetric] m_def [symmetric] root_def)
  with ok r b c show ?thesis unfolding updated_def by blast
qed

lemma set_updates:
  assumes "storage_ok s'" and "get_contract E a s' = Inr (Some (c\<lparr>c_storage_root := r0\<rparr>))"
    and "\<forall>x. roundtrips (bc_contract E) (c\<lparr>c_storage_root := sha256 E x\<rparr>)"
    and "\<forall>j. j \<noteq> contract_key a \<longrightarrow> content s' j = (content s ++ slot_writes a ws) j"
  shows "\<exists>s''. ran (set_contract_storage E a k v) s' = Inr s'' \<and> updated E a c (ws @ [(k, v)]) s s''"
proof -
  obtain s1 where s1: "storage_put (contract_storage_key a k) v s' = (s1, Inr ())" "storage_ok s1"
    "content s1 = (content s')(contract_storage_key a k \<mapsto> v)"
    using storage_put_content [OF assms(1), of "contract_storage_key a k" v] by (elim exE conjE)
  obtain m where m: "btree_ok m" "map_of m = contract_slots a s1"
    using contract_slots_iter [OF s1(2), of a] by (elim exE conjE)
  define root where "root = sha256 E (slots_payload E m)"
  have r1: "compute_contract_storage_root E a s1 = Inr root"
    using compute_root_slots [OF s1(2) m] by (simp add: root_def)
  obtain b where b: "serialize (bc_contract E) (c\<lparr>c_storage_root := root\<rparr>) = Inr b"
    using assms(3) unfolding root_def by (metis roundtripsE)
  obtain s2 where s2: "put_encoded (bc_contract E) (contract_key a) (c\<lparr>c_storage_root := root\<rparr>) s1 = (s2, Inr ())"
    "storage_ok s2" "content s2 = (content s1)(contract_key a \<mapsto> b)"
    using put_encoded_content [OF s1(2) b, of "contract_key a"] by (elim exE conjE)
  have "contract_slots a s2 = contract_slots a s1"
    by (simp add: fun_eq_iff contract_slots_def s2(3) contract_key_not_slot [symmetric])
  then have "compute_contract_storage_root E a s2 = Inr root"
    using compute_root_slots [OF s2(2) m(1), of a E] m(2) by (simp add: root_def)
  moreover have "content s2 = (content s ++ slot_writes a (ws @ [(k, v)]))(contract_key a \<mapsto> b)"
    using assms(4) by (auto simp: fun_eq_iff s2(3) s1(3) slot_writes_append)
  ultimately have "updated E a c (ws @ [(k, v)]) s s2" using s2(2) b unfolding updated_def by blast
  moreover have "set_contract_storage E a k v s' = (s2, Inr ())"
    using assms(2) s1(1) r1 s2(1)
    by (simp add: set_contract_storage_def st_bind_reads st_bind_lift st_bind_Inr update_contract_def)
  ultimately show ?thesis by (simp add: ran_def)
qed

text \<open>
  C3. The batched commit of a contract's writes is correct: it succeeds, every written slot
  reads back its last value and every other slot its old one, and the storage root recorded in
  the contract is the root that \<open>compute_contract_storage_root\<close> computes from the database
  afterwards, although the commit computes it before writing.
\<close>

theorem commit_batch_correct:
  assumes "storage_ok s" and "get_contract E a s = Inr (Some c)" and "ws \<noteq> []"
    and "\<forall>x. roundtrips (bc_contract E) (c\<lparr>c_storage_root := sha256 E x\<rparr>)"
  shows "\<exists>s' root. commit_contract_storage_batch E a ws s = (s', Inr ()) \<and>
     compute_contract_storage_root E a s' = Inr root \<and>
     get_contract E a s' = Inr (Some (c\<lparr>c_storage_root := root\<rparr>)) \<and>
     (\<forall>k. get_contract_storage E a k s' =
        Inr (case map_of (rev ws) k of Some v \<Rightarrow> Some v | None \<Rightarrow> content s (contract_storage_key a k)))"
proof -
  obtain s' where s': "commit_contract_storage_batch E a ws s = (s', Inr ())" "updated E a c ws s s'"
    using commit_updates [OF assms] by (elim exE conjE)
  with updated_reads [OF s'(2) assms(4), unfolded contract_slots_def] show ?thesis by auto
qed

definition root_codec :: "Contract codec" where
  "root_codec = \<lparr>serialize = (\<lambda>c. Inr (c_storage_root c)),
     deserialize = (\<lambda>b. Inr \<lparr>c_code_wasm = [1], c_storage_root = b\<rparr>)\<rparr>"

definition sample_deployed :: "db_log RocksDbStorage" where
  "sample_deployed = sample_storage\<lparr>db := [(contract_key [9], Some [])]\<rparr>"

lemma sample_deployed:
  "storage_ok sample_deployed"
  "get_contract (sample_env\<lparr>bc_contract := root_codec\<rparr>) [9] sample_deployed =
     Inr (Some \<lparr>c_code_wasm = [1], c_storage_root = []\<rparr>)"
  "\<forall>x. roundtrips (bc_contract (sample_env\<lparr>bc_contract := root_codec\<rparr>))
     (\<lparr>c_code_wasm = [1], c_storage_root = []\<rparr>\<lparr>c_storage_root := sha256 (sample_env\<lparr>bc_contract := root_codec\<rparr>) x\<rparr>)"
proof -
  show ok: "storage_ok sample_deployed" using sample_storage_ok by (simp add: sample_deployed_def)
  have "content sample_deployed (contract_key [9]) = Some []"
    by (simp add: content_def sample_deployed_def sample_storage_def log_engine_def log_entries_def log_apply_def)
  then show "get_contract (sample_env\<lparr>bc_contract := root_codec\<rparr>) [9] sample_deployed =
     Inr (Some \<lparr>c_code_wasm = [1], c_storage_root = []\<rparr>)"
    by (simp add: get_contract_def get_decoded_content [OF ok] root_codec_def)
qed (simp add: roundtrips_def root_codec_def)

theorem commit_batch_correct_witness:
  "\<exists>s'. commit_contract_storage_batch (sample_env\<lparr>bc_contract := root_codec\<rparr>) [9] [([1], [2])] sample_deployed = (s', Inr ()) \<and>
     get_contract_storage (sample_env\<lparr>bc_contract := root_codec\<rparr>) [9] [1] s' = Inr (Some [2])"
  using commit_batch_correct [OF sample_deployed(1,2) _ sample_deployed(3), of "[([1], [2])]"] by auto

lemma sets_update:
  assumes "storage_ok s" and "get_contract E a s = Inr (Some c)"
    and "\<forall>x. roundtrips (bc_contract E) (c\<lparr>c_storage_root := sha256 E x\<rparr>)" and "ws \<noteq> []"
  shows "\<exists>s'. try_fold (\<lambda>s (k, v). ran (set_contract_storage E a k v) s) s ws = Inr s' \<and> updated E a c ws s s'"
  using assms(4)
proof (induction ws rule: rev_nonempty_induct)
  case (single kv)
  obtain k v where kv: "kv = (k, v)" by (cases kv)
  have "get_contract E a s = Inr (Some (c\<lparr>c_storage_root := c_storage_root c\<rparr>))" using assms(2) by simp
  from set_updates [OF assms(1) this assms(3), of s "[]" k v] show ?case
    by (auto simp: kv slot_writes_def result_simps)
next
  case (snoc kv ws)
  obtain k v where kv: "kv = (k, v)" by (cases kv)
  obtain s1 where s1: "try_fold (\<lambda>s (k, v). ran (set_contract_storage E a k v) s) s ws = Inr s1" "updated E a c ws s s1"
    using snoc.IH by (elim exE conjE)
  obtain root where g: "get_contract E a s1 = Inr (Some (c\<lparr>c_storage_root := root\<rparr>))"
    using updated_reads [OF s1(2) assms(3)] by (elim exE conjE)
  have "storage_ok s1" "\<forall>j. j \<noteq> contract_key a \<longrightarrow> content s1 j = (content s ++ slot_writes a ws) j"
    using s1(2) by (auto simp: updated_def)
  from set_updates [OF this(1) g assms(3) this(2), of k v] s1(1) show ?case
    by (auto simp: kv try_fold_append result_simps)
qed

text \<open>
  C18. The batched commit is equivalent to setting the slots one by one: both succeed and
  leave the same database, the contract record with its storage root included.
\<close>

theorem commit_batch_equals_sets:
  assumes "storage_ok s" and "get_contract E a s = Inr (Some c)"
    and "\<forall>x. roundtrips (bc_contract E) (c\<lparr>c_storage_root := sha256 E x\<rparr>)"
  shows "\<exists>s1 s2. commit_contract_storage_batch E a ws s = (s1, Inr ()) \<and>
     try_fold (\<lambda>s (k, v). ran (set_contract_storage E a k v) s) s ws = Inr s2 \<and> content s1 = content s2"
proof (cases "ws = []")
  case True
  then show ?thesis by (simp add: commit_contract_storage_batch_def st_lift_def)
next
  case False
  obtain s1 where s1: "commit_contract_storage_batch E a ws s = (s1, Inr ())" "updated E a c ws s s1"
    using commit_updates [OF assms(1,2) False assms(3)] by (elim exE conjE)
  obtain s2 where s2: "try_fold (\<lambda>s (k, v). ran (set_contract_storage E a k v) s) s ws = Inr s2" "updated E a c ws s s2"
    using sets_update [OF assms False] by (elim exE conjE)
  with s1 updated_unique [OF s1(2) s2(2)] show ?thesis by blast
qed

theorem commit_batch_equals_sets_witness:
  "\<exists>s1 s2. commit_contract_storage_batch (sample_env\<lparr>bc_contract := root_codec\<rparr>) [9] [([1], [2]), ([3], [4])] sample_deployed = (s1, Inr ()) \<and>
     try_fold (\<lambda>s (k, v). ran (set_contract_storage (sample_env\<lparr>bc_contract := root_codec\<rparr>) [9] k v) s)
       sample_deployed [([1], [2]), ([3], [4])] = Inr s2 \<and> content s1 = content s2"
  by (rule commit_batch_equals_sets [OF sample_deployed])

section \<open>Deployment\<close>

definition fresh_contract :: "'z env_scheme \<Rightarrow> bytes \<Rightarrow> Contract" where
  "fresh_contract E code = \<lparr>c_code_wasm = code, c_storage_root = sha256 E []\<rparr>"

definition fresh_account :: "'z env_scheme \<Rightarrow> bytes \<Rightarrow> Account" where
  "fresh_account E code = \<lparr>a_balance = 0, a_nonce = 0, a_code_hash = Some (contract_code_hash E code),
     a_anonymous_state = AnonymousAccountState_default\<rparr>"

text \<open>
  A contract is deployed exactly once: the first deployment by a sender stores the code,
  the empty storage root and a zero-balance account carrying the code hash under the derived
  address; repeating it, or deploying to an address that already has an account, is refused
  and changes nothing.
\<close>

theorem deploy_contract_once:
  assumes "storage_ok s" and "sender \<noteq> []" and "code \<noteq> []"
    and "roundtrips (bc_contract E) (fresh_contract E code)" and "roundtrips (bc_account E) (fresh_account E code)"
    and "address = derive_contract_address E sender code"
    and "get_account E address s = Inr None" and "get_contract E address s = Inr None"
  shows "\<exists>s'. deploy_contract E sender code s = (s', Inr address) \<and> storage_ok s' \<and>
     get_contract E address s' = Inr (Some (fresh_contract E code)) \<and> get_account E address s' = Inr (Some (fresh_account E code)) \<and>
     deploy_contract E sender code s' = (s', Inl ContractAddressExists)"
proof -
  obtain bc where bc: "serialize (bc_contract E) (fresh_contract E code) = Inr bc" "deserialize (bc_contract E) bc = Inr (fresh_contract E code)"
    using assms(4) by (elim roundtripsE)
  obtain ba where ba: "serialize (bc_account E) (fresh_account E code) = Inr ba" "deserialize (bc_account E) ba = Inr (fresh_account E code)"
    using assms(5) by (elim roundtripsE)
  obtain s1 where s1: "put_encoded (bc_contract E) (contract_key address) (fresh_contract E code) s = (s1, Inr ())" "storage_ok s1"
    "content s1 = (content s)(contract_key address \<mapsto> bc)"
    using put_encoded_content [OF assms(1) bc(1), of "contract_key address"] by (elim exE conjE)
  obtain s2 where s2: "put_encoded (bc_account E) (account_key address) (fresh_account E code) s1 = (s2, Inr ())" "storage_ok s2"
    "content s2 = (content s1)(account_key address \<mapsto> ba)"
    using put_encoded_content [OF s1(2) ba(1), of "account_key address"] by (elim exE conjE)
  have "contract_key address \<noteq> account_key address" by (simp add: key_defs prefix_defs bytes_of_def)
  then have g: "get_contract E address s2 = Inr (Some (fresh_contract E code))" "get_account E address s2 = Inr (Some (fresh_account E code))"
    using bc(2) ba(2) s1(3) s2(3) by (simp_all add: get_contract_def get_account_def get_decoded_content [OF s2(2)] result_simps)
  have "deploy_contract E sender code s = (s2, Inr address)"
    using assms s1(1) s2(1)
    by (simp add: deploy_contract_def st_bind_reads st_bind_lift st_bind_Inr update_contract_def update_account_def
      st_lift_def fresh_contract_def fresh_account_def st_bind_def st_reads_def Let_def)
  moreover have "deploy_contract E sender code s2 = (s2, Inl ContractAddressExists)"
    using assms g by (simp add: deploy_contract_def st_bind_def st_reads_def st_lift_def Let_def)
  ultimately show ?thesis using g s2(2) by blast
qed

text \<open>A codec of one value: it writes a fixed byte and always reads the same value back.\<close>

definition const_codec :: "'a \<Rightarrow> 'a codec" where
  "const_codec v = \<lparr>serialize = (\<lambda>_. Inr [1]), deserialize = (\<lambda>_. Inr v)\<rparr>"

definition deploy_env :: env where
  "deploy_env = sample_env\<lparr>bc_contract := const_codec (fresh_contract sample_env [5]),
     bc_account := const_codec (fresh_account sample_env [5])\<rparr>"

theorem deploy_contract_once_witness:
  "\<exists>s'. deploy_contract deploy_env [4] [5] sample_storage = (s', Inr (derive_contract_address deploy_env [4] [5])) \<and>
     deploy_contract deploy_env [4] [5] s' = (s', Inl ContractAddressExists)"
proof -
  have "fresh_contract deploy_env [5] = fresh_contract sample_env [5]" "fresh_account deploy_env [5] = fresh_account sample_env [5]"
    by (simp_all add: deploy_env_def fresh_contract_def fresh_account_def sha256_def contract_code_hash_def)
  then have "roundtrips (bc_contract deploy_env) (fresh_contract deploy_env [5])"
    "roundtrips (bc_account deploy_env) (fresh_account deploy_env [5])"
    by (simp_all add: deploy_env_def roundtrips_def const_codec_def)
  moreover have "content sample_storage k = None" for k
    by (simp add: content_def sample_storage_def log_engine_def log_entries_def)
  then have "get_account E a sample_storage = Inr None" "get_contract E a sample_storage = Inr None" for E :: env and a
    by (simp_all add: get_account_def get_contract_def get_decoded_content [OF sample_storage_ok])
  ultimately show ?thesis
    using deploy_contract_once [OF sample_storage_ok, of "[4]" "[5]" deploy_env] by auto
qed

end
