(* ===== verification/NoteIndex.thy ===== *)
theory NoteIndex
  imports ContractStorage
begin

text \<open>
  The note tables of \<open>src/src/storage/mod.rs\<close> and the checksums of \<open>src/src/storage/checksum.rs\<close>:
  a viewing key finds exactly the saved notes it may see, through the index that
  \<open>save_viewable_note\<close> maintains, and a wrapped payload is unwrapped or refused.
\<close>

section \<open>The index of notes\<close>

definition note_id :: "ViewableNote \<Rightarrow> bytes" where
  "note_id v = commitment (vn_note v)"

fun save_notes :: "'z storage_env_scheme \<Rightarrow> ViewableNote list \<Rightarrow> ('d RocksDbStorage, unit) storage_op" where
  "save_notes E [] = st_lift (Inr ())"
| "save_notes E (v # vs) = st_bind (save_viewable_note E v) (\<lambda>_. save_notes E vs)"

text \<open>The tables hold exactly the notes \<open>vs\<close>: one record per commitment, one index entry per note.\<close>

definition note_index :: "'z storage_env_scheme \<Rightarrow> ViewableNote set \<Rightarrow> 'd RocksDbStorage \<Rightarrow> bool" where
  "note_index E vs s \<longleftrightarrow> storage_ok s \<and>
     (\<forall>v \<in> vs. \<exists>b. content s (anonymous_note_key (note_id v)) = Some b \<and> deserialize (bc_viewable_note E) b = Inr v) \<and>
     (\<forall>h c. length h = 32 \<longrightarrow> (content s (viewing_hint_note_key h c) \<noteq> None \<longleftrightarrow> (\<exists>v \<in> vs. vn_viewing_hint v = h \<and> note_id v = c)))"

lemma note_key_inj [simp]: "anonymous_note_key a = anonymous_note_key b \<longleftrightarrow> a = b"
  by (simp add: anonymous_note_key_def)

lemma viewing_key_inj:
  "length g = length h \<Longrightarrow> viewing_hint_note_key g c = viewing_hint_note_key h d \<longleftrightarrow> g = h \<and> c = d"
  by (auto simp: viewing_hint_note_key_def viewing_hint_prefix_def)

lemma note_not_viewing [simp]: "anonymous_note_key a \<noteq> viewing_hint_note_key h c" "viewing_hint_note_key h c \<noteq> anonymous_note_key a"
  by (simp_all add: anonymous_note_key_def viewing_hint_note_key_def viewing_hint_prefix_def prefixed_key_def prefix_defs)
    (simp_all add: bytes_of_def)

lemma save_note_index:
  assumes "note_index E vs s" and "roundtrips (bc_viewable_note E) v" and "length (vn_viewing_hint v) = 32"
    and "note_id v \<notin> note_id ` vs"
  shows "\<exists>s'. save_viewable_note E v s = (s', Inr ()) \<and> note_index E (insert v vs) s'"
proof -
  let ?n = "anonymous_note_key (note_id v)" and ?k = "viewing_hint_note_key (vn_viewing_hint v) (note_id v)"
  have ok: "storage_ok s" using assms(1) by (simp add: note_index_def)
  obtain b where b: "serialize (bc_viewable_note E) v = Inr b" "deserialize (bc_viewable_note E) b = Inr v"
    using assms(2) by (elim roundtripsE)
  obtain s1 where s1: "put_encoded (bc_viewable_note E) ?n v s = (s1, Inr ())" "storage_ok s1" "content s1 = (content s)(?n \<mapsto> b)"
    using put_encoded_content [OF ok b(1)] by blast
  obtain s2 where s2: "storage_put ?k (bytes_of ''1'') s1 = (s2, Inr ())" "storage_ok s2" "content s2 = (content s1)(?k \<mapsto> bytes_of ''1'')"
    using storage_put_content [OF s1(2)] by blast
  have "save_viewable_note E v s = (s2, Inr ())"
    using s1(1) s2(1) by (simp add: save_viewable_note_def Let_def st_bind_Inr note_id_def)
  moreover have "note_index E (insert v vs) s2"
    unfolding note_index_def
  proof (intro conjI ballI allI impI)
    show "storage_ok s2" by (rule s2(2))
    fix u assume u: "u \<in> insert v vs"
    show "\<exists>b. content s2 (anonymous_note_key (note_id u)) = Some b \<and> deserialize (bc_viewable_note E) b = Inr u"
    proof (cases "u = v")
      case False
      then have mem: "u \<in> vs" using u by simp
      then have "note_id u \<in> note_id ` vs" by (rule imageI)
      then have "note_id u \<noteq> note_id v" using assms(4) by metis
      with mem assms(1) s1(3) s2(3) show ?thesis by (auto simp: note_index_def)
    qed (use b s1(3) s2(3) in simp)
  next
    fix h c :: bytes assume h: "length h = 32"
    have "viewing_hint_note_key h c = ?k \<longleftrightarrow> h = vn_viewing_hint v \<and> c = note_id v"
      using viewing_key_inj h assms(3) by simp
    with assms(1) s1(3) s2(3) h
    show "content s2 (viewing_hint_note_key h c) \<noteq> None \<longleftrightarrow> (\<exists>u \<in> insert v vs. vn_viewing_hint u = h \<and> note_id u = c)"
      by (auto simp: note_index_def)
  qed
  ultimately show ?thesis by blast
qed

lemma save_notes_index:
  assumes "\<forall>v \<in> set vs. roundtrips (bc_viewable_note E) v \<and> length (vn_viewing_hint v) = 32"
  shows "note_index E us s \<Longrightarrow> distinct (map note_id vs) \<Longrightarrow> note_id ` us \<inter> note_id ` set vs = {} \<Longrightarrow>
    \<exists>s'. save_notes E vs s = (s', Inr ()) \<and> note_index E (us \<union> set vs) s'"
  using assms
proof (induction vs arbitrary: us s)
  case Nil
  then show ?case by (simp add: st_lift_def)
next
  case (Cons v vs)
  obtain s1 where s1: "save_viewable_note E v s = (s1, Inr ())" "note_index E (insert v us) s1"
    using save_note_index [OF Cons.prems(1), of v] Cons.prems(3,4) by auto
  have "note_id ` insert v us \<inter> note_id ` set vs = {}" using Cons.prems(2,3) by auto
  moreover have "distinct (map note_id vs)" "\<forall>v \<in> set vs. roundtrips (bc_viewable_note E) v \<and> length (vn_viewing_hint v) = 32"
    using Cons.prems(2,4) by auto
  ultimately obtain s2 where "save_notes E vs s1 = (s2, Inr ())" "note_index E (insert v us \<union> set vs) s2"
    using Cons.IH [OF s1(2)] by blast
  with s1(1) show ?case by (simp add: st_bind_Inr)
qed

lemma find_notes_loop_all:
  assumes "\<forall>e \<in> set es. get_viewable_note E (drop (length p) (fst e)) s = Inr (Some (f (fst e)))"
  shows "find_notes_loop E p s acc es = Inr (acc @ map (f \<circ> fst) es)"
  using assms by (induction es arbitrary: acc) auto

text \<open>The entries of the index under a hint are those of the notes with that hint.\<close>

lemma hint_index_keys:
  assumes "note_index E vs s" and "length h = 32"
    and "map_of es = (\<lambda>k. if prefix (viewing_hint_prefix h) k then content s k else None)"
  shows "fst ` set es = {viewing_hint_note_key h (note_id v) | v. v \<in> vs \<and> vn_viewing_hint v = h}"
proof -
  have "x \<in> fst ` set es \<longleftrightarrow> prefix (viewing_hint_prefix h) x \<and> content s x \<noteq> None" for x
    using assms(3) by (metis (no_types, lifting) map_of_eq_None_iff)
  then have "fst ` set es = {x. prefix (viewing_hint_prefix h) x \<and> content s x \<noteq> None}" by blast
  also have "\<dots> = {viewing_hint_note_key h c | c. content s (viewing_hint_note_key h c) \<noteq> None}"
    by (auto simp: viewing_hint_note_key_def prefix_def)
  finally have "fst ` set es = {viewing_hint_note_key h c | c. content s (viewing_hint_note_key h c) \<noteq> None}" .
  moreover have "content s (viewing_hint_note_key h c) \<noteq> None \<longleftrightarrow> (\<exists>v \<in> vs. vn_viewing_hint v = h \<and> note_id v = c)" for c
    using assms(1,2) by (simp add: note_index_def)
  ultimately show ?thesis by auto
qed

lemma find_notes_index:
  assumes "note_index E vs s" and "inj_on note_id vs" and "sha256_spec E"
  shows "\<exists>res. find_notes_for_viewing_key E k s = Inr res \<and> distinct res \<and> set res = {v \<in> vs. is_visible_to E v k}"
proof (cases "compute_viewing_hint E k")
  case None
  then show ?thesis by (simp add: find_notes_for_viewing_key_def is_visible_to_def)
next
  case (Some h)
  have ok: "storage_ok s" using assms(1) by (simp add: note_index_def)
  have h: "length h = 32" using Some assms(3) by (auto simp: compute_viewing_hint_def sha256_spec_def split: if_splits)
  let ?p = "viewing_hint_prefix h"
  obtain es where es: "storage_iter ?p s = Inr es" "btree_ok es" "map_of es = (\<lambda>k. if prefix ?p k then content s k else None)"
    using storage_iter_content [OF ok] by blast
  note keys = hint_index_keys [OF assms(1) h es(3)]
  have cut: "drop (length ?p) (viewing_hint_note_key h c) = c" for c by (simp add: viewing_hint_note_key_def)
  define f where "f x = (THE v. v \<in> vs \<and> note_id v = drop (length ?p) x)" for x
  have f: "f (viewing_hint_note_key h (note_id v)) = v" if "v \<in> vs" for v
    using that assms(2) by (auto simp: f_def cut inj_on_def)
  have get: "get_viewable_note E (note_id v) s = Inr (Some v)" if "v \<in> vs" for v
    using assms(1) that by (auto simp: note_index_def get_viewable_note_def get_decoded_content)
  have key: "\<exists>v \<in> vs. vn_viewing_hint v = h \<and> fst e = viewing_hint_note_key h (note_id v)" if "e \<in> set es" for e
    using imageI [OF that, of fst] unfolding keys by blast
  have all: "\<forall>e \<in> set es. get_viewable_note E (drop (length ?p) (fst e)) s = Inr (Some (f (fst e)))"
  proof
    fix e assume "e \<in> set es"
    then obtain v where "v \<in> vs" "fst e = viewing_hint_note_key h (note_id v)" using key by blast
    then show "get_viewable_note E (drop (length ?p) (fst e)) s = Inr (Some (f (fst e)))" by (simp add: cut get f)
  qed
  let ?res = "map (f \<circ> fst) es"
  have "find_notes_for_viewing_key E k s = Inr ?res"
    using find_notes_loop_all [OF all, of "[]"] Some es(1) by (simp add: find_notes_for_viewing_key_def Let_def)
  moreover have "set ?res = {v \<in> vs. is_visible_to E v k}"
  proof -
    have "set ?res = f ` fst ` set es" by (simp add: image_comp)
    also have "\<dots> = {f (viewing_hint_note_key h (note_id v)) | v. v \<in> vs \<and> vn_viewing_hint v = h}" unfolding keys by blast
    also have "\<dots> = {v \<in> vs. vn_viewing_hint v = h}" using f by force
    finally show ?thesis using Some by (auto simp: is_visible_to_def)
  qed
  moreover have "distinct ?res"
  proof -
    have "inj_on f (fst ` set es)"
    proof (rule inj_onI)
      fix x y assume "x \<in> fst ` set es" "y \<in> fst ` set es" and eq: "f x = f y"
      then obtain u v where "x = viewing_hint_note_key h (note_id u)" "u \<in> vs" "y = viewing_hint_note_key h (note_id v)" "v \<in> vs"
        unfolding keys by blast
      with eq f show "x = y" by simp
    qed
    moreover have "distinct (map fst es)" using es(2) by (simp add: btree_ok_def strict_sorted_iff)
    ultimately have "distinct (map f (map fst es))" by (simp only: distinct_map set_map)
    then show ?thesis by simp
  qed
  ultimately show ?thesis by blast
qed

text \<open>
  C34. A viewing key finds its notes: when notes with pairwise different commitments are saved to
  storage that holds none, \<open>find_notes_for_viewing_key\<close> returns, without repetition, exactly those
  that are visible to the key.
\<close>

theorem notes_found:
  assumes "sha256_spec E" and "note_index E {} s" and "distinct (map note_id vs)"
    and "\<forall>v \<in> set vs. roundtrips (bc_viewable_note E) v \<and> length (vn_viewing_hint v) = 32"
  shows "\<exists>s' res. save_notes E vs s = (s', Inr ()) \<and> find_notes_for_viewing_key E k s' = Inr res \<and> distinct res \<and>
    set res = {v \<in> set vs. is_visible_to E v k}"
proof -
  obtain s' where s': "save_notes E vs s = (s', Inr ())" "note_index E (set vs) s'"
    using save_notes_index [OF assms(4,2,3)] by auto
  moreover have "inj_on note_id (set vs)" using assms(3) by (simp add: distinct_map)
  ultimately show ?thesis using find_notes_index [OF s'(2) _ assms(1)] by blast
qed

definition sample_note :: ViewableNote where
  "sample_note = \<lparr>vn_note = \<lparr>commitment = [5]\<rparr>, vn_viewing_hint = sample_digest (bytes_of ''prims-viewing-key'' @ [9]), vn_shard_id = 0\<rparr>"

definition note_env :: storage_env where
  "note_env = env.extend sample_env (storage_env.fields (const_codec sample_note) (const_codec []) (const_codec \<lparr>checksum = sample_digest [1], payload = [1]\<rparr>))"

theorem notes_found_witness:
  "\<exists>s' res. save_notes note_env [sample_note] sample_storage = (s', Inr ()) \<and> find_notes_for_viewing_key note_env [9] s' = Inr res \<and>
     set res = {sample_note}"
proof -
  have sha: "sha256_spec note_env" and f: "sha256_digest note_env = sample_digest" "bc_viewable_note note_env = const_codec sample_note"
    by (simp_all add: sha256_spec_def note_env_def env.defs storage_env.defs sample_env_def sample_digest_def)
  have "content sample_storage = Map.empty"
    by (rule ext) (simp add: content_def sample_storage_def log_engine_def log_entries_def)
  then have none: "note_index note_env {} sample_storage" using sample_storage_ok by (simp add: note_index_def)
  have ok: "\<forall>v \<in> set [sample_note]. roundtrips (bc_viewable_note note_env) v \<and> length (vn_viewing_hint v) = 32"
    by (simp add: f roundtrips_def const_codec_def sample_note_def sample_digest_def)
  have "is_visible_to note_env sample_note [9]"
    by (simp add: is_visible_to_def compute_viewing_hint_def f zero32_def sample_note_def numeral_eq_Suc)
  then have "{v \<in> set [sample_note]. is_visible_to note_env v [9]} = {sample_note}" by auto
  moreover have d: "distinct (map note_id [sample_note])" by simp
  obtain s' res where "save_notes note_env [sample_note] sample_storage = (s', Inr ())"
      "find_notes_for_viewing_key note_env [9] s' = Inr res" "set res = {v \<in> set [sample_note]. is_visible_to note_env v [9]}"
    using notes_found [OF sha none d ok, of "[9]"] by (elim exE conjE)
  ultimately show ?thesis by auto
qed

section \<open>Checksums\<close>

text \<open>
  A wrapped payload is given back, and a record whose checksum is not the digest of its payload
  is refused.
\<close>

theorem checksum_roundtrip:
  assumes "roundtrips (bc_checked E) \<lparr>checksum = sha256 E p, payload = p\<rparr>"
  shows "\<exists>b. wrap_payload E p = Inr b \<and> unwrap_payload E b = Inr p"
  using assms by (elim roundtripsE) (simp add: wrap_payload_def unwrap_payload_def)

lemma checksum_detects:
  assumes "deserialize (bc_checked E) b = Inr r" and "sha256 E (payload r) \<noteq> checksum r"
  shows "unwrap_payload E b = Inl ChecksumMismatch"
  using assms by (simp add: unwrap_payload_def)

end
