(* ===== verification/Crypto.thy ===== *)
theory Crypto
  imports Hash
begin

text \<open>
  \<open>src/src/crypto/mod.rs\<close>: key pairs, and signing and verifying transactions. The 32
  random bytes drawn from \<open>OsRng\<close> are an argument of \<open>generate_keypair\<close>. The
  \<open>anyhow\<close> errors are the constructors of \<open>crypto_error\<close>.
\<close>

record KeyPair =
  secret_key :: bytes
  public_key :: bytes

datatype crypto_error =
    Crypto_Serialization string
  | InvalidPublicKey
  | InvalidTransactionSignatureLength

definition generate_keypair :: "'z env_scheme \<Rightarrow> bytes \<Rightarrow> KeyPair" where
  "generate_keypair E random = \<lparr>secret_key = random, public_key = signing_public E random\<rparr>"

definition unsigned_transaction_bytes :: "'z env_scheme \<Rightarrow> Transaction \<Rightarrow> (bytes, crypto_error) result" where
  "unsigned_transaction_bytes E transaction =
     map_err Crypto_Serialization (serialize (bc_transaction E) (transaction\<lparr>tx_signature := []\<rparr>))"

definition sign_transaction :: "'z env_scheme \<Rightarrow> Transaction \<Rightarrow> bytes \<Rightarrow> (bytes, crypto_error) result" where
  "sign_transaction E transaction sk =
     and_then (unsigned_transaction_bytes E transaction) (\<lambda>message. Inr (signing_sign E sk message))"

definition verify_transaction :: "'z env_scheme \<Rightarrow> Transaction \<Rightarrow> bytes \<Rightarrow> (bool, crypto_error) result" where
  "verify_transaction E transaction pk =
     (if \<not> verifying_key_ok E pk then Inl InvalidPublicKey
      else and_then (try_into_array 64 InvalidTransactionSignatureLength (tx_signature transaction))
        (\<lambda>signature. and_then (unsigned_transaction_bytes E transaction)
          (\<lambda>message. Inr (verifying_verify E pk message signature))))"

lemma unsigned_transaction_bytes_signature [simp]:
  "unsigned_transaction_bytes E (tx\<lparr>tx_signature := s\<rparr>) = unsigned_transaction_bytes E tx"
  by (simp add: unsigned_transaction_bytes_def)

text \<open>
  Signing then verifying succeeds: a transaction that carries the signature
  \<open>sign_transaction\<close> computed for it verifies under the signer's public key, whatever
  signature bytes it carried when it was signed.
\<close>

theorem sign_then_verify:
  assumes "ed25519_spec E" and "length sk = 32" and "sign_transaction E tx sk = Inr s"
  shows "verify_transaction E (tx\<lparr>tx_signature := s\<rparr>) (signing_public E sk) = Inr True"
proof -
  obtain m where m: "unsigned_transaction_bytes E tx = Inr m" "s = signing_sign E sk m"
    using assms(3) by (auto simp: sign_transaction_def result_simps)
  with assms(1,2) show ?thesis
    by (simp add: verify_transaction_def ed25519_spec_def try_into_array_def)
qed

theorem sign_then_verify_witness:
  "verify_transaction sample_env
     ((sample_tx 4)\<lparr>tx_signature := replicate 32 3 @ replicate 32 8\<rparr>) (replicate 32 3) = Inr True"
proof -
  have "sign_transaction sample_env (sample_tx 4) (replicate 32 3) =
      Inr (replicate 32 3 @ replicate 32 8)"
    by (simp add: sign_transaction_def unsigned_transaction_bytes_def sample_env_def
        field_codec_def sample_digest_def)
  from sign_then_verify [OF sample_env_ed25519 _ this] show ?thesis
    by (simp add: sample_env_def)
qed

text \<open>
  A tampered transaction is rejected as soon as its unsigned bytes differ, unless the
  signature also verifies for the other message.
\<close>

lemma verify_transaction_message:
  assumes "verify_transaction E tx pk = Inr True"
  shows "\<exists>m. unsigned_transaction_bytes E tx = Inr m \<and> verifying_verify E pk m (tx_signature tx)
    \<and> length (tx_signature tx) = 64"
  using assms by (auto simp: verify_transaction_def result_simps)

end
