(* ===== verification/Validation.thy ===== *)
theory Validation
  imports Crypto
begin

text \<open>
  \<open>src/src/blockchain/validation.rs\<close>: the checks applied to a block and to a
  transaction, each error of the two enums being a value. \<open>validate_block\<close> computes the
  Merkle root, whose serialisation may panic, so its result is wrapped in \<open>panics\<close>.
\<close>

definition MAX_TRANSACTION_SIZE_BYTES :: nat where
  "MAX_TRANSACTION_SIZE_BYTES = 1048576"

definition MAX_BLOCK_SIZE_BYTES :: nat where
  "MAX_BLOCK_SIZE_BYTES = 10485760"

datatype BlockValidationError =
    BlockTooLarge (blk_size: nat) (blk_limit: nat)
  | InvalidPreviousHash
  | InvalidMerkleRoot
  | InvalidValidatorKeyLength
  | InvalidValidatorSignatureLength
  | InvalidValidatorSignature
  | BlockSerialization string

datatype TransactionValidationError =
    NonceNotStrictlyGreater (last_nonce: u64) (received_nonce: u64)
  | AmountMustBePositive
  | InvalidFee (fee_expected: u64) (fee_received: u64)
  | AmountOverflow
  | InsufficientBalance (held_balance: u64) (required_balance: u64)
  | TransactionTooLarge (tx_size: nat) (tx_limit: nat)
  | TransactionSerialization string

section \<open>Blocks\<close>

definition unsigned_block_header_bytes ::
  "'z env_scheme \<Rightarrow> BlockHeader \<Rightarrow> (bytes, BlockValidationError) result" where
  "unsigned_block_header_bytes E header =
     map_err BlockSerialization (serialize (bc_header E) (header\<lparr>h_signature := []\<rparr>))"

definition validate_block_size :: "'z env_scheme \<Rightarrow> Block \<Rightarrow> (unit, BlockValidationError) result" where
  "validate_block_size E block =
     and_then (map_err BlockSerialization (serialize (bc_block E) block)) (\<lambda>encoded.
       if MAX_BLOCK_SIZE_BYTES \<le> length encoded
       then Inl (BlockTooLarge (length encoded) MAX_BLOCK_SIZE_BYTES)
       else Inr ())"

text \<open>The checks after the Merkle root comparison: key, signature length, signature.\<close>

definition validate_block_signature ::
  "'z env_scheme \<Rightarrow> BlockHeader \<Rightarrow> (unit, BlockValidationError) result" where
  "validate_block_signature E header =
     and_then (try_into_array 32 InvalidValidatorKeyLength (h_validator header)) (\<lambda>validator_bytes.
     if \<not> verifying_key_ok E validator_bytes then Inl InvalidValidatorKeyLength else
     and_then (try_into_array 64 InvalidValidatorSignatureLength (h_signature header)) (\<lambda>signature.
     and_then (unsigned_block_header_bytes E header) (\<lambda>message.
       if verifying_verify E validator_bytes message signature then Inr ()
       else Inl InvalidValidatorSignature)))"

definition validate_block ::
  "'z env_scheme \<Rightarrow> Block \<Rightarrow> bytes \<Rightarrow> (unit, BlockValidationError) result panics" where
  "validate_block E block expected_previous_hash =
     (case validate_block_size E block of
        Inl e \<Rightarrow> Inr (Inl e)
      | Inr _ \<Rightarrow>
          if h_previous_hash (b_header block) \<noteq> expected_previous_hash
          then Inr (Inl InvalidPreviousHash)
          else and_then (calculate_merkle_root E (b_transactions block)) (\<lambda>expected_merkle_root.
            if h_merkle_root (b_header block) \<noteq> expected_merkle_root
            then Inr (Inl InvalidMerkleRoot)
            else Inr (validate_block_signature E (b_header block))))"

lemma validate_block_size_Inr:
  "validate_block_size E block = Inr () \<longleftrightarrow>
   (\<exists>encoded. serialize (bc_block E) block = Inr encoded \<and> length encoded < MAX_BLOCK_SIZE_BYTES)"
  by (auto simp: validate_block_size_def result_simps)

lemma validate_block_signature_Inr:
  "validate_block_signature E header = Inr () \<longleftrightarrow>
   length (h_validator header) = 32 \<and> verifying_key_ok E (h_validator header) \<and>
   length (h_signature header) = 64 \<and>
   (\<exists>message. serialize (bc_header E) (header\<lparr>h_signature := []\<rparr>) = Inr message \<and>
      verifying_verify E (h_validator header) message (h_signature header))"
  by (auto simp: validate_block_signature_def unsigned_block_header_bytes_def result_simps)

lemma validate_block_Inr:
  "validate_block E block prev = Inr (Inr ()) \<longleftrightarrow>
   validate_block_size E block = Inr () \<and> h_previous_hash (b_header block) = prev \<and>
   calculate_merkle_root E (b_transactions block) = Inr (h_merkle_root (b_header block)) \<and>
   validate_block_signature E (b_header block) = Inr ()"
  by (auto simp: validate_block_def result_simps split: sum.splits if_splits)

section \<open>Chains of accepted blocks\<close>

text \<open>
  A list of blocks of which each is accepted by \<open>validate_block\<close> on top of the hash of the one
  before it, from \<open>prev\<close> on; \<open>tip\<close> is the hash of the last one. This states what the check of
  the previous hash is for; the program has no loop that validates a whole chain.
\<close>

fun accepted_chain :: "'z env_scheme \<Rightarrow> bytes \<Rightarrow> Block list \<Rightarrow> bytes \<Rightarrow> bool" where
  "accepted_chain E prev [] tip \<longleftrightarrow> tip = prev"
| "accepted_chain E prev (b # bs) tip \<longleftrightarrow> validate_block E b prev = Inr (Inr ()) \<and>
     (case hash_block_header E (b_header b) of Inl _ \<Rightarrow> False | Inr h \<Rightarrow> accepted_chain E h bs tip)"

lemma accepted_chain_snoc:
  "accepted_chain E prev (bs @ [b]) tip \<longleftrightarrow>
     (\<exists>t. accepted_chain E prev bs t \<and> validate_block E b t = Inr (Inr ()) \<and> hash_block_header E (b_header b) = Inr tip)"
  by (induction bs arbitrary: prev) (auto split: sum.splits)

text \<open>The byte strings that are hashed for the headers and the Merkle roots of blocks.\<close>

definition block_preimages :: "'z env_scheme \<Rightarrow> Block \<Rightarrow> bytes set" where
  "block_preimages E b = (case serialize (bc_header E) (b_header b) of Inl _ \<Rightarrow> {} | Inr x \<Rightarrow> {x}) \<union>
     merkle_preimages E (b_transactions b)"

abbreviation chain_preimages :: "'z env_scheme \<Rightarrow> Block list \<Rightarrow> bytes set" where
  "chain_preimages E bs \<equiv> (\<Union>b \<in> set bs. block_preimages E b)"

lemma equal_header_hashes:
  assumes "hash_block_header E h = Inr x" and "hash_block_header E h' = Inr x"
    and "serialize (bc_header E) h = Inr y" and "serialize (bc_header E) h' = Inr y'"
    and "inj_on (sha256_digest E) P" and "y \<in> P" and "y' \<in> P"
    and "roundtrips (bc_header E) h" and "roundtrips (bc_header E) h'"
  shows "h = h'"
proof -
  have "sha256_digest E y = sha256_digest E y'" using assms(1-4) by (simp add: hash_block_header_def sha256_def)
  with assms(5-7) have "y = y'" by (auto dest: inj_onD)
  with assms(3,4,8,9) show ?thesis by (intro roundtrips_inj [of "bc_header E"]) simp_all
qed

lemma chain_headers_determined:
  assumes "inj_on (sha256_digest E) P"
  shows "length bs = length bs' \<Longrightarrow> accepted_chain E prev bs tip \<Longrightarrow> accepted_chain E prev bs' tip \<Longrightarrow>
    chain_preimages E bs \<subseteq> P \<Longrightarrow> chain_preimages E bs' \<subseteq> P \<Longrightarrow>
    \<forall>b \<in> set bs \<union> set bs'. roundtrips (bc_header E) (b_header b) \<Longrightarrow> map b_header bs = map b_header bs'"
proof (induction bs arbitrary: bs' tip rule: rev_induct)
  case (snoc b bs)
  then obtain cs c where cs: "bs' = cs @ [c]" "length bs = length cs"
    by (cases bs' rule: rev_cases) auto
  from snoc.prems(2,3) cs(1) obtain t t' where
    t: "accepted_chain E prev bs t" "validate_block E b t = Inr (Inr ())" "hash_block_header E (b_header b) = Inr tip"
    and t': "accepted_chain E prev cs t'" "validate_block E c t' = Inr (Inr ())" "hash_block_header E (b_header c) = Inr tip"
    by (auto simp: accepted_chain_snoc)
  obtain y y' where y: "serialize (bc_header E) (b_header b) = Inr y" "serialize (bc_header E) (b_header c) = Inr y'"
    using snoc.prems(6) cs(1) by (auto elim!: roundtripsE)
  then have "y \<in> P" "y' \<in> P" using snoc.prems(4,5) cs(1) by (auto simp: block_preimages_def)
  with y have same: "b_header b = b_header c"
    using equal_header_hashes [OF t(3) t'(3) y assms] snoc.prems(6) cs(1) by simp
  moreover have "t = t'" using t(2) t'(2) same by (simp add: validate_block_Inr)
  with snoc.IH [OF cs(2) t(1)] t'(1) snoc.prems(4-6) cs(1) have "map b_header bs = map b_header cs" by simp
  ultimately show ?case using cs(1) by simp
qed simp

lemma accepted_chain_roots:
  "accepted_chain E prev bs tip \<Longrightarrow> b \<in> set bs \<Longrightarrow> calculate_merkle_root E (b_transactions b) = Inr (h_merkle_root (b_header b))"
  by (induction bs arbitrary: prev) (auto simp: validate_block_Inr split: sum.splits)

text \<open>
  C7. Acceptance ties a block to everything before it: when two chains of equally many accepted
  blocks start from the same hash and end in the same hash, they agree on every header, and
  on the transactions of every block that has equally many in both, provided headers and
  transactions survive serialisation and no two of the strings hashed for the two chains collide.
  (Receipts are not part of the header and not covered.)
\<close>

theorem accepted_chain_binding:
  assumes "sha256_spec E" and "length bs = length bs'"
    and "accepted_chain E prev bs tip" and "accepted_chain E prev bs' tip"
    and "inj_on (sha256_digest E) (chain_preimages E bs \<union> chain_preimages E bs')"
    and "\<forall>b \<in> set bs \<union> set bs'. roundtrips (bc_header E) (b_header b) \<and> (\<forall>t \<in> set (b_transactions b). roundtrips (bc_transaction E) t)"
  shows "map b_header bs = map b_header bs' \<and>
    (\<forall>i < length bs. length (b_transactions (bs ! i)) = length (b_transactions (bs' ! i)) \<longrightarrow>
       b_transactions (bs ! i) = b_transactions (bs' ! i))"
proof (intro conjI allI impI)
  show headers: "map b_header bs = map b_header bs'"
    using chain_headers_determined [OF assms(5,2,3,4)] assms(6) by blast
  fix i assume i: "i < length bs" and len: "length (b_transactions (bs ! i)) = length (b_transactions (bs' ! i))"
  have m: "bs ! i \<in> set bs" "bs' ! i \<in> set bs'" using i assms(2) by simp_all
  have "b_header (bs ! i) = b_header (bs' ! i)" using headers i assms(2) by (metis nth_map)
  with accepted_chain_roots [OF assms(3) m(1)] accepted_chain_roots [OF assms(4) m(2)]
  have roots: "calculate_merkle_root E (b_transactions (bs ! i)) = Inr (h_merkle_root (b_header (bs ! i)))"
    "calculate_merkle_root E (b_transactions (bs' ! i)) = Inr (h_merkle_root (b_header (bs ! i)))" by simp_all
  show "b_transactions (bs ! i) = b_transactions (bs' ! i)"
  proof (rule equal_merkle_roots [OF assms(1) len roots])
    show "inj_on (sha256_digest E) (merkle_preimages E (b_transactions (bs ! i)) \<union> merkle_preimages E (b_transactions (bs' ! i)))"
      by (rule inj_on_subset [OF assms(5)]) (use m in \<open>auto simp: block_preimages_def\<close>)
  qed (use m assms(6) in blast)
qed

definition link_block :: "u64 \<Rightarrow> Block" where
  "link_block n = \<lparr>b_header = \<lparr>h_version = 1, h_previous_hash = [], h_merkle_root = spread_bytes (spread (to_be_bytes 8 n)),
       h_timestamp = 0, h_height = n, h_validator = replicate 32 7, h_signature = replicate 32 7 @ replicate 32 8\<rparr>,
     b_transactions = [sample_tx n], b_receipts = []\<rparr>"

definition link_env :: env where
  "link_env = spread_env\<lparr>bc_header := field_codec h_height (\<lambda>n. b_header (link_block n))\<rparr>"

lemma link_fields:
  "sha256_digest link_env = spread_bytes \<circ> spread" "serialize (bc_transaction link_env) = (\<lambda>t. Inr (to_be_bytes 8 (tx_nonce t)))"
  "serialize (bc_header link_env) = (\<lambda>h. Inr (to_be_bytes 8 (h_height h)))"
  "serialize (bc_block link_env) = (\<lambda>b. Inr (to_be_bytes 8 (h_height (b_header b))))"
  "verifying_key_ok link_env = (\<lambda>_. True)" "verifying_verify link_env = (\<lambda>pk m s. s = pk @ sample_digest m)"
  by (simp_all add: link_env_def spread_env_def sample_env_def field_codec_def o_def)

lemma link_accepted: "accepted_chain link_env [] [link_block n] (spread_bytes (spread (to_be_bytes 8 n)))"
  by (simp add: validate_block_Inr validate_block_size_Inr validate_block_signature_Inr calculate_merkle_root_def hash_transaction_def
    merkle_loop.simps hash_block_header_def sha256_def link_fields link_block_def sample_tx_def sample_digest_def MAX_BLOCK_SIZE_BYTES_def)

lemma link_roundtrips: "roundtrips (bc_header link_env) (b_header (link_block n))" "roundtrips (bc_transaction link_env) (sample_tx n)"
  by (simp_all add: roundtrips_def link_env_def spread_env_def sample_env_def field_codec_def from_be_to_be)
    (simp_all add: link_block_def sample_tx_def from_be_to_be)

lemma link_preimages: "block_preimages link_env (link_block n) = {to_be_bytes 8 n}"
  by (simp add: block_preimages_def merkle_preimages_def combined_def link_fields link_block_def sample_tx_def)

text \<open>Two different blocks on the same hash: both are accepted, and their chains end differently.\<close>

theorem accepted_chain_binding_witness:
  "accepted_chain link_env [] [link_block 1] (spread_bytes (spread (to_be_bytes 8 (1 :: u64)))) \<and>
   accepted_chain link_env [] [link_block 2] (spread_bytes (spread (to_be_bytes 8 (2 :: u64)))) \<and>
   \<not> accepted_chain link_env [] [link_block 2] (spread_bytes (spread (to_be_bytes 8 (1 :: u64))))"
proof -
  have sha: "sha256_spec link_env" using spread_env_spec(1) by (simp add: sha256_spec_def link_env_def)
  have "spread (to_be_bytes 8 (1 :: u64)) \<noteq> spread (to_be_bytes 8 (2 :: u64))"
    by (simp add: spread_def to_be_bytes_def upt_rec)
  then have inj: "inj_on (sha256_digest link_env) (chain_preimages link_env [link_block 1] \<union> chain_preimages link_env [link_block 2])"
    by (auto simp: link_preimages link_fields spread_bytes_inj)
  have txs: "b_transactions (link_block n) = [sample_tx n]" for n by (simp add: link_block_def)
  have "b_header (link_block 1) \<noteq> b_header (link_block 2)" by (simp add: link_block_def)
  with accepted_chain_binding [OF sha _ link_accepted _ inj] link_roundtrips txs
  have "\<not> accepted_chain link_env [] [link_block 2] (spread_bytes (spread (to_be_bytes 8 (1 :: u64))))" by auto
  with link_accepted show ?thesis by blast
qed

text \<open>
  Block malleability: when a block with an odd number (at least three) of transactions
  is valid, the block with its last transaction repeated is valid too, under the same header
  and signature, as long as it stays below the size limit.
\<close>

theorem validate_block_duplicate_last:
  assumes "validate_block E block prev = Inr (Inr ())"
    and "odd (length (b_transactions block))" and "1 < length (b_transactions block)"
    and "validate_block_size E
      (block\<lparr>b_transactions := b_transactions block @ [last (b_transactions block)]\<rparr>) = Inr ()"
  shows "validate_block E
    (block\<lparr>b_transactions := b_transactions block @ [last (b_transactions block)]\<rparr>) prev = Inr (Inr ())"
proof -
  have "b_transactions block \<noteq> []" using assms(3) by auto
  then have "calculate_merkle_root E (b_transactions block @ [last (b_transactions block)]) =
      calculate_merkle_root E (b_transactions block)"
    using assms(2,3) by (intro merkle_root_odd_repeat)
  with assms(1,4) show ?thesis by (simp add: validate_block_Inr)
qed

definition sample_block :: Block where
  "sample_block = \<lparr>
     b_header = (sample_header (replicate 32 7) (replicate 32 64))
       \<lparr>h_signature := replicate 32 7 @ replicate 32 8\<rparr>,
     b_transactions = [sample_tx 1, sample_tx 2, sample_tx 3], b_receipts = []\<rparr>"

lemma sample_block_valid: "validate_block sample_env sample_block (replicate 32 7) = Inr (Inr ())"
  by (simp add: validate_block_def validate_block_size_def validate_block_signature_def
      unsigned_block_header_bytes_def try_into_array_def calculate_merkle_root_def
      hash_transaction_def merkle_loop.simps merkle_next_level_def sample_block_def sample_env_def
      sample_header_def sample_tx_def field_codec_def sample_digest_def sha256_def
      MAX_BLOCK_SIZE_BYTES_def)

theorem validate_block_duplicate_last_witness:
  "validate_block sample_env sample_block (replicate 32 7) = Inr (Inr ()) \<and>
   validate_block sample_env
     (sample_block\<lparr>b_transactions := [sample_tx 1, sample_tx 2, sample_tx 3, sample_tx 3]\<rparr>)
     (replicate 32 7) = Inr (Inr ())"
proof -
  have txs: "b_transactions sample_block = [sample_tx 1, sample_tx 2, sample_tx 3]"
    by (simp add: sample_block_def)
  have "validate_block_size sample_env
      (sample_block\<lparr>b_transactions := [sample_tx 1, sample_tx 2, sample_tx 3, sample_tx 3]\<rparr>) = Inr ()"
    by (simp add: validate_block_size_def sample_env_def field_codec_def sample_block_def
        MAX_BLOCK_SIZE_BYTES_def)
  with validate_block_duplicate_last [OF sample_block_valid] sample_block_valid show ?thesis
    by (simp add: txs)
qed

section \<open>Transactions\<close>

definition validate_transaction_nonce ::
  "Transaction \<Rightarrow> Account option \<Rightarrow> (unit, TransactionValidationError) result" where
  "validate_transaction_nonce transaction sender_account =
     (case sender_account of
        Some account \<Rightarrow>
          if tx_nonce transaction \<le> a_nonce account
          then Inl (NonceNotStrictlyGreater (a_nonce account) (tx_nonce transaction))
          else Inr ()
      | None \<Rightarrow> Inr ())"

definition validate_transaction_balance ::
  "Transaction \<Rightarrow> Account option \<Rightarrow> (unit, TransactionValidationError) result" where
  "validate_transaction_balance transaction sender_account =
     (if tx_amount transaction = 0 then Inl AmountMustBePositive
      else if tx_fee transaction \<noteq> FIXED_TRANSACTION_FEE
      then Inl (InvalidFee FIXED_TRANSACTION_FEE (tx_fee transaction))
      else and_then (ok_or AmountOverflow (checked_add (tx_amount transaction) (tx_fee transaction)))
        (\<lambda>required.
          let balance = (case sender_account of Some account \<Rightarrow> a_balance account | None \<Rightarrow> 0)
          in if balance < required then Inl (InsufficientBalance balance required) else Inr ()))"

definition validate_transaction_size ::
  "'z env_scheme \<Rightarrow> Transaction \<Rightarrow> (unit, TransactionValidationError) result" where
  "validate_transaction_size E transaction =
     and_then (map_err TransactionSerialization (serialize (bc_transaction E) transaction)) (\<lambda>encoded.
       if MAX_TRANSACTION_SIZE_BYTES \<le> length encoded
       then Inl (TransactionTooLarge (length encoded) MAX_TRANSACTION_SIZE_BYTES)
       else Inr ())"

definition account_balance :: "Account option \<Rightarrow> u64" where
  "account_balance acc = (case acc of Some account \<Rightarrow> a_balance account | None \<Rightarrow> 0)"

text \<open>
  The balance check accepts exactly the transactions with a positive amount and the
  fixed fee whose amount plus fee, as natural numbers, is covered by the sender's balance; a
  missing account has balance zero and the sum never wraps.
\<close>

theorem validate_transaction_balance_iff:
  "validate_transaction_balance tx acc = Inr () \<longleftrightarrow>
   0 < unat (tx_amount tx) \<and> tx_fee tx = 1 \<and>
   unat (tx_amount tx) + 1 \<le> unat (account_balance acc)"
proof -
  have bound: "unat (account_balance acc) < 2 ^ 64"
    using unsigned_less [of "account_balance acc"] by simp
  have overflow: "checked_add (tx_amount tx) 1 = None \<longleftrightarrow> 2 ^ 64 \<le> unat (tx_amount tx) + 1"
    by (simp add: checked_add_None_iff)
  show ?thesis
  proof (cases "checked_add (tx_amount tx) 1")
    case None
    with bound overflow show ?thesis
      by (auto simp: validate_transaction_balance_def FIXED_TRANSACTION_FEE_def)
  next
    case (Some required)
    then have "unat required = unat (tx_amount tx) + 1"
      by (simp add: checked_add_Some_iff)
    with Some show ?thesis
      by (auto simp: validate_transaction_balance_def FIXED_TRANSACTION_FEE_def
          account_balance_def word_less_nat_alt unat_gt_0 Let_def split: if_splits)
  qed
qed

text \<open>A nonce is accepted for a new account or when it exceeds the stored one.\<close>

lemma validate_transaction_nonce_Inr:
  "validate_transaction_nonce tx acc = Inr () \<longleftrightarrow>
   (case acc of None \<Rightarrow> True | Some a \<Rightarrow> unat (a_nonce a) < unat (tx_nonce tx))"
  by (auto simp: validate_transaction_nonce_def word_less_nat_alt word_le_nat_alt split: option.splits)

lemma validate_transaction_size_Inr:
  "validate_transaction_size E tx = Inr () \<longleftrightarrow>
   (\<exists>encoded. serialize (bc_transaction E) tx = Inr encoded \<and> length encoded < MAX_TRANSACTION_SIZE_BYTES)"
  by (auto simp: validate_transaction_size_def result_simps)

end
