(* ===== verification/Mempool.thy ===== *)
theory Mempool
  imports Validation
begin

text \<open>
  The partitioned mempool of \<open>src/src/consensus/mod.rs\<close> (lines 19 to 262). Each partition
  is a task that owns a \<open>Vec<Transaction>\<close> and answers the commands of its channel in
  order. \<open>partition_step\<close> is one iteration of the task's loop; the channels themselves are
  tokio's and not modelled. The operations of \<open>Mempool\<close> send a command and wait for the answer:
  they apply \<open>partition_step\<close> to the partition's state. \<open>take_for_block\<close> is the draw that nothing
  interrupts; \<open>take_for_block_concurrent\<close> is the same loop with submissions through other clones
  of the mempool between its commands.

  The interface that block production relies on is the locale \<open>tx_pool\<close>; the mempool is
  its interpretation \<open>mempool_pool\<close>.
\<close>

section \<open>One partition task\<close>

definition MAX_TRANSACTIONS_PER_ADDRESS_PER_BLOCK :: nat where
  "MAX_TRANSACTIONS_PER_ADDRESS_PER_BLOCK = 100"

datatype MempoolCommand =
    AddTransaction Transaction
  | TakeForBlock nat
  | LenCommand
  | PendingTransactions

datatype MempoolResponse =
    NoResponse
  | SelectedResponse "Transaction list"
  | LenResponse nat
  | PendingResponse "Transaction list"

text \<open>\<open>entry(key).or_insert(0)\<close>: the stored count, 0 for a new key.\<close>

definition or_zero :: "(bytes \<rightharpoonup> nat) \<Rightarrow> bytes \<Rightarrow> nat" where
  "or_zero m key = (case m key of Some n \<Rightarrow> n | None \<Rightarrow> 0)"

lemma or_zero_upd [simp]: "or_zero (m(k \<mapsto> n)) j = (if j = k then n else or_zero m j)"
  by (simp add: or_zero_def)

lemma or_zero_empty [simp]: "or_zero Map.empty j = 0"
  by (simp add: or_zero_def)

text \<open>
  The loop of \<open>TakeForBlock\<close>: \<open>selected\<close>, \<open>remaining_transactions\<close> and
  \<open>selected_per_sender\<close> are its accumulators.
\<close>

fun take_loop :: "nat \<Rightarrow> (bytes \<rightharpoonup> nat) \<Rightarrow> Transaction list \<Rightarrow> Transaction list \<Rightarrow> Transaction list
    \<Rightarrow> Transaction list \<times> Transaction list" where
  "take_loop max_transactions selected_per_sender selected remaining [] = (selected, remaining)"
| "take_loop max_transactions selected_per_sender selected remaining (transaction # rest) =
     (if length selected = max_transactions
      then take_loop max_transactions selected_per_sender selected (remaining @ [transaction]) rest
      else
        let sender_count = or_zero selected_per_sender (tx_from transaction)
        in if sender_count < MAX_TRANSACTIONS_PER_ADDRESS_PER_BLOCK
           then take_loop max_transactions
             (selected_per_sender(tx_from transaction \<mapsto> sender_count + 1))
             (selected @ [transaction]) remaining rest
           else take_loop max_transactions
             (selected_per_sender(tx_from transaction \<mapsto> sender_count))
             selected (remaining @ [transaction]) rest)"

fun partition_step :: "Transaction list \<Rightarrow> MempoolCommand \<Rightarrow> Transaction list \<times> MempoolResponse" where
  "partition_step transactions (AddTransaction transaction) =
     (transactions @ [transaction], NoResponse)"
| "partition_step transactions (TakeForBlock max_transactions) =
     (let (selected, remaining) = take_loop max_transactions Map.empty [] [] transactions
      in (remaining, SelectedResponse selected))"
| "partition_step transactions LenCommand = (transactions, LenResponse (length transactions))"
| "partition_step transactions PendingTransactions = (transactions, PendingResponse transactions)"

section \<open>The mempool\<close>

record Mempool =
  partition_count :: nat
  partitions :: "Transaction list list"

definition with_partition_count :: "nat \<Rightarrow> Mempool" where
  "with_partition_count n =
     (let n' = max n 1 in \<lparr>partition_count = n', partitions = replicate n' []\<rparr>)"

text \<open>\<open>available_parallelism\<close> is an argument; an error counts as 1.\<close>

definition Mempool_default :: "nat option \<Rightarrow> Mempool" where
  "Mempool_default parallelism =
     with_partition_count (case parallelism of Some n \<Rightarrow> n | None \<Rightarrow> 1)"

definition address_hash :: "bytes \<Rightarrow> u64" where
  "address_hash address = foldl (\<lambda>acc byte. acc * 31 + ucast byte) 0 address"

definition partition_for_address :: "Mempool \<Rightarrow> bytes \<Rightarrow> nat" where
  "partition_for_address m address =
     (if address = [] then 0 else unat (address_hash address) mod partition_count m)"

definition add_transaction :: "Mempool \<Rightarrow> Transaction \<Rightarrow> Mempool" where
  "add_transaction m transaction =
     (let p = partition_for_address m (tx_from transaction)
      in m\<lparr>partitions := (partitions m)
             [p := fst (partition_step (partitions m ! p) (AddTransaction transaction))]\<rparr>)"

fun len_loop :: "nat \<Rightarrow> Transaction list list \<Rightarrow> nat" where
  "len_loop tot [] = tot"
| "len_loop tot (p # ps) =
     (case snd (partition_step p LenCommand) of
        LenResponse n \<Rightarrow> len_loop (tot + n) ps
      | _ \<Rightarrow> len_loop tot ps)"

definition mempool_len :: "Mempool \<Rightarrow> nat" where
  "mempool_len m = len_loop 0 (partitions m)"

definition mempool_is_empty :: "Mempool \<Rightarrow> bool" where
  "mempool_is_empty m \<longleftrightarrow> mempool_len m = 0"

fun pending_loop :: "Transaction list \<Rightarrow> Transaction list list \<Rightarrow> Transaction list" where
  "pending_loop pending [] = pending"
| "pending_loop pending (p # ps) =
     (case snd (partition_step p PendingTransactions) of
        PendingResponse ts \<Rightarrow> pending_loop (pending @ ts) ps
      | _ \<Rightarrow> pending_loop pending ps)"

definition pending_transactions :: "Mempool \<Rightarrow> Transaction list" where
  "pending_transactions m = pending_loop [] (partitions m)"

fun take_partitions :: "nat \<Rightarrow> Transaction list \<Rightarrow> Transaction list list
    \<Rightarrow> Transaction list \<times> Transaction list list" where
  "take_partitions max_transactions selected [] = (selected, [])"
| "take_partitions max_transactions selected (p # ps) =
     (if length selected = max_transactions then (selected, p # ps)
      else case partition_step p (TakeForBlock (max_transactions - length selected)) of
             (p', SelectedResponse xs) \<Rightarrow>
               (let (selected', ps') = take_partitions max_transactions (selected @ xs) ps
                in (selected', p' # ps'))
           | (p', _) \<Rightarrow> (selected, p' # ps))"

definition take_for_block :: "Mempool \<Rightarrow> nat \<Rightarrow> Transaction list \<times> Mempool" where
  "take_for_block m max_transactions =
     (if max_transactions = 0 \<or> mempool_is_empty m then ([], m)
      else let (selected, ps) = take_partitions max_transactions [] (partitions m)
           in (selected, m\<lparr>partitions := ps\<rparr>))"

section \<open>The selection loop of one partition\<close>

definition from_sender :: "bytes \<Rightarrow> Transaction list \<Rightarrow> Transaction list" where
  "from_sender s ts = filter (\<lambda>t. tx_from t = s) ts"

lemma from_sender_append [simp]: "from_sender s (xs @ ys) = from_sender s xs @ from_sender s ys"
  by (simp add: from_sender_def)

lemma from_sender_simps [simp]:
  "from_sender s [] = []"
  "from_sender s (t # ts) = (if tx_from t = s then t # from_sender s ts else from_sender s ts)"
  by (simp_all add: from_sender_def)

lemma take_loop_mset:
  "take_loop n c sel rem ts = (sel', rem') \<Longrightarrow> mset sel' + mset rem' = mset sel + mset rem + mset ts"
  by (induction ts arbitrary: c sel rem) (auto simp: Let_def split: if_splits)

lemma take_loop_length:
  "take_loop n c sel rem ts = (sel', rem') \<Longrightarrow> length sel \<le> n \<Longrightarrow> length sel' \<le> n"
  by (induction ts arbitrary: c sel rem) (auto simp: Let_def split: if_splits)

text \<open>\<open>selected_per_sender\<close> counts the selected transactions of each sender.\<close>

definition counts_ok :: "(bytes \<rightharpoonup> nat) \<Rightarrow> Transaction list \<Rightarrow> bool" where
  "counts_ok c sel \<longleftrightarrow>
     (\<forall>s. or_zero c s = length (from_sender s sel) \<and>
          or_zero c s \<le> MAX_TRANSACTIONS_PER_ADDRESS_PER_BLOCK)"

lemma counts_ok_le: "counts_ok c sel \<Longrightarrow> or_zero c s \<le> MAX_TRANSACTIONS_PER_ADDRESS_PER_BLOCK"
  unfolding counts_ok_def by blast

lemma counts_ok_empty [simp]: "counts_ok Map.empty []"
  by (simp add: counts_ok_def)

lemma counts_ok_step:
  assumes "counts_ok c sel" and "or_zero c (tx_from t) < MAX_TRANSACTIONS_PER_ADDRESS_PER_BLOCK"
  shows "counts_ok (c(tx_from t \<mapsto> Suc (or_zero c (tx_from t)))) (sel @ [t])"
  using assms unfolding counts_ok_def by (simp, metis)

lemma counts_ok_skip:
  assumes "counts_ok c sel"
  shows "counts_ok (c(tx_from t \<mapsto> or_zero c (tx_from t))) sel"
  using assms unfolding counts_ok_def by (simp, metis)

lemma take_loop_sender_cap:
  "take_loop n c sel rem ts = (sel', rem') \<Longrightarrow> counts_ok c sel \<Longrightarrow>
   length (from_sender s sel') \<le> MAX_TRANSACTIONS_PER_ADDRESS_PER_BLOCK"
proof (induction ts arbitrary: c sel rem)
  case Nil
  then show ?case by (metis counts_ok_def take_loop.simps(1) prod.inject)
next
  case (Cons t ts)
  then show ?case
    using Cons.IH counts_ok_step [of c sel t] counts_ok_skip [of c sel t]
    by (simp add: Let_def split: if_splits)
qed

text \<open>
  A transaction stays behind only if the block is full or its sender is at the cap; from then
  on every later transaction of that sender stays behind. So each sender's selection is a
  prefix of its queue.
\<close>

lemma take_loop_fifo:
  "take_loop n c sel rem ts = (sel', rem') \<Longrightarrow> counts_ok c sel \<Longrightarrow>
   from_sender s rem = [] \<or> length sel = n \<or>
     or_zero c s = MAX_TRANSACTIONS_PER_ADDRESS_PER_BLOCK \<Longrightarrow>
   from_sender s sel' @ from_sender s rem' = from_sender s sel @ from_sender s rem @ from_sender s ts"
proof (induction ts arbitrary: c sel rem)
  case Nil
  then show ?case by auto
next
  case (Cons t ts)
  let ?k = "or_zero c (tx_from t)"
  consider (full) "length sel = n"
    | (take) "length sel \<noteq> n" "?k < MAX_TRANSACTIONS_PER_ADDRESS_PER_BLOCK"
    | (cap) "length sel \<noteq> n" "\<not> ?k < MAX_TRANSACTIONS_PER_ADDRESS_PER_BLOCK" by blast
  then show ?case
  proof cases
    case full
    with Cons.IH [of c sel "rem @ [t]"] Cons.prems show ?thesis by simp
  next
    case take
    have run: "take_loop n (c(tx_from t \<mapsto> Suc ?k)) (sel @ [t]) rem ts = (sel', rem')"
      using Cons.prems(1) take by (simp add: Let_def)
    have empty: "from_sender s rem = []" if "tx_from t = s \<or> or_zero c s \<noteq> MAX_TRANSACTIONS_PER_ADDRESS_PER_BLOCK"
      using Cons.prems(3) take that by auto
    then have "from_sender s rem = [] \<or> length (sel @ [t]) = n \<or>
        or_zero (c(tx_from t \<mapsto> Suc ?k)) s = MAX_TRANSACTIONS_PER_ADDRESS_PER_BLOCK" by auto
    from Cons.IH [OF run counts_ok_step [OF Cons.prems(2) take(2)] this] empty show ?thesis
      by auto
  next
    case cap
    have run: "take_loop n (c(tx_from t \<mapsto> ?k)) sel (rem @ [t]) ts = (sel', rem')"
      using Cons.prems(1) cap by (simp add: Let_def)
    have "?k \<le> MAX_TRANSACTIONS_PER_ADDRESS_PER_BLOCK"
      using Cons.prems(2) by (rule counts_ok_le)
    with cap(2) have "?k = MAX_TRANSACTIONS_PER_ADDRESS_PER_BLOCK" by simp
    with Cons.prems(3) have "from_sender s (rem @ [t]) = [] \<or> length sel = n \<or>
        or_zero (c(tx_from t \<mapsto> ?k)) s = MAX_TRANSACTIONS_PER_ADDRESS_PER_BLOCK" by auto
    from Cons.IH [OF run counts_ok_skip [OF Cons.prems(2)] this] show ?thesis by auto
  qed
qed

section \<open>The whole mempool\<close>

text \<open>
  The representation invariant: at least one partition, and every pending transaction in the
  partition of its sender.
\<close>

definition mempool_inv :: "Mempool \<Rightarrow> bool" where
  "mempool_inv m \<longleftrightarrow>
     0 < partition_count m \<and> length (partitions m) = partition_count m \<and>
     (\<forall>i < length (partitions m). \<forall>t \<in> set (partitions m ! i).
        partition_for_address m (tx_from t) = i)"

lemma len_loop_eq: "len_loop tot ps = tot + length (concat ps)"
  by (induction ps arbitrary: tot) auto

lemma pending_loop_eq: "pending_loop acc ps = acc @ concat ps"
  by (induction ps arbitrary: acc) auto

lemma mempool_len_eq: "mempool_len m = length (concat (partitions m))"
  by (simp add: mempool_len_def len_loop_eq)

lemma pending_transactions_eq: "pending_transactions m = concat (partitions m)"
  by (simp add: pending_transactions_def pending_loop_eq)

lemma mempool_is_empty_iff: "mempool_is_empty m \<longleftrightarrow> pending_transactions m = []"
  by (simp add: mempool_is_empty_def mempool_len_eq pending_transactions_eq)

lemma partition_for_address_bound:
  "0 < partition_count m \<Longrightarrow> partition_for_address m a < partition_count m"
  by (simp add: partition_for_address_def)

lemma partition_for_address_cong [simp]:
  "partition_for_address (m\<lparr>partitions := ps\<rparr>) a = partition_for_address m a"
  by (simp add: partition_for_address_def)

lemma with_partition_count_inv: "mempool_inv (with_partition_count n)"
  by (simp add: mempool_inv_def with_partition_count_def Let_def)

lemma add_transaction_inv:
  assumes "mempool_inv m"
  shows "mempool_inv (add_transaction m t)"
  using assms partition_for_address_bound [of m "tx_from t"]
  by (auto simp: mempool_inv_def add_transaction_def Let_def nth_list_update)

text \<open>One partition's answer, as the outer loop of \<open>take_for_block\<close> receives it.\<close>

lemma take_partitions_cases:
  assumes "take_partitions n sel (p # ps) = (sel', qs)" and "length sel \<noteq> n"
  obtains xs p' ps' where "take_loop (n - length sel) Map.empty [] [] p = (xs, p')"
    and "take_partitions n (sel @ xs) ps = (sel', ps')" and "qs = p' # ps'"
  using assms by (auto split: prod.splits)

lemma take_partitions_mset:
  "take_partitions n sel ps = (sel', ps') \<Longrightarrow>
   mset sel' + mset (concat ps') = mset sel + mset (concat ps)"
proof (induction ps arbitrary: sel ps')
  case (Cons p ps)
  show ?case
  proof (cases "length sel = n")
    case False
    from Cons.prems False obtain xs p' qs where
      run: "take_loop (n - length sel) Map.empty [] [] p = (xs, p')"
        "take_partitions n (sel @ xs) ps = (sel', qs)" "ps' = p' # qs"
      by (rule take_partitions_cases)
    from Cons.IH [OF run(2)] take_loop_mset [OF run(1)] run(3) show ?thesis
      by (simp add: ac_simps)
  qed (use Cons.prems in simp)
qed simp

lemma take_partitions_length:
  "take_partitions n sel ps = (sel', ps') \<Longrightarrow> length sel \<le> n \<Longrightarrow>
   length sel' \<le> n \<and> length ps' = length ps"
proof (induction ps arbitrary: sel ps')
  case (Cons p ps)
  show ?case
  proof (cases "length sel = n")
    case False
    from Cons.prems(1) False obtain xs p' qs where
      run: "take_loop (n - length sel) Map.empty [] [] p = (xs, p')"
        "take_partitions n (sel @ xs) ps = (sel', qs)" "ps' = p' # qs"
      by (rule take_partitions_cases)
    have "length (sel @ xs) \<le> n" using take_loop_length [OF run(1)] Cons.prems(2) by simp
    from Cons.IH [OF run(2) this] run(3) show ?thesis by simp
  qed (use Cons.prems in auto)
qed simp

text \<open>At most one partition holds transactions of sender \<open>s\<close>.\<close>

fun one_home :: "bytes \<Rightarrow> Transaction list list \<Rightarrow> bool" where
  "one_home s [] = True"
| "one_home s (p # ps) =
     (if from_sender s p = [] then one_home s ps else from_sender s (concat ps) = [])"

lemma from_sender_empty: "from_sender s ts = [] \<longleftrightarrow> (\<forall>t \<in> set ts. tx_from t \<noteq> s)"
  by (auto simp: from_sender_def filter_empty_conv)

lemma indexed_one_home:
  "\<forall>i < length ps. \<forall>t \<in> set (ps ! i). f (tx_from t) = i + k \<Longrightarrow> one_home s ps"
proof (induction ps arbitrary: k)
  case (Cons p ps)
  have tail: "\<forall>i < length ps. \<forall>t \<in> set (ps ! i). f (tx_from t) = i + Suc k"
    using Cons.prems by fastforce
  have "from_sender s (concat ps) = []" if p: "from_sender s p \<noteq> []"
  proof -
    have "f s = k" using p Cons.prems by (fastforce simp: from_sender_empty)
    moreover have "f (tx_from t) \<noteq> k" if "t \<in> set (concat ps)" for t
      using that tail by (force simp: in_set_conv_nth)
    ultimately show ?thesis by (auto simp: from_sender_empty)
  qed
  with Cons.IH [OF tail] show ?case by auto
qed simp

lemma mempool_inv_one_home: "mempool_inv m \<Longrightarrow> one_home s (partitions m)"
  using indexed_one_home [of "partitions m" "partition_for_address m" 0 s]
  by (simp add: mempool_inv_def)

lemma take_partitions_absent:
  "take_partitions n sel ps = (sel', ps') \<Longrightarrow> from_sender s (concat ps) = [] \<Longrightarrow>
   from_sender s sel' = from_sender s sel \<and> from_sender s (concat ps') = []"
proof (induction ps arbitrary: sel ps')
  case (Cons p ps)
  show ?case
  proof (cases "length sel = n")
    case False
    from Cons.prems(1) False obtain xs p' qs where
      run: "take_loop (n - length sel) Map.empty [] [] p = (xs, p')"
        "take_partitions n (sel @ xs) ps = (sel', qs)" "ps' = p' # qs"
      by (rule take_partitions_cases)
    from take_loop_fifo [OF run(1), of s] Cons.prems(2)
    have "from_sender s xs = [] \<and> from_sender s p' = []" by simp
    with Cons.IH [OF run(2)] Cons.prems(2) run(3) show ?thesis by simp
  qed (use Cons.prems in auto)
qed simp

lemma take_partitions_sender:
  "take_partitions n sel ps = (sel', ps') \<Longrightarrow> from_sender s sel = [] \<Longrightarrow> one_home s ps \<Longrightarrow>
   from_sender s sel' @ from_sender s (concat ps') = from_sender s (concat ps) \<and>
   length (from_sender s sel') \<le> MAX_TRANSACTIONS_PER_ADDRESS_PER_BLOCK"
proof (induction ps arbitrary: sel ps')
  case (Cons p ps)
  show ?case
  proof (cases "length sel = n")
    case False
    from Cons.prems(1) False obtain xs p' qs where
      run: "take_loop (n - length sel) Map.empty [] [] p = (xs, p')"
        "take_partitions n (sel @ xs) ps = (sel', qs)" "ps' = p' # qs"
      by (rule take_partitions_cases)
    have fifo: "from_sender s xs @ from_sender s p' = from_sender s p"
      using take_loop_fifo [OF run(1), of s] by simp
    show ?thesis
    proof (cases "from_sender s p = []")
      case True
      with fifo have "from_sender s (sel @ xs) = []" "from_sender s p' = []"
        using Cons.prems(2) by simp_all
      with Cons.IH [OF run(2)] Cons.prems(3) True run(3) show ?thesis by simp
    next
      case False
      then have "from_sender s (concat ps) = []" using Cons.prems(3) by simp
      with take_partitions_absent [OF run(2)] fifo run(3) Cons.prems(2)
        take_loop_sender_cap [OF run(1), of s]
      show ?thesis by simp
    qed
  qed (use Cons.prems in auto)
qed simp

text \<open>The four facts of \<open>take_for_block\<close>.\<close>

lemma take_for_block_mset:
  assumes "take_for_block m n = (sel, m')"
  shows "mset sel + mset (pending_transactions m') = mset (pending_transactions m)"
  using assms take_partitions_mset [of n "[]" "partitions m"]
  by (auto simp: take_for_block_def pending_transactions_eq split: if_splits prod.splits)

lemma take_for_block_length:
  assumes "take_for_block m n = (sel, m')"
  shows "length sel \<le> n"
  using assms take_partitions_length [of n "[]" "partitions m"]
  by (auto simp: take_for_block_def split: if_splits prod.splits)

lemma take_for_block_sender:
  assumes "mempool_inv m" and "take_for_block m n = (sel, m')"
  shows "from_sender s sel @ from_sender s (pending_transactions m') = from_sender s (pending_transactions m)"
    and "length (from_sender s sel) \<le> MAX_TRANSACTIONS_PER_ADDRESS_PER_BLOCK"
  using assms(2) take_partitions_sender [of n "[]" "partitions m" sel _ s]
    mempool_inv_one_home [OF assms(1), of s]
  by (auto simp: take_for_block_def pending_transactions_eq split: if_splits prod.splits)

lemma take_partitions_subset:
  "take_partitions n sel ps = (sel', ps') \<Longrightarrow> i < length ps \<Longrightarrow> set (ps' ! i) \<subseteq> set (ps ! i)"
proof (induction ps arbitrary: sel ps' i)
  case (Cons p ps)
  show ?case
  proof (cases "length sel = n")
    case False
    from Cons.prems(1) False obtain xs p' qs where
      run: "take_loop (n - length sel) Map.empty [] [] p = (xs, p')"
        "take_partitions n (sel @ xs) ps = (sel', qs)" "ps' = p' # qs"
      by (rule take_partitions_cases)
    have "set p' \<subseteq> set p"
      using arg_cong [OF take_loop_mset [OF run(1)], of set_mset] by auto
    with Cons.IH [OF run(2)] run(3) Cons.prems(2) show ?thesis by (cases i) auto
  qed (use Cons.prems in auto)
qed simp

lemma take_for_block_inv:
  assumes "mempool_inv m" and "take_for_block m n = (sel, m')"
  shows "mempool_inv m'"
proof (cases "n = 0 \<or> mempool_is_empty m")
  case True
  with assms show ?thesis by (simp add: take_for_block_def)
next
  case False
  then obtain ps where run: "take_partitions n [] (partitions m) = (sel, ps)" "m' = m\<lparr>partitions := ps\<rparr>"
    using assms(2) by (auto simp: take_for_block_def split: prod.splits)
  have "length ps = length (partitions m)" using take_partitions_length [OF run(1)] by simp
  moreover have "t \<in> set (partitions m ! i)" if "i < length (partitions m)" "t \<in> set (ps ! i)" for i t
    using take_partitions_subset [OF run(1) that(1)] that(2) by blast
  ultimately show ?thesis using assms(1) run(2) by (simp add: mempool_inv_def)
qed

section \<open>The pool interface\<close>

text \<open>Operations that a node performs on its pool over time.\<close>

datatype pool_op = Submit Transaction | Draw nat

fun pool_run :: "('p \<Rightarrow> Transaction \<Rightarrow> 'p) \<Rightarrow> ('p \<Rightarrow> nat \<Rightarrow> Transaction list \<times> 'p)
    \<Rightarrow> 'p \<Rightarrow> pool_op list \<Rightarrow> Transaction list \<times> 'p" where
  "pool_run put draw p [] = ([], p)"
| "pool_run put draw p (Submit t # ops) = pool_run put draw (put p t) ops"
| "pool_run put draw p (Draw n # ops) =
     (let (xs, p') = draw p n; (ys, p'') = pool_run put draw p' ops in (xs @ ys, p''))"

fun submitted :: "pool_op list \<Rightarrow> Transaction list" where
  "submitted [] = []"
| "submitted (Submit t # ops) = t # submitted ops"
| "submitted (Draw n # ops) = submitted ops"

lemma from_sender_submitted_Cons:
  "from_sender s (submitted (Submit t # ops)) =
     (if tx_from t = s then t # from_sender s (submitted ops) else from_sender s (submitted ops))"
  by simp

locale tx_pool =
  fixes inv :: "'p \<Rightarrow> bool"
    and put :: "'p \<Rightarrow> Transaction \<Rightarrow> 'p"
    and draw :: "'p \<Rightarrow> nat \<Rightarrow> Transaction list \<times> 'p"
    and pending :: "'p \<Rightarrow> Transaction list"
    and cap :: nat
  assumes put_inv: "inv p \<Longrightarrow> inv (put p t)"
    and draw_inv: "inv p \<Longrightarrow> draw p n = (xs, p') \<Longrightarrow> inv p'"
    and put_pending: "inv p \<Longrightarrow> mset (pending (put p t)) = add_mset t (mset (pending p))"
    and put_order: "inv p \<Longrightarrow>
      from_sender s (pending (put p t)) = from_sender s (pending p) @ from_sender s [t]"
    and draw_pending: "draw p n = (xs, p') \<Longrightarrow> mset xs + mset (pending p') = mset (pending p)"
    and draw_order: "inv p \<Longrightarrow> draw p n = (xs, p') \<Longrightarrow>
      from_sender s xs @ from_sender s (pending p') = from_sender s (pending p)"
    and draw_bound: "draw p n = (xs, p') \<Longrightarrow> length xs \<le> n"
    and draw_cap: "inv p \<Longrightarrow> draw p n = (xs, p') \<Longrightarrow> length (from_sender s xs) \<le> cap"
begin

text \<open>Over any history, each sender's transactions leave the pool in submission order.\<close>

lemma run_order:
  "inv p \<Longrightarrow> pool_run put draw p ops = (xs, p') \<Longrightarrow>
   from_sender s xs @ from_sender s (pending p') =
     from_sender s (pending p) @ from_sender s (submitted ops)"
proof (induction ops arbitrary: p xs)
  case (Cons op ops)
  show ?case
  proof (cases op)
    case (Submit t)
    with Cons.prems have "pool_run put draw (put p t) ops = (xs, p')" by simp
    from Cons.IH [OF put_inv [OF Cons.prems(1)] this] put_order [OF Cons.prems(1)] Submit
    show ?thesis by simp
  next
    case (Draw n)
    obtain us q where q: "draw p n = (us, q)" by fastforce
    with Draw Cons.prems(2) obtain vs where vs: "pool_run put draw q ops = (vs, p')" "xs = us @ vs"
      by (auto split: prod.splits)
    from Cons.IH [OF draw_inv [OF Cons.prems(1) q] vs(1)] draw_order [OF Cons.prems(1) q, of s] vs(2) Draw
    show ?thesis by (metis append_assoc from_sender_append submitted.simps(3))
  qed
qed simp

text \<open>Nothing is lost or duplicated over any history.\<close>

lemma run_conserves:
  "inv p \<Longrightarrow> pool_run put draw p ops = (xs, p') \<Longrightarrow>
   mset xs + mset (pending p') = mset (pending p) + mset (submitted ops)"
proof (induction ops arbitrary: p xs)
  case (Cons op ops)
  show ?case
  proof (cases op)
    case (Submit t)
    with Cons.prems have "pool_run put draw (put p t) ops = (xs, p')" by simp
    from Cons.IH [OF put_inv [OF Cons.prems(1)] this] put_pending [OF Cons.prems(1)] Submit
    show ?thesis by simp
  next
    case (Draw n)
    obtain us q where q: "draw p n = (us, q)" by fastforce
    with Draw Cons.prems(2) obtain vs where vs: "pool_run put draw q ops = (vs, p')" "xs = us @ vs"
      by (auto split: prod.splits)
    from Cons.IH [OF draw_inv [OF Cons.prems(1) q] vs(1)] draw_pending [OF q] vs(2) Draw
    show ?thesis by (simp add: ac_simps)
  qed
qed simp

end

lemma add_transaction_pending:
  assumes "mempool_inv m"
  shows "mset (pending_transactions (add_transaction m t)) = add_mset t (mset (pending_transactions m))"
    and "from_sender s (pending_transactions (add_transaction m t)) =
      from_sender s (pending_transactions m) @ from_sender s [t]"
proof -
  let ?p = "partition_for_address m (tx_from t)" and ?ps = "partitions m"
  have p: "?p < length ?ps"
    using assms partition_for_address_bound by (simp add: mempool_inv_def)
  have split: "?ps = take ?p ?ps @ ?ps ! ?p # drop (Suc ?p) ?ps"
    using p by (rule id_take_nth_drop)
  have upd: "partitions (add_transaction m t) = take ?p ?ps @ (?ps ! ?p @ [t]) # drop (Suc ?p) ?ps"
    using p by (simp add: add_transaction_def Let_def upd_conv_take_nth_drop)
  have "concat ?ps = concat (take ?p ?ps) @ ?ps ! ?p @ concat (drop (Suc ?p) ?ps)"
    by (subst split) simp
  then show "mset (pending_transactions (add_transaction m t)) = add_mset t (mset (pending_transactions m))"
    by (simp add: pending_transactions_eq upd)
  have "from_sender s (concat (drop (Suc ?p) ?ps)) = []" if "tx_from t = s"
  proof -
    have far: "partition_for_address m (tx_from u) \<noteq> ?p" if "u \<in> set (concat (drop (Suc ?p) ?ps))" for u
    proof -
      from that obtain q where q: "q \<in> set (drop (Suc ?p) ?ps)" "u \<in> set q" by auto
      then obtain i where "i < length ?ps - Suc ?p" "q = ?ps ! (Suc ?p + i)"
        by (auto simp: in_set_conv_nth)
      moreover from this have "Suc ?p + i < length ?ps" by simp
      ultimately have "partition_for_address m (tx_from u) = Suc ?p + i"
        using q(2) assms unfolding mempool_inv_def by blast
      then show ?thesis by simp
    qed
    show ?thesis unfolding from_sender_empty using far \<open>tx_from t = s\<close> by metis
  qed
  with \<open>concat ?ps = _\<close> show "from_sender s (pending_transactions (add_transaction m t)) =
      from_sender s (pending_transactions m) @ from_sender s [t]"
    by (simp add: pending_transactions_eq upd)
qed

interpretation mempool_pool: tx_pool mempool_inv add_transaction take_for_block
  pending_transactions MAX_TRANSACTIONS_PER_ADDRESS_PER_BLOCK
proof unfold_locales
  fix m t n xs m' s
  show "mempool_inv m \<Longrightarrow> mempool_inv (add_transaction m t)" by (rule add_transaction_inv)
  show "mempool_inv m \<Longrightarrow> take_for_block m n = (xs, m') \<Longrightarrow> mempool_inv m'"
    by (rule take_for_block_inv)
  show "mempool_inv m \<Longrightarrow>
    mset (pending_transactions (add_transaction m t)) = add_mset t (mset (pending_transactions m))"
    by (rule add_transaction_pending)
  show "mempool_inv m \<Longrightarrow> from_sender s (pending_transactions (add_transaction m t)) =
    from_sender s (pending_transactions m) @ from_sender s [t]"
    by (rule add_transaction_pending)
  show "take_for_block m n = (xs, m') \<Longrightarrow>
    mset xs + mset (pending_transactions m') = mset (pending_transactions m)"
    by (rule take_for_block_mset)
  show "mempool_inv m \<Longrightarrow> take_for_block m n = (xs, m') \<Longrightarrow>
    from_sender s xs @ from_sender s (pending_transactions m') = from_sender s (pending_transactions m)"
    by (rule take_for_block_sender)
  show "take_for_block m n = (xs, m') \<Longrightarrow> length xs \<le> n" by (rule take_for_block_length)
  show "mempool_inv m \<Longrightarrow> take_for_block m n = (xs, m') \<Longrightarrow>
    length (from_sender s xs) \<le> MAX_TRANSACTIONS_PER_ADDRESS_PER_BLOCK"
    by (rule take_for_block_sender)
qed

text \<open>
  C8. Selecting a block from the mempool loses nothing, invents nothing and reorders no
  sender: the selected transactions and the ones still pending are together the old pending
  ones, at most the requested number and at most 100 per sender are selected, each sender's
  selection is the front of its queue, and the invariant is kept.
\<close>

theorem take_for_block_correct:
  assumes "mempool_inv m" and "take_for_block m n = (sel, m')"
  shows "mempool_inv m' \<and>
    mset sel + mset (pending_transactions m') = mset (pending_transactions m) \<and>
    length sel \<le> n \<and> length (from_sender s sel) \<le> 100 \<and>
    from_sender s sel @ from_sender s (pending_transactions m') = from_sender s (pending_transactions m)"
  using mempool_pool.draw_inv [OF assms] mempool_pool.draw_pending [OF assms(2)]
    mempool_pool.draw_bound [OF assms(2)] mempool_pool.draw_cap [OF assms, of s]
    mempool_pool.draw_order [OF assms, of s]
  by (simp add: MAX_TRANSACTIONS_PER_ADDRESS_PER_BLOCK_def)

definition sample_pool :: Mempool where
  "sample_pool = add_transaction (add_transaction (with_partition_count 1) (sample_tx 1)) (sample_tx 2)"

lemma sample_pool_inv: "mempool_inv sample_pool"
  unfolding sample_pool_def by (intro add_transaction_inv with_partition_count_inv)

lemma sample_pool_partitions: "partitions sample_pool = [[sample_tx 1, sample_tx 2]]"
  by (simp add: sample_pool_def with_partition_count_def add_transaction_def
      partition_for_address_def sample_tx_def Let_def)

theorem take_for_block_correct_witness:
  "mempool_inv sample_pool \<and>
   take_for_block sample_pool 1 = ([sample_tx 1], sample_pool\<lparr>partitions := [[sample_tx 2]]\<rparr>) \<and>
   mempool_inv (sample_pool\<lparr>partitions := [[sample_tx 2]]\<rparr>)"
proof -
  have run: "take_for_block sample_pool 1 =
      ([sample_tx 1], sample_pool\<lparr>partitions := [[sample_tx 2]]\<rparr>)"
    by (simp add: take_for_block_def mempool_is_empty_def mempool_len_eq sample_pool_partitions
        MAX_TRANSACTIONS_PER_ADDRESS_PER_BLOCK_def)
  with take_for_block_correct [OF sample_pool_inv run] sample_pool_inv show ?thesis by simp
qed

text \<open>
  C9. Over any history of submissions and block selections on a fresh mempool, every
  submitted transaction is either still pending or in exactly one selection, and each
  sender's transactions are selected in the order they were submitted.
\<close>

theorem mempool_history:
  "case pool_run add_transaction take_for_block (with_partition_count k) ops of
     (sel, m) \<Rightarrow>
       mset sel + mset (pending_transactions m) = mset (submitted ops) \<and>
       from_sender s sel @ from_sender s (pending_transactions m) = from_sender s (submitted ops)"
proof -
  obtain sel m where run: "pool_run add_transaction take_for_block (with_partition_count k) ops = (sel, m)"
    by fastforce
  have empty: "pending_transactions (with_partition_count k) = []"
    by (simp add: pending_transactions_eq with_partition_count_def Let_def)
  from mempool_pool.run_conserves [OF with_partition_count_inv run]
    mempool_pool.run_order [OF with_partition_count_inv run, of s]
  show ?thesis by (simp add: run empty)
qed

section \<open>Submissions during a draw\<close>

text \<open>
  \<open>take_for_block\<close> sends one command to each partition and waits for its answer. \<open>Mempool\<close> is
  \<open>Clone\<close> and its clones share the partition tasks, so submissions through another clone can reach
  any partition between two of these commands. The operations below are the loops of \<open>is_empty\<close>
  and \<open>take_for_block\<close> again, with arbitrary submissions (\<open>early i\<close>, \<open>late i\<close>) before the command
  to partition \<open>i\<close>; they also return the submissions made while they ran. Draws remain exclusive.
\<close>

fun len_concurrent :: "(nat \<Rightarrow> Transaction list) \<Rightarrow> nat \<Rightarrow> Mempool \<Rightarrow> nat list \<Rightarrow> nat \<times> Mempool \<times> Transaction list" where
  "len_concurrent early tot m [] = (tot, m, [])"
| "len_concurrent early tot m (i # is) =
     (let m' = foldl add_transaction m (early i) in
      case snd (partition_step (partitions m' ! i) LenCommand) of
        LenResponse n \<Rightarrow> (case len_concurrent early (tot + n) m' is of (tot', m'', as) \<Rightarrow> (tot', m'', early i @ as))
      | _ \<Rightarrow> (case len_concurrent early tot m' is of (tot', m'', as) \<Rightarrow> (tot', m'', early i @ as)))"

fun take_concurrent :: "(nat \<Rightarrow> Transaction list) \<Rightarrow> nat \<Rightarrow> Transaction list \<Rightarrow> Mempool \<Rightarrow> nat list
    \<Rightarrow> Transaction list \<times> Mempool \<times> Transaction list" where
  "take_concurrent late max_transactions selected m [] = (selected, m, [])"
| "take_concurrent late max_transactions selected m (i # is) =
     (if length selected = max_transactions then (selected, m, [])
      else let m' = foldl add_transaction m (late i) in
        case partition_step (partitions m' ! i) (TakeForBlock (max_transactions - length selected)) of
          (p, SelectedResponse xs) \<Rightarrow>
            (case take_concurrent late max_transactions (selected @ xs) (m'\<lparr>partitions := (partitions m')[i := p]\<rparr>) is of
               (selected', m'', as) \<Rightarrow> (selected', m'', late i @ as))
        | (p, _) \<Rightarrow> (selected, m'\<lparr>partitions := (partitions m')[i := p]\<rparr>, late i))"

definition take_for_block_concurrent :: "(nat \<Rightarrow> Transaction list) \<Rightarrow> (nat \<Rightarrow> Transaction list) \<Rightarrow> Mempool \<Rightarrow> nat
    \<Rightarrow> Transaction list \<times> Mempool \<times> Transaction list" where
  "take_for_block_concurrent early late m max_transactions =
     (let is = [0..<length (partitions m)] in
      if max_transactions = 0 then ([], m, [])
      else case len_concurrent early 0 m is of (n, m1, as1) \<Rightarrow>
        if n = 0 then ([], m1, as1)
        else case take_concurrent late max_transactions [] m1 is of (selected, m2, as2) \<Rightarrow> (selected, m2, as1 @ as2))"

text \<open>All pending transactions of a sender are in its partition.\<close>

lemma sender_away:
  "mempool_inv m \<Longrightarrow> i < length (partitions m) \<Longrightarrow> partition_for_address m s \<noteq> i \<Longrightarrow> from_sender s (partitions m ! i) = []"
  by (auto simp: from_sender_empty mempool_inv_def)

lemma sender_home:
  assumes "mempool_inv m"
  shows "from_sender s (pending_transactions m) = from_sender s (partitions m ! partition_for_address m s)"
proof -
  let ?p = "partition_for_address m s" and ?ps = "partitions m"
  have p: "?p < length ?ps" using assms partition_for_address_bound by (simp add: mempool_inv_def)
  have none: "from_sender s (concat qs) = []" if "\<forall>q \<in> set qs. from_sender s q = []" for qs
    using that by (induction qs) simp_all
  have "from_sender s (concat (take ?p ?ps)) = []" "from_sender s (concat (drop (Suc ?p) ?ps)) = []"
    using p by (auto intro!: none sender_away [OF assms] simp: in_set_conv_nth)
  with p show ?thesis
    unfolding pending_transactions_eq by (subst id_take_nth_drop [OF p]) simp
qed

definition grown :: "Mempool \<Rightarrow> Transaction list \<Rightarrow> Mempool \<Rightarrow> Transaction list \<Rightarrow> bool" where
  "grown m as m' sel \<longleftrightarrow> mempool_inv m' \<and> partition_count m' = partition_count m \<and>
     mset sel + mset (pending_transactions m') = mset (pending_transactions m) + mset as \<and>
     (\<forall>s. from_sender s sel @ from_sender s (pending_transactions m') = from_sender s (pending_transactions m) @ from_sender s as)"

lemma grown_adds: "mempool_inv m \<Longrightarrow> grown m as (foldl add_transaction m as) []"
proof (induction as arbitrary: m)
  case (Cons t as)
  have "partition_count (add_transaction m t) = partition_count m" by (simp add: add_transaction_def Let_def)
  with Cons.IH [OF add_transaction_inv [OF Cons.prems, of t]] add_transaction_pending [OF Cons.prems] show ?case
    by (simp add: grown_def)
qed (simp add: grown_def)

lemma grown_trans:
  assumes "grown m as m' xs" and "grown m' bs m'' ys"
  shows "grown m (as @ bs) m'' (xs @ ys)"
proof -
  have m: "mset xs + mset (pending_transactions m') = mset (pending_transactions m) + mset as"
    "mset ys + mset (pending_transactions m'') = mset (pending_transactions m') + mset bs"
    using assms by (simp_all add: grown_def)
  have "mset (xs @ ys) + mset (pending_transactions m'') = mset xs + (mset (pending_transactions m') + mset bs)"
    using m(2) by (simp add: add.assoc)
  also have "\<dots> = mset (pending_transactions m) + mset (as @ bs)" using m(1) by (metis add.assoc mset_append)
  finally have "mset (xs @ ys) + mset (pending_transactions m'') = mset (pending_transactions m) + mset (as @ bs)" .
  moreover have "from_sender s (xs @ ys) @ from_sender s (pending_transactions m'') =
      from_sender s (pending_transactions m) @ from_sender s (as @ bs)" for s
    using assms unfolding grown_def by (metis append_assoc from_sender_append)
  ultimately show ?thesis using assms by (simp add: grown_def)
qed

lemma grown_visit:
  assumes "mempool_inv m" and "i < length (partitions m)" and "take_loop n Map.empty [] [] (partitions m ! i) = (xs, p)"
  shows "grown m [] (m\<lparr>partitions := (partitions m)[i := p]\<rparr>) xs"
proof -
  let ?m = "m\<lparr>partitions := (partitions m)[i := p]\<rparr>"
  have ms: "mset xs + mset p = mset (partitions m ! i)" using take_loop_mset [OF assms(3)] by simp
  have "set p \<subseteq> set (partitions m ! i)" using arg_cong [OF ms, of set_mset] by auto
  then have inv: "mempool_inv ?m" using assms(1,2) by (auto simp: mempool_inv_def nth_list_update)
  have c: "concat (partitions m) = concat (take i (partitions m)) @ partitions m ! i @ concat (drop (Suc i) (partitions m))"
    by (subst id_take_nth_drop [OF assms(2)]) simp
  have "mset xs + mset (pending_transactions ?m) = mset (pending_transactions m)"
    using assms(2) by (simp add: pending_transactions_eq upd_conv_take_nth_drop c ms [symmetric] ac_simps)
  moreover have "from_sender s xs @ from_sender s (pending_transactions ?m) = from_sender s (pending_transactions m)" for s
  proof -
    have f: "from_sender s xs @ from_sender s p = from_sender s (partitions m ! i)"
      using take_loop_fifo [OF assms(3), of s] by simp
    show ?thesis
    proof (cases "partition_for_address m s = i")
      case True
      with f assms(2) show ?thesis by (simp add: sender_home [OF inv] sender_home [OF assms(1)])
    next
      case False
      with f sender_away [OF assms(1,2)] show ?thesis by (simp add: sender_home [OF inv] sender_home [OF assms(1)])
    qed
  qed
  ultimately show ?thesis using inv by (simp add: grown_def)
qed

lemma len_concurrent_grown:
  "mempool_inv m \<Longrightarrow> len_concurrent early tot m is = (n, m', as) \<Longrightarrow> grown m as m' []"
proof (induction "is" arbitrary: tot m as)
  case Nil
  then show ?case using grown_adds [of m "[]"] by simp
next
  case (Cons i "is")
  let ?m = "foldl add_transaction m (early i)"
  have g: "grown m (early i) ?m []" by (rule grown_adds [OF Cons.prems(1)])
  obtain bs where bs: "len_concurrent early (tot + length (partitions ?m ! i)) ?m is = (n, m', bs)" "as = early i @ bs"
    using Cons.prems(2) by (auto simp: Let_def split: prod.splits)
  have "mempool_inv ?m" using g by (simp add: grown_def)
  from grown_trans [OF g Cons.IH [OF this bs(1)]] bs(2) show ?case by simp
qed

lemma grown_home: "grown m as m' sel \<Longrightarrow> partition_for_address m' = partition_for_address m"
  by (rule ext) (simp add: grown_def partition_for_address_def)

lemma take_concurrent_Cons:
  assumes "take_concurrent late n sel m (i # is) = (sel', m', as)" and "length sel \<noteq> n"
  obtains xs p bs where
    "take_loop (n - length sel) Map.empty [] [] (partitions (foldl add_transaction m (late i)) ! i) = (xs, p)"
    "take_concurrent late n (sel @ xs) ((foldl add_transaction m (late i))\<lparr>partitions :=
       (partitions (foldl add_transaction m (late i)))[i := p]\<rparr>) is = (sel', m', bs)" "as = late i @ bs"
  using assms by (auto simp: Let_def split: prod.splits)

text \<open>Senders already selected are at home in partitions that were visited before.\<close>

definition selection_ok :: "Mempool \<Rightarrow> nat \<Rightarrow> nat list \<Rightarrow> Transaction list \<Rightarrow> bool" where
  "selection_ok m n is sel \<longleftrightarrow> distinct is \<and> (\<forall>i \<in> set is. i < partition_count m) \<and> length sel \<le> n \<and>
     (\<forall>s. length (from_sender s sel) \<le> MAX_TRANSACTIONS_PER_ADDRESS_PER_BLOCK \<and>
       (partition_for_address m s \<in> set is \<longrightarrow> from_sender s sel = []))"

lemma selection_ok_visit:
  assumes "selection_ok m n (i # is) sel" and "mempool_inv m" and "take_loop (n - length sel) Map.empty [] [] (partitions m ! i) = (xs, p)"
  shows "selection_ok m n is (sel @ xs)"
proof -
  have i: "i < length (partitions m)" using assms(1,2) by (simp add: selection_ok_def mempool_inv_def)
  have "length (from_sender s (sel @ xs)) \<le> MAX_TRANSACTIONS_PER_ADDRESS_PER_BLOCK \<and>
      (partition_for_address m s \<in> set is \<longrightarrow> from_sender s (sel @ xs) = [])" for s
  proof (cases "partition_for_address m s = i")
    case True
    with assms(1) take_loop_sender_cap [OF assms(3), of s] show ?thesis by (auto simp: selection_ok_def)
  next
    case False
    with sender_away [OF assms(2) i] take_loop_fifo [OF assms(3), of s] have "from_sender s xs = []" by simp
    with assms(1) show ?thesis by (simp add: selection_ok_def)
  qed
  moreover have "length (sel @ xs) \<le> n" using assms(1) take_loop_length [OF assms(3)] by (auto simp: selection_ok_def)
  ultimately show ?thesis using assms(1) by (simp add: selection_ok_def)
qed

lemma take_concurrent_grown:
  "mempool_inv m \<Longrightarrow> selection_ok m n is sel \<Longrightarrow> take_concurrent late n sel m is = (sel', m', as) \<Longrightarrow>
   \<exists>xs. sel' = sel @ xs \<and> grown m as m' xs \<and> selection_ok m n [] sel'"
proof (induction "is" arbitrary: sel m as)
  case Nil
  then show ?case using grown_adds [of m "[]"] by auto
next
  case (Cons i "is")
  show ?case
  proof (cases "length sel = n")
    case True
    with Cons.prems grown_adds [of m "[]"] show ?thesis by (auto simp: selection_ok_def)
  next
    case False
    let ?m = "foldl add_transaction m (late i)"
    from Cons.prems(3) False obtain xs p bs where
      run: "take_loop (n - length sel) Map.empty [] [] (partitions ?m ! i) = (xs, p)" (is "_ = _")
        "take_concurrent late n (sel @ xs) (?m\<lparr>partitions := (partitions ?m)[i := p]\<rparr>) is = (sel', m', bs)" "as = late i @ bs"
      by (rule take_concurrent_Cons)
    let ?v = "?m\<lparr>partitions := (partitions ?m)[i := p]\<rparr>"
    have g: "grown m (late i) ?m []" by (rule grown_adds [OF Cons.prems(1)])
    then have inv: "mempool_inv ?m" by (simp add: grown_def)
    have ok: "selection_ok ?m n (i # is) sel" using Cons.prems(2) g grown_home [OF g] by (simp add: selection_ok_def grown_def)
    have v: "grown ?m [] ?v xs" using ok inv by (intro grown_visit [OF inv _ run(1)]) (simp add: selection_ok_def mempool_inv_def)
    have "selection_ok ?v n is (sel @ xs)" using selection_ok_visit [OF ok inv run(1)] by (simp add: selection_ok_def)
    from Cons.IH [OF _ this run(2)] v obtain ys where
      ys: "sel' = (sel @ xs) @ ys" "grown ?v bs m' ys" "selection_ok ?v n [] sel'" by (auto simp: grown_def)
    have "grown m as m' (xs @ ys)" using grown_trans [OF grown_trans [OF g v] ys(2)] run(3) by simp
    with ys(1,3) show ?thesis by (auto simp: selection_ok_def)
  qed
qed

text \<open>Without submissions in between, the loops are the sequential ones.\<close>

lemma len_concurrent_quiet:
  "(\<And>i. early i = []) \<Longrightarrow> len_concurrent early tot m is = (tot + length (concat (map ((!) (partitions m)) is)), m, [])"
  by (induction "is" arbitrary: tot) (simp_all add: Let_def)

lemma take_concurrent_quiet:
  "take_partitions n sel qs = (sel', qs') \<Longrightarrow> partitions m = ps @ qs \<Longrightarrow>
    take_concurrent (\<lambda>_. []) n sel m [length ps..<length ps + length qs] = (sel', m\<lparr>partitions := ps @ qs'\<rparr>, [])"
proof (induction qs arbitrary: sel m ps qs')
  case Nil
  then show ?case by (cases m) simp
next
  case (Cons q qs)
  have range: "[length ps..<length ps + length (q # qs)] = length ps # [length (ps @ [q])..<length (ps @ [q]) + length qs]"
    by (simp add: upt_rec del: upt_Suc)
  show ?case
  proof (cases "length sel = n")
    case True
    with Cons.prems range show ?thesis by (cases m) auto
  next
    case False
    from Cons.prems(1) False obtain xs p rs where
      run: "take_loop (n - length sel) Map.empty [] [] q = (xs, p)" "take_partitions n (sel @ xs) qs = (sel', rs)" "qs' = p # rs"
      by (rule take_partitions_cases)
    have "take_concurrent (\<lambda>_. []) n (sel @ xs) (m\<lparr>partitions := ps @ p # qs\<rparr>) [length (ps @ [p])..<length (ps @ [p]) + length qs] =
        (sel', m\<lparr>partitions := ps @ p # rs\<rparr>, [])"
      using Cons.IH [OF run(2), of "m\<lparr>partitions := ps @ p # qs\<rparr>" "ps @ [p]"] by simp
    with False run Cons.prems(2) show ?thesis unfolding range by (simp del: upt_Suc)
  qed
qed

lemma concat_all_partitions: "concat (map ((!) ps) [0..<length ps]) = concat ps"
  by (simp add: map_nth)

text \<open>
  C32. Submissions that arrive while a block is drawn do no harm: however they are interleaved with
  the commands that \<open>take_for_block\<close> sends to the partitions, what is selected and what stays
  pending are together the old pending and the new transactions, nothing lost or doubled; each
  sender's selection is the front of its queue in submission order; and the block and sender caps
  hold. With no submission in between the result is that of the sequential draw.
\<close>

theorem concurrent_draw_correct:
  assumes "mempool_inv m" and "take_for_block_concurrent early late m n = (sel, m', as)"
  shows "mempool_inv m' \<and> mset sel + mset (pending_transactions m') = mset (pending_transactions m) + mset as \<and>
    length sel \<le> n \<and> length (from_sender s sel) \<le> 100 \<and>
    from_sender s sel @ from_sender s (pending_transactions m') = from_sender s (pending_transactions m) @ from_sender s as \<and>
    ((\<forall>i. early i = [] \<and> late i = []) \<longrightarrow> (sel, m') = take_for_block m n \<and> as = [])"
proof -
  let ?is = "[0..<length (partitions m)]"
  obtain k m1 as1 where len: "len_concurrent early 0 m ?is = (k, m1, as1)" by (metis prod_cases3)
  have g1: "grown m as1 m1 []" by (rule len_concurrent_grown [OF assms(1) len])
  have inv1: "mempool_inv m1" using g1 by (simp add: grown_def)
  have ok: "selection_ok m1 n ?is []" using g1 assms(1) by (simp add: selection_ok_def grown_def mempool_inv_def)
  obtain xs where "sel = xs" "grown m as m' xs" "length sel \<le> n" "length (from_sender s sel) \<le> 100"
  proof (cases "n = 0 \<or> k = 0")
    case True
    with assms len g1 grown_adds [OF assms(1), of "[]"] that [of "[]"] show thesis
      by (auto simp: take_for_block_concurrent_def Let_def split: if_splits)
  next
    case False
    then obtain as2 where run: "take_concurrent late n [] m1 ?is = (sel, m', as2)" "as = as1 @ as2"
      using assms(2) len by (auto simp: take_for_block_concurrent_def Let_def split: prod.splits)
    from take_concurrent_grown [OF inv1 ok run(1)] have g2: "grown m1 as2 m' sel" "selection_ok m1 n [] sel" by auto
    from grown_trans [OF g1 g2(1)] g2(2) run(2) that [of sel] show thesis
      by (simp add: selection_ok_def MAX_TRANSACTIONS_PER_ADDRESS_PER_BLOCK_def)
  qed
  moreover have "(sel, m') = take_for_block m n \<and> as = []" if quiet: "\<forall>i. early i = [] \<and> late i = []"
  proof -
    have late: "late = (\<lambda>_. [])" using quiet by (intro ext) simp
    have "len_concurrent early 0 m ?is = (length (pending_transactions m), m, [])"
      using quiet by (simp add: len_concurrent_quiet concat_all_partitions pending_transactions_eq)
    moreover obtain ys qs where "take_partitions n [] (partitions m) = (ys, qs)" by fastforce
    moreover from this have "take_concurrent late n [] m ?is = (ys, m\<lparr>partitions := qs\<rparr>, [])"
      using take_concurrent_quiet [of n "[]" "partitions m" ys qs m "[]"] late by simp
    ultimately show ?thesis
      using assms(2) by (auto simp: take_for_block_concurrent_def take_for_block_def Let_def mempool_is_empty_iff split: if_splits)
  qed
  ultimately show ?thesis by (auto simp: grown_def)
qed

text \<open>Two transactions are pending, a third arrives while the draw of two runs.\<close>

theorem concurrent_draw_correct_witness:
  "\<exists>m'. take_for_block_concurrent (\<lambda>_. []) (\<lambda>_. [sample_tx 3]) sample_pool 2 = ([sample_tx 1, sample_tx 2], m', [sample_tx 3]) \<and>
     pending_transactions m' = [sample_tx 3]"
proof -
  obtain m' where run: "take_for_block_concurrent (\<lambda>_. []) (\<lambda>_. [sample_tx 3]) sample_pool 2 =
      ([sample_tx 1, sample_tx 2], m', [sample_tx 3])"
    by (simp add: take_for_block_concurrent_def sample_pool_partitions Let_def add_transaction_def partition_for_address_def
      MAX_TRANSACTIONS_PER_ADDRESS_PER_BLOCK_def sample_pool_def with_partition_count_def)
  have "mset (pending_transactions m') = {#sample_tx 3#}"
    using concurrent_draw_correct [OF sample_pool_inv run]
    by (simp add: pending_transactions_eq sample_pool_partitions)
  then have "pending_transactions m' = [sample_tx 3]" by simp
  with run show ?thesis by blast
qed

end
