(* ===== verification/Votes.thy ===== *)
theory Votes
  imports Mempool
begin

text \<open>
  Signed votes, tallies, finality, fork choice and slashing of
  \<open>src/src/consensus/mod.rs\<close> (lines 264 to 489 and 660 to 701). The \<open>HashMap\<close> of a
  \<open>VoteCollector\<close> is an association list with distinct keys; its order stands for the
  unspecified iteration order of the map, and \<open>tally_order_independent\<close> shows that the
  result does not depend on it.
\<close>

section \<open>Votes\<close>

record ConsensusVote =
  cv_height :: u64
  cv_block_hash :: bytes
  cv_voter :: bytes
  cv_approve :: bool
  cv_signature :: bytes

record VoteTally =
  approve_stake :: u64
  reject_stake :: u64
  total_votes :: nat

record VoteCollector =
  votes_by_voter :: "(bytes \<times> ConsensusVote) list"

datatype VoteError =
    InvalidVoterKeyLength
  | InvalidSignatureLength
  | InvalidSignature
  | UnknownValidator
  | DuplicateVote
  | VoteSerialization string

record consensus_env = env +
  bc_vote :: "ConsensusVote codec"

definition validator_stake :: "Validator list \<Rightarrow> bytes \<Rightarrow> u64 option" where
  "validator_stake validators address =
     map_option v_stake (find (\<lambda>v. v_address v = address \<and> v_stake v > 0) validators)"

definition unsigned_vote_bytes :: "'z consensus_env_scheme \<Rightarrow> ConsensusVote \<Rightarrow> (bytes, VoteError) result" where
  "unsigned_vote_bytes E vote =
     map_err VoteSerialization (serialize (bc_vote E) (vote\<lparr>cv_signature := []\<rparr>))"

definition create_signed_vote ::
  "'z consensus_env_scheme \<Rightarrow> u64 \<Rightarrow> bytes \<Rightarrow> bool \<Rightarrow> bytes \<Rightarrow> (ConsensusVote, VoteError) result" where
  "create_signed_vote E height block_hash approve sk =
     (let vote = \<lparr>cv_height = height, cv_block_hash = block_hash, cv_voter = signing_public E sk,
                  cv_approve = approve, cv_signature = []\<rparr>
      in and_then (unsigned_vote_bytes E vote)
           (\<lambda>message. Inr (vote\<lparr>cv_signature := signing_sign E sk message\<rparr>)))"

definition verify_vote :: "'z consensus_env_scheme \<Rightarrow> ConsensusVote \<Rightarrow> (bool, VoteError) result" where
  "verify_vote E vote =
     and_then (try_into_array 32 InvalidVoterKeyLength (cv_voter vote)) (\<lambda>voter_bytes.
     if \<not> verifying_key_ok E voter_bytes then Inl InvalidVoterKeyLength else
     and_then (try_into_array 64 InvalidSignatureLength (cv_signature vote)) (\<lambda>signature.
     and_then (unsigned_vote_bytes E vote) (\<lambda>message.
       Inr (verifying_verify E voter_bytes message signature))))"

definition VoteCollector_new :: VoteCollector where
  "VoteCollector_new = \<lparr>votes_by_voter = []\<rparr>"

definition collector_len :: "VoteCollector \<Rightarrow> nat" where
  "collector_len c = length (votes_by_voter c)"

definition has_voted :: "VoteCollector \<Rightarrow> bytes \<Rightarrow> bool" where
  "has_voted c address \<longleftrightarrow> map_of (votes_by_voter c) address \<noteq> None"

text \<open>The collector after the call; on an error it is unchanged.\<close>

definition collect_vote :: "'z consensus_env_scheme \<Rightarrow> VoteCollector \<Rightarrow> ConsensusVote \<Rightarrow> Validator list
    \<Rightarrow> (VoteCollector, VoteError) result" where
  "collect_vote E c vote validators =
     (if validator_stake validators (cv_voter vote) = None then Inl UnknownValidator else
      and_then (verify_vote E vote) (\<lambda>valid.
      if \<not> valid then Inl InvalidSignature
      else if has_voted c (cv_voter vote) then Inl DuplicateVote
      else Inr (c\<lparr>votes_by_voter := (cv_voter vote, vote) # votes_by_voter c\<rparr>)))"

text \<open>
  The tally loop; the two \<open>expect\<close> calls on \<open>checked_add\<close> panic on overflow.
\<close>

fun tally_loop :: "Validator list \<Rightarrow> VoteTally \<Rightarrow> ConsensusVote list \<Rightarrow> (VoteTally, VoteError) result panics" where
  "tally_loop validators tally [] = Inr (Inr tally)"
| "tally_loop validators tally (vote # votes) =
     (case validator_stake validators (cv_voter vote) of
        None \<Rightarrow> Inr (Inl UnknownValidator)
      | Some stake \<Rightarrow>
          if cv_approve vote
          then (case checked_add (approve_stake tally) stake of
                  None \<Rightarrow> Inl ''approve stake should not overflow u64 in tests''
                | Some s \<Rightarrow> tally_loop validators
                    (tally\<lparr>approve_stake := s, total_votes := total_votes tally + 1\<rparr>) votes)
          else (case checked_add (reject_stake tally) stake of
                  None \<Rightarrow> Inl ''reject stake should not overflow u64 in tests''
                | Some s \<Rightarrow> tally_loop validators
                    (tally\<lparr>reject_stake := s, total_votes := total_votes tally + 1\<rparr>) votes))"

definition VoteTally_default :: VoteTally where
  "VoteTally_default = \<lparr>approve_stake = 0, reject_stake = 0, total_votes = 0\<rparr>"

definition collector_tally :: "VoteCollector \<Rightarrow> Validator list \<Rightarrow> (VoteTally, VoteError) result panics" where
  "collector_tally c validators = tally_loop validators VoteTally_default (map snd (votes_by_voter c))"

section \<open>Finality and fork choice\<close>

definition total_active_stake :: "Validator list \<Rightarrow> u64" where
  "total_active_stake validators = sum_list (map v_stake (filter (\<lambda>v. v_stake v > 0) validators))"

definition is_block_finalized :: "VoteTally \<Rightarrow> Validator list \<Rightarrow> bool" where
  "is_block_finalized tally validators =
     (let total_stake = ucast (total_active_stake validators) :: u128
      in if total_stake = 0 then False
         else total_stake * 2 < (ucast (approve_stake tally) :: u128) * 3)"

record ChainFork =
  tip_hash :: bytes
  fork_height :: u64
  cumulative_stake_weight :: u128

definition cumulative_chain_weight :: "VoteTally list \<Rightarrow> u128" where
  "cumulative_chain_weight tallies = sum_list (map (\<lambda>t. ucast (approve_stake t)) tallies)"

definition fork_key :: "ChainFork \<Rightarrow> u128 \<times> u64 \<times> bytes" where
  "fork_key f = (cumulative_stake_weight f, fork_height f, tip_hash f)"

text \<open>\<open>Iterator::max_by\<close>: of equal maxima the last one is returned.\<close>

fun max_by_key :: "('a \<Rightarrow> 'k::linorder) \<Rightarrow> 'a list \<Rightarrow> 'a option" where
  "max_by_key f [] = None"
| "max_by_key f (x # xs) =
     Some (foldl (\<lambda>best y. if f y < f best then best else y) x xs)"

definition choose_heaviest_chain :: "ChainFork list \<Rightarrow> ChainFork option" where
  "choose_heaviest_chain forks = max_by_key fork_key forks"

section \<open>Slashing\<close>

record DoubleVoteProof =
  first_vote :: ConsensusVote
  second_vote :: ConsensusVote

datatype SlashingError =
    DifferentVoters
  | DifferentHeights
  | SameBlockHash
  | InvalidFirstVote
  | InvalidSecondVote
  | InvalidPenaltyBps
  | ValidatorDoesNotMatchProof

definition detect_double_vote :: "'z consensus_env_scheme \<Rightarrow> ConsensusVote \<Rightarrow> ConsensusVote
    \<Rightarrow> (DoubleVoteProof, SlashingError) result" where
  "detect_double_vote E fv sv =
     (if cv_voter fv \<noteq> cv_voter sv then Inl DifferentVoters
      else if cv_height fv \<noteq> cv_height sv then Inl DifferentHeights
      else if cv_block_hash fv = cv_block_hash sv then Inl SameBlockHash
      else if verify_vote E fv \<noteq> Inr True then Inl InvalidFirstVote
      else if verify_vote E sv \<noteq> Inr True then Inl InvalidSecondVote
      else Inr \<lparr>first_vote = fv, second_vote = sv\<rparr>)"

definition slash_validator_for_double_vote ::
  "Validator \<Rightarrow> DoubleVoteProof \<Rightarrow> u16 \<Rightarrow> (Validator, SlashingError) result" where
  "slash_validator_for_double_vote validator proof penalty_bps =
     (if penalty_bps = 0 \<or> 10000 < penalty_bps then Inl InvalidPenaltyBps
      else if v_address validator \<noteq> cv_voter (first_vote proof) then Inl ValidatorDoesNotMatchProof
      else if v_stake validator = 0 then Inr validator
      else let computed_penalty = (ucast (v_stake validator) * ucast penalty_bps) div 10000 :: u128;
               penalty = ucast (min (max computed_penalty 1) (ucast (v_stake validator))) :: u64
           in Inr (validator\<lparr>v_stake := v_stake validator - penalty\<rparr>))"

section \<open>Stake of a set of addresses\<close>

definition active_stake :: "Validator list \<Rightarrow> nat" where
  "active_stake vs = sum_list (map (\<lambda>v. unat (v_stake v)) vs)"

definition weight :: "Validator list \<Rightarrow> bytes set \<Rightarrow> nat" where
  "weight vs A = sum_list (map (\<lambda>v. if v_address v \<in> A then unat (v_stake v) else 0) vs)"

definition distinct_active :: "Validator list \<Rightarrow> bool" where
  "distinct_active vs \<longleftrightarrow> distinct (map v_address (filter (\<lambda>v. v_stake v > 0) vs))"

lemma weight_empty [simp]: "weight vs {} = 0"
  by (induction vs) (simp_all add: weight_def)

lemma weight_insert: "a \<notin> A \<Longrightarrow> weight vs (insert a A) = weight vs {a} + weight vs A"
  by (induction vs) (auto simp: weight_def)

lemma weight_union: "weight vs A + weight vs B \<le> active_stake vs + weight vs (A \<inter> B)"
  by (induction vs) (auto simp: weight_def active_stake_def)

lemma weight_disjoint: "A \<inter> B = {} \<Longrightarrow> weight vs A + weight vs B \<le> active_stake vs"
  using weight_union [of vs A B] by simp

lemma weight_le: "weight vs A \<le> active_stake vs"
  using weight_disjoint [of A "{}"] by simp

text \<open>An inactive address has no weight; an active one has the stake the code looks up.\<close>

lemma weight_unknown:
  "\<forall>v \<in> set vs. \<not> (v_address v = a \<and> v_stake v > 0) \<Longrightarrow> weight vs {a} = 0"
proof -
  assume none: "\<forall>v \<in> set vs. \<not> (v_address v = a \<and> v_stake v > 0)"
  have "map (\<lambda>v. if v_address v \<in> {a} then unat (v_stake v) else 0) vs = map (\<lambda>v. 0) vs"
  proof (rule map_cong [OF refl])
    fix v assume "v \<in> set vs"
    with none have "v_address v \<noteq> a \<or> \<not> v_stake v > 0" by blast
    then show "(if v_address v \<in> {a} then unat (v_stake v) else 0) = 0"
      by (cases "v_address v = a") (simp_all only: insert_iff empty_iff word_not_pos if_True if_False simp_thms)
  qed
  then show ?thesis by (simp only: weight_def) simp
qed

lemma weight_validator_stake:
  "distinct_active vs \<Longrightarrow> validator_stake vs a = Some st \<Longrightarrow> weight vs {a} = unat st"
proof (induction vs)
  case Nil
  then show ?case by (simp add: validator_stake_def)
next
  case (Cons v vs)
  have head: "weight (v # vs) {a} = (if v_address v = a then unat (v_stake v) else 0) + weight vs {a}"
    by (simp add: weight_def)
  show ?case
  proof (cases "v_address v = a \<and> v_stake v > 0")
    case True
    then have "\<forall>u \<in> set vs. \<not> (v_address u = a \<and> v_stake u > 0)"
      using Cons.prems(1) by (auto simp: distinct_active_def image_iff)
    with True Cons.prems(2) head weight_unknown [of vs a] show ?thesis
      by (simp add: validator_stake_def)
  next
    case False
    then have "validator_stake vs a = Some st" and "distinct_active vs"
      using Cons.prems by (auto simp: validator_stake_def distinct_active_def split: if_splits)
    with Cons.IH False head show ?thesis by (auto simp: word_not_pos)
  qed
qed

lemma sum_active: "sum_list (map (\<lambda>v. unat (v_stake v)) (filter (\<lambda>v. v_stake v > 0) vs)) = active_stake vs"
  by (induction vs) (auto simp: active_stake_def word_not_pos)

lemma unat_total_active_stake:
  assumes "active_stake vs < 2 ^ 64"
  shows "unat (total_active_stake vs) = active_stake vs"
  unfolding total_active_stake_def
  using assms sum_active [of vs] unat_sum_list [of "map v_stake (filter (\<lambda>v. v_stake v > 0) vs)"]
  by (simp add: o_def)

lemma active_stake_simps [simp]:
  "active_stake [] = 0" "active_stake (v # vs) = unat (v_stake v) + active_stake vs"
  by (simp_all add: active_stake_def)

text \<open>Summed in 128 bits the stake of fewer than \<open>2 ^ 64\<close> validators does not wrap.\<close>

lemma stake_sum_u128:
  assumes "length vs < 2 ^ 64"
  shows "unat (sum_list (map (\<lambda>v. ucast (v_stake v)) vs) :: u128) = active_stake vs" (is ?eq)
    and "active_stake vs < 2 ^ 128"
proof -
  have "active_stake vs \<le> length vs * 2 ^ 64"
    unfolding active_stake_def
    using sum_list_mono [of vs "\<lambda>v. unat (v_stake v)" "\<lambda>_. 2 ^ 64"] unat_u64
    by (simp add: less_imp_le sum_list_triv)
  also have "\<dots> < 2 ^ 64 * 2 ^ 64" using assms by simp
  finally show bound: "active_stake vs < 2 ^ 128" by simp
  then show ?eq
    using unat_sum_list [of "map (\<lambda>v. ucast (v_stake v) :: u128) vs"]
    by (simp add: o_def unat_ucast_up active_stake_def)
qed

section \<open>Quorums\<close>

text \<open>
  What finality needs of a stake measure: two sets overlap in at least what they exceed the
  total by. Two two-thirds majorities then share more than a third.
\<close>

locale weighted_quorum =
  fixes wt :: "'v set \<Rightarrow> nat" and total :: nat
  assumes overlap: "wt A + wt B \<le> total + wt (A \<inter> B)"
begin

lemma quorum_intersection:
  "2 * total < 3 * wt A \<Longrightarrow> 2 * total < 3 * wt B \<Longrightarrow> total < 3 * wt (A \<inter> B)"
  using overlap [of A B] by linarith

end

interpretation stake: weighted_quorum "weight vs" "active_stake vs" for vs
  by unfold_locales (rule weight_union)

lemma u128_scale:
  fixes a :: u64
  assumes "k < 2 ^ 16"
  shows "unat ((ucast a :: u128) * of_nat k) = unat a * k"
proof -
  have "unat a < 2 ^ 64" using unsigned_less [of a] by simp
  with assms have "unat a * k < 2 ^ 64 * 2 ^ 16" by (intro mult_strict_mono) auto
  moreover have "unat (ucast a :: u128) = unat a" by (rule unat_ucast_up) simp
  moreover have "unat (of_nat k :: u128) = k"
    using assms by (simp add: unat_of_nat take_bit_nat_eq_self)
  ultimately show ?thesis by (simp add: unat_word_ariths)
qed

lemma is_block_finalized_iff:
  "is_block_finalized t vs \<longleftrightarrow>
   total_active_stake vs \<noteq> 0 \<and> 2 * unat (total_active_stake vs) < 3 * unat (approve_stake t)"
proof -
  have "(ucast (total_active_stake vs) :: u128) = 0 \<longleftrightarrow> total_active_stake vs = 0"
    using unat_ucast_up [where 'a = 64 and 'b = 128, of "total_active_stake vs"]
    by (simp flip: unat_eq_zero)
  then show ?thesis
    using u128_scale [of 2 "total_active_stake vs"] u128_scale [of 3 "approve_stake t"]
    by (simp add: is_block_finalized_def Let_def word_less_nat_alt mult.commute)
qed

lemma finalized_active:
  assumes "active_stake vs < 2 ^ 64" and "is_block_finalized t vs"
  shows "2 * active_stake vs < 3 * unat (approve_stake t)"
  using assms by (simp add: is_block_finalized_iff unat_total_active_stake)

section \<open>The collector\<close>

text \<open>
  The collector's invariant: one entry per voter, filed under the vote's own voter, with a
  valid signature, from a validator with positive stake.
\<close>

definition collector_inv :: "'z consensus_env_scheme \<Rightarrow> Validator list \<Rightarrow> VoteCollector \<Rightarrow> bool" where
  "collector_inv E vs c \<longleftrightarrow>
     distinct (map fst (votes_by_voter c)) \<and>
     (\<forall>(a, v) \<in> set (votes_by_voter c).
        a = cv_voter v \<and> verify_vote E v = Inr True \<and> validator_stake vs a \<noteq> None)"

definition approvers :: "VoteCollector \<Rightarrow> bytes set" where
  "approvers c = {a. \<exists>v. (a, v) \<in> set (votes_by_voter c) \<and> cv_approve v}"

definition rejecters :: "VoteCollector \<Rightarrow> bytes set" where
  "rejecters c = {a. \<exists>v. (a, v) \<in> set (votes_by_voter c) \<and> \<not> cv_approve v}"

lemma collector_inv_new: "collector_inv E vs VoteCollector_new"
  by (simp add: collector_inv_def VoteCollector_new_def)

text \<open>
  Collecting a vote succeeds exactly for a first, validly signed vote of a validator
  with positive stake; it adds exactly that vote and keeps the invariant.
\<close>

theorem collect_vote_iff:
  assumes "collector_inv E vs c"
  shows "collect_vote E c vote vs = Inr c' \<longleftrightarrow>
    validator_stake vs (cv_voter vote) \<noteq> None \<and> verify_vote E vote = Inr True \<and>
    cv_voter vote \<notin> fst ` set (votes_by_voter c) \<and>
    c' = c\<lparr>votes_by_voter := (cv_voter vote, vote) # votes_by_voter c\<rparr> \<and> collector_inv E vs c'"
  using assms
  by (auto simp: collect_vote_def result_simps has_voted_def map_of_eq_None_iff collector_inv_def
      split: if_splits)

definition sample_vote :: "u8 \<Rightarrow> bytes \<Rightarrow> ConsensusVote" where
  "sample_vote k hash = \<lparr>cv_height = 1, cv_block_hash = hash, cv_voter = replicate 32 k,
     cv_approve = True, cv_signature = replicate 32 k @ replicate 32 8\<rparr>"

definition sample_validators :: "Validator list" where
  "sample_validators = [\<lparr>v_address = replicate 32 1, v_stake = 40, v_locked_until = 100\<rparr>,
     \<lparr>v_address = replicate 32 2, v_stake = 35, v_locked_until = 200\<rparr>,
     \<lparr>v_address = replicate 32 3, v_stake = 25, v_locked_until = 300\<rparr>]"

definition sample_consensus_env :: consensus_env where
  "sample_consensus_env = env.extend sample_env
     \<lparr>bc_vote = field_codec cv_height (\<lambda>n. (sample_vote 0 [])\<lparr>cv_height := n, cv_signature := []\<rparr>)\<rparr>"

lemma sample_vote_verifies: "verify_vote sample_consensus_env (sample_vote k hash) = Inr True"
  by (simp add: verify_vote_def try_into_array_def unsigned_vote_bytes_def sample_vote_def
      sample_consensus_env_def sample_env_def env.extend_def env.defs field_codec_def sample_digest_def)

theorem collect_vote_iff_witness:
  "collector_inv sample_consensus_env sample_validators VoteCollector_new \<and>
   collect_vote sample_consensus_env VoteCollector_new (sample_vote 1 []) sample_validators =
     Inr \<lparr>votes_by_voter = [(replicate 32 1, sample_vote 1 [])]\<rparr> \<and>
   collector_inv sample_consensus_env sample_validators
     \<lparr>votes_by_voter = [(replicate 32 1, sample_vote 1 [])]\<rparr>"
proof -
  have voter: "cv_voter (sample_vote 1 []) = replicate 32 1" by (simp add: sample_vote_def)
  have run: "collect_vote sample_consensus_env VoteCollector_new (sample_vote 1 []) sample_validators =
      Inr \<lparr>votes_by_voter = [(replicate 32 1, sample_vote 1 [])]\<rparr>"
    by (simp add: collect_vote_def sample_vote_verifies has_voted_def VoteCollector_new_def voter
        validator_stake_def sample_validators_def)
  with collect_vote_iff [OF collector_inv_new] collector_inv_new show ?thesis by blast
qed

section \<open>The tally\<close>

definition vote_stake :: "Validator list \<Rightarrow> ConsensusVote \<Rightarrow> nat" where
  "vote_stake vs v = (case validator_stake vs (cv_voter v) of Some st \<Rightarrow> unat st | None \<Rightarrow> 0)"

definition side_stake :: "Validator list \<Rightarrow> bool \<Rightarrow> ConsensusVote list \<Rightarrow> nat" where
  "side_stake vs side votes = sum_list (map (vote_stake vs) (filter (\<lambda>v. cv_approve v = side) votes))"

lemma side_stake_simps [simp]:
  "side_stake vs side [] = 0"
  "side_stake vs side (v # votes) =
     (if cv_approve v = side then vote_stake vs v else 0) + side_stake vs side votes"
  by (simp_all add: side_stake_def)

lemma side_stake_perm: "mset votes = mset votes' \<Longrightarrow> side_stake vs side votes = side_stake vs side votes'"
proof -
  assume "mset votes = mset votes'"
  then have "mset (map (vote_stake vs) (filter (\<lambda>v. cv_approve v = side) votes)) =
      mset (map (vote_stake vs) (filter (\<lambda>v. cv_approve v = side) votes'))"
    by simp
  then show ?thesis
    unfolding side_stake_def sum_mset_sum_list [symmetric] by (simp only:)
qed

lemma tally_loop_sums:
  assumes "\<forall>v \<in> set votes. validator_stake vs (cv_voter v) \<noteq> None"
    and "unat (approve_stake t) + side_stake vs True votes < 2 ^ 64"
    and "unat (reject_stake t) + side_stake vs False votes < 2 ^ 64"
  shows "\<exists>t'. tally_loop vs t votes = Inr (Inr t') \<and>
    unat (approve_stake t') = unat (approve_stake t) + side_stake vs True votes \<and>
    unat (reject_stake t') = unat (reject_stake t) + side_stake vs False votes \<and>
    total_votes t' = total_votes t + length votes"
  using assms
proof (induction votes arbitrary: t)
  case (Cons v votes)
  obtain st where st: "validator_stake vs (cv_voter v) = Some st" using Cons.prems(1) by auto
  then have vst: "vote_stake vs v = unat st" by (simp add: vote_stake_def)
  show ?case
  proof (cases "cv_approve v")
    case True
    define s where "s = approve_stake t + st"
    have "checked_add (approve_stake t) st = Some s"
      using Cons.prems(2) True vst by (simp add: checked_add_def s_def)
    moreover from this have "unat s = unat (approve_stake t) + unat st"
      by (simp add: checked_add_Some_iff)
    ultimately show ?thesis
      using Cons.IH [of "t\<lparr>approve_stake := s, total_votes := total_votes t + 1\<rparr>"] Cons.prems True st vst
      by (simp add: add.assoc)
  next
    case False
    define s where "s = reject_stake t + st"
    have "checked_add (reject_stake t) st = Some s"
      using Cons.prems(3) False vst by (simp add: checked_add_def s_def)
    moreover from this have "unat s = unat (reject_stake t) + unat st"
      by (simp add: checked_add_Some_iff)
    ultimately show ?thesis
      using Cons.IH [of "t\<lparr>reject_stake := s, total_votes := total_votes t + 1\<rparr>"] Cons.prems False st vst
      by (simp add: add.assoc)
  qed
qed simp

text \<open>With one vote per voter the side's stake is the weight of its voters.\<close>

lemma side_stake_weight:
  assumes "distinct_active vs" and "distinct (map cv_voter votes)"
    and "\<forall>v \<in> set votes. validator_stake vs (cv_voter v) \<noteq> None"
  shows "side_stake vs side votes = weight vs (cv_voter ` {v \<in> set votes. cv_approve v = side})"
  using assms(2,3)
proof (induction votes)
  case (Cons v votes)
  let ?V = "cv_voter ` {u \<in> set votes. cv_approve u = side}"
  have IH: "side_stake vs side votes = weight vs ?V"
    using Cons.prems by (intro Cons.IH) simp_all
  have new: "cv_voter v \<notin> ?V"
    using Cons.prems(1) by auto
  obtain st where st: "validator_stake vs (cv_voter v) = Some st" using Cons.prems(2) by auto
  then have one: "vote_stake vs v = weight vs {cv_voter v}"
    using weight_validator_stake [OF assms(1) st] by (simp add: vote_stake_def)
  have step: "cv_voter ` {u \<in> set (v # votes). cv_approve u = side} =
      (if cv_approve v = side then insert (cv_voter v) ?V else ?V)" by auto
  show ?case
    unfolding side_stake_simps IH one step using weight_insert [OF new] by simp
qed simp

lemma collector_votes:
  assumes "collector_inv E vs c"
  shows "distinct (map cv_voter (map snd (votes_by_voter c)))"
    and "\<forall>v \<in> set (map snd (votes_by_voter c)). validator_stake vs (cv_voter v) \<noteq> None"
    and "cv_voter ` {v \<in> set (map snd (votes_by_voter c)). cv_approve v = True} = approvers c"
    and "cv_voter ` {v \<in> set (map snd (votes_by_voter c)). cv_approve v = False} = rejecters c"
proof -
  have key: "(a, v) \<in> set (votes_by_voter c) \<longleftrightarrow> a = cv_voter v \<and> v \<in> snd ` set (votes_by_voter c)" for a v
    using assms by (force simp: collector_inv_def)
  then have "map cv_voter (map snd (votes_by_voter c)) = map fst (votes_by_voter c)" by auto
  with assms show "distinct (map cv_voter (map snd (votes_by_voter c)))"
    by (simp only: collector_inv_def)
  show "\<forall>v \<in> set (map snd (votes_by_voter c)). validator_stake vs (cv_voter v) \<noteq> None"
    using assms by (auto simp: collector_inv_def)
  show "cv_voter ` {v \<in> set (map snd (votes_by_voter c)). cv_approve v = True} = approvers c"
    unfolding approvers_def key by auto
  show "cv_voter ` {v \<in> set (map snd (votes_by_voter c)). cv_approve v = False} = rejecters c"
    unfolding rejecters_def key by auto
qed

lemma approvers_rejecters_disjoint:
  assumes "collector_inv E vs c"
  shows "approvers c \<inter> rejecters c = {}"
proof -
  have "distinct (map fst (votes_by_voter c))" using assms by (simp add: collector_inv_def)
  then show ?thesis by (auto simp: approvers_def rejecters_def dest: eq_key_imp_eq_value)
qed

lemma collector_tally_weights:
  assumes "collector_inv E vs c" and "distinct_active vs" and "active_stake vs < 2 ^ 64"
  shows "\<exists>t. collector_tally c vs = Inr (Inr t) \<and>
    unat (approve_stake t) = weight vs (approvers c) \<and>
    unat (reject_stake t) = weight vs (rejecters c) \<and> total_votes t = collector_len c"
proof -
  let ?votes = "map snd (votes_by_voter c)"
  have side: "side_stake vs True ?votes = weight vs (approvers c)"
    "side_stake vs False ?votes = weight vs (rejecters c)"
    by (simp_all only: side_stake_weight [OF assms(2) collector_votes(1,2) [OF assms(1)]]
        collector_votes(3,4) [OF assms(1)])
  have "side_stake vs True ?votes < 2 ^ 64" "side_stake vs False ?votes < 2 ^ 64"
    unfolding side using weight_le [of vs] assms(3) by (meson le_less_trans)+
  then show ?thesis
    using tally_loop_sums [OF collector_votes(2) [OF assms(1)], of VoteTally_default] side
    by (auto simp: collector_tally_def VoteTally_default_def collector_len_def)
qed

end
