(* ===== verification/Finality.thy ===== *)
theory Finality
  imports Votes
begin

text \<open>
  What the vote collector, the finality rule, the fork choice and the slashing rule of
  \<open>src/src/consensus/mod.rs\<close> guarantee together: the tally is the stake of the two
  sides in whatever order the map is iterated, two finalised blocks at one height expose
  validators holding more than a third of the stake, the fork choice is a function of the
  set of forks, and slashing takes the documented share.
\<close>

section \<open>The tally\<close>

lemma VoteTally_eqI:
  fixes t u :: VoteTally
  assumes "unat (approve_stake t) = unat (approve_stake u)"
    and "unat (reject_stake t) = unat (reject_stake u)" and "total_votes t = total_votes u"
  shows "t = u"
  using assms by (auto intro: VoteTally.equality unat_inj)

lemma approvers_perm:
  "mset (votes_by_voter c') = mset (votes_by_voter c) \<Longrightarrow>
   approvers c' = approvers c \<and> rejecters c' = rejecters c \<and> collector_len c' = collector_len c"
  by (auto simp: approvers_def rejecters_def collector_len_def dest: mset_eq_setD mset_eq_length)

lemma collector_inv_perm:
  assumes "mset (votes_by_voter c') = mset (votes_by_voter c)" and "collector_inv E vs c"
  shows "collector_inv E vs c'"
proof -
  have "mset (map fst (votes_by_voter c')) = mset (map fst (votes_by_voter c))"
    using assms(1) by simp
  then have "distinct (map fst (votes_by_voter c')) = distinct (map fst (votes_by_voter c))"
    by (rule mset_eq_imp_distinct_iff)
  moreover have "set (votes_by_voter c') = set (votes_by_voter c)"
    using assms(1) by (rule mset_eq_setD)
  ultimately show ?thesis using assms(2) by (simp add: collector_inv_def)
qed

text \<open>
  C29. Tallying never panics and never fails on votes that were collected against the same
  validator set (distinct active addresses, total stake within 64 bits): the tally holds the
  stake of the approving and of the rejecting voters and the number of votes, and it is the
  same for every iteration order of the collector's map.
\<close>

theorem collector_tally_correct:
  assumes "collector_inv E vs c" and "distinct_active vs" and "active_stake vs < 2 ^ 64"
    and "mset (votes_by_voter c') = mset (votes_by_voter c)"
  shows "\<exists>t. collector_tally c vs = Inr (Inr t) \<and> collector_tally c' vs = Inr (Inr t) \<and>
    unat (approve_stake t) = weight vs (approvers c) \<and>
    unat (reject_stake t) = weight vs (rejecters c) \<and>
    unat (approve_stake t) + unat (reject_stake t) \<le> active_stake vs \<and>
    total_votes t = collector_len c"
proof -
  obtain t where t: "collector_tally c vs = Inr (Inr t)" "unat (approve_stake t) = weight vs (approvers c)"
    "unat (reject_stake t) = weight vs (rejecters c)" "total_votes t = collector_len c"
    using collector_tally_weights [OF assms(1-3)] by blast
  obtain u where u: "collector_tally c' vs = Inr (Inr u)" "unat (approve_stake u) = weight vs (approvers c')"
    "unat (reject_stake u) = weight vs (rejecters c')" "total_votes u = collector_len c'"
    using collector_tally_weights [OF collector_inv_perm [OF assms(4,1)] assms(2,3)] by blast
  have "u = t" by (rule VoteTally_eqI) (simp_all add: t u approvers_perm [OF assms(4)])
  moreover have "weight vs (approvers c) + weight vs (rejecters c) \<le> active_stake vs"
    by (rule weight_disjoint [OF approvers_rejecters_disjoint [OF assms(1)]])
  ultimately show ?thesis using t u by auto
qed

definition sample_collector :: "bytes \<Rightarrow> u8 list \<Rightarrow> VoteCollector" where
  "sample_collector hash ks = \<lparr>votes_by_voter = map (\<lambda>k. (replicate 32 k, sample_vote k hash)) ks\<rparr>"

lemma sample_collector_inv:
  "collector_inv sample_consensus_env sample_validators (sample_collector hash [2, 1])"
  "collector_inv sample_consensus_env sample_validators (sample_collector hash [1, 2])"
  by (simp_all add: collector_inv_def sample_collector_def sample_vote_verifies)
    (simp_all add: sample_vote_def validator_stake_def sample_validators_def)

lemma sample_validators_distinct: "distinct_active sample_validators" "active_stake sample_validators = 100"
  by (simp_all add: distinct_active_def active_stake_def sample_validators_def)

lemma sample_collector_tally:
  "collector_tally (sample_collector hash [2, 1]) sample_validators =
     Inr (Inr \<lparr>approve_stake = 75, reject_stake = 0, total_votes = 2\<rparr>)"
  by (simp add: collector_tally_def sample_collector_def sample_vote_def validator_stake_def
      sample_validators_def VoteTally_default_def checked_add_def)

theorem collector_tally_correct_witness:
  "collector_tally (sample_collector [] [1, 2]) sample_validators =
     collector_tally (sample_collector [] [2, 1]) sample_validators \<and>
   weight sample_validators (approvers (sample_collector [] [2, 1])) = 75"
  using collector_tally_correct [OF sample_collector_inv(1) [of "[]"] sample_validators_distinct(1), of "sample_collector [] [1, 2]"]
    sample_collector_tally [of "[]"]
  by (auto simp: sample_validators_distinct sample_collector_def)

section \<open>Finality\<close>

text \<open>Every voter on both sides of a conflict is caught by the double-vote check.\<close>

definition votes_for :: "u64 \<Rightarrow> bytes \<Rightarrow> VoteCollector \<Rightarrow> bool" where
  "votes_for height hash c \<longleftrightarrow>
     (\<forall>v \<in> snd ` set (votes_by_voter c). cv_height v = height \<and> cv_block_hash v = hash)"

lemma conflicting_approvals_detected:
  assumes "collector_inv E vs c1" and "collector_inv E vs c2"
    and "votes_for h x c1" and "votes_for h y c2" and "x \<noteq> y"
    and "(a, v) \<in> set (votes_by_voter c1)" and "(a, w) \<in> set (votes_by_voter c2)"
  shows "detect_double_vote E v w = Inr \<lparr>first_vote = v, second_vote = w\<rparr>"
proof -
  have "cv_voter v = a" "verify_vote E v = Inr True" using assms(1,6) by (auto simp: collector_inv_def)
  moreover have "cv_voter w = a" "verify_vote E w = Inr True" using assms(2,7) by (auto simp: collector_inv_def)
  moreover have "cv_height v = h \<and> cv_block_hash v = x"
    using assms(3,6) by (force simp: votes_for_def)
  moreover have "cv_height w = h \<and> cv_block_hash w = y"
    using assms(4,7) by (force simp: votes_for_def)
  ultimately show ?thesis using assms(5) by (simp add: detect_double_vote_def)
qed

text \<open>
  C2. Accountable safety: if two different blocks are finalised at the same height against
  the same validator set, then there is a set of validators holding more than a third of the
  total stake each of whom signed both sides, and \<open>detect_double_vote\<close> accepts the pair
  of votes of every one of them as a slashing proof.
\<close>

theorem accountable_safety:
  assumes "collector_inv E vs c1" and "collector_inv E vs c2"
    and "distinct_active vs" and "active_stake vs < 2 ^ 64"
    and "votes_for h x c1" and "votes_for h y c2" and "x \<noteq> y"
    and "collector_tally c1 vs = Inr (Inr t1)" and "is_block_finalized t1 vs"
    and "collector_tally c2 vs = Inr (Inr t2)" and "is_block_finalized t2 vs"
  shows "\<exists>A. active_stake vs < 3 * weight vs A \<and>
    (\<forall>a \<in> A. \<exists>v w. (a, v) \<in> set (votes_by_voter c1) \<and> (a, w) \<in> set (votes_by_voter c2) \<and>
       detect_double_vote E v w = Inr \<lparr>first_vote = v, second_vote = w\<rparr>)"
proof (rule exI [of _ "approvers c1 \<inter> approvers c2"], intro conjI ballI)
  have "unat (approve_stake t1) = weight vs (approvers c1)"
    using collector_tally_weights [OF assms(1,3,4)] assms(8) by auto
  moreover have "unat (approve_stake t2) = weight vs (approvers c2)"
    using collector_tally_weights [OF assms(2,3,4)] assms(10) by auto
  ultimately show "active_stake vs < 3 * weight vs (approvers c1 \<inter> approvers c2)"
    using stake.quorum_intersection finalized_active [OF assms(4,9)] finalized_active [OF assms(4,11)]
    by metis
next
  fix a assume "a \<in> approvers c1 \<inter> approvers c2"
  then obtain v w where vw: "(a, v) \<in> set (votes_by_voter c1)" "(a, w) \<in> set (votes_by_voter c2)"
    by (auto simp: approvers_def)
  have "detect_double_vote E v w = Inr \<lparr>first_vote = v, second_vote = w\<rparr>"
    by (rule conflicting_approvals_detected [OF assms(1,2,5-7) vw])
  with vw show "\<exists>v w. (a, v) \<in> set (votes_by_voter c1) \<and> (a, w) \<in> set (votes_by_voter c2) \<and>
       detect_double_vote E v w = Inr \<lparr>first_vote = v, second_vote = w\<rparr>" by blast
qed

lemma sample_finalized:
  "is_block_finalized \<lparr>approve_stake = 75, reject_stake = 0, total_votes = 2\<rparr> sample_validators"
  by (simp add: is_block_finalized_iff total_active_stake_def sample_validators_def)

theorem accountable_safety_witness:
  "is_block_finalized \<lparr>approve_stake = 75, reject_stake = 0, total_votes = 2\<rparr> sample_validators \<and>
   (\<exists>A. 100 < 3 * weight sample_validators A \<and>
    (\<forall>a \<in> A. \<exists>v w. (a, v) \<in> set (votes_by_voter (sample_collector [7] [2, 1])) \<and>
       (a, w) \<in> set (votes_by_voter (sample_collector [8] [2, 1])) \<and>
       detect_double_vote sample_consensus_env v w = Inr \<lparr>first_vote = v, second_vote = w\<rparr>))"
proof -
  have one: "votes_for 1 hash (sample_collector hash [2, 1])" for hash
    by (simp add: votes_for_def sample_collector_def sample_vote_def)
  have small: "active_stake sample_validators < 2 ^ 64" by (simp add: sample_validators_distinct)
  have differ: "[7] \<noteq> ([8] :: bytes)" by simp
  from accountable_safety [OF sample_collector_inv(1) sample_collector_inv(1)
    sample_validators_distinct(1) small one one differ
    sample_collector_tally sample_finalized sample_collector_tally sample_finalized]
  show ?thesis by (simp add: sample_validators_distinct sample_finalized)
qed

text \<open>
  \<open>total_active_stake\<close> adds the stakes in 64 bits: with wrapping release
  arithmetic there is a validator set in which a single validator with one of more than
  \<open>2 ^ 64\<close> units of stake finalises a block alone.
\<close>

theorem finality_total_wraps:
  "\<exists>vs t. distinct_active vs \<and> approve_stake t = 1 \<and> (\<exists>v \<in> set vs. v_stake v = 1) \<and>
     2 ^ 64 < active_stake vs \<and> is_block_finalized t vs"
proof -
  let ?vs = "[\<lparr>v_address = [1], v_stake = 2 ^ 63, v_locked_until = 0\<rparr>,
     \<lparr>v_address = [2], v_stake = 2 ^ 63, v_locked_until = 0\<rparr>,
     \<lparr>v_address = [3], v_stake = 1, v_locked_until = 0\<rparr>]"
  have "distinct_active ?vs" "2 ^ 64 < active_stake ?vs"
    by (simp_all add: distinct_active_def active_stake_def)
  moreover have "total_active_stake ?vs = 1"
    by (simp add: total_active_stake_def)
  then have "is_block_finalized \<lparr>approve_stake = 1, reject_stake = 0, total_votes = 1\<rparr> ?vs"
    by (simp add: is_block_finalized_iff)
  ultimately show ?thesis
    by (intro exI [of _ ?vs] exI [of _ "\<lparr>approve_stake = 1, reject_stake = 0, total_votes = 1\<rparr>"]) simp
qed

text \<open>
  A collector does not ask which block a vote is for: votes of two validators for two
  different blocks are collected side by side, and their joint stake passes the finality rule
  although neither block has two thirds of the stake.
\<close>

theorem collector_mixes_blocks:
  "\<exists>c1 c2 t. collect_vote sample_consensus_env VoteCollector_new (sample_vote 1 [7]) sample_validators = Inr c1 \<and>
     collect_vote sample_consensus_env c1 (sample_vote 2 [8]) sample_validators = Inr c2 \<and>
     collector_tally c2 sample_validators = Inr (Inr t) \<and> is_block_finalized t sample_validators \<and>
     (\<forall>hash. 3 * weight sample_validators
        {a. \<exists>v. (a, v) \<in> set (votes_by_voter c2) \<and> cv_block_hash v = hash} < 2 * active_stake sample_validators)"
proof -
  let ?c1 = "\<lparr>votes_by_voter = [(replicate 32 1, sample_vote 1 [7])]\<rparr>"
  let ?c2 = "\<lparr>votes_by_voter = [(replicate 32 2, sample_vote 2 [8]), (replicate 32 1, sample_vote 1 [7])]\<rparr>"
  let ?t = "\<lparr>approve_stake = 75, reject_stake = 0, total_votes = 2\<rparr>"
  have voter: "cv_voter (sample_vote k hash) = replicate 32 k" "cv_block_hash (sample_vote k hash) = hash" for k hash
    by (simp_all add: sample_vote_def)
  have "collect_vote sample_consensus_env VoteCollector_new (sample_vote 1 [7]) sample_validators = Inr ?c1"
    "collect_vote sample_consensus_env ?c1 (sample_vote 2 [8]) sample_validators = Inr ?c2"
    by (simp_all add: collect_vote_def sample_vote_verifies has_voted_def VoteCollector_new_def voter
        validator_stake_def sample_validators_def)
  moreover have "collector_tally ?c2 sample_validators = Inr (Inr ?t)"
    by (simp add: collector_tally_def sample_vote_def validator_stake_def
        sample_validators_def VoteTally_default_def checked_add_def)
  moreover have "3 * weight sample_validators
      {a. \<exists>v. (a, v) \<in> set (votes_by_voter ?c2) \<and> cv_block_hash v = hash} < 2 * active_stake sample_validators" for hash
    by (cases "hash = [7]"; cases "hash = [8]")
      (simp_all add: weight_def sample_validators_def active_stake_def voter)
  ultimately show ?thesis using sample_finalized by blast
qed

section \<open>Signed votes\<close>

lemma create_signed_vote_verifies:
  assumes "ed25519_spec E" and "length sk = 32"
    and "create_signed_vote E h x approve sk = Inr v"
  shows "verify_vote E v = Inr True \<and> cv_voter v = signing_public E sk \<and> cv_height v = h \<and>
    cv_block_hash v = x \<and> cv_approve v = approve"
proof -
  let ?u = "\<lparr>cv_height = h, cv_block_hash = x, cv_voter = signing_public E sk,
      cv_approve = approve, cv_signature = []\<rparr>"
  obtain m where m: "unsigned_vote_bytes E ?u = Inr m" "v = ?u\<lparr>cv_signature := signing_sign E sk m\<rparr>"
    using assms(3) by (auto simp: create_signed_vote_def result_simps)
  then have "unsigned_vote_bytes E v = Inr m" by (simp add: unsigned_vote_bytes_def)
  with m assms(1,2) show ?thesis by (simp add: verify_vote_def ed25519_spec_def try_into_array_def)
qed

text \<open>
  A vote made by \<open>create_signed_vote\<close> is collected when its signer is an active
  validator that has not voted yet, and a second vote of the same signer is then refused as
  a duplicate; if the two votes name different blocks at one height, they are a double-vote
  proof, whatever their \<open>approve\<close> flags.
\<close>

theorem signed_vote_lifecycle:
  assumes "ed25519_spec E" and "length sk = 32"
    and "create_signed_vote E h x b1 sk = Inr v" and "create_signed_vote E h y b2 sk = Inr w"
    and "validator_stake vs (signing_public E sk) \<noteq> None"
    and "\<not> has_voted c (signing_public E sk)"
  shows "collect_vote E c v vs =
      Inr (c\<lparr>votes_by_voter := (signing_public E sk, v) # votes_by_voter c\<rparr>) \<and>
    collect_vote E (c\<lparr>votes_by_voter := (signing_public E sk, v) # votes_by_voter c\<rparr>) w vs = Inl DuplicateVote \<and>
    detect_double_vote E v w = (if x = y then Inl SameBlockHash else Inr \<lparr>first_vote = v, second_vote = w\<rparr>)"
  using create_signed_vote_verifies [OF assms(1-3)] create_signed_vote_verifies [OF assms(1,2,4)] assms(5,6)
  by (simp add: collect_vote_def has_voted_def detect_double_vote_def)

theorem signed_vote_lifecycle_witness:
  "detect_double_vote sample_consensus_env
     ((sample_vote 1 [7])\<lparr>cv_approve := False\<rparr>) (sample_vote 1 [8]) =
     Inr \<lparr>first_vote = (sample_vote 1 [7])\<lparr>cv_approve := False\<rparr>, second_vote = sample_vote 1 [8]\<rparr>"
proof -
  let ?E = sample_consensus_env
  have spec: "ed25519_spec ?E"
    using sample_env_ed25519
    by (simp add: ed25519_spec_def sample_consensus_env_def env.extend_def sample_env_def)
  have pub: "signing_public ?E sk = sk" for sk
    by (simp add: sample_consensus_env_def env.extend_def sample_env_def env.defs)
  have v: "create_signed_vote ?E 1 [7] False (replicate 32 1) = Inr ((sample_vote 1 [7])\<lparr>cv_approve := False\<rparr>)"
    "create_signed_vote ?E 1 [8] True (replicate 32 1) = Inr (sample_vote 1 [8])"
    by (simp_all add: create_signed_vote_def unsigned_vote_bytes_def sample_vote_def pub Let_def)
      (simp_all add: sample_consensus_env_def env.extend_def sample_env_def env.defs field_codec_def sample_digest_def)
  have known: "validator_stake sample_validators (signing_public ?E (replicate 32 1)) \<noteq> None"
    by (simp add: pub validator_stake_def sample_validators_def)
  have fresh: "\<not> has_voted VoteCollector_new (signing_public ?E (replicate 32 1))"
    by (simp add: has_voted_def VoteCollector_new_def)
  from signed_vote_lifecycle [OF spec _ v known fresh] show ?thesis by simp
qed

section \<open>Fork choice\<close>

lemma fork_key_inj: "fork_key f = fork_key g \<Longrightarrow> f = (g :: ChainFork)"
  by (auto simp: fork_key_def intro: ChainFork.equality)

lemma foldl_max:
  fixes f :: "'a \<Rightarrow> 'k::linorder"
  shows "foldl (\<lambda>best y. if f y < f best then best else y) x xs \<in> set (x # xs) \<and>
    (\<forall>y \<in> set (x # xs). f y \<le> f (foldl (\<lambda>best y. if f y < f best then best else y) x xs))"
proof (induction xs arbitrary: x)
  case (Cons z zs)
  show ?case
  proof (cases "f z < f x")
    case True
    with Cons.IH [of x] show ?thesis by (auto intro: order.trans less_imp_le)
  next
    case False
    with Cons.IH [of z] show ?thesis by (auto intro: order.trans)
  qed
qed simp

lemma max_by_key_Some:
  "max_by_key f xs = Some m \<Longrightarrow> m \<in> set xs \<and> (\<forall>y \<in> set xs. f y \<le> f m)"
proof (cases xs)
  case (Cons x zs)
  assume "max_by_key f xs = Some m"
  with Cons have "m = foldl (\<lambda>best y. if f y < f best then best else y) x zs" by simp
  with Cons foldl_max [of f x zs] show ?thesis by metis
qed simp

text \<open>
  C30. The fork choice returns exactly the fork with the lexicographically largest
  (weight, height, tip hash); it exists as soon as there is a fork, and it depends only on the
  set of forks, so nodes that saw the forks in different orders agree.
\<close>

theorem choose_heaviest_chain_iff:
  assumes "set forks' = set forks"
  shows "choose_heaviest_chain forks' = choose_heaviest_chain forks \<and>
    (choose_heaviest_chain forks = None \<longleftrightarrow> forks = []) \<and>
    (choose_heaviest_chain forks = Some f \<longleftrightarrow>
       f \<in> set forks \<and> (\<forall>g \<in> set forks. fork_key g \<le> fork_key f))"
proof -
  have iff: "choose_heaviest_chain fs = Some f \<longleftrightarrow> f \<in> set fs \<and> (\<forall>g \<in> set fs. fork_key g \<le> fork_key f)" for fs f
  proof
    assume "choose_heaviest_chain fs = Some f"
    then show "f \<in> set fs \<and> (\<forall>g \<in> set fs. fork_key g \<le> fork_key f)"
      unfolding choose_heaviest_chain_def by (rule max_by_key_Some)
  next
    assume top: "f \<in> set fs \<and> (\<forall>g \<in> set fs. fork_key g \<le> fork_key f)"
    then obtain m where m: "choose_heaviest_chain fs = Some m"
      by (cases fs) (auto simp: choose_heaviest_chain_def)
    then have "m \<in> set fs \<and> (\<forall>g \<in> set fs. fork_key g \<le> fork_key m)"
      unfolding choose_heaviest_chain_def by (rule max_by_key_Some)
    with top have "fork_key m = fork_key f" by (meson order.antisym)
    with m show "choose_heaviest_chain fs = Some f" using fork_key_inj by simp
  qed
  have "choose_heaviest_chain fs = None \<longleftrightarrow> fs = []" for fs
    by (cases fs) (simp_all add: choose_heaviest_chain_def)
  moreover have "choose_heaviest_chain forks' = choose_heaviest_chain forks"
  proof (rule option.expand)
    show "(choose_heaviest_chain forks' = None) = (choose_heaviest_chain forks = None)"
      using calculation assms by (metis set_empty2)
    assume "choose_heaviest_chain forks' \<noteq> None" "choose_heaviest_chain forks \<noteq> None"
    then obtain a b where ab: "choose_heaviest_chain forks' = Some a" "choose_heaviest_chain forks = Some b" by blast
    with iff [of forks' a] have "choose_heaviest_chain forks = Some a" unfolding assms iff by simp
    with ab show "the (choose_heaviest_chain forks') = the (choose_heaviest_chain forks)" by simp
  qed
  ultimately show ?thesis by (simp only: iff simp_thms)
qed

theorem choose_heaviest_chain_iff_witness:
  "choose_heaviest_chain
     [\<lparr>tip_hash = [2], fork_height = 5, cumulative_stake_weight = 9\<rparr>,
      \<lparr>tip_hash = [1], fork_height = 6, cumulative_stake_weight = 9\<rparr>] =
   choose_heaviest_chain
     [\<lparr>tip_hash = [1], fork_height = 6, cumulative_stake_weight = 9\<rparr>,
      \<lparr>tip_hash = [2], fork_height = 5, cumulative_stake_weight = 9\<rparr>] \<and>
   choose_heaviest_chain
     [\<lparr>tip_hash = [2], fork_height = 5, cumulative_stake_weight = 9\<rparr>,
      \<lparr>tip_hash = [1], fork_height = 6, cumulative_stake_weight = 9\<rparr>] =
   Some \<lparr>tip_hash = [1], fork_height = 6, cumulative_stake_weight = 9\<rparr>"
proof -
  let ?f = "\<lparr>tip_hash = [2], fork_height = 5, cumulative_stake_weight = 9\<rparr>"
  let ?g = "\<lparr>tip_hash = [1], fork_height = 6, cumulative_stake_weight = 9\<rparr>"
  have "set [?f, ?g] = set [?g, ?f]" by auto
  from choose_heaviest_chain_iff [OF this, of ?g] show ?thesis
    by (auto simp: fork_key_def less_eq_prod_def)
qed

section \<open>Slashing\<close>

text \<open>
  C31. Slashing a validator named by the proof takes
  \<open>max 1 (stake * bps div 10000)\<close> from its stake and nothing else: the stake
  strictly drops, and falls to zero exactly at 10000 basis points or a stake of one. Outside
  1 to 10000 basis points, or for another validator, it is refused.
\<close>

theorem slash_validator_correct:
  assumes "v_stake validator \<noteq> 0"
  shows "slash_validator_for_double_vote validator pf bps =
    (if bps = 0 \<or> 10000 < bps then Inl InvalidPenaltyBps
     else if v_address validator \<noteq> cv_voter (first_vote pf) then Inl ValidatorDoesNotMatchProof
     else Inr (validator\<lparr>v_stake := of_nat (unat (v_stake validator) -
       max 1 (unat (v_stake validator) * unat bps div 10000))\<rparr>))"
proof (cases "bps = 0 \<or> 10000 < bps")
  case False
  let ?s = "v_stake validator"
  let ?p = "max 1 (unat ?s * unat bps div 10000)"
  have bps: "unat bps \<le> 10000" using False by (simp add: word_less_nat_alt)
  have pos: "0 < unat ?s" using assms by (simp add: unat_gt_0)
  have "unat ?s * unat bps div 10000 \<le> unat ?s * 10000 div 10000"
    using bps by (intro div_le_mono mult_le_mono) simp_all
  then have p: "?p \<le> unat ?s" using pos by simp
  have su: "unat (ucast ?s :: u128) = unat ?s" by (rule unat_ucast_up) simp
  have bu: "(ucast bps :: u128) = of_nat (unat bps)"
    by (rule word_eq_of_nat, rule unat_ucast_up) simp
  have "unat ((ucast ?s :: u128) * ucast bps) = unat ?s * unat bps"
    unfolding bu by (rule u128_scale) (use unsigned_less [of bps] in simp)
  then have d: "unat ((ucast ?s * ucast bps) div 10000 :: u128) = unat ?s * unat bps div 10000"
    by (simp add: unat_div)
  have m: "unat (min (max ((ucast ?s * ucast bps) div 10000) 1) (ucast ?s) :: u128) = ?p"
    unfolding unat_min unat_max d su using p by simp
  have "unat (ucast (min (max ((ucast ?s * ucast bps) div 10000) 1) (ucast ?s) :: u128) :: u64) = ?p"
  proof -
    have "?p < 2 ^ 64" using p unat_u64 [of ?s] by linarith
    then show ?thesis unfolding unsigned_ucast_eq m by (simp add: take_bit_nat_eq_self)
  qed
  then have "ucast (min (max ((ucast ?s * ucast bps) div 10000) 1) (ucast ?s) :: u128) = (of_nat ?p :: u64)"
    by (rule word_eq_of_nat)
  then show ?thesis using False assms p by (simp add: slash_validator_for_double_vote_def Let_def of_nat_diff)
qed (auto simp: slash_validator_for_double_vote_def)

theorem slash_validator_correct_witness:
  "slash_validator_for_double_vote \<lparr>v_address = replicate 32 1, v_stake = 199, v_locked_until = 5\<rparr>
     \<lparr>first_vote = sample_vote 1 [7], second_vote = sample_vote 1 [8]\<rparr> 500 =
   Inr \<lparr>v_address = replicate 32 1, v_stake = 190, v_locked_until = 5\<rparr>"
  using slash_validator_correct [of "\<lparr>v_address = replicate 32 1, v_stake = 199, v_locked_until = 5\<rparr>"
      "\<lparr>first_vote = sample_vote 1 [7], second_vote = sample_vote 1 [8]\<rparr>" 500]
  by (simp add: sample_vote_def)

end
