(* ===== verification/Rewards.thy ===== *)
theory Rewards
  imports Votes
begin

text \<open>
  Fees, inflation and the distribution of voting rewards
  (\<open>src/src/consensus/mod.rs\<close>, lines 491 to 579). The reward pool is split in
  proportion to stake with integer division; the units lost to rounding go to the first
  participants in address order. The theory shows that the split neither creates nor loses
  a unit.
\<close>

definition ANNUAL_INFLATION_BPS :: u64 where
  "ANNUAL_INFLATION_BPS = 200"

definition SECONDS_PER_YEAR :: u64 where
  "SECONDS_PER_YEAR = 31536000"

record ValidatorReward =
  vr_validator :: bytes
  vr_amount :: u64

datatype RewardError =
    FeeOverflow
  | RewardOverflow
  | NoVotingStake

definition total_transaction_fees :: "Transaction list \<Rightarrow> (u64, RewardError) result" where
  "total_transaction_fees transactions =
     try_fold (\<lambda>acc t. ok_or FeeOverflow (checked_add acc (tx_fee t))) 0 transactions"

definition annualized_inflation_reward :: "u64 \<Rightarrow> u64 \<Rightarrow> u64" where
  "annualized_inflation_reward total_stake elapsed_secs =
     (if total_stake = 0 \<or> elapsed_secs = 0 then 0
      else ucast ((ucast total_stake * ucast ANNUAL_INFLATION_BPS * ucast elapsed_secs :: u128)
             div 10000 div ucast SECONDS_PER_YEAR))"

text \<open>The first loop: the running total and the rewards in order.\<close>

fun distribute_loop :: "u64 \<Rightarrow> u128 \<Rightarrow> u64 \<Rightarrow> Validator list
    \<Rightarrow> (u64 \<times> ValidatorReward list, RewardError) result" where
  "distribute_loop reward_pool voting_stake distributed [] = Inr (distributed, [])"
| "distribute_loop reward_pool voting_stake distributed (v # vs) =
     (let amount = ucast ((ucast reward_pool * ucast (v_stake v) :: u128) div voting_stake) in
      and_then (ok_or RewardOverflow (checked_add distributed amount)) (\<lambda>distributed'.
      and_then (distribute_loop reward_pool voting_stake distributed' vs) (\<lambda>(d, rewards).
        Inr (d, \<lparr>vr_validator = v_address v, vr_amount = amount\<rparr> # rewards))))"

text \<open>The second loop: \<open>rewards.iter_mut().take(n)\<close>, one unit each.\<close>

fun bump_first :: "nat \<Rightarrow> ValidatorReward list \<Rightarrow> ValidatorReward list" where
  "bump_first (Suc n) (r # rs) = r\<lparr>vr_amount := vr_amount r + 1\<rparr> # bump_first n rs"
| "bump_first n rs = rs"

definition reward_participants :: "Validator list \<Rightarrow> VoteCollector \<Rightarrow> Validator list" where
  "reward_participants validators collector =
     sort_key v_address (filter (\<lambda>v. v_stake v > 0 \<and> has_voted collector (v_address v)) validators)"

definition distribute_voting_rewards :: "Validator list \<Rightarrow> VoteCollector \<Rightarrow> Transaction list \<Rightarrow> u64
    \<Rightarrow> (ValidatorReward list, RewardError) result" where
  "distribute_voting_rewards validators collector transactions elapsed_secs =
     and_then (total_transaction_fees transactions) (\<lambda>fees.
     let inflation = annualized_inflation_reward (total_active_stake validators) elapsed_secs in
     and_then (ok_or RewardOverflow (checked_add fees inflation)) (\<lambda>reward_pool.
     let participants = reward_participants validators collector;
         voting_stake = sum_list (map (\<lambda>v. ucast (v_stake v)) participants) :: u128 in
     if voting_stake = 0 then Inl NoVotingStake else
     and_then (distribute_loop reward_pool voting_stake 0 participants) (\<lambda>(distributed, rewards).
     let remainder = reward_pool - distributed in
       Inr (bump_first (unat remainder) rewards))))"

section \<open>Fees and inflation\<close>

lemma total_transaction_fees_from:
  "try_fold (\<lambda>acc t. ok_or FeeOverflow (checked_add acc (tx_fee t))) acc ts =
   (let s = unat acc + sum_list (map (\<lambda>t. unat (tx_fee t)) ts)
    in if s < 2 ^ 64 then Inr (of_nat s) else Inl FeeOverflow)"
proof (induction ts arbitrary: acc)
  case Nil
  then show ?case using unat_u64 [of acc] by simp
next
  case (Cons t ts)
  show ?case
  proof (cases "checked_add acc (tx_fee t)")
    case None
    moreover from this have "2 ^ 64 \<le> unat acc + unat (tx_fee t)" by (simp add: checked_add_None_iff)
    ultimately show ?thesis by simp
  next
    case (Some b)
    then have "unat b = unat acc + unat (tx_fee t)" by (simp add: checked_add_Some_iff)
    with Some Cons.IH [of b] show ?thesis by (simp add: Let_def add.assoc)
  qed
qed

text \<open>
  The fee total is the exact sum of the fees, or \<open>FeeOverflow\<close> precisely when
  that sum does not fit 64 bits; it never wraps.
\<close>

theorem total_transaction_fees_exact:
  "total_transaction_fees ts =
   (if sum_list (map (\<lambda>t. unat (tx_fee t)) ts) < 2 ^ 64
    then Inr (of_nat (sum_list (map (\<lambda>t. unat (tx_fee t)) ts))) else Inl FeeOverflow)"
  by (simp add: total_transaction_fees_def total_transaction_fees_from Let_def)

text \<open>
  Over at most one year the inflation reward is exactly the floor of two per cent of
  the stake, pro rata: the 128-bit product does not overflow and the cast back to 64 bits
  does not truncate. It is at most a fiftieth of the stake.
\<close>

theorem annualized_inflation_exact:
  assumes "unat elapsed \<le> 31536000"
  shows "unat (annualized_inflation_reward stake elapsed) =
      unat stake * 200 * unat elapsed div (10000 * 31536000) \<and>
    unat (annualized_inflation_reward stake elapsed) \<le> unat stake div 50"
proof (cases "stake = 0 \<or> elapsed = 0")
  case False
  let ?p = "ucast stake * ucast ANNUAL_INFLATION_BPS * ucast elapsed :: u128"
  have s: "unat (ucast stake :: u128) = unat stake" by (rule unat_ucast_up) simp
  have e: "unat (ucast elapsed :: u128) = unat elapsed" by (rule unat_ucast_up) simp
  have i: "(ucast ANNUAL_INFLATION_BPS :: u128) = 200" "(ucast SECONDS_PER_YEAR :: u128) = 31536000"
    by (simp_all add: ANNUAL_INFLATION_BPS_def SECONDS_PER_YEAR_def)
  have small: "unat stake * 200 < 2 ^ 72" using unat_u64 [of stake] by simp
  then have le: "unat stake * 200 * unat elapsed < 2 ^ 72 * 31536001"
    using assms by (intro mult_strict_mono) auto
  have "unat ?p = unat stake * 200 * unat elapsed"
    unfolding i using small le by (simp add: unat_word_ariths s e)
  then have q: "unat (?p div 10000 div ucast SECONDS_PER_YEAR) =
      unat stake * 200 * unat elapsed div (10000 * 31536000)"
    unfolding i by (simp add: unat_div div_mult2_eq)
  have b: "unat stake * 200 * unat elapsed div (10000 * 31536000) \<le> unat stake div 50"
  proof -
    have "unat stake * 200 * unat elapsed div (10000 * 31536000)
        \<le> unat stake * 200 * 31536000 div (10000 * 31536000)"
      using assms by (intro div_le_mono mult_le_mono) simp_all
    also have "\<dots> = unat stake div 50" by simp
    finally show ?thesis .
  qed
  have "unat (ucast (?p div 10000 div ucast SECONDS_PER_YEAR) :: u64) =
      unat stake * 200 * unat elapsed div (10000 * 31536000)"
    unfolding q [symmetric]
  proof (rule unat_ucast_down)
    have "unat stake div 50 < 2 ^ 64" using unat_u64 [of stake] by linarith
    with b show "unat (?p div 10000 div ucast SECONDS_PER_YEAR) < 2 ^ LENGTH(64)"
      unfolding q by simp
  qed
  with b False show ?thesis by (simp add: annualized_inflation_reward_def)
qed (auto simp: annualized_inflation_reward_def)

theorem annualized_inflation_exact_witness:
  "unat (annualized_inflation_reward 1000 15768000) = 10"
proof -
  have "unat (15768000 :: u64) \<le> 31536000" by simp
  from annualized_inflation_exact [OF this, of 1000] show ?thesis by simp
qed

section \<open>Distribution\<close>

text \<open>
  The reference: the share of a stake is the floor of its part of the pool. Floors add up to
  at most the pool and miss it by less than one unit per participant.
\<close>

definition reward_share :: "nat \<Rightarrow> nat \<Rightarrow> Validator \<Rightarrow> nat" where
  "reward_share pool voting v = pool * unat (v_stake v) div voting"

lemma floors_scaled:
  fixes f :: "'a \<Rightarrow> nat"
  assumes "0 < S"
  shows "S * (\<Sum>x\<leftarrow>xs. P * f x div S) \<le> P * (\<Sum>x\<leftarrow>xs. f x) \<and>
    (xs \<noteq> [] \<longrightarrow> P * (\<Sum>x\<leftarrow>xs. f x) < S * (\<Sum>x\<leftarrow>xs. P * f x div S) + length xs * S)"
proof (induction xs)
  case (Cons x xs)
  have lo: "S * (P * f x div S) \<le> P * f x" by simp
  have hi: "P * f x < S * (P * f x div S) + S"
    using mod_less_divisor [OF assms, of "P * f x"] mult_div_mod_eq [of S "P * f x"] by linarith
  show ?case
  proof (cases "xs = []")
    case True
    with lo hi show ?thesis by simp
  next
    case False
    with Cons.IH have "P * (\<Sum>x\<leftarrow>xs. f x) < S * (\<Sum>x\<leftarrow>xs. P * f x div S) + length xs * S" by simp
    moreover have "S * (\<Sum>x\<leftarrow>xs. P * f x div S) \<le> P * (\<Sum>x\<leftarrow>xs. f x)" using Cons.IH by blast
    ultimately show ?thesis using add_mono [OF lo] hi by (simp add: distrib_left)
  qed
qed simp

lemma floors_total:
  fixes f :: "'a \<Rightarrow> nat"
  assumes "S = (\<Sum>x\<leftarrow>xs. f x)" and "0 < S"
  shows "(\<Sum>x\<leftarrow>xs. P * f x div S) \<le> P \<and> P < (\<Sum>x\<leftarrow>xs. P * f x div S) + length xs"
proof -
  let ?d = "\<Sum>x\<leftarrow>xs. P * f x div S"
  have ne: "xs \<noteq> []" using assms by auto
  note sc = floors_scaled [OF assms(2), of P f xs, folded assms(1)]
  from sc have "S * ?d \<le> S * P" by (simp add: mult.commute)
  then have "?d \<le> P" using assms(2) by simp
  moreover from sc ne have "S * P < S * (?d + length xs)" by (simp add: algebra_simps)
  then have "P < ?d + length xs" using assms(2) by simp
  ultimately show ?thesis by simp
qed

lemma share_word:
  fixes pool :: u64
  assumes "0 < unat S" and "unat (v_stake v) \<le> unat S"
  shows "unat (ucast ((ucast pool * ucast (v_stake v) :: u128) div S) :: u64) =
    reward_share (unat pool) (unat S) v"
proof -
  have "unat pool * unat (v_stake v) \<le> (2 ^ 64 - 1) * (2 ^ 64 - 1)"
    using unat_u64 [of pool] unat_u64 [of "v_stake v"] by (intro mult_le_mono) simp_all
  then have "unat (ucast pool * ucast (v_stake v) :: u128) = unat pool * unat (v_stake v)"
    by (simp add: unat_word_ariths unat_ucast_up)
  then have q: "unat ((ucast pool * ucast (v_stake v) :: u128) div S) = reward_share (unat pool) (unat S) v"
    by (simp add: unat_div reward_share_def)
  have "unat pool * unat (v_stake v) div unat S \<le> unat pool * unat S div unat S"
    using assms(2) by (intro div_le_mono mult_le_mono) simp_all
  also have "\<dots> = unat pool" using assms(1) by simp
  finally have "reward_share (unat pool) (unat S) v < 2 ^ 64"
    unfolding reward_share_def using unat_u64 [of pool] by linarith
  then show ?thesis unfolding q [symmetric] by (intro unat_ucast_down) simp
qed

lemma distribute_loop_shares:
  assumes "0 < unat S" and "\<forall>v \<in> set vs. unat (v_stake v) \<le> unat S"
    and "unat d + (\<Sum>v\<leftarrow>vs. reward_share (unat pool) (unat S) v) < 2 ^ 64"
  shows "\<exists>d' rs. distribute_loop pool S d vs = Inr (d', rs) \<and>
    unat d' = unat d + (\<Sum>v\<leftarrow>vs. reward_share (unat pool) (unat S) v) \<and>
    map vr_validator rs = map v_address vs \<and>
    map (\<lambda>r. unat (vr_amount r)) rs = map (reward_share (unat pool) (unat S)) vs"
  using assms(2,3)
proof (induction vs arbitrary: d)
  case (Cons v vs)
  define amount :: u64 where "amount = ucast ((ucast pool * ucast (v_stake v) :: u128) div S)"
  have a: "unat amount = reward_share (unat pool) (unat S) v"
    unfolding amount_def using assms(1) Cons.prems(1) by (intro share_word) simp_all
  obtain d1 where d1: "checked_add d amount = Some d1"
    using Cons.prems(2) a by (cases "checked_add d amount") (auto simp: checked_add_None_iff)
  then have u: "unat d1 = unat d + reward_share (unat pool) (unat S) v"
    by (simp add: checked_add_Some_iff a)
  have "\<exists>d' rs. distribute_loop pool S d1 vs = Inr (d', rs) \<and>
    unat d' = unat d1 + (\<Sum>v\<leftarrow>vs. reward_share (unat pool) (unat S) v) \<and>
    map vr_validator rs = map v_address vs \<and>
    map (\<lambda>r. unat (vr_amount r)) rs = map (reward_share (unat pool) (unat S)) vs"
    by (rule Cons.IH) (use Cons.prems u in \<open>simp_all add: add.assoc\<close>)
  then show ?case using d1 u a by (auto simp: amount_def [symmetric] Let_def)
qed simp

lemma bump_first_nth:
  "i < length rs \<Longrightarrow> bump_first n rs ! i =
     (if i < n then (rs ! i)\<lparr>vr_amount := vr_amount (rs ! i) + 1\<rparr> else rs ! i)"
  by (induction n rs arbitrary: i rule: bump_first.induct) (auto simp: nth_Cons')

lemma length_bump_first [simp]: "length (bump_first n rs) = length rs"
  by (induction n rs rule: bump_first.induct) auto

lemma bump_first_validators [simp]: "map vr_validator (bump_first n rs) = map vr_validator rs"
  by (induction n rs rule: bump_first.induct) auto

lemma bump_first_sum:
  assumes "n \<le> length rs" and "\<forall>r \<in> set rs. unat (vr_amount r) < 2 ^ 64 - 1"
  shows "(\<Sum>r\<leftarrow>bump_first n rs. unat (vr_amount r)) = (\<Sum>r\<leftarrow>rs. unat (vr_amount r)) + n"
  using assms
  by (induction n rs rule: bump_first.induct) (auto simp: unat_word_ariths)

lemma sum_list_mem: "x \<in> set xs \<Longrightarrow> (f x :: nat) \<le> (\<Sum>y\<leftarrow>xs. f y)"
  by (induction xs) auto

lemma bumped_rewards:
  assumes "length rs = length ps" and "map (\<lambda>r. unat (vr_amount r)) rs = map g ps"
    and "n = pool - (\<Sum>v\<leftarrow>ps. g v)"
    and "(\<Sum>v\<leftarrow>ps. g v) \<le> pool \<and> pool < (\<Sum>v\<leftarrow>ps. g v) + length ps" and "pool < 2 ^ 64"
  shows "(\<Sum>r\<leftarrow>bump_first n rs. unat (vr_amount r)) = pool \<and>
    (\<forall>i < length ps. unat (vr_amount (bump_first n rs ! i)) - g (ps ! i) \<le> 1 \<and>
       g (ps ! i) \<le> unat (vr_amount (bump_first n rs ! i)))"
proof -
  have at: "unat (vr_amount (rs ! i)) = g (ps ! i)" if "i < length ps" for i
    using arg_cong [OF assms(2), of "\<lambda>l. l ! i"] that assms(1) by simp
  have le: "unat (vr_amount r) \<le> (\<Sum>v\<leftarrow>ps. g v)" if "r \<in> set rs" for r
    using sum_list_mem [OF that, of "\<lambda>r. unat (vr_amount r)"] unfolding assms(2) .
  have inc: "unat (vr_amount r + 1) = unat (vr_amount r) + 1" if "r \<in> set rs" "0 < n" for r
    using le [OF that(1)] that(2) assms(3,5) by (simp add: unat_word_ariths)
  have "(\<Sum>r\<leftarrow>bump_first n rs. unat (vr_amount r)) = pool"
  proof (cases "n = 0")
    case True
    with assms(2-4) show ?thesis by simp
  next
    case False
    have "(\<Sum>r\<leftarrow>bump_first n rs. unat (vr_amount r)) = (\<Sum>r\<leftarrow>rs. unat (vr_amount r)) + n"
      by (rule bump_first_sum) (use assms(1,3,4,5) le False in \<open>fastforce+\<close>)
    with assms(2-4) show ?thesis by simp
  qed
  moreover have "unat (vr_amount (bump_first n rs ! i)) - g (ps ! i) \<le> 1 \<and>
       g (ps ! i) \<le> unat (vr_amount (bump_first n rs ! i))" if "i < length ps" for i
    using that assms(1) at [OF that] inc [of "rs ! i"] by (auto simp: bump_first_nth)
  ultimately show ?thesis by blast
qed

lemma length_participants: "length (reward_participants vs c) \<le> length vs"
  by (simp add: reward_participants_def)

lemma participants_positive: "v \<in> set (reward_participants vs c) \<Longrightarrow> 0 < unat (v_stake v)"
  by (auto simp: reward_participants_def unat_gt_0 word_gt_0)

lemma participants_stake_zero:
  "(\<Sum>v\<leftarrow>reward_participants vs c. unat (v_stake v)) = 0 \<longleftrightarrow> reward_participants vs c = []"
  using participants_positive [of _ vs c] by (cases "reward_participants vs c") fastforce+

lemma distribute_run:
  assumes "length vs < 2 ^ 64" and "total_transaction_fees txs = Inr fees"
    and "pool = unat fees + unat (annualized_inflation_reward (total_active_stake vs) secs)" and "pool < 2 ^ 64"
    and "ps = reward_participants vs c" and "S = (\<Sum>v\<leftarrow>ps. unat (v_stake v))"
  obtains p T where "unat p = pool" and "unat T = S" and "distribute_voting_rewards vs c txs secs =
      (if T = 0 then Inl NoVotingStake else and_then (distribute_loop p T 0 ps)
        (\<lambda>(distributed, rewards). Inr (bump_first (unat (p - distributed)) rewards)))"
proof -
  obtain p where ok: "checked_add fees (annualized_inflation_reward (total_active_stake vs) secs) = Some p"
    and p: "unat p = pool"
    using assms(3,4) by (cases "checked_add fees (annualized_inflation_reward (total_active_stake vs) secs)")
      (auto simp: checked_add_None_iff checked_add_Some_iff)
  define T where "T = (sum_list (map (\<lambda>v. ucast (v_stake v)) ps) :: u128)"
  have "unat T = S"
    unfolding T_def assms(6) using length_participants [of vs c] assms(1,5) by (intro stake_sum_u128(1) [unfolded active_stake_def]) simp
  moreover have "distribute_voting_rewards vs c txs secs =
      (if T = 0 then Inl NoVotingStake else and_then (distribute_loop p T 0 ps)
        (\<lambda>(distributed, rewards). Inr (bump_first (unat (p - distributed)) rewards)))"
    by (simp add: distribute_voting_rewards_def assms(2) ok Let_def T_def assms(5))
  ultimately show thesis using that p by blast
qed

text \<open>
  C12. The reward distribution: with the fees and the inflation reward within 64 bits, it
  fails exactly when no active validator voted; otherwise every voting active validator is
  paid once, in address order, the floor of its share or one unit more, and the payments add
  up to the fees plus the inflation reward exactly.
\<close>

theorem distribute_voting_rewards_correct:
  assumes "length vs < 2 ^ 64" and "total_transaction_fees txs = Inr fees"
    and "pool = unat fees + unat (annualized_inflation_reward (total_active_stake vs) secs)"
    and "pool < 2 ^ 64"
    and "ps = reward_participants vs c" and "S = (\<Sum>v\<leftarrow>ps. unat (v_stake v))"
  shows "if ps = [] then distribute_voting_rewards vs c txs secs = Inl NoVotingStake
    else \<exists>rs. distribute_voting_rewards vs c txs secs = Inr rs \<and>
      map vr_validator rs = map v_address ps \<and>
      (\<Sum>r\<leftarrow>rs. unat (vr_amount r)) = pool \<and>
      (\<forall>i < length ps. unat (vr_amount (rs ! i)) - reward_share pool S (ps ! i) \<le> 1 \<and>
         reward_share pool S (ps ! i) \<le> unat (vr_amount (rs ! i)))"
proof -
  obtain p T where p: "unat p = pool" and T: "unat T = S" and run: "distribute_voting_rewards vs c txs secs =
      (if T = 0 then Inl NoVotingStake else and_then (distribute_loop p T 0 ps)
        (\<lambda>(distributed, rewards). Inr (bump_first (unat (p - distributed)) rewards)))"
    using distribute_run [OF assms] .
  show ?thesis
  proof (cases "ps = []")
    case True
    then have "T = 0" using T assms(6) by (simp add: unat_eq_zero)
    with True show ?thesis by (simp add: run)
  next
    case False
    have "S \<noteq> 0" unfolding assms(6) using False unfolding assms(5) participants_stake_zero .
    then have S0: "0 < S" by simp
    then have T0: "T \<noteq> 0" using T by auto
    let ?D = "\<Sum>v\<leftarrow>ps. reward_share pool S v"
    have D: "?D \<le> pool \<and> pool < ?D + length ps"
      unfolding reward_share_def by (rule floors_total [OF assms(6) S0])
    have mem: "\<forall>v \<in> set ps. unat (v_stake v) \<le> unat T"
      unfolding T assms(6) using sum_list_mem [of _ ps "\<lambda>v. unat (v_stake v)"] by blast
    have "\<exists>d rs. distribute_loop p T 0 ps = Inr (d, rs) \<and>
        unat d = unat (0 :: u64) + (\<Sum>v\<leftarrow>ps. reward_share (unat p) (unat T) v) \<and>
        map vr_validator rs = map v_address ps \<and>
        map (\<lambda>r. unat (vr_amount r)) rs = map (reward_share (unat p) (unat T)) ps"
      by (rule distribute_loop_shares) (use S0 T mem D assms(4) p in simp_all)
    then obtain d rs where rs: "distribute_loop p T 0 ps = Inr (d, rs)" "unat d = ?D"
      "map vr_validator rs = map v_address ps" "map (\<lambda>r. unat (vr_amount r)) rs = map (reward_share pool S) ps"
      unfolding T p by auto
    have len: "length rs = length ps" using rs(3) by (metis length_map)
    define n where "n = unat (p - d)"
    have n: "n = pool - ?D" unfolding n_def using D rs(2) p by (simp add: unat_sub word_le_nat_alt)
    show ?thesis
      using False T0 rs bumped_rewards [OF len rs(4) n D assms(4)]
      by (simp add: run n_def [symmetric])
  qed
qed

theorem distribute_voting_rewards_correct_witness:
  "\<exists>rs. distribute_voting_rewards sample_validators
       \<lparr>votes_by_voter = [(replicate 32 2, sample_vote 2 []), (replicate 32 1, sample_vote 1 [])]\<rparr>
       [sample_tx 1, sample_tx 2] 0 = Inr rs \<and>
     map vr_validator rs = [replicate 32 1, replicate 32 2] \<and> (\<Sum>r\<leftarrow>rs. unat (vr_amount r)) = 2"
proof -
  let ?c = "\<lparr>votes_by_voter = [(replicate 32 2, sample_vote 2 []), (replicate 32 1, sample_vote 1 [])]\<rparr>"
  have ps: "reward_participants sample_validators ?c =
      [\<lparr>v_address = replicate 32 1, v_stake = 40, v_locked_until = 100\<rparr>,
       \<lparr>v_address = replicate 32 2, v_stake = 35, v_locked_until = 200\<rparr>]"
    by (simp add: reward_participants_def sample_validators_def has_voted_def replicate_32_le)
  have fees: "total_transaction_fees [sample_tx 1, sample_tx 2] = Inr 2"
    by (simp add: total_transaction_fees_def sample_tx_def checked_add_def)
  have pool: "2 = unat (2 :: u64) + unat (annualized_inflation_reward (total_active_stake sample_validators) 0)"
    by (simp add: annualized_inflation_reward_def)
  have len: "length sample_validators < 2 ^ 64" by (simp add: sample_validators_def)
  from distribute_voting_rewards_correct [OF len fees pool _ ps [symmetric] refl]
  show ?thesis by auto
qed

end
