(* ===== verification/Sharding.thy ===== *)
theory Sharding
  imports Votes
begin

text \<open>
  \<open>src/src/sharding/mod.rs\<close>: the shard configuration, the deterministic mixing
  functions, committee assignment, and the beacon chain with its committees and shard state
  roots. Cross-shard transactions are in \<open>CrossShard\<close>. A \<open>u16\<close> remainder by a
  zero shard count panics, so every operation that rebuilds an epoch is a \<open>panics\<close>
  value.
\<close>

unbundle bit_operations_syntax

section \<open>Configuration\<close>

definition DEFAULT_INITIAL_SHARD_COUNT :: u16 where
  "DEFAULT_INITIAL_SHARD_COUNT = 64"

definition MIN_SHARD_COUNT :: u16 where
  "MIN_SHARD_COUNT = 1"

definition SHARD_STATE_ROOT_LENGTH :: nat where
  "SHARD_STATE_ROOT_LENGTH = 32"

definition EMPTY_SHARD_STATE_ROOT :: bytes where
  "EMPTY_SHARD_STATE_ROOT = replicate SHARD_STATE_ROOT_LENGTH 0"

record ShardingConfig =
  shard_count :: u16

datatype ShardingConfigError =
    ShardCountTooLow (minimum: u16)
  | ShardCountMustBePowerOfTwo (provided: u16)

definition ShardingConfig_default :: ShardingConfig where
  "ShardingConfig_default = \<lparr>shard_count = DEFAULT_INITIAL_SHARD_COUNT\<rparr>"

text \<open>\<open>u16::is_power_of_two\<close>: exactly one bit is set.\<close>

definition is_power_of_two :: "u16 \<Rightarrow> bool" where
  "is_power_of_two w \<longleftrightarrow> length (filter (bit w) [0..<16]) = 1"

definition validate_shard_count :: "u16 \<Rightarrow> (unit, ShardingConfigError) result" where
  "validate_shard_count n =
     (if n < MIN_SHARD_COUNT then Inl (ShardCountTooLow MIN_SHARD_COUNT)
      else if \<not> is_power_of_two n then Inl (ShardCountMustBePowerOfTwo n)
      else Inr ())"

definition ShardingConfig_new :: "u16 \<Rightarrow> (ShardingConfig, ShardingConfigError) result" where
  "ShardingConfig_new n = and_then (validate_shard_count n) (\<lambda>_. Inr \<lparr>shard_count = n\<rparr>)"

definition apply_governance_update ::
  "ShardingConfig \<Rightarrow> u16 \<Rightarrow> (ShardingConfig, ShardingConfigError) result" where
  "apply_governance_update config n =
     and_then (validate_shard_count n) (\<lambda>_. Inr (config\<lparr>shard_count := n\<rparr>))"

section \<open>Mixing\<close>

definition GOLDEN :: u64 where
  "GOLDEN = 0x9E3779B97F4A7C15"

definition splitmix64 :: "u64 \<Rightarrow> u64" where
  "splitmix64 value =
     (let v1 = value + GOLDEN;
          v2 = (v1 XOR drop_bit 30 v1) * 0xBF58476D1CE4E5B9;
          v3 = (v2 XOR drop_bit 27 v2) * 0x94D049BB133111EB
      in v3 XOR drop_bit 31 v3)"

text \<open>The byte loop shared by the digest and the score, from index \<open>i\<close> on.\<close>

fun absorb :: "u64 \<Rightarrow> nat \<Rightarrow> bytes \<Rightarrow> u64" where
  "absorb state i [] = state"
| "absorb state i (b # bs) =
     absorb (splitmix64 (state XOR (ucast b + (of_nat i + 1) * GOLDEN))) (i + 1) bs"

definition deterministic_digest :: "bytes \<Rightarrow> u64 \<Rightarrow> bytes" where
  "deterministic_digest payload seed =
     (let state = absorb (seed XOR (of_nat (length payload) * GOLDEN)) 0 payload
      in concat (map (\<lambda>lane. to_be_bytes 8 (splitmix64 (state XOR of_nat lane)))
           [0..<RECEIPT_PROOF_LENGTH div 8]))"

definition assignment_score :: "u64 \<Rightarrow> bytes \<Rightarrow> u64" where
  "assignment_score epoch address = splitmix64 (absorb (epoch XOR GOLDEN) 0 address)"

section \<open>Committees\<close>

record ShardCommitteeAssignment =
  sc_epoch :: u64
  sc_shard_id :: u16
  validator_addresses :: "bytes list"

record ShardStateRoot =
  sr_epoch :: u64
  sr_shard_id :: u16
  state_root :: bytes

definition sort_validators :: "Validator list \<Rightarrow> Validator list" where
  "sort_validators validators = sort_key (\<lambda>v. (v_address v, v_stake v, v_locked_until v)) validators"

definition shard_ids :: "u16 \<Rightarrow> u16 list" where
  "shard_ids shards = map of_nat [0..<unat shards]"

fun assign_loop :: "u16 \<Rightarrow> nat \<Rightarrow> Validator list \<Rightarrow> ShardCommitteeAssignment list
    \<Rightarrow> ShardCommitteeAssignment list panics" where
  "assign_loop shards index [] assignments = Inr assignments"
| "assign_loop shards index (v # vs) assignments =
     (if unat shards = 0 then Inl ''attempt to calculate the remainder with a divisor of zero''
      else let shard_id = of_nat (index mod unat shards) :: u16;
               a = assignments ! unat shard_id
           in assign_loop shards (index + 1) vs (assignments[unat shard_id :=
                a\<lparr>validator_addresses := validator_addresses a @ [v_address v]\<rparr>]))"

definition shuffled_validators :: "u64 \<Rightarrow> Validator list \<Rightarrow> Validator list" where
  "shuffled_validators epoch validators =
     sort_key (\<lambda>v. (assignment_score epoch (v_address v), v_address v))
       (filter (\<lambda>v. v_stake v > 0) validators)"

definition build_committee_assignments ::
  "u64 \<Rightarrow> u16 \<Rightarrow> Validator list \<Rightarrow> ShardCommitteeAssignment list panics" where
  "build_committee_assignments epoch shards validators =
     assign_loop shards 0 (shuffled_validators epoch validators)
       (map (\<lambda>i. \<lparr>sc_epoch = epoch, sc_shard_id = i, validator_addresses = []\<rparr>) (shard_ids shards))"

section \<open>The beacon chain\<close>

record BeaconChain =
  config :: ShardingConfig
  bc_validators :: "Validator list"
  current_epoch :: u64
  shard_committees :: "ShardCommitteeAssignment list"
  shard_state_roots :: "ShardStateRoot list"

datatype BeaconChainError =
    InvalidShardId u16 u16
  | InvalidStateRootLength nat nat

datatype ShardConsensusError =
    SC_BeaconChain BeaconChainError
  | SC_Vote VoteError
  | MissingCommitteeAssignment u64 u16

definition validate_shard_id :: "u16 \<Rightarrow> u16 \<Rightarrow> (unit, BeaconChainError) result" where
  "validate_shard_id shard_id shards =
     (if shards \<le> shard_id then Inl (InvalidShardId shard_id shards) else Inr ())"

definition validate_state_root_length :: "bytes \<Rightarrow> (unit, BeaconChainError) result" where
  "validate_state_root_length root =
     (if length root \<noteq> SHARD_STATE_ROOT_LENGTH
      then Inl (InvalidStateRootLength SHARD_STATE_ROOT_LENGTH (length root)) else Inr ())"

definition active_validators :: "BeaconChain \<Rightarrow> Validator list" where
  "active_validators bc = filter (\<lambda>v. v_stake v > 0) (bc_validators bc)"

definition replace_committees_for_epoch :: "BeaconChain \<Rightarrow> u64 \<Rightarrow> BeaconChain panics" where
  "replace_committees_for_epoch bc epoch =
     and_then (build_committee_assignments epoch (shard_count (config bc)) (active_validators bc))
       (\<lambda>assignments. Inr (bc\<lparr>shard_committees :=
          sort_key (\<lambda>a. (sc_epoch a, sc_shard_id a))
            (filter (\<lambda>a. sc_epoch a \<noteq> epoch) (shard_committees bc) @ assignments)\<rparr>))"

text \<open>The loop over the shard ids: an absent root is appended as the empty root.\<close>

fun init_roots :: "u64 \<Rightarrow> u16 list \<Rightarrow> ShardStateRoot list \<Rightarrow> ShardStateRoot list" where
  "init_roots epoch [] roots = roots"
| "init_roots epoch (i # is) roots =
     (if \<exists>r \<in> set roots. sr_epoch r = epoch \<and> sr_shard_id r = i then init_roots epoch is roots
      else init_roots epoch is
        (roots @ [\<lparr>sr_epoch = epoch, sr_shard_id = i, state_root = EMPTY_SHARD_STATE_ROOT\<rparr>]))"

definition root_key :: "ShardStateRoot \<Rightarrow> u64 \<times> u16" where
  "root_key r = (sr_epoch r, sr_shard_id r)"

definition initialize_state_roots_for_epoch :: "BeaconChain \<Rightarrow> u64 \<Rightarrow> BeaconChain" where
  "initialize_state_roots_for_epoch bc epoch =
     bc\<lparr>shard_state_roots := sort_key root_key
        (init_roots epoch (shard_ids (shard_count (config bc))) (shard_state_roots bc))\<rparr>"

definition rebuild_epoch :: "BeaconChain \<Rightarrow> u64 \<Rightarrow> BeaconChain panics" where
  "rebuild_epoch bc epoch =
     and_then (replace_committees_for_epoch (bc\<lparr>current_epoch := epoch\<rparr>) epoch)
       (\<lambda>bc'. Inr (initialize_state_roots_for_epoch bc' epoch))"

definition BeaconChain_new :: "ShardingConfig \<Rightarrow> Validator list \<Rightarrow> BeaconChain panics" where
  "BeaconChain_new cfg validators =
     rebuild_epoch \<lparr>config = cfg, bc_validators = sort_validators validators, current_epoch = 0,
       shard_committees = [], shard_state_roots = []\<rparr> 0"

definition register_validator :: "BeaconChain \<Rightarrow> Validator \<Rightarrow> BeaconChain panics" where
  "register_validator bc validator =
     rebuild_epoch (bc\<lparr>bc_validators := sort_validators (bc_validators bc @ [validator])\<rparr>) (current_epoch bc)"

definition replace_validators :: "BeaconChain \<Rightarrow> Validator list \<Rightarrow> BeaconChain panics" where
  "replace_validators bc validators =
     rebuild_epoch (bc\<lparr>bc_validators := sort_validators validators\<rparr>) (current_epoch bc)"

definition advance_epoch :: "BeaconChain \<Rightarrow> BeaconChain panics" where
  "advance_epoch bc = rebuild_epoch bc (current_epoch bc + 1)"

definition committees_for_epoch :: "BeaconChain \<Rightarrow> u64 \<Rightarrow> ShardCommitteeAssignment list" where
  "committees_for_epoch bc epoch = filter (\<lambda>a. sc_epoch a = epoch) (shard_committees bc)"

definition committee_for_shard :: "BeaconChain \<Rightarrow> u64 \<Rightarrow> u16 \<Rightarrow> ShardCommitteeAssignment option" where
  "committee_for_shard bc epoch shard_id =
     find (\<lambda>a. sc_epoch a = epoch \<and> sc_shard_id a = shard_id) (shard_committees bc)"

definition validators_for_shard :: "BeaconChain \<Rightarrow> u64 \<Rightarrow> u16 \<Rightarrow> (Validator list, ShardConsensusError) result" where
  "validators_for_shard bc epoch shard_id =
     and_then (map_err SC_BeaconChain (validate_shard_id shard_id (shard_count (config bc)))) (\<lambda>_.
     and_then (ok_or (MissingCommitteeAssignment epoch shard_id) (committee_for_shard bc epoch shard_id)) (\<lambda>a.
       Inr (sort_validators (filter (\<lambda>v. v_address v \<in> set (validator_addresses a)) (active_validators bc)))))"

text \<open>
  \<open>iter_mut().find\<close> updates the first matching root in place; otherwise the new root is
  pushed and the vector sorted.
\<close>

definition store_shard_state_root ::
  "BeaconChain \<Rightarrow> u64 \<Rightarrow> u16 \<Rightarrow> bytes \<Rightarrow> (BeaconChain, BeaconChainError) result" where
  "store_shard_state_root bc epoch shard_id root =
     and_then (validate_shard_id shard_id (shard_count (config bc))) (\<lambda>_.
     and_then (validate_state_root_length root) (\<lambda>_.
       case position (\<lambda>r. sr_epoch r = epoch \<and> sr_shard_id r = shard_id) (shard_state_roots bc) of
         Some i \<Rightarrow> Inr (bc\<lparr>shard_state_roots := (shard_state_roots bc)[i :=
             (shard_state_roots bc ! i)\<lparr>state_root := root\<rparr>]\<rparr>)
       | None \<Rightarrow> Inr (bc\<lparr>shard_state_roots := sort_key root_key (shard_state_roots bc @
             [\<lparr>sr_epoch = epoch, sr_shard_id = shard_id, state_root = root\<rparr>])\<rparr>)))"

definition state_root_for_shard :: "BeaconChain \<Rightarrow> u64 \<Rightarrow> u16 \<Rightarrow> bytes option" where
  "state_root_for_shard bc epoch shard_id =
     map_option state_root
       (find (\<lambda>r. sr_epoch r = epoch \<and> sr_shard_id r = shard_id) (shard_state_roots bc))"

definition update_shard_state_root_from_block ::
  "BeaconChain \<Rightarrow> u64 \<Rightarrow> u16 \<Rightarrow> Block \<Rightarrow> (BeaconChain, BeaconChainError) result" where
  "update_shard_state_root_from_block bc epoch shard_id block =
     store_shard_state_root bc epoch shard_id (h_merkle_root (b_header block))"

section \<open>Shard consensus\<close>

record ShardConsensus =
  sh_epoch :: u64
  sh_shard_id :: u16
  committee :: "Validator list"
  collector :: VoteCollector

definition ShardConsensus_new :: "u64 \<Rightarrow> u16 \<Rightarrow> Validator list \<Rightarrow> ShardConsensus" where
  "ShardConsensus_new epoch shard_id members =
     \<lparr>sh_epoch = epoch, sh_shard_id = shard_id, committee = sort_validators members,
      collector = VoteCollector_new\<rparr>"

definition shard_vote_count :: "ShardConsensus \<Rightarrow> nat" where
  "shard_vote_count sh = collector_len (collector sh)"

definition shard_collect_vote ::
  "'z consensus_env_scheme \<Rightarrow> ShardConsensus \<Rightarrow> ConsensusVote \<Rightarrow> (ShardConsensus, ShardConsensusError) result" where
  "shard_collect_vote E sh vote =
     and_then (map_err SC_Vote (collect_vote E (collector sh) vote (committee sh)))
       (\<lambda>c. Inr (sh\<lparr>collector := c\<rparr>))"

definition shard_tally :: "ShardConsensus \<Rightarrow> (VoteTally, ShardConsensusError) result panics" where
  "shard_tally sh = and_then (collector_tally (collector sh) (committee sh)) (\<lambda>r. Inr (map_err SC_Vote r))"

definition shard_is_finalized :: "ShardConsensus \<Rightarrow> (bool, ShardConsensusError) result panics" where
  "shard_is_finalized sh =
     and_then (shard_tally sh) (\<lambda>r. Inr (and_then r (\<lambda>t. Inr (is_block_finalized t (committee sh)))))"

definition consensus_for_shard :: "BeaconChain \<Rightarrow> u64 \<Rightarrow> u16 \<Rightarrow> (ShardConsensus, ShardConsensusError) result" where
  "consensus_for_shard bc epoch shard_id =
     and_then (validators_for_shard bc epoch shard_id)
       (\<lambda>members. Inr (ShardConsensus_new epoch shard_id members))"

end
