(* ===== verification/Committees.thy ===== *)
theory Committees
  imports Sharding
begin

text \<open>
  Properties of the shard configuration, of the mixing functions and of committee assignment
  in \<open>src/src/sharding/mod.rs\<close>: accepted shard counts are the powers of two,
  \<open>splitmix64\<close> is a permutation of the 64-bit words, and the committees of an epoch
  partition the active validators into shards whose sizes differ by at most one.
\<close>

unbundle bit_operations_syntax

section \<open>Shard counts\<close>

lemma is_power_of_two_iff: "is_power_of_two w \<longleftrightarrow> (\<exists>k < 16. w = 2 ^ k)"
proof
  assume "is_power_of_two w"
  then obtain k where k: "filter (bit w) [0..<16] = [k]"
    by (auto simp: is_power_of_two_def length_Suc_conv)
  have "set (filter (bit w) [0..<16]) = {k}" unfolding k by simp
  then have ks: "{n. n < 16 \<and> bit w n} = {k}" by (simp del: upt_rec_numeral upt.simps)
  then have "k < 16" by auto
  moreover have "w = 2 ^ k"
  proof (rule bit_word_eqI)
    fix n assume "n < LENGTH(16)"
    with ks have "bit w n \<longleftrightarrow> n = k" by auto
    with \<open>n < LENGTH(16)\<close> \<open>k < 16\<close> show "bit w n = bit (2 ^ k :: u16) n"
      by (auto simp: bit_exp_iff)
  qed
  ultimately show "\<exists>k < 16. w = 2 ^ k" by blast
next
  assume "\<exists>k < 16. w = 2 ^ k"
  then obtain k where k: "k < 16" "w = 2 ^ k" by blast
  have "filter (bit w) [0..<16] = filter (\<lambda>n. n = k) [0..<16]"
    by (rule filter_cong [OF refl]) (use k in \<open>auto simp: bit_exp_iff\<close>)
  also have "\<dots> = [k]" using k(1) by (intro filter_eq_single) auto
  finally show "is_power_of_two w" by (simp add: is_power_of_two_def)
qed

text \<open>
  A shard count is accepted, by the constructor and by a governance update, exactly when
  it is one of the sixteen powers of two of 16 bits; zero is reported as too low and every
  other number with its value.
\<close>

theorem shard_count_accepted_iff:
  "ShardingConfig_new n =
     (if \<exists>k < 16. n = 2 ^ k then Inr \<lparr>shard_count = n\<rparr>
      else if n = 0 then Inl (ShardCountTooLow 1) else Inl (ShardCountMustBePowerOfTwo n)) \<and>
   apply_governance_update cfg n =
     (if \<exists>k < 16. n = 2 ^ k then Inr (cfg\<lparr>shard_count := n\<rparr>)
      else if n = 0 then Inl (ShardCountTooLow 1) else Inl (ShardCountMustBePowerOfTwo n))"
proof -
  have one: "n < 1 \<longleftrightarrow> n = 0" by (simp add: word_less_1)
  have "(2 :: u16) ^ k \<noteq> 0" if "k < 16" for k
    using that bit_exp_iff [of k k, where 'a = u16] by (auto simp: bit_eq_iff)
  then have "validate_shard_count n =
      (if \<exists>k < 16. n = 2 ^ k then Inr ()
       else if n = 0 then Inl (ShardCountTooLow 1) else Inl (ShardCountMustBePowerOfTwo n))"
    by (auto simp: validate_shard_count_def is_power_of_two_iff MIN_SHARD_COUNT_def one)
  then show ?thesis
    by (auto simp only: ShardingConfig_new_def apply_governance_update_def and_then.simps map_err.simps
        id_apply ShardingConfig.simps split: if_split)
qed

section \<open>The mixing function\<close>

text \<open>An xor-shift to the right can be undone from the top bit down.\<close>

lemma xorshift_inj:
  fixes a b :: "'w::len word"
  assumes "0 < k" and "a XOR drop_bit k a = b XOR drop_bit k b"
  shows "a = b"
proof (rule bit_word_eqI)
  fix n assume "n < LENGTH('w)"
  show "bit a n = bit b n"
  proof (induction "LENGTH('w) - n" arbitrary: n rule: less_induct)
    case less
    show ?case
    proof (cases "n < LENGTH('w)")
      case True
      then have "LENGTH('w) - (k + n) < LENGTH('w) - n" using assms(1) by linarith
      then have up: "bit a (k + n) = bit b (k + n)" by (rule less.hyps)
      have "bit (a XOR drop_bit k a) n = bit (b XOR drop_bit k b) n" using assms(2) by simp
      with up show ?thesis by (auto simp: bit_xor_iff bit_drop_bit_eq)
    next
      case False
      then have "\<not> bit a n" "\<not> bit b n" using bit_imp_le_length by blast+
      then show ?thesis by simp
    qed
  qed
qed

lemma mult_inj:
  fixes a b c d :: "'w::len word"
  assumes "c * d = 1" and "a * c = b * c"
  shows "a = b"
proof -
  have "a * (c * d) = b * (c * d)" using assms(2) by (simp only: mult.assoc [symmetric])
  then show ?thesis by (simp add: assms(1))
qed

lemma splitmix64_inj: "splitmix64 a = splitmix64 b \<longleftrightarrow> a = b"
proof
  assume eq: "splitmix64 a = splitmix64 b"
  let ?m1 = "0xBF58476D1CE4E5B9 :: u64"
  let ?m2 = "0x94D049BB133111EB :: u64"
  have i1: "?m1 * 0x96DE1B173F119089 = 1" by simp
  have i2: "?m2 * 0x319642B2D24D8EC3 = 1" by simp
  define s where "s w = ((w + GOLDEN) XOR drop_bit 30 (w + GOLDEN)) * ?m1" for w
  define t where "t w = (s w XOR drop_bit 27 (s w)) * ?m2" for w
  have "t a XOR drop_bit 31 (t a) = t b XOR drop_bit 31 (t b)"
    using eq by (simp only: splitmix64_def Let_def s_def t_def)
  then have "t a = t b" by (rule xorshift_inj [rotated]) simp
  then have "s a XOR drop_bit 27 (s a) = s b XOR drop_bit 27 (s b)"
    unfolding t_def by (rule mult_inj [OF i2])
  then have "s a = s b" by (rule xorshift_inj [rotated]) simp
  then have "(a + GOLDEN) XOR drop_bit 30 (a + GOLDEN) = (b + GOLDEN) XOR drop_bit 30 (b + GOLDEN)"
    unfolding s_def by (rule mult_inj [OF i1])
  then have "a + GOLDEN = b + GOLDEN" by (rule xorshift_inj [rotated]) simp
  then show "a = b" by simp
qed simp

section \<open>Committees\<close>

text \<open>
  The reference: shard \<open>i\<close> of \<open>n\<close> gets the validators whose running index is
  \<open>i\<close> modulo \<open>n\<close>.
\<close>

fun round_robin :: "nat \<Rightarrow> nat \<Rightarrow> nat \<Rightarrow> 'a list \<Rightarrow> 'a list" where
  "round_robin n idx i [] = []"
| "round_robin n idx i (x # xs) =
     (if idx mod n = i then x # round_robin n (idx + 1) i xs else round_robin n (idx + 1) i xs)"

lemma round_robin_positions:
  "round_robin n idx i xs = map ((!) xs) (filter (\<lambda>j. (idx + j) mod n = i) [0..<length xs])"
proof (induction n idx i xs rule: round_robin.induct)
  case (2 n idx i x xs)
  have "[0..<length (x # xs)] = 0 # map Suc [0..<length xs]" by (simp add: upt_conv_Cons map_Suc_upt del: upt_Suc)
  with 2 show ?case by (simp add: filter_map o_def del: upt_Suc)
qed simp

lemma round_robin_map: "round_robin n idx i (map f xs) = map f (round_robin n idx i xs)"
  by (induction n idx i xs rule: round_robin.induct) auto

lemma round_robin_mset:
  assumes "0 < n"
  shows "(\<Sum>i<n. mset (round_robin n idx i xs)) = mset xs"
proof (induction xs arbitrary: idx)
  case (Cons x xs)
  have step: "mset (round_robin n idx i (x # xs)) =
      (if idx mod n = i then {#x#} else {#}) + mset (round_robin n (idx + 1) i xs)" for i by simp
  have "(\<Sum>i<n. if idx mod n = i then {#x#} else {#}) = {#x#}"
    using assms by simp
  then show ?case unfolding step sum.distrib Cons.IH by simp
qed simp

lemma round_robin_subset: "set (round_robin n idx i xs) \<subseteq> set xs"
  by (induction n idx i xs rule: round_robin.induct) auto

lemma round_robin_unique:
  assumes "0 < n"
  shows "distinct xs \<Longrightarrow> x \<in> set xs \<Longrightarrow> \<exists>!i. i < n \<and> x \<in> set (round_robin n idx i xs)"
proof (induction xs arbitrary: idx)
  case (Cons y ys)
  show ?case
  proof (cases "x = y")
    case True
    with Cons.prems have "x \<notin> set (round_robin n (idx + 1) i ys)" for i
      using round_robin_subset [of n "idx + 1" i ys] by auto
    with True have "x \<in> set (round_robin n idx i (y # ys)) \<longleftrightarrow> i = idx mod n" for i by auto
    moreover have "idx mod n < n" using assms by simp
    ultimately show ?thesis by (simp del: round_robin.simps) blast
  next
    case False
    then have "x \<in> set (round_robin n idx i (y # ys)) \<longleftrightarrow> x \<in> set (round_robin n (idx + 1) i ys)" for i by simp
    with False Cons show ?thesis by simp
  qed
qed simp

lemma round_robin_length:
  assumes "i < n"
  shows "length (round_robin n idx i xs) + (idx + n - 1 - i) div n = (idx + length xs + n - 1 - i) div n"
proof (induction xs arbitrary: idx)
  case (Cons x xs)
  have m: "idx + 1 + n - 1 - i = Suc (idx + n - 1 - i)" using assms by simp
  have "Suc (idx + n - 1 - i) mod n = 0 \<longleftrightarrow> idx mod n = i"
  proof -
    have "Suc (idx + n - 1 - i) = idx + (n - i)" using assms by simp
    moreover have "(idx + (n - i)) mod n = (idx mod n + (n - i)) mod n" by (simp add: mod_add_left_eq)
    moreover have "(r + (n - i)) mod n = 0 \<longleftrightarrow> r = i" if "r < n" for r
    proof (cases "r < i")
      case False
      then have "r + (n - i) = n + (r - i)" using assms by simp
      then have "(r + (n - i)) mod n = r - i" using that by (simp only: mod_add_self1) simp
      with False show ?thesis by simp
    qed (use assms in simp)
    ultimately show ?thesis using assms by (metis gr_implies_not0 mod_less_divisor neq0_conv)
  qed
  then have d: "(idx + 1 + n - 1 - i) div n = (idx + n - 1 - i) div n + (if idx mod n = i then 1 else 0)"
    unfolding m by (simp add: div_Suc)
  show ?case using Cons.IH [of "idx + 1"] d by (auto split: if_splits)
qed simp

lemma length_shard_ids [simp]: "length (shard_ids shards) = unat shards"
  by (simp add: shard_ids_def)

lemma u16_index:
  fixes shards :: u16
  assumes "i < unat shards"
  shows "unat (of_nat i :: u16) = i"
proof -
  have "unat shards < 2 ^ 16" by (rule order.strict_trans2 [OF unsigned_less]) simp
  then show ?thesis using assms by (simp add: unat_of_nat take_bit_nat_eq_self)
qed

lemma assign_loop_round_robin:
  assumes "0 < unat shards" and "length as = unat shards"
  shows "assign_loop shards idx vs as = Inr (map (\<lambda>i. (as ! i)\<lparr>validator_addresses :=
    validator_addresses (as ! i) @ map v_address (round_robin (unat shards) idx i vs)\<rparr>) [0..<unat shards])"
  using assms(2)
proof (induction vs arbitrary: idx as)
  case Nil
  then show ?case by (auto intro: nth_equalityI)
next
  case (Cons v vs)
  let ?k = "idx mod unat shards"
  have k: "?k < unat shards" using assms(1) by simp
  let ?as = "as[?k := (as ! ?k)\<lparr>validator_addresses := validator_addresses (as ! ?k) @ [v_address v]\<rparr>]"
  have "assign_loop shards idx (v # vs) as = assign_loop shards (idx + 1) vs ?as"
    using assms(1) u16_index [OF k] by (simp add: Let_def)
  also have "\<dots> = Inr (map (\<lambda>i. (?as ! i)\<lparr>validator_addresses :=
      validator_addresses (?as ! i) @ map v_address (round_robin (unat shards) (idx + 1) i vs)\<rparr>) [0..<unat shards])"
    using Cons.prems by (intro Cons.IH) simp
  finally show ?case using Cons.prems by (simp add: nth_list_update)
qed

lemma shuffled_validators_perm:
  assumes "mset vs' = mset vs" and "distinct_active vs"
  shows "shuffled_validators epoch vs' = shuffled_validators epoch vs"
proof -
  have "distinct (map (\<lambda>v. (assignment_score epoch (v_address v), v_address v)) (filter (\<lambda>v. v_stake v > 0) vs))"
    using assms(2) unfolding distinct_active_def distinct_map by (auto intro: inj_onI dest: inj_onD)
  then show ?thesis
    unfolding shuffled_validators_def using assms(1) by (intro sort_key_mset_eq [symmetric]) simp_all
qed

lemma build_committee_assignments_eq:
  assumes "0 < unat shards"
  shows "build_committee_assignments epoch shards vs = Inr (map (\<lambda>i. \<lparr>sc_epoch = epoch, sc_shard_id = of_nat i,
    validator_addresses = map v_address (round_robin (unat shards) 0 i (shuffled_validators epoch vs))\<rparr>) [0..<unat shards])"
proof -
  have at: "shard_ids shards ! i = of_nat i" if "i < unat shards" for i
    using that by (simp add: shard_ids_def)
  show ?thesis
    unfolding build_committee_assignments_def
    by (subst assign_loop_round_robin) (use assms in \<open>simp_all add: at\<close>)
qed

text \<open>The committees with at least one shard, by the positions in the shuffled list.\<close>

lemma committees_round_robin:
  assumes "0 < unat shards" and "sh = shuffled_validators epoch vs"
  shows "\<exists>as. build_committee_assignments epoch shards vs = Inr as \<and> map sc_shard_id as = shard_ids shards \<and>
    (\<forall>a \<in> set as. sc_epoch a = epoch) \<and> (\<Sum>a\<leftarrow>as. mset (validator_addresses a)) = mset (map v_address sh) \<and>
    (\<forall>i < unat shards. validator_addresses (as ! i) =
       map (\<lambda>j. v_address (sh ! j)) (filter (\<lambda>j. j mod unat shards = i) [0..<length sh]) \<and>
       length (validator_addresses (as ! i)) = (length sh + unat shards - 1 - i) div unat shards)"
proof -
  let ?as = "map (\<lambda>i. \<lparr>sc_epoch = epoch, sc_shard_id = of_nat i :: u16,
      validator_addresses = map v_address (round_robin (unat shards) 0 i sh)\<rparr>) [0..<unat shards]"
  have "(\<Sum>a\<leftarrow>?as. mset (validator_addresses a)) = (\<Sum>i<unat shards. mset (round_robin (unat shards) 0 i (map v_address sh)))"
    by (simp add: o_def round_robin_map sum_list_distinct_conv_sum_set atLeast0LessThan del: mset_map)
  also have "\<dots> = mset (map v_address sh)" by (rule round_robin_mset [OF assms(1)])
  finally have parts: "(\<Sum>a\<leftarrow>?as. mset (validator_addresses a)) = mset (map v_address sh)" .
  have "validator_addresses (?as ! i) = map (\<lambda>j. v_address (sh ! j)) (filter (\<lambda>j. j mod unat shards = i) [0..<length sh]) \<and>
      length (validator_addresses (?as ! i)) = (length sh + unat shards - 1 - i) div unat shards"
    if "i < unat shards" for i
    using round_robin_length [OF that, of 0 sh] that by (simp add: round_robin_positions o_def)
  moreover have "map sc_shard_id ?as = shard_ids shards" "\<forall>a \<in> set ?as. sc_epoch a = epoch" by (simp_all add: shard_ids_def o_def)
  ultimately show ?thesis using build_committee_assignments_eq [OF assms(1)] parts assms(2) by blast
qed

text \<open>
  C23. Committee assignment: with at least one shard it does not panic; there is one committee
  per shard id in order; committee \<open>i\<close> holds the active validators at the positions \<open>i\<close>,
  \<open>i + n\<close>, \<open>i + 2n\<close>, ... of the list shuffled for the epoch, in that order, so that together the
  committees hold every active validator exactly once and their sizes differ by at most one; and
  the result does not depend on the order of the validator list. With no shard the result is
  empty when no validator is active and a panic otherwise.
\<close>

theorem committees_partition:
  assumes "distinct_active vs" and "mset vs' = mset vs" and "active = filter (\<lambda>v. v_stake v > 0) vs"
    and "sh = shuffled_validators epoch vs"
  shows "build_committee_assignments epoch shards vs' = build_committee_assignments epoch shards vs \<and>
    (if shards = 0
     then if active = [] then build_committee_assignments epoch shards vs = Inr []
       else \<exists>msg. build_committee_assignments epoch shards vs = Inl msg
     else \<exists>as. build_committee_assignments epoch shards vs = Inr as \<and>
       map sc_shard_id as = shard_ids shards \<and> (\<forall>a \<in> set as. sc_epoch a = epoch) \<and>
       (\<Sum>a\<leftarrow>as. mset (validator_addresses a)) = mset (map v_address active) \<and>
       (\<forall>i < unat shards. validator_addresses (as ! i) =
            map (\<lambda>j. v_address (sh ! j)) (filter (\<lambda>j. j mod unat shards = i) [0..<length sh]) \<and>
          length (validator_addresses (as ! i)) = (length active + unat shards - 1 - i) div unat shards))"
proof -
  have ms: "mset sh = mset active" "length sh = length active" by (simp_all add: shuffled_validators_def assms(3,4))
  have perm: "build_committee_assignments epoch shards vs' = build_committee_assignments epoch shards vs"
    by (simp only: build_committee_assignments_def shuffled_validators_perm [OF assms(2,1)])
  show ?thesis
  proof (cases "shards = 0")
    case True
    with ms(2) perm show ?thesis
      by (cases sh) (auto simp: build_committee_assignments_def shard_ids_def assms(4) [symmetric])
  next
    case False
    then have "0 < unat shards" by (simp add: unat_gt_0)
    from committees_round_robin [OF this assms(4)] ms perm False show ?thesis by simp
  qed
qed

theorem committees_partition_witness:
  "\<exists>as. build_committee_assignments 5 2 sample_validators = Inr as \<and> map sc_shard_id as = [0, 1] \<and>
     length (validator_addresses (as ! 0)) = 2 \<and> length (validator_addresses (as ! 1)) = 1"
proof -
  have "distinct_active sample_validators" by (simp add: sample_validators_def distinct_active_def)
  from committees_partition [OF this refl refl refl, of 5 2]
  obtain as where as: "build_committee_assignments 5 2 sample_validators = Inr as"
    "map sc_shard_id as = shard_ids 2"
    "\<forall>i < unat (2 :: u16). length (validator_addresses (as ! i)) =
       (length (filter (\<lambda>v. v_stake v > 0) sample_validators) + unat (2 :: u16) - 1 - i) div unat (2 :: u16)"
    by auto
  have "length (filter (\<lambda>v. v_stake v > 0) sample_validators) = 3" by (simp add: sample_validators_def)
  with as(3) have "length (validator_addresses (as ! 0)) = 2" "length (validator_addresses (as ! 1)) = 1"
    by simp_all
  moreover have "shard_ids 2 = [0, 1]" by (simp add: shard_ids_def upt_rec)
  ultimately show ?thesis using as by auto
qed

end
