(* ===== verification/Beacon.thy ===== *)
theory Beacon
  imports Committees
begin

text \<open>
  The beacon chain of \<open>src/src/sharding/mod.rs\<close> as a state machine: the invariant of its
  state-root table and committees under every operation, the table as a keyed store, and
  finality inside one shard.
\<close>

section \<open>Association by key\<close>

lemma find_map_of:
  "map_option val (find (\<lambda>r. key r = k) rs) = map_of (map (\<lambda>r. (key r, val r)) rs) k"
  by (induction rs) auto

lemma map_of_distinct_set:
  assumes "distinct (map fst xs)" and "distinct (map fst ys)" and "set xs = set ys"
  shows "map_of xs = map_of ys"
  using assms by (simp add: map_of_inject_set)

lemma map_of_append_new: "k \<notin> fst ` set xs \<Longrightarrow> map_of (xs @ [(k, v)]) = (map_of xs)(k \<mapsto> v)"
  by (induction xs) (auto simp: fun_eq_iff)

lemma map_of_list_update:
  "distinct (map fst xs) \<Longrightarrow> i < length xs \<Longrightarrow> fst (xs ! i) = k \<Longrightarrow> map_of (xs[i := (k, v)]) = (map_of xs)(k \<mapsto> v)"
proof (induction xs arbitrary: i)
  case (Cons x xs)
  show ?case
  proof (cases i)
    case 0
    with Cons.prems show ?thesis by (cases x) auto
  next
    case (Suc j)
    with Cons.prems have "fst x \<noteq> k" by (auto simp: image_iff)
    with Suc Cons show ?thesis by (cases x) (auto simp: fun_upd_twist)
  qed
qed simp

section \<open>The state-root table\<close>

definition roots_ok :: "ShardStateRoot list \<Rightarrow> bool" where
  "roots_ok rs \<longleftrightarrow> distinct (map root_key rs) \<and> sorted (map root_key rs) \<and>
     (\<forall>r \<in> set rs. length (state_root r) = 32)"

definition root_map :: "ShardStateRoot list \<Rightarrow> u64 \<times> u16 \<Rightarrow> bytes option" where
  "root_map rs = map_of (map (\<lambda>r. (root_key r, state_root r)) rs)"

lemma state_root_for_shard_map: "state_root_for_shard bc e i = root_map (shard_state_roots bc) (e, i)"
  unfolding state_root_for_shard_def root_map_def find_map_of [symmetric] by (simp add: root_key_def)

lemma root_map_sort:
  assumes "distinct (map root_key rs)"
  shows "root_map (sort_key root_key rs) = root_map rs"
proof -
  have "mset (map root_key (sort_key root_key rs)) = mset (map root_key rs)" by simp
  then have "distinct (map root_key (sort_key root_key rs))"
    using assms mset_eq_imp_distinct_iff by blast
  then show ?thesis
    unfolding root_map_def using assms by (intro map_of_distinct_set) (simp_all add: o_def)
qed

lemma roots_ok_sort:
  "distinct (map root_key rs) \<Longrightarrow> \<forall>r \<in> set rs. length (state_root r) = 32 \<Longrightarrow> roots_ok (sort_key root_key rs)"
proof -
  assume d: "distinct (map root_key rs)" and "\<forall>r \<in> set rs. length (state_root r) = 32"
  moreover have "distinct (map root_key (sort_key root_key rs))"
    using d mset_eq_imp_distinct_iff [of "map root_key (sort_key root_key rs)" "map root_key rs"] by simp
  ultimately show ?thesis by (simp add: roots_ok_def)
qed

text \<open>Initialising an epoch keeps what is stored and fills the gaps with the empty root.\<close>

lemma init_roots_ok:
  assumes "distinct (map root_key rs)" and "\<forall>r \<in> set rs. length (state_root r) = 32"
  shows "distinct (map root_key (init_roots e is rs)) \<and>
    (\<forall>r \<in> set (init_roots e is rs). length (state_root r) = 32) \<and>
    (\<forall>k. root_map (init_roots e is rs) k =
       (case root_map rs k of Some v \<Rightarrow> Some v
        | None \<Rightarrow> if fst k = e \<and> snd k \<in> set is then Some EMPTY_SHARD_STATE_ROOT else None))"
  using assms
proof (induction e "is" rs rule: init_roots.induct)
  case (1 e rs)
  then show ?case by (simp split: option.splits)
next
  case (2 e i js rs)
  show ?case
  proof (cases "\<exists>r \<in> set rs. sr_epoch r = e \<and> sr_shard_id r = i")
    case True
    then have "(e, i) \<in> fst ` set (map (\<lambda>r. (root_key r, state_root r)) rs)"
      by (force simp: root_key_def)
    then have "root_map rs (e, i) \<noteq> None" unfolding root_map_def map_of_eq_None_iff by simp
    with 2 True show ?thesis by (auto split: option.splits)
  next
    case False
    let ?n = "\<lparr>sr_epoch = e, sr_shard_id = i, state_root = EMPTY_SHARD_STATE_ROOT\<rparr>"
    have new: "(e, i) \<notin> root_key ` set rs" using False by (auto simp: root_key_def)
    have m: "root_map (rs @ [?n]) = (root_map rs)((e, i) \<mapsto> EMPTY_SHARD_STATE_ROOT)"
      unfolding root_map_def using new map_of_append_new [of "(e, i)" "map (\<lambda>r. (root_key r, state_root r)) rs"]
      by (simp add: image_image root_key_def)
    have "root_map rs (e, i) = None"
      unfolding root_map_def map_of_eq_None_iff using new by (simp add: image_image)
    with 2(2) [OF False] 2(3,4) False new m show ?thesis
      by (auto simp: root_key_def EMPTY_SHARD_STATE_ROOT_def SHARD_STATE_ROOT_LENGTH_def split: option.splits)
  qed
qed

section \<open>Operations\<close>

definition beacon_inv :: "BeaconChain \<Rightarrow> bool" where
  "beacon_inv bc \<longleftrightarrow> shard_count (config bc) \<noteq> 0 \<and> roots_ok (shard_state_roots bc)"

lemma store_cases:
  "store_shard_state_root bc e i root = Inr bc' \<longleftrightarrow>
   i < shard_count (config bc) \<and> length root = 32 \<and>
   bc' = (case position (\<lambda>r. sr_epoch r = e \<and> sr_shard_id r = i) (shard_state_roots bc) of
         Some j \<Rightarrow> bc\<lparr>shard_state_roots := (shard_state_roots bc)[j := (shard_state_roots bc ! j)\<lparr>state_root := root\<rparr>]\<rparr>
       | None \<Rightarrow> bc\<lparr>shard_state_roots := sort_key root_key (shard_state_roots bc @
             [\<lparr>sr_epoch = e, sr_shard_id = i, state_root = root\<rparr>])\<rparr>)"
  by (auto simp: store_shard_state_root_def validate_shard_id_def validate_state_root_length_def
      SHARD_STATE_ROOT_LENGTH_def result_simps not_less split: option.splits)

lemma store_roots:
  assumes "roots_ok (shard_state_roots bc)" and "store_shard_state_root bc e i root = Inr bc'"
  shows "roots_ok (shard_state_roots bc') \<and> config bc' = config bc \<and>
    root_map (shard_state_roots bc') = (root_map (shard_state_roots bc))((e, i) \<mapsto> root)"
proof (cases "position (\<lambda>r. sr_epoch r = e \<and> sr_shard_id r = i) (shard_state_roots bc)")
  case None
  let ?rs = "shard_state_roots bc"
  let ?new = "\<lparr>sr_epoch = e, sr_shard_id = i, state_root = root\<rparr>"
  have bc': "bc' = bc\<lparr>shard_state_roots := sort_key root_key (?rs @ [?new])\<rparr>" "length root = 32"
    using assms(2) None by (simp_all add: store_cases)
  have new: "(e, i) \<notin> root_key ` set ?rs" using None by (auto simp: position_None root_key_def)
  have d: "distinct (map root_key (?rs @ [?new]))"
    using assms(1) new by (simp add: roots_ok_def) (simp add: root_key_def)
  have "root_map (?rs @ [?new]) = (root_map ?rs)((e, i) \<mapsto> root)"
    unfolding root_map_def using new map_of_append_new [of "(e, i)" "map (\<lambda>r. (root_key r, state_root r)) ?rs"]
    by (simp add: image_image root_key_def)
  moreover have "roots_ok (sort_key root_key (?rs @ [?new]))"
    by (rule roots_ok_sort [OF d]) (use assms(1) bc'(2) in \<open>simp add: roots_ok_def\<close>)
  ultimately show ?thesis using root_map_sort [OF d] by (simp add: bc'(1))
next
  case (Some j)
  let ?rs = "shard_state_roots bc"
  let ?r = "(?rs ! j)\<lparr>state_root := root\<rparr>"
  have bc': "bc' = bc\<lparr>shard_state_roots := ?rs[j := ?r]\<rparr>" "length root = 32"
    using assms(2) Some by (simp_all add: store_cases)
  have j: "j < length ?rs" "root_key (?rs ! j) = (e, i)"
    using position_Some [OF Some] by (auto simp: root_key_def)
  have keys: "map root_key (?rs[j := ?r]) = map root_key ?rs"
    using j by (auto intro!: nth_equalityI simp: nth_list_update root_key_def)
  have "map (\<lambda>r. (root_key r, state_root r)) (?rs[j := ?r]) =
      (map (\<lambda>r. (root_key r, state_root r)) ?rs)[j := ((e, i), root)]"
    using j by (simp add: map_update root_key_def)
  then have "root_map (?rs[j := ?r]) = (root_map ?rs)((e, i) \<mapsto> root)"
    unfolding root_map_def using assms(1) j
    by (simp add: map_of_list_update roots_ok_def o_def)
  moreover have "roots_ok (?rs[j := ?r])"
    unfolding roots_ok_def keys using assms(1) bc'(2) set_update_subset_insert [of ?rs j ?r]
    by (auto simp: roots_ok_def)
  ultimately show ?thesis by (simp add: bc'(1))
qed

interpretation roots: keyed_store beacon_inv
  "\<lambda>bc k root. snd k < shard_count (config bc) \<and> length root = 32"
  "\<lambda>bc k root. store_shard_state_root bc (fst k) (snd k) root"
  "\<lambda>bc k. state_root_for_shard bc (fst k) (snd k)"
proof unfold_locales
  fix bc bc' k root
  show "\<exists>s'. store_shard_state_root bc (fst k) (snd k) root = Inr s'"
    if "snd k < shard_count (config bc) \<and> length root = 32"
    using that by (simp add: store_cases)
  assume st: "store_shard_state_root bc (fst k) (snd k) root = Inr bc'"
  show "(\<lambda>k root. snd k < shard_count (config bc') \<and> length root = 32) =
      (\<lambda>k root. snd k < shard_count (config bc) \<and> length root = 32)"
    using st by (auto simp: store_cases split: option.splits)
  assume inv: "beacon_inv bc"
  then have ok: "roots_ok (shard_state_roots bc)" by (simp add: beacon_inv_def)
  show "beacon_inv bc'" using store_roots [OF ok st] inv by (simp add: beacon_inv_def)
  show "(\<lambda>k. state_root_for_shard bc' (fst k) (snd k)) =
      (\<lambda>k. state_root_for_shard bc (fst k) (snd k))(k \<mapsto> root)"
    using store_roots [OF ok st] by (auto simp: state_root_for_shard_map fun_eq_iff)
qed

section \<open>Rebuilding an epoch\<close>

lemma sort_key_same_key: "\<forall>x \<in> set xs. f x = c \<Longrightarrow> sort_key f xs = xs"
  by (induction xs) (auto simp: insort_is_Cons)

lemma find_filter: "find P xs = (case filter P xs of [] \<Rightarrow> None | x # _ \<Rightarrow> Some x)"
  by (induction xs) auto

text \<open>Sorting by (epoch, shard) does not change which committee a lookup finds.\<close>

lemma find_sort_committees:
  "find (\<lambda>a. sc_epoch a = e \<and> sc_shard_id a = i) (sort_key (\<lambda>a. (sc_epoch a, sc_shard_id a)) as) =
   find (\<lambda>a. sc_epoch a = e \<and> sc_shard_id a = i) as"
proof -
  have "filter (\<lambda>a. sc_epoch a = e \<and> sc_shard_id a = i) (sort_key (\<lambda>a. (sc_epoch a, sc_shard_id a)) as) =
      filter (\<lambda>a. sc_epoch a = e \<and> sc_shard_id a = i) as"
    unfolding filter_sort by (rule sort_key_same_key [of _ _ "(e, i)"]) auto
  then show ?thesis by (simp only: find_filter)
qed

lemma find_other_epoch:
  "e' \<noteq> e \<Longrightarrow> \<forall>a \<in> set bs. sc_epoch a = e \<Longrightarrow>
   find (\<lambda>a. sc_epoch a = e' \<and> sc_shard_id a = i) (filter (\<lambda>a. sc_epoch a \<noteq> e) as @ bs) =
   find (\<lambda>a. sc_epoch a = e' \<and> sc_shard_id a = i) as"
  by (induction as) (auto simp: find_None_iff)

lemma find_nth_committee:
  assumes "k < n" and "n \<le> 2 ^ 16" and "\<forall>i < n. sc_epoch (g i) = e \<and> sc_shard_id (g i) = of_nat i"
  shows "find (\<lambda>a. sc_epoch a = e \<and> sc_shard_id a = of_nat k) (filter (\<lambda>a. sc_epoch a \<noteq> e) as @ map g [0..<n]) = Some (g k)"
proof -
  have inj: "of_nat i = (of_nat k :: u16) \<longleftrightarrow> i = k" if "i < n" for i
    using that assms(1,2) by (auto simp: word_of_nat_eq_iff take_bit_nat_eq_self)
  have "find (\<lambda>a. sc_epoch a = e \<and> sc_shard_id a = of_nat k) (map g [0..<n]) = Some (g k)"
  proof (rule find_unique)
    show "g k \<in> set (map g [0..<n])" using assms(1) by simp
    show "sc_epoch (g k) = e \<and> sc_shard_id (g k) = of_nat k" using assms(1,3) by simp
    fix y assume "y \<in> set (map g [0..<n])" and y: "sc_epoch y = e \<and> sc_shard_id y = of_nat k"
    then obtain i where i: "i < n" "y = g i" by auto
    with y assms(3) have "of_nat i = (of_nat k :: u16)" by simp
    with inj [OF i(1)] i(2) show "y = g k" by simp
  qed
  moreover have "find (\<lambda>a. sc_epoch a = e \<and> sc_shard_id a = of_nat k) (filter (\<lambda>a. sc_epoch a \<noteq> e) as) = None"
    by (auto simp: find_None_iff)
  ultimately show ?thesis by (simp add: find_append)
qed

lemma rebuild_epoch_result:
  assumes "beacon_inv bc"
  shows "\<exists>bc'. rebuild_epoch bc e = Inr bc' \<and> beacon_inv bc' \<and> config bc' = config bc \<and>
    bc_validators bc' = bc_validators bc \<and> current_epoch bc' = e \<and>
    (\<forall>i < unat (shard_count (config bc)). committee_for_shard bc' e (of_nat i) =
       Some \<lparr>sc_epoch = e, sc_shard_id = of_nat i, validator_addresses = map v_address
         (round_robin (unat (shard_count (config bc))) 0 i (shuffled_validators e (active_validators bc)))\<rparr>) \<and>
    (\<forall>e' i. e' \<noteq> e \<longrightarrow> committee_for_shard bc' e' i = committee_for_shard bc e' i) \<and>
    (\<forall>e' i. state_root_for_shard bc' e' i = (case state_root_for_shard bc e' i of Some v \<Rightarrow> Some v
       | None \<Rightarrow> if e' = e \<and> i < shard_count (config bc) then Some EMPTY_SHARD_STATE_ROOT else None))"
proof -
  let ?n = "unat (shard_count (config bc))"
  let ?g = "\<lambda>i. \<lparr>sc_epoch = e, sc_shard_id = of_nat i :: u16, validator_addresses = map v_address
         (round_robin ?n 0 i (shuffled_validators e (active_validators bc)))\<rparr>"
  have pos: "0 < ?n" using assms by (simp add: beacon_inv_def unat_gt_0)
  have small: "?n \<le> 2 ^ 16" by (rule less_imp_le, rule order.strict_trans2 [OF unsigned_less]) simp
  define rs where "rs = init_roots e (shard_ids (shard_count (config bc))) (shard_state_roots bc)"
  define cs where "cs = filter (\<lambda>a. sc_epoch a \<noteq> e) (shard_committees bc) @ map ?g [0..<?n]"
  define bc' where "bc' = bc\<lparr>current_epoch := e,
      shard_committees := sort_key (\<lambda>a. (sc_epoch a, sc_shard_id a)) cs, shard_state_roots := sort_key root_key rs\<rparr>"
  have run: "rebuild_epoch bc e = Inr bc'"
    by (simp add: rebuild_epoch_def replace_committees_for_epoch_def initialize_state_roots_for_epoch_def
        active_validators_def build_committee_assignments_eq [OF pos] bc'_def rs_def cs_def)
  have dr: "distinct (map root_key (shard_state_roots bc))" "\<forall>r \<in> set (shard_state_roots bc). length (state_root r) = 32"
    using assms by (simp_all add: beacon_inv_def roots_ok_def)
  note init = init_roots_ok [OF dr, of e "shard_ids (shard_count (config bc))", folded rs_def]
  have ids: "i \<in> set (shard_ids (shard_count (config bc))) \<longleftrightarrow> i < shard_count (config bc)" for i :: u16
  proof
    assume "i < shard_count (config bc)"
    then have "of_nat (unat i) = i" "unat i \<in> {0..<?n}" by (simp_all add: word_less_nat_alt)
    then show "i \<in> set (shard_ids (shard_count (config bc)))"
      unfolding shard_ids_def set_map set_upt by (metis imageI)
  qed (auto simp: shard_ids_def word_less_nat_alt u16_index)
  have shard_roots: "shard_state_roots bc' = sort_key root_key rs" by (simp add: bc'_def)
  have "beacon_inv bc'"
    using assms roots_ok_sort init by (simp add: beacon_inv_def bc'_def)
  moreover have "state_root_for_shard bc' e' i = (case state_root_for_shard bc e' i of Some v \<Rightarrow> Some v
       | None \<Rightarrow> if e' = e \<and> i < shard_count (config bc) then Some EMPTY_SHARD_STATE_ROOT else None)" for e' i
    using init [THEN conjunct2, THEN conjunct2, rule_format, of "(e', i)"] root_map_sort [OF init [THEN conjunct1]]
    by (simp only: state_root_for_shard_map shard_roots fst_conv snd_conv ids)
  moreover have "committee_for_shard bc' e (of_nat i) = Some (?g i)" if "i < ?n" for i
    unfolding committee_for_shard_def bc'_def
    using find_nth_committee [OF that small, of ?g e "shard_committees bc"] by (simp add: find_sort_committees cs_def)
  moreover have "committee_for_shard bc' e' i = committee_for_shard bc e' i" if "e' \<noteq> e" for e' i
    unfolding committee_for_shard_def bc'_def
    using find_other_epoch [OF that, of "map ?g [0..<?n]" i "shard_committees bc"] by (simp add: find_sort_committees cs_def)
  ultimately show ?thesis using run by (intro exI [of _ bc']) (simp add: bc'_def)
qed

section \<open>Reachable beacon chains\<close>

inductive beacon_step :: "BeaconChain \<Rightarrow> BeaconChain \<Rightarrow> bool" where
  Register: "register_validator bc v = Inr bc' \<Longrightarrow> beacon_step bc bc'"
| Replace: "replace_validators bc vs = Inr bc' \<Longrightarrow> beacon_step bc bc'"
| Advance: "advance_epoch bc = Inr bc' \<Longrightarrow> beacon_step bc bc'"
| Store: "store_shard_state_root bc e i root = Inr bc' \<Longrightarrow> beacon_step bc bc'"
| Update: "update_shard_state_root_from_block bc e i block = Inr bc' \<Longrightarrow> beacon_step bc bc'"
| Governance: "apply_governance_update (config bc) n = Inr cfg \<Longrightarrow> beacon_step bc (bc\<lparr>config := cfg\<rparr>)"

inductive beacon_reachable :: "BeaconChain \<Rightarrow> bool" where
  Start: "ShardingConfig_new n = Inr cfg \<Longrightarrow> BeaconChain_new cfg vs = Inr bc \<Longrightarrow> beacon_reachable bc"
| Start_default: "BeaconChain_new ShardingConfig_default vs = Inr bc \<Longrightarrow> beacon_reachable bc"
| Step: "beacon_reachable bc \<Longrightarrow> beacon_step bc bc' \<Longrightarrow> beacon_reachable bc'"

inductive_cases beacon_stepE: "beacon_step bc bc'"

lemma beacon_inv_validators [simp]: "beacon_inv (bc\<lparr>bc_validators := vs\<rparr>) = beacon_inv bc"
  by (simp add: beacon_inv_def)

lemma rebuild_epoch_inv: "beacon_inv bc \<Longrightarrow> rebuild_epoch bc e = Inr bc' \<Longrightarrow> beacon_inv bc'"
  using rebuild_epoch_result [of bc e] by auto

lemma new_beacon_inv:
  "shard_count cfg \<noteq> 0 \<Longrightarrow> BeaconChain_new cfg vs = Inr bc \<Longrightarrow> beacon_inv bc"
  unfolding BeaconChain_new_def by (rule rebuild_epoch_inv) (simp_all add: beacon_inv_def roots_ok_def)

lemma governance_count: "validate_shard_count n = Inr () \<Longrightarrow> n \<noteq> 0"
  by (auto simp: validate_shard_count_def MIN_SHARD_COUNT_def split: if_splits)

lemma beacon_step_inv: "beacon_step bc bc' \<Longrightarrow> beacon_inv bc \<Longrightarrow> beacon_inv bc'"
proof (induction rule: beacon_step.induct)
  case (Governance bc n cfg)
  then show ?case
    using governance_count by (auto simp: apply_governance_update_def beacon_inv_def result_simps)
next
  case (Store bc e i root bc')
  then show ?case using roots.put_inv [of bc "(e, i)" root bc'] by simp
next
  case (Update bc e i block bc')
  then show ?case
    using roots.put_inv [of bc "(e, i)" "h_merkle_root (b_header block)" bc']
    by (simp add: update_shard_state_root_from_block_def)
next
  case (Advance bc bc')
  then show ?case using rebuild_epoch_inv [of bc "current_epoch bc + 1" bc'] by (simp add: advance_epoch_def)
next
  case (Register bc v bc')
  then show ?case 
    using rebuild_epoch_inv [of "bc\<lparr>bc_validators := sort_validators (bc_validators bc @ [v])\<rparr>" "current_epoch bc" bc']
    by (simp add: register_validator_def)
next
  case (Replace bc vs bc')
  then show ?case 
    using rebuild_epoch_inv [of "bc\<lparr>bc_validators := sort_validators vs\<rparr>" "current_epoch bc" bc']
    by (simp add: replace_validators_def)
qed

lemma beacon_reachable_inv: "beacon_reachable bc \<Longrightarrow> beacon_inv bc"
proof (induction rule: beacon_reachable.induct)
  case (Start n cfg vs bc)
  then show ?case
    using governance_count by (intro new_beacon_inv [of cfg]) (auto simp: ShardingConfig_new_def result_simps)
next
  case (Start_default vs bc)
  then show ?case
    by (rule new_beacon_inv [rotated]) (simp add: ShardingConfig_default_def DEFAULT_INITIAL_SHARD_COUNT_def)
next
  case (Step bc bc')
  then show ?case using beacon_step_inv by blast
qed

text \<open>
  C24. A beacon chain built from a checked configuration never panics, whatever sequence of
  registrations, replacements, epoch advances, state-root writes and governance updates it
  went through; its state-root table stays sorted with one 32-byte root per (epoch, shard).
\<close>

theorem beacon_chain_safe:
  assumes "beacon_reachable bc"
  shows "(\<exists>bc'. register_validator bc v = Inr bc') \<and> (\<exists>bc'. replace_validators bc vs = Inr bc') \<and>
    (\<exists>bc'. advance_epoch bc = Inr bc') \<and>
    sorted (map (\<lambda>r. (sr_epoch r, sr_shard_id r)) (shard_state_roots bc)) \<and>
    distinct (map (\<lambda>r. (sr_epoch r, sr_shard_id r)) (shard_state_roots bc)) \<and>
    (\<forall>r \<in> set (shard_state_roots bc). length (state_root r) = 32)"
proof -
  have inv: "beacon_inv bc" using assms by (rule beacon_reachable_inv)
  have key: "(\<lambda>r. (sr_epoch r, sr_shard_id r)) = root_key" by (simp add: root_key_def fun_eq_iff)
  have "\<exists>bc'. rebuild_epoch (bc\<lparr>bc_validators := us\<rparr>) e = Inr bc'" for us e
    using rebuild_epoch_result [of "bc\<lparr>bc_validators := us\<rparr>" e] inv by auto
  moreover have "\<exists>bc'. rebuild_epoch bc e = Inr bc'" for e
    using rebuild_epoch_result [OF inv, of e] by auto
  ultimately show ?thesis
    using inv unfolding key
    by (simp add: register_validator_def replace_validators_def advance_epoch_def beacon_inv_def roots_ok_def)
qed

lemma sample_beacon: "\<exists>bc. BeaconChain_new \<lparr>shard_count = 2\<rparr> sample_validators = Inr bc \<and> beacon_reachable bc"
proof -
  have two: "is_power_of_two 2" unfolding is_power_of_two_iff by (intro exI [of _ 1]) simp
  have cfg: "ShardingConfig_new 2 = Inr \<lparr>shard_count = 2\<rparr>"
    by (simp add: ShardingConfig_new_def validate_shard_count_def MIN_SHARD_COUNT_def two)
  have "beacon_inv \<lparr>config = \<lparr>shard_count = 2\<rparr>, bc_validators = sort_validators sample_validators,
      current_epoch = 0, shard_committees = [], shard_state_roots = []\<rparr>"
    by (simp add: beacon_inv_def roots_ok_def)
  from rebuild_epoch_result [OF this, of 0] obtain bc
    where "BeaconChain_new \<lparr>shard_count = 2\<rparr> sample_validators = Inr bc"
    by (auto simp: BeaconChain_new_def)
  with beacon_reachable.Start [OF cfg this] show ?thesis by blast
qed

theorem beacon_chain_safe_witness:
  "\<exists>bc bc'. BeaconChain_new \<lparr>shard_count = 2\<rparr> sample_validators = Inr bc \<and> advance_epoch bc = Inr bc'"
  using sample_beacon beacon_chain_safe by metis



text \<open>
  The state-root table is a last-writer-wins store: after any sequence of writes with
  valid shard ids and 32-byte roots, a lookup returns the last root written for that epoch and
  shard, or what it returned before if there was none. A write with an invalid shard id or
  length is refused with the reason.
\<close>

theorem state_root_writes:
  assumes "beacon_reachable bc"
    and "\<forall>((e, i), root) \<in> set ws. i < shard_count (config bc) \<and> length root = 32"
  shows "(\<exists>bc'. try_fold (\<lambda>s ((e, i), root). store_shard_state_root s e i root) bc ws = Inr bc' \<and>
      (\<forall>e i. state_root_for_shard bc' e i =
        (case map_of (rev ws) (e, i) of Some root \<Rightarrow> Some root | None \<Rightarrow> state_root_for_shard bc e i))) \<and>
    (shard_count (config bc) \<le> j \<longrightarrow>
      store_shard_state_root bc e j root = Inl (InvalidShardId j (shard_count (config bc)))) \<and>
    (j < shard_count (config bc) \<longrightarrow> length root \<noteq> 32 \<longrightarrow>
      store_shard_state_root bc e j root = Inl (InvalidStateRootLength 32 (length root)))"
proof -
  have fold: "(\<lambda>s (k, root). store_shard_state_root s (fst k) (snd k) root) =
      (\<lambda>s ((e, i), root). store_shard_state_root s e i root)"
    by (simp add: fun_eq_iff split_beta)
  have "\<forall>(k, root) \<in> set ws. snd k < shard_count (config bc) \<and> length root = 32"
    using assms(2) by (simp add: split_beta)
  from roots.puts_get [OF beacon_reachable_inv [OF assms(1)] this]
  obtain bc' where run: "try_fold (\<lambda>s ((e, i), root). store_shard_state_root s e i root) bc ws = Inr bc'"
    and get: "(\<lambda>k. state_root_for_shard bc' (fst k) (snd k)) =
      (\<lambda>k. state_root_for_shard bc (fst k) (snd k)) ++ map_of (rev ws)"
    unfolding fold by (elim exE conjE)
  have "state_root_for_shard bc' e i =
      (case map_of (rev ws) (e, i) of Some root \<Rightarrow> Some root | None \<Rightarrow> state_root_for_shard bc e i)" for e i
    using fun_cong [OF get, of "(e, i)"] by (simp add: map_add_def split: option.splits)
  with run show ?thesis
    by (auto simp: store_shard_state_root_def validate_shard_id_def validate_state_root_length_def
        SHARD_STATE_ROOT_LENGTH_def)
qed

theorem state_root_writes_witness:
  "\<exists>bc bc'. BeaconChain_new \<lparr>shard_count = 2\<rparr> sample_validators = Inr bc \<and>
     try_fold (\<lambda>s ((e, i), root). store_shard_state_root s e i root) bc
       [((0, 1), replicate 32 4), ((0, 1), replicate 32 5)] = Inr bc' \<and>
     state_root_for_shard bc' 0 1 = Some (replicate 32 5)"
proof -
  obtain bc where bc: "BeaconChain_new \<lparr>shard_count = 2\<rparr> sample_validators = Inr bc" "beacon_reachable bc"
    using sample_beacon by blast
  have "beacon_inv \<lparr>config = \<lparr>shard_count = 2\<rparr>, bc_validators = sort_validators sample_validators,
      current_epoch = 0, shard_committees = [], shard_state_roots = []\<rparr>"
    by (simp add: beacon_inv_def roots_ok_def)
  from rebuild_epoch_result [OF this, of 0] bc(1) have "config bc = \<lparr>shard_count = 2\<rparr>"
    by (auto simp: BeaconChain_new_def)
  then obtain bc' where
    "try_fold (\<lambda>s ((e, i), root). store_shard_state_root s e i root) bc
       [((0, 1), replicate 32 4), ((0, 1), replicate 32 5)] = Inr bc'"
    "\<forall>e i. state_root_for_shard bc' e i = (case map_of (rev [((0, 1), replicate 32 4), ((0, 1), replicate 32 5)]) (e, i)
        of Some root \<Rightarrow> Some root | None \<Rightarrow> state_root_for_shard bc e i)"
    using state_root_writes [OF bc(2), of "[((0, 1), replicate 32 4), ((0, 1), replicate 32 5)]" 0 0 "[]"]
    by (simp del: try_fold.simps) blast
  with bc(1) show ?thesis by (intro exI [of _ bc] exI [of _ bc']) simp
qed

section \<open>Finality inside a shard\<close>

text \<open>
  A shard consensus instance keeps the collector's invariant for its own committee when
  it collects votes, and reports finality exactly when the approving committee members hold
  more than two thirds of the committee's stake.
\<close>

theorem shard_finality:
  assumes "collector_inv E (committee sh) (collector sh)" and "distinct_active (committee sh)"
    and "active_stake (committee sh) < 2 ^ 64"
  shows "shard_is_finalized sh = Inr (Inr (2 * active_stake (committee sh) <
      3 * weight (committee sh) (approvers (collector sh)))) \<and>
    (shard_collect_vote E sh vote = Inr sh' \<longrightarrow>
       collector_inv E (committee sh') (collector sh') \<and> committee sh' = committee sh \<and>
       shard_vote_count sh' = shard_vote_count sh + 1)"
proof -
  obtain t where t: "collector_tally (collector sh) (committee sh) = Inr (Inr t)"
    "unat (approve_stake t) = weight (committee sh) (approvers (collector sh))"
    using collector_tally_weights [OF assms] by blast
  have fin: "is_block_finalized t (committee sh) \<longleftrightarrow>
      2 * active_stake (committee sh) < 3 * weight (committee sh) (approvers (collector sh))"
    using t(2) weight_le [of "committee sh" "approvers (collector sh)"] unat_total_active_stake [OF assms(3)]
    by (auto simp: is_block_finalized_iff)
  have "collector_inv E (committee sh') (collector sh') \<and> committee sh' = committee sh \<and>
       shard_vote_count sh' = shard_vote_count sh + 1" if "shard_collect_vote E sh vote = Inr sh'"
    using that assms(1)
    by (auto simp: shard_collect_vote_def collect_vote_def result_simps shard_vote_count_def collector_len_def
        collector_inv_def has_voted_def map_of_eq_None_iff split: if_splits)
  moreover have "shard_is_finalized sh = Inr (Inr (is_block_finalized t (committee sh)))"
    using t(1) by (simp add: shard_is_finalized_def shard_tally_def)
  ultimately show ?thesis unfolding fin by blast
qed

theorem shard_finality_witness:
  "shard_is_finalized (ShardConsensus_new 0 1 sample_validators) = Inr (Inr False)"
proof -
  let ?sh = "ShardConsensus_new 0 1 sample_validators"
  have com: "committee ?sh = sample_validators"
    by (simp add: ShardConsensus_new_def sort_validators_def sample_validators_def replicate_32_le less_eq_prod_def less_le)
  have col: "collector ?sh = VoteCollector_new" by (simp add: ShardConsensus_new_def)
  have "collector_inv sample_consensus_env (committee ?sh) (collector ?sh)"
    unfolding col by (rule collector_inv_new)
  moreover have "distinct_active (committee ?sh)" "active_stake (committee ?sh) < 2 ^ 64"
    unfolding com by (simp_all add: sample_validators_def distinct_active_def)
  ultimately have "shard_is_finalized ?sh = Inr (Inr (2 * active_stake (committee ?sh) <
      3 * weight (committee ?sh) (approvers (collector ?sh))))"
    using shard_finality by blast
  then show ?thesis by (simp add: com col VoteCollector_new_def approvers_def)
qed

end
