(* ===== verification/CrossShard.thy ===== *)
theory CrossShard
  imports Committees
begin

text \<open>
  Cross-shard transactions of \<open>src/src/sharding/mod.rs\<close> (lines 91 to 99, 157 to 186, 308 to
  457 and 640 to 719): the prepare, validate and commit phases with their receipts, receipt
  proofs and global finality. The phases form a state machine whose reachable executions are
  characterised; the receipt digest detects every change of a single byte.
\<close>

unbundle bit_operations_syntax

section \<open>Executions and receipts\<close>

record CrossShardExecution =
  xs_transaction :: Transaction
  xs_tx_hash :: bytes
  source_prepared :: bool
  destination_validated :: bool
  xs_committed :: bool
  xs_receipts :: "CrossShardReceipt list"

datatype CrossShardTransactionError =
    XS_BeaconChain BeaconChainError
  | NotCrossShard
  | SourceShardNotPrepared
  | DestinationShardNotValidated
  | DestinationAlreadyValidated
  | AlreadyCommitted
  | XS_Serialization string
  | InvalidReceiptCount nat nat
  | MissingReceiptPhase CrossShardPhase
  | ReceiptTxHashMismatch
  | ReceiptRouteMismatch u16 u16 u16 u16
  | InvalidReceiptProof CrossShardPhase

fun phase_tag :: "CrossShardPhase \<Rightarrow> u8" where
  "phase_tag Prepare = 1"
| "phase_tag Validate = 2"
| "phase_tag Commit = 3"

definition build_receipt_proof :: "bytes \<Rightarrow> CrossShardPhase \<Rightarrow> u16 \<Rightarrow> u16 \<Rightarrow> bytes" where
  "build_receipt_proof tx_hash phase source destination =
     deterministic_digest (tx_hash @ to_be_bytes 2 source @ to_be_bytes 2 destination @ [phase_tag phase])
       0xB4B4B4B4B4B4B4B4"

definition validate_cross_shard_route :: "Transaction \<Rightarrow> u16 \<Rightarrow> (unit, CrossShardTransactionError) result" where
  "validate_cross_shard_route tx shards =
     and_then (map_err XS_BeaconChain (validate_shard_id (tx_source_shard tx) shards)) (\<lambda>_.
     and_then (map_err XS_BeaconChain (validate_shard_id (tx_destination_shard tx) shards)) (\<lambda>_.
       if \<not> is_cross_shard tx then Inl NotCrossShard else Inr ()))"

definition build_cross_shard_transaction_hash ::
  "'z env_scheme \<Rightarrow> Transaction \<Rightarrow> (bytes, CrossShardTransactionError) result" where
  "build_cross_shard_transaction_hash E tx =
     and_then (map_err XS_Serialization (serialize (bc_transaction E) tx))
       (\<lambda>encoded. Inr (deterministic_digest encoded 0xA5A5A5A5A5A5A5A5))"

definition build_cross_shard_receipt :: "Transaction \<Rightarrow> bytes \<Rightarrow> CrossShardPhase \<Rightarrow> CrossShardReceipt" where
  "build_cross_shard_receipt tx tx_hash phase =
     \<lparr>r_tx_hash = tx_hash, r_source_shard = tx_source_shard tx, r_destination_shard = tx_destination_shard tx,
      r_phase = phase,
      r_proof = build_receipt_proof tx_hash phase (tx_source_shard tx) (tx_destination_shard tx)\<rparr>"

definition expected_receipt_phases :: "CrossShardExecution \<Rightarrow> CrossShardPhase list" where
  "expected_receipt_phases ex =
     (if source_prepared ex \<or> destination_validated ex \<or> xs_committed ex then [Prepare] else []) @
     (if destination_validated ex \<or> xs_committed ex then [Validate] else []) @
     (if xs_committed ex then [Commit] else [])"

section \<open>Operations\<close>

definition prepare_cross_shard_transaction :: "'z env_scheme \<Rightarrow> BeaconChain \<Rightarrow> Transaction
    \<Rightarrow> (CrossShardExecution, CrossShardTransactionError) result" where
  "prepare_cross_shard_transaction E bc tx =
     and_then (validate_cross_shard_route tx (shard_count (config bc))) (\<lambda>_.
     and_then (build_cross_shard_transaction_hash E tx) (\<lambda>tx_hash.
       Inr \<lparr>xs_transaction = tx, xs_tx_hash = tx_hash, source_prepared = True,
            destination_validated = False, xs_committed = False,
            xs_receipts = [build_cross_shard_receipt tx tx_hash Prepare]\<rparr>))"

definition validate_cross_shard_transaction ::
  "BeaconChain \<Rightarrow> CrossShardExecution \<Rightarrow> (CrossShardExecution, CrossShardTransactionError) result" where
  "validate_cross_shard_transaction bc ex =
     and_then (validate_cross_shard_route (xs_transaction ex) (shard_count (config bc))) (\<lambda>_.
       if \<not> source_prepared ex then Inl SourceShardNotPrepared
       else if destination_validated ex then Inl DestinationAlreadyValidated
       else if xs_committed ex then Inl AlreadyCommitted
       else Inr (ex\<lparr>xs_receipts := xs_receipts ex @
              [build_cross_shard_receipt (xs_transaction ex) (xs_tx_hash ex) Validate],
            destination_validated := True\<rparr>))"

definition commit_cross_shard_transaction ::
  "BeaconChain \<Rightarrow> CrossShardExecution \<Rightarrow> (CrossShardExecution, CrossShardTransactionError) result" where
  "commit_cross_shard_transaction bc ex =
     and_then (validate_cross_shard_route (xs_transaction ex) (shard_count (config bc))) (\<lambda>_.
       if xs_committed ex then Inl AlreadyCommitted
       else if \<not> source_prepared ex then Inl SourceShardNotPrepared
       else if \<not> destination_validated ex then Inl DestinationShardNotValidated
       else Inr (ex\<lparr>xs_receipts := xs_receipts ex @
              [build_cross_shard_receipt (xs_transaction ex) (xs_tx_hash ex) Commit],
            xs_committed := True\<rparr>))"

definition include_receipts_in_block :: "Block \<Rightarrow> CrossShardExecution \<Rightarrow> Block" where
  "include_receipts_in_block block ex = block\<lparr>b_receipts := b_receipts block @ xs_receipts ex\<rparr>"

definition validate_cross_shard_receipt ::
  "BeaconChain \<Rightarrow> Transaction \<Rightarrow> bytes \<Rightarrow> CrossShardReceipt \<Rightarrow> (unit, CrossShardTransactionError) result" where
  "validate_cross_shard_receipt bc tx tx_hash r =
     and_then (validate_cross_shard_route tx (shard_count (config bc))) (\<lambda>_.
       if r_tx_hash r \<noteq> tx_hash then Inl ReceiptTxHashMismatch
       else if r_source_shard r \<noteq> tx_source_shard tx \<or> r_destination_shard r \<noteq> tx_destination_shard tx
       then Inl (ReceiptRouteMismatch (tx_source_shard tx) (tx_destination_shard tx)
                   (r_source_shard r) (r_destination_shard r))
       else if r_proof r \<noteq> build_receipt_proof tx_hash (r_phase r) (r_source_shard r) (r_destination_shard r)
       then Inl (InvalidReceiptProof (r_phase r))
       else Inr ())"

fun receipts_loop :: "BeaconChain \<Rightarrow> CrossShardExecution \<Rightarrow> (CrossShardReceipt \<times> CrossShardPhase) list
    \<Rightarrow> (unit, CrossShardTransactionError) result" where
  "receipts_loop bc ex [] = Inr ()"
| "receipts_loop bc ex ((r, phase) # rest) =
     (if r_phase r \<noteq> phase then Inl (MissingReceiptPhase phase)
      else and_then (validate_cross_shard_receipt bc (xs_transaction ex) (xs_tx_hash ex) r)
        (\<lambda>_. receipts_loop bc ex rest))"

definition validate_cross_shard_execution_proofs ::
  "BeaconChain \<Rightarrow> CrossShardExecution \<Rightarrow> (unit, CrossShardTransactionError) result" where
  "validate_cross_shard_execution_proofs bc ex =
     and_then (validate_cross_shard_route (xs_transaction ex) (shard_count (config bc))) (\<lambda>_.
       if xs_committed ex \<and> \<not> destination_validated ex then Inl DestinationShardNotValidated
       else if (destination_validated ex \<or> xs_committed ex) \<and> \<not> source_prepared ex
       then Inl SourceShardNotPrepared
       else let phases = expected_receipt_phases ex in
         if length (xs_receipts ex) \<noteq> length phases
         then Inl (InvalidReceiptCount (length phases) (length (xs_receipts ex)))
         else receipts_loop bc ex (zip (xs_receipts ex) phases))"

definition is_cross_shard_execution_globally_finalized ::
  "BeaconChain \<Rightarrow> CrossShardExecution \<Rightarrow> (bool, CrossShardTransactionError) result" where
  "is_cross_shard_execution_globally_finalized bc ex =
     and_then (validate_cross_shard_execution_proofs bc ex) (\<lambda>_.
       Inr (source_prepared ex \<and> destination_validated ex \<and> xs_committed ex \<and> length (xs_receipts ex) = 3))"

section \<open>The digest\<close>

lemma xor_left_inj: "(a XOR c = b XOR c) = (a = (b :: u64))"
proof
  assume "a XOR c = b XOR c"
  then have "(a XOR c) XOR c = (b XOR c) XOR c" by simp
  then show "a = b" by (simp add: xor.assoc)
qed simp

lemma absorb_append: "absorb st i (xs @ ys) = absorb (absorb st i xs) (i + length xs) ys"
  by (induction xs arbitrary: st i) simp_all

text \<open>For a fixed rest of the payload the state is mixed injectively.\<close>

lemma absorb_inj: "absorb a i bs = absorb b i bs \<longleftrightarrow> a = b"
  by (induction bs arbitrary: a b i) (simp_all add: splitmix64_inj xor_left_inj)

lemma ucast_byte_inj: "(ucast a :: u64) = ucast b \<longleftrightarrow> a = (b :: u8)"
proof
  assume "(ucast a :: u64) = ucast b"
  then have "unat (ucast a :: u64) = unat (ucast b :: u64)" by simp
  then have "unat a = unat b" by (simp add: unat_ucast_up)
  then show "a = b" by (rule unat_inj)
qed simp

lemma absorb_byte_inj: "absorb st i (x # bs) = absorb st i (y # bs) \<longleftrightarrow> x = y"
  by (simp add: absorb_inj splitmix64_inj xor.commute [of st] xor_left_inj ucast_byte_inj)

lemma length_deterministic_digest [simp]: "length (deterministic_digest p seed) = 32"
  by (simp add: deterministic_digest_def RECEIPT_PROOF_LENGTH_def Let_def length_concat o_def sum_list_triv)

lemma digest_state:
  assumes "deterministic_digest p seed = deterministic_digest q seed'"
  shows "absorb (seed XOR (of_nat (length p) * GOLDEN)) 0 p = absorb (seed' XOR (of_nat (length q) * GOLDEN)) 0 q"
proof -
  have head: "take 8 (deterministic_digest p seed) =
      to_be_bytes 8 (splitmix64 (absorb (seed XOR (of_nat (length p) * GOLDEN)) 0 p))" for p seed
    by (simp add: deterministic_digest_def RECEIPT_PROOF_LENGTH_def Let_def upt_rec)
  from arg_cong [OF assms, of "take 8"] show ?thesis
    by (simp add: head to_be_bytes_inj splitmix64_inj)
qed

lemma digest_byte_inj:
  "deterministic_digest (xs @ b # ys) seed = deterministic_digest (xs @ c # ys) seed \<longleftrightarrow> b = c"
proof
  assume eq: "deterministic_digest (xs @ b # ys) seed = deterministic_digest (xs @ c # ys) seed"
  have len: "length (xs @ b # ys) = length (xs @ c # ys)" by simp
  from digest_state [OF eq] show "b = c" by (simp only: len absorb_append absorb_byte_inj)
qed simp

text \<open>
  The digest behind transaction hashes and receipt proofs detects every change of a
  single byte of its input: two payloads of the same length that differ in one position have
  different digests. (The digest has a 64-bit state and no key, so this is all it promises.)
\<close>

theorem digest_detects_byte_change:
  assumes "i < length p" and "b \<noteq> p ! i"
  shows "deterministic_digest (p[i := b]) seed \<noteq> deterministic_digest p seed"
proof -
  have "p[i := b] = take i p @ b # drop (Suc i) p" using assms(1) by (rule upd_conv_take_nth_drop)
  moreover have "p = take i p @ p ! i # drop (Suc i) p" using assms(1) by (rule id_take_nth_drop)
  ultimately show ?thesis using assms(2) digest_byte_inj by metis
qed

theorem digest_detects_byte_change_witness:
  "deterministic_digest [1, 7, 3] 0 \<noteq> deterministic_digest [1, 2, 3] 0"
  using digest_detects_byte_change [of 1 "[1, 2, 3]" 7 0] by simp

lemma receipt_proof_phase:
  "build_receipt_proof h ph s d = build_receipt_proof h ph' s d \<longleftrightarrow> ph = ph'"
proof
  assume "build_receipt_proof h ph s d = build_receipt_proof h ph' s d"
  then have "phase_tag ph = phase_tag ph'"
    using digest_byte_inj [of "h @ to_be_bytes 2 s @ to_be_bytes 2 d" _ "[]"]
    by (simp only: build_receipt_proof_def append.assoc)
  then show "ph = ph'" by (cases ph; cases ph') simp_all
qed simp

section \<open>The protocol\<close>

definition route_ok :: "BeaconChain \<Rightarrow> Transaction \<Rightarrow> bool" where
  "route_ok bc tx \<longleftrightarrow> tx_source_shard tx < shard_count (config bc) \<and>
     tx_destination_shard tx < shard_count (config bc) \<and> tx_source_shard tx \<noteq> tx_destination_shard tx"

lemma validate_route_iff: "validate_cross_shard_route tx (shard_count (config bc)) = Inr () \<longleftrightarrow> route_ok bc tx"
  by (auto simp: validate_cross_shard_route_def validate_shard_id_def route_ok_def is_cross_shard_def
      result_simps not_less split: if_splits)

lemma validate_route_ok [simp]: "route_ok bc tx \<Longrightarrow> validate_cross_shard_route tx (shard_count (config bc)) = Inr ()"
  by (simp add: validate_route_iff)

inductive xs_reachable :: "'z env_scheme \<Rightarrow> Transaction \<Rightarrow> CrossShardExecution \<Rightarrow> bool"
  for E tx where
  Prepared: "prepare_cross_shard_transaction E bc tx = Inr ex \<Longrightarrow> xs_reachable E tx ex"
| Validated: "xs_reachable E tx ex \<Longrightarrow> validate_cross_shard_transaction bc ex = Inr ex' \<Longrightarrow> xs_reachable E tx ex'"
| Committed: "xs_reachable E tx ex \<Longrightarrow> commit_cross_shard_transaction bc ex = Inr ex' \<Longrightarrow> xs_reachable E tx ex'"

text \<open>The three states of an execution of \<open>tx\<close>.\<close>

definition xs_state :: "Transaction \<Rightarrow> bytes \<Rightarrow> CrossShardPhase list \<Rightarrow> CrossShardExecution" where
  "xs_state tx h phases = \<lparr>xs_transaction = tx, xs_tx_hash = h, source_prepared = Prepare \<in> set phases,
     destination_validated = Validate \<in> set phases, xs_committed = Commit \<in> set phases,
     xs_receipts = map (build_cross_shard_receipt tx h) phases\<rparr>"

lemma xs_reachable_states:
  assumes "xs_reachable E tx ex"
  shows "\<exists>h. build_cross_shard_transaction_hash E tx = Inr h \<and>
    ex \<in> {xs_state tx h [Prepare], xs_state tx h [Prepare, Validate], xs_state tx h [Prepare, Validate, Commit]}"
  using assms
proof (induction rule: xs_reachable.induct)
  case (Prepared bc ex)
  then show ?case by (auto simp: prepare_cross_shard_transaction_def result_simps xs_state_def)
next
  case (Validated ex bc ex')
  then show ?case
    by (elim exE conjE) (auto simp: validate_cross_shard_transaction_def result_simps xs_state_def split: if_splits)
next
  case (Committed ex bc ex')
  then show ?case
    by (elim exE conjE) (auto simp: commit_cross_shard_transaction_def result_simps xs_state_def split: if_splits)
qed

lemma receipts_loop_built:
  "route_ok bc (xs_transaction ex) \<Longrightarrow>
   receipts_loop bc ex (zip (map (build_cross_shard_receipt (xs_transaction ex) (xs_tx_hash ex)) phases) phases) = Inr ()"
  by (induction phases) (simp_all add: validate_cross_shard_receipt_def build_cross_shard_receipt_def)

lemma xs_state_proofs:
  assumes "route_ok bc tx"
    and "phases \<in> {[Prepare], [Prepare, Validate], [Prepare, Validate, Commit]}"
  shows "validate_cross_shard_execution_proofs bc (xs_state tx h phases) = Inr ()"
proof -
  have "expected_receipt_phases (xs_state tx h phases) = phases"
    using assms(2) by (auto simp: expected_receipt_phases_def xs_state_def)
  then show ?thesis
    using assms receipts_loop_built [of bc "xs_state tx h phases" phases]
    by (auto simp: validate_cross_shard_execution_proofs_def Let_def xs_state_def)
qed

text \<open>
  C13. Every execution the three phases can produce is in one of three states: prepared;
  prepared and validated; prepared, validated and committed, with exactly the receipts of its
  phases. Its proofs verify on every beacon chain its route is valid for, and it is reported
  globally finalised exactly when it is committed.
\<close>

theorem cross_shard_protocol:
  assumes "xs_reachable E tx ex" and "route_ok bc tx"
  shows "xs_transaction ex = tx \<and> source_prepared ex \<and> (xs_committed ex \<longrightarrow> destination_validated ex) \<and>
    map r_phase (xs_receipts ex) = Prepare # (if destination_validated ex then [Validate] else []) @
      (if xs_committed ex then [Commit] else []) \<and>
    validate_cross_shard_execution_proofs bc ex = Inr () \<and>
    is_cross_shard_execution_globally_finalized bc ex = Inr (xs_committed ex)"
proof -
  obtain h phases where ex: "ex = xs_state tx h phases"
    and ph: "phases \<in> {[Prepare], [Prepare, Validate], [Prepare, Validate, Commit]}"
    using xs_reachable_states [OF assms(1)] by auto
  have "validate_cross_shard_execution_proofs bc ex = Inr ()"
    unfolding ex by (rule xs_state_proofs [OF assms(2) ph])
  with ph show ?thesis
    by (auto simp: is_cross_shard_execution_globally_finalized_def)
      (auto simp: ex xs_state_def build_cross_shard_receipt_def)
qed

text \<open>
  The phases run in order and once each: on a prepared execution validation succeeds
  exactly once and commit only after it; every other attempt is refused with the reason and
  no receipt is added.
\<close>

theorem cross_shard_order:
  assumes "xs_reachable E tx ex" and "route_ok bc tx"
  shows "validate_cross_shard_transaction bc ex =
      (if destination_validated ex then Inl DestinationAlreadyValidated
       else Inr (xs_state tx (xs_tx_hash ex) [Prepare, Validate])) \<and>
    commit_cross_shard_transaction bc ex =
      (if xs_committed ex then Inl AlreadyCommitted
       else if \<not> destination_validated ex then Inl DestinationShardNotValidated
       else Inr (xs_state tx (xs_tx_hash ex) [Prepare, Validate, Commit]))"
  using xs_reachable_states [OF assms(1)] assms(2)
  by (elim exE conjE)
    (auto simp: validate_cross_shard_transaction_def commit_cross_shard_transaction_def xs_state_def)

definition sample_beacon_chain :: BeaconChain where
  "sample_beacon_chain = \<lparr>config = \<lparr>shard_count = 4\<rparr>, bc_validators = [], current_epoch = 0,
     shard_committees = [], shard_state_roots = []\<rparr>"

definition sample_xs_tx :: Transaction where
  "sample_xs_tx = (sample_tx 1)\<lparr>tx_source_shard := 1, tx_destination_shard := 2\<rparr>"

lemma sample_route: "route_ok sample_beacon_chain sample_xs_tx"
  by (simp add: route_ok_def sample_beacon_chain_def sample_xs_tx_def sample_tx_def)

lemma sample_prepared:
  "\<exists>h. xs_reachable sample_env sample_xs_tx (xs_state sample_xs_tx h [Prepare])"
proof -
  obtain h where "build_cross_shard_transaction_hash sample_env sample_xs_tx = Inr h"
    by (simp add: build_cross_shard_transaction_hash_def sample_env_def field_codec_def)
  then have "prepare_cross_shard_transaction sample_env sample_beacon_chain sample_xs_tx =
      Inr (xs_state sample_xs_tx h [Prepare])"
    by (simp add: prepare_cross_shard_transaction_def sample_route xs_state_def)
  then show ?thesis using xs_reachable.Prepared by blast
qed

theorem cross_shard_protocol_witness:
  "\<exists>ex. xs_reachable sample_env sample_xs_tx ex \<and>
     is_cross_shard_execution_globally_finalized sample_beacon_chain ex = Inr False"
proof -
  obtain h where r: "xs_reachable sample_env sample_xs_tx (xs_state sample_xs_tx h [Prepare])"
    using sample_prepared by blast
  from cross_shard_protocol [OF r sample_route] r show ?thesis
    by (intro exI [of _ "xs_state sample_xs_tx h [Prepare]"]) (simp add: xs_state_def)
qed

theorem cross_shard_order_witness:
  "\<exists>ex h. xs_reachable sample_env sample_xs_tx ex \<and>
     validate_cross_shard_transaction sample_beacon_chain ex = Inr (xs_state sample_xs_tx h [Prepare, Validate]) \<and>
     commit_cross_shard_transaction sample_beacon_chain ex = Inl DestinationShardNotValidated"
proof -
  obtain h where r: "xs_reachable sample_env sample_xs_tx (xs_state sample_xs_tx h [Prepare])"
    using sample_prepared by blast
  from cross_shard_order [OF r sample_route] r show ?thesis
    by (intro exI [of _ "xs_state sample_xs_tx h [Prepare]"] exI [of _ h]) (simp add: xs_state_def)
qed

section \<open>Receipts\<close>

text \<open>
  A receipt is accepted for a transaction exactly when it carries its hash, its route and
  the proof of its own phase; in particular a receipt relabelled with another phase is refused.
\<close>

theorem receipt_accepted_iff:
  assumes "route_ok bc tx"
  shows "(validate_cross_shard_receipt bc tx h r = Inr () \<longleftrightarrow> r = build_cross_shard_receipt tx h (r_phase r)) \<and>
    (ph \<noteq> ph' \<longrightarrow> validate_cross_shard_receipt bc tx h
       ((build_cross_shard_receipt tx h ph)\<lparr>r_phase := ph'\<rparr>) = Inl (InvalidReceiptProof ph'))"
proof -
  have "validate_cross_shard_receipt bc tx h r = Inr () \<longleftrightarrow> r = build_cross_shard_receipt tx h (r_phase r)"
    using assms by (cases r) (auto simp: validate_cross_shard_receipt_def build_cross_shard_receipt_def)
  then show ?thesis
    using assms receipt_proof_phase by (auto simp: validate_cross_shard_receipt_def build_cross_shard_receipt_def)
qed

theorem receipt_accepted_iff_witness:
  "validate_cross_shard_receipt sample_beacon_chain sample_xs_tx [9]
     ((build_cross_shard_receipt sample_xs_tx [9] Prepare)\<lparr>r_phase := Commit\<rparr>) = Inl (InvalidReceiptProof Commit)"
  using receipt_accepted_iff [OF sample_route, of "[9]" _ Prepare Commit] by simp

text \<open>
  The proofs bind neither the transaction nor an authority: for every transaction with a
  valid route and every byte string whatsoever as its hash, an execution record with three
  computed receipts passes the checks and counts as globally finalised, although no beacon
  chain prepared, validated or committed it.
\<close>

theorem cross_shard_proofs_unauthenticated:
  assumes "route_ok bc tx"
  shows "is_cross_shard_execution_globally_finalized bc (xs_state tx h [Prepare, Validate, Commit]) = Inr True \<and>
    (build_cross_shard_transaction_hash E tx \<noteq> Inr h \<longrightarrow>
       \<not> xs_reachable E tx (xs_state tx h [Prepare, Validate, Commit]))"
proof -
  have "\<not> xs_reachable E tx (xs_state tx h [Prepare, Validate, Commit])"
    if "build_cross_shard_transaction_hash E tx \<noteq> Inr h"
    using xs_reachable_states [of E tx "xs_state tx h [Prepare, Validate, Commit]"] that
    by (auto simp: xs_state_def)
  then show ?thesis
    using xs_state_proofs [OF assms, of "[Prepare, Validate, Commit]" h]
    by (simp add: is_cross_shard_execution_globally_finalized_def) (simp add: xs_state_def)
qed

theorem cross_shard_proofs_unauthenticated_witness:
  "is_cross_shard_execution_globally_finalized sample_beacon_chain
     (xs_state sample_xs_tx [] [Prepare, Validate, Commit]) = Inr True"
  using cross_shard_proofs_unauthenticated [OF sample_route, of "[]" sample_env] by simp

text \<open>
  Receipts are outside the signed header: a valid block stays valid when its receipts are
  replaced by any others, as long as it stays below the size limit.
\<close>

theorem block_receipts_unsigned:
  assumes "validate_block E block prev = Inr (Inr ())"
    and "validate_block_size E (include_receipts_in_block (block\<lparr>b_receipts := rs\<rparr>) ex) = Inr ()"
  shows "validate_block E (include_receipts_in_block (block\<lparr>b_receipts := rs\<rparr>) ex) prev = Inr (Inr ())"
  using assms by (simp add: validate_block_Inr include_receipts_in_block_def)

theorem block_receipts_unsigned_witness:
  "validate_block sample_env
     (include_receipts_in_block (sample_block\<lparr>b_receipts := []\<rparr>) (xs_state sample_xs_tx [] [Prepare]))
     (replicate 32 7) = Inr (Inr ())"
  by (rule block_receipts_unsigned [OF sample_block_valid])
    (simp add: validate_block_size_def sample_env_def field_codec_def MAX_BLOCK_SIZE_BYTES_def)

end
