(* ===== verification/Privacy.thy ===== *)
theory Privacy
  imports NoteTree
begin

text \<open>
  The rest of \<open>src/src/privacy/mod.rs\<close>: the UTXO model, anonymous transactions, the
  native reference check of a zk transfer and the constraints of its circuit. The arkworks
  crates (Groth16, the SHA-256 and integer gadgets) are not defined here. Groth16 and the
  proof encoding are the fields of the record \<open>groth16\<close>. The circuit is modelled by the
  list of equalities its gadgets enforce, evaluated on the assigned values: the SHA-256 gadget
  computes \<open>sha256_digest\<close>, \<open>wrapping_add_many\<close> adds 64-bit words.
\<close>

section \<open>The UTXO model\<close>

record UtxoId =
  u_tx_hash :: bytes
  u_output_index :: u32

record UtxoInput =
  previous_output :: UtxoId

record UtxoOutput =
  uo_amount :: u64

record UtxoTransaction =
  u_inputs :: "UtxoInput list"
  u_outputs :: "UtxoOutput list"
  u_fee :: u64

datatype UtxoModelError = UtxoMissingInputs | UtxoMissingOutputs | ZeroOutputAmount

definition validate_basic :: "UtxoTransaction \<Rightarrow> (unit, UtxoModelError) result" where
  "validate_basic t =
     (if u_inputs t = [] then Inl UtxoMissingInputs
      else if u_outputs t = [] then Inl UtxoMissingOutputs
      else if \<exists>out \<in> set (u_outputs t). uo_amount out = 0 then Inl ZeroOutputAmount
      else Inr ())"

definition input_count :: "UtxoTransaction \<Rightarrow> nat" where
  "input_count t = length (u_inputs t)"

definition output_count :: "UtxoTransaction \<Rightarrow> nat" where
  "output_count t = length (u_outputs t)"

section \<open>Zk transfers\<close>

record ZkNoteInputWitness =
  zi_value :: u64
  zi_spending_private_key :: bytes
  zi_blinding :: bytes
  zi_merkle_proof :: NoteMerkleProof

record ZkNoteOutputWitness =
  zo_value :: u64
  zo_recipient_public_key :: bytes
  zo_blinding :: bytes

record ZkTransferPublicInputs =
  zp_merkle_root :: bytes
  zp_fee :: u64
  zp_output_commitments :: "bytes list"

record ZkTransferWitness =
  zw_inputs :: "ZkNoteInputWitness list"
  zw_outputs :: "ZkNoteOutputWitness list"

datatype ZkTransferError =
    MissingInputs
  | MissingOutputs
  | OutputCommitmentCountMismatch nat nat
  | InvalidSpendingPrivateKey nat
  | InvalidInputNote nat
  | InvalidInputCommitment nat
  | InvalidMerkleProof nat
  | InvalidOutputNote nat
  | InvalidOutputCommitment nat
  | ZkAmountOverflow
  | AmountImbalance u64 u64 u64

definition derive_note_recipient_public_key :: "'z env_scheme \<Rightarrow> bytes \<Rightarrow> bytes" where
  "derive_note_recipient_public_key E sk = sha256_digest E (bytes_of ''prims-note-owner'' @ sk)"

text \<open>The loop over the inputs, at index \<open>i\<close> with the running total.\<close>

fun zk_inputs_loop :: "'z env_scheme \<Rightarrow> bytes \<Rightarrow> nat \<Rightarrow> u64 \<Rightarrow> ZkNoteInputWitness list \<Rightarrow> (u64, ZkTransferError) result" where
  "zk_inputs_loop E root i acc [] = Inr acc"
| "zk_inputs_loop E root i acc (x # xs) =
     (if zi_spending_private_key x = zero32 then Inl (InvalidSpendingPrivateKey i) else
      let pk = derive_note_recipient_public_key E (zi_spending_private_key x) in
      and_then (map_err (\<lambda>_. InvalidInputNote i) (Note_new E (zi_value x) pk (zi_blinding x))) (\<lambda>note.
      if leaf (zi_merkle_proof x) \<noteq> commitment note then Inl (InvalidInputCommitment i)
      else if compute_note_merkle_root_from_proof E (zi_merkle_proof x) \<noteq> root then Inl (InvalidMerkleProof i)
      else and_then (ok_or ZkAmountOverflow (checked_add acc (zi_value x)))
        (\<lambda>acc'. zk_inputs_loop E root (i + 1) acc' xs)))"

fun zk_outputs_loop :: "'z env_scheme \<Rightarrow> bytes list \<Rightarrow> nat \<Rightarrow> u64 \<Rightarrow> ZkNoteOutputWitness list \<Rightarrow> (u64, ZkTransferError) result" where
  "zk_outputs_loop E commitments i acc [] = Inr acc"
| "zk_outputs_loop E commitments i acc (x # xs) =
     and_then (map_err (\<lambda>_. InvalidOutputNote i)
       (Note_new E (zo_value x) (zo_recipient_public_key x) (zo_blinding x))) (\<lambda>note.
     if commitments ! i \<noteq> commitment note then Inl (InvalidOutputCommitment i)
     else and_then (ok_or ZkAmountOverflow (checked_add acc (zo_value x)))
       (\<lambda>acc'. zk_outputs_loop E commitments (i + 1) acc' xs))"

definition verify_zk_transfer_public_inputs ::
  "'z env_scheme \<Rightarrow> ZkTransferPublicInputs \<Rightarrow> ZkTransferWitness \<Rightarrow> (unit, ZkTransferError) result" where
  "verify_zk_transfer_public_inputs E pub wit =
     (if zw_inputs wit = [] then Inl MissingInputs
      else if zw_outputs wit = [] then Inl MissingOutputs
      else if length (zw_outputs wit) \<noteq> length (zp_output_commitments pub)
      then Inl (OutputCommitmentCountMismatch (length (zw_outputs wit)) (length (zp_output_commitments pub)))
      else
      and_then (zk_inputs_loop E (zp_merkle_root pub) 0 0 (zw_inputs wit)) (\<lambda>total_inputs.
      and_then (zk_outputs_loop E (zp_output_commitments pub) 0 0 (zw_outputs wit)) (\<lambda>total_outputs.
      and_then (ok_or ZkAmountOverflow (checked_add total_outputs (zp_fee pub))) (\<lambda>expected.
        if total_inputs \<noteq> expected then Inl (AmountImbalance total_inputs total_outputs (zp_fee pub))
        else Inr ()))))"

section \<open>The circuit\<close>

record ZkTransferCircuit =
  zc_public_inputs :: ZkTransferPublicInputs
  zc_witness :: ZkTransferWitness

datatype SynthesisError = Unsatisfiable

text \<open>One \<open>enforce_equal\<close>, on digests or on 64-bit integers.\<close>

datatype circuit_constraint = Equal_digest bytes bytes | Equal_u64 u64 u64

fun constraint_holds :: "circuit_constraint \<Rightarrow> bool" where
  "constraint_holds (Equal_digest a b) = (a = b)"
| "constraint_holds (Equal_u64 a b) = (a = b)"

definition derive_recipient_public_key_var :: "'z env_scheme \<Rightarrow> bytes \<Rightarrow> bytes" where
  "derive_recipient_public_key_var E sk = sha256_digest E (bytes_of ''prims-note-owner'' @ sk)"

definition note_commitment_var :: "'z env_scheme \<Rightarrow> u64 \<Rightarrow> bytes \<Rightarrow> bytes \<Rightarrow> bytes" where
  "note_commitment_var E value pk blinding = sha256_digest E (to_le_bytes 8 value @ pk @ blinding)"

definition merkle_leaf_hash_var :: "'z env_scheme \<Rightarrow> bytes \<Rightarrow> bytes" where
  "merkle_leaf_hash_var E c = sha256_digest E (bytes_of ''prims-note-merkle-leaf'' @ c)"

definition merkle_internal_hash_var :: "'z env_scheme \<Rightarrow> bytes \<Rightarrow> bytes \<Rightarrow> bytes" where
  "merkle_internal_hash_var E left right = sha256_digest E (bytes_of ''prims-note-merkle-node'' @ left @ right)"

fun circuit_path :: "'z env_scheme \<Rightarrow> bytes \<Rightarrow> nat \<Rightarrow> bytes list \<Rightarrow> bytes" where
  "circuit_path E current index [] = current"
| "circuit_path E current index (s # ss) =
     circuit_path E (if index mod 2 = 0 then merkle_internal_hash_var E current s
                     else merkle_internal_hash_var E s current) (index div 2) ss"

definition input_constraints :: "'z env_scheme \<Rightarrow> bytes \<Rightarrow> ZkNoteInputWitness \<Rightarrow> circuit_constraint list" where
  "input_constraints E root x =
     (let pk = derive_recipient_public_key_var E (zi_spending_private_key x);
          proof_leaf = leaf (zi_merkle_proof x)
      in [Equal_digest (note_commitment_var E (zi_value x) pk (zi_blinding x)) proof_leaf,
          Equal_digest (circuit_path E (merkle_leaf_hash_var E proof_leaf)
            (leaf_index (zi_merkle_proof x)) (siblings (zi_merkle_proof x))) root])"

definition output_constraint :: "'z env_scheme \<Rightarrow> bytes \<Rightarrow> ZkNoteOutputWitness \<Rightarrow> circuit_constraint" where
  "output_constraint E public_commitment x =
     Equal_digest (note_commitment_var E (zo_value x) (zo_recipient_public_key x) (zo_blinding x)) public_commitment"

definition wrapping_add_many :: "u64 list \<Rightarrow> u64" where
  "wrapping_add_many ws = sum_list ws"

definition circuit_constraints :: "'z env_scheme \<Rightarrow> ZkTransferPublicInputs \<Rightarrow> ZkTransferWitness \<Rightarrow> circuit_constraint list" where
  "circuit_constraints E pub wit =
     concat (map (input_constraints E (zp_merkle_root pub)) (zw_inputs wit)) @
     map (\<lambda>(i, x). output_constraint E (zp_output_commitments pub ! i) x) (enumerate 0 (zw_outputs wit)) @
     [Equal_u64 (wrapping_add_many (map zi_value (zw_inputs wit)))
        (wrapping_add_many [wrapping_add_many (map zo_value (zw_outputs wit)), zp_fee pub])]"

definition generate_constraints :: "'z env_scheme \<Rightarrow> ZkTransferCircuit \<Rightarrow> (circuit_constraint list, SynthesisError) result" where
  "generate_constraints E c =
     (let pub = zc_public_inputs c; wit = zc_witness c in
      if zw_inputs wit = [] \<or> zw_outputs wit = [] \<or> length (zw_outputs wit) \<noteq> length (zp_output_commitments pub)
      then Inl Unsatisfiable
      else and_then (map_err (\<lambda>_. Unsatisfiable) (verify_zk_transfer_public_inputs E pub wit))
        (\<lambda>_. Inr (circuit_constraints E pub wit)))"

section \<open>The proof system\<close>

text \<open>
  Groth16 over the field type \<open>'f\<close>: proofs \<open>'p\<close>, proving keys \<open>'pk\<close>,
  verifying keys \<open>'vk\<close>, prepared ones \<open>'pvk\<close>. \<open>digest_input\<close> and
  \<open>u64_input\<close> are the field elements that \<open>new_input\<close> allocates.
\<close>

record ('p, 'pk, 'vk, 'pvk, 'f) groth16 =
  proof_codec :: "'p codec"
  prepare_key :: "'vk \<Rightarrow> 'pvk"
  create_random_proof :: "(circuit_constraint list, SynthesisError) result \<Rightarrow> 'pk \<Rightarrow> bytes \<Rightarrow> string + 'p"
  groth_verify :: "'pvk \<Rightarrow> 'p \<Rightarrow> 'f list \<Rightarrow> string + bool"
  digest_input :: "bytes \<Rightarrow> 'f list option"
  u64_input :: "u64 \<Rightarrow> 'f list option"

datatype ZkTransferProofSystemError =
    PublicInputsEncodingFailed
  | InvalidWitness ZkTransferError
  | ProvingFailed string
  | ZkVerificationFailed string

fun digest_inputs :: "('p, 'pk, 'vk, 'pvk, 'f) groth16 \<Rightarrow> bytes list \<Rightarrow> ('f list, ZkTransferProofSystemError) result" where
  "digest_inputs G [] = Inr []"
| "digest_inputs G (c # cs) =
     and_then (ok_or PublicInputsEncodingFailed (digest_input G c)) (\<lambda>fs.
     and_then (digest_inputs G cs) (\<lambda>gs. Inr (fs @ gs)))"

definition zk_transfer_public_inputs_to_field_elements ::
  "('p, 'pk, 'vk, 'pvk, 'f) groth16 \<Rightarrow> ZkTransferPublicInputs \<Rightarrow> ('f list, ZkTransferProofSystemError) result" where
  "zk_transfer_public_inputs_to_field_elements G pub =
     and_then (ok_or PublicInputsEncodingFailed (digest_input G (zp_merkle_root pub))) (\<lambda>root.
     and_then (ok_or PublicInputsEncodingFailed (u64_input G (zp_fee pub))) (\<lambda>fee.
     and_then (digest_inputs G (zp_output_commitments pub)) (\<lambda>outs. Inr (root @ fee @ outs))))"

definition prepare_zk_transfer_verifying_key :: "('p, 'pk, 'vk, 'pvk, 'f) groth16 \<Rightarrow> 'vk \<Rightarrow> 'pvk" where
  "prepare_zk_transfer_verifying_key G vk = prepare_key G vk"

definition generate_zk_transfer_proof :: "'z env_scheme \<Rightarrow> ('p, 'pk, 'vk, 'pvk, 'f) groth16 \<Rightarrow> 'pk
    \<Rightarrow> ZkTransferPublicInputs \<Rightarrow> ZkTransferWitness \<Rightarrow> bytes \<Rightarrow> ('p, ZkTransferProofSystemError) result" where
  "generate_zk_transfer_proof E G pk pub wit rng =
     and_then (map_err InvalidWitness (verify_zk_transfer_public_inputs E pub wit)) (\<lambda>_.
       map_err ProvingFailed (create_random_proof G
         (generate_constraints E \<lparr>zc_public_inputs = pub, zc_witness = wit\<rparr>) pk rng))"

definition verify_zk_transfer_proof_with_prepared_key :: "('p, 'pk, 'vk, 'pvk, 'f) groth16 \<Rightarrow> 'pvk
    \<Rightarrow> ZkTransferPublicInputs \<Rightarrow> 'p \<Rightarrow> (bool, ZkTransferProofSystemError) result" where
  "verify_zk_transfer_proof_with_prepared_key G pvk pub prf =
     and_then (zk_transfer_public_inputs_to_field_elements G pub) (\<lambda>fs.
       map_err ZkVerificationFailed (groth_verify G pvk prf fs))"

definition verify_zk_transfer_proof :: "('p, 'pk, 'vk, 'pvk, 'f) groth16 \<Rightarrow> 'vk
    \<Rightarrow> ZkTransferPublicInputs \<Rightarrow> 'p \<Rightarrow> (bool, ZkTransferProofSystemError) result" where
  "verify_zk_transfer_proof G vk pub prf =
     verify_zk_transfer_proof_with_prepared_key G (prepare_zk_transfer_verifying_key G vk) pub prf"

section \<open>Anonymous transactions\<close>

record AnonTransaction =
  at_merkle_root :: bytes
  at_fee :: u64
  at_output_commitments :: "bytes list"
  at_proof :: bytes

datatype AnonTransactionError =
    ProofSerializationFailed string
  | ProofDeserializationFailed string
  | AnonVerificationFailed ZkTransferProofSystemError

definition AnonTransaction_new :: "('p, 'pk, 'vk, 'pvk, 'f) groth16 \<Rightarrow> ZkTransferPublicInputs \<Rightarrow> 'p
    \<Rightarrow> (AnonTransaction, AnonTransactionError) result" where
  "AnonTransaction_new G pub prf =
     and_then (map_err ProofSerializationFailed (serialize (proof_codec G) prf)) (\<lambda>proof_bytes.
       Inr \<lparr>at_merkle_root = zp_merkle_root pub, at_fee = zp_fee pub,
            at_output_commitments = zp_output_commitments pub, at_proof = proof_bytes\<rparr>)"

definition public_inputs :: "AnonTransaction \<Rightarrow> ZkTransferPublicInputs" where
  "public_inputs t = \<lparr>zp_merkle_root = at_merkle_root t, zp_fee = at_fee t,
     zp_output_commitments = at_output_commitments t\<rparr>"

definition decode_proof :: "('p, 'pk, 'vk, 'pvk, 'f) groth16 \<Rightarrow> AnonTransaction \<Rightarrow> ('p, AnonTransactionError) result" where
  "decode_proof G t = map_err ProofDeserializationFailed (deserialize (proof_codec G) (at_proof t))"

definition anon_verify :: "('p, 'pk, 'vk, 'pvk, 'f) groth16 \<Rightarrow> AnonTransaction \<Rightarrow> 'vk \<Rightarrow> (bool, AnonTransactionError) result" where
  "anon_verify G t vk =
     and_then (decode_proof G t) (\<lambda>prf.
       map_err AnonVerificationFailed (verify_zk_transfer_proof G vk (public_inputs t) prf))"

definition verify_with_prepared_key ::
  "('p, 'pk, 'vk, 'pvk, 'f) groth16 \<Rightarrow> AnonTransaction \<Rightarrow> 'pvk \<Rightarrow> (bool, AnonTransactionError) result" where
  "verify_with_prepared_key G t pvk =
     and_then (decode_proof G t) (\<lambda>prf.
       map_err AnonVerificationFailed (verify_zk_transfer_proof_with_prepared_key G pvk (public_inputs t) prf))"

section \<open>The reference circuit of the setup\<close>

record ZkTransferSetupCircuitMetadata =
  md_input_count :: nat
  md_output_count :: nat
  md_merkle_path_len :: nat
  md_tree_leaf_count :: nat
  md_fee :: u64

datatype ZkTransferSetupError =
    InvalidReferenceInputNote
  | InvalidReferenceFillerNote
  | InvalidReferenceMerkleProof

definition reference_outputs :: "ZkNoteOutputWitness list" where
  "reference_outputs =
     [\<lparr>zo_value = 40, zo_recipient_public_key = replicate 32 41, zo_blinding = replicate 32 51\<rparr>,
      \<lparr>zo_value = 25, zo_recipient_public_key = replicate 32 42, zo_blinding = replicate 32 52\<rparr>]"

definition build_reference_zk_transfer_setup_circuit ::
  "'z env_scheme \<Rightarrow> (ZkTransferCircuit \<times> ZkTransferSetupCircuitMetadata, ZkTransferSetupError) result" where
  "build_reference_zk_transfer_setup_circuit E =
     (let owner_private_key = replicate 32 21;
          owner_public_key = derive_note_recipient_public_key E owner_private_key in
      and_then (map_err (\<lambda>_. InvalidReferenceInputNote) (Note_new E 70 owner_public_key (replicate 32 31))) (\<lambda>input_note.
      and_then (map_err (\<lambda>_. InvalidReferenceFillerNote) (Note_new E 5 (replicate 32 22) (replicate 32 32))) (\<lambda>filler_note.
      let tree = from_notes [input_note, filler_note] in
      and_then (map_err (\<lambda>_. InvalidReferenceMerkleProof) (generate_proof E tree 0)) (\<lambda>merkle_proof.
      let outs = reference_outputs;
          output_commitments = map (\<lambda>x. compute_commitment E (zo_value x) (zo_recipient_public_key x) (zo_blinding x)) outs;
          metadata = \<lparr>md_input_count = 1, md_output_count = length outs,
            md_merkle_path_len = length (siblings merkle_proof), md_tree_leaf_count = 2, md_fee = 5\<rparr>
      in Inr (\<lparr>zc_public_inputs = \<lparr>zp_merkle_root = tree_root E tree, zp_fee = md_fee metadata,
                 zp_output_commitments = output_commitments\<rparr>,
               zc_witness = \<lparr>zw_inputs = [\<lparr>zi_value = 70, zi_spending_private_key = owner_private_key,
                   zi_blinding = replicate 32 31, zi_merkle_proof = merkle_proof\<rparr>], zw_outputs = outs\<rparr>\<rparr>,
              metadata)))))"

section \<open>The native check\<close>

definition zk_input_ok :: "'z env_scheme \<Rightarrow> bytes \<Rightarrow> ZkNoteInputWitness \<Rightarrow> bool" where
  "zk_input_ok E root x \<longleftrightarrow>
     zi_spending_private_key x \<noteq> zero32 \<and> zi_value x \<noteq> 0 \<and> zi_blinding x \<noteq> zero32 \<and>
     derive_note_recipient_public_key E (zi_spending_private_key x) \<noteq> zero32 \<and>
     leaf (zi_merkle_proof x) = compute_commitment E (zi_value x)
       (derive_note_recipient_public_key E (zi_spending_private_key x)) (zi_blinding x) \<and>
     compute_note_merkle_root_from_proof E (zi_merkle_proof x) = root"

definition zk_output_ok :: "'z env_scheme \<Rightarrow> bytes \<Rightarrow> ZkNoteOutputWitness \<Rightarrow> bool" where
  "zk_output_ok E c x \<longleftrightarrow>
     zo_value x \<noteq> 0 \<and> zo_recipient_public_key x \<noteq> zero32 \<and> zo_blinding x \<noteq> zero32 \<and>
     c = compute_commitment E (zo_value x) (zo_recipient_public_key x) (zo_blinding x)"

lemma Note_new_Inr [result_simps]:
  "Note_new E value pk blinding = Inr note \<longleftrightarrow> value \<noteq> 0 \<and> pk \<noteq> zero32 \<and> blinding \<noteq> zero32 \<and>
     note = \<lparr>commitment = compute_commitment E value pk blinding\<rparr>"
  by (auto simp: Note_new_def)

lemma zk_inputs_loop_iff:
  "zk_inputs_loop E root i acc xs = Inr t \<longleftrightarrow>
   (\<forall>x \<in> set xs. zk_input_ok E root x) \<and> unat t = unat acc + (\<Sum>x\<leftarrow>xs. unat (zi_value x))"
proof (induction xs arbitrary: i acc)
  case Nil
  then show ?case by (auto simp: unat_inj)
next
  case (Cons x xs)
  have "zk_inputs_loop E root i acc (x # xs) = Inr t \<longleftrightarrow> zk_input_ok E root x \<and>
      (\<exists>acc'. unat acc' = unat acc + unat (zi_value x) \<and> zk_inputs_loop E root (i + 1) acc' xs = Inr t)"
    by (auto simp: Let_def result_simps zk_input_ok_def checked_add_Some_iff)
  also have "\<dots> \<longleftrightarrow> (\<forall>y \<in> set (x # xs). zk_input_ok E root y) \<and>
      (\<exists>acc' :: u64. unat acc' = unat acc + unat (zi_value x) \<and> unat t = unat acc' + (\<Sum>y\<leftarrow>xs. unat (zi_value y)))"
    unfolding Cons.IH by auto
  also have "(\<exists>acc' :: u64. unat acc' = unat acc + unat (zi_value x) \<and> unat t = unat acc' + (\<Sum>y\<leftarrow>xs. unat (zi_value y))) \<longleftrightarrow>
      unat t = unat acc + (\<Sum>y\<leftarrow>x # xs. unat (zi_value y))"
    using u64_sum_split [of acc "zi_value x" t "\<Sum>y\<leftarrow>xs. unat (zi_value y)"] by (simp add: add.assoc)
  finally show ?case .
qed

lemma zk_outputs_loop_iff:
  "zk_outputs_loop E cs i acc xs = Inr t \<longleftrightarrow>
   (\<forall>j < length xs. zk_output_ok E (cs ! (i + j)) (xs ! j)) \<and>
   unat t = unat acc + (\<Sum>x\<leftarrow>xs. unat (zo_value x))"
proof (induction xs arbitrary: i acc)
  case Nil
  then show ?case by (auto simp: unat_inj)
next
  case (Cons x xs)
  have all: "(\<forall>j < length (x # xs). zk_output_ok E (cs ! (i + j)) ((x # xs) ! j)) \<longleftrightarrow>
      zk_output_ok E (cs ! i) x \<and> (\<forall>j < length xs. zk_output_ok E (cs ! (i + 1 + j)) (xs ! j))"
    by (auto simp: less_Suc_eq_0_disj)
  have "zk_outputs_loop E cs i acc (x # xs) = Inr t \<longleftrightarrow> zk_output_ok E (cs ! i) x \<and>
      (\<exists>acc'. unat acc' = unat acc + unat (zo_value x) \<and> zk_outputs_loop E cs (i + 1) acc' xs = Inr t)"
    by (auto simp: result_simps zk_output_ok_def checked_add_Some_iff)
  also have "\<dots> \<longleftrightarrow> (\<forall>j < length (x # xs). zk_output_ok E (cs ! (i + j)) ((x # xs) ! j)) \<and>
      (\<exists>acc' :: u64. unat acc' = unat acc + unat (zo_value x) \<and> unat t = unat acc' + (\<Sum>y\<leftarrow>xs. unat (zo_value y)))"
    unfolding Cons.IH all by auto
  also have "(\<exists>acc' :: u64. unat acc' = unat acc + unat (zo_value x) \<and> unat t = unat acc' + (\<Sum>y\<leftarrow>xs. unat (zo_value y))) \<longleftrightarrow>
      unat t = unat acc + (\<Sum>y\<leftarrow>x # xs. unat (zo_value y))"
    using u64_sum_split [of acc "zo_value x" t "\<Sum>y\<leftarrow>xs. unat (zo_value y)"] by (simp add: add.assoc)
  finally show ?case .
qed

lemma verify_zk_iff:
  "verify_zk_transfer_public_inputs E pub wit = Inr () \<longleftrightarrow>
   zw_inputs wit \<noteq> [] \<and> zw_outputs wit \<noteq> [] \<and>
   length (zp_output_commitments pub) = length (zw_outputs wit) \<and>
   (\<forall>x \<in> set (zw_inputs wit). zk_input_ok E (zp_merkle_root pub) x) \<and>
   (\<forall>j < length (zw_outputs wit). zk_output_ok E (zp_output_commitments pub ! j) (zw_outputs wit ! j)) \<and>
   (\<Sum>x\<leftarrow>zw_inputs wit. unat (zi_value x)) = (\<Sum>x\<leftarrow>zw_outputs wit. unat (zo_value x)) + unat (zp_fee pub) \<and>
   (\<Sum>x\<leftarrow>zw_inputs wit. unat (zi_value x)) < 2 ^ 64"
  (is "?L \<longleftrightarrow> ?R")
proof -
  let ?I = "\<Sum>x\<leftarrow>zw_inputs wit. unat (zi_value x)"
  let ?O = "\<Sum>x\<leftarrow>zw_outputs wit. unat (zo_value x)"
  have fits: "(\<exists>t :: u64. unat t = n) \<longleftrightarrow> n < 2 ^ 64" for n
    using unat_u64 by (auto intro: exI [of _ "of_nat n"] simp: unat_of_nat take_bit_nat_eq_self)
  let ?Q = "\<forall>j < length (zw_outputs wit). zk_output_ok E (zp_output_commitments pub ! j) (zw_outputs wit ! j)"
  have "?L \<longleftrightarrow> zw_inputs wit \<noteq> [] \<and> zw_outputs wit \<noteq> [] \<and>
      length (zp_output_commitments pub) = length (zw_outputs wit) \<and>
      (\<forall>x \<in> set (zw_inputs wit). zk_input_ok E (zp_merkle_root pub) x) \<and>
      (\<exists>t :: u64. unat t = ?I \<and> ?Q \<and> (\<exists>u :: u64. unat u = ?O \<and> unat t = unat u + unat (zp_fee pub)))"
    by (simp add: verify_zk_transfer_public_inputs_def result_simps zk_inputs_loop_iff zk_outputs_loop_iff
        checked_add_Some_iff eq_commute [of "length (zw_outputs wit)"])
  moreover have "(\<exists>t :: u64. unat t = ?I \<and> ?Q \<and> (\<exists>u :: u64. unat u = ?O \<and> unat t = unat u + unat (zp_fee pub)))
      \<longleftrightarrow> ?Q \<and> ?I = ?O + unat (zp_fee pub) \<and> ?I < 2 ^ 64"
  proof (cases ?Q)
    case True
    have "(\<exists>t :: u64. unat t = ?I \<and> (\<exists>u :: u64. unat u = ?O \<and> unat t = unat u + unat (zp_fee pub))) \<longleftrightarrow>
        ?I = ?O + unat (zp_fee pub) \<and> (\<exists>t :: u64. unat t = ?I) \<and> (\<exists>u :: u64. unat u = ?O)" by metis
    then show ?thesis unfolding fits using True by auto
  qed blast
  ultimately show ?thesis by simp
qed

text \<open>
  C26. The native check of a zk transfer accepts exactly the witnesses with at least one input
  and output in which every input is a well-formed note owned by its spending key whose Merkle
  path leads to the public root, every output opens its public commitment, and the values
  balance as integers: inputs equal outputs plus fee, within 64 bits.
\<close>

theorem zk_transfer_accepted_iff:
  "verify_zk_transfer_public_inputs E pub wit = Inr () \<longleftrightarrow>
   zw_inputs wit \<noteq> [] \<and> zw_outputs wit \<noteq> [] \<and>
   length (zp_output_commitments pub) = length (zw_outputs wit) \<and>
   list_all (zk_input_ok E (zp_merkle_root pub)) (zw_inputs wit) \<and>
   list_all2 (zk_output_ok E) (zp_output_commitments pub) (zw_outputs wit) \<and>
   (\<Sum>x\<leftarrow>zw_inputs wit. unat (zi_value x)) = (\<Sum>x\<leftarrow>zw_outputs wit. unat (zo_value x)) + unat (zp_fee pub) \<and>
   (\<Sum>x\<leftarrow>zw_inputs wit. unat (zi_value x)) < 2 ^ 64"
  unfolding verify_zk_iff by (auto simp: list_all_iff list_all2_conv_all_nth)

section \<open>The circuit\<close>

lemma circuit_path_eq: "circuit_path E h i ss = path_loop E h i ss"
  by (induction ss arbitrary: h i) (simp_all add: merkle_internal_hash_var_def hash_internal_def node_prefix_def)

text \<open>What the emitted equalities say about the assigned values.\<close>

definition circuit_input_ok :: "'z env_scheme \<Rightarrow> bytes \<Rightarrow> ZkNoteInputWitness \<Rightarrow> bool" where
  "circuit_input_ok E root x \<longleftrightarrow>
     leaf (zi_merkle_proof x) = compute_commitment E (zi_value x)
       (derive_note_recipient_public_key E (zi_spending_private_key x)) (zi_blinding x) \<and>
     compute_note_merkle_root_from_proof E (zi_merkle_proof x) = root"

lemma input_constraints_hold:
  "list_all constraint_holds (input_constraints E root x) \<longleftrightarrow> circuit_input_ok E root x"
  by (auto simp: input_constraints_def Let_def circuit_input_ok_def circuit_path_eq compute_commitment_def
      note_commitment_var_def derive_recipient_public_key_var_def derive_note_recipient_public_key_def
      compute_note_merkle_root_from_proof_def merkle_leaf_hash_var_def hash_leaf_def leaf_prefix_def)

lemma circuit_constraints_hold:
  "list_all constraint_holds (circuit_constraints E pub wit) \<longleftrightarrow>
   list_all (circuit_input_ok E (zp_merkle_root pub)) (zw_inputs wit) \<and>
   (\<forall>j < length (zw_outputs wit). zp_output_commitments pub ! j =
      compute_commitment E (zo_value (zw_outputs wit ! j)) (zo_recipient_public_key (zw_outputs wit ! j))
        (zo_blinding (zw_outputs wit ! j))) \<and>
   sum_list (map zi_value (zw_inputs wit)) = sum_list (map zo_value (zw_outputs wit)) + zp_fee pub"
proof -
  have "list_all constraint_holds (concat (map (input_constraints E root) xs)) \<longleftrightarrow>
      list_all (circuit_input_ok E root) xs" for root xs
    by (induction xs) (simp_all add: input_constraints_hold)
  moreover have "list_all constraint_holds
      (map (\<lambda>(i, x). output_constraint E (zp_output_commitments pub ! i) x) (enumerate 0 (zw_outputs wit))) \<longleftrightarrow>
    (\<forall>j < length (zw_outputs wit). zp_output_commitments pub ! j =
      compute_commitment E (zo_value (zw_outputs wit ! j)) (zo_recipient_public_key (zw_outputs wit ! j))
        (zo_blinding (zw_outputs wit ! j)))"
    by (auto simp: list_all_length output_constraint_def nth_enumerate_eq note_commitment_var_def compute_commitment_def)
  ultimately show ?thesis
    by (simp add: circuit_constraints_def wrapping_add_many_def)
qed

text \<open>
  The circuit is complete for the native check: whenever the native check accepts, the
  constraint generator emits its constraints and the witness satisfies all of them.
\<close>

lemma accepted_constraints:
  assumes "verify_zk_transfer_public_inputs E pub wit = Inr ()"
  shows "generate_constraints E \<lparr>zc_public_inputs = pub, zc_witness = wit\<rparr> = Inr (circuit_constraints E pub wit) \<and>
    list_all constraint_holds (circuit_constraints E pub wit)"
proof -
  note ok = assms [unfolded verify_zk_iff]
  have "sum_list (map zi_value (zw_inputs wit)) = sum_list (map zo_value (zw_outputs wit)) + zp_fee pub"
  proof (rule unat_inj)
    have "unat (sum_list (map zi_value (zw_inputs wit))) = (\<Sum>x\<leftarrow>zw_inputs wit. unat (zi_value x))"
      using unat_sum_list [of "map zi_value (zw_inputs wit)"] ok by (simp add: o_def)
    moreover have "unat (sum_list (map zo_value (zw_outputs wit))) = (\<Sum>x\<leftarrow>zw_outputs wit. unat (zo_value x))"
      using unat_sum_list [of "map zo_value (zw_outputs wit)"] ok by (simp add: o_def)
    ultimately show "unat (sum_list (map zi_value (zw_inputs wit))) =
        unat (sum_list (map zo_value (zw_outputs wit)) + zp_fee pub)"
      using ok by (simp add: unat_word_ariths)
  qed
  with ok have "list_all constraint_holds (circuit_constraints E pub wit)"
    unfolding circuit_constraints_hold
    by (simp add: list_all_iff zk_input_ok_def circuit_input_ok_def zk_output_ok_def)
  with assms ok show ?thesis by (simp add: generate_constraints_def Let_def)
qed

lemma replicate_nonzero: "k \<noteq> 0 \<Longrightarrow> replicate 32 k \<noteq> zero32"
  by (simp add: zero32_def numeral_eq_Suc)

text \<open>The reference circuit of the parameter setup is accepted by the native check.\<close>

lemma reference_circuit_ok:
  assumes "derive_note_recipient_public_key E (replicate 32 21) \<noteq> zero32"
  shows "\<exists>c md. build_reference_zk_transfer_setup_circuit E = Inr (c, md) \<and>
    verify_zk_transfer_public_inputs E (zc_public_inputs c) (zc_witness c) = Inr () \<and>
    md_merkle_path_len md = 1 \<and> md_output_count md = 2"
proof -
  let ?pk = "derive_note_recipient_public_key E (replicate 32 21)"
  let ?c = "compute_commitment E 70 ?pk (replicate 32 31)"
  let ?d = "compute_commitment E 5 (replicate 32 22) (replicate 32 32)"
  let ?level = "map (hash_leaf E) [?c, ?d]"
  have path: "proof_loop E 0 ?level [] = [hash_leaf E ?d]"
    by (simp add: proof_loop.simps build_next_level_def sibling_at_def)
  have root: "tree_root E \<lparr>leaves = [?c, ?d]\<rparr> = hash_internal E (hash_leaf E ?c) (hash_leaf E ?d)"
    by (simp add: tree_root_def compute_root_from_leaves_def note_levels.simps build_next_level_def)
  show ?thesis
    using assms path
    by (simp add: build_reference_zk_transfer_setup_circuit_def Let_def Note_new_def replicate_nonzero
        from_notes_def generate_proof_def root reference_outputs_def verify_zk_iff zk_input_ok_def zk_output_ok_def
        compute_note_merkle_root_from_proof_def less_Suc_eq_0_disj)
qed

lemma sample_derived_key: "derive_note_recipient_public_key sample_env (replicate 32 21) \<noteq> zero32"
  by (simp add: derive_note_recipient_public_key_def sample_env_def sample_digest_def replicate_nonzero)

text \<open>
  The circuit is not sound for the native check: its sums wrap at 64 bits and it does not
  enforce the prover-side checks. For every digest function there is a witness, rejected by
  the native check with an overflow, that satisfies every constraint while its outputs exceed
  its inputs by \<open>2 ^ 64\<close>.
\<close>

theorem zk_circuit_wraps:
  "\<exists>pub wit. list_all constraint_holds (circuit_constraints E pub wit) \<and>
     (derive_note_recipient_public_key E (replicate 32 21) \<noteq> zero32 \<longrightarrow>
        verify_zk_transfer_public_inputs E pub wit = Inl ZkAmountOverflow) \<and>
     (\<Sum>x\<leftarrow>zw_outputs wit. unat (zo_value x)) + unat (zp_fee pub) =
       (\<Sum>x\<leftarrow>zw_inputs wit. unat (zi_value x)) + 2 ^ 64"
proof -
  let ?pk = "derive_note_recipient_public_key E (replicate 32 21)"
  let ?c = "compute_commitment E 70 ?pk (replicate 32 31)"
  let ?in = "\<lparr>zi_value = 70, zi_spending_private_key = replicate 32 21, zi_blinding = replicate 32 31,
      zi_merkle_proof = \<lparr>leaf_index = 0, leaf = ?c, siblings = []\<rparr>\<rparr>"
  let ?o1 = "\<lparr>zo_value = - 1, zo_recipient_public_key = replicate 32 41, zo_blinding = replicate 32 51\<rparr>"
  let ?o2 = "\<lparr>zo_value = 66, zo_recipient_public_key = replicate 32 42, zo_blinding = replicate 32 52\<rparr>"
  let ?com = "\<lambda>x. compute_commitment E (zo_value x) (zo_recipient_public_key x) (zo_blinding x)"
  let ?pub = "\<lparr>zp_merkle_root = hash_leaf E ?c, zp_fee = 5, zp_output_commitments = [?com ?o1, ?com ?o2]\<rparr>"
  let ?wit = "\<lparr>zw_inputs = [?in], zw_outputs = [?o1, ?o2]\<rparr>"
  have max: "unat (- 1 :: u64) = 2 ^ 64 - 1" by (simp add: unsigned_minus_1_eq_mask mask_eq_exp_minus_1)
  have "list_all constraint_holds (circuit_constraints E ?pub ?wit)"
    unfolding circuit_constraints_hold
    by (simp add: circuit_input_ok_def compute_note_merkle_root_from_proof_def less_Suc_eq_0_disj)
  moreover have "verify_zk_transfer_public_inputs E ?pub ?wit = Inl ZkAmountOverflow" if "?pk \<noteq> zero32"
    using that by (simp add: verify_zk_transfer_public_inputs_def Note_new_def replicate_nonzero checked_add_def max
        compute_note_merkle_root_from_proof_def)
  moreover have "(\<Sum>x\<leftarrow>zw_outputs ?wit. unat (zo_value x)) + unat (zp_fee ?pub) =
      (\<Sum>x\<leftarrow>zw_inputs ?wit. unat (zi_value x)) + 2 ^ 64"
    by (simp add: max)
  ultimately show ?thesis by blast
qed

section \<open>Reuse of notes\<close>

text \<open>
  Nothing stops a note from being spent twice in one transfer: if a transfer of one note
  to one output is accepted, the transfer that lists the same note twice and pays out its value
  a second time is accepted as well.
\<close>

theorem zk_note_spent_twice:
  assumes "verify_zk_transfer_public_inputs E \<lparr>zp_merkle_root = root, zp_fee = fee, zp_output_commitments = [c]\<rparr>
      \<lparr>zw_inputs = [x], zw_outputs = [y]\<rparr> = Inr ()"
    and "2 * unat (zi_value x) < 2 ^ 64"
    and "y' = y\<lparr>zo_value := zo_value y + zi_value x\<rparr>"
  shows "verify_zk_transfer_public_inputs E
      \<lparr>zp_merkle_root = root, zp_fee = fee, zp_output_commitments =
        [compute_commitment E (zo_value y') (zo_recipient_public_key y') (zo_blinding y')]\<rparr>
      \<lparr>zw_inputs = [x, x], zw_outputs = [y']\<rparr> = Inr ()"
proof -
  note ok = assms(1) [unfolded verify_zk_iff]
  then have sum: "unat (zi_value x) = unat (zo_value y) + unat fee" by simp
  then have v: "unat (zo_value y + zi_value x) = unat (zo_value y) + unat (zi_value x)"
    using assms(2) by (simp add: unat_word_ariths)
  have "zi_value x \<noteq> 0" using ok by (simp add: zk_input_ok_def)
  then have "zo_value y + zi_value x \<noteq> 0" using v by (metis add_is_0 unat_eq_zero)
  then show ?thesis
    using ok v sum assms(2,3) by (simp add: verify_zk_iff zk_input_ok_def zk_output_ok_def)
qed

definition sample_zk_input :: ZkNoteInputWitness where
  "sample_zk_input = \<lparr>zi_value = 70, zi_spending_private_key = replicate 32 21, zi_blinding = replicate 32 31,
     zi_merkle_proof = \<lparr>leaf_index = 0, leaf = replicate 32 72, siblings = []\<rparr>\<rparr>"

definition sample_zk_output :: ZkNoteOutputWitness where
  "sample_zk_output = \<lparr>zo_value = 65, zo_recipient_public_key = replicate 32 41, zo_blinding = replicate 32 51\<rparr>"

theorem zk_note_spent_twice_witness:
  "verify_zk_transfer_public_inputs sample_env
     \<lparr>zp_merkle_root = replicate 32 54, zp_fee = 5, zp_output_commitments = [replicate 32 72]\<rparr>
     \<lparr>zw_inputs = [sample_zk_input, sample_zk_input], zw_outputs = [sample_zk_output\<lparr>zo_value := 135\<rparr>]\<rparr> = Inr ()"
proof -
  have com: "compute_commitment sample_env v (replicate 32 a) (replicate 32 b) = replicate 32 72" for v a b
    by (simp add: compute_commitment_def sample_env_def sample_digest_def)
  have key: "derive_note_recipient_public_key sample_env (replicate 32 21) = replicate 32 48"
    by (simp add: derive_note_recipient_public_key_def sample_env_def sample_digest_def)
  have "hash_leaf sample_env (replicate 32 72) = replicate 32 54"
    by (simp add: hash_leaf_def leaf_prefix_def sample_env_def sample_digest_def)
  then have "verify_zk_transfer_public_inputs sample_env
      \<lparr>zp_merkle_root = replicate 32 54, zp_fee = 5, zp_output_commitments = [replicate 32 72]\<rparr>
      \<lparr>zw_inputs = [sample_zk_input], zw_outputs = [sample_zk_output]\<rparr> = Inr ()"
    by (simp add: verify_zk_iff zk_input_ok_def zk_output_ok_def sample_zk_input_def sample_zk_output_def com key
        replicate_nonzero compute_note_merkle_root_from_proof_def)
  from zk_note_spent_twice [OF this _ refl] show ?thesis
    by (simp add: sample_zk_input_def sample_zk_output_def com)
qed

section \<open>Anonymous transactions\<close>

text \<open>Packing public inputs and a proof into a transaction and verifying it checks that proof.\<close>

lemma anon_transaction_roundtrip:
  assumes "roundtrips (proof_codec G) prf"
  shows "\<exists>t. AnonTransaction_new G pub prf = Inr t \<and> public_inputs t = pub \<and> decode_proof G t = Inr prf \<and>
    anon_verify G t vk = map_err AnonVerificationFailed (verify_zk_transfer_proof G vk pub prf)"
proof -
  obtain b where b: "serialize (proof_codec G) prf = Inr b" "deserialize (proof_codec G) b = Inr prf"
    using assms by (elim roundtripsE)
  let ?t = "\<lparr>at_merkle_root = zp_merkle_root pub, at_fee = zp_fee pub,
      at_output_commitments = zp_output_commitments pub, at_proof = b\<rparr>"
  have "public_inputs ?t = pub" by (simp add: public_inputs_def)
  with b show ?thesis
    by (intro exI [of _ ?t]) (simp add: AnonTransaction_new_def decode_proof_def anon_verify_def)
qed

lemma prepared_key_agrees:
  "verify_with_prepared_key G t (prepare_zk_transfer_verifying_key G vk) = anon_verify G t vk"
  by (simp add: verify_with_prepared_key_def anon_verify_def verify_zk_transfer_proof_def)

end
