(* ===== verification/Conversion.thy ===== *)
theory Conversion
  imports Privacy
begin

text \<open>
  \<open>src/src/privacy/conversion.rs\<close>: moving value between the public balance of an account
  and anonymous notes. Note errors are carried as values where the code formats them into a
  message. The theory shows that value is conserved in both directions and what a conversion
  followed by the conversion back leaves of the account: only the viewing hint may differ.
\<close>

record PublicToAnonRequest =
  pa_amount :: u64
  pa_recipient_public_key :: bytes
  pa_viewing_key :: bytes
  pa_blinding :: bytes
  pa_shard_id :: u16

record AnonToPublicRequest =
  ap_amount :: u64
  ap_spending_private_key :: bytes
  ap_blinding :: bytes
  ap_merkle_proof :: NoteMerkleProof
  ap_shard_id :: "u16 option"

record PublicToAnonConversion =
  pac_account :: Account
  pac_viewable_note :: ViewableNote
  pac_merkle_root :: bytes

record AnonToPublicConversion =
  apc_account :: Account
  apc_consumed_commitment :: bytes
  apc_merkle_root :: bytes

datatype ConversionError =
    ZeroAmount
  | InsufficientPublicBalance u64 u64
  | ViewingHintMismatch
  | InvalidCreatedNote NoteError
  | InvalidConsumedNote NoteError
  | InvalidOwnershipProof
  | ConvInvalidMerkleProof
  | MissingTrackedCommitment
  | MissingTreeCommitment
  | BalanceOverflow

definition convert_public_to_anon :: "'z env_scheme \<Rightarrow> Account \<Rightarrow> PublicToAnonRequest \<Rightarrow> bytes list
    \<Rightarrow> (PublicToAnonConversion, ConversionError) result" where
  "convert_public_to_anon E account request existing_commitments =
     (if pa_amount request = 0 then Inl ZeroAmount
      else if a_balance account < pa_amount request
      then Inl (InsufficientPublicBalance (a_balance account) (pa_amount request))
      else
      and_then (map_err InvalidCreatedNote (ViewableNote_new E (pa_amount request)
        (pa_recipient_public_key request) (pa_viewing_key request) (pa_blinding request) (pa_shard_id request)))
        (\<lambda>note.
      if viewing_hint (a_anonymous_state account) \<noteq> None \<and>
         viewing_hint (a_anonymous_state account) \<noteq> Some (vn_viewing_hint note)
      then Inl ViewingHintMismatch
      else Inr \<lparr>pac_account = account\<lparr>a_balance := a_balance account - pa_amount request,
                  a_anonymous_state := \<lparr>viewing_hint = Some (vn_viewing_hint note),
                    note_commitments = note_commitments (a_anonymous_state account) @ [commitment (vn_note note)]\<rparr>\<rparr>,
                pac_viewable_note = note,
                pac_merkle_root = tree_root E (from_commitments
                  (existing_commitments @ [commitment (vn_note note)]))\<rparr>))"

definition convert_anon_to_public :: "'z env_scheme \<Rightarrow> Account \<Rightarrow> AnonToPublicRequest \<Rightarrow> bytes list
    \<Rightarrow> (AnonToPublicConversion, ConversionError) result" where
  "convert_anon_to_public E account request current_commitments =
     (if ap_amount request = 0 then Inl ZeroAmount else
      let pk = derive_note_recipient_public_key E (ap_spending_private_key request) in
      and_then (map_err InvalidConsumedNote (Note_new E (ap_amount request) pk (ap_blinding request))) (\<lambda>note.
      let c = commitment note in
      if leaf (ap_merkle_proof request) \<noteq> c then Inl InvalidOwnershipProof
      else if \<not> verify_proof E (tree_root E (from_commitments current_commitments)) (ap_merkle_proof request)
      then Inl ConvInvalidMerkleProof
      else
      and_then (ok_or MissingTrackedCommitment
        (position (\<lambda>stored. stored = c) (note_commitments (a_anonymous_state account)))) (\<lambda>tracked_index.
      and_then (ok_or MissingTreeCommitment (position (\<lambda>stored. stored = c) current_commitments)) (\<lambda>tree_index.
      and_then (ok_or BalanceOverflow (checked_add (a_balance account) (ap_amount request))) (\<lambda>balance.
      let tracked = remove_nth tracked_index (note_commitments (a_anonymous_state account)) in
        Inr \<lparr>apc_account = account\<lparr>a_balance := balance,
               a_anonymous_state := \<lparr>viewing_hint = (if tracked = [] then None
                   else viewing_hint (a_anonymous_state account)), note_commitments = tracked\<rparr>\<rparr>,
             apc_consumed_commitment = c,
             apc_merkle_root = tree_root E (from_commitments (remove_nth tree_index current_commitments))\<rparr>)))))"

section \<open>Conservation\<close>

text \<open>
  Conversion to anonymous value takes exactly the amount from the public balance, never
  below zero, and creates exactly one note, tracked by the account and appended to the tree,
  visible to the viewing key; nothing else of the account changes.
\<close>

theorem public_to_anon_conserves:
  assumes "convert_public_to_anon E account request existing = Inr conv"
  shows "unat (a_balance (pac_account conv)) + unat (pa_amount request) = unat (a_balance account) \<and>
    0 < unat (pa_amount request) \<and> a_nonce (pac_account conv) = a_nonce account \<and>
    a_code_hash (pac_account conv) = a_code_hash account \<and>
    note_commitments (a_anonymous_state (pac_account conv)) = note_commitments (a_anonymous_state account) @
      [compute_commitment E (pa_amount request) (pa_recipient_public_key request) (pa_blinding request)] \<and>
    is_visible_to E (pac_viewable_note conv) (pa_viewing_key request) \<and>
    pac_merkle_root conv = tree_root E (tree_append (from_commitments existing) (vn_note (pac_viewable_note conv)))"
proof -
  have le: "pa_amount request \<le> a_balance account" and nz: "pa_amount request \<noteq> 0"
    using assms by (auto simp: convert_public_to_anon_def not_less split: if_splits)
  obtain vn where vn: "ViewableNote_new E (pa_amount request) (pa_recipient_public_key request)
      (pa_viewing_key request) (pa_blinding request) (pa_shard_id request) = Inr vn"
    and conv: "conv = \<lparr>pac_account = account\<lparr>a_balance := a_balance account - pa_amount request,
                  a_anonymous_state := \<lparr>viewing_hint = Some (vn_viewing_hint vn),
                    note_commitments = note_commitments (a_anonymous_state account) @ [commitment (vn_note vn)]\<rparr>\<rparr>,
                pac_viewable_note = vn,
                pac_merkle_root = tree_root E (from_commitments (existing @ [commitment (vn_note vn)]))\<rparr>"
    using assms by (auto simp: convert_public_to_anon_def result_simps split: if_splits)
  have "is_visible_to E vn (pa_viewing_key request)"
    "commitment (vn_note vn) = compute_commitment E (pa_amount request) (pa_recipient_public_key request) (pa_blinding request)"
    using vn by (auto simp: ViewableNote_new_def from_note_def result_simps is_visible_to_def)
  moreover have "unat (a_balance account - pa_amount request) + unat (pa_amount request) = unat (a_balance account)"
    using le by (simp add: unat_sub word_le_nat_alt)
  ultimately show ?thesis
    using nz by (simp add: conv tree_append_def from_commitments_def unat_gt_0)
qed

definition sample_anon_request :: PublicToAnonRequest where
  "sample_anon_request = \<lparr>pa_amount = 10, pa_recipient_public_key = replicate 32 48,
     pa_viewing_key = replicate 32 3, pa_blinding = replicate 32 31, pa_shard_id = 0\<rparr>"

definition sample_public_request :: AnonToPublicRequest where
  "sample_public_request = \<lparr>ap_amount = 10, ap_spending_private_key = replicate 32 21,
     ap_blinding = replicate 32 31, ap_merkle_proof = \<lparr>leaf_index = 0, leaf = replicate 32 72, siblings = []\<rparr>,
     ap_shard_id = None\<rparr>"

definition sample_anon_conversion :: PublicToAnonConversion where
  "sample_anon_conversion = \<lparr>pac_account = (sample_account 90 5)\<lparr>a_anonymous_state :=
       \<lparr>viewing_hint = Some (replicate 32 49), note_commitments = [replicate 32 72]\<rparr>\<rparr>,
     pac_viewable_note = \<lparr>vn_note = \<lparr>commitment = replicate 32 72\<rparr>, vn_viewing_hint = replicate 32 49, vn_shard_id = 0\<rparr>,
     pac_merkle_root = replicate 32 54\<rparr>"

lemma sample_digests:
  "compute_commitment sample_env v (replicate 32 a) (replicate 32 b) = replicate 32 72"
  "derive_note_recipient_public_key sample_env (replicate 32 k) = replicate 32 48"
  "hash_leaf sample_env (replicate 32 a) = replicate 32 54"
  "k \<noteq> 0 \<Longrightarrow> compute_viewing_hint sample_env (replicate 32 k) = Some (replicate 32 49)"
  by (simp_all add: compute_commitment_def derive_note_recipient_public_key_def hash_leaf_def leaf_prefix_def
      compute_viewing_hint_def replicate_nonzero sample_env_def sample_digest_def)

lemma sample_root: "tree_root sample_env (from_commitments [replicate 32 a]) = replicate 32 54"
  by (simp add: tree_root_def from_commitments_def compute_root_from_leaves_def note_levels.simps sample_digests)

lemma sample_conversion:
  "convert_public_to_anon sample_env (sample_account 100 5) sample_anon_request [] = Inr sample_anon_conversion"
  by (simp add: convert_public_to_anon_def sample_account_def sample_anon_request_def AnonymousAccountState_default_def
      ViewableNote_new_def Note_new_def from_note_def sample_digests sample_root replicate_nonzero sample_anon_conversion_def)

theorem public_to_anon_conserves_witness:
  "unat (a_balance (pac_account sample_anon_conversion)) + 10 = 100"
  using public_to_anon_conserves [OF sample_conversion] by (simp add: sample_account_def sample_anon_request_def)

text \<open>
  Conversion back adds exactly the amount to the public balance, without overflow, and
  consumes exactly one tracked commitment, which must open to that amount under the spending
  key; the other tracked commitments stay.
\<close>

theorem anon_to_public_conserves:
  assumes "convert_anon_to_public E account request current = Inr conv"
  shows "unat (a_balance (apc_account conv)) = unat (a_balance account) + unat (ap_amount request) \<and>
    apc_consumed_commitment conv = compute_commitment E (ap_amount request)
      (derive_note_recipient_public_key E (ap_spending_private_key request)) (ap_blinding request) \<and>
    apc_consumed_commitment conv \<in> set current \<and>
    add_mset (apc_consumed_commitment conv) (mset (note_commitments (a_anonymous_state (apc_account conv)))) =
      mset (note_commitments (a_anonymous_state account)) \<and>
    verify_proof E (tree_root E (from_commitments current)) (ap_merkle_proof request)"
proof -
  let ?c = "compute_commitment E (ap_amount request)
      (derive_note_recipient_public_key E (ap_spending_private_key request)) (ap_blinding request)"
  let ?ns = "note_commitments (a_anonymous_state account)"
  obtain i j bal where i: "position (\<lambda>stored. stored = ?c) ?ns = Some i"
    and j: "position (\<lambda>stored. stored = ?c) current = Some j"
    and bal: "checked_add (a_balance account) (ap_amount request) = Some bal"
    and conv: "apc_account conv = account\<lparr>a_balance := bal, a_anonymous_state :=
        \<lparr>viewing_hint = (if remove_nth i ?ns = [] then None else viewing_hint (a_anonymous_state account)),
         note_commitments = remove_nth i ?ns\<rparr>\<rparr>" "apc_consumed_commitment conv = ?c"
    and pf: "verify_proof E (tree_root E (from_commitments current)) (ap_merkle_proof request)"
    using assms by (auto simp: convert_anon_to_public_def Let_def result_simps split: if_splits)
  have "?c \<in> set current" using position_Some [OF j] nth_mem [of j current] by auto
  moreover have "add_mset ?c (mset (remove_nth i ?ns)) = mset ?ns"
    using position_Some [OF i] mset_remove_nth [of i ?ns] by auto
  ultimately show ?thesis using bal conv pf by (simp add: checked_add_Some_iff)
qed

definition sample_public_conversion :: AnonToPublicConversion where
  "sample_public_conversion = \<lparr>apc_account = sample_account 100 5, apc_consumed_commitment = replicate 32 72,
     apc_merkle_root = tree_root sample_env (from_commitments [])\<rparr>"

lemma sample_conversion_back:
  "convert_anon_to_public sample_env (pac_account sample_anon_conversion) sample_public_request [replicate 32 72] =
     Inr sample_public_conversion"
  by (simp add: convert_anon_to_public_def sample_public_request_def Let_def sample_digests Note_new_def replicate_nonzero
      verify_proof_def sample_root sample_anon_conversion_def checked_add_def sample_account_def remove_nth_def
      AnonymousAccountState_default_def sample_public_conversion_def)

theorem anon_to_public_conserves_witness:
  "unat (a_balance (apc_account sample_public_conversion)) = 90 + 10"
  using anon_to_public_conserves [OF sample_conversion_back]
  by (simp add: sample_anon_conversion_def sample_public_request_def sample_account_def)

section \<open>Round trip\<close>

text \<open>
  C28. Going there and back: after a successful conversion to anonymous value, the owner of
  the note, with the membership proof of the new leaf, can convert it back, as long as the
  commitment was new. The root of the note tree is then what it was, and so is the account, its
  nonce, code hash and tracked commitments included, except for the viewing hint: it is the hint of
  the note when the account tracks other notes, and reset when it tracks none. So an account comes
  back unchanged exactly when its hint was set if and only if it tracked notes.
\<close>

theorem conversion_roundtrip:
  assumes "convert_public_to_anon E account request existing = Inr conv"
    and "pa_recipient_public_key request = derive_note_recipient_public_key E sk"
    and "c = commitment (vn_note (pac_viewable_note conv))"
    and "c \<notin> set existing" and "c \<notin> set (note_commitments (a_anonymous_state account))"
    and "generate_proof E (from_commitments (existing @ [c])) (length existing) = Inr p"
    and "back = \<lparr>ap_amount = pa_amount request, ap_spending_private_key = sk,
      ap_blinding = pa_blinding request, ap_merkle_proof = p, ap_shard_id = None\<rparr>"
  shows "\<exists>conv'. convert_anon_to_public E (pac_account conv) back (existing @ [c]) = Inr conv' \<and>
    apc_account conv' = account\<lparr>a_anonymous_state := \<lparr>viewing_hint =
        (if note_commitments (a_anonymous_state account) = [] then None else Some (vn_viewing_hint (pac_viewable_note conv))),
      note_commitments = note_commitments (a_anonymous_state account)\<rparr>\<rparr> \<and>
    (apc_account conv' = account \<longleftrightarrow>
       (viewing_hint (a_anonymous_state account) = None \<longleftrightarrow> note_commitments (a_anonymous_state account) = [])) \<and>
    apc_consumed_commitment conv' = c \<and>
    apc_merkle_root conv' = tree_root E (from_commitments existing)"
proof -
  let ?ns = "note_commitments (a_anonymous_state account)"
  have le: "pa_amount request \<le> a_balance account" and nz: "pa_amount request \<noteq> 0"
    using assms(1) by (auto simp: convert_public_to_anon_def not_less split: if_splits)
  obtain vn where vn: "ViewableNote_new E (pa_amount request) (pa_recipient_public_key request)
      (pa_viewing_key request) (pa_blinding request) (pa_shard_id request) = Inr vn"
    and acc: "pac_account conv = account\<lparr>a_balance := a_balance account - pa_amount request,
        a_anonymous_state := \<lparr>viewing_hint = Some (vn_viewing_hint vn),
          note_commitments = ?ns @ [c]\<rparr>\<rparr>"
    and vnote: "pac_viewable_note conv = vn"
    and hint: "viewing_hint (a_anonymous_state account) = None \<or> viewing_hint (a_anonymous_state account) = Some (vn_viewing_hint vn)"
    using assms(1,3) by (auto simp: convert_public_to_anon_def result_simps split: if_splits)
  have new: "Note_new E (pa_amount request) (pa_recipient_public_key request) (pa_blinding request) = Inr \<lparr>commitment = c\<rparr>"
    using vn assms(1,3)
    by (auto simp: convert_public_to_anon_def ViewableNote_new_def from_note_def result_simps split: if_splits)
  have pos: "position (\<lambda>stored. stored = c) (xs @ [c]) = Some (length xs)" if "c \<notin> set xs" for xs
    using that by (intro position_append_new) auto
  have bal: "checked_add (a_balance account - pa_amount request) (pa_amount request) = Some (a_balance account)"
    using le by (simp add: checked_add_Some_iff unat_sub word_le_nat_alt)
  have p: "leaf p = c" "verify_proof E (tree_root E (from_commitments (existing @ [c]))) p"
    using generated_proof_verifies [OF assms(6)] by (simp_all add: from_commitments_def)
  let ?acc = "account\<lparr>a_anonymous_state := \<lparr>viewing_hint = (if ?ns = [] then None else Some (vn_viewing_hint vn)), note_commitments = ?ns\<rparr>\<rparr>"
  have "account\<lparr>a_balance := a_balance account, a_anonymous_state := st\<rparr> = account\<lparr>a_anonymous_state := st\<rparr>" for st by simp
  then have "\<exists>conv'. convert_anon_to_public E (pac_account conv) back (existing @ [c]) = Inr conv' \<and> apc_account conv' = ?acc \<and>
      apc_consumed_commitment conv' = c \<and> apc_merkle_root conv' = tree_root E (from_commitments existing)"
    using nz new p pos [OF assms(4)] pos [OF assms(5)] bal
    by (simp add: convert_anon_to_public_def assms(2) [symmetric] Let_def acc assms(7))
  moreover have "?acc = account \<longleftrightarrow> (viewing_hint (a_anonymous_state account) = None \<longleftrightarrow> ?ns = [])"
    using hint by (cases account; cases "a_anonymous_state account") auto
  ultimately show ?thesis unfolding vnote by auto
qed

theorem conversion_roundtrip_witness:
  "\<exists>conv'. convert_anon_to_public sample_env (pac_account sample_anon_conversion) sample_public_request
     [replicate 32 72] = Inr conv' \<and> apc_account conv' = sample_account 100 5"
proof -
  have key: "pa_recipient_public_key sample_anon_request = derive_note_recipient_public_key sample_env (replicate 32 21)"
    by (simp add: sample_anon_request_def sample_digests)
  have c: "replicate 32 72 = commitment (vn_note (pac_viewable_note sample_anon_conversion))"
    by (simp add: sample_anon_conversion_def)
  have p: "generate_proof sample_env (from_commitments ([] @ [replicate 32 72])) (length []) =
      Inr \<lparr>leaf_index = 0, leaf = replicate 32 72, siblings = []\<rparr>"
    by (simp add: generate_proof_def from_commitments_def proof_loop.simps)
  have req: "sample_public_request = \<lparr>ap_amount = pa_amount sample_anon_request, ap_spending_private_key = replicate 32 21,
      ap_blinding = pa_blinding sample_anon_request, ap_merkle_proof = \<lparr>leaf_index = 0, leaf = replicate 32 72, siblings = []\<rparr>,
      ap_shard_id = None\<rparr>"
    by (simp add: sample_public_request_def sample_anon_request_def)
  from conversion_roundtrip [OF sample_conversion key c _ _ p req] show ?thesis
    by (auto simp: sample_account_def AnonymousAccountState_default_def)
qed

end
