(* ===== verification/Files.thy ===== *)
theory Files
  imports Types Text
begin

text \<open>
  Files and buffered writing, as the command line tools use them from \<open>std::fs\<close> and
  \<open>std::io\<close>. The disk is a parameter: \<open>file_ops\<close> has the calls, each of which may
  fail, and \<open>disk_spec\<close> describes a disk on which they succeed, through a view of its state
  as a map from paths to contents. \<open>BufWriter\<close> is modelled with its buffer, because dropping
  one writes the rest of the buffer and ignores the error of that write.
\<close>

section \<open>Computations on the disk\<close>

type_synonym ('f, 'a, 'e) io = "'f \<Rightarrow> 'f \<times> ('a, 'e) result"

definition io_bind :: "('f, 'a, 'e) io \<Rightarrow> ('a \<Rightarrow> ('f, 'b, 'e) io) \<Rightarrow> ('f, 'b, 'e) io" where
  "io_bind m f s = (case m s of (s', Inl e) \<Rightarrow> (s', Inl e) | (s', Inr x) \<Rightarrow> f x s')"

definition io_lift :: "('a, 'e) result \<Rightarrow> ('f, 'a, 'e) io" where
  "io_lift r s = (s, r)"

definition io_reads :: "('f \<Rightarrow> ('a, 'e) result) \<Rightarrow> ('f, 'a, 'e) io" where
  "io_reads g s = (s, g s)"

definition io_context :: "('e \<Rightarrow> 'd) \<Rightarrow> ('f, 'a, 'e) io \<Rightarrow> ('f, 'a, 'd) io" where
  "io_context h m s = (case m s of (s', r) \<Rightarrow> (s', map_err h r))"

named_theorems io_simps "running a computation whose parts are known"

lemma io_bind_Inr [io_simps]: "m s = (s', Inr x) \<Longrightarrow> io_bind m f s = f x s'"
  by (simp add: io_bind_def)

lemma io_bind_Inl [io_simps]: "m s = (s', Inl e) \<Longrightarrow> io_bind m f s = (s', Inl e)"
  by (simp add: io_bind_def)

lemma io_bind_lift_Inr [simp]: "io_bind (io_lift (Inr x)) f = f x"
  by (simp add: io_bind_def io_lift_def fun_eq_iff)

lemma io_bind_lift_Inl [simp]: "io_bind (io_lift (Inl e)) f = io_lift (Inl e)"
  by (simp add: io_bind_def io_lift_def fun_eq_iff)

lemma io_bind_reads [io_simps]:
  "io_bind (io_reads g) f s = (case g s of Inl e \<Rightarrow> (s, Inl e) | Inr x \<Rightarrow> f x s)"
  by (simp add: io_bind_def io_reads_def split: sum.splits)

lemma io_lift_apply [simp]: "io_lift r s = (s, r)"
  by (simp add: io_lift_def)

lemma io_bind_success:
  assumes "io_bind m f s = (s'', Inr y)"
  obtains s' x where "m s = (s', Inr x)" and "f x s' = (s'', Inr y)"
  using assms by (auto simp: io_bind_def split: prod.splits sum.splits)

section \<open>The disk\<close>

text \<open>
  \<open>create_file\<close> is \<open>File::create\<close>: it truncates an existing file. \<open>write_file\<close> appends to
  the file just created; a failed write says how many bytes it wrote before.
\<close>

record 'f file_ops =
  create_dir_all :: "string \<Rightarrow> ('f, unit, string) io"
  file_exists :: "string \<Rightarrow> 'f \<Rightarrow> bool"
  read_file :: "string \<Rightarrow> 'f \<Rightarrow> (bytes, string) result"
  create_file :: "string \<Rightarrow> ('f, unit, string) io"
  write_file :: "string \<Rightarrow> bytes \<Rightarrow> ('f, unit, nat \<times> string) io"

definition disk_spec :: "'f file_ops \<Rightarrow> ('f \<Rightarrow> string \<rightharpoonup> bytes) \<Rightarrow> bool" where
  "disk_spec F view \<longleftrightarrow>
     (\<forall>p s. file_exists F p s = (view s p \<noteq> None)) \<and>
     (\<forall>p s b. view s p = Some b \<longrightarrow> read_file F p s = Inr b) \<and>
     (\<forall>p s. \<exists>s'. create_dir_all F p s = (s', Inr ()) \<and> view s' = view s) \<and>
     (\<forall>p s. \<exists>s'. create_file F p s = (s', Inr ()) \<and> view s' = (view s)(p \<mapsto> [])) \<and>
     (\<forall>p bs s b. view s p = Some b \<longrightarrow> (\<exists>s'. write_file F p bs s = (s', Inr ()) \<and> view s' = (view s)(p \<mapsto> b @ bs)))"

text \<open>\<open>Path::join\<close> with a relative file name.\<close>

definition path_join :: "string \<Rightarrow> string \<Rightarrow> string" where
  "path_join dir name = (if dir = [] \<or> last dir = CHR ''/'' then dir @ name else dir @ ''/'' @ name)"

lemma path_join_inj: "path_join d m = path_join d n \<longleftrightarrow> m = n"
  by (simp add: path_join_def)

section \<open>Buffered writing\<close>

definition BUF_CAPACITY :: nat where
  "BUF_CAPACITY = 8192"

definition flush_buf :: "'f file_ops \<Rightarrow> string \<Rightarrow> ('f \<times> bytes, unit, string) io" where
  "flush_buf F path = (\<lambda>(s, buf).
     if buf = [] then ((s, buf), Inr ())
     else (case write_file F path buf s of
        (s', Inr _) \<Rightarrow> ((s', []), Inr ())
      | (s', Inl (n, e)) \<Rightarrow> ((s', drop n buf), Inl e)))"

text \<open>\<open>BufWriter::write_all\<close>: small pieces are collected, large ones go to the file.\<close>

definition buf_write_all :: "'f file_ops \<Rightarrow> string \<Rightarrow> bytes \<Rightarrow> ('f \<times> bytes, unit, string) io" where
  "buf_write_all F path bs = (\<lambda>(s, buf).
     let spare = BUF_CAPACITY - length buf in
     if length bs < spare then ((s, buf @ bs), Inr ())
     else (case (if spare < length bs then flush_buf F path (s, buf) else ((s, buf), Inr ())) of
        (w, Inl e) \<Rightarrow> (w, Inl e)
      | ((s', buf'), Inr _) \<Rightarrow>
          if BUF_CAPACITY \<le> length bs
          then (case write_file F path bs s' of
             (s'', Inr _) \<Rightarrow> ((s'', buf'), Inr ())
           | (s'', Inl (n, e)) \<Rightarrow> ((s'', buf'), Inl e))
          else ((s', buf' @ bs), Inr ())))"

fun buf_write_fragments :: "'f file_ops \<Rightarrow> string \<Rightarrow> bytes list \<Rightarrow> ('f \<times> bytes, unit, string) io" where
  "buf_write_fragments F path [] w = (w, Inr ())"
| "buf_write_fragments F path (bs # rest) w = io_bind (buf_write_all F path bs) (\<lambda>_. buf_write_fragments F path rest) w"

text \<open>
  A serialiser as a writer sees it: the pieces it writes, and its own error after them.
\<close>

type_synonym 'a writer = "'a \<Rightarrow> bytes list \<times> (unit, string) result"

text \<open>
  Writing a value through a new \<open>BufWriter\<close> that is dropped at the end: the drop writes the rest
  of the buffer and its error is lost.
\<close>

definition write_and_drop :: "'f file_ops \<Rightarrow> string \<Rightarrow> bytes list \<times> (unit, string) result \<Rightarrow> ('f, unit, string) io" where
  "write_and_drop F path out s =
     (case io_bind (buf_write_fragments F path (fst out)) (\<lambda>_. io_lift (snd out)) (s, []) of
        (w, r) \<Rightarrow> (fst (fst (flush_buf F path w)), r))"

text \<open>The same with an explicit \<open>flush\<close> before the drop, whose error is returned.\<close>

definition write_and_flush :: "'f file_ops \<Rightarrow> string \<Rightarrow> bytes list \<times> (unit, string) result
    \<Rightarrow> ('f, unit, (string + string)) io" where
  "write_and_flush F path out s =
     (case io_bind (buf_write_fragments F path (fst out)) (\<lambda>_. io_lift (snd out)) (s, []) of
        (w, Inl e) \<Rightarrow> (fst (fst (flush_buf F path w)), Inl (Inl e))
      | (w, Inr _) \<Rightarrow> (case flush_buf F path w of
            (w', Inl e) \<Rightarrow> (fst (fst (flush_buf F path w')), Inl (Inr e))
          | (w', Inr _) \<Rightarrow> (fst w', Inr ())))"

section \<open>Buffering is transparent on a working disk\<close>

lemma disk_write:
  assumes "disk_spec F view" and "view s p = Some b"
  obtains s' where "write_file F p bs s = (s', Inr ())" and "view s' = (view s)(p \<mapsto> b @ bs)"
  using assms unfolding disk_spec_def by blast

lemma flush_buf_ok:
  assumes "disk_spec F view" and "view s path = Some b"
  obtains s' where "flush_buf F path (s, buf) = ((s', []), Inr ())" and "view s' = (view s)(path \<mapsto> b @ buf)"
proof (cases "buf = []")
  case True
  with assms(2) that show ?thesis by (simp add: flush_buf_def fun_upd_idem)
next
  case False
  obtain s' where "write_file F path buf s = (s', Inr ())" "view s' = (view s)(path \<mapsto> b @ buf)"
    using disk_write [OF assms] by blast
  with False that show ?thesis by (simp add: flush_buf_def)
qed

lemma buf_write_all_ok:
  assumes "disk_spec F view" and "view s path = Some b"
  obtains s' b' buf' where "buf_write_all F path bs (s, buf) = ((s', buf'), Inr ())"
    and "view s' = (view s)(path \<mapsto> b')" and "b' @ buf' = b @ buf @ bs"
proof -
  have upd: "view s = (view s)(path \<mapsto> b)" using assms(2) by (simp add: fun_upd_idem)
  consider (small) "length bs < BUF_CAPACITY - length buf"
    | (fits) "length bs = BUF_CAPACITY - length buf" | (large) "BUF_CAPACITY - length buf < length bs"
    by linarith
  then show ?thesis
  proof cases
    case small
    with upd that show ?thesis by (simp add: buf_write_all_def)
  next
    case fits
    show ?thesis
    proof (cases "buf = [] \<and> BUF_CAPACITY \<le> length bs")
      case True
      obtain s' where "write_file F path bs s = (s', Inr ())" "view s' = (view s)(path \<mapsto> b @ bs)"
        using disk_write [OF assms] by blast
      with True fits that show ?thesis by (simp add: buf_write_all_def)
    next
      case False
      then have "\<not> BUF_CAPACITY \<le> length bs" using fits by (cases buf) (auto simp: BUF_CAPACITY_def)
      with fits upd that show ?thesis by (simp add: buf_write_all_def)
    qed
  next
    case large
    obtain s1 where s1: "flush_buf F path (s, buf) = ((s1, []), Inr ())" "view s1 = (view s)(path \<mapsto> b @ buf)"
      using flush_buf_ok [OF assms] by blast
    show ?thesis
    proof (cases "BUF_CAPACITY \<le> length bs")
      case True
      have "view s1 path = Some (b @ buf)" using s1(2) by simp
      then obtain s2 where "write_file F path bs s1 = (s2, Inr ())" "view s2 = (view s1)(path \<mapsto> (b @ buf) @ bs)"
        using disk_write [OF assms(1)] by blast
      with large True s1 that show ?thesis by (simp add: buf_write_all_def)
    next
      case False
      with large s1 that show ?thesis by (simp add: buf_write_all_def)
    qed
  qed
qed

lemma buf_write_fragments_ok:
  assumes "disk_spec F view" and "view s path = Some b"
  obtains s' b' buf' where "buf_write_fragments F path frags (s, buf) = ((s', buf'), Inr ())"
    and "view s' = (view s)(path \<mapsto> b')" and "b' @ buf' = b @ buf @ concat frags"
  using assms(2)
proof (induction frags arbitrary: s b buf thesis)
  case Nil
  show ?case by (rule Nil(1) [of s buf b]) (simp_all add: Nil(2) fun_upd_idem)
next
  case (Cons bs frags)
  obtain s1 b1 buf1 where 1: "buf_write_all F path bs (s, buf) = ((s1, buf1), Inr ())"
      "view s1 = (view s)(path \<mapsto> b1)" "b1 @ buf1 = b @ buf @ bs"
    using buf_write_all_ok [OF assms(1) Cons.prems(2)] by blast
  obtain s2 b2 buf2 where 2: "buf_write_fragments F path frags (s1, buf1) = ((s2, buf2), Inr ())"
      "view s2 = (view s1)(path \<mapsto> b2)" "b2 @ buf2 = b1 @ buf1 @ concat frags"
  proof (rule Cons.IH)
    show "view s1 path = Some b1" using 1(2) by simp
  qed
  show ?case
  proof (rule Cons.prems(1))
    show "buf_write_fragments F path (bs # frags) (s, buf) = ((s2, buf2), Inr ())"
      using 1(1) 2(1) by (simp add: io_bind_Inr)
    show "view s2 = (view s)(path \<mapsto> b2)" using 1(2) 2(2) by simp
    show "b2 @ buf2 = b @ buf @ concat (bs # frags)" using 1(3) 2(3) by (metis append.assoc concat.simps(2))
  qed
qed

lemma write_and_drop_ok:
  assumes "disk_spec F view" and "view s path = Some b" and "snd out = Inr ()"
  obtains s' where "write_and_drop F path out s = (s', Inr ())" and "view s' = (view s)(path \<mapsto> b @ concat (fst out))"
proof -
  obtain s1 b1 buf1 where 1: "buf_write_fragments F path (fst out) (s, []) = ((s1, buf1), Inr ())"
      "view s1 = (view s)(path \<mapsto> b1)" "b1 @ buf1 = b @ concat (fst out)"
    by (rule buf_write_fragments_ok [OF assms(1,2), of "fst out" "[]"]) simp
  obtain s2 where 2: "flush_buf F path (s1, buf1) = ((s2, []), Inr ())" "view s2 = (view s1)(path \<mapsto> b1 @ buf1)"
    using flush_buf_ok [OF assms(1), of s1 path b1] 1(2) by auto
  from 1 2 assms(3) that show ?thesis by (simp add: write_and_drop_def io_bind_Inr)
qed

lemma write_and_flush_ok:
  assumes "disk_spec F view" and "view s path = Some b" and "snd out = Inr ()"
  obtains s' where "write_and_flush F path out s = (s', Inr ())" and "view s' = (view s)(path \<mapsto> b @ concat (fst out))"
proof -
  obtain s1 b1 buf1 where 1: "buf_write_fragments F path (fst out) (s, []) = ((s1, buf1), Inr ())"
      "view s1 = (view s)(path \<mapsto> b1)" "b1 @ buf1 = b @ concat (fst out)"
    by (rule buf_write_fragments_ok [OF assms(1,2), of "fst out" "[]"]) simp
  obtain s2 where 2: "flush_buf F path (s1, buf1) = ((s2, []), Inr ())" "view s2 = (view s1)(path \<mapsto> b1 @ buf1)"
    using flush_buf_ok [OF assms(1), of s1 path b1] 1(2) by auto
  from 1 2 assms(3) that show ?thesis by (simp add: write_and_flush_def io_bind_Inr)
qed

end
