(* ===== verification/Network.thy ===== *)
theory Network
  imports Hash Votes Text Mempool
begin

unbundle bit_operations_syntax

text \<open>
  \<open>src/src/network\<close>: connection limits and peer penalties, the configuration read from
  the environment, the wire messages, the conversion of chain values to messages and the node.
  The libp2p swarm, the \<open>hex\<close> and \<open>serde_json\<close> crates, the process environment and the file
  system are parameters. The builder of the swarm is a field of its operations; the theory of the
  start of a node fills it in.
\<close>

section \<open>Connections\<close>

record ConnectionLimits =
  max_established_incoming :: nat
  max_established_outgoing :: nat
  reconnect_delay_secs :: u64
  temporary_ban_secs :: u64
  max_invalid_messages :: u32

definition ConnectionLimits_default :: ConnectionLimits where
  "ConnectionLimits_default = \<lparr>max_established_incoming = 32, max_established_outgoing = 32,
     reconnect_delay_secs = 5, temporary_ban_secs = 60, max_invalid_messages = 3\<rparr>"

record PeerPenalty =
  pp_invalid_messages :: u32
  pp_banned_until_unix :: "u64 option"
  pp_last_disconnect_unix :: "u64 option"

definition PeerPenalty_default :: PeerPenalty where
  "PeerPenalty_default = \<lparr>pp_invalid_messages = 0, pp_banned_until_unix = None, pp_last_disconnect_unix = None\<rparr>"

definition register_disconnect :: "u64 \<Rightarrow> PeerPenalty \<Rightarrow> PeerPenalty" where
  "register_disconnect now p = p\<lparr>pp_last_disconnect_unix := Some now\<rparr>"

definition can_reconnect :: "PeerPenalty \<Rightarrow> u64 \<Rightarrow> ConnectionLimits \<Rightarrow> bool" where
  "can_reconnect p now limits =
     (case pp_last_disconnect_unix p of
        Some last_disconnect \<Rightarrow> reconnect_delay_secs limits \<le> saturating_sub now last_disconnect
      | None \<Rightarrow> True)"

definition register_invalid_message :: "u64 \<Rightarrow> ConnectionLimits \<Rightarrow> PeerPenalty \<Rightarrow> PeerPenalty \<times> bool" where
  "register_invalid_message now limits p =
     (let n = pp_invalid_messages p + 1 in
      if max_invalid_messages limits \<le> n
      then (p\<lparr>pp_invalid_messages := 0,
              pp_banned_until_unix := Some (saturating_add now (temporary_ban_secs limits))\<rparr>, True)
      else (p\<lparr>pp_invalid_messages := n\<rparr>, False))"

definition is_banned :: "PeerPenalty \<Rightarrow> u64 \<Rightarrow> bool" where
  "is_banned p now = (case pp_banned_until_unix p of Some until \<Rightarrow> now < until | None \<Rightarrow> False)"

definition clear_expired_ban :: "u64 \<Rightarrow> PeerPenalty \<Rightarrow> PeerPenalty" where
  "clear_expired_ban now p =
     (if (case pp_banned_until_unix p of Some until \<Rightarrow> until \<le> now | None \<Rightarrow> False)
      then p\<lparr>pp_banned_until_unix := None\<rparr> else p)"

section \<open>Configuration\<close>

record NetworkConfig =
  listen_address :: string
  seed_nodes :: "string list"
  external_address :: "string option"
  connection_limits :: ConnectionLimits

text \<open>The environment of the process: \<open>env::var(name).ok()\<close>.\<close>

type_synonym process_env = "string \<Rightarrow> string option"

definition parse_env_usize :: "process_env \<Rightarrow> string \<Rightarrow> nat \<Rightarrow> nat" where
  "parse_env_usize vars name fallback =
     (case vars name of
        Some value \<Rightarrow> (case parse_uint 64 (bytes_of value) of Some n \<Rightarrow> n | None \<Rightarrow> fallback)
      | None \<Rightarrow> fallback)"

definition parse_env_u64 :: "process_env \<Rightarrow> string \<Rightarrow> u64 \<Rightarrow> u64" where
  "parse_env_u64 vars name fallback =
     (case vars name of
        Some value \<Rightarrow> (case parse_uint 64 (bytes_of value) of Some n \<Rightarrow> of_nat n | None \<Rightarrow> fallback)
      | None \<Rightarrow> fallback)"

definition parse_env_u32 :: "process_env \<Rightarrow> string \<Rightarrow> u32 \<Rightarrow> u32" where
  "parse_env_u32 vars name fallback =
     (case vars name of
        Some value \<Rightarrow> (case parse_uint 32 (bytes_of value) of Some n \<Rightarrow> of_nat n | None \<Rightarrow> fallback)
      | None \<Rightarrow> fallback)"

definition NetworkConfig_default :: "process_env \<Rightarrow> NetworkConfig" where
  "NetworkConfig_default vars =
     \<lparr>listen_address = (case vars ''PRIMS_LISTEN_ADDRESS'' of Some a \<Rightarrow> a | None \<Rightarrow> ''/ip4/0.0.0.0/tcp/7001''),
      seed_nodes = (case vars ''PRIMS_SEED_NODES'' of
          Some value \<Rightarrow> filter (\<lambda>s. s \<noteq> []) (map trim (split_char CHR '','' value))
        | None \<Rightarrow> []),
      external_address = (case vars ''PRIMS_EXTERNAL_ADDRESS'' of
          Some value \<Rightarrow> if trim value = [] then None else Some (trim value)
        | None \<Rightarrow> None),
      connection_limits = \<lparr>
        max_established_incoming = parse_env_usize vars ''PRIMS_MAX_ESTABLISHED_INCOMING'' 32,
        max_established_outgoing = parse_env_usize vars ''PRIMS_MAX_ESTABLISHED_OUTGOING'' 32,
        reconnect_delay_secs = parse_env_u64 vars ''PRIMS_RECONNECT_DELAY_SECS'' 5,
        temporary_ban_secs = parse_env_u64 vars ''PRIMS_TEMPORARY_BAN_SECS'' 60,
        max_invalid_messages = parse_env_u32 vars ''PRIMS_MAX_INVALID_MESSAGES'' 3\<rparr>\<rparr>"

section \<open>Messages\<close>

record NetworkTransaction =
  nt_id :: string
  nt_payload :: bytes

record NetworkBlock =
  nb_height :: u64
  nb_hash :: string
  nb_transactions :: "NetworkTransaction list"

record NetworkVote =
  nv_height :: u64
  nv_block_hash :: bytes
  nv_voter :: bytes
  nv_approve :: bool
  nv_signature :: bytes

datatype Message =
    Ping
  | Pong
  | NewTransaction NetworkTransaction
  | NewBlock NetworkBlock
  | GetBlocks u64
  | Blocks "NetworkBlock list"
  | VoteMessage NetworkVote

text \<open>
  The third-party interface of the network: the codec of messages, the \<open>hex\<close> and JSON
  readers, and what makes a libp2p key pair.
\<close>

record 'k net_env = env +
  bc_message :: "Message codec"
  net_hex_decode :: "string \<Rightarrow> string + bytes"
  json_string_field :: "string \<Rightarrow> string \<Rightarrow> string + string option"
  keypair_from_bytes :: "bytes \<Rightarrow> string + 'k"
  keypair_generated :: 'k

definition to_bytes :: "('k, 'z) net_env_scheme \<Rightarrow> Message \<Rightarrow> (bytes, string) result" where
  "to_bytes E m = serialize (bc_message E) m"

definition from_bytes :: "('k, 'z) net_env_scheme \<Rightarrow> bytes \<Rightarrow> (Message, string) result" where
  "from_bytes E bs = deserialize (bc_message E) bs"

section \<open>Converting chain values\<close>

definition HEX :: string where
  "HEX = ''0123456789abcdef''"

definition bytes_to_hex :: "bytes \<Rightarrow> string" where
  "bytes_to_hex bs = concat (map (\<lambda>b. [HEX ! unat (drop_bit 4 b), HEX ! unat (b AND 0x0f)]) bs)"

definition blockchain_transaction_to_network_transaction :: "'z env_scheme \<Rightarrow> Transaction \<Rightarrow> NetworkTransaction panics" where
  "blockchain_transaction_to_network_transaction E t =
     and_then (hash_transaction E t) (\<lambda>h.
     and_then (serialize (bc_transaction E) t) (\<lambda>b.
       Inr \<lparr>nt_id = bytes_to_hex h, nt_payload = b\<rparr>))"

definition blockchain_block_to_network_block :: "'z env_scheme \<Rightarrow> Block \<Rightarrow> NetworkBlock panics" where
  "blockchain_block_to_network_block E block =
     and_then (hash_block_header E (b_header block)) (\<lambda>h.
     and_then (try_map (blockchain_transaction_to_network_transaction E) (b_transactions block)) (\<lambda>ts.
       Inr \<lparr>nb_height = h_height (b_header block), nb_hash = bytes_to_hex h, nb_transactions = ts\<rparr>))"

definition consensus_vote_to_network_vote :: "ConsensusVote \<Rightarrow> NetworkVote" where
  "consensus_vote_to_network_vote v =
     \<lparr>nv_height = cv_height v, nv_block_hash = cv_block_hash v, nv_voter = cv_voter v, nv_approve = cv_approve v,
      nv_signature = cv_signature v\<rparr>"

section \<open>The identity of the node\<close>

datatype key_error =
    KeyNotHex string string
  | KeyNot32Bytes string
  | KeyNotUtf8
  | KeyJsonInvalid string
  | KeyJsonFieldMissing
  | KeyFileUnreadable string
  | KeyInvalid string string

definition strip_hex_prefix :: "string \<Rightarrow> string" where
  "strip_hex_prefix s = (if take 2 s = ''0x'' \<or> take 2 s = ''0X'' then drop 2 s else s)"

definition decode_hex_32 :: "('k, 'z) net_env_scheme \<Rightarrow> string \<Rightarrow> string \<Rightarrow> (bytes, key_error) result" where
  "decode_hex_32 E label value =
     and_then (map_err (KeyNotHex label) (net_hex_decode E (strip_hex_prefix (trim value)))) (\<lambda>decoded.
       if length decoded \<noteq> 32 then Inl (KeyNot32Bytes label)
       else try_into_array 32 (KeyNot32Bytes label) decoded)"

text \<open>The text of a key file, which the model reads as ASCII.\<close>

definition text_of :: "bytes \<Rightarrow> string" where
  "text_of bs = map (\<lambda>b. char_of (unat b)) bs"

definition parse_network_secret_key_file_contents :: "('k, 'z) net_env_scheme \<Rightarrow> bytes \<Rightarrow> (bytes, key_error) result" where
  "parse_network_secret_key_file_contents E raw =
     (if \<not> utf8_valid raw then Inl KeyNotUtf8 else
      let trimmed = trim (text_of raw) in
      if take 1 trimmed = ''{'' then
        and_then (map_err KeyJsonInvalid (json_string_field E trimmed ''secret_key'')) (\<lambda>field.
        case field of
          Some key_hex \<Rightarrow> decode_hex_32 E ''secret_key'' key_hex
        | None \<Rightarrow>
            and_then (map_err KeyJsonInvalid (json_string_field E trimmed ''secret_key_hex'')) (\<lambda>field_hex.
            case field_hex of
              Some key_hex \<Rightarrow> decode_hex_32 E ''secret_key_hex'' key_hex
            | None \<Rightarrow> Inl KeyJsonFieldMissing))
      else decode_hex_32 E ''PRIMS_NETWORK_SECRET_KEY_FILE'' trimmed)"

definition load_network_identity_keypair :: "('k, 'z) net_env_scheme \<Rightarrow> process_env \<Rightarrow> (string \<Rightarrow> string + bytes) \<Rightarrow> ('k, key_error) result" where
  "load_network_identity_keypair E vars read_file =
     (case vars ''PRIMS_NETWORK_SECRET_KEY_FILE'' of
        Some path \<Rightarrow>
          and_then (map_err KeyFileUnreadable (read_file path)) (\<lambda>raw.
          and_then (parse_network_secret_key_file_contents E raw) (\<lambda>secret.
            map_err (KeyInvalid path) (keypair_from_bytes E secret)))
      | None \<Rightarrow>
          (case vars ''PRIMS_NETWORK_SECRET_KEY_HEX'' of
             Some value \<Rightarrow>
               and_then (decode_hex_32 E ''PRIMS_NETWORK_SECRET_KEY_HEX'' value) (\<lambda>secret.
                 map_err (KeyInvalid ''PRIMS_NETWORK_SECRET_KEY_HEX'') (keypair_from_bytes E secret))
           | None \<Rightarrow> Inr (keypair_generated E)))"

section \<open>The node\<close>

text \<open>
  The swarm \<open>'w\<close> with peers \<open>'p\<close>, addresses \<open>'a\<close> and message ids \<open>'i\<close>: building it with the
  Prims behaviour, parsing a multiaddress, listening, announcing, dialling and publishing.
\<close>

record ('k, 'w, 'p, 'a, 'i) swarm_ops =
  sw_build :: "'k \<Rightarrow> string + 'w"
  sw_parse_address :: "string \<Rightarrow> string + 'a"
  sw_listen_on :: "'w \<Rightarrow> 'a \<Rightarrow> string + 'w"
  sw_add_external_address :: "'w \<Rightarrow> 'a \<Rightarrow> 'w"
  sw_dial :: "'w \<Rightarrow> 'a \<Rightarrow> string + 'w"
  sw_local_peer_id :: "'w \<Rightarrow> 'p"
  sw_publish :: "'w \<Rightarrow> string \<Rightarrow> bytes \<Rightarrow> 'w \<times> (string + 'i)"

record ('w, 'p) PrimsNode =
  local_peer_id :: 'p
  swarm :: 'w
  config :: NetworkConfig
  node_connection_limits :: ConnectionLimits
  peer_penalties :: "'p \<rightharpoonup> PeerPenalty"

datatype node_error =
    IdentityError key_error
  | SwarmError string

fun dial_seeds :: "('k, 'w, 'p, 'a, 'i) swarm_ops \<Rightarrow> 'w \<Rightarrow> string list \<Rightarrow> ('w, node_error) result" where
  "dial_seeds S w [] = Inr w"
| "dial_seeds S w (seed # seeds) =
     and_then (map_err SwarmError (sw_parse_address S seed)) (\<lambda>addr.
     and_then (map_err SwarmError (sw_dial S w addr)) (\<lambda>w'. dial_seeds S w' seeds))"

definition PrimsNode_new :: "('k, 'z) net_env_scheme \<Rightarrow> process_env \<Rightarrow> (string \<Rightarrow> string + bytes)
    \<Rightarrow> ('k, 'w, 'p, 'a, 'i) swarm_ops \<Rightarrow> NetworkConfig \<Rightarrow> (('w, 'p) PrimsNode, node_error) result" where
  "PrimsNode_new E vars read_file S cfg =
     and_then (map_err IdentityError (load_network_identity_keypair E vars read_file)) (\<lambda>local_key.
     and_then (map_err SwarmError (sw_build S local_key)) (\<lambda>w0.
     and_then (map_err SwarmError (sw_parse_address S (listen_address cfg))) (\<lambda>addr.
     and_then (map_err SwarmError (sw_listen_on S w0 addr)) (\<lambda>w1.
     and_then (case external_address cfg of
         None \<Rightarrow> Inr w1
       | Some ext \<Rightarrow> and_then (map_err SwarmError (sw_parse_address S ext)) (\<lambda>a. Inr (sw_add_external_address S w1 a))) (\<lambda>w2.
     and_then (dial_seeds S w2 (seed_nodes cfg)) (\<lambda>w3.
       Inr \<lparr>local_peer_id = sw_local_peer_id S w3, swarm = w3, config = cfg,
            node_connection_limits = connection_limits cfg, peer_penalties = Map.empty\<rparr>))))))"

definition penalty_of :: "('w, 'p) PrimsNode \<Rightarrow> 'p \<Rightarrow> PeerPenalty" where
  "penalty_of n peer = (case peer_penalties n peer of Some p \<Rightarrow> p | None \<Rightarrow> PeerPenalty_default)"

definition can_accept_peer :: "'p \<Rightarrow> u64 \<Rightarrow> ('w, 'p) PrimsNode \<Rightarrow> ('w, 'p) PrimsNode \<times> bool" where
  "can_accept_peer peer now n =
     (let p = clear_expired_ban now (penalty_of n peer) in
      (n\<lparr>peer_penalties := (peer_penalties n)(peer \<mapsto> p)\<rparr>,
       \<not> is_banned p now \<and> can_reconnect p now (node_connection_limits n)))"

definition register_peer_disconnect :: "'p \<Rightarrow> u64 \<Rightarrow> ('w, 'p) PrimsNode \<Rightarrow> ('w, 'p) PrimsNode" where
  "register_peer_disconnect peer now n =
     n\<lparr>peer_penalties := (peer_penalties n)(peer \<mapsto> register_disconnect now (penalty_of n peer))\<rparr>"

definition node_register_invalid_message :: "'p \<Rightarrow> u64 \<Rightarrow> ('w, 'p) PrimsNode \<Rightarrow> ('w, 'p) PrimsNode \<times> bool" where
  "node_register_invalid_message peer now n =
     (let (p, banned) = register_invalid_message now (node_connection_limits n) (penalty_of n peer) in
      (n\<lparr>peer_penalties := (peer_penalties n)(peer \<mapsto> p)\<rparr>, banned))"

definition BLOCKS_TOPIC_NAME :: string where "BLOCKS_TOPIC_NAME = ''prims.blocks''"
definition TRANSACTIONS_TOPIC_NAME :: string where "TRANSACTIONS_TOPIC_NAME = ''prims.transactions''"
definition VOTES_TOPIC_NAME :: string where "VOTES_TOPIC_NAME = ''prims.votes''"

definition publish_message :: "('k, 'z) net_env_scheme \<Rightarrow> ('k, 'w, 'p, 'a, 'i) swarm_ops \<Rightarrow> string \<Rightarrow> Message
    \<Rightarrow> ('w, 'p) PrimsNode \<Rightarrow> ('w, 'p) PrimsNode \<times> ('i, string) result" where
  "publish_message E S topic message n =
     (case to_bytes E message of
        Inl e \<Rightarrow> (n, Inl e)
      | Inr bs \<Rightarrow> (let (w, r) = sw_publish S (swarm n) topic bs in (n\<lparr>swarm := w\<rparr>, r)))"

definition publish_transaction :: "('k, 'z) net_env_scheme \<Rightarrow> ('k, 'w, 'p, 'a, 'i) swarm_ops \<Rightarrow> Transaction
    \<Rightarrow> ('w, 'p) PrimsNode \<Rightarrow> (('w, 'p) PrimsNode \<times> ('i, string) result) panics" where
  "publish_transaction E S t n =
     and_then (blockchain_transaction_to_network_transaction E t) (\<lambda>nt.
       Inr (publish_message E S TRANSACTIONS_TOPIC_NAME (NewTransaction nt) n))"

definition publish_proposed_block :: "('k, 'z) net_env_scheme \<Rightarrow> ('k, 'w, 'p, 'a, 'i) swarm_ops \<Rightarrow> Block
    \<Rightarrow> ('w, 'p) PrimsNode \<Rightarrow> (('w, 'p) PrimsNode \<times> ('i, string) result) panics" where
  "publish_proposed_block E S block n =
     and_then (blockchain_block_to_network_block E block) (\<lambda>nb.
       Inr (publish_message E S BLOCKS_TOPIC_NAME (NewBlock nb) n))"

definition publish_vote :: "('k, 'z) net_env_scheme \<Rightarrow> ('k, 'w, 'p, 'a, 'i) swarm_ops \<Rightarrow> ConsensusVote
    \<Rightarrow> ('w, 'p) PrimsNode \<Rightarrow> ('w, 'p) PrimsNode \<times> ('i, string) result" where
  "publish_vote E S v n = publish_message E S VOTES_TOPIC_NAME (VoteMessage (consensus_vote_to_network_vote v)) n"

end
