(* ===== verification/Setup.thy ===== *)
theory Setup
  imports Privacy Files Network
begin

text \<open>
  \<open>src/src/bin/prims-setup.rs\<close>: the ceremony that makes the Groth16 parameters of the
  transfer circuit. The state of a ceremony lives in a JSON file: \<open>init\<close> creates it,
  \<open>contribute\<close> appends a contribution whose digest extends the transcript, \<open>finalize\<close> derives
  the seed of the parameter generation from the transcript and writes both keys with their
  metadata, \<open>inspect\<close> prints it. The JSON and key serialisers, the parameter generation of
  arkworks, the clock and the system entropy are parameters. A Rust string is the list of its
  UTF-8 bytes, so \<open>bytes_of\<close> is \<open>as_bytes\<close>. Printed lines are values of \<open>setup_line\<close>.
\<close>

section \<open>Data\<close>

definition STATE_FILE_NAME :: string where "STATE_FILE_NAME = ''ceremony_state.json''"
definition METADATA_FILE_NAME :: string where "METADATA_FILE_NAME = ''setup_metadata.json''"
definition PROVING_KEY_FILE_NAME :: string where "PROVING_KEY_FILE_NAME = ''groth16_proving_key.bin''"
definition VERIFYING_KEY_FILE_NAME :: string where "VERIFYING_KEY_FILE_NAME = ''groth16_verifying_key.bin''"

datatype setup_command =
    Init string string bool
  | Contribute string string
  | Finalize string bool
  | Inspect string

record CeremonyContribution =
  cc_index :: nat
  cc_contributor :: string
  cc_contributed_at_unix :: u64
  cc_entropy_digest_hex :: string
  cc_transcript_digest_hex :: string

record CeremonyState =
  cs_version :: u32
  cs_ceremony_kind :: string
  cs_curve :: string
  cs_circuit :: string
  cs_contributions :: "CeremonyContribution list"
  cs_last_transcript_digest_hex :: string
  cs_created_at_unix :: u64
  cs_updated_at_unix :: u64

record SetupMetadata =
  sm_version :: u32
  sm_ceremony_kind :: string
  sm_curve :: string
  sm_proving_system :: string
  sm_transcript_final_digest_hex :: string
  sm_contribution_count :: nat
  sm_contributor_names :: "string list"
  sm_proving_key_file :: string
  sm_verifying_key_file :: string
  sm_circuit_metadata :: ZkTransferSetupCircuitMetadata
  sm_generated_at_unix :: u64
  sm_notes :: "string list"

datatype setup_error =
    InvalidClock
  | CreateDirFailed string string
  | CreateFailed string string
  | WriteJsonFailed string string
  | ReadFailed string string
  | NotUtf8 string
  | DecodeJsonFailed string string
  | SerializeFailed string string
  | FlushFailed string string
  | StateExists string
  | ArtefactsExist string
  | NoContribution
  | InvalidSetupCircuit ZkTransferSetupError
  | Groth16Failed string

datatype setup_line =
    CeremonyInitialised
  | OutDir string
  | StateFile string
  | ContributionCount nat
  | TranscriptDigest string
  | ContributionAdded
  | Contributor string
  | ContributionIndex nat
  | SetupFinalised
  | ProvingKeyFile string
  | VerifyingKeyFile string
  | MetadataFile string
  | CeremonyKind string
  | Curve string
  | CircuitName string
  | ContributionLine nat string u64 string

record ('pk, 'vk) setup_env = env +
  state_writer :: "CeremonyState writer"
  state_parser :: "bytes \<Rightarrow> (CeremonyState, string) result"
  metadata_writer :: "SetupMetadata writer"
  generate_parameters :: "bytes \<Rightarrow> ZkTransferCircuit \<Rightarrow> ('pk, string) result"
  pk_vk :: "'pk \<Rightarrow> 'vk"
  pk_writer :: "'pk writer"
  vk_writer :: "'vk writer"

section \<open>Helpers\<close>

definition now_unix :: "u64 option \<Rightarrow> (u64, setup_error) result" where
  "now_unix clock = ok_or InvalidClock clock"

text \<open>\<open>write!(output, "{byte:02x}")\<close> for every byte.\<close>

definition setup_hex_encode :: "bytes \<Rightarrow> string" where
  "setup_hex_encode bs = concat (map (\<lambda>b. [HEX ! (unat b div 16), HEX ! (unat b mod 16)]) bs)"

definition digest_bytes :: "'z env_scheme \<Rightarrow> bytes list \<Rightarrow> bytes" where
  "digest_bytes E parts = sha256_digest E (concat parts)"

definition state_path :: "string \<Rightarrow> string" where
  "state_path out_dir = path_join out_dir STATE_FILE_NAME"

definition metadata_path :: "string \<Rightarrow> string" where
  "metadata_path out_dir = path_join out_dir METADATA_FILE_NAME"

definition proving_key_path :: "string \<Rightarrow> string" where
  "proving_key_path out_dir = path_join out_dir PROVING_KEY_FILE_NAME"

definition verifying_key_path :: "string \<Rightarrow> string" where
  "verifying_key_path out_dir = path_join out_dir VERIFYING_KEY_FILE_NAME"

definition empty_transcript_digest :: "'z env_scheme \<Rightarrow> bytes" where
  "empty_transcript_digest E = digest_bytes E [bytes_of ''prims-zk-setup-empty-transcript'']"

definition write_json_pretty :: "'f file_ops \<Rightarrow> string \<Rightarrow> 'a writer \<Rightarrow> 'a \<Rightarrow> ('f, unit, setup_error) io" where
  "write_json_pretty F path W v =
     io_bind (io_context (CreateFailed path) (create_file F path)) (\<lambda>_.
       io_context (WriteJsonFailed path) (write_and_drop F path (W v)))"

definition read_state :: "('pk, 'vk, 'z) setup_env_scheme \<Rightarrow> 'f file_ops \<Rightarrow> string \<Rightarrow> 'f \<Rightarrow> (CeremonyState, setup_error) result" where
  "read_state E F out_dir s =
     (let path = state_path out_dir in
      and_then (map_err (ReadFailed path) (read_file F path s)) (\<lambda>content.
        if \<not> utf8_valid content then Inl (NotUtf8 path)
        else map_err (DecodeJsonFailed path) (state_parser E content)))"

definition ensure_out_dir :: "'f file_ops \<Rightarrow> string \<Rightarrow> ('f, unit, setup_error) io" where
  "ensure_out_dir F out_dir = io_context (CreateDirFailed out_dir) (create_dir_all F out_dir)"

text \<open>\<open>usize::to_le_bytes\<close> on a 64-bit target.\<close>

definition usize_bytes :: "nat \<Rightarrow> bytes" where
  "usize_bytes n = to_le_bytes 8 (of_nat n :: u64)"

section \<open>The transcript\<close>

definition build_initial_state :: "'z env_scheme \<Rightarrow> u64 option \<Rightarrow> bytes \<Rightarrow> string \<Rightarrow> (CeremonyState, setup_error) result" where
  "build_initial_state E clock organizer_entropy organizer =
     and_then (now_unix clock) (\<lambda>now.
       let entropy_digest = digest_bytes E
             [bytes_of ''prims-zk-setup-initial-entropy'', bytes_of organizer, organizer_entropy];
           transcript_digest = digest_bytes E
             [bytes_of ''prims-zk-setup-transcript'', empty_transcript_digest E, entropy_digest, bytes_of organizer, usize_bytes 0]
       in Inr \<lparr>cs_version = 1, cs_ceremony_kind = ''simplified-participatory-trusted-setup'', cs_curve = ''BLS12-381'',
               cs_circuit = ''ZkTransferCircuit(1 input, 2 outputs, reference shape)'',
               cs_contributions = [\<lparr>cc_index = 0, cc_contributor = organizer, cc_contributed_at_unix = now,
                  cc_entropy_digest_hex = setup_hex_encode entropy_digest,
                  cc_transcript_digest_hex = setup_hex_encode transcript_digest\<rparr>],
               cs_last_transcript_digest_hex = setup_hex_encode transcript_digest,
               cs_created_at_unix = now, cs_updated_at_unix = now\<rparr>)"

definition append_contribution :: "'z env_scheme \<Rightarrow> u64 option \<Rightarrow> bytes \<Rightarrow> CeremonyState \<Rightarrow> string \<Rightarrow> (CeremonyState, setup_error) result" where
  "append_contribution E clock fresh_entropy state contributor =
     and_then (now_unix clock) (\<lambda>now.
       let index = length (cs_contributions state);
           previous_digest_hex = (if cs_contributions state = [] then setup_hex_encode (empty_transcript_digest E)
             else cs_last_transcript_digest_hex state);
           entropy_digest = digest_bytes E
             [bytes_of ''prims-zk-setup-contribution'', bytes_of contributor, fresh_entropy, bytes_of previous_digest_hex];
           transcript_digest = digest_bytes E
             [bytes_of ''prims-zk-setup-transcript'', bytes_of previous_digest_hex, entropy_digest, bytes_of contributor, usize_bytes index]
       in Inr (state\<lparr>cs_contributions := cs_contributions state @ [\<lparr>cc_index = index, cc_contributor = contributor,
                  cc_contributed_at_unix = now, cc_entropy_digest_hex = setup_hex_encode entropy_digest,
                  cc_transcript_digest_hex = setup_hex_encode transcript_digest\<rparr>],
               cs_last_transcript_digest_hex := setup_hex_encode transcript_digest,
               cs_updated_at_unix := now\<rparr>))"

definition derive_final_seed :: "'z env_scheme \<Rightarrow> CeremonyState \<Rightarrow> bytes" where
  "derive_final_seed E state = digest_bytes E
     [bytes_of ''prims-zk-setup-final-seed'', bytes_of (cs_last_transcript_digest_hex state),
      usize_bytes (length (cs_contributions state))]"

section \<open>Commands\<close>

definition write_key_file :: "'f file_ops \<Rightarrow> string \<Rightarrow> 'a writer \<Rightarrow> 'a \<Rightarrow> ('f, unit, setup_error) io" where
  "write_key_file F path W v =
     io_bind (io_context (CreateFailed path) (create_file F path)) (\<lambda>_.
       io_context (case_sum (SerializeFailed path) (FlushFailed path)) (write_and_flush F path (W v)))"

definition cmd_init :: "('pk, 'vk, 'z) setup_env_scheme \<Rightarrow> 'f file_ops \<Rightarrow> u64 option \<Rightarrow> bytes \<Rightarrow> string \<Rightarrow> string \<Rightarrow> bool
    \<Rightarrow> ('f, setup_line list, setup_error) io" where
  "cmd_init E F clock entropy out_dir organizer force =
     io_bind (ensure_out_dir F out_dir) (\<lambda>_.
     io_bind (io_reads (\<lambda>s. if file_exists F (state_path out_dir) s \<and> \<not> force
         then Inl (StateExists (state_path out_dir)) else Inr ())) (\<lambda>_.
     io_bind (io_lift (build_initial_state E clock entropy organizer)) (\<lambda>state.
     io_bind (write_json_pretty F (state_path out_dir) (state_writer E) state) (\<lambda>_.
     io_lift (Inr [CeremonyInitialised, OutDir out_dir, StateFile (state_path out_dir),
       ContributionCount (length (cs_contributions state)), TranscriptDigest (cs_last_transcript_digest_hex state)])))))"

definition cmd_contribute :: "('pk, 'vk, 'z) setup_env_scheme \<Rightarrow> 'f file_ops \<Rightarrow> u64 option \<Rightarrow> bytes \<Rightarrow> string \<Rightarrow> string
    \<Rightarrow> ('f, setup_line list, setup_error) io" where
  "cmd_contribute E F clock entropy out_dir contributor =
     io_bind (ensure_out_dir F out_dir) (\<lambda>_.
     io_bind (io_reads (read_state E F out_dir)) (\<lambda>state.
     io_bind (io_lift (append_contribution E clock entropy state contributor)) (\<lambda>updated_state.
     io_bind (write_json_pretty F (state_path out_dir) (state_writer E) updated_state) (\<lambda>_.
     io_lift (case cs_contributions updated_state of
         [] \<Rightarrow> Inl NoContribution
       | cs \<Rightarrow> Inr [ContributionAdded, Contributor (cc_contributor (last cs)), ContributionIndex (cc_index (last cs)),
           TranscriptDigest (cc_transcript_digest_hex (last cs)), StateFile (state_path out_dir)])))))"

text \<open>The notes of the metadata; accented letters are written as their UTF-8 bytes.\<close>

definition e_acute :: string where "e_acute = [CHR 0xC3, CHR 0xA9]"
definition e_grave :: string where "e_grave = [CHR 0xC3, CHR 0xA8]"
definition a_grave :: string where "a_grave = [CHR 0xC3, CHR 0xA0]"

definition metadata_notes :: "string list" where
  "metadata_notes =
     [''Setup simplifi'' @ e_acute @ '' de d'' @ e_acute @ ''monstration : '' @ a_grave @ '' remplacer plus tard par une c'' @ e_acute @ ''r'' @ e_acute @ ''monie multi-parties plus robuste.'',
      ''Les param'' @ e_grave @ ''tres produits sont li'' @ e_acute @ ''s '' @ a_grave @ '' la forme de circuit de r'' @ e_acute @ ''f'' @ e_acute @ ''rence actuelle (1 entr'' @ e_acute @ ''e, 2 sorties).'',
      ''Aucune entropie brute n'' @ [CHR 0x27] @ ''est '' @ e_acute @ ''crite sur disque ; seuls des digests SHA-256 de transcript sont conserv'' @ e_acute @ ''s.'']"

definition setup_metadata_of :: "CeremonyState \<Rightarrow> ZkTransferSetupCircuitMetadata \<Rightarrow> u64 \<Rightarrow> SetupMetadata" where
  "setup_metadata_of state circuit_metadata now =
     \<lparr>sm_version = 1, sm_ceremony_kind = cs_ceremony_kind state, sm_curve = cs_curve state, sm_proving_system = ''Groth16'',
      sm_transcript_final_digest_hex = cs_last_transcript_digest_hex state,
      sm_contribution_count = length (cs_contributions state),
      sm_contributor_names = map cc_contributor (cs_contributions state),
      sm_proving_key_file = PROVING_KEY_FILE_NAME, sm_verifying_key_file = VERIFYING_KEY_FILE_NAME,
      sm_circuit_metadata = circuit_metadata, sm_generated_at_unix = now, sm_notes = metadata_notes\<rparr>"

definition cmd_finalize :: "('pk, 'vk, 'z) setup_env_scheme \<Rightarrow> 'f file_ops \<Rightarrow> u64 option \<Rightarrow> string \<Rightarrow> bool
    \<Rightarrow> ('f, setup_line list, setup_error) io" where
  "cmd_finalize E F clock out_dir force =
     (let pk_path = proving_key_path out_dir; vk_path = verifying_key_path out_dir; meta_path = metadata_path out_dir in
      io_bind (ensure_out_dir F out_dir) (\<lambda>_.
      io_bind (io_reads (read_state E F out_dir)) (\<lambda>state.
      io_bind (io_reads (\<lambda>s. if \<not> force \<and> (file_exists F pk_path s \<or> file_exists F vk_path s \<or> file_exists F meta_path s)
          then Inl (ArtefactsExist out_dir) else Inr ())) (\<lambda>_.
      io_bind (io_lift (map_err InvalidSetupCircuit (build_reference_zk_transfer_setup_circuit E))) (\<lambda>(circuit, circuit_metadata).
      io_bind (io_lift (map_err Groth16Failed (generate_parameters E (derive_final_seed E state) circuit))) (\<lambda>proving_key.
      io_bind (write_key_file F pk_path (pk_writer E) proving_key) (\<lambda>_.
      io_bind (write_key_file F vk_path (vk_writer E) (pk_vk E proving_key)) (\<lambda>_.
      io_bind (io_lift (now_unix clock)) (\<lambda>now.
      let metadata = setup_metadata_of state circuit_metadata now in
      io_bind (write_json_pretty F meta_path (metadata_writer E) metadata) (\<lambda>_.
      io_lift (Inr [SetupFinalised, ProvingKeyFile pk_path, VerifyingKeyFile vk_path, MetadataFile meta_path,
        ContributionCount (sm_contribution_count metadata), TranscriptDigest (sm_transcript_final_digest_hex metadata)])))))))))))"

definition cmd_inspect :: "('pk, 'vk, 'z) setup_env_scheme \<Rightarrow> 'f file_ops \<Rightarrow> string \<Rightarrow> ('f, setup_line list, setup_error) io" where
  "cmd_inspect E F out_dir =
     io_bind (io_reads (read_state E F out_dir)) (\<lambda>state.
     io_lift (Inr ([CeremonyKind (cs_ceremony_kind state), Curve (cs_curve state), CircuitName (cs_circuit state),
        ContributionCount (length (cs_contributions state)), TranscriptDigest (cs_last_transcript_digest_hex state)] @
        map (\<lambda>c. ContributionLine (cc_index c) (cc_contributor c) (cc_contributed_at_unix c) (cc_transcript_digest_hex c))
          (cs_contributions state))))"

fun setup_main :: "('pk, 'vk, 'z) setup_env_scheme \<Rightarrow> 'f file_ops \<Rightarrow> u64 option \<Rightarrow> bytes \<Rightarrow> setup_command
    \<Rightarrow> ('f, setup_line list, setup_error) io" where
  "setup_main E F clock entropy (Init out_dir organizer force) = cmd_init E F clock entropy out_dir organizer force"
| "setup_main E F clock entropy (Contribute out_dir contributor) = cmd_contribute E F clock entropy out_dir contributor"
| "setup_main E F clock entropy (Finalize out_dir force) = cmd_finalize E F clock out_dir force"
| "setup_main E F clock entropy (Inspect out_dir) = cmd_inspect E F out_dir"

end
