(* ===== verification/Node.thy ===== *)
theory Node
  imports Network Mempool
begin

text \<open>
  \<open>src/src/main.rs\<close>: the event loop of the node. One step handles one swarm event; the
  printed lines are values of \<open>log_line\<close>. The clock is an argument: milliseconds since the
  epoch, or \<open>None\<close> when it is set before it, which ends the process with an error. What happens before the
  first event is in \<open>Startup\<close>.
\<close>

definition TESTNET_TOPIC :: string where
  "TESTNET_TOPIC = ''prims-testnet''"

datatype 'p swarm_event =
    NewListenAddr
  | ConnectionEstablished 'p
  | Subscribed 'p string
  | GossipMessage 'p bytes
  | OtherEvent

datatype 'p log_line =
    LogListening
  | LogConnection 'p
  | LogSubscribed 'p string
  | LogPublished string nat
  | LogPublishError string
  | LogDispatched
  | LogUndecodable string 'p string
  | LogProtocol 'p Message
  | LogLatency 'p bytes nat nat nat
  | LogRaw 'p bytes
  | LogOther

record ('w, 'p) node_state =
  ns_node :: "('w, 'p) PrimsNode"
  ns_mempool :: Mempool
  ns_message_sent :: bool

definition publish_pending :: "('k, 'w, 'p, 'a, 'i) swarm_ops \<Rightarrow> nat option \<Rightarrow> string \<Rightarrow> ('w, 'p) node_state
    \<Rightarrow> (('w, 'p) node_state \<times> 'p log_line list, string) result" where
  "publish_pending S clock message st =
     and_then (ok_or ''clock before the epoch'' clock) (\<lambda>published_at_ms.
       let payload_bytes = bytes_of (decimal published_at_ms @ ''|'' @ message);
           (w, r) = sw_publish S (swarm (ns_node st)) TESTNET_TOPIC payload_bytes;
           st' = st\<lparr>ns_node := (ns_node st)\<lparr>swarm := w\<rparr>\<rparr> in
       Inr (case r of
          Inr _ \<Rightarrow> (st'\<lparr>ns_message_sent := True\<rparr>, [LogPublished message published_at_ms])
        | Inl e \<Rightarrow> (st', [LogPublishError e])))"

text \<open>\<open>split_once\<close> at the bar; the part before it is parsed as a time stamp.\<close>

definition split_bar :: "bytes \<Rightarrow> (bytes \<times> bytes) option" where
  "split_bar bs = (if 124 \<in> set bs then Some (takeWhile (\<lambda>b. b \<noteq> 124) bs, tl (dropWhile (\<lambda>b. b \<noteq> 124) bs)) else None)"

definition handle_raw :: "nat option \<Rightarrow> 'p \<Rightarrow> bytes \<Rightarrow> ('p log_line list, string) result" where
  "handle_raw clock source data =
     (case split_bar data of
        None \<Rightarrow> Inr [LogRaw source data]
      | Some (published_at_raw, body) \<Rightarrow>
          (case parse_uint 128 published_at_raw of
             None \<Rightarrow> Inr [LogRaw source data]
           | Some published_at_ms \<Rightarrow>
               and_then (ok_or ''clock before the epoch'' clock) (\<lambda>received_at_ms.
                 Inr [LogLatency source body published_at_ms received_at_ms (received_at_ms - published_at_ms)])))"

definition handle_message :: "('k, 'z) net_env_scheme \<Rightarrow> nat option \<Rightarrow> 'p \<Rightarrow> bytes \<Rightarrow> ('w, 'p) node_state
    \<Rightarrow> (('w, 'p) node_state \<times> 'p log_line list, string) result" where
  "handle_message E clock source data st =
     (case from_bytes E data of
        Inr (NewTransaction nt) \<Rightarrow>
          (case deserialize (bc_transaction E) (nt_payload nt) of
             Inr t \<Rightarrow> Inr (st\<lparr>ns_mempool := add_transaction (ns_mempool st) t\<rparr>, [LogDispatched])
           | Inl e \<Rightarrow> Inr (st, [LogUndecodable (nt_id nt) source e]))
      | Inr m \<Rightarrow> Inr (st, [LogProtocol source m])
      | Inl _ \<Rightarrow> and_then (handle_raw clock source data) (\<lambda>ls. Inr (st, ls)))"

fun handle_event :: "('k, 'z) net_env_scheme \<Rightarrow> ('k, 'w, 'p, 'a, 'i) swarm_ops \<Rightarrow> string option \<Rightarrow> nat option
    \<Rightarrow> ('w, 'p) node_state \<Rightarrow> 'p swarm_event \<Rightarrow> (('w, 'p) node_state \<times> 'p log_line list, string) result" where
  "handle_event E S publish clock st NewListenAddr = Inr (st, [LogListening])"
| "handle_event E S publish clock st (ConnectionEstablished peer) = Inr (st, [LogConnection peer])"
| "handle_event E S publish clock st (Subscribed peer topic) =
     (if \<not> ns_message_sent st \<and> topic = TESTNET_TOPIC then
        (case publish of
           Some message \<Rightarrow>
             and_then (publish_pending S clock message st) (\<lambda>(st', ls). Inr (st', LogSubscribed peer topic # ls))
         | None \<Rightarrow> Inr (st, [LogSubscribed peer topic]))
      else Inr (st, [LogSubscribed peer topic]))"
| "handle_event E S publish clock st (GossipMessage source data) = handle_message E clock source data st"
| "handle_event E S publish clock st OtherEvent = Inr (st, [LogOther])"

text \<open>The loop over a sequence of events, each with the clock reading at its arrival.\<close>

fun event_loop :: "('k, 'z) net_env_scheme \<Rightarrow> ('k, 'w, 'p, 'a, 'i) swarm_ops \<Rightarrow> string option
    \<Rightarrow> ('w, 'p) node_state \<Rightarrow> (nat option \<times> 'p swarm_event) list \<Rightarrow> (('w, 'p) node_state \<times> 'p log_line list, string) result" where
  "event_loop E S publish st [] = Inr (st, [])"
| "event_loop E S publish st ((clock, ev) # evs) =
     and_then (handle_event E S publish clock st ev) (\<lambda>(st', ls).
     and_then (event_loop E S publish st' evs) (\<lambda>(st'', ls'). Inr (st'', ls @ ls')))"

end
