(* ===== verification/NodeLaws.thy ===== *)
theory NodeLaws
  imports Node
begin

text \<open>
  Laws of the network layer and of the event loop: the ban cycle of a misbehaving peer, its
  enforcement per peer, the hexadecimal identifiers, and the path of a transaction from one
  node to the mempool of another.
\<close>

section \<open>Penalties\<close>

text \<open>The penalty after invalid messages at the given times.\<close>

definition penalised :: "ConnectionLimits \<Rightarrow> u64 list \<Rightarrow> PeerPenalty" where
  "penalised limits ts = foldl (\<lambda>p t. fst (register_invalid_message t limits p)) PeerPenalty_default ts"

text \<open>
  The ban cycle is exact: after any number of invalid messages the counter is their number
  modulo the limit, the peer is banned exactly when the limit has been reached, and the ban runs
  from the message that last completed a cycle, saturating at the end of time.
\<close>

theorem ban_cycle:
  assumes "0 < unat (max_invalid_messages limits)"
  shows "unat (pp_invalid_messages (penalised limits ts)) = length ts mod unat (max_invalid_messages limits) \<and>
    pp_banned_until_unix (penalised limits ts) =
      (if length ts < unat (max_invalid_messages limits) then None
       else Some (saturating_add (ts ! (length ts div unat (max_invalid_messages limits) * unat (max_invalid_messages limits) - 1))
         (temporary_ban_secs limits)))"
proof (induction ts rule: rev_induct)
  case Nil
  then show ?case using assms by (simp add: penalised_def PeerPenalty_default_def)
next
  case (snoc t ts)
  let ?m = "unat (max_invalid_messages limits)" and ?p = "penalised limits ts" and ?n = "length ts"
  have step: "penalised limits (ts @ [t]) = fst (register_invalid_message t limits ?p)" by (simp add: penalised_def)
  have c: "unat (pp_invalid_messages ?p) = ?n mod ?m" using snoc by simp
  have "?n mod ?m < ?m" using assms by simp
  moreover have "?m < 2 ^ 32" using unsigned_less [of "max_invalid_messages limits"] by simp
  ultimately have c1: "unat (pp_invalid_messages ?p + 1) = ?n mod ?m + 1" using c by (simp add: unat_word_ariths)
  show ?case
  proof (cases "?m \<le> ?n mod ?m + 1")
    case True
    then have full: "?n mod ?m + 1 = ?m" using \<open>?n mod ?m < ?m\<close> by simp
    then have "Suc ?n mod ?m = 0" by (metis Suc_eq_plus1 mod_Suc)
    then have d: "Suc ?n div ?m * ?m = Suc ?n" by (metis add_0_right div_mult_mod_eq)
    then have "?m \<le> Suc ?n" by (metis \<open>Suc ?n mod ?m = 0\<close> mod_less not_le_imp_less nat.distinct(1))
    with True c1 d \<open>Suc ?n mod ?m = 0\<close> show ?thesis
      by (simp add: step register_invalid_message_def Let_def word_le_nat_alt)
  next
    case False
    then have k: "Suc ?n mod ?m = Suc (?n mod ?m)" "Suc ?n div ?m = ?n div ?m"
      by (simp_all add: mod_Suc div_Suc)
    have lt: "Suc ?n < ?m \<longleftrightarrow> ?n < ?m" using False by (cases "?n < ?m") auto
    have "?n div ?m * ?m - 1 < ?n" if "?m \<le> ?n"
      using that assms div_times_less_eq_dividend [of ?n ?m] by linarith
    with False c1 k lt snoc show ?thesis
      by (auto simp: step register_invalid_message_def Let_def word_le_nat_alt nth_append)
  qed
qed

theorem ban_cycle_witness:
  "pp_banned_until_unix (penalised ConnectionLimits_default [10, 20, 30, 40]) = Some 90 \<and>
   unat (pp_invalid_messages (penalised ConnectionLimits_default [10, 20, 30, 40])) = 1"
  using ban_cycle [of ConnectionLimits_default "[10, 20, 30, 40]"]
  by (simp add: ConnectionLimits_default_def saturating_add_def)

lemma penalty_of_upd: "penalty_of (n\<lparr>peer_penalties := (peer_penalties n)(peer \<mapsto> p)\<rparr>) q = (if q = peer then p else penalty_of n q)"
  by (simp add: penalty_of_def)

lemma accepts_iff:
  "snd (can_accept_peer peer t n) \<longleftrightarrow> \<not> is_banned (penalty_of n peer) t \<and> can_reconnect (penalty_of n peer) t (node_connection_limits n)"
  by (auto simp: can_accept_peer_def Let_def clear_expired_ban_def is_banned_def can_reconnect_def split: option.splits)

text \<open>
  Bans are enforced, end, and hit only the offender: once an invalid message completes a
  cycle the node refuses the peer at every time before the end of the ban and afterwards
  accepts it exactly as its reconnect delay allows, while its answer for every other peer is
  unchanged.
\<close>

theorem ban_enforced:
  assumes "node_register_invalid_message peer now n = (n', True)"
  shows "(snd (can_accept_peer peer t n') \<longleftrightarrow>
      saturating_add now (temporary_ban_secs (node_connection_limits n)) \<le> t \<and>
      can_reconnect (penalty_of n peer) t (node_connection_limits n)) \<and>
    (\<forall>q. q = peer \<or> snd (can_accept_peer q t n') = snd (can_accept_peer q t n))"
proof -
  let ?p = "(penalty_of n peer)\<lparr>pp_invalid_messages := 0,
      pp_banned_until_unix := Some (saturating_add now (temporary_ban_secs (node_connection_limits n)))\<rparr>"
  have n': "n' = n\<lparr>peer_penalties := (peer_penalties n)(peer \<mapsto> ?p)\<rparr>"
    using assms by (auto simp: node_register_invalid_message_def register_invalid_message_def Let_def split: if_splits)
  have "penalty_of n' q = (if q = peer then ?p else penalty_of n q)" for q
    unfolding n' by (rule penalty_of_upd)
  then show ?thesis
    by (auto simp: accepts_iff n' is_banned_def can_reconnect_def not_less)
qed

definition sample_node :: "(unit, nat) PrimsNode" where
  "sample_node = \<lparr>local_peer_id = 0, swarm = (), config = NetworkConfig_default (\<lambda>_. None),
     node_connection_limits = ConnectionLimits_default\<lparr>max_invalid_messages := 1\<rparr>, peer_penalties = Map.empty\<rparr>"

theorem ban_enforced_witness:
  "\<exists>n'. node_register_invalid_message 7 100 sample_node = (n', True) \<and>
     \<not> snd (can_accept_peer 7 159 n') \<and> snd (can_accept_peer 7 160 n') \<and> snd (can_accept_peer 8 159 n')"
proof -
  obtain n' where n': "node_register_invalid_message 7 100 sample_node = (n', True)"
    by (simp add: node_register_invalid_message_def register_invalid_message_def sample_node_def penalty_of_def
      PeerPenalty_default_def ConnectionLimits_default_def)
  have fresh: "penalty_of sample_node q = PeerPenalty_default" for q by (simp add: penalty_of_def sample_node_def)
  then have accept: "snd (can_accept_peer q t sample_node)" for q t
    by (simp add: accepts_iff is_banned_def can_reconnect_def PeerPenalty_default_def)
  have until: "saturating_add 100 (temporary_ban_secs (node_connection_limits sample_node)) = 160"
    by (simp add: sample_node_def ConnectionLimits_default_def saturating_add_def)
  have "snd (can_accept_peer 8 159 n')" using ban_enforced [OF n', of 159, THEN conjunct2, rule_format, of 8] accept by simp
  moreover have "\<not> snd (can_accept_peer 7 159 n')" using ban_enforced [OF n', of 159, THEN conjunct1] until by simp
  moreover have "snd (can_accept_peer 7 160 n')"
    using ban_enforced [OF n', of 160, THEN conjunct1] until fresh by (simp add: can_reconnect_def PeerPenalty_default_def)
  ultimately show ?thesis using n' by blast
qed

section \<open>Hexadecimal identifiers\<close>

lemma HEX_inj: "i < 16 \<Longrightarrow> j < 16 \<Longrightarrow> HEX ! i = HEX ! j \<longleftrightarrow> i = j"
proof -
  have "distinct HEX" "length HEX = 16" by (simp_all add: HEX_def)
  then show "i < 16 \<Longrightarrow> j < 16 \<Longrightarrow> HEX ! i = HEX ! j \<longleftrightarrow> i = j" by (simp add: nth_eq_iff_index_eq)
qed

lemma byte_nibbles: "unat (drop_bit 4 b) = unat b div 16" "unat (b AND 0x0f) = unat b mod 16" for b :: u8
proof -
  show "unat (drop_bit 4 b) = unat b div 16" by (simp add: drop_bit_eq_div unat_div_distrib)
  have "(0x0f :: u8) = mask 4" by (simp add: mask_eq_exp_minus_1)
  then have "b AND 0x0f = take_bit 4 b" by (simp add: take_bit_eq_mask)
  then show "unat (b AND 0x0f) = unat b mod 16" by (simp add: take_bit_eq_mod unat_mod_distrib)
qed

text \<open>
  Network identifiers are faithful: \<open>bytes_to_hex\<close> writes two characters per byte and
  different byte strings never share an identifier.
\<close>

theorem bytes_to_hex_inj:
  "(bytes_to_hex xs = bytes_to_hex ys \<longleftrightarrow> xs = ys) \<and> length (bytes_to_hex xs) = 2 * length xs"
proof
  show "length (bytes_to_hex xs) = 2 * length xs" by (induction xs) (simp_all add: bytes_to_hex_def)
  show "bytes_to_hex xs = bytes_to_hex ys \<longleftrightarrow> xs = ys"
  proof (induction xs arbitrary: ys)
    case Nil
    then show ?case by (cases ys) (simp_all add: bytes_to_hex_def)
  next
    case (Cons x xs)
    have "unat b < 256" for b :: u8 using unsigned_less [of b] by simp
    then have nib: "unat b div 16 < 16" "unat b mod 16 < 16" for b :: u8
      by (simp_all add: div_less_iff_less_mult)
    show ?case
    proof (cases ys)
      case Nil
      then show ?thesis by (simp add: bytes_to_hex_def)
    next
      case (Cons y ys')
      have "unat x div 16 = unat y div 16 \<and> unat x mod 16 = unat y mod 16 \<longleftrightarrow> x = y"
        by (metis div_mult_mod_eq unat_inj)
      with Cons.IH [of ys'] Cons nib show ?thesis
        by (auto simp: bytes_to_hex_def byte_nibbles HEX_inj)
    qed
  qed
qed

section \<open>The event loop\<close>

text \<open>The transactions that a gossip message brings.\<close>

fun gossiped :: "('k, 'z) net_env_scheme \<Rightarrow> 'p swarm_event \<Rightarrow> Transaction list" where
  "gossiped E (GossipMessage source data) =
     (case from_bytes E data of
        Inr (NewTransaction nt) \<Rightarrow> (case deserialize (bc_transaction E) (nt_payload nt) of Inr t \<Rightarrow> [t] | Inl _ \<Rightarrow> [])
      | _ \<Rightarrow> [])"
| "gossiped E _ = []"

fun is_published :: "'p log_line \<Rightarrow> bool" where
  "is_published (LogPublished m t) = True"
| "is_published _ = False"

lemma handle_raw_unpublished: "handle_raw clock source data = Inr ls \<Longrightarrow> filter is_published ls = []"
  by (auto simp: handle_raw_def result_simps split: option.splits prod.splits)

lemma handle_message_effect:
  assumes "handle_message E clock source data st = Inr (st', ls)"
  shows "ns_mempool st' = foldl add_transaction (ns_mempool st) (gossiped E (GossipMessage source data)) \<and>
    ns_message_sent st' = ns_message_sent st \<and> filter is_published ls = []"
  using assms handle_raw_unpublished
  by (auto simp: handle_message_def result_simps split: sum.splits Message.splits)

lemma publish_pending_effect:
  assumes "publish_pending S clock m st = Inr (st', ls)" and "\<not> ns_message_sent st"
  shows "ns_mempool st' = ns_mempool st \<and> length (filter is_published ls) = (if ns_message_sent st' then 1 else 0)"
proof -
  obtain ms where ms: "clock = Some ms" using assms(1) by (cases clock) (simp_all add: publish_pending_def)
  obtain w r where w: "sw_publish S (swarm (ns_node st)) TESTNET_TOPIC (bytes_of (decimal ms @ ''|'' @ m)) = (w, r)"
    by (cases "sw_publish S (swarm (ns_node st)) TESTNET_TOPIC (bytes_of (decimal ms @ ''|'' @ m))")
  with assms ms show ?thesis by (cases r) (auto simp: publish_pending_def)
qed

lemma handle_event_effect:
  assumes "handle_event E S publish clock st ev = Inr (st', ls)"
  shows "ns_mempool st' = foldl add_transaction (ns_mempool st) (gossiped E ev) \<and>
    length (filter is_published ls) = (if ns_message_sent st' \<and> \<not> ns_message_sent st then 1 else 0) \<and>
    (ns_message_sent st \<longrightarrow> ns_message_sent st')"
proof (cases ev)
  case (Subscribed peer topic)
  show ?thesis
  proof (cases "\<not> ns_message_sent st \<and> topic = TESTNET_TOPIC \<and> publish \<noteq> None")
    case True
    then obtain m where m: "publish = Some m" by auto
    obtain ls' where "publish_pending S clock m st = Inr (st', ls')" "ls = LogSubscribed peer topic # ls'"
      using assms Subscribed True m by (auto simp: result_simps)
    with publish_pending_effect [of S clock m st st' ls'] Subscribed True show ?thesis by auto
  next
    case False
    with assms Subscribed have "st' = st \<and> ls = [LogSubscribed peer topic]" by (cases publish) (auto split: if_splits)
    with Subscribed show ?thesis by simp
  qed
next
  case (GossipMessage source data)
  with assms handle_message_effect [of E clock source data st st' ls] show ?thesis by simp
qed (use assms in auto)

text \<open>
  Running the event loop over any sequence of events changes the mempool exactly by adding,
  in order, the transactions that gossip messages carried, and publishes the operator's message
  at most once.
\<close>

theorem event_loop_effect:
  assumes "event_loop E S publish st evs = Inr (st', ls)"
  shows "ns_mempool st' = foldl add_transaction (ns_mempool st) (concat (map (gossiped E \<circ> snd) evs)) \<and>
    length (filter is_published ls) = (if ns_message_sent st' \<and> \<not> ns_message_sent st then 1 else 0)"
proof -
  have "ns_mempool st' = foldl add_transaction (ns_mempool st) (concat (map (gossiped E \<circ> snd) evs)) \<and>
    length (filter is_published ls) = (if ns_message_sent st' \<and> \<not> ns_message_sent st then 1 else 0) \<and>
    (ns_message_sent st \<longrightarrow> ns_message_sent st')"
    using assms
  proof (induction evs arbitrary: st ls)
    case (Cons e evs)
    obtain clock ev where e: "e = (clock, ev)" by (cases e)
    obtain x where x: "handle_event E S publish clock st ev = Inr x"
      using Cons.prems e by (cases "handle_event E S publish clock st ev") auto
    obtain st1 ls1 where 1: "handle_event E S publish clock st ev = Inr (st1, ls1)" using x by (cases x) auto
    obtain y where y: "event_loop E S publish st1 evs = Inr y"
      using Cons.prems e 1 by (cases "event_loop E S publish st1 evs") auto
    obtain ls2 where 2: "event_loop E S publish st1 evs = Inr (st', ls2)" and ls: "ls = ls1 @ ls2"
      using Cons.prems e 1 y by (cases y) auto
    have m: "ns_mempool st' = foldl add_transaction (ns_mempool st) (concat (map (gossiped E \<circ> snd) (e # evs)))"
      using handle_event_effect [OF 1, THEN conjunct1] Cons.IH [OF 2, THEN conjunct1] by (simp add: e comp_def)
    have "length (filter is_published ls) = (if ns_message_sent st' \<and> \<not> ns_message_sent st then 1 else 0) \<and>
        (ns_message_sent st \<longrightarrow> ns_message_sent st')"
      using handle_event_effect [OF 1, THEN conjunct2] Cons.IH [OF 2, THEN conjunct2]
      by (cases "ns_message_sent st"; cases "ns_message_sent st1") (simp_all add: ls)
    with m show ?case by blast
  qed simp
  then show ?thesis by simp
qed

text \<open>
  C37. A published transaction arrives: the bytes that \<open>publish_transaction\<close> hands to the
  swarm, received by any node as a gossip message, put exactly that transaction into its
  mempool. Nothing but decoding is asked of it on the way: no signature, nonce or balance is
  checked.
\<close>

theorem gossip_delivers:
  assumes "roundtrips (bc_transaction E) t"
    and "\<forall>nt. blockchain_transaction_to_network_transaction E t = Inr nt \<longrightarrow> roundtrips (bc_message E) (NewTransaction nt)"
  shows "\<exists>bs. publish_transaction E S t n =
      Inr (let (w, r) = sw_publish S (swarm n) TRANSACTIONS_TOPIC_NAME bs in (n\<lparr>swarm := w\<rparr>, r)) \<and>
    (\<forall>publish clock st source. handle_event E S publish clock st (GossipMessage source bs) =
      Inr (st\<lparr>ns_mempool := add_transaction (ns_mempool st) t\<rparr>, [LogDispatched]))"
proof -
  obtain b where b: "serialize (bc_transaction E) t = Inr b" "deserialize (bc_transaction E) b = Inr t"
    using assms(1) by (elim roundtripsE)
  obtain nt where nt: "blockchain_transaction_to_network_transaction E t = Inr nt" "nt_payload nt = b"
    using b(1) by (simp add: blockchain_transaction_to_network_transaction_def hash_transaction_def)
  obtain bs where bs: "serialize (bc_message E) (NewTransaction nt) = Inr bs" "deserialize (bc_message E) bs = Inr (NewTransaction nt)"
    using assms(2) [rule_format, OF nt(1)] by (elim roundtripsE)
  show ?thesis
    using nt bs b(2)
    by (intro exI [of _ bs]) (simp add: publish_transaction_def publish_message_def to_bytes_def from_bytes_def handle_message_def)
qed

section \<open>A sample network\<close>

definition message_codec :: "Message \<Rightarrow> Message codec" where
  "message_codec m = \<lparr>serialize = (\<lambda>_. Inr [1]), deserialize = (\<lambda>bs. if bs = [1] then Inr m else Inl ''unknown'')\<rparr>"

definition sample_net_env :: "unit net_env" where
  "sample_net_env = env.extend sample_env (net_env.fields
     (message_codec (NewTransaction (projr (blockchain_transaction_to_network_transaction sample_env (sample_tx 5)))))
     (\<lambda>_. Inl []) (\<lambda>_ _. Inl []) (\<lambda>_. Inr ()) ())"

definition sample_swarm :: "(unit, unit, nat, unit, unit) swarm_ops" where
  "sample_swarm = \<lparr>sw_build = (\<lambda>_. Inr ()), sw_parse_address = (\<lambda>_. Inr ()), sw_listen_on = (\<lambda>_ _. Inr ()),
     sw_add_external_address = (\<lambda>_ _. ()), sw_dial = (\<lambda>_ _. Inr ()), sw_local_peer_id = (\<lambda>_. 0),
     sw_publish = (\<lambda>_ _ _. ((), Inr ()))\<rparr>"

lemma sample_net_sends:
  "blockchain_transaction_to_network_transaction sample_net_env t = blockchain_transaction_to_network_transaction sample_env t"
  by (simp add: blockchain_transaction_to_network_transaction_def hash_transaction_def sha256_def sample_net_env_def env.defs net_env.defs)

lemma sample_net_roundtrips:
  "roundtrips (bc_transaction sample_net_env) (sample_tx 5)"
  "\<forall>nt. blockchain_transaction_to_network_transaction sample_net_env (sample_tx 5) = Inr nt \<longrightarrow>
     roundtrips (bc_message sample_net_env) (NewTransaction nt)"
proof -
  show "roundtrips (bc_transaction sample_net_env) (sample_tx 5)"
    by (simp add: roundtrips_def sample_net_env_def env.defs net_env.defs sample_env_def field_codec_def sample_tx_def from_be_to_be)
  show "\<forall>nt. blockchain_transaction_to_network_transaction sample_net_env (sample_tx 5) = Inr nt \<longrightarrow>
     roundtrips (bc_message sample_net_env) (NewTransaction nt)"
    unfolding sample_net_sends
    by (auto simp: roundtrips_def sample_net_env_def env.defs net_env.defs message_codec_def)
qed

definition sample_loop_state :: "(unit, nat) node_state" where
  "sample_loop_state = \<lparr>ns_node = sample_node, ns_mempool = with_partition_count 1, ns_message_sent = False\<rparr>"

theorem gossip_delivers_witness:
  "\<exists>bs. handle_event sample_net_env sample_swarm None None sample_loop_state (GossipMessage 3 bs) =
     Inr (sample_loop_state\<lparr>ns_mempool := add_transaction (ns_mempool sample_loop_state) (sample_tx 5)\<rparr>, [LogDispatched])"
  using gossip_delivers [OF sample_net_roundtrips, of sample_swarm sample_node] by blast

theorem event_loop_effect_witness:
  "\<exists>st' ls. event_loop sample_net_env sample_swarm (Some ''hi'') sample_loop_state
      [(Some 5, Subscribed 3 TESTNET_TOPIC), (Some 6, Subscribed 4 TESTNET_TOPIC)] = Inr (st', ls) \<and>
     length (filter is_published ls) = 1 \<and> ns_mempool st' = ns_mempool sample_loop_state"
proof -
  obtain st' ls where l: "event_loop sample_net_env sample_swarm (Some ''hi'') sample_loop_state
      [(Some 5, Subscribed 3 TESTNET_TOPIC), (Some 6, Subscribed 4 TESTNET_TOPIC)] = Inr (st', ls)" "ns_message_sent st'"
    by (simp add: publish_pending_def sample_swarm_def sample_loop_state_def)
  from event_loop_effect [OF l(1)] l show ?thesis by (auto simp: sample_loop_state_def)
qed

end
