(* ===== verification/SetupLaws.thy ===== *)
theory SetupLaws
  imports Setup NodeLaws "HOL-Library.Countable"
begin

text \<open>
  What the parameter ceremony guarantees: the state file always holds a transcript in which
  every contribution extends the one before, the final digest commits to all contributors and
  their entropy digests, files are replaced only with \<open>--force\<close>, and the keys are those the
  published metadata determines. It also shows where it falls short: the seed of the parameter
  generation is public, and a failed write of the state file goes unnoticed.
\<close>

section \<open>The transcript as a function of the contributions\<close>

text \<open>
  A ceremony is a list of contributors with their entropy digests. Its transcript hashes the
  previous digest with the entropy digest, the name and the index.
\<close>

definition transcript_input :: "bytes \<Rightarrow> nat \<Rightarrow> string \<times> bytes \<Rightarrow> bytes" where
  "transcript_input prev i e =
     concat [bytes_of ''prims-zk-setup-transcript'', prev, snd e, bytes_of (fst e), usize_bytes i]"

definition transcript_step :: "'z env_scheme \<Rightarrow> bytes \<Rightarrow> nat \<Rightarrow> string \<times> bytes \<Rightarrow> string" where
  "transcript_step E prev i e = setup_hex_encode (sha256_digest E (transcript_input prev i e))"

fun transcript_from :: "'z env_scheme \<Rightarrow> bytes \<Rightarrow> nat \<Rightarrow> (string \<times> bytes) list \<Rightarrow> string list" where
  "transcript_from E prev i [] = []"
| "transcript_from E prev i (e # es) =
     (let d = transcript_step E prev i e in d # transcript_from E (bytes_of d) (Suc i) es)"

definition transcript :: "'z env_scheme \<Rightarrow> (string \<times> bytes) list \<Rightarrow> string list" where
  "transcript E es = transcript_from E (empty_transcript_digest E) 0 es"

definition ceremony_ok :: "'z env_scheme \<Rightarrow> (string \<times> bytes) list \<Rightarrow> CeremonyState \<Rightarrow> bool" where
  "ceremony_ok E es st \<longleftrightarrow> es \<noteq> [] \<and> (\<forall>e \<in> set es. length (snd e) = 32) \<and>
     map cc_index (cs_contributions st) = [0..<length es] \<and>
     map cc_contributor (cs_contributions st) = map fst es \<and>
     map cc_entropy_digest_hex (cs_contributions st) = map (setup_hex_encode \<circ> snd) es \<and>
     map cc_transcript_digest_hex (cs_contributions st) = transcript E es \<and>
     cs_last_transcript_digest_hex st = last (transcript E es)"

lemma length_transcript_from [simp]: "length (transcript_from E prev i es) = length es"
  by (induction es arbitrary: prev i) (simp_all add: Let_def)

lemma transcript_from_snoc:
  "es \<noteq> [] \<Longrightarrow> transcript_from E prev i (es @ [e]) =
     transcript_from E prev i es @ [transcript_step E (bytes_of (last (transcript_from E prev i es))) (i + length es) e]"
proof (induction es arbitrary: prev i)
  case (Cons a es)
  show ?case
  proof (cases "es = []")
    case False
    then have "transcript_from E p j es \<noteq> []" for p j by (metis length_0_conv length_transcript_from)
    with Cons.IH [OF False] show ?thesis by (simp add: Let_def)
  qed (simp add: Let_def)
qed simp

lemma transcript_snoc:
  "es \<noteq> [] \<Longrightarrow> transcript E (es @ [e]) =
     transcript E es @ [transcript_step E (bytes_of (last (transcript E es))) (length es) e]"
  using transcript_from_snoc [of es E "empty_transcript_digest E" 0 e] by (simp add: transcript_def)

lemma ceremony_ok_length: "ceremony_ok E es st \<Longrightarrow> length (cs_contributions st) = length es"
  unfolding ceremony_ok_def by (elim conjE) (metis length_map)

definition initial_entropy :: "'z env_scheme \<Rightarrow> string \<Rightarrow> bytes \<Rightarrow> bytes" where
  "initial_entropy E name entropy = digest_bytes E [bytes_of ''prims-zk-setup-initial-entropy'', bytes_of name, entropy]"

definition added_entropy :: "'z env_scheme \<Rightarrow> CeremonyState \<Rightarrow> string \<Rightarrow> bytes \<Rightarrow> bytes" where
  "added_entropy E st name entropy = digest_bytes E
     [bytes_of ''prims-zk-setup-contribution'', bytes_of name, entropy, bytes_of (cs_last_transcript_digest_hex st)]"

lemma build_initial_state_ok:
  assumes "sha256_spec E"
  shows "\<exists>st. build_initial_state E (Some now) entropy name = Inr st \<and> ceremony_ok E [(name, initial_entropy E name entropy)] st"
  using assms
  by (simp add: build_initial_state_def now_unix_def Let_def ceremony_ok_def transcript_def transcript_step_def
    transcript_input_def digest_bytes_def initial_entropy_def sha256_spec_def)

lemma append_contribution_ok:
  assumes "sha256_spec E" and "ceremony_ok E es st"
  shows "\<exists>st'. append_contribution E (Some now) entropy st name = Inr st' \<and>
    ceremony_ok E (es @ [(name, added_entropy E st name entropy)]) st'"
proof -
  have "cs_contributions st \<noteq> []" using ceremony_ok_length [OF assms(2)] assms(2) by (auto simp: ceremony_ok_def)
  with assms ceremony_ok_length [OF assms(2)] show ?thesis
    by (simp add: append_contribution_def now_unix_def Let_def ceremony_ok_def transcript_snoc transcript_step_def
      transcript_input_def digest_bytes_def added_entropy_def sha256_spec_def)
qed

section \<open>The commands on a working disk\<close>

definition json_spec :: "('pk, 'vk, 'z) setup_env_scheme \<Rightarrow> bool" where
  "json_spec E \<longleftrightarrow> (\<forall>st. snd (state_writer E st) = Inr () \<and> utf8_valid (concat (fst (state_writer E st))) \<and>
     state_parser E (concat (fst (state_writer E st))) = Inr st)"

definition state_text :: "('pk, 'vk, 'z) setup_env_scheme \<Rightarrow> CeremonyState \<Rightarrow> bytes" where
  "state_text E st = concat (fst (state_writer E st))"

lemma ensure_out_dir_ok:
  assumes "disk_spec F view"
  obtains s' where "ensure_out_dir F d s = (s', Inr ())" and "view s' = view s"
proof -
  obtain s' where "create_dir_all F d s = (s', Inr ())" "view s' = view s" using assms unfolding disk_spec_def by blast
  with that show ?thesis by (simp add: ensure_out_dir_def io_context_def)
qed

lemma create_file_ok:
  assumes "disk_spec F view"
  obtains s' where "create_file F p s = (s', Inr ())" and "view s' = (view s)(p \<mapsto> [])"
  using assms unfolding disk_spec_def by blast

lemma write_json_pretty_ok:
  assumes "disk_spec F view" and "snd (W v) = Inr ()"
  obtains s' where "write_json_pretty F p W v s = (s', Inr ())" and "view s' = (view s)(p \<mapsto> concat (fst (W v)))"
proof -
  obtain s1 where s1: "create_file F p s = (s1, Inr ())" "view s1 = (view s)(p \<mapsto> [])"
    using create_file_ok [OF assms(1)] .
  have e: "view s1 p = Some []" using s1(2) by simp
  obtain s2 where "write_and_drop F p (W v) s1 = (s2, Inr ())" "view s2 = (view s1)(p \<mapsto> [] @ concat (fst (W v)))"
    by (rule write_and_drop_ok [OF assms(1) e assms(2)])
  with s1 that show ?thesis by (simp add: write_json_pretty_def io_bind_def io_context_def)
qed

lemma write_key_file_ok:
  assumes "disk_spec F view" and "snd (W v) = Inr ()"
  obtains s' where "write_key_file F p W v s = (s', Inr ())" and "view s' = (view s)(p \<mapsto> concat (fst (W v)))"
proof -
  obtain s1 where s1: "create_file F p s = (s1, Inr ())" "view s1 = (view s)(p \<mapsto> [])"
    using create_file_ok [OF assms(1)] .
  have e: "view s1 p = Some []" using s1(2) by simp
  obtain s2 where "write_and_flush F p (W v) s1 = (s2, Inr ())" "view s2 = (view s1)(p \<mapsto> [] @ concat (fst (W v)))"
    by (rule write_and_flush_ok [OF assms(1) e assms(2)])
  with s1 that show ?thesis by (simp add: write_key_file_def io_bind_def io_context_def)
qed

lemma read_state_ok:
  assumes "disk_spec F view" and "json_spec E" and "view s (state_path d) = Some (state_text E st)"
  shows "read_state E F d s = Inr st"
proof -
  have "read_file F (state_path d) s = Inr (state_text E st)" using assms(1,3) unfolding disk_spec_def by blast
  with assms(2) show ?thesis by (simp add: read_state_def Let_def json_spec_def state_text_def)
qed

lemma cmd_init_ok:
  assumes "disk_spec F view" and "json_spec E" and "sha256_spec E" and "force \<or> view s (state_path d) = None"
  shows "\<exists>s' lines st. cmd_init E F (Some now) entropy d name force s = (s', Inr lines) \<and>
    ceremony_ok E [(name, initial_entropy E name entropy)] st \<and> view s' = (view s)(state_path d \<mapsto> state_text E st)"
proof -
  obtain st where st: "build_initial_state E (Some now) entropy name = Inr st"
      "ceremony_ok E [(name, initial_entropy E name entropy)] st"
    using build_initial_state_ok [OF assms(3)] by blast
  obtain s1 where s1: "ensure_out_dir F d s = (s1, Inr ())" "view s1 = view s" using ensure_out_dir_ok [OF assms(1)] .
  have w: "snd (state_writer E st) = Inr ()" using assms(2) by (simp add: json_spec_def)
  obtain s2 where s2: "write_json_pretty F (state_path d) (state_writer E) st s1 = (s2, Inr ())"
      "view s2 = (view s1)(state_path d \<mapsto> state_text E st)"
    unfolding state_text_def by (rule write_json_pretty_ok [where W = "state_writer E", OF assms(1) w])
  have "file_exists F (state_path d) s1 \<longleftrightarrow> view s (state_path d) \<noteq> None" using assms(1) s1(2) by (simp add: disk_spec_def)
  with assms(4) st s1 s2 show ?thesis by (auto simp: cmd_init_def io_bind_Inr io_bind_reads)
qed

lemma cmd_contribute_ok:
  assumes "disk_spec F view" and "json_spec E" and "sha256_spec E"
    and "view s (state_path d) = Some (state_text E st)" and "ceremony_ok E es st"
  shows "\<exists>s' lines st'. cmd_contribute E F (Some now) entropy d name s = (s', Inr lines) \<and>
    ceremony_ok E (es @ [(name, added_entropy E st name entropy)]) st' \<and> view s' = (view s)(state_path d \<mapsto> state_text E st')"
proof -
  obtain st' where st': "append_contribution E (Some now) entropy st name = Inr st'"
      "ceremony_ok E (es @ [(name, added_entropy E st name entropy)]) st'"
    using append_contribution_ok [OF assms(3,5)] by blast
  obtain s1 where s1: "ensure_out_dir F d s = (s1, Inr ())" "view s1 = view s" using ensure_out_dir_ok [OF assms(1)] .
  have r: "read_state E F d s1 = Inr st" using read_state_ok [OF assms(1,2)] assms(4) s1(2) by simp
  have w: "snd (state_writer E st') = Inr ()" using assms(2) by (simp add: json_spec_def)
  obtain s2 where s2: "write_json_pretty F (state_path d) (state_writer E) st' s1 = (s2, Inr ())"
      "view s2 = (view s1)(state_path d \<mapsto> state_text E st')"
    unfolding state_text_def by (rule write_json_pretty_ok [where W = "state_writer E", OF assms(1) w])
  have "cs_contributions st' \<noteq> []" using ceremony_ok_length [OF st'(2)] by auto
  with r st' s1 s2 show ?thesis by (auto simp: cmd_contribute_def io_bind_Inr io_bind_reads split: list.splits)
qed

text \<open>Contributions, each with the clock, the entropy and the name of the contributor.\<close>

fun contribute_all :: "('pk, 'vk, 'z) setup_env_scheme \<Rightarrow> 'f file_ops \<Rightarrow> string \<Rightarrow> (u64 \<times> bytes \<times> string) list
    \<Rightarrow> ('f, setup_line list, setup_error) io" where
  "contribute_all E F d [] s = (s, Inr [])"
| "contribute_all E F d ((now, entropy, name) # cs) s =
     io_bind (setup_main E F (Some now) entropy (Contribute d name)) (\<lambda>_. contribute_all E F d cs) s"

lemma contribute_all_ok:
  assumes "disk_spec F view" and "json_spec E" and "sha256_spec E"
  shows "view s (state_path d) = Some (state_text E st) \<Longrightarrow> ceremony_ok E es st \<Longrightarrow>
    \<exists>s' es' st'. contribute_all E F d cs s = (s', Inr []) \<and> ceremony_ok E es' st' \<and>
      map fst es' = map fst es @ map (\<lambda>(_, _, name). name) cs \<and> take (length es) es' = es \<and>
      view s' = (view s)(state_path d \<mapsto> state_text E st')"
proof (induction cs arbitrary: s st es)
  case Nil
  then show ?case by (intro exI [of _ s] exI [of _ es] exI [of _ st]) (simp add: fun_upd_idem)
next
  case (Cons c cs)
  obtain now entropy name where c: "c = (now, entropy, name)" by (cases c)
  let ?es = "es @ [(name, added_entropy E st name entropy)]"
  obtain s1 ls st1 where 1: "cmd_contribute E F (Some now) entropy d name s = (s1, Inr ls)" "ceremony_ok E ?es st1"
      "view s1 = (view s)(state_path d \<mapsto> state_text E st1)"
    using cmd_contribute_ok [OF assms Cons.prems, of now entropy name] by (elim exE conjE)
  have "view s1 (state_path d) = Some (state_text E st1)" using 1(3) by simp
  from Cons.IH [OF this 1(2)] obtain s' es' st' where 2: "contribute_all E F d cs s1 = (s', Inr [])" "ceremony_ok E es' st'"
      "map fst es' = map fst ?es @ map (\<lambda>(_, _, name). name) cs" "take (length ?es) es' = ?es"
      "view s' = (view s1)(state_path d \<mapsto> state_text E st')"
    by (elim exE conjE)
  have "take (length es) es' = take (length es) (take (length ?es) es')" by (simp add: take_take)
  then have "take (length es) es' = es" unfolding 2(4) by simp
  with 1 2 show ?case
    by (intro exI [of _ s'] exI [of _ es'] exI [of _ st']) (simp add: c io_bind_Inr)
qed

text \<open>
  C16. The state file always holds a correct ceremony: on a working disk, \<open>init\<close> in a directory
  without a ceremony (or with \<open>--force\<close>) and any sequence of contributions after it succeed, and
  the state file then describes exactly these contributors in order, indices counted from zero,
  with each transcript digest computed from the digest before; no other file is touched.
\<close>

theorem ceremony_history:
  assumes "disk_spec F view" and "json_spec E" and "sha256_spec E" and "force \<or> view s (state_path d) = None"
  shows "\<exists>s1 s2 lines es st.
    setup_main E F (Some now) entropy (Init d organizer force) s = (s1, Inr lines) \<and>
    contribute_all E F d cs s1 = (s2, Inr []) \<and>
    read_state E F d s2 = Inr st \<and> ceremony_ok E es st \<and>
    map cc_contributor (cs_contributions st) = organizer # map (\<lambda>(_, _, name). name) cs \<and>
    (\<forall>p. p \<noteq> state_path d \<longrightarrow> view s2 p = view s p)"
proof -
  obtain s1 lines st where 1: "cmd_init E F (Some now) entropy d organizer force s = (s1, Inr lines)"
      "ceremony_ok E [(organizer, initial_entropy E organizer entropy)] st"
      "view s1 = (view s)(state_path d \<mapsto> state_text E st)"
    using cmd_init_ok [OF assms, of now entropy organizer] by (elim exE conjE)
  have "view s1 (state_path d) = Some (state_text E st)" using 1(3) by simp
  from contribute_all_ok [OF assms(1-3) this 1(2), of cs] obtain s2 es st' where 2:
      "contribute_all E F d cs s1 = (s2, Inr [])" "ceremony_ok E es st'"
      "map fst es = map fst [(organizer, initial_entropy E organizer entropy)] @ map (\<lambda>(_, _, name). name) cs"
      "view s2 = (view s1)(state_path d \<mapsto> state_text E st')"
    by (elim exE conjE)
  have "read_state E F d s2 = Inr st'" using read_state_ok [OF assms(1,2)] 2(4) by simp
  moreover have "map cc_contributor (cs_contributions st') = map fst es" using 2(2) by (simp add: ceremony_ok_def)
  ultimately show ?thesis
    using 1 2 by (intro exI [of _ s1] exI [of _ s2] exI [of _ lines] exI [of _ es] exI [of _ st']) simp
qed

section \<open>The final digest commits to the ceremony\<close>

lemma setup_hex_bytes_to_hex: "setup_hex_encode bs = bytes_to_hex bs"
  by (simp add: setup_hex_encode_def bytes_to_hex_def byte_nibbles)

lemma setup_hex_inj: "setup_hex_encode xs = setup_hex_encode ys \<longleftrightarrow> xs = ys"
  using bytes_to_hex_inj [of xs ys] by (simp add: setup_hex_bytes_to_hex)

lemma length_setup_hex: "length (setup_hex_encode xs) = 2 * length xs"
  using bytes_to_hex_inj [of xs xs] by (simp add: setup_hex_bytes_to_hex)

lemma usize_bytes_inj: "m < 2 ^ 64 \<Longrightarrow> n < 2 ^ 64 \<Longrightarrow> usize_bytes m = usize_bytes n \<longleftrightarrow> m = n"
proof -
  assume "m < 2 ^ 64" "n < 2 ^ 64"
  moreover have "usize_bytes m = usize_bytes n \<longleftrightarrow> (of_nat m :: u64) = of_nat n"
    unfolding usize_bytes_def by (rule to_le_bytes_inj) simp
  ultimately show "usize_bytes m = usize_bytes n \<longleftrightarrow> m = n"
    by (simp add: word_of_nat_eq_iff take_bit_nat_eq_self)
qed

lemma length_usize_bytes [simp]: "length (usize_bytes n) = 8"
  by (simp add: usize_bytes_def)

text \<open>Everything the transcript hashes.\<close>

fun transcript_inputs :: "'z env_scheme \<Rightarrow> bytes \<Rightarrow> nat \<Rightarrow> (string \<times> bytes) list \<Rightarrow> bytes list" where
  "transcript_inputs E prev i [] = []"
| "transcript_inputs E prev i (e # es) =
     transcript_input prev i e # transcript_inputs E (bytes_of (transcript_step E prev i e)) (Suc i) es"

lemma last_transcript_input:
  assumes "es \<noteq> []"
  shows "\<exists>prev. last (transcript_from E p i es) = transcript_step E prev (i + length es - 1) (last es) \<and>
    transcript_input prev (i + length es - 1) (last es) \<in> set (transcript_inputs E p i es) \<and>
    (if length es = 1 then prev = p else prev = bytes_of (last (transcript_from E p i (butlast es))))"
  using assms
proof (induction es arbitrary: p i)
  case (Cons e es)
  show ?case
  proof (cases "es = []")
    case False
    let ?d = "bytes_of (transcript_step E p i e)"
    obtain prev where "last (transcript_from E ?d (Suc i) es) = transcript_step E prev (Suc i + length es - 1) (last es)"
      "transcript_input prev (Suc i + length es - 1) (last es) \<in> set (transcript_inputs E ?d (Suc i) es)"
      "if length es = 1 then prev = ?d else prev = bytes_of (last (transcript_from E ?d (Suc i) (butlast es)))"
      using Cons.IH [OF False, of ?d "Suc i"] by (elim exE conjE)
    moreover have "transcript_from E ?d (Suc i) es \<noteq> []" using False by (metis length_0_conv length_transcript_from)
    moreover have "length es \<noteq> 1 \<longrightarrow> butlast es \<noteq> []" using False by (cases es) auto
    moreover have "butlast es \<noteq> [] \<longrightarrow> transcript_from E ?d (Suc i) (butlast es) \<noteq> []"
      by (metis length_0_conv length_transcript_from)
    moreover have "length es = 1 \<longrightarrow> butlast es = []" by (cases es) auto
    ultimately show ?thesis using False by (intro exI [of _ prev]) (auto simp: Let_def)
  qed (simp add: Let_def)
qed simp

lemma transcript_inputs_prefix: "set (transcript_inputs E p i es) \<subseteq> set (transcript_inputs E p i (es @ fs))"
  by (induction es arbitrary: p i) auto

lemma transcript_inputs_butlast: "set (transcript_inputs E p i (butlast es)) \<subseteq> set (transcript_inputs E p i es)"
  using transcript_inputs_prefix [of E p i "butlast es" "[last es]"] by (cases "es = []") simp_all

lemma transcript_input_inj:
  assumes "transcript_input p i e = transcript_input q j f" and "length (snd e) = 32" "length (snd f) = 32"
    and "i < 2 ^ 64" "j < 2 ^ 64" and "i = j \<Longrightarrow> length p = length q"
  shows "i = j \<and> p = q \<and> e = f"
proof -
  have "(p @ snd e @ bytes_of (fst e)) @ usize_bytes i = (q @ snd f @ bytes_of (fst f)) @ usize_bytes j"
    using assms(1) by (simp add: transcript_input_def)
  then have eq: "p @ snd e @ bytes_of (fst e) = q @ snd f @ bytes_of (fst f)" and "usize_bytes i = usize_bytes j"
    by (simp_all add: append_eq_append_conv del: append_assoc)
  then have "i = j" using usize_bytes_inj assms(4,5) by simp
  with eq assms(2,3,6) show ?thesis by (simp add: bytes_of_inj prod_eq_iff)
qed

lemma length_transcript_step: "sha256_spec E \<Longrightarrow> length (transcript_step E p i e) = 64"
  by (simp add: transcript_step_def length_setup_hex sha256_spec_def)

lemma length_last_transcript:
  assumes "sha256_spec E" and "es \<noteq> []"
  shows "length (last (transcript_from E p i es)) = 64"
  using last_transcript_input [OF assms(2), of E p i] length_transcript_step [OF assms(1)] by (elim exE conjE) simp

lemma transcript_binding:
  assumes "sha256_spec E"
  shows "es \<noteq> [] \<Longrightarrow> es' \<noteq> [] \<Longrightarrow> \<forall>e \<in> set es \<union> set es'. length (snd e) = 32 \<Longrightarrow>
    length es \<le> 2 ^ 64 \<Longrightarrow> length es' \<le> 2 ^ 64 \<Longrightarrow>
    last (transcript_from E p 0 es) = last (transcript_from E p 0 es') \<Longrightarrow>
    inj_on (sha256_digest E) (set (transcript_inputs E p 0 es) \<union> set (transcript_inputs E p 0 es')) \<Longrightarrow> es = es'"
proof (induction "length es" arbitrary: es es' rule: less_induct)
  case less
  let ?n = "length es - 1" and ?m = "length es' - 1"
  obtain a where a: "last (transcript_from E p 0 es) = transcript_step E a ?n (last es)"
      "transcript_input a ?n (last es) \<in> set (transcript_inputs E p 0 es)"
      "if length es = 1 then a = p else a = bytes_of (last (transcript_from E p 0 (butlast es)))"
    using last_transcript_input [OF less.prems(1), of E p 0] unfolding add_0 by (elim exE conjE)
  obtain b where b: "last (transcript_from E p 0 es') = transcript_step E b ?m (last es')"
      "transcript_input b ?m (last es') \<in> set (transcript_inputs E p 0 es')"
      "if length es' = 1 then b = p else b = bytes_of (last (transcript_from E p 0 (butlast es')))"
    using last_transcript_input [OF less.prems(2), of E p 0] unfolding add_0 by (elim exE conjE)
  have "sha256_digest E (transcript_input a ?n (last es)) = sha256_digest E (transcript_input b ?m (last es'))"
    using less.prems(6) a(1) b(1) by (simp add: transcript_step_def setup_hex_inj)
  with less.prems(7) a(2) b(2) have eq: "transcript_input a ?n (last es) = transcript_input b ?m (last es')"
    by (meson UnCI inj_onD)
  have "?n < length es" "?m < length es'" using less.prems(1,2) by simp_all
  then have bounds: "?n < 2 ^ 64" "?m < 2 ^ 64" using less.prems(4,5) by linarith+
  have lens: "length es = length es'" if "?n = ?m" using that less.prems(1,2) by (cases es; cases es') auto
  have but: "butlast es \<noteq> []" if "length es \<noteq> 1" using that less.prems(1) by (cases es) (auto split: if_splits)
  have but': "butlast es' \<noteq> []" if "length es' \<noteq> 1" using that less.prems(2) by (cases es') (auto split: if_splits)
  have "length a = length b" if "?n = ?m"
    using a(3) b(3) lens [OF that] but but' length_last_transcript [OF assms]
    by (auto split: if_splits simp: bytes_of_def)
  moreover have "length (snd (last es)) = 32" "length (snd (last es')) = 32"
    using less.prems(1-3) by simp_all
  ultimately have res: "?n = ?m" "a = b" "last es = last es'"
    using transcript_input_inj [OF eq _ _ bounds] by blast+
  note len = lens [OF res(1)]
  show ?case
  proof (cases "length es = 1")
    case True
    then show ?thesis using res(3) len by (auto simp: length_Suc_conv)
  next
    case False
    have last: "last (transcript_from E p 0 (butlast es)) = last (transcript_from E p 0 (butlast es'))"
      using a(3) b(3) res(2) False len by (simp add: bytes_of_inj)
    have "butlast es = butlast es'"
    proof (rule less.hyps [OF _ _ _ _ _ _ last])
      show "length (butlast es) < length es" using less.prems(1) by simp
      show "butlast es \<noteq> []" "butlast es' \<noteq> []" using but but' False len by simp_all
      show "\<forall>e \<in> set (butlast es) \<union> set (butlast es'). length (snd e) = 32"
        using less.prems(3) by (auto dest: in_set_butlastD)
      show "length (butlast es) \<le> 2 ^ 64" "length (butlast es') \<le> 2 ^ 64" using less.prems(4,5) by simp_all
      show "inj_on (sha256_digest E) (set (transcript_inputs E p 0 (butlast es)) \<union> set (transcript_inputs E p 0 (butlast es')))"
        by (rule inj_on_subset [OF less.prems(7) Un_mono]) (rule transcript_inputs_butlast)+
    qed
    with res(3) show ?thesis using less.prems(1,2) by (metis append_butlast_last_id)
  qed
qed

text \<open>A ceremony as the code runs it, and the contributors with the entropy digests it makes.\<close>

type_synonym contribution_input = "u64 \<times> bytes \<times> string"

definition contribute_step :: "'z env_scheme \<Rightarrow> CeremonyState \<Rightarrow> contribution_input \<Rightarrow> (CeremonyState, setup_error) result" where
  "contribute_step E st c = (case c of (now, entropy, name) \<Rightarrow> append_contribution E (Some now) entropy st name)"

definition run_ceremony :: "'z env_scheme \<Rightarrow> contribution_input \<Rightarrow> contribution_input list \<Rightarrow> (CeremonyState, setup_error) result" where
  "run_ceremony E c cs = (case c of (now, entropy, organizer) \<Rightarrow>
     and_then (build_initial_state E (Some now) entropy organizer) (\<lambda>st. try_fold (contribute_step E) st cs))"

fun added_entries :: "'z env_scheme \<Rightarrow> CeremonyState \<Rightarrow> contribution_input list \<Rightarrow> (string \<times> bytes) list" where
  "added_entries E st [] = []"
| "added_entries E st ((now, entropy, name) # cs) =
     (name, added_entropy E st name entropy) #
     (case append_contribution E (Some now) entropy st name of Inr st' \<Rightarrow> added_entries E st' cs | Inl _ \<Rightarrow> [])"

definition ceremony_entries :: "'z env_scheme \<Rightarrow> contribution_input \<Rightarrow> contribution_input list \<Rightarrow> (string \<times> bytes) list" where
  "ceremony_entries E c cs = (case c of (now, entropy, organizer) \<Rightarrow>
     (organizer, initial_entropy E organizer entropy) #
     (case build_initial_state E (Some now) entropy organizer of Inr st \<Rightarrow> added_entries E st cs | Inl _ \<Rightarrow> []))"

definition ceremony_preimages :: "'z env_scheme \<Rightarrow> contribution_input \<Rightarrow> contribution_input list \<Rightarrow> bytes set" where
  "ceremony_preimages E c cs = set (transcript_inputs E (empty_transcript_digest E) 0 (ceremony_entries E c cs))"

lemma added_entries_ok:
  assumes "sha256_spec E"
  shows "ceremony_ok E es st \<Longrightarrow> \<exists>st'. try_fold (contribute_step E) st cs = Inr st' \<and>
    ceremony_ok E (es @ added_entries E st cs) st' \<and> length (added_entries E st cs) = length cs"
proof (induction cs arbitrary: es st)
  case (Cons c cs)
  obtain now entropy name where c: "c = (now, entropy, name)" by (cases c)
  obtain st1 where 1: "append_contribution E (Some now) entropy st name = Inr st1"
      "ceremony_ok E (es @ [(name, added_entropy E st name entropy)]) st1"
    using append_contribution_ok [OF assms Cons.prems] by blast
  from Cons.IH [OF 1(2)] 1(1) show ?case by (simp add: c contribute_step_def)
qed simp

lemma run_ceremony_ok:
  assumes "sha256_spec E"
  shows "\<exists>st. run_ceremony E c cs = Inr st \<and> ceremony_ok E (ceremony_entries E c cs) st \<and>
    length (ceremony_entries E c cs) = Suc (length cs)"
proof -
  obtain now entropy name where c: "c = (now, entropy, name)" by (cases c)
  obtain st where st: "build_initial_state E (Some now) entropy name = Inr st"
      "ceremony_ok E [(name, initial_entropy E name entropy)] st"
    using build_initial_state_ok [OF assms] by blast
  from added_entries_ok [OF assms st(2), of cs] st(1) show ?thesis by (simp add: run_ceremony_def ceremony_entries_def c)
qed

text \<open>
  C17. The final digest commits to the whole ceremony: two ceremonies that end with the same
  transcript digest have the same number of contributions, the same contributors in the same
  order and the same entropy and transcript digests, provided that no two byte strings hashed
  for the two transcripts collide under SHA-256.
\<close>

theorem ceremony_binding:
  assumes "sha256_spec E" and "run_ceremony E c cs = Inr st" and "run_ceremony E d ds = Inr st'"
    and "cs_last_transcript_digest_hex st = cs_last_transcript_digest_hex st'"
    and "length cs < 2 ^ 64" and "length ds < 2 ^ 64"
    and "inj_on (sha256_digest E) (ceremony_preimages E c cs \<union> ceremony_preimages E d ds)"
  shows "map cc_contributor (cs_contributions st) = map cc_contributor (cs_contributions st') \<and>
    map cc_entropy_digest_hex (cs_contributions st) = map cc_entropy_digest_hex (cs_contributions st') \<and>
    map cc_transcript_digest_hex (cs_contributions st) = map cc_transcript_digest_hex (cs_contributions st')"
proof -
  let ?es = "ceremony_entries E c cs" and ?fs = "ceremony_entries E d ds"
  have es: "ceremony_ok E ?es st" "length ?es \<le> 2 ^ 64" using run_ceremony_ok [OF assms(1), of c cs] assms(2,5) by auto
  have fs: "ceremony_ok E ?fs st'" "length ?fs \<le> 2 ^ 64" using run_ceremony_ok [OF assms(1), of d ds] assms(3,6) by auto
  have "?es = ?fs"
    using transcript_binding [OF assms(1) _ _ _ es(2) fs(2) _ assms(7) [unfolded ceremony_preimages_def]] es(1) fs(1) assms(4)
    by (simp add: ceremony_ok_def transcript_def ball_Un)
  with es(1) fs(1) show ?thesis by (simp add: ceremony_ok_def)
qed

section \<open>Finalising\<close>

lemma setup_paths_distinct:
  "proving_key_path d \<noteq> verifying_key_path d" "proving_key_path d \<noteq> metadata_path d" "verifying_key_path d \<noteq> metadata_path d"
  "proving_key_path d \<noteq> state_path d" "verifying_key_path d \<noteq> state_path d" "metadata_path d \<noteq> state_path d"
  by (simp_all add: proving_key_path_def verifying_key_path_def metadata_path_def state_path_def path_join_inj
    PROVING_KEY_FILE_NAME_def VERIFYING_KEY_FILE_NAME_def METADATA_FILE_NAME_def STATE_FILE_NAME_def)

text \<open>The seed, recomputed from the published metadata alone.\<close>

definition metadata_seed :: "'z env_scheme \<Rightarrow> SetupMetadata \<Rightarrow> bytes" where
  "metadata_seed E md = digest_bytes E
     [bytes_of ''prims-zk-setup-final-seed'', bytes_of (sm_transcript_final_digest_hex md), usize_bytes (sm_contribution_count md)]"

text \<open>
  \<open>finalize\<close> writes the keys of the ceremony, and their seed is public: on a working disk with
  a readable ceremony, and with \<open>--force\<close> or no artefacts present, it succeeds; exactly the two
  key files and the metadata file are written; the metadata lists the contributors; and the
  proving key is the one generated from the seed that anybody can recompute from the metadata
  file, so the secret randomness of the parameters is not secret.
\<close>

theorem finalize_from_metadata:
  assumes "disk_spec F view"
    and "\<forall>k. snd (pk_writer E k) = Inr ()" and "\<forall>k. snd (vk_writer E k) = Inr ()" and "\<forall>m. snd (metadata_writer E m) = Inr ()"
    and "view s (state_path d) = Some content" and "utf8_valid content" and "state_parser E content = Inr st"
    and "force \<or> (view s (proving_key_path d) = None \<and> view s (verifying_key_path d) = None \<and> view s (metadata_path d) = None)"
    and "build_reference_zk_transfer_setup_circuit E = Inr (circuit, cm)"
    and "generate_parameters E (derive_final_seed E st) circuit = Inr pk"
  shows "\<exists>s' lines md. setup_main E F (Some now) entropy (Finalize d force) s = (s', Inr lines) \<and>
    view s' = (view s)(proving_key_path d \<mapsto> concat (fst (pk_writer E pk)),
      verifying_key_path d \<mapsto> concat (fst (vk_writer E (pk_vk E pk))), metadata_path d \<mapsto> concat (fst (metadata_writer E md))) \<and>
    sm_contributor_names md = map cc_contributor (cs_contributions st) \<and>
    generate_parameters E (metadata_seed E md) circuit = Inr pk"
proof -
  let ?md = "setup_metadata_of st cm now"
  obtain s1 where s1: "ensure_out_dir F d s = (s1, Inr ())" "view s1 = view s" using ensure_out_dir_ok [OF assms(1)] .
  have ex: "file_exists F p s1 \<longleftrightarrow> view s p \<noteq> None" for p using assms(1) s1(2) by (simp add: disk_spec_def)
  have "read_file F (state_path d) s1 = Inr content" using assms(1,5) s1(2) unfolding disk_spec_def by metis
  then have r: "read_state E F d s1 = Inr st" using assms(6,7) by (simp add: read_state_def Let_def)
  have w: "snd (pk_writer E pk) = Inr ()" "snd (vk_writer E (pk_vk E pk)) = Inr ()" "snd (metadata_writer E ?md) = Inr ()"
    using assms(2-4) by simp_all
  obtain s2 where s2: "write_key_file F (proving_key_path d) (pk_writer E) pk s1 = (s2, Inr ())"
      "view s2 = (view s1)(proving_key_path d \<mapsto> concat (fst (pk_writer E pk)))"
    by (rule write_key_file_ok [where W = "pk_writer E", OF assms(1) w(1)])
  obtain s3 where s3: "write_key_file F (verifying_key_path d) (vk_writer E) (pk_vk E pk) s2 = (s3, Inr ())"
      "view s3 = (view s2)(verifying_key_path d \<mapsto> concat (fst (vk_writer E (pk_vk E pk))))"
    by (rule write_key_file_ok [where W = "vk_writer E", OF assms(1) w(2)])
  obtain s4 where s4: "write_json_pretty F (metadata_path d) (metadata_writer E) ?md s3 = (s4, Inr ())"
      "view s4 = (view s3)(metadata_path d \<mapsto> concat (fst (metadata_writer E ?md)))"
    by (rule write_json_pretty_ok [where W = "metadata_writer E", OF assms(1) w(3)])
  have "metadata_seed E ?md = derive_final_seed E st"
    by (simp add: metadata_seed_def setup_metadata_of_def derive_final_seed_def)
  moreover have "sm_contributor_names ?md = map cc_contributor (cs_contributions st)" by (simp add: setup_metadata_of_def)
  moreover obtain lines where "cmd_finalize E F (Some now) d force s = (s4, Inr lines)"
    using assms(8-10) r ex s1(1) s2(1) s3(1) s4(1)
    by (auto simp: cmd_finalize_def Let_def io_bind_Inr io_bind_reads now_unix_def)
  ultimately show ?thesis using s1(2) s2(2) s3(2) s4(2) assms(10)
    by (intro exI [of _ s4] exI [of _ lines] exI [of _ ?md]) simp
qed

text \<open>
  C40. Nothing is replaced without \<open>--force\<close>: \<open>init\<close> in a directory that has a state file and
  \<open>finalize\<close> in one that has a key or metadata file are refused with the error the code returns,
  \<open>inspect\<close> writes nothing, and in all three cases every file keeps its contents.
\<close>

theorem no_force_preserves:
  assumes "disk_spec F view"
  shows "(view s (state_path d) \<noteq> None \<longrightarrow>
      (\<exists>s'. setup_main E F clock entropy (Init d name False) s = (s', Inl (StateExists (state_path d))) \<and> view s' = view s)) \<and>
    (view s (proving_key_path d) \<noteq> None \<or> view s (verifying_key_path d) \<noteq> None \<or> view s (metadata_path d) \<noteq> None \<longrightarrow>
      (\<exists>s' e. setup_main E F clock entropy (Finalize d False) s = (s', Inl e) \<and> view s' = view s \<and>
        (case read_state E F d s' of Inl e' \<Rightarrow> e = e' | Inr _ \<Rightarrow> e = ArtefactsExist d))) \<and>
    fst (setup_main E F clock entropy (Inspect d) s) = s"
proof -
  obtain s1 where s1: "ensure_out_dir F d s = (s1, Inr ())" "view s1 = view s" using ensure_out_dir_ok [OF assms] .
  have ex: "file_exists F p s1 \<longleftrightarrow> view s p \<noteq> None" for p using assms s1(2) by (simp add: disk_spec_def)
  have "fst (setup_main E F clock entropy (Inspect d) s) = s"
    by (simp add: cmd_inspect_def io_bind_reads split: sum.splits)
  moreover have "view s (state_path d) \<noteq> None \<longrightarrow>
      setup_main E F clock entropy (Init d name False) s = (s1, Inl (StateExists (state_path d)))"
    using s1(1) ex by (simp add: cmd_init_def io_bind_Inr io_bind_reads)
  moreover have "view s (proving_key_path d) \<noteq> None \<or> view s (verifying_key_path d) \<noteq> None \<or> view s (metadata_path d) \<noteq> None \<longrightarrow>
      setup_main E F clock entropy (Finalize d False) s =
        (s1, Inl (case read_state E F d s1 of Inl e' \<Rightarrow> e' | Inr _ \<Rightarrow> ArtefactsExist d))"
    using s1(1) ex by (auto simp: cmd_finalize_def Let_def io_bind_Inr io_bind_reads split: sum.splits)
  ultimately show ?thesis using s1(2) by (auto split: sum.splits)
qed

section \<open>A lost write\<close>

lemma fragments_buffered:
  "length buf + length (concat frags) < BUF_CAPACITY \<Longrightarrow>
   buf_write_fragments F path frags (s, buf) = ((s, buf @ concat frags), Inr ())"
proof (induction frags arbitrary: buf)
  case (Cons a frags)
  have "length a < BUF_CAPACITY - length buf" using Cons.prems by simp
  then have "buf_write_all F path a (s, buf) = ((s, buf @ a), Inr ())" by (simp add: buf_write_all_def Let_def)
  with Cons show ?case by (simp add: io_bind_Inr)
qed simp

text \<open>
  \<open>write_json_pretty\<close> never flushes its \<open>BufWriter\<close>, and dropping one ignores errors: for a value
  whose JSON fits the buffer it reports success as soon as the file could be created, whatever
  happens to the write. On a full disk \<open>contribute\<close> so truncates the state file and reports that
  the contribution was added.
\<close>

theorem write_json_pretty_swallows:
  assumes "create_file F p s = (s1, Inr ())" and "snd (W v) = Inr ()" and "length (concat (fst (W v))) < BUF_CAPACITY"
  shows "snd (write_json_pretty F p W v s) = Inr () \<and>
    (concat (fst (W v)) \<noteq> [] \<longrightarrow> fst (write_json_pretty F p W v s) = fst (write_file F p (concat (fst (W v))) s1))"
proof -
  have f: "buf_write_fragments F p (fst (W v)) (s1, []) = ((s1, concat (fst (W v))), Inr ())"
    using fragments_buffered [of "[]" "fst (W v)"] assms(3) by simp
  have g: "write_and_drop F p (W v) s1 = (fst (fst (flush_buf F p (s1, concat (fst (W v))))), Inr ())"
    using f assms(2) by (simp add: write_and_drop_def io_bind_Inr)
  show ?thesis using assms(1) g
    by (simp add: write_json_pretty_def io_bind_def io_context_def flush_buf_def split: prod.splits sum.splits)
qed

section \<open>A sample ceremony\<close>

definition mem_disk :: "(string \<rightharpoonup> bytes) file_ops" where
  "mem_disk = \<lparr>create_dir_all = (\<lambda>p s. (s, Inr ())), file_exists = (\<lambda>p s. s p \<noteq> None),
     read_file = (\<lambda>p s. case s p of Some b \<Rightarrow> Inr b | None \<Rightarrow> Inl ''not found''),
     create_file = (\<lambda>p s. (s(p \<mapsto> []), Inr ())),
     write_file = (\<lambda>p bs s. (s(p \<mapsto> (case s p of Some b \<Rightarrow> b | None \<Rightarrow> []) @ bs), Inr ()))\<rparr>"

lemma mem_disk_spec: "disk_spec mem_disk (\<lambda>s. s)"
  by (simp add: disk_spec_def mem_disk_def)

instance CeremonyContribution_ext :: (countable) countable
  by (rule countable_classI [of "\<lambda>c. to_nat (cc_index c, cc_contributor c, cc_contributed_at_unix c,
      cc_entropy_digest_hex c, cc_transcript_digest_hex c, CeremonyContribution.more c)"]) simp

instance CeremonyState_ext :: (countable) countable
  by (rule countable_classI [of "\<lambda>c. to_nat (cs_version c, cs_ceremony_kind c, cs_curve c, cs_circuit c, cs_contributions c,
      cs_last_transcript_digest_hex c, cs_created_at_unix c, cs_updated_at_unix c, CeremonyState.more c)"]) simp

definition sample_setup :: "(bytes, bytes) setup_env" where
  "sample_setup = env.extend sample_env (setup_env.fields
     (\<lambda>st. ([replicate (to_nat st) 48], Inr ())) (\<lambda>b. Inr (from_nat (length b))) (\<lambda>m. ([[1]], Inr ()))
     (\<lambda>seed c. Inr seed) (\<lambda>k. k) (\<lambda>k. ([k], Inr ())) (\<lambda>k. ([k], Inr ())))"

lemma sample_setup_json: "json_spec sample_setup"
  by (simp add: json_spec_def sample_setup_def env.defs setup_env.defs utf8_ascii)

lemma sample_setup_sha256: "sha256_spec sample_setup"
  by (simp add: sha256_spec_def sample_setup_def env.defs setup_env.defs sample_env_def sample_digest_def)

theorem ceremony_history_witness:
  "\<exists>s1 s2 lines st. setup_main sample_setup mem_disk (Some 1) [7] (Init ''out'' ''alice'' False) Map.empty = (s1, Inr lines) \<and>
     contribute_all sample_setup mem_disk ''out'' [(2, [8], ''bob''), (3, [9], ''carol'')] s1 = (s2, Inr []) \<and>
     read_state sample_setup mem_disk ''out'' s2 = Inr st \<and>
     map cc_contributor (cs_contributions st) = [''alice'', ''bob'', ''carol'']"
  using ceremony_history [OF mem_disk_spec sample_setup_json sample_setup_sha256, where s = Map.empty and d = "''out''" and now = 1
    and entropy = "[7]" and organizer = "''alice''" and cs = "[(2, [8], ''bob''), (3, [9], ''carol'')]" and force = False]
  by auto

theorem ceremony_binding_witness:
  "\<exists>st st'. run_ceremony sample_setup (1, [7], ''alice'') [] = Inr st \<and> run_ceremony sample_setup (2, [7], ''alice'') [] = Inr st' \<and>
     map cc_entropy_digest_hex (cs_contributions st) = map cc_entropy_digest_hex (cs_contributions st')"
proof -
  let ?c = "(1, [7], ''alice'') :: contribution_input" and ?d = "(2, [7], ''alice'') :: contribution_input"
  obtain st where st: "run_ceremony sample_setup ?c [] = Inr st" "ceremony_ok sample_setup (ceremony_entries sample_setup ?c []) st"
    using run_ceremony_ok [OF sample_setup_sha256] by blast
  obtain st' where st': "run_ceremony sample_setup ?d [] = Inr st'" "ceremony_ok sample_setup (ceremony_entries sample_setup ?d []) st'"
    using run_ceremony_ok [OF sample_setup_sha256] by blast
  have e: "ceremony_entries sample_setup x [] = [(''alice'', initial_entropy sample_setup ''alice'' [7])]" if "x = ?c \<or> x = ?d" for x
    using that by (auto simp: ceremony_entries_def split: sum.splits)
  have last: "cs_last_transcript_digest_hex st = cs_last_transcript_digest_hex st'"
    using st(2) st'(2) by (simp add: e ceremony_ok_def)
  have inj: "inj_on (sha256_digest sample_setup) (ceremony_preimages sample_setup ?c [] \<union> ceremony_preimages sample_setup ?d [])"
    by (simp add: ceremony_preimages_def e)
  from ceremony_binding [OF sample_setup_sha256 st(1) st'(1) last _ _ inj] st(1) st'(1) show ?thesis by auto
qed

theorem finalize_from_metadata_witness:
  "\<exists>s' lines md. setup_main sample_setup mem_disk (Some 5) [] (Finalize ''out'' False) [state_path ''out'' \<mapsto> []] = (s', Inr lines) \<and>
     s' (proving_key_path ''out'') = Some (metadata_seed sample_setup md)"
proof -
  have f: "derive_note_recipient_public_key sample_setup (replicate 32 21) \<noteq> zero32"
    using sample_derived_key by (simp add: derive_note_recipient_public_key_def sample_setup_def env.defs setup_env.defs)
  obtain c cm where c: "build_reference_zk_transfer_setup_circuit sample_setup = Inr (c, cm)"
    using reference_circuit_ok [OF f] by blast
  have w: "\<forall>k. snd (pk_writer sample_setup k) = Inr ()" "\<forall>k. snd (vk_writer sample_setup k) = Inr ()"
      "\<forall>m. snd (metadata_writer sample_setup m) = Inr ()" "state_parser sample_setup [] = Inr (from_nat 0)"
      "\<And>seed c. generate_parameters sample_setup seed c = Inr seed" "\<And>k. fst (pk_writer sample_setup k) = [k]"
    by (simp_all add: sample_setup_def env.defs setup_env.defs)
  let ?s = "[state_path ''out'' \<mapsto> []] :: string \<rightharpoonup> bytes" and ?st = "from_nat 0 :: CeremonyState"
  have h: "?s (state_path ''out'') = Some []" "utf8_valid []"
      "False \<or> (?s (proving_key_path ''out'') = None \<and> ?s (verifying_key_path ''out'') = None \<and> ?s (metadata_path ''out'') = None)"
    by (simp_all add: setup_paths_distinct utf8_ascii)
  obtain s' lines md where r: "setup_main sample_setup mem_disk (Some 5) [] (Finalize ''out'' False) ?s = (s', Inr lines)"
    "s' = ?s(proving_key_path ''out'' \<mapsto> concat (fst (pk_writer sample_setup (derive_final_seed sample_setup ?st))),
      verifying_key_path ''out'' \<mapsto> concat (fst (vk_writer sample_setup (pk_vk sample_setup (derive_final_seed sample_setup ?st)))),
      metadata_path ''out'' \<mapsto> concat (fst (metadata_writer sample_setup md)))"
    "generate_parameters sample_setup (metadata_seed sample_setup md) c = Inr (derive_final_seed sample_setup ?st)"
    using finalize_from_metadata [where F = mem_disk and view = "\<lambda>s. s" and s = ?s and d = "''out''" and content = "[]" and now = 5
      and entropy = "[]", OF mem_disk_spec w(1-3) h(1,2) w(4) h(3) c w(5)] by (elim exE conjE)
  have "s' (proving_key_path ''out'') = Some (derive_final_seed sample_setup ?st)"
    unfolding r(2) by (simp add: setup_paths_distinct w(6))
  with r(1,3) w(5) show ?thesis by (intro exI [of _ s'] exI [of _ lines] exI [of _ md]) simp
qed

theorem no_force_preserves_witness:
  "\<exists>s'. setup_main sample_setup mem_disk (Some 5) [] (Init ''out'' ''eve'' False) [state_path ''out'' \<mapsto> [1]] =
      (s', Inl (StateExists (state_path ''out''))) \<and> s' (state_path ''out'') = Some [1]"
  using no_force_preserves [OF mem_disk_spec, of "[state_path ''out'' \<mapsto> [1]]" "''out''" sample_setup "Some 5" "[]" "''eve''"] by auto

end
