(* ===== verification/Flood.thy ===== *)
theory Flood
  imports NodeLaws Crypto
begin

text \<open>
  The \<open>flood\<close> command of \<open>src/src/bin/prims-cli.rs\<close>: a node joins the network, waits for a
  connection and for subscriptions, and publishes signed transactions with consecutive nonces,
  retrying while nobody listens or the queues are full. The swarm state holds the clock, in
  milliseconds; a poll waits at most the given time. The wait loops are driven by the clock, so
  they are partial functions, and that they end is a theorem about clocks that advance.
\<close>

record ('w, 'p) flood_ops =
  fl_unsubscribe :: "string \<Rightarrow> 'w \<Rightarrow> 'w"
  fl_now :: "'w \<Rightarrow> nat"
  fl_poll :: "nat \<Rightarrow> 'w \<Rightarrow> 'w \<times> 'p swarm_event option"
  fl_random :: "'w \<Rightarrow> 'w \<times> bytes"

datatype 'p flood_line =
    FloodStarted 'p string "string list"
  | FloodListening
  | FloodConnected 'p
  | FloodRetry u64 nat
  | FloodPublished u64
  | FloodTotal u64

datatype flood_error =
    ZeroCount
  | NoSeedNodes
  | NodeFailed node_error
  | NotConnected
  | FloodSignFailed crypto_error
  | PublishFailed string
  | FloodPanic string

section \<open>Waiting\<close>

fun event_lines :: "'p swarm_event option \<Rightarrow> 'p flood_line list" where
  "event_lines (Some NewListenAddr) = [FloodListening]"
| "event_lines (Some (ConnectionEstablished peer)) = [FloodConnected peer]"
| "event_lines _ = []"

fun is_connection :: "'p swarm_event option \<Rightarrow> bool" where
  "is_connection (Some (ConnectionEstablished peer)) = True"
| "is_connection _ = False"

partial_function (option) wait_connection :: "('w, 'p) flood_ops \<Rightarrow> nat \<Rightarrow> 'w \<Rightarrow> 'p flood_line list
    \<Rightarrow> ('w \<times> 'p flood_line list \<times> bool) option" where
  "wait_connection P deadline w lines =
     (if fl_now P w < deadline
      then (let (w', ev) = fl_poll P 500 w in
            if is_connection ev then Some (w', lines @ event_lines ev, True)
            else wait_connection P deadline w' (lines @ event_lines ev))
      else Some (w, lines, False))"

text \<open>The second and third loop: poll until the deadline; only the second prints.\<close>

partial_function (option) wait_until :: "('w, 'p) flood_ops \<Rightarrow> bool \<Rightarrow> nat \<Rightarrow> nat \<Rightarrow> 'w \<Rightarrow> 'p flood_line list
    \<Rightarrow> ('w \<times> 'p flood_line list) option" where
  "wait_until P verbose timeout_ms deadline w lines =
     (if fl_now P w < deadline
      then (let (w', ev) = fl_poll P timeout_ms w in
            wait_until P verbose timeout_ms deadline w' (lines @ (if verbose then event_lines ev else [])))
      else Some (w, lines))"

section \<open>Publishing\<close>

text \<open>\<open>str::contains\<close>.\<close>

fun contains :: "string \<Rightarrow> string \<Rightarrow> bool" where
  "contains needle [] = (needle = [])"
| "contains needle (c # s) = (take (length needle) (c # s) = needle \<or> contains needle s)"

definition poll_node :: "('w, 'p) flood_ops \<Rightarrow> nat \<Rightarrow> ('w, 'p) PrimsNode \<Rightarrow> ('w, 'p) PrimsNode" where
  "poll_node P timeout_ms n = n\<lparr>swarm := fst (fl_poll P timeout_ms (swarm n))\<rparr>"

function publish_retry :: "('k, 'z) net_env_scheme \<Rightarrow> ('k, 'w, 'p, 'a, 'i) swarm_ops \<Rightarrow> ('w, 'p) flood_ops \<Rightarrow> Transaction \<Rightarrow> nat
    \<Rightarrow> ('w, 'p) PrimsNode \<Rightarrow> 'p flood_line list \<Rightarrow> (('w, 'p) PrimsNode \<times> 'p flood_line list, flood_error) result" where
  "publish_retry E S P t attempts n lines =
     (case publish_transaction E S t n of
        Inl e \<Rightarrow> Inl (FloodPanic e)
      | Inr (n', Inr _) \<Rightarrow> Inr (n', lines)
      | Inr (n', Inl e) \<Rightarrow>
          if contains ''NoPeersSubscribedToTopic'' e \<and> attempts < 20
          then publish_retry E S P t (attempts + 1) (poll_node P 250 n') (lines @ [FloodRetry (tx_nonce t) (attempts + 1)])
          else if contains ''AllQueuesFull'' e \<and> attempts < 200
          then publish_retry E S P t (attempts + 1) (poll_node P 5 n') lines
          else Inl (PublishFailed e))"
  by pat_completeness auto
termination by (relation "measure (\<lambda>(E, S, P, t, attempts, n, lines). 200 - attempts)") auto

declare publish_retry.simps [simp del]

definition flood_transaction :: "KeyPair \<Rightarrow> KeyPair \<Rightarrow> u64 \<Rightarrow> u64 \<Rightarrow> Transaction" where
  "flood_transaction sender recipient amount nonce =
     \<lparr>tx_type = Transfer, tx_from = public_key sender, tx_to = public_key recipient, tx_amount = amount,
      tx_fee = FIXED_TRANSACTION_FEE, tx_nonce = nonce, tx_source_shard = 0, tx_destination_shard = 0, tx_signature = [],
      tx_data = Some (bytes_of (''load-test-'' @ decimal (unat nonce)))\<rparr>"

definition node_random :: "('w, 'p) flood_ops \<Rightarrow> ('w, 'p) PrimsNode \<Rightarrow> ('w, 'p) PrimsNode \<times> bytes" where
  "node_random P n = (let (w, r) = fl_random P (swarm n) in (n\<lparr>swarm := w\<rparr>, r))"

text \<open>The body of the loop over \<open>0..count\<close>; the nonces are the loop's offsets added to the start.\<close>

fun flood_loop :: "('k, 'z) net_env_scheme \<Rightarrow> ('k, 'w, 'p, 'a, 'i) swarm_ops \<Rightarrow> ('w, 'p) flood_ops \<Rightarrow> KeyPair \<Rightarrow> u64 \<Rightarrow> u64 list
    \<Rightarrow> ('w, 'p) PrimsNode \<Rightarrow> 'p flood_line list \<Rightarrow> (('w, 'p) PrimsNode \<times> 'p flood_line list, flood_error) result" where
  "flood_loop E S P sender amount [] n lines = Inr (n, lines)"
| "flood_loop E S P sender amount (nonce # nonces) n lines =
     (let (n1, random) = node_random P n;
          tx = flood_transaction sender (generate_keypair E random) amount nonce in
      and_then (map_err FloodSignFailed (sign_transaction E tx (secret_key sender))) (\<lambda>signature.
      and_then (publish_retry E S P (tx\<lparr>tx_signature := signature\<rparr>) 0 n1 lines) (\<lambda>(n2, lines').
        flood_loop E S P sender amount nonces n2 (lines' @ [FloodPublished nonce]))))"

definition flood_nonces :: "u64 \<Rightarrow> u64 \<Rightarrow> u64 list" where
  "flood_nonces start_nonce tx_count = map (\<lambda>offset. start_nonce + of_nat offset) [0..<unat tx_count]"

definition flood_publish :: "('k, 'z) net_env_scheme \<Rightarrow> ('k, 'w, 'p, 'a, 'i) swarm_ops \<Rightarrow> ('w, 'p) flood_ops \<Rightarrow> u64 \<Rightarrow> u64 \<Rightarrow> u64
    \<Rightarrow> ('w, 'p) PrimsNode \<Rightarrow> 'p flood_line list \<Rightarrow> (('w, 'p) PrimsNode \<times> 'p flood_line list, flood_error) result" where
  "flood_publish E S P tx_count start_nonce amount n lines =
     (let (n1, random) = node_random P n; sender = generate_keypair E random in
      and_then (flood_loop E S P sender amount (flood_nonces start_nonce tx_count) n1 lines) (\<lambda>(n2, lines').
        Inr (n2, lines' @ [FloodTotal tx_count])))"

section \<open>The command\<close>

definition flood_config :: "process_env \<Rightarrow> string \<Rightarrow> string list \<Rightarrow> NetworkConfig" where
  "flood_config vars listen seeds =
     (let cfg = (NetworkConfig_default vars)\<lparr>listen_address := listen\<rparr> in
      if seeds \<noteq> [] then cfg\<lparr>seed_nodes := seeds\<rparr> else cfg)"

definition flood_node :: "('k, 'z) net_env_scheme \<Rightarrow> process_env \<Rightarrow> (string \<Rightarrow> string + bytes) \<Rightarrow> ('k, 'w, 'p, 'a, 'i) swarm_ops
    \<Rightarrow> ('w, 'p) flood_ops \<Rightarrow> u64 \<Rightarrow> string \<Rightarrow> string list \<Rightarrow> (('w, 'p) PrimsNode, flood_error) result" where
  "flood_node E vars rd S P tx_count listen seeds =
     (if tx_count = 0 then Inl ZeroCount else
      let cfg = flood_config vars listen seeds in
      if seed_nodes cfg = [] then Inl NoSeedNodes else
      and_then (map_err NodeFailed (PrimsNode_new E vars rd S cfg)) (\<lambda>node.
        Inr (node\<lparr>swarm := fl_unsubscribe P VOTES_TOPIC_NAME (fl_unsubscribe P TRANSACTIONS_TOPIC_NAME
          (fl_unsubscribe P BLOCKS_TOPIC_NAME (swarm node)))\<rparr>)))"

definition flood :: "('k, 'z) net_env_scheme \<Rightarrow> process_env \<Rightarrow> (string \<Rightarrow> string + bytes) \<Rightarrow> ('k, 'w, 'p, 'a, 'i) swarm_ops
    \<Rightarrow> ('w, 'p) flood_ops \<Rightarrow> u64 \<Rightarrow> u64 \<Rightarrow> u64 \<Rightarrow> string \<Rightarrow> string list
    \<Rightarrow> (('w, 'p) PrimsNode \<times> 'p flood_line list, flood_error) result option" where
  "flood E vars rd S P tx_count start_nonce amount listen seeds =
     (case flood_node E vars rd S P tx_count listen seeds of
        Inl e \<Rightarrow> Some (Inl e)
      | Inr node \<Rightarrow>
          let lines0 = [FloodStarted (local_peer_id node) (listen_address (config node)) (seed_nodes (config node))] in
          (case wait_connection P (fl_now P (swarm node) + 10000) (swarm node) lines0 of
             None \<Rightarrow> None
           | Some (w1, lines1, connected) \<Rightarrow>
               if \<not> connected then Some (Inl NotConnected) else
               (case wait_until P True 250 (fl_now P w1 + 3000) w1 lines1 of
                  None \<Rightarrow> None
                | Some (w2, lines2) \<Rightarrow>
                    (case flood_publish E S P tx_count start_nonce amount (node\<lparr>swarm := w2\<rparr>) lines2 of
                       Inl e \<Rightarrow> Some (Inl e)
                     | Inr (n3, lines3) \<Rightarrow>
                         map_option (\<lambda>(w4, lines4). Inr (n3\<lparr>swarm := w4\<rparr>, lines4))
                           (wait_until P False 100 (fl_now P (swarm n3) + 2000) (swarm n3) lines3)))))"

section \<open>The command ends\<close>

text \<open>A poll takes time.\<close>

definition clock_advances :: "('w, 'p) flood_ops \<Rightarrow> bool" where
  "clock_advances P \<longleftrightarrow> (\<forall>t w. fl_now P w < fl_now P (fst (fl_poll P t w)))"

lemma wait_connection_ends:
  assumes "clock_advances P"
  shows "\<exists>r. wait_connection P deadline w lines = Some r"
proof (induction "deadline - fl_now P w" arbitrary: w lines rule: less_induct)
  case less
  obtain w' ev where poll: "fl_poll P 500 w = (w', ev)" by (cases "fl_poll P 500 w")
  show ?case
  proof (cases "fl_now P w < deadline \<and> \<not> is_connection ev")
    case True
    have "fl_now P w < fl_now P w'" using assms poll unfolding clock_advances_def by (metis fst_conv)
    then have "deadline - fl_now P w' < deadline - fl_now P w" using True by (simp add: diff_less_mono2)
    from less [OF this] True poll show ?thesis by (subst wait_connection.simps) simp
  next
    case False
    then show ?thesis by (subst wait_connection.simps) (auto simp: poll)
  qed
qed

lemma wait_until_ends:
  assumes "clock_advances P"
  shows "\<exists>r. wait_until P v t deadline w lines = Some r"
proof (induction "deadline - fl_now P w" arbitrary: w lines rule: less_induct)
  case less
  obtain w' ev where poll: "fl_poll P t w = (w', ev)" by (cases "fl_poll P t w")
  show ?case
  proof (cases "fl_now P w < deadline")
    case True
    have "fl_now P w < fl_now P w'" using assms poll unfolding clock_advances_def by (metis fst_conv)
    then have "deadline - fl_now P w' < deadline - fl_now P w" using True by (simp add: diff_less_mono2)
    from less [OF this] True poll show ?thesis by (subst wait_until.simps) simp
  next
    case False
    then show ?thesis by (subst wait_until.simps) simp
  qed
qed

text \<open>
  The command ends: when every poll takes some time, \<open>flood\<close> returns a result for all
  arguments and all behaviours of the swarm; the retries of a publication are bounded.
\<close>

theorem flood_terminates:
  assumes "clock_advances P"
  shows "\<exists>r. flood E vars rd S P tx_count start_nonce amount listen seeds = Some r"
proof (cases "flood_node E vars rd S P tx_count listen seeds")
  case (Inl e)
  then show ?thesis by (simp add: flood_def)
next
  case (Inr node)
  let ?lines = "[FloodStarted (local_peer_id node) (listen_address (config node)) (seed_nodes (config node))]"
  obtain w1 lines1 c where 1: "wait_connection P (fl_now P (swarm node) + 10000) (swarm node) ?lines = Some (w1, lines1, c)"
    using wait_connection_ends [OF assms] by (metis prod_cases3)
  obtain w2 lines2 where 2: "wait_until P True 250 (fl_now P w1 + 3000) w1 lines1 = Some (w2, lines2)"
    using wait_until_ends [OF assms] by (metis surj_pair)
  show ?thesis
  proof (cases "flood_publish E S P tx_count start_nonce amount (node\<lparr>swarm := w2\<rparr>) lines2")
    case (Inl e)
    with Inr 1 2 show ?thesis by (simp add: flood_def)
  next
    case (Inr r)
    obtain n3 lines3 where r: "r = (n3, lines3)" by (cases r)
    obtain w4 lines4 where "wait_until P False 100 (fl_now P (swarm n3) + 2000) (swarm n3) lines3 = Some (w4, lines4)"
      using wait_until_ends [OF assms] by (metis surj_pair)
    with \<open>flood_node E vars rd S P tx_count listen seeds = Inr node\<close> 1 2 Inr r show ?thesis by (simp add: flood_def)
  qed
qed

section \<open>What the command sends\<close>

text \<open>
  An observation \<open>sent_log\<close> of the swarm: a successful publication appends its topic and bytes,
  nothing else changes it.
\<close>

definition sent_spec :: "('k, 'w, 'p, 'a, 'i) swarm_ops \<Rightarrow> ('w, 'p) flood_ops \<Rightarrow> ('w \<Rightarrow> (string \<times> bytes) list) \<Rightarrow> bool" where
  "sent_spec S P sent_log \<longleftrightarrow>
     (\<forall>w topic bs w' i. sw_publish S w topic bs = (w', Inr i) \<longrightarrow> sent_log w' = sent_log w @ [(topic, bs)]) \<and>
     (\<forall>w topic bs w' e. sw_publish S w topic bs = (w', Inl e) \<longrightarrow> sent_log w' = sent_log w) \<and>
     (\<forall>t w. sent_log (fst (fl_poll P t w)) = sent_log w) \<and> (\<forall>w. sent_log (fst (fl_random P w)) = sent_log w \<and> length (snd (fl_random P w)) = 32)"

definition wire_form :: "('k, 'z) net_env_scheme \<Rightarrow> Transaction \<Rightarrow> (bytes, string) result" where
  "wire_form E t = and_then (blockchain_transaction_to_network_transaction E t) (\<lambda>nt. to_bytes E (NewTransaction nt))"

lemma publish_transaction_sent:
  assumes "sent_spec S P sent_log" and "publish_transaction E S t n = Inr (n', r)"
  shows "case r of Inl e \<Rightarrow> sent_log (swarm n') = sent_log (swarm n)
    | Inr i \<Rightarrow> \<exists>b. wire_form E t = Inr b \<and> sent_log (swarm n') = sent_log (swarm n) @ [(TRANSACTIONS_TOPIC_NAME, b)]"
proof -
  obtain nt where nt: "blockchain_transaction_to_network_transaction E t = Inr nt"
      "publish_message E S TRANSACTIONS_TOPIC_NAME (NewTransaction nt) n = (n', r)"
    using assms(2) by (auto simp: publish_transaction_def result_simps)
  show ?thesis
  proof (cases "to_bytes E (NewTransaction nt)")
    case (Inl e)
    with nt show ?thesis by (auto simp: publish_message_def)
  next
    case (Inr b)
    obtain w' r' where p: "sw_publish S (swarm n) TRANSACTIONS_TOPIC_NAME b = (w', r')" by fastforce
    with nt(2) Inr have n': "n' = n\<lparr>swarm := w'\<rparr>" "r = r'" by (simp_all add: publish_message_def)
    show ?thesis
    proof (cases r')
      case (Inl e)
      with p assms(1) have "sent_log w' = sent_log (swarm n)" unfolding sent_spec_def by blast
      with n' Inl show ?thesis by simp
    next
      case (Inr i)
      with p assms(1) have "sent_log w' = sent_log (swarm n) @ [(TRANSACTIONS_TOPIC_NAME, b)]" unfolding sent_spec_def by blast
      with n' Inr nt(1) \<open>to_bytes E (NewTransaction nt) = Inr b\<close> show ?thesis by (simp add: wire_form_def)
    qed
  qed
qed

lemma poll_node_sent: "sent_spec S P sent_log \<Longrightarrow> sent_log (swarm (poll_node P t n)) = sent_log (swarm n)"
  by (simp add: poll_node_def sent_spec_def)

lemma node_random_sent:
  assumes "sent_spec S P sent_log" and "node_random P n = (n1, r)"
  shows "sent_log (swarm n1) = sent_log (swarm n) \<and> length r = 32"
proof -
  obtain w where w: "fl_random P (swarm n) = (w, r)" "n1 = n\<lparr>swarm := w\<rparr>"
    using assms(2) by (auto simp: node_random_def split: prod.splits)
  have "sent_log (fst (fl_random P (swarm n))) = sent_log (swarm n) \<and> length (snd (fl_random P (swarm n))) = 32"
    using assms(1) by (simp add: sent_spec_def)
  with w show ?thesis by simp
qed

text \<open>Despite the retries, a transaction is sent exactly once.\<close>

lemma publish_retry_sent:
  assumes "sent_spec S P sent_log"
  shows "publish_retry E S P t attempts n lines = Inr (n', lines') \<Longrightarrow>
    \<exists>b. wire_form E t = Inr b \<and> sent_log (swarm n') = sent_log (swarm n) @ [(TRANSACTIONS_TOPIC_NAME, b)]"
proof (induction "200 - attempts" arbitrary: attempts n lines rule: less_induct)
  case less
  obtain n1 r where p: "publish_transaction E S t n = Inr (n1, r)"
    using less.prems by (subst (asm) publish_retry.simps) (auto split: sum.splits)
  note ob = publish_transaction_sent [OF assms p]
  show ?case
  proof (cases r)
    case (Inr i)
    then have "n' = n1" using less.prems p by (subst (asm) publish_retry.simps) simp
    with ob Inr show ?thesis by simp
  next
    case (Inl e)
    have s1: "sent_log (swarm (poll_node P k n1)) = sent_log (swarm n)" for k using poll_node_sent [OF assms] ob Inl by simp
    obtain k ls where "publish_retry E S P t (attempts + 1) (poll_node P k n1) ls = Inr (n', lines')" "attempts < 200"
      using less.prems p Inl by (subst (asm) publish_retry.simps) (auto split: if_splits)
    with less.hyps [of "attempts + 1" "poll_node P k n1" ls] s1 show ?thesis by simp
  qed
qed

definition flood_sent :: "'z env_scheme \<Rightarrow> bytes \<Rightarrow> u64 \<Rightarrow> u64 \<Rightarrow> Transaction \<Rightarrow> bool" where
  "flood_sent E pk amount nonce t \<longleftrightarrow> tx_type t = Transfer \<and> tx_from t = pk \<and> tx_amount t = amount \<and>
     tx_fee t = FIXED_TRANSACTION_FEE \<and> tx_nonce t = nonce \<and> verify_transaction E t pk = Inr True"

lemma flood_signed:
  assumes "ed25519_spec E" and "length random = 32" and "sender = generate_keypair E random"
    and "sign_transaction E (flood_transaction sender recipient amount nonce) (secret_key sender) = Inr sig"
  shows "flood_sent E (public_key sender) amount nonce ((flood_transaction sender recipient amount nonce)\<lparr>tx_signature := sig\<rparr>)"
  using sign_then_verify [OF assms(1,2), of "flood_transaction sender recipient amount nonce" sig] assms(3,4)
  by (simp add: flood_sent_def flood_transaction_def generate_keypair_def)

lemma flood_loop_sent:
  assumes "sent_spec S P sent_log" and "ed25519_spec E" and "length random = 32" and "sender = generate_keypair E random"
  shows "flood_loop E S P sender amount nonces n lines = Inr (n', lines') \<Longrightarrow>
    \<exists>bs. sent_log (swarm n') = sent_log (swarm n) @ map (Pair TRANSACTIONS_TOPIC_NAME) bs \<and>
      list_all2 (\<lambda>nonce b. \<exists>t. wire_form E t = Inr b \<and> flood_sent E (public_key sender) amount nonce t) nonces bs"
proof (induction nonces arbitrary: n lines)
  case Nil
  then show ?case by simp
next
  case (Cons nonce nonces)
  obtain n1 rnd where r: "node_random P n = (n1, rnd)" by (cases "node_random P n")
  have s1: "sent_log (swarm n1) = sent_log (swarm n)" using node_random_sent [OF assms(1) r] by simp
  let ?tx = "flood_transaction sender (generate_keypair E rnd) amount nonce"
  obtain sig n2 ls where sig: "sign_transaction E ?tx (secret_key sender) = Inr sig"
      and pub: "publish_retry E S P (?tx\<lparr>tx_signature := sig\<rparr>) 0 n1 lines = Inr (n2, ls)"
      and rest: "flood_loop E S P sender amount nonces n2 (ls @ [FloodPublished nonce]) = Inr (n', lines')"
    using Cons.prems r by (auto simp: Let_def result_simps)
  obtain b where b: "wire_form E (?tx\<lparr>tx_signature := sig\<rparr>) = Inr b"
      "sent_log (swarm n2) = sent_log (swarm n1) @ [(TRANSACTIONS_TOPIC_NAME, b)]"
    using publish_retry_sent [OF assms(1) pub] by blast
  obtain bs where bs: "sent_log (swarm n') = sent_log (swarm n2) @ map (Pair TRANSACTIONS_TOPIC_NAME) bs"
      "list_all2 (\<lambda>nonce b. \<exists>t. wire_form E t = Inr b \<and> flood_sent E (public_key sender) amount nonce t) nonces bs"
    using Cons.IH [OF rest] by blast
  have "\<exists>t. wire_form E t = Inr b \<and> flood_sent E (public_key sender) amount nonce t"
    using b(1) flood_signed [OF assms(2-4) sig] by blast
  with b(2) bs s1 show ?case by (intro exI [of _ "b # bs"]) simp
qed

text \<open>
  The command sends what it reports: when publishing succeeds, the swarm has sent exactly
  one message for each nonce from the start, in order and despite the retries, each carrying a
  transfer of the given amount with the fixed fee, all from one key and with valid signatures.
\<close>

theorem flood_sends:
  assumes "sent_spec S P sent_log" and "ed25519_spec E"
    and "flood_publish E S P tx_count start_nonce amount n lines = Inr (n', lines')"
  shows "\<exists>pk bs. sent_log (swarm n') = sent_log (swarm n) @ map (Pair TRANSACTIONS_TOPIC_NAME) bs \<and> length bs = unat tx_count \<and>
    list_all2 (\<lambda>nonce b. \<exists>t. wire_form E t = Inr b \<and> flood_sent E pk amount nonce t) (flood_nonces start_nonce tx_count) bs"
proof -
  obtain n1 rnd where r: "node_random P n = (n1, rnd)" by (cases "node_random P n")
  have s1: "sent_log (swarm n1) = sent_log (swarm n)" and len: "length rnd = 32"
    using node_random_sent [OF assms(1) r] by auto
  obtain ls where loop: "flood_loop E S P (generate_keypair E rnd) amount (flood_nonces start_nonce tx_count) n1 lines = Inr (n', ls)"
    using assms(3) r by (auto simp: flood_publish_def result_simps)
  obtain bs where bs: "sent_log (swarm n') = sent_log (swarm n1) @ map (Pair TRANSACTIONS_TOPIC_NAME) bs"
    "list_all2 (\<lambda>nonce b. \<exists>t. wire_form E t = Inr b \<and> flood_sent E (public_key (generate_keypair E rnd)) amount nonce t)
       (flood_nonces start_nonce tx_count) bs"
    using flood_loop_sent [OF assms(1,2) len refl loop] by blast
  moreover have "length bs = unat tx_count" using list_all2_lengthD [OF bs(2)] by (simp add: flood_nonces_def)
  ultimately show ?thesis using s1 by (intro exI [of _ "public_key (generate_keypair E rnd)"] exI [of _ bs]) simp
qed

section \<open>A sample run\<close>

type_synonym sample_world = "nat \<times> (string \<times> bytes) list"

definition flood_swarm :: "(unit, sample_world, nat, unit, unit) swarm_ops" where
  "flood_swarm = \<lparr>sw_build = (\<lambda>_. Inr (0, [])), sw_parse_address = (\<lambda>_. Inr ()), sw_listen_on = (\<lambda>w _. Inr w),
     sw_add_external_address = (\<lambda>w _. w), sw_dial = (\<lambda>w _. Inr w), sw_local_peer_id = (\<lambda>_. 0),
     sw_publish = (\<lambda>w topic bs. ((fst w, snd w @ [(topic, bs)]), Inr ()))\<rparr>"

definition flood_sample_ops :: "(sample_world, nat) flood_ops" where
  "flood_sample_ops = \<lparr>fl_unsubscribe = (\<lambda>_ w. w), fl_now = fst,
     fl_poll = (\<lambda>t w. ((fst w + t + 1, snd w), Some (ConnectionEstablished 3))), fl_random = (\<lambda>w. (w, replicate 32 1))\<rparr>"

definition flood_sample_node :: "(sample_world, nat) PrimsNode" where
  "flood_sample_node = \<lparr>local_peer_id = 0, swarm = (0, []), config = NetworkConfig_default (\<lambda>_. None),
     node_connection_limits = ConnectionLimits_default, peer_penalties = Map.empty\<rparr>"

lemma flood_sample_specs: "sent_spec flood_swarm flood_sample_ops snd" "clock_advances flood_sample_ops" "ed25519_spec sample_net_env"
  using sample_env_ed25519
  by (simp_all add: sent_spec_def flood_swarm_def flood_sample_ops_def clock_advances_def ed25519_spec_def sample_net_env_def
    env.defs net_env.defs)

lemma flood_sample_publish:
  "\<exists>n' ls. publish_retry sample_net_env flood_swarm flood_sample_ops t 0 n lines = Inr (n', ls)"
proof -
  obtain n' where "publish_transaction sample_net_env flood_swarm t n = Inr (n', Inr ())"
    by (simp add: publish_transaction_def blockchain_transaction_to_network_transaction_def hash_transaction_def
      publish_message_def to_bytes_def sample_net_env_def env.defs net_env.defs sample_env_def field_codec_def message_codec_def
      flood_swarm_def)
  then show ?thesis by (subst publish_retry.simps) simp
qed

lemma flood_sample_loop:
  "\<exists>n' ls. flood_loop sample_net_env flood_swarm flood_sample_ops sender amount nonces n lines = Inr (n', ls)"
proof (induction nonces arbitrary: n lines)
  case (Cons nonce nonces)
  obtain n1 rnd where r: "node_random flood_sample_ops n = (n1, rnd)" by fastforce
  let ?tx = "flood_transaction sender (generate_keypair sample_net_env rnd) amount nonce"
  obtain sig where sig: "sign_transaction sample_net_env ?tx (secret_key sender) = Inr sig"
    by (simp add: sign_transaction_def unsigned_transaction_bytes_def sample_net_env_def env.defs net_env.defs sample_env_def
      field_codec_def)
  obtain n2 ls where "publish_retry sample_net_env flood_swarm flood_sample_ops (?tx\<lparr>tx_signature := sig\<rparr>) 0 n1 lines = Inr (n2, ls)"
    using flood_sample_publish by blast
  with r sig Cons.IH [of n2 "ls @ [FloodPublished nonce]"] show ?case by (simp add: Let_def)
qed simp

theorem flood_sends_witness:
  "\<exists>n' ls pk bs. flood_publish sample_net_env flood_swarm flood_sample_ops 2 7 42 flood_sample_node [] = Inr (n', ls) \<and>
     snd (swarm n') = map (Pair TRANSACTIONS_TOPIC_NAME) bs \<and> length bs = 2 \<and>
     list_all2 (\<lambda>nonce b. \<exists>t. wire_form sample_net_env t = Inr b \<and> flood_sent sample_net_env pk 42 nonce t) [7, 8] bs"
proof -
  obtain n' ls where r: "flood_publish sample_net_env flood_swarm flood_sample_ops 2 7 42 flood_sample_node [] = Inr (n', ls)"
    using flood_sample_loop [of "generate_keypair sample_net_env (snd (node_random flood_sample_ops flood_sample_node))" 42
      "flood_nonces 7 2" "fst (node_random flood_sample_ops flood_sample_node)" "[]"]
    by (cases "node_random flood_sample_ops flood_sample_node") (auto simp: flood_publish_def)
  have "flood_nonces 7 2 = [7, 8]" by (simp add: flood_nonces_def upt_rec)
  with flood_sends [OF flood_sample_specs(1,3) r] r show ?thesis by (auto simp: flood_sample_node_def)
qed

theorem flood_terminates_witness:
  "\<exists>r. flood sample_net_env (\<lambda>_. None) (\<lambda>_. Inl []) flood_swarm flood_sample_ops 3 1 42 ''/ip4/127.0.0.1/tcp/0'' [''seed''] = Some r"
  by (rule flood_terminates [OF flood_sample_specs(2)])

end
