(* ===== verification/Vm.thy ===== *)
theory Vm
  imports Storage
begin

text \<open>
  \<open>src/src/vm/mod.rs\<close>: the WASM virtual machine. The \<open>wasmtime\<close> crate and the
  guest code it runs are a parameter: a record \<open>wasmtime\<close> with the operations the code
  calls. A guest is run in steps, each up to its next host call, its return or a trap; the
  eleven host functions of \<open>build_linker\<close> are modelled in full, with the guest memory
  they read and write. Signed WASM integers are words read with \<open>sint\<close>.
\<close>

section \<open>Configuration and state\<close>

definition DEFAULT_WASM_FUEL_LIMIT :: u64 where
  "DEFAULT_WASM_FUEL_LIMIT = 100000"

record WasmGasConfig =
  gas_fuel_limit :: u64

definition WasmGasConfig_default :: WasmGasConfig where
  "WasmGasConfig_default = \<lparr>gas_fuel_limit = DEFAULT_WASM_FUEL_LIMIT\<rparr>"

record WasmExecutionContext =
  ctx_contract_address :: bytes
  ctx_caller :: bytes
  ctx_block_height :: u64
  ctx_shard_id :: u16

record ContractEvent =
  ev_contract_address :: bytes
  ev_name :: bytes
  ev_data :: bytes
  ev_block_height :: u64

record WasmVM =
  vm_context :: WasmExecutionContext
  vm_pending_transfers :: "Transaction list"
  vm_emitted_events :: "ContractEvent list"
  vm_staged_storage_writes :: "(bytes \<times> bytes) list"
  vm_gas_config :: WasmGasConfig

datatype vm_error =
    FuelLimitZero
  | ContractAddressRequired string
  | ContractAccountMissing
  | ContractAccountRequired string
  | RecipientRequired
  | TransferOverflow
  | InsufficientContractBalance u64 u64
  | SenderNonceOverflow
  | EmptyEventName
  | MemoryExportRequired
  | NegativeMemoryOffset
  | MemoryRangeOverflow
  | MemoryOutOfBounds
  | LengthExceedsI32 string
  | BalanceExceedsI64
  | NegativeTransferAmount
  | EmptyMethod
  | ContractMissing
  | FunctionUnresolved string string
  | GuestTrap string
  | EngineError string
  | StorageError storage_error

section \<open>The virtual machine\<close>

definition with_context :: "WasmExecutionContext \<Rightarrow> WasmVM" where
  "with_context ctx = \<lparr>vm_context = ctx, vm_pending_transfers = [], vm_emitted_events = [],
     vm_staged_storage_writes = [], vm_gas_config = WasmGasConfig_default\<rparr>"

definition WasmVM_new :: WasmVM where
  "WasmVM_new = with_context \<lparr>ctx_contract_address = [], ctx_caller = [], ctx_block_height = 0, ctx_shard_id = 0\<rparr>"

definition fuel_limit :: "WasmVM \<Rightarrow> u64" where
  "fuel_limit vm = gas_fuel_limit (vm_gas_config vm)"

definition set_fuel_limit :: "u64 \<Rightarrow> WasmVM \<Rightarrow> (WasmVM, vm_error) result" where
  "set_fuel_limit limit vm =
     (if limit = 0 then Inl FuelLimitZero else Inr (vm\<lparr>vm_gas_config := (vm_gas_config vm)\<lparr>gas_fuel_limit := limit\<rparr>\<rparr>))"

definition set_context :: "WasmExecutionContext \<Rightarrow> WasmVM \<Rightarrow> WasmVM" where
  "set_context ctx vm = vm\<lparr>vm_context := ctx\<rparr>"

definition require_contract_address :: "WasmVM \<Rightarrow> string \<Rightarrow> (bytes, vm_error) result" where
  "require_contract_address vm operation =
     (if ctx_contract_address (vm_context vm) = [] then Inl (ContractAddressRequired operation)
      else Inr (ctx_contract_address (vm_context vm)))"

definition require_contract_account ::
  "'z env_scheme \<Rightarrow> WasmVM \<Rightarrow> 'd RocksDbStorage \<Rightarrow> string \<Rightarrow> (Account, vm_error) result" where
  "require_contract_account E vm storage operation =
     and_then (require_contract_address vm operation) (\<lambda>contract_address.
     and_then (map_err StorageError (get_account E contract_address storage)) (\<lambda>found.
     and_then (ok_or ContractAccountMissing found) (\<lambda>account.
       if a_code_hash account = None then Inl (ContractAccountRequired operation) else Inr account)))"

definition get_balance :: "'z env_scheme \<Rightarrow> 'd RocksDbStorage \<Rightarrow> bytes \<Rightarrow> (u64, vm_error) result" where
  "get_balance E storage address =
     and_then (map_err StorageError (get_account E address storage)) (\<lambda>found.
       Inr (case found of Some account \<Rightarrow> a_balance account | None \<Rightarrow> 0))"

definition vm_transfer :: "'z env_scheme \<Rightarrow> 'd RocksDbStorage \<Rightarrow> bytes \<Rightarrow> u64 \<Rightarrow> bytes option \<Rightarrow> WasmVM
    \<Rightarrow> (WasmVM \<times> Transaction, vm_error) result" where
  "vm_transfer E storage to amount data vm =
     and_then (require_contract_address vm ''transfer'') (\<lambda>_.
     if to = [] then Inl RecipientRequired else
     and_then (require_contract_account E vm storage ''transfer'') (\<lambda>sender.
     and_then (ok_or TransferOverflow (checked_add amount FIXED_TRANSACTION_FEE)) (\<lambda>required.
     if a_balance sender < required then Inl (InsufficientContractBalance (a_balance sender) required) else
     and_then (ok_or SenderNonceOverflow (checked_add (a_nonce sender) 1)) (\<lambda>next_nonce.
     let transaction = \<lparr>tx_type = Transfer, tx_from = ctx_contract_address (vm_context vm), tx_to = to,
           tx_amount = amount, tx_fee = FIXED_TRANSACTION_FEE, tx_nonce = next_nonce,
           tx_source_shard = ctx_shard_id (vm_context vm), tx_destination_shard = ctx_shard_id (vm_context vm),
           tx_signature = [], tx_data = data\<rparr> in
     Inr (vm\<lparr>vm_pending_transfers := vm_pending_transfers vm @ [transaction]\<rparr>, transaction)))))"

definition get_caller :: "WasmVM \<Rightarrow> bytes" where
  "get_caller vm = ctx_caller (vm_context vm)"

definition get_block_height :: "WasmVM \<Rightarrow> u64" where
  "get_block_height vm = ctx_block_height (vm_context vm)"

definition set_storage :: "'z env_scheme \<Rightarrow> 'd RocksDbStorage \<Rightarrow> bytes \<Rightarrow> bytes \<Rightarrow> WasmVM \<Rightarrow> (WasmVM, vm_error) result" where
  "set_storage E storage key value vm =
     and_then (require_contract_address vm ''storage access'') (\<lambda>_.
     and_then (require_contract_account E vm storage ''storage access'') (\<lambda>_.
       Inr (vm\<lparr>vm_staged_storage_writes := btree_insert key value (vm_staged_storage_writes vm)\<rparr>)))"

definition get_storage :: "'z env_scheme \<Rightarrow> 'd RocksDbStorage \<Rightarrow> bytes \<Rightarrow> WasmVM \<Rightarrow> (bytes option, vm_error) result" where
  "get_storage E storage key vm =
     and_then (require_contract_address vm ''storage access'') (\<lambda>contract_address.
     and_then (require_contract_account E vm storage ''storage access'') (\<lambda>_.
       case map_of (vm_staged_storage_writes vm) key of
         Some value \<Rightarrow> Inr (Some value)
       | None \<Rightarrow> map_err StorageError (get_contract_storage E contract_address key storage)))"

definition emit_event :: "bytes \<Rightarrow> bytes \<Rightarrow> WasmVM \<Rightarrow> (WasmVM, vm_error) result" where
  "emit_event name data vm =
     and_then (require_contract_address vm ''emit_event'') (\<lambda>_.
       if name = [] then Inl EmptyEventName
       else Inr (vm\<lparr>vm_emitted_events := vm_emitted_events vm @
         [\<lparr>ev_contract_address = ctx_contract_address (vm_context vm), ev_name = name, ev_data = data,
           ev_block_height = ctx_block_height (vm_context vm)\<rparr>]\<rparr>))"

definition take_staged_storage_writes :: "WasmVM \<Rightarrow> WasmVM \<times> (bytes \<times> bytes) list" where
  "take_staged_storage_writes vm = (vm\<lparr>vm_staged_storage_writes := []\<rparr>, vm_staged_storage_writes vm)"

definition take_pending_transfers :: "WasmVM \<Rightarrow> WasmVM \<times> Transaction list" where
  "take_pending_transfers vm = (vm\<lparr>vm_pending_transfers := []\<rparr>, vm_pending_transfers vm)"

definition take_emitted_events :: "WasmVM \<Rightarrow> WasmVM \<times> ContractEvent list" where
  "take_emitted_events vm = (vm\<lparr>vm_emitted_events := []\<rparr>, vm_emitted_events vm)"

section \<open>The WASM engine\<close>

text \<open>
  The imports a guest can call, with their arguments, and the values they return. The export
  named \<open>memory\<close> may be a memory or something else.
\<close>

datatype host_call =
    GetBlockHeight
  | GetCallerLen
  | CopyCaller u32
  | GetParamsLen
  | CopyParams u32
  | GetBalance u32 u32
  | SetStorage u32 u32 u32 u32
  | GetStorageLen u32 u32
  | CopyStorage u32 u32 u32
  | EmitEvent u32 u32 u32 u32
  | TransferTo u32 u32 u64

datatype host_value = I32 u32 | I64 u64 | NoValue

datatype extern = Memory bytes | OtherExtern

datatype guest_event = Returned | Trapped string | Calls host_call

text \<open>
  The \<open>Config\<close> of an engine and the \<open>Store\<close> of a guest, as far as fuel is concerned: a new
  configuration does not meter fuel, a new store has none, and the fuel of a store can be set
  and read only when its engine meters fuel; otherwise both operations fail.
\<close>

record wasm_config =
  consume_fuel :: bool

definition Config_new :: wasm_config where
  "Config_new = \<lparr>consume_fuel = False\<rparr>"

record wasm_store =
  store_engine :: wasm_config
  store_fuel :: u64

definition Store_new :: "wasm_config \<Rightarrow> wasm_store" where
  "Store_new eng = \<lparr>store_engine = eng, store_fuel = 0\<rparr>"

definition store_set_fuel :: "u64 \<Rightarrow> wasm_store \<Rightarrow> string + wasm_store" where
  "store_set_fuel fuel store =
     (if consume_fuel (store_engine store) then Inr (store\<lparr>store_fuel := fuel\<rparr>) else Inl ''fuel is not configured in this store'')"

definition store_get_fuel :: "wasm_store \<Rightarrow> string + u64" where
  "store_get_fuel store =
     (if consume_fuel (store_engine store) then Inr (store_fuel store) else Inl ''fuel is not configured in this store'')"

text \<open>
  The operations of wasmtime. A guest runs only in a store whose fuel was set, so in one that
  meters fuel: \<open>wt_step\<close> takes the fuel of the store and returns what is left of it.
\<close>

record ('m, 'g) wasmtime =
  wt_engine_new :: "wasm_config \<Rightarrow> string + unit"
  wt_module_new :: "bytes \<Rightarrow> string + 'm"
  wt_link :: "string + unit"
  wt_instantiate :: "'m \<Rightarrow> string + 'g"
  wt_get_typed_func :: "'g \<Rightarrow> string \<Rightarrow> string + 'g"
  wt_step :: "'g \<Rightarrow> u64 \<Rightarrow> 'g \<times> u64 \<times> guest_event"
  wt_answer :: "'g \<Rightarrow> host_value \<Rightarrow> 'g"
  wt_export_memory :: "'g \<Rightarrow> extern option"
  wt_set_memory :: "'g \<Rightarrow> bytes \<Rightarrow> 'g"

text \<open>
  What the code relies on: fuel metering. Running the guest never adds fuel, and a step that
  reaches a host call has executed the call instruction, which costs fuel.
\<close>

definition fuel_spec :: "('m, 'g) wasmtime \<Rightarrow> bool" where
  "fuel_spec W \<longleftrightarrow> (\<forall>g fuel. case wt_step W g fuel of (g', fuel', ev) \<Rightarrow>
     fuel' \<le> fuel \<and> (case ev of Calls _ \<Rightarrow> fuel' < fuel | _ \<Rightarrow> True))"

section \<open>Metered stores\<close>

definition metered_engine :: "('m, 'g) wasmtime \<Rightarrow> (wasm_config, vm_error) result" where
  "metered_engine W =
     (let config = Config_new\<lparr>consume_fuel := True\<rparr> in
      and_then (map_err EngineError (wt_engine_new W config)) (\<lambda>_. Inr config))"

definition new_metered_store :: "('m, 'g) wasmtime \<Rightarrow> WasmVM \<Rightarrow> (wasm_store, vm_error) result" where
  "new_metered_store W vm =
     and_then (metered_engine W) (\<lambda>eng. map_err EngineError (store_set_fuel (fuel_limit vm) (Store_new eng)))"

definition remaining_fuel :: "wasm_store \<Rightarrow> (u64, vm_error) result" where
  "remaining_fuel store = map_err EngineError (store_get_fuel store)"

lemma new_metered_store_Inr:
  "new_metered_store W vm = Inr store \<longleftrightarrow> wt_engine_new W \<lparr>consume_fuel = True\<rparr> = Inr () \<and>
     store = \<lparr>store_engine = \<lparr>consume_fuel = True\<rparr>, store_fuel = fuel_limit vm\<rparr>"
  by (cases "wt_engine_new W \<lparr>consume_fuel = True\<rparr>")
    (auto simp: new_metered_store_def metered_engine_def Config_new_def Store_new_def store_set_fuel_def Let_def)

section \<open>Guest memory\<close>

definition memory_from_caller :: "('m, 'g) wasmtime \<Rightarrow> 'g \<Rightarrow> (bytes, vm_error) result" where
  "memory_from_caller W g =
     (case wt_export_memory W g of
        Some (Memory data) \<Rightarrow> Inr data
      | _ \<Rightarrow> Inl MemoryExportRequired)"

definition read_memory :: "('m, 'g) wasmtime \<Rightarrow> 'g \<Rightarrow> u32 \<Rightarrow> u32 \<Rightarrow> (bytes, vm_error) result" where
  "read_memory W g ptr len =
     (if sint ptr < 0 \<or> sint len < 0 then Inl NegativeMemoryOffset else
      let p = nat (sint ptr); n = nat (sint len) in
      if 2 ^ 64 \<le> p + n then Inl MemoryRangeOverflow else
      and_then (memory_from_caller W g) (\<lambda>data.
        if length data < p + n then Inl MemoryOutOfBounds
        else Inr (take n (drop p data))))"

definition write_memory :: "('m, 'g) wasmtime \<Rightarrow> u32 \<Rightarrow> bytes \<Rightarrow> 'g \<Rightarrow> ('g, vm_error) result" where
  "write_memory W ptr bs g =
     (if sint ptr < 0 then Inl NegativeMemoryOffset else
      let p = nat (sint ptr) in
      if 2 ^ 64 \<le> p + length bs then Inl MemoryRangeOverflow else
      and_then (memory_from_caller W g) (\<lambda>data.
        if length data < p + length bs then Inl MemoryOutOfBounds
        else Inr (wt_set_memory W g (take p data @ bs @ drop (p + length bs) data))))"

text \<open>\<open>i32::try_from\<close> of a length and \<open>i64::try_from\<close> of a \<open>u64\<close>.\<close>

definition i32_len :: "string \<Rightarrow> nat \<Rightarrow> (u32, vm_error) result" where
  "i32_len what n = (if n < 2 ^ 31 then Inr (of_nat n) else Inl (LengthExceedsI32 what))"

definition i64_balance :: "u64 \<Rightarrow> (u64, vm_error) result" where
  "i64_balance b = (if unat b < 2 ^ 63 then Inr b else Inl BalanceExceedsI64)"

section \<open>Host functions\<close>

text \<open>A host function returns the machine, the guest with its memory and the value for the guest.\<close>

type_synonym 'g host_result = "(WasmVM \<times> 'g \<times> host_value, vm_error) result"

definition host_get_block_height :: "WasmVM \<Rightarrow> 'g \<Rightarrow> 'g host_result" where
  "host_get_block_height vm g =
     Inr (vm, g, I64 (get_block_height vm))"

definition host_get_caller_len :: "WasmVM \<Rightarrow> 'g \<Rightarrow> 'g host_result" where
  "host_get_caller_len vm g =
     and_then (i32_len ''caller'' (length (get_caller vm))) (\<lambda>n. Inr (vm, g, I32 n))"

definition host_copy_caller :: "('m, 'g) wasmtime \<Rightarrow> WasmVM \<Rightarrow> 'g \<Rightarrow> u32 \<Rightarrow> 'g host_result" where
  "host_copy_caller W vm g out_ptr =
     and_then (write_memory W out_ptr (get_caller vm) g) (\<lambda>g'.
     and_then (i32_len ''caller'' (length (get_caller vm))) (\<lambda>n. Inr (vm, g', I32 n)))"

definition host_get_params_len :: "bytes \<Rightarrow> WasmVM \<Rightarrow> 'g \<Rightarrow> 'g host_result" where
  "host_get_params_len params vm g =
     and_then (i32_len ''params'' (length params)) (\<lambda>n. Inr (vm, g, I32 n))"

definition host_copy_params :: "('m, 'g) wasmtime \<Rightarrow> bytes \<Rightarrow> WasmVM \<Rightarrow> 'g \<Rightarrow> u32 \<Rightarrow> 'g host_result" where
  "host_copy_params W params vm g out_ptr =
     and_then (write_memory W out_ptr params g) (\<lambda>g'.
     and_then (i32_len ''params'' (length params)) (\<lambda>n. Inr (vm, g', I32 n)))"

definition host_get_balance :: "('m, 'g) wasmtime \<Rightarrow> 'z env_scheme \<Rightarrow> 'd RocksDbStorage \<Rightarrow> WasmVM \<Rightarrow> 'g \<Rightarrow> u32 \<Rightarrow> u32 \<Rightarrow> 'g host_result" where
  "host_get_balance W E storage vm g address_ptr address_len =
     and_then (read_memory W g address_ptr address_len) (\<lambda>address.
     and_then (get_balance E storage address) (\<lambda>balance.
     and_then (i64_balance balance) (\<lambda>b. Inr (vm, g, I64 b))))"

definition host_set_storage :: "('m, 'g) wasmtime \<Rightarrow> 'z env_scheme \<Rightarrow> 'd RocksDbStorage \<Rightarrow> WasmVM \<Rightarrow> 'g \<Rightarrow> u32 \<Rightarrow> u32 \<Rightarrow> u32 \<Rightarrow> u32 \<Rightarrow> 'g host_result" where
  "host_set_storage W E storage vm g key_ptr key_len value_ptr value_len =
     and_then (read_memory W g key_ptr key_len) (\<lambda>key.
     and_then (read_memory W g value_ptr value_len) (\<lambda>value.
     and_then (set_storage E storage key value vm) (\<lambda>vm'. Inr (vm', g, NoValue))))"

definition host_get_storage_len :: "('m, 'g) wasmtime \<Rightarrow> 'z env_scheme \<Rightarrow> 'd RocksDbStorage \<Rightarrow> WasmVM \<Rightarrow> 'g \<Rightarrow> u32 \<Rightarrow> u32 \<Rightarrow> 'g host_result" where
  "host_get_storage_len W E storage vm g key_ptr key_len =
     and_then (read_memory W g key_ptr key_len) (\<lambda>key.
     and_then (get_storage E storage key vm) (\<lambda>found.
       case found of
         Some value \<Rightarrow> and_then (i32_len ''storage value'' (length value)) (\<lambda>n. Inr (vm, g, I32 n))
       | None \<Rightarrow> Inr (vm, g, I32 (- 1))))"

definition host_copy_storage :: "('m, 'g) wasmtime \<Rightarrow> 'z env_scheme \<Rightarrow> 'd RocksDbStorage \<Rightarrow> WasmVM \<Rightarrow> 'g \<Rightarrow> u32 \<Rightarrow> u32 \<Rightarrow> u32 \<Rightarrow> 'g host_result" where
  "host_copy_storage W E storage vm g key_ptr key_len out_ptr =
     and_then (read_memory W g key_ptr key_len) (\<lambda>key.
     and_then (get_storage E storage key vm) (\<lambda>found.
       case found of
         Some value \<Rightarrow>
           and_then (i32_len ''storage value'' (length value)) (\<lambda>n.
           and_then (write_memory W out_ptr value g) (\<lambda>g'. Inr (vm, g', I32 n)))
       | None \<Rightarrow> Inr (vm, g, I32 (- 1))))"

definition host_emit_event :: "('m, 'g) wasmtime \<Rightarrow> WasmVM \<Rightarrow> 'g \<Rightarrow> u32 \<Rightarrow> u32 \<Rightarrow> u32 \<Rightarrow> u32 \<Rightarrow> 'g host_result" where
  "host_emit_event W vm g name_ptr name_len data_ptr data_len =
     and_then (read_memory W g name_ptr name_len) (\<lambda>name.
     and_then (read_memory W g data_ptr data_len) (\<lambda>data.
     and_then (emit_event name data vm) (\<lambda>vm'. Inr (vm', g, NoValue))))"

definition host_transfer :: "('m, 'g) wasmtime \<Rightarrow> 'z env_scheme \<Rightarrow> 'd RocksDbStorage \<Rightarrow> WasmVM \<Rightarrow> 'g \<Rightarrow> u32 \<Rightarrow> u32 \<Rightarrow> u64 \<Rightarrow> 'g host_result" where
  "host_transfer W E storage vm g to_ptr to_len amount =
     (if sint amount < 0 then Inl NegativeTransferAmount else
      and_then (read_memory W g to_ptr to_len) (\<lambda>to.
      and_then (vm_transfer E storage to amount None vm) (\<lambda>(vm', tx). Inr (vm', g, NoValue))))"

text \<open>\<open>build_linker\<close>: the imports of the module \<open>prims\<close>.\<close>

fun call_host :: "('m, 'g) wasmtime \<Rightarrow> 'z env_scheme \<Rightarrow> 'd RocksDbStorage \<Rightarrow> bytes \<Rightarrow> WasmVM \<Rightarrow> 'g \<Rightarrow> host_call
    \<Rightarrow> 'g host_result" where
  "call_host W E storage params vm g GetBlockHeight = host_get_block_height vm g"
| "call_host W E storage params vm g GetCallerLen = host_get_caller_len vm g"
| "call_host W E storage params vm g (CopyCaller out_ptr) = host_copy_caller W vm g out_ptr"
| "call_host W E storage params vm g GetParamsLen = host_get_params_len params vm g"
| "call_host W E storage params vm g (CopyParams out_ptr) = host_copy_params W params vm g out_ptr"
| "call_host W E storage params vm g (GetBalance address_ptr address_len) = host_get_balance W E storage vm g address_ptr address_len"
| "call_host W E storage params vm g (SetStorage key_ptr key_len value_ptr value_len) = host_set_storage W E storage vm g key_ptr key_len value_ptr value_len"
| "call_host W E storage params vm g (GetStorageLen key_ptr key_len) = host_get_storage_len W E storage vm g key_ptr key_len"
| "call_host W E storage params vm g (CopyStorage key_ptr key_len out_ptr) = host_copy_storage W E storage vm g key_ptr key_len out_ptr"
| "call_host W E storage params vm g (EmitEvent name_ptr name_len data_ptr data_len) = host_emit_event W vm g name_ptr name_len data_ptr data_len"
| "call_host W E storage params vm g (TransferTo to_ptr to_len amount) = host_transfer W E storage vm g to_ptr to_len amount"

text \<open>
  Running a guest until it returns or traps: the engine runs it up to the next host call, the
  host function runs, and the guest is resumed with its value. Nothing bounds the loop but the
  fuel; \<open>None\<close> would be a guest that runs for ever.
\<close>

partial_function (option) run_guest :: "('m, 'g) wasmtime \<Rightarrow> 'z env_scheme \<Rightarrow> 'd RocksDbStorage \<Rightarrow> bytes \<Rightarrow> WasmVM
    \<Rightarrow> 'g \<Rightarrow> u64 \<Rightarrow> (WasmVM \<times> 'g \<times> u64, vm_error) result option" where
  "run_guest W E storage params vm g fuel =
     (case wt_step W g fuel of (g1, fuel1, ev) \<Rightarrow>
        (case ev of
           Returned \<Rightarrow> Some (Inr (vm, g1, fuel1))
         | Trapped message \<Rightarrow> Some (Inl (GuestTrap message))
         | Calls c \<Rightarrow>
             (case call_host W E storage params vm g1 c of
                Inl e \<Rightarrow> Some (Inl e)
              | Inr (vm', g2, v) \<Rightarrow> run_guest W E storage params vm' (wt_answer W g2 v) fuel1)))"

section \<open>Contract calls\<close>

record WasmExecutionOutcome =
  out_remaining_fuel :: u64
  out_pending_transfers :: "Transaction list"
  out_emitted_events :: "ContractEvent list"

text \<open>Everything before the guest runs: the checks, the store, the module.\<close>

definition prepare_call :: "('m, 'g) wasmtime \<Rightarrow> 'z env_scheme \<Rightarrow> 'd RocksDbStorage \<Rightarrow> WasmExecutionContext \<Rightarrow> string
    \<Rightarrow> u64 \<Rightarrow> (WasmVM \<times> wasm_store \<times> 'g, vm_error) result" where
  "prepare_call W E storage ctx method limit =
     (if trim method = [] then Inl EmptyMethod else
      and_then (map_err StorageError (get_contract E (ctx_contract_address ctx) storage)) (\<lambda>found.
      and_then (ok_or ContractMissing found) (\<lambda>contract.
      and_then (set_fuel_limit limit (with_context ctx)) (\<lambda>vm.
      and_then (require_contract_account E vm storage ''contract execution'') (\<lambda>_.
      and_then (new_metered_store W vm) (\<lambda>store.
      and_then (map_err EngineError (wt_module_new W (c_code_wasm contract))) (\<lambda>module.
      and_then (map_err EngineError (wt_link W)) (\<lambda>_.
      and_then (map_err EngineError (wt_instantiate W module)) (\<lambda>g. Inr (vm, store, g))))))))))"

text \<open>
  Instantiation runs the start function of the module, if it has one, before the entry point
  is resolved: the guest runs twice on the same fuel.
\<close>

definition call_guest :: "('m, 'g) wasmtime \<Rightarrow> 'z env_scheme \<Rightarrow> 'd RocksDbStorage \<Rightarrow> string \<Rightarrow> bytes \<Rightarrow> WasmVM \<Rightarrow> wasm_store
    \<Rightarrow> 'g \<Rightarrow> (WasmVM \<times> wasm_store, vm_error) result option" where
  "call_guest W E storage method params vm store g =
     (case run_guest W E storage params vm g (store_fuel store) of
        None \<Rightarrow> None
      | Some (Inl e) \<Rightarrow> Some (Inl e)
      | Some (Inr (vm1, g1, fuel1)) \<Rightarrow>
          (case wt_get_typed_func W g1 method of
             Inl e \<Rightarrow> Some (Inl (FunctionUnresolved method e))
           | Inr entry \<Rightarrow>
               (case run_guest W E storage params vm1 entry fuel1 of
                  None \<Rightarrow> None
                | Some (Inl e) \<Rightarrow> Some (Inl e)
                | Some (Inr (vm2, g2, fuel2)) \<Rightarrow> Some (Inr (vm2, store\<lparr>store_fuel := fuel2\<rparr>)))))"

text \<open>The storage is committed before the remaining fuel is read.\<close>

definition execute_contract_call :: "('m, 'g) wasmtime \<Rightarrow> 'z env_scheme \<Rightarrow> WasmExecutionContext \<Rightarrow> string \<Rightarrow> bytes \<Rightarrow> u64
    \<Rightarrow> 'd RocksDbStorage \<Rightarrow> ('d RocksDbStorage \<times> (WasmExecutionOutcome, vm_error) result) option" where
  "execute_contract_call W E ctx method params limit storage =
     (case prepare_call W E storage ctx method limit of
        Inl e \<Rightarrow> Some (storage, Inl e)
      | Inr (vm, store, g) \<Rightarrow>
          (case call_guest W E storage method params vm store g of
             None \<Rightarrow> None
           | Some (Inl e) \<Rightarrow> Some (storage, Inl e)
           | Some (Inr (vm1, store1)) \<Rightarrow>
               let (vm2, writes) = take_staged_storage_writes vm1 in
               (case commit_contract_storage_batch E (ctx_contract_address ctx) writes storage of
                  (storage', Inl e) \<Rightarrow> Some (storage', Inl (StorageError e))
                | (storage', Inr _) \<Rightarrow>
                    (case store_get_fuel store1 of
                       Inl e \<Rightarrow> Some (storage', Inl (EngineError e))
                     | Inr remaining \<Rightarrow>
                         let (vm3, transfers) = take_pending_transfers vm2;
                             (vm4, events) = take_emitted_events vm3 in
                         Some (storage', Inr \<lparr>out_remaining_fuel = remaining, out_pending_transfers = transfers,
                           out_emitted_events = events\<rparr>)))))"

end
