(* ===== verification/VmLaws.thy ===== *)
theory VmLaws
  imports Vm ContractStorage
begin

text \<open>
  What a contract call guarantees, whatever the guest does: it ends when fuel is metered, it
  leaves the storage untouched when it fails, it touches only its own contract when it
  succeeds, and everything it hands to the node is well formed.
\<close>

section \<open>Induction over a run\<close>

lemma run_guest_induct [consumes 1, case_names returned trapped failed calls]:
  fixes W :: "('m, 'g) wasmtime" and E :: "'z env_scheme" and storage :: "'d RocksDbStorage"
  assumes run: "run_guest W E storage params vm g fuel = Some r"
    and returned: "\<And>vm g fuel g1 fuel1. wt_step W g fuel = (g1, fuel1, Returned) \<Longrightarrow> P vm fuel (Inr (vm, g1, fuel1))"
    and trapped: "\<And>vm g fuel g1 fuel1 m. wt_step W g fuel = (g1, fuel1, Trapped m) \<Longrightarrow> P vm fuel (Inl (GuestTrap m))"
    and failed: "\<And>vm g fuel g1 fuel1 c e. wt_step W g fuel = (g1, fuel1, Calls c) \<Longrightarrow>
        call_host W E storage params vm g1 c = Inl e \<Longrightarrow> P vm fuel (Inl e)"
    and calls: "\<And>vm g fuel g1 fuel1 c vm' g2 v r. wt_step W g fuel = (g1, fuel1, Calls c) \<Longrightarrow>
        call_host W E storage params vm g1 c = Inr (vm', g2, v) \<Longrightarrow> P vm' fuel1 r \<Longrightarrow> P vm fuel r"
  shows "P vm fuel r"
proof -
  have "W = W \<longrightarrow> E = E \<longrightarrow> storage = storage \<longrightarrow> params = params \<longrightarrow> P vm fuel r"
  proof (rule run_guest.raw_induct [where P = "\<lambda>W' E' s' p' vm g fuel r.
      W' = W \<longrightarrow> E' = E \<longrightarrow> s' = storage \<longrightarrow> p' = params \<longrightarrow> P vm fuel r", OF _ run], intro impI)
    fix run W' and E' :: "'z env_scheme" and s' p' vm g fuel r
    assume IH: "\<And>W' E' s' p' vm g fuel r. run W' E' s' p' vm g fuel = Some r \<Longrightarrow>
        W' = W \<longrightarrow> E' = E \<longrightarrow> s' = storage \<longrightarrow> p' = params \<longrightarrow> P vm fuel r"
      and step: "(case wt_step W' g fuel of
        (g1, fuel1, Returned) \<Rightarrow> Some (Inr (vm, g1, fuel1))
        | (g1, fuel1, Trapped message) \<Rightarrow> Some (Inl (GuestTrap message))
        | (g1, fuel1, Calls c) \<Rightarrow>
            case call_host W' E' s' p' vm g1 c of
            Inl e \<Rightarrow> Some (Inl e)
            | Inr (vm', g2, v) \<Rightarrow> run W' E' s' p' vm' (wt_answer W' g2 v) fuel1) = Some r"
      and eqs: "W' = W" "E' = E" "s' = storage" "p' = params"
    obtain g1 fuel1 ev where ws: "wt_step W g fuel = (g1, fuel1, ev)" by (cases "wt_step W g fuel") auto
    show "P vm fuel r"
    proof (cases ev)
      case Returned
      with step ws eqs returned show ?thesis by auto
    next
      case (Trapped m)
      with step ws eqs trapped show ?thesis by auto
    next
      case (Calls c)
      show ?thesis
      proof (cases "call_host W E storage params vm g1 c")
        case (Inl e)
        with step ws eqs Calls failed show ?thesis by auto
      next
        case (Inr x)
        obtain vm' g2 v where x: "x = (vm', g2, v)" by (cases x) auto
        have "run W E storage params vm' (wt_answer W g2 v) fuel1 = Some r"
          using step ws eqs Calls Inr x by simp
        then have "P vm' fuel1 r" using IH by blast
        with calls [of g fuel g1 fuel1 c vm vm' g2 v r] ws Calls Inr x show ?thesis by simp
      qed
    qed
  qed
  then show ?thesis by simp
qed

section \<open>Invariants of the host functions\<close>

text \<open>
  Guests change the machine only through three operations. A predicate that these preserve is
  preserved by every host call and by every run of a guest.
\<close>

locale host_invariant =
  fixes E :: "'z env_scheme" and storage :: "'d RocksDbStorage" and I :: "WasmVM \<Rightarrow> bool"
  assumes set_storage_keeps: "I vm \<Longrightarrow> set_storage E storage k v vm = Inr vm' \<Longrightarrow> I vm'"
    and emit_event_keeps: "I vm \<Longrightarrow> emit_event n d vm = Inr vm' \<Longrightarrow> I vm'"
    and transfer_keeps: "I vm \<Longrightarrow> vm_transfer E storage to a data vm = Inr (vm', tx) \<Longrightarrow> I vm'"
begin

lemma call_host_keeps: "I vm \<Longrightarrow> call_host W E storage params vm g c = Inr (vm', g', v) \<Longrightarrow> I vm'"
  by (cases c)
    (auto simp: host_get_block_height_def host_get_caller_len_def host_copy_caller_def host_get_params_len_def
      host_copy_params_def host_get_balance_def host_set_storage_def host_get_storage_len_def host_copy_storage_def
      host_emit_event_def host_transfer_def result_simps
      split: option.splits if_splits prod.splits dest: set_storage_keeps emit_event_keeps transfer_keeps)

lemma run_guest_keeps:
  assumes "run_guest W E storage params vm g fuel = Some (Inr (vm', g', fuel'))" and "I vm"
  shows "I vm'"
proof -
  have "I vm \<longrightarrow> (\<forall>vm' g' fuel'. r = Inr (vm', g', fuel') \<longrightarrow> I vm')"
    if "run_guest W E storage params vm g fuel = Some r" for r
    using that by (induction rule: run_guest_induct) (auto dest: call_host_keeps)
  with assms show ?thesis by blast
qed

lemma call_guest_keeps:
  "call_guest W E storage meth params vm store g = Some (Inr (vm', store')) \<Longrightarrow> I vm \<Longrightarrow> I vm'"
  by (auto simp: call_guest_def split: option.splits sum.splits prod.splits dest!: run_guest_keeps)

end

section \<open>Termination\<close>

lemma fuel_specD:
  assumes "fuel_spec W" and "wt_step W g fuel = (g1, fuel1, ev)"
  shows "fuel1 \<le> fuel" and "ev = Calls c \<Longrightarrow> fuel1 < fuel"
proof -
  have "case wt_step W g fuel of (g', fuel', ev) \<Rightarrow> fuel' \<le> fuel \<and> (case ev of Calls _ \<Rightarrow> fuel' < fuel | _ \<Rightarrow> True)"
    using assms(1) [unfolded fuel_spec_def, THEN spec, THEN spec] .
  with assms(2) show "fuel1 \<le> fuel" and "ev = Calls c \<Longrightarrow> fuel1 < fuel" by simp_all
qed

lemma run_guest_returns:
  assumes "fuel_spec W"
  shows "\<exists>r. run_guest W E storage params vm g fuel = Some r \<and>
    (case r of Inr (vm', g', fuel') \<Rightarrow> fuel' \<le> fuel | Inl e \<Rightarrow> True)"
proof (induction "unat fuel" arbitrary: vm g fuel rule: less_induct)
  case less
  obtain g1 fuel1 ev where ws: "wt_step W g fuel = (g1, fuel1, ev)" by (cases "wt_step W g fuel") auto
  have le: "fuel1 \<le> fuel" using fuel_specD(1) [OF assms ws] .
  show ?case
  proof (cases ev)
    case (Calls c)
    have lt: "fuel1 < fuel" using fuel_specD(2) [OF assms ws Calls] .
    show ?thesis
    proof (cases "call_host W E storage params vm g1 c")
      case (Inl e)
      with ws Calls show ?thesis by (simp add: run_guest.simps [of W E storage params vm g fuel])
    next
      case (Inr x)
      obtain vm' g2 v where x: "x = (vm', g2, v)" by (cases x) auto
      obtain r where r: "run_guest W E storage params vm' (wt_answer W g2 v) fuel1 = Some r"
        "case r of Inr (vm', g', fuel') \<Rightarrow> fuel' \<le> fuel1 | Inl e \<Rightarrow> True"
        using less [of fuel1 vm' "wt_answer W g2 v"] lt by (auto simp: word_less_nat_alt)
      from r(2) lt have "case r of Inr (vm', g', fuel') \<Rightarrow> fuel' \<le> fuel | Inl e \<Rightarrow> True"
        by (auto split: sum.splits)
      with r(1) ws Calls Inr x show ?thesis by (simp add: run_guest.simps [of W E storage params vm g fuel])
    qed
  qed (use ws le in \<open>simp_all add: run_guest.simps [of W E storage params vm g fuel]\<close>)
qed

lemma call_guest_returns:
  assumes "fuel_spec W"
  shows "\<exists>r. call_guest W E storage meth params vm store g = Some r \<and>
    (case r of Inr (vm', store') \<Rightarrow> store_fuel store' \<le> store_fuel store | Inl e \<Rightarrow> True)"
proof -
  obtain r where r: "run_guest W E storage params vm g (store_fuel store) = Some r"
    "case r of Inr (vm', g', fuel') \<Rightarrow> fuel' \<le> store_fuel store | Inl e \<Rightarrow> True"
    using run_guest_returns [OF assms, of E storage params vm g "store_fuel store"] by (elim exE conjE)
  show ?thesis
  proof (cases r)
    case (Inl e)
    with r(1) show ?thesis by (simp add: call_guest_def)
  next
    case (Inr x)
    obtain vm1 g1 fuel1 where x: "x = (vm1, g1, fuel1)" by (cases x) auto
    show ?thesis
    proof (cases "wt_get_typed_func W g1 meth")
      case (Inl e)
      with r(1) Inr x show ?thesis by (simp add: call_guest_def)
    next
      case f: (Inr entry)
      obtain r2 where r2: "run_guest W E storage params vm1 entry fuel1 = Some r2"
        "case r2 of Inr (vm', g', fuel') \<Rightarrow> fuel' \<le> fuel1 | Inl e \<Rightarrow> True"
        using run_guest_returns [OF assms, of E storage params vm1 entry fuel1] by (elim exE conjE)
      from r(2) Inr x have "fuel1 \<le> store_fuel store" by simp
      with r(1) r2 Inr x f show ?thesis by (auto simp: call_guest_def split: sum.splits)
    qed
  qed
qed

lemma call_guest_engine:
  "call_guest W E storage meth params vm store g = Some (Inr (vm', store')) \<Longrightarrow> store_engine store' = store_engine store"
  by (auto simp: call_guest_def split: option.splits sum.splits)

lemma prepare_call_Inr:
  assumes "prepare_call W E storage ctx meth limit = Inr (vm, store, g)"
  shows "vm_context vm = ctx" and "fuel_limit vm = limit" and "vm_pending_transfers vm = []"
    and "vm_emitted_events vm = []" and "vm_staged_storage_writes vm = []" and "ctx_contract_address ctx \<noteq> []"
    and "consume_fuel (store_engine store)" and "store_fuel store = limit"
  using assms
  by (auto simp: prepare_call_def set_fuel_limit_def with_context_def fuel_limit_def new_metered_store_Inr
    require_contract_account_def require_contract_address_def result_simps split: if_splits)

text \<open>After the commit the remaining fuel can always be read: the store meters fuel.\<close>

lemma call_fuel_read:
  assumes "prepare_call W E storage ctx meth limit = Inr (vm, store, g)"
    and "call_guest W E storage meth params vm store g = Some (Inr (vm', store'))"
  shows "store_get_fuel store' = Inr (store_fuel store')"
  using prepare_call_Inr(7) [OF assms(1)] call_guest_engine [OF assms(2)] by (simp add: store_get_fuel_def)

text \<open>
  Contract calls end: on an engine that meters fuel every call returns, with an outcome or
  an error, whatever the guest does, and never reports more fuel left than the limit.
\<close>

theorem contract_call_terminates:
  assumes "fuel_spec W"
  shows "\<exists>s' r. execute_contract_call W E ctx meth params limit s = Some (s', r) \<and>
    (case r of Inr out \<Rightarrow> out_remaining_fuel out \<le> limit | Inl e \<Rightarrow> True)"
proof (cases "prepare_call W E s ctx meth limit")
  case (Inr x)
  obtain vm store g where x: "x = (vm, store, g)" by (cases x) auto
  note p = Inr [unfolded x]
  obtain r where r: "call_guest W E s meth params vm store g = Some r"
    "case r of Inr (vm', store') \<Rightarrow> store_fuel store' \<le> store_fuel store | Inl e \<Rightarrow> True"
    using call_guest_returns [OF assms, of E s meth params vm store g] by (elim exE conjE)
  show ?thesis
  proof (cases r)
    case (Inl e)
    with p r(1) show ?thesis by (simp add: execute_contract_call_def)
  next
    case r': (Inr y)
    obtain vm1 store1 where y: "y = (vm1, store1)" by (cases y)
    obtain s' c where c: "commit_contract_storage_batch E (ctx_contract_address ctx) (vm_staged_storage_writes vm1) s = (s', c)"
      by (cases "commit_contract_storage_batch E (ctx_contract_address ctx) (vm_staged_storage_writes vm1) s")
    from r(2) r' y prepare_call_Inr(8) [OF p] have "store_fuel store1 \<le> limit" by simp
    with p r(1) r' y c call_fuel_read [OF p, of params vm1 store1] show ?thesis
      by (cases c) (simp_all add: execute_contract_call_def take_staged_storage_writes_def
        take_pending_transfers_def take_emitted_events_def)
  qed
qed (simp add: execute_contract_call_def)

section \<open>Atomicity\<close>

lemma commit_touches:
  assumes "storage_ok s" and "commit_contract_storage_batch E a ws s = (s', r)"
  shows "case r of Inl e \<Rightarrow> s' = s
    | Inr _ \<Rightarrow> storage_ok s' \<and> (\<forall>k. content s' k = content s k \<or> k = contract_key a \<or> prefix (contract_storage_prefix a) k)"
proof -
  have frame: "content (s\<lparr>db := d\<rparr>) k = content s k \<or> k = contract_key a \<or> prefix (contract_storage_prefix a) k"
    if d: "db_write (engine s) (db s) (map (\<lambda>(k, v). (contract_storage_key a k, v)) ws @ [(contract_key a, b)]) = Inr d" for d b k
  proof -
    have "content (s\<lparr>db := d\<rparr>) = (content s ++ slot_writes a ws)(contract_key a \<mapsto> b)"
      using storage_batch_content [OF assms(1), of "map (\<lambda>(k, v). (contract_storage_key a k, v)) ws @ [(contract_key a, b)]"] d
      by (simp add: slot_writes_def)
    moreover have "prefix (contract_storage_prefix a) k" if "slot_writes a ws k \<noteq> None"
      using that by (auto simp: slot_writes_def contract_storage_key_def dest!: map_of_SomeD)
    ultimately show ?thesis by (auto simp: map_add_def split: option.splits)
  qed
  show ?thesis
    using assms frame
    by (auto simp: commit_contract_storage_batch_def st_bind_reads st_bind_lift st_lift_def Let_def
      split: if_splits sum.splits)
qed

lemma commit_error_unchanged: "commit_contract_storage_batch E a ws s = (s', Inl e) \<Longrightarrow> s' = s"
  by (auto simp: commit_contract_storage_batch_def st_bind_reads st_bind_lift st_lift_def Let_def split: if_splits sum.splits)

text \<open>The ways a call can end.\<close>

lemma call_ends:
  assumes "execute_contract_call W E ctx meth params limit s = Some (s', r)"
  obtains (failed) e where "r = Inl e" "s' = s"
  | (completed) vm store g vm1 store1 out where "prepare_call W E s ctx meth limit = Inr (vm, store, g)"
      "call_guest W E s meth params vm store g = Some (Inr (vm1, store1))"
      "commit_contract_storage_batch E (ctx_contract_address ctx) (vm_staged_storage_writes vm1) s = (s', Inr ())"
      "r = Inr out" "out_remaining_fuel out = store_fuel store1" "out_pending_transfers out = vm_pending_transfers vm1"
      "out_emitted_events out = vm_emitted_events vm1"
proof (cases "prepare_call W E s ctx meth limit")
  case (Inl e)
  with assms failed [of e] show thesis by (auto simp: execute_contract_call_def)
next
  case (Inr x)
  obtain vm store g where x: "x = (vm, store, g)" by (cases x) auto
  note p = Inr [unfolded x]
  obtain y where y: "call_guest W E s meth params vm store g = Some y"
    using assms p by (cases "call_guest W E s meth params vm store g") (simp_all add: execute_contract_call_def)
  show thesis
  proof (cases y)
    case (Inl e)
    with assms p y failed [of e] show thesis by (auto simp: execute_contract_call_def)
  next
    case (Inr z)
    obtain vm1 store1 where z: "z = (vm1, store1)" by (cases z)
    note c = y [unfolded Inr z]
    obtain t k where k: "commit_contract_storage_batch E (ctx_contract_address ctx) (vm_staged_storage_writes vm1) s = (t, k)" by fastforce
    show thesis
    proof (cases k)
      case (Inl e)
      with k commit_error_unchanged [of E "ctx_contract_address ctx" "vm_staged_storage_writes vm1" s t e] have "t = s" by simp
      with Inl assms p c k failed [of "StorageError e"] show thesis
        by (auto simp: execute_contract_call_def take_staged_storage_writes_def)
    next
      case (Inr u)
      with assms p c k call_fuel_read [OF p c] completed [OF p c, of "\<lparr>out_remaining_fuel = store_fuel store1,
          out_pending_transfers = vm_pending_transfers vm1, out_emitted_events = vm_emitted_events vm1\<rparr>"] show thesis
        by (auto simp: execute_contract_call_def take_staged_storage_writes_def take_pending_transfers_def take_emitted_events_def)
    qed
  qed
qed

lemma call_error_unchanged: "execute_contract_call W E ctx meth params limit s = Some (s', Inl e) \<Longrightarrow> s' = s"
  by (elim call_ends) simp_all

lemma call_touches:
  assumes "storage_ok s" and "execute_contract_call W E ctx meth params limit s = Some (s', Inr out)"
  shows "storage_ok s'" and "content s' k = content s k \<or>
    k = contract_key (ctx_contract_address ctx) \<or> prefix (contract_storage_prefix (ctx_contract_address ctx)) k"
proof -
  obtain ws where "commit_contract_storage_batch E (ctx_contract_address ctx) ws s = (s', Inr ())"
    using assms(2) by (cases rule: call_ends) simp_all
  from commit_touches [OF assms(1) this] show "storage_ok s'" and "content s' k = content s k \<or>
    k = contract_key (ctx_contract_address ctx) \<or> prefix (contract_storage_prefix (ctx_contract_address ctx)) k" by simp_all
qed

text \<open>
  C4. Contract calls are atomic and isolated: a call that fails, in the checks, in the guest,
  in a host function or in the final commit, leaves the storage as it was; a call that succeeds
  changes at most the slots and the record of the called contract.
\<close>

theorem contract_call_atomic:
  assumes "storage_ok s" and "execute_contract_call W E ctx meth params limit s = Some (s', r)"
  shows "case r of Inl e \<Rightarrow> s' = s
    | Inr out \<Rightarrow> storage_ok s' \<and> (\<forall>k. content s' k = content s k \<or>
        k = contract_key (ctx_contract_address ctx) \<or> prefix (contract_storage_prefix (ctx_contract_address ctx)) k)"
proof (cases r)
  case (Inl e)
  with assms(2) show ?thesis using call_error_unchanged by simp
next
  case (Inr out)
  note call = assms(2) [unfolded Inr]
  from call_touches [OF assms(1) call] show ?thesis unfolding Inr by simp
qed

section \<open>Well-formed outcomes\<close>

definition transfer_ok :: "'z env_scheme \<Rightarrow> 'd RocksDbStorage \<Rightarrow> WasmExecutionContext \<Rightarrow> Transaction \<Rightarrow> bool" where
  "transfer_ok E storage ctx t \<longleftrightarrow>
     (case get_account E (ctx_contract_address ctx) storage of
        Inr (Some account) \<Rightarrow>
          a_code_hash account \<noteq> None \<and> unat (tx_nonce t) = unat (a_nonce account) + 1 \<and>
          unat (tx_amount t) + unat (tx_fee t) \<le> unat (a_balance account)
      | _ \<Rightarrow> False) \<and>
     tx_type t = Transfer \<and> tx_from t = ctx_contract_address ctx \<and> tx_to t \<noteq> [] \<and> tx_fee t = FIXED_TRANSACTION_FEE \<and>
     \<not> is_cross_shard t \<and> tx_source_shard t = ctx_shard_id ctx"

definition event_ok :: "WasmExecutionContext \<Rightarrow> ContractEvent \<Rightarrow> bool" where
  "event_ok ctx e \<longleftrightarrow> ev_contract_address e = ctx_contract_address ctx \<and> ev_name e \<noteq> [] \<and>
     ev_block_height e = ctx_block_height ctx"

definition vm_ok :: "'z env_scheme \<Rightarrow> 'd RocksDbStorage \<Rightarrow> WasmExecutionContext \<Rightarrow> WasmVM \<Rightarrow> bool" where
  "vm_ok E storage ctx vm \<longleftrightarrow> vm_context vm = ctx \<and> btree_ok (vm_staged_storage_writes vm) \<and>
     list_all (transfer_ok E storage ctx) (vm_pending_transfers vm) \<and> list_all (event_ok ctx) (vm_emitted_events vm)"

lemma vm_transfer_ok:
  assumes "vm_transfer E storage to a data vm = Inr (vm', tx)"
  shows "transfer_ok E storage (vm_context vm) tx \<and> vm' = vm\<lparr>vm_pending_transfers := vm_pending_transfers vm @ [tx]\<rparr>"
  using assms
  by (auto simp: vm_transfer_def require_contract_account_def require_contract_address_def transfer_ok_def
    is_cross_shard_def result_simps checked_add_Some_iff Let_def word_less_nat_alt not_less split: if_splits)

interpretation outcome: host_invariant E storage "vm_ok E storage ctx"
  for E :: "'z env_scheme" and storage :: "'d RocksDbStorage" and ctx
proof
  fix vm vm' :: WasmVM and k v n d to a data tx
  assume I: "vm_ok E storage ctx vm"
  show "vm_ok E storage ctx vm'" if "set_storage E storage k v vm = Inr vm'"
    using that I by (auto simp: set_storage_def vm_ok_def result_simps btree_ok_insert)
  show "vm_ok E storage ctx vm'" if "emit_event n d vm = Inr vm'"
    using that I by (auto simp: emit_event_def vm_ok_def event_ok_def result_simps split: if_splits)
  show "vm_ok E storage ctx vm'" if "vm_transfer E storage to a data vm = Inr (vm', tx)"
    using vm_transfer_ok [OF that] I by (simp add: vm_ok_def)
qed

text \<open>
  C20. Whatever the guest does, the outcome of a call is well formed: every pending transfer is
  a same-shard transfer from the called contract with the fixed fee, covered by its stored
  balance and carrying the next nonce, and every event is named and stamped with the contract
  and the block height of the call.
\<close>

theorem contract_call_outcome:
  assumes "execute_contract_call W E ctx meth params limit s = Some (s', Inr out)"
  shows "list_all (transfer_ok E s ctx) (out_pending_transfers out) \<and> list_all (event_ok ctx) (out_emitted_events out)"
proof -
  obtain vm store g vm1 store1 where p: "prepare_call W E s ctx meth limit = Inr (vm, store, g)"
    and c: "call_guest W E s meth params vm store g = Some (Inr (vm1, store1))"
    and out: "out_pending_transfers out = vm_pending_transfers vm1" "out_emitted_events out = vm_emitted_events vm1"
    using assms by (cases rule: call_ends) simp_all
  have "vm_ok E s ctx vm" using prepare_call_Inr [OF p] by (simp add: vm_ok_def)
  from outcome.call_guest_keeps [OF c this] out show ?thesis by (simp add: vm_ok_def)
qed

section \<open>Staged writes\<close>

lemma get_storage_overlay:
  assumes "storage_ok s" and "require_contract_account E vm s ''storage access'' = Inr account"
    and "get_contract E (ctx_contract_address (vm_context vm)) s = Inr (Some c)"
  shows "get_storage E s k vm = Inr (case map_of (vm_staged_storage_writes vm) k of
     Some v \<Rightarrow> Some v | None \<Rightarrow> contract_slots (ctx_contract_address (vm_context vm)) s k)"
proof -
  have "require_contract_address vm ''storage access'' = Inr (ctx_contract_address (vm_context vm))"
    using assms(2) by (auto simp: require_contract_account_def require_contract_address_def)
  with assms show ?thesis
    by (auto simp: get_storage_def get_contract_storage_def storage_get_content contract_slots_def split: option.splits)
qed

text \<open>
  C21. A guest sees its own writes, and what it sees is what is committed: reading any slot
  through the host function returns what \<open>get_contract_storage\<close> returns for that slot after
  the staged writes have been committed.
\<close>

theorem staged_view_is_committed:
  assumes "storage_ok s" and "btree_ok (vm_staged_storage_writes vm)"
    and "require_contract_account E vm s ''storage access'' = Inr account"
    and "get_contract E (ctx_contract_address (vm_context vm)) s = Inr (Some c)"
    and "\<forall>x. roundtrips (bc_contract E) (c\<lparr>c_storage_root := sha256 E x\<rparr>)"
  shows "\<exists>s'. commit_contract_storage_batch E (ctx_contract_address (vm_context vm)) (vm_staged_storage_writes vm) s = (s', Inr ()) \<and>
    (\<forall>k. get_storage E s k vm = map_err StorageError (get_contract_storage E (ctx_contract_address (vm_context vm)) k s'))"
proof -
  let ?a = "ctx_contract_address (vm_context vm)" and ?ws = "vm_staged_storage_writes vm"
  show ?thesis
  proof (cases "?ws = []")
    case True
    have "commit_contract_storage_batch E ?a ?ws s = (s, Inr ())"
      using True by (simp add: commit_contract_storage_batch_def st_lift_def)
    moreover have "get_contract_storage E ?a k s = Inr (contract_slots ?a s k)" for k
      using assms by (simp add: get_contract_storage_def storage_get_content contract_slots_def)
    ultimately show ?thesis using get_storage_overlay [OF assms(1,3,4)] True by simp
  next
    case False
    obtain s' where s': "commit_contract_storage_batch E ?a ?ws s = (s', Inr ())" "updated E ?a c ?ws s s'"
      using commit_updates [OF assms(1,4) False assms(5)] by (elim exE conjE)
    have "map_of (rev ?ws) = map_of ?ws"
      using btree_ok_distinct [OF assms(2)] map_of_inject_set [of "rev ?ws" ?ws] by (simp add: rev_map [symmetric])
    with updated_reads [OF s'(2) assms(5)] s'(1) get_storage_overlay [OF assms(1,3,4)] show ?thesis by auto
  qed
qed

section \<open>Guest memory\<close>

text \<open>The engine returns the memory that was written.\<close>

definition memory_spec :: "('m, 'g) wasmtime \<Rightarrow> bool" where
  "memory_spec W \<longleftrightarrow> (\<forall>g old new. wt_export_memory W g = Some (Memory old) \<longrightarrow>
     wt_export_memory W (wt_set_memory W g new) = Some (Memory new))"

text \<open>
  C22. Host access to guest memory stays in bounds: a write succeeds exactly when the offset is
  not negative and the range fits, keeps the size and every byte outside the range, and is read
  back by a read of that range.
\<close>

theorem write_memory_correct:
  assumes "memory_spec W" and "wt_export_memory W g = Some (Memory data)" and "length bs < 2 ^ 31"
  shows "(case write_memory W ptr bs g of
      Inl e \<Rightarrow> sint ptr < 0 \<or> length data < nat (sint ptr) + length bs
    | Inr g' \<Rightarrow> 0 \<le> sint ptr \<and> nat (sint ptr) + length bs \<le> length data \<and>
        read_memory W g' ptr (of_nat (length bs)) = Inr bs \<and>
        (case wt_export_memory W g' of
           Some (Memory data') \<Rightarrow> length data' = length data \<and>
             (\<forall>i < length data. i < nat (sint ptr) \<or> nat (sint ptr) + length bs \<le> i \<longrightarrow> data' ! i = data ! i)
         | _ \<Rightarrow> False))"
proof -
  have sl: "sint (of_nat (length bs) :: u32) = int (length bs)"
    using assms(3) by (simp add: signed_of_nat signed_take_bit_int_eq_self)
  have "nat (sint ptr) < 2 ^ 31" using sint_lt [of ptr] by simp
  with assms(3) have nb: "\<not> 2 ^ 64 \<le> nat (sint ptr) + length bs" by simp
  show ?thesis
  proof (cases "sint ptr < 0 \<or> length data < nat (sint ptr) + length bs")
    case True
    with assms(2) nb show ?thesis by (auto simp: write_memory_def memory_from_caller_def Let_def)
  next
    case False
    let ?p = "nat (sint ptr)"
    let ?new = "take ?p data @ bs @ drop (?p + length bs) data"
    have g': "write_memory W ptr bs g = Inr (wt_set_memory W g ?new)"
      using False assms(2) nb by (simp add: write_memory_def memory_from_caller_def Let_def)
    have m: "wt_export_memory W (wt_set_memory W g ?new) = Some (Memory ?new)"
      using assms(1,2) by (auto simp: memory_spec_def)
    have "read_memory W (wt_set_memory W g ?new) ptr (of_nat (length bs)) = Inr bs"
      using False m nb by (simp add: read_memory_def memory_from_caller_def sl Let_def)
    with False g' m show ?thesis by (auto simp: nth_append min_def)
  qed
qed

section \<open>A scripted engine\<close>

text \<open>
  An engine for the witnesses: the guest is a memory and a list of host calls, each of which
  costs one unit of fuel; every export starts the same script.
\<close>

definition script_engine :: "host_call list \<Rightarrow> (unit, bytes \<times> host_call list) wasmtime" where
  "script_engine script = \<lparr>
     wt_engine_new = (\<lambda>config. Inr ()),
     wt_module_new = (\<lambda>code. Inr ()),
     wt_link = Inr (),
     wt_instantiate = (\<lambda>m. Inr ([1, 2, 3, 4], [])),
     wt_get_typed_func = (\<lambda>g name. Inr (fst g, script)),
     wt_step = (\<lambda>g fuel. case snd g of
        [] \<Rightarrow> (g, fuel, Returned)
      | c # cs \<Rightarrow> if fuel = 0 then (g, 0, Trapped ''all fuel consumed'') else ((fst g, cs), fuel - 1, Calls c)),
     wt_answer = (\<lambda>g v. g),
     wt_export_memory = (\<lambda>g. Some (Memory (fst g))),
     wt_set_memory = (\<lambda>g m. (m, snd g))\<rparr>"

lemma script_engine_fuel: "fuel_spec (script_engine script)"
proof -
  have "fuel - 1 < fuel" if "fuel \<noteq> 0" for fuel :: u64 using that by (simp add: word_less_nat_alt unat_minus_one unat_gt_0 [symmetric])
  moreover have "fuel - 1 \<le> fuel" if "fuel \<noteq> 0" for fuel :: u64 using calculation [OF that] by simp
  ultimately show ?thesis by (simp add: fuel_spec_def script_engine_def split: list.splits)
qed

lemma script_engine_memory: "memory_spec (script_engine script)"
  by (simp add: memory_spec_def script_engine_def)

definition contract_account :: Account where
  "contract_account = \<lparr>a_balance = 10, a_nonce = 4, a_code_hash = Some [1], a_anonymous_state = AnonymousAccountState_default\<rparr>"

definition call_env :: env where
  "call_env = sample_env\<lparr>bc_contract := root_codec, bc_account := const_codec contract_account\<rparr>"

definition call_storage :: "db_log RocksDbStorage" where
  "call_storage = sample_storage\<lparr>db := [(contract_key [9], Some []), (account_key [9], Some [1])]\<rparr>"

definition call_context :: WasmExecutionContext where
  "call_context = \<lparr>ctx_contract_address = [9], ctx_caller = [7], ctx_block_height = 3, ctx_shard_id = 0\<rparr>"

text \<open>The script writes a slot, emits an event and sends a transfer.\<close>

definition call_script :: "host_call list" where
  "call_script = [SetStorage 0 1 1 2, EmitEvent 0 1 0 0, TransferTo 1 2 5]"

lemma call_storage_ok: "storage_ok call_storage"
  using sample_storage_ok by (simp add: call_storage_def)

lemma call_storage_reads:
  "get_contract call_env [9] call_storage = Inr (Some \<lparr>c_code_wasm = [1], c_storage_root = []\<rparr>)"
  "get_account call_env [9] call_storage = Inr (Some contract_account)"
proof -
  have "content call_storage (contract_key [9]) = Some []" "content call_storage (account_key [9]) = Some [1]"
    by (simp_all add: content_def call_storage_def sample_storage_def log_engine_def log_entries_def log_apply_def
      key_defs prefix_defs bytes_of_def)
  then show "get_contract call_env [9] call_storage = Inr (Some \<lparr>c_code_wasm = [1], c_storage_root = []\<rparr>)"
    "get_account call_env [9] call_storage = Inr (Some contract_account)"
    by (simp_all add: get_contract_def get_account_def get_decoded_content [OF call_storage_ok] call_env_def root_codec_def
      const_codec_def)
qed

lemma call_roundtrips: "\<forall>x. roundtrips (bc_contract call_env) (\<lparr>c_code_wasm = [1], c_storage_root = []\<rparr>\<lparr>c_storage_root := sha256 call_env x\<rparr>)"
  by (simp add: roundtrips_def call_env_def root_codec_def)

definition call_store :: "u64 \<Rightarrow> wasm_store" where
  "call_store fuel = \<lparr>store_engine = \<lparr>consume_fuel = True\<rparr>, store_fuel = fuel\<rparr>"

lemma call_prepared:
  "prepare_call (script_engine call_script) call_env call_storage call_context ''run'' 100 =
     Inr ((with_context call_context)\<lparr>vm_gas_config := \<lparr>gas_fuel_limit = 100\<rparr>\<rparr>, call_store 100, ([1, 2, 3, 4], []))"
  by (simp add: prepare_call_def trim_def is_whitespace_def call_context_def call_storage_reads set_fuel_limit_def
    with_context_def require_contract_account_def require_contract_address_def contract_account_def script_engine_def
    WasmGasConfig_default_def new_metered_store_def metered_engine_def Config_new_def Store_new_def store_set_fuel_def call_store_def
    fuel_limit_def)

lemma script_engine_simps:
  "wt_step (script_engine script) g fuel = (case snd g of
        [] \<Rightarrow> (g, fuel, Returned)
      | c # cs \<Rightarrow> if fuel = 0 then (g, 0, Trapped ''all fuel consumed'') else ((fst g, cs), fuel - 1, Calls c))"
  "wt_answer (script_engine script) g v = g"
  "wt_export_memory (script_engine script) g = Some (Memory (fst g))"
  "wt_get_typed_func (script_engine script) g name = Inr (fst g, script)"
  by (simp_all add: script_engine_def)

lemma script_run:
  "run_guest (script_engine script) E storage params vm (m, []) fuel = Some (Inr (vm, (m, []), fuel))"
  "fuel \<noteq> 0 \<Longrightarrow> call_host (script_engine script) E storage params vm (m, cs) c = Inr (vm', g', v) \<Longrightarrow>
   run_guest (script_engine script) E storage params vm (m, c # cs) fuel =
     run_guest (script_engine script) E storage params vm' g' (fuel - 1)"
  by (simp_all add: run_guest.simps [of "script_engine script" E storage params vm] script_engine_simps)

lemma script_read:
  "p + n \<le> length m \<Longrightarrow> p < 2 ^ 31 \<Longrightarrow> n < 2 ^ 31 \<Longrightarrow>
   read_memory (script_engine script) (m, cs) (of_nat p) (of_nat n) = Inr (take n (drop p m))"
  by (simp add: read_memory_def memory_from_caller_def script_engine_simps signed_of_nat signed_take_bit_int_eq_self)

lemma call_account:
  "vm_context vm = call_context \<Longrightarrow> require_contract_account call_env vm call_storage op = Inr contract_account"
  "vm_context vm = call_context \<Longrightarrow> require_contract_address vm op = Inr [9]"
  by (simp_all add: require_contract_account_def require_contract_address_def call_context_def call_storage_reads
    contract_account_def)

lemma call_runs:
  "\<exists>vm'. call_guest (script_engine call_script) call_env call_storage ''run'' [] vm (call_store 100) ([1, 2, 3, 4], []) =
       Some (Inr (vm', call_store 97)) \<and>
     vm_staged_storage_writes vm' = [([1], [2, 3])] \<and> length (vm_pending_transfers vm') = 1 \<and> length (vm_emitted_events vm') = 1"
  if vm: "vm = (with_context call_context)\<lparr>vm_gas_config := \<lparr>gas_fuel_limit = 100\<rparr>\<rparr>"
proof -
  have ctx: "vm_context vm = call_context" using vm by (simp add: with_context_def)
  let ?vm1 = "vm\<lparr>vm_staged_storage_writes := [([1], [2, 3])]\<rparr>"
  let ?vm2 = "?vm1\<lparr>vm_emitted_events := [\<lparr>ev_contract_address = [9], ev_name = [1], ev_data = [], ev_block_height = 3\<rparr>]\<rparr>"
  let ?tx = "\<lparr>tx_type = Transfer, tx_from = [9], tx_to = [2, 3], tx_amount = 5, tx_fee = 1, tx_nonce = 5,
     tx_source_shard = 0, tx_destination_shard = 0, tx_signature = [], tx_data = None\<rparr>"
  let ?vm3 = "?vm2\<lparr>vm_pending_transfers := [?tx]\<rparr>"
  let ?W = "script_engine call_script" and ?m = "[1, 2, 3, 4] :: bytes"
  have r: "read_memory ?W (?m, cs) 0 1 = Inr [1]" "read_memory ?W (?m, cs) 1 2 = Inr [2, 3]"
      "read_memory ?W (?m, cs) 0 0 = Inr []" for cs
    using script_read [of 0 1 ?m call_script cs] script_read [of 1 2 ?m call_script cs] script_read [of 0 0 ?m call_script cs]
    by simp_all
  have c1: "call_host ?W call_env call_storage [] vm (?m, cs) (SetStorage 0 1 1 2) = Inr (?vm1, (?m, cs), NoValue)" for cs
    using vm by (simp add: host_set_storage_def r set_storage_def call_account ctx with_context_def)
  have c2: "call_host ?W call_env call_storage [] ?vm1 (?m, cs) (EmitEvent 0 1 0 0) = Inr (?vm2, (?m, cs), NoValue)" for cs
    using vm by (simp add: host_emit_event_def r emit_event_def call_account ctx with_context_def call_context_def
      require_contract_address_def)
  have c3: "call_host ?W call_env call_storage [] ?vm2 (?m, cs) (TransferTo 1 2 5) = Inr (?vm3, (?m, cs), NoValue)" for cs
    using vm by (simp add: host_transfer_def r vm_transfer_def call_account ctx with_context_def
      checked_add_def contract_account_def FIXED_TRANSACTION_FEE_def Let_def) (simp add: call_context_def)
  have "run_guest ?W call_env call_storage [] vm (?m, call_script) 100 = Some (Inr (?vm3, (?m, []), 97))"
    by (simp add: call_script_def script_run(1) script_run(2) [OF _ c1 [unfolded call_script_def]]
      script_run(2) [OF _ c2 [unfolded call_script_def]] script_run(2) [OF _ c3 [unfolded call_script_def]])
  then show ?thesis
    by (simp add: call_guest_def call_store_def script_run(1) script_engine_simps)
qed

lemma call_succeeds:
  "\<exists>s' out. execute_contract_call (script_engine call_script) call_env call_context ''run'' [] 100 call_storage = Some (s', Inr out) \<and>
     length (out_pending_transfers out) = 1 \<and> length (out_emitted_events out) = 1"
proof -
  obtain vm' where vm': "call_guest (script_engine call_script) call_env call_storage ''run'' []
      ((with_context call_context)\<lparr>vm_gas_config := \<lparr>gas_fuel_limit = 100\<rparr>\<rparr>) (call_store 100) ([1, 2, 3, 4], []) = Some (Inr (vm', call_store 97))"
    "vm_staged_storage_writes vm' = [([1], [2, 3])]" "length (vm_pending_transfers vm') = 1" "length (vm_emitted_events vm') = 1"
    using call_runs [OF refl] by (elim exE conjE)
  obtain s' where "commit_contract_storage_batch call_env [9] [([1], [2, 3])] call_storage = (s', Inr ())"
    using commit_updates [OF call_storage_ok call_storage_reads(1) _ call_roundtrips, of "[([1], [2, 3])]"] by auto
  with vm' call_prepared show ?thesis
    by (simp add: execute_contract_call_def take_staged_storage_writes_def take_pending_transfers_def
      take_emitted_events_def call_context_def call_store_def store_get_fuel_def)
qed

theorem contract_call_terminates_witness:
  "\<exists>s' r. execute_contract_call (script_engine call_script) call_env call_context ''run'' [] 100 call_storage = Some (s', r) \<and>
    (case r of Inr out \<Rightarrow> out_remaining_fuel out \<le> 100 | Inl e \<Rightarrow> True)"
  by (rule contract_call_terminates [OF script_engine_fuel])

theorem contract_call_atomic_witness:
  "\<exists>s' out. execute_contract_call (script_engine call_script) call_env call_context ''run'' [] 100 call_storage = Some (s', Inr out) \<and>
    content s' (account_key [9]) = content call_storage (account_key [9])"
proof -
  obtain s' out where c: "execute_contract_call (script_engine call_script) call_env call_context ''run'' [] 100 call_storage = Some (s', Inr out)"
    using call_succeeds by blast
  have "account_key [9] \<noteq> contract_key [9]" "\<not> prefix (contract_storage_prefix [9]) (account_key [9])"
    by (simp_all add: key_defs prefix_defs bytes_of_def)
  with contract_call_atomic [OF call_storage_ok c] c show ?thesis by (auto simp: call_context_def)
qed

theorem contract_call_outcome_witness:
  "\<exists>s' out. execute_contract_call (script_engine call_script) call_env call_context ''run'' [] 100 call_storage = Some (s', Inr out) \<and>
    length (out_pending_transfers out) = 1 \<and> list_all (transfer_ok call_env call_storage call_context) (out_pending_transfers out)"
  using call_succeeds contract_call_outcome [of "script_engine call_script" call_env call_context "''run''" "[]" 100 call_storage] by blast

theorem staged_view_is_committed_witness:
  "\<exists>s'. commit_contract_storage_batch call_env [9] [([1], [2])] call_storage = (s', Inr ()) \<and>
    get_storage call_env call_storage [1] ((with_context call_context)\<lparr>vm_staged_storage_writes := [([1], [2])]\<rparr>) =
      map_err StorageError (get_contract_storage call_env [9] [1] s')"
  using staged_view_is_committed [of call_storage "(with_context call_context)\<lparr>vm_staged_storage_writes := [([1], [2])]\<rparr>"
      call_env contract_account "\<lparr>c_code_wasm = [1], c_storage_root = []\<rparr>"]
    call_storage_ok call_storage_reads(1) call_account(1) call_roundtrips
  by (auto simp: with_context_def call_context_def)

theorem write_memory_correct_witness:
  "\<exists>g'. write_memory (script_engine []) 1 [8] ([1, 2], []) = Inr g' \<and> read_memory (script_engine []) g' 1 1 = Inr [8]"
proof -
  have "write_memory (script_engine []) 1 [8] ([1, 2], []) = Inr ([1, 8], [])"
    by (simp add: write_memory_def memory_from_caller_def script_engine_def)
  with write_memory_correct [OF script_engine_memory, of "[]" "([1, 2], [])" "[1, 2]" "[8]" 1] show ?thesis
    by (simp add: script_engine_simps)
qed

section \<open>Repeated transfers\<close>

text \<open>
  The balance check of \<open>transfer\<close> reads the stored account and ignores the transfers already
  pending: an accepted transfer is accepted again, with the same nonce, any number of times.
\<close>

theorem transfer_repeats:
  assumes "vm_transfer E storage to a data vm = Inr (vm', tx)"
  shows "vm_transfer E storage to a data vm' = Inr (vm'\<lparr>vm_pending_transfers := vm_pending_transfers vm @ [tx, tx]\<rparr>, tx)"
  using assms
  by (auto simp: vm_transfer_def require_contract_account_def require_contract_address_def result_simps Let_def split: if_splits)

end
