(* ===== verification/Api.thy ===== *)
theory Api
  imports VmLaws Mempool Validation Crypto "HOL-Library.Char_ord"
begin

text \<open>
  \<open>src/src/api/mod.rs\<close>: the JSON-RPC interface over storage, mempool and virtual machine.
  The \<open>hex\<close> crate, the rate limiter of the \<open>governor\<close> crate and the JSON parsing of
  \<open>jsonrpsee\<close> are parameters. An error object keeps its code; where the code formats a
  message, the model keeps the reason as a value. A handler returns the new state with the
  result; \<open>None\<close> is a contract call that never returns.
\<close>

section \<open>Codes, parameters and responses\<close>

definition INVALID_PARAMS_CODE :: int where "INVALID_PARAMS_CODE = - 32602"
definition INTERNAL_ERROR_CODE :: int where "INTERNAL_ERROR_CODE = - 32603"
definition NOT_FOUND_CODE :: int where "NOT_FOUND_CODE = - 32004"
definition VALIDATION_ERROR_CODE :: int where "VALIDATION_ERROR_CODE = - 32010"
definition RATE_LIMIT_EXCEEDED_CODE :: int where "RATE_LIMIT_EXCEEDED_CODE = - 32029"
definition DEFAULT_RPC_RATE_LIMIT_PER_SECOND :: u32 where "DEFAULT_RPC_RATE_LIMIT_PER_SECOND = 20"

datatype rejection =
    RejectedBy TransactionValidationError
  | SenderKeyLength
  | SignatureError crypto_error
  | SignatureInvalid
  | RejectedFee u64 u64
  | FeeNotCovered u64 u64
  | DeployWithoutCode
  | DeployEmptyCode
  | DeployAmount u64
  | DeployEmptyTarget
  | CallAmount u64
  | CallEmptyTarget
  | CallWithoutPayload
  | CallPayloadInvalid string
  | CallEmptyMethod
  | CallZeroGas
  | CallFailed vm_error

datatype rpc_reason =
    RateLimitExceeded
  | BadParams string string
  | BadHex string string
  | TwoSelectors
  | NoSelector
  | NotATransaction string
  | Rejected rejection
  | StorageFailure string storage_error
  | DecodeFailure string string

record ErrorObject =
  err_code :: int
  err_reason :: rpc_reason

definition rate_limit_exceeded :: ErrorObject where
  "rate_limit_exceeded = \<lparr>err_code = RATE_LIMIT_EXCEEDED_CODE, err_reason = RateLimitExceeded\<rparr>"

definition invalid_params :: "rpc_reason \<Rightarrow> ErrorObject" where
  "invalid_params r = \<lparr>err_code = INVALID_PARAMS_CODE, err_reason = r\<rparr>"

definition internal_error :: "rpc_reason \<Rightarrow> ErrorObject" where
  "internal_error r = \<lparr>err_code = INTERNAL_ERROR_CODE, err_reason = r\<rparr>"

definition validation_error :: "rejection \<Rightarrow> ErrorObject" where
  "validation_error r = \<lparr>err_code = VALIDATION_ERROR_CODE, err_reason = Rejected r\<rparr>"

definition not_found :: "rpc_reason \<Rightarrow> ErrorObject" where
  "not_found r = \<lparr>err_code = NOT_FOUND_CODE, err_reason = r\<rparr>"

type_synonym 'a rpc_result = "('a, ErrorObject) result"

record GetBlockParams =
  gb_height :: "u64 option"
  gb_hash :: "string option"

record HashParam =
  hp_hash :: string

record AddressParam =
  ap_address :: string

record SendTransactionParams =
  st_hex_tx :: string

record RpcBlockHeaderView =
  hv_version :: u32
  hv_previous_hash :: string
  hv_merkle_root :: string
  hv_timestamp :: u64
  hv_height :: u64
  hv_validator :: string
  hv_signature :: string

record RpcTransactionView =
  tv_tx_type :: string
  tv_stake_duration :: "u64 option"
  tv_from :: string
  tv_to :: string
  tv_amount :: u64
  tv_fee :: u64
  tv_nonce :: u64
  tv_source_shard :: u16
  tv_destination_shard :: u16
  tv_signature :: string
  tv_data :: "string option"

record RpcCrossShardReceiptView =
  rv_tx_hash :: string
  rv_source_shard :: u16
  rv_destination_shard :: u16
  rv_phase :: string
  rv_proof :: string

record RpcBlockResponse =
  br_hash :: string
  br_header :: RpcBlockHeaderView
  br_transactions :: "RpcTransactionView list"
  br_receipts :: "RpcCrossShardReceiptView list"

record RpcTransactionResponse =
  tr_hash :: string
  tr_transaction :: RpcTransactionView

record RpcBalanceResponse =
  bl_address :: string
  bl_found :: bool
  bl_balance :: u64
  bl_nonce :: u64
  bl_note_commitment_count :: nat

record RpcInfoResponse =
  in_name :: string
  in_rpc_version :: string
  in_storage_backend :: string
  in_latest_block_height :: "u64 option"
  in_mempool_size :: nat
  in_validator_count :: nat
  in_note_commitment_count :: nat

record RpcValidatorView =
  vv_address :: string
  vv_stake :: u64
  vv_locked_until :: u64

record RpcSendTransactionResponse =
  sr_accepted :: bool
  sr_tx_hash :: string
  sr_mempool_size :: nat

section \<open>State\<close>

record api_env = env +
  hex_encode :: "bytes \<Rightarrow> string"
  hex_decode :: "string \<Rightarrow> string + bytes"

text \<open>
  The \<open>hex\<close> crate: encoding writes only hexadecimal digits and decoding reverses it.
\<close>

definition is_hex_digit :: "char \<Rightarrow> bool" where
  "is_hex_digit c \<longleftrightarrow> (48 \<le> (of_char c :: nat) \<and> (of_char c :: nat) \<le> 57) \<or> (97 \<le> (of_char c :: nat) \<and> (of_char c :: nat) \<le> 102)"

definition hex_spec :: "'z api_env_scheme \<Rightarrow> bool" where
  "hex_spec E \<longleftrightarrow> (\<forall>bs. hex_decode E (hex_encode E bs) = Inr bs \<and> list_all is_hex_digit (hex_encode E bs))"

text \<open>A rate limiter: its state holds the clock it reads.\<close>

record 'l governor =
  limiter_per_second :: "u32 \<Rightarrow> 'l"
  limiter_check :: "'l \<Rightarrow> 'l \<times> bool"

record ('d, 'l) RpcState =
  rs_storage :: "'d RocksDbStorage"
  rs_mempool :: Mempool
  rs_rate_limiter :: 'l

definition with_rate_limit :: "'l governor \<Rightarrow> 'd RocksDbStorage \<Rightarrow> Mempool \<Rightarrow> u32 \<Rightarrow> ('d, 'l) RpcState" where
  "with_rate_limit L storage mempool per_second =
     \<lparr>rs_storage = storage, rs_mempool = mempool, rs_rate_limiter = limiter_per_second L per_second\<rparr>"

definition RpcState_new :: "'l governor \<Rightarrow> 'd RocksDbStorage \<Rightarrow> Mempool \<Rightarrow> ('d, 'l) RpcState panics" where
  "RpcState_new L storage mempool =
     (if DEFAULT_RPC_RATE_LIMIT_PER_SECOND = 0 then Inl ''DEFAULT_RPC_RATE_LIMIT_PER_SECOND must be non-zero''
      else Inr (with_rate_limit L storage mempool DEFAULT_RPC_RATE_LIMIT_PER_SECOND))"

definition check_rate_limit :: "'l governor \<Rightarrow> ('d, 'l) RpcState \<Rightarrow> ('d, 'l) RpcState \<times> unit rpc_result" where
  "check_rate_limit L st =
     (let (l, ok) = limiter_check L (rs_rate_limiter st)
      in (st\<lparr>rs_rate_limiter := l\<rparr>, if ok then Inr () else Inl rate_limit_exceeded))"

section \<open>Views\<close>

definition encode_hex :: "'z api_env_scheme \<Rightarrow> bytes \<Rightarrow> string" where
  "encode_hex E bs = hex_encode E bs"

definition strip_0x :: "string \<Rightarrow> string" where
  "strip_0x s = (if take 2 s = ''0x'' then drop 2 s else s)"

definition decode_hex :: "'z api_env_scheme \<Rightarrow> string \<Rightarrow> string \<Rightarrow> bytes rpc_result" where
  "decode_hex E value field_name =
     map_err (\<lambda>e. invalid_params (BadHex field_name e)) (hex_decode E (strip_0x (trim value)))"

fun transaction_type_parts :: "TransactionType \<Rightarrow> string \<times> u64 option" where
  "transaction_type_parts Transfer = (''Transfer'', None)"
| "transaction_type_parts (Stake duration) = (''Stake'', Some duration)"
| "transaction_type_parts Unstake = (''Unstake'', None)"
| "transaction_type_parts PublicToAnon = (''PublicToAnon'', None)"
| "transaction_type_parts AnonToPublic = (''AnonToPublic'', None)"
| "transaction_type_parts DeployContract = (''DeployContract'', None)"
| "transaction_type_parts CallContract = (''CallContract'', None)"

definition transaction_to_rpc :: "'z api_env_scheme \<Rightarrow> Transaction \<Rightarrow> RpcTransactionView" where
  "transaction_to_rpc E t =
     (let (ty, duration) = transaction_type_parts (tx_type t) in
      \<lparr>tv_tx_type = ty, tv_stake_duration = duration, tv_from = encode_hex E (tx_from t), tv_to = encode_hex E (tx_to t),
       tv_amount = tx_amount t, tv_fee = tx_fee t, tv_nonce = tx_nonce t, tv_source_shard = tx_source_shard t,
       tv_destination_shard = tx_destination_shard t, tv_signature = encode_hex E (tx_signature t),
       tv_data = map_option (encode_hex E) (tx_data t)\<rparr>)"

fun phase_name :: "CrossShardPhase \<Rightarrow> string" where
  "phase_name Prepare = ''Prepare''"
| "phase_name Validate = ''Validate''"
| "phase_name Commit = ''Commit''"

definition receipt_to_rpc :: "'z api_env_scheme \<Rightarrow> CrossShardReceipt \<Rightarrow> RpcCrossShardReceiptView" where
  "receipt_to_rpc E r = \<lparr>rv_tx_hash = encode_hex E (r_tx_hash r), rv_source_shard = r_source_shard r,
     rv_destination_shard = r_destination_shard r, rv_phase = phase_name (r_phase r), rv_proof = encode_hex E (r_proof r)\<rparr>"

definition account_to_rpc :: "'z api_env_scheme \<Rightarrow> bytes \<Rightarrow> Account \<Rightarrow> RpcBalanceResponse" where
  "account_to_rpc E address account = \<lparr>bl_address = encode_hex E address, bl_found = True, bl_balance = a_balance account,
     bl_nonce = a_nonce account, bl_note_commitment_count = length (note_commitments (a_anonymous_state account))\<rparr>"

definition validator_to_rpc :: "'z api_env_scheme \<Rightarrow> Validator \<Rightarrow> RpcValidatorView" where
  "validator_to_rpc E v = \<lparr>vv_address = encode_hex E (v_address v), vv_stake = v_stake v, vv_locked_until = v_locked_until v\<rparr>"

definition block_to_rpc :: "'z api_env_scheme \<Rightarrow> Block \<Rightarrow> RpcBlockResponse panics" where
  "block_to_rpc E block =
     and_then (hash_block_header E (b_header block)) (\<lambda>hash.
       let h = b_header block in
       Inr \<lparr>br_hash = encode_hex E hash,
            br_header = \<lparr>hv_version = h_version h, hv_previous_hash = encode_hex E (h_previous_hash h),
              hv_merkle_root = encode_hex E (h_merkle_root h), hv_timestamp = h_timestamp h, hv_height = h_height h,
              hv_validator = encode_hex E (h_validator h), hv_signature = encode_hex E (h_signature h)\<rparr>,
            br_transactions = map (transaction_to_rpc E) (b_transactions block),
            br_receipts = map (receipt_to_rpc E) (b_receipts block)\<rparr>)"

section \<open>Loading collections\<close>

fun decode_validators :: "'z env_scheme \<Rightarrow> Validator list \<Rightarrow> (bytes \<times> bytes) list \<Rightarrow> Validator list rpc_result" where
  "decode_validators E validators [] = Inr validators"
| "decode_validators E validators ((key, value) # entries) =
     and_then (map_err (\<lambda>e. internal_error (DecodeFailure ''validator entry'' e)) (deserialize (bc_validator E) value)) (\<lambda>v.
       decode_validators E (validators @ [v]) entries)"

definition load_validators :: "'z env_scheme \<Rightarrow> 'd RocksDbStorage \<Rightarrow> Validator list rpc_result" where
  "load_validators E storage =
     and_then (map_err (\<lambda>e. internal_error (StorageFailure ''validators'' e)) (storage_iter (bytes_of STAKE_PREFIX) storage))
       (decode_validators E [])"

text \<open>\<open>dedup\<close> removes consecutive repetitions.\<close>

definition load_note_commitments :: "'z api_env_scheme \<Rightarrow> 'd RocksDbStorage \<Rightarrow> string list rpc_result" where
  "load_note_commitments E storage =
     (let p = bytes_of ANON_NOTE_PREFIX in
      and_then (map_err (\<lambda>e. internal_error (StorageFailure ''note commitments'' e)) (storage_iter p storage)) (\<lambda>entries.
        Inr (remdups_adj (sort (map (\<lambda>(key, _). encode_hex E (drop (length p) key)) (filter (\<lambda>(key, _). prefix p key) entries))))))"

definition parse_block_height_key :: "bytes \<Rightarrow> u64 option" where
  "parse_block_height_key key =
     (if \<not> utf8_valid key then None
      else if \<not> prefix (bytes_of BLOCK_PREFIX) key then None
      else map_option of_nat (parse_uint 64 (drop (length BLOCK_PREFIX) key)))"

fun latest_loop :: "u64 option \<Rightarrow> (bytes \<times> bytes) list \<Rightarrow> u64 option" where
  "latest_loop latest [] = latest"
| "latest_loop latest ((key, value) # entries) =
     latest_loop (case parse_block_height_key key of
         Some height \<Rightarrow> Some (case latest of Some current \<Rightarrow> max current height | None \<Rightarrow> height)
       | None \<Rightarrow> latest) entries"

definition latest_block_height :: "'d RocksDbStorage \<Rightarrow> u64 option rpc_result" where
  "latest_block_height storage =
     and_then (map_err (\<lambda>e. internal_error (StorageFailure ''blocks'' e)) (storage_iter (bytes_of BLOCK_PREFIX) storage))
       (\<lambda>entries. Inr (latest_loop None entries))"

section \<open>Read handlers\<close>

fun option_panics :: "('a \<Rightarrow> 'b panics) \<Rightarrow> 'a option \<Rightarrow> 'b option panics" where
  "option_panics f None = Inr None"
| "option_panics f (Some x) = and_then (f x) (\<lambda>y. Inr (Some y))"

definition rpc_block_at :: "'z api_env_scheme \<Rightarrow> ('d, 'l) RpcState \<Rightarrow> string \<Rightarrow> u64 \<Rightarrow> RpcBlockResponse option rpc_result panics" where
  "rpc_block_at E st what height =
     (case get_block E height (rs_storage st) of
        Inl e \<Rightarrow> Inr (Inl (internal_error (StorageFailure what e)))
      | Inr block \<Rightarrow> and_then (option_panics (block_to_rpc E) block) (\<lambda>r. Inr (Inr r)))"

definition rpc_get_block :: "'z api_env_scheme \<Rightarrow> ('d, 'l) RpcState \<Rightarrow> GetBlockParams \<Rightarrow> RpcBlockResponse option rpc_result panics" where
  "rpc_get_block E st query =
     (case (gb_height query, gb_hash query) of
        (Some height, None) \<Rightarrow> rpc_block_at E st ''block'' height
      | (None, Some hash_hex) \<Rightarrow>
          (case decode_hex E hash_hex ''hash'' of
             Inl e \<Rightarrow> Inr (Inl e)
           | Inr hash_bytes \<Rightarrow>
               (case storage_get (height_index_key hash_bytes) (rs_storage st) of
                  Inl e \<Rightarrow> Inr (Inl (internal_error (StorageFailure ''height index'' e)))
                | Inr None \<Rightarrow> Inr (Inr None)
                | Inr (Some height_bytes) \<Rightarrow>
                    (case deserialize (bc_u64 E) height_bytes of
                       Inl e \<Rightarrow> Inr (Inl (internal_error (DecodeFailure ''block height index'' e)))
                     | Inr height \<Rightarrow> rpc_block_at E st ''indexed block'' height)))
      | (Some _, Some _) \<Rightarrow> Inr (Inl (invalid_params TwoSelectors))
      | (None, None) \<Rightarrow> Inr (Inl (invalid_params NoSelector)))"

definition rpc_get_transaction :: "'z api_env_scheme \<Rightarrow> ('d, 'l) RpcState \<Rightarrow> string \<Rightarrow> RpcTransactionResponse option rpc_result panics" where
  "rpc_get_transaction E st hash_hex =
     (case decode_hex E hash_hex ''hash'' of
        Inl e \<Rightarrow> Inr (Inl e)
      | Inr hash_bytes \<Rightarrow>
          (case get_transaction E hash_bytes (rs_storage st) of
             Inl e \<Rightarrow> Inr (Inl (internal_error (StorageFailure ''transaction'' e)))
           | Inr tx \<Rightarrow>
               and_then (option_panics (\<lambda>t. and_then (hash_transaction E t) (\<lambda>h.
                 Inr \<lparr>tr_hash = encode_hex E h, tr_transaction = transaction_to_rpc E t\<rparr>)) tx) (\<lambda>r. Inr (Inr r))))"

definition rpc_get_balance :: "'z api_env_scheme \<Rightarrow> ('d, 'l) RpcState \<Rightarrow> string \<Rightarrow> RpcBalanceResponse rpc_result" where
  "rpc_get_balance E st address_hex =
     and_then (decode_hex E address_hex ''address'') (\<lambda>address.
     and_then (map_err (\<lambda>e. internal_error (StorageFailure ''account'' e)) (get_account E address (rs_storage st))) (\<lambda>account.
       Inr (case account of
          Some a \<Rightarrow> account_to_rpc E address a
        | None \<Rightarrow> \<lparr>bl_address = encode_hex E address, bl_found = False, bl_balance = 0, bl_nonce = 0,
            bl_note_commitment_count = 0\<rparr>)))"

definition rpc_get_info :: "'z api_env_scheme \<Rightarrow> ('d, 'l) RpcState \<Rightarrow> RpcInfoResponse rpc_result" where
  "rpc_get_info E st =
     and_then (latest_block_height (rs_storage st)) (\<lambda>latest.
     and_then (load_validators E (rs_storage st)) (\<lambda>validators.
     and_then (load_note_commitments E (rs_storage st)) (\<lambda>commitments.
       Inr \<lparr>in_name = ''Prims'', in_rpc_version = ''0.1'', in_storage_backend = ''rocksdb'',
            in_latest_block_height = latest, in_mempool_size = mempool_len (rs_mempool st),
            in_validator_count = length validators, in_note_commitment_count = length commitments\<rparr>)))"

definition rpc_get_validators :: "'z api_env_scheme \<Rightarrow> ('d, 'l) RpcState \<Rightarrow> RpcValidatorView list rpc_result" where
  "rpc_get_validators E st =
     and_then (load_validators E (rs_storage st)) (\<lambda>validators.
       Inr (map (validator_to_rpc E) (sort_key v_address validators)))"

definition rpc_get_note_commitments :: "'z api_env_scheme \<Rightarrow> ('d, 'l) RpcState \<Rightarrow> string list rpc_result" where
  "rpc_get_note_commitments E st = load_note_commitments E (rs_storage st)"

section \<open>Submitting a transaction\<close>

definition sender_balance :: "Account option \<Rightarrow> u64" where
  "sender_balance acc = (case acc of Some account \<Rightarrow> a_balance account | None \<Rightarrow> 0)"

text \<open>The fee check that deployments, calls and unstaking share.\<close>

definition check_fee :: "Transaction \<Rightarrow> Account option \<Rightarrow> unit rpc_result" where
  "check_fee t acc =
     (if tx_fee t \<noteq> FIXED_TRANSACTION_FEE then Inl (validation_error (RejectedFee FIXED_TRANSACTION_FEE (tx_fee t)))
      else if sender_balance acc < tx_fee t then Inl (validation_error (FeeNotCovered (sender_balance acc) (tx_fee t)))
      else Inr ())"

definition admit_deploy :: "Transaction \<Rightarrow> Account option \<Rightarrow> unit rpc_result" where
  "admit_deploy t acc =
     and_then (check_fee t acc) (\<lambda>_.
     and_then (ok_or (validation_error DeployWithoutCode) (tx_data t)) (\<lambda>code_wasm.
       if code_wasm = [] then Inl (validation_error DeployEmptyCode)
       else if tx_amount t \<noteq> 0 then Inl (validation_error (DeployAmount (tx_amount t)))
       else if tx_to t = [] then Inl (validation_error DeployEmptyTarget)
       else Inr ()))"

definition admit_call_payload :: "'z env_scheme \<Rightarrow> Transaction \<Rightarrow> Account option \<Rightarrow> ContractCallPayload rpc_result" where
  "admit_call_payload E t acc =
     and_then (check_fee t acc) (\<lambda>_.
       if tx_amount t \<noteq> 0 then Inl (validation_error (CallAmount (tx_amount t)))
       else if tx_to t = [] then Inl (validation_error CallEmptyTarget)
       else and_then (ok_or (validation_error CallWithoutPayload) (tx_data t)) (\<lambda>payload_bytes.
         and_then (map_err (\<lambda>e. validation_error (CallPayloadInvalid e)) (deserialize (bc_payload E) payload_bytes)) (\<lambda>p.
           if trim (p_method p) = [] then Inl (validation_error CallEmptyMethod)
           else if p_gas_limit p = 0 then Inl (validation_error CallZeroGas)
           else Inr p)))"

definition admit_call :: "('m, 'g) wasmtime \<Rightarrow> 'z env_scheme \<Rightarrow> Transaction \<Rightarrow> Account option \<Rightarrow> 'd RocksDbStorage
    \<Rightarrow> ('d RocksDbStorage \<times> unit rpc_result) option" where
  "admit_call W E t acc storage =
     (case admit_call_payload E t acc of
        Inl e \<Rightarrow> Some (storage, Inl e)
      | Inr p \<Rightarrow>
          map_option (\<lambda>(storage', r). (storage', case r of Inl e \<Rightarrow> Inl (validation_error (CallFailed e)) | Inr _ \<Rightarrow> Inr ()))
            (execute_contract_call W E \<lparr>ctx_contract_address = tx_to t, ctx_caller = tx_from t, ctx_block_height = 0,
               ctx_shard_id = tx_destination_shard t\<rparr> (p_method p) (p_params p) (p_gas_limit p) storage))"

text \<open>The match on the transaction type.\<close>

definition admit :: "('m, 'g) wasmtime \<Rightarrow> 'z env_scheme \<Rightarrow> Transaction \<Rightarrow> Account option \<Rightarrow> 'd RocksDbStorage
    \<Rightarrow> ('d RocksDbStorage \<times> unit rpc_result) option" where
  "admit W E t acc storage =
     (case tx_type t of
        DeployContract \<Rightarrow> Some (storage, admit_deploy t acc)
      | CallContract \<Rightarrow> admit_call W E t acc storage
      | Unstake \<Rightarrow> Some (storage, check_fee t acc)
      | _ \<Rightarrow> Some (storage, map_err (\<lambda>e. validation_error (RejectedBy e)) (validate_transaction_balance t acc)))"

text \<open>The checks before the match: decoding, size, key, signature, account, nonce.\<close>

definition check_submission :: "'z api_env_scheme \<Rightarrow> ('d, 'l) RpcState \<Rightarrow> string \<Rightarrow> (Transaction \<times> Account option) rpc_result" where
  "check_submission E st hex_tx =
     and_then (decode_hex E hex_tx ''hex_tx'') (\<lambda>tx_bytes.
     and_then (map_err (\<lambda>e. invalid_params (NotATransaction e)) (deserialize (bc_transaction E) tx_bytes)) (\<lambda>t.
     and_then (map_err (\<lambda>e. validation_error (RejectedBy e)) (validate_transaction_size E t)) (\<lambda>_.
     and_then (try_into_array 32 (validation_error SenderKeyLength) (tx_from t)) (\<lambda>sender_public_key.
     and_then (map_err (\<lambda>e. validation_error (SignatureError e)) (verify_transaction E t sender_public_key)) (\<lambda>ok.
     if \<not> ok then Inl (validation_error SignatureInvalid) else
     and_then (map_err (\<lambda>e. internal_error (StorageFailure ''sender account'' e)) (get_account E (tx_from t) (rs_storage st))) (\<lambda>acc.
     and_then (map_err (\<lambda>e. validation_error (RejectedBy e)) (validate_transaction_nonce t acc)) (\<lambda>_.
       Inr (t, acc))))))))"

definition send_transaction :: "('m, 'g) wasmtime \<Rightarrow> 'z api_env_scheme \<Rightarrow> ('d, 'l) RpcState \<Rightarrow> string
    \<Rightarrow> (('d, 'l) RpcState \<times> RpcSendTransactionResponse rpc_result) panics option" where
  "send_transaction W E st hex_tx =
     (case check_submission E st hex_tx of
        Inl e \<Rightarrow> Some (Inr (st, Inl e))
      | Inr (t, acc) \<Rightarrow>
          (case admit W E t acc (rs_storage st) of
             None \<Rightarrow> None
           | Some (storage, Inl e) \<Rightarrow> Some (Inr (st\<lparr>rs_storage := storage\<rparr>, Inl e))
           | Some (storage, Inr _) \<Rightarrow>
               Some (and_then (hash_transaction E t) (\<lambda>tx_hash.
                 let mempool = add_transaction (rs_mempool st) t in
                 Inr (st\<lparr>rs_storage := storage, rs_mempool := mempool\<rparr>,
                   Inr \<lparr>sr_accepted = True, sr_tx_hash = encode_hex E tx_hash, sr_mempool_size = mempool_len mempool\<rparr>)))))"

section \<open>The RPC module\<close>

text \<open>
  \<open>build_rpc_module\<close>: the registered methods, each with its raw parameters \<open>'j\<close>.
  Every method first asks the rate limiter, then parses its parameters, then runs.
\<close>

datatype 'j rpc_request =
    ReqGetBlock 'j
  | ReqGetTransaction 'j
  | ReqSendTransaction 'j
  | ReqGetBalance 'j
  | ReqGetInfo
  | ReqGetValidators
  | ReqGetNoteCommitments

datatype rpc_response =
    RespBlock "RpcBlockResponse option"
  | RespTransaction "RpcTransactionResponse option"
  | RespSend RpcSendTransactionResponse
  | RespBalance RpcBalanceResponse
  | RespInfo RpcInfoResponse
  | RespValidators "RpcValidatorView list"
  | RespNoteCommitments "string list"

record 'j rpc_parser =
  parse_get_block :: "'j \<Rightarrow> string + GetBlockParams"
  parse_hash :: "'j \<Rightarrow> string + HashParam"
  parse_send :: "'j \<Rightarrow> string + SendTransactionParams"
  parse_address :: "'j \<Rightarrow> string + AddressParam"

definition answer :: "('a \<Rightarrow> rpc_response) \<Rightarrow> 's \<Rightarrow> 'a rpc_result panics \<Rightarrow> ('s \<times> rpc_response rpc_result) panics option" where
  "answer f st r = Some (and_then r (\<lambda>x. Inr (st, and_then x (\<lambda>y. Inr (f y)))))"

definition bad_params :: "string \<Rightarrow> string \<Rightarrow> ErrorObject" where
  "bad_params method e = invalid_params (BadParams method e)"

fun rpc_method :: "('m, 'g) wasmtime \<Rightarrow> 'z api_env_scheme \<Rightarrow> 'j rpc_parser \<Rightarrow> ('d, 'l) RpcState \<Rightarrow> 'j rpc_request
    \<Rightarrow> (('d, 'l) RpcState \<times> rpc_response rpc_result) panics option" where
  "rpc_method W E J st (ReqGetBlock j) =
     (case parse_get_block J j of
        Inl e \<Rightarrow> Some (Inr (st, Inl (bad_params ''get_block'' e)))
      | Inr query \<Rightarrow> answer RespBlock st (rpc_get_block E st query))"
| "rpc_method W E J st (ReqGetTransaction j) =
     (case parse_hash J j of
        Inl e \<Rightarrow> Some (Inr (st, Inl (bad_params ''get_transaction'' e)))
      | Inr query \<Rightarrow> answer RespTransaction st (rpc_get_transaction E st (hp_hash query)))"
| "rpc_method W E J st (ReqSendTransaction j) =
     (case parse_send J j of
        Inl e \<Rightarrow> Some (Inr (st, Inl (bad_params ''send_transaction'' e)))
      | Inr query \<Rightarrow>
          map_option (\<lambda>r. and_then r (\<lambda>(st', x). Inr (st', and_then x (\<lambda>y. Inr (RespSend y)))))
            (send_transaction W E st (st_hex_tx query)))"
| "rpc_method W E J st (ReqGetBalance j) =
     (case parse_address J j of
        Inl e \<Rightarrow> Some (Inr (st, Inl (bad_params ''get_balance'' e)))
      | Inr query \<Rightarrow> answer RespBalance st (Inr (rpc_get_balance E st (ap_address query))))"
| "rpc_method W E J st ReqGetInfo = answer RespInfo st (Inr (rpc_get_info E st))"
| "rpc_method W E J st ReqGetValidators = answer RespValidators st (Inr (rpc_get_validators E st))"
| "rpc_method W E J st ReqGetNoteCommitments = answer RespNoteCommitments st (Inr (rpc_get_note_commitments E st))"

definition rpc_call :: "('m, 'g) wasmtime \<Rightarrow> 'z api_env_scheme \<Rightarrow> 'l governor \<Rightarrow> 'j rpc_parser \<Rightarrow> ('d, 'l) RpcState \<Rightarrow> 'j rpc_request
    \<Rightarrow> (('d, 'l) RpcState \<times> rpc_response rpc_result) panics option" where
  "rpc_call W E L J st req =
     (case check_rate_limit L st of
        (st', Inl e) \<Rightarrow> Some (Inr (st', Inl e))
      | (st', Inr _) \<Rightarrow> rpc_method W E J st' req)"

end
