(* ===== verification/Json.thy ===== *)
theory Json
  imports Prelude
begin

text \<open>
  \<open>serde_json::Value\<close> and the accessors the clients use on it. An object is an association list
  with the keys in the order of the map; a number that is not an integer keeps its text.
\<close>

datatype json =
    JNull
  | JBool bool
  | JInt int
  | JFloat string
  | JStr string
  | JArr "json list"
  | JObj "(string \<times> json) list"

text \<open>\<open>Value::get\<close> with a string, \<open>as_str\<close>, \<open>as_i64\<close>, \<open>as_u64\<close>.\<close>

fun json_get :: "string \<Rightarrow> json \<Rightarrow> json option" where
  "json_get k (JObj kvs) = map_of kvs k"
| "json_get k _ = None"

fun as_str :: "json \<Rightarrow> string option" where
  "as_str (JStr s) = Some s"
| "as_str _ = None"

fun as_i64 :: "json \<Rightarrow> int option" where
  "as_i64 (JInt n) = (if - (2 ^ 63) \<le> n \<and> n < 2 ^ 63 then Some n else None)"
| "as_i64 _ = None"

fun as_u64 :: "json \<Rightarrow> u64 option" where
  "as_u64 (JInt n) = (if 0 \<le> n \<and> n < 2 ^ 64 then Some (of_int n) else None)"
| "as_u64 _ = None"

definition get_str :: "string \<Rightarrow> json \<Rightarrow> string option" where
  "get_str k j = Option.bind (json_get k j) as_str"

lemma as_u64_unat: "as_u64 (JInt (int (unat (w :: u64)))) = Some w"
proof -
  have "unat w < 2 ^ 64" using unsigned_less [of w] by simp
  then have "int (unat w) < 2 ^ 64" by (metis of_nat_less_iff of_nat_numeral of_nat_power)
  then show ?thesis by simp
qed

section \<open>JSON-RPC\<close>

text \<open>The body that both clients post.\<close>

definition jsonrpc_request :: "string \<Rightarrow> json \<Rightarrow> json" where
  "jsonrpc_request meth params =
     JObj [(''jsonrpc'', JStr ''2.0''), (''id'', JInt 1), (''method'', JStr meth), (''params'', params)]"

text \<open>The outcome of \<open>send()\<close> and \<open>json()\<close>: a status with a decoded body or a decoding error.\<close>

type_synonym http_response = "nat \<times> (json, string) result"

definition jsonrpc_result :: "json \<Rightarrow> json" where
  "jsonrpc_result r = JObj [(''jsonrpc'', JStr ''2.0''), (''id'', JInt 1), (''result'', r)]"

definition jsonrpc_error :: "int \<Rightarrow> string \<Rightarrow> json" where
  "jsonrpc_error code message =
     JObj [(''jsonrpc'', JStr ''2.0''), (''id'', JInt 1), (''error'', JObj [(''code'', JInt code), (''message'', JStr message)])]"

end
