(* ===== verification/Cli.thy ===== *)
theory Cli
  imports Api Network Files Json
begin

text \<open>
  \<open>src/src/bin/prims-cli.rs\<close>, except the \<open>flood\<close> command (theory \<open>Flood\<close>): the commands of
  the user client. The world the client acts on, with the terminal, the files and the HTTP
  connection, is a parameter \<open>world_ops\<close>; a command returns the value it prints. The crates
  \<open>hex\<close>, \<open>serde_json\<close>, \<open>age\<close> and the derived deserialisers of the responses are the fields
  of \<open>cli_env\<close>.
\<close>

section \<open>Data\<close>

definition DEFAULT_RPC_URL :: string where "DEFAULT_RPC_URL = ''http://127.0.0.1:7002''"

datatype Commands =
    GenerateKey "string option"
  | Balance string
  | Send string u64 bool u16 u16
  | StakeCommand u64 u64
  | UnstakeCommand
  | ListValidators
  | CreateContract string
  | CallContractCommand string string string u64

record CliBalanceResponse =
  cb_address :: string
  cb_found :: bool
  cb_balance :: u64
  cb_nonce :: u64
  cb_note_commitment_count :: nat
  cb_viewing_hint :: "string option"

record TransactionSubmissionOutput =
  so_rpc_url :: string
  so_from :: string
  so_to :: string
  so_tx_type :: string
  so_stake_duration :: "u64 option"
  so_amount :: u64
  so_fee :: u64
  so_nonce :: u64
  so_source_shard :: u16
  so_destination_shard :: u16
  so_accepted :: bool
  so_tx_hash :: string
  so_mempool_size :: nat

record SenderContext =
  sc_secret_key :: bytes
  sc_public_key :: bytes
  sc_address_hex :: string
  sc_next_nonce :: u64

datatype cli_error =
    HttpFailed string string string
  | ResponseNotJson string
  | RpcFailed "int option" string
  | UnexpectedPayload nat json
  | ResultMismatch string string
  | HexInvalid string string
  | Not32Bytes string
  | KeyContentNotJson string
  | KeyFieldsMissing
  | KeyVariablesMissing
  | SecretFileUnreadable string string
  | DecryptFailed string string
  | DecryptedNotUtf8 string
  | EncryptFailed string
  | SecretFileNotCreated string string
  | SecretFileNotWritten string string
  | PromptFailed string
  | EmptyPassphrase
  | PassphraseMismatch
  | SignFailed crypto_error
  | BincodeFailed string
  | WasmUnreadable string string
  | EmptyWasm
  | EmptyMethod
  | ZeroGasLimit
  | ParamsNotJson string
  | ParamsNotSerialized string

text \<open>What a command prints.\<close>

datatype cli_output =
    PrintKey string string
  | PrintEncryptedKey string string
  | PrintBalance CliBalanceResponse
  | PrintValidators "RpcValidatorView list"
  | PrintSubmission TransactionSubmissionOutput
  | PrintDeployment TransactionSubmissionOutput string string nat
  | PrintCall TransactionSubmissionOutput string string json u64

record cli_env = api_env +
  json_from_str :: "string \<Rightarrow> (json, string) result"
  json_to_vec :: "json \<Rightarrow> (bytes, string) result"
  age_encrypt :: "string \<Rightarrow> bytes \<Rightarrow> (string, string) result"
  age_decrypt :: "string \<Rightarrow> bytes \<Rightarrow> (bytes, string) result"
  de_balance :: "json \<Rightarrow> (CliBalanceResponse, string) result"
  de_validators :: "json \<Rightarrow> (RpcValidatorView list, string) result"
  de_send :: "json \<Rightarrow> (RpcSendTransactionResponse, string) result"

record 'w world_ops =
  fs_read :: "string \<Rightarrow> 'w \<Rightarrow> (bytes, string) result"
  fs_create_new :: "string \<Rightarrow> ('w, unit, string) io"
  fs_write_all :: "string \<Rightarrow> bytes \<Rightarrow> ('w, unit, string) io"
  prompt_password :: "string \<Rightarrow> ('w, string, string) io"
  http_post :: "string \<Rightarrow> json \<Rightarrow> ('w, http_response, string) io"
  os_random :: "'w \<Rightarrow> 'w \<times> bytes"

section \<open>Key material\<close>

definition decode_hex_vec :: "'z api_env_scheme \<Rightarrow> string \<Rightarrow> string \<Rightarrow> (bytes, cli_error) result" where
  "decode_hex_vec E label value = map_err (HexInvalid label) (hex_decode E (strip_hex_prefix (trim value)))"

definition cli_decode_hex_32 :: "'z api_env_scheme \<Rightarrow> string \<Rightarrow> string \<Rightarrow> (bytes, cli_error) result" where
  "cli_decode_hex_32 E label value =
     and_then (decode_hex_vec E label value) (\<lambda>bs. try_into_array 32 (Not32Bytes label) bs)"

definition parse_secret_key_material :: "'z cli_env_scheme \<Rightarrow> string \<Rightarrow> (bytes, cli_error) result" where
  "parse_secret_key_material E input =
     (let trimmed = trim input in
      if take 1 trimmed = ''{'' then
        and_then (map_err KeyContentNotJson (json_from_str E trimmed)) (\<lambda>json_value.
          case get_str ''secret_key'' json_value of
            Some key \<Rightarrow> cli_decode_hex_32 E ''secret_key'' key
          | None \<Rightarrow> (case get_str ''secret_key_hex'' json_value of
                Some key \<Rightarrow> cli_decode_hex_32 E ''secret_key_hex'' key
              | None \<Rightarrow> Inl KeyFieldsMissing))
      else cli_decode_hex_32 E ''secret_key'' trimmed)"

definition is_ascii_hexdigit :: "char \<Rightarrow> bool" where
  "is_ascii_hexdigit c \<longleftrightarrow> (let n = of_char c :: nat in (48 \<le> n \<and> n \<le> 57) \<or> (97 \<le> n \<and> n \<le> 102) \<or> (65 \<le> n \<and> n \<le> 70))"

definition looks_like_plaintext_hex_secret :: "string \<Rightarrow> bool" where
  "looks_like_plaintext_hex_secret value =
     (let normalized = strip_hex_prefix (trim value) in normalized \<noteq> [] \<and> list_all is_ascii_hexdigit normalized)"

definition prompt_existing_passphrase :: "'w world_ops \<Rightarrow> string \<Rightarrow> ('w, string, cli_error) io" where
  "prompt_existing_passphrase W path =
     io_bind (io_context PromptFailed (prompt_password W (''Mot de passe pour '' @ path @ '': ''))) (\<lambda>password.
       io_lift (if trim password = [] then Inl EmptyPassphrase else Inr password))"

definition decrypt_secret_key_file :: "'z cli_env_scheme \<Rightarrow> 'w world_ops \<Rightarrow> string \<Rightarrow> bytes \<Rightarrow> ('w, bytes, cli_error) io" where
  "decrypt_secret_key_file E W path ciphertext =
     io_bind (prompt_existing_passphrase W path) (\<lambda>passphrase.
     io_lift (and_then (map_err (DecryptFailed path) (age_decrypt E passphrase ciphertext)) (\<lambda>plaintext.
       if utf8_valid plaintext then parse_secret_key_material E (text_of plaintext) else Inl (DecryptedNotUtf8 path))))"

definition parse_secret_key_file_contents :: "'z cli_env_scheme \<Rightarrow> 'w world_ops \<Rightarrow> string \<Rightarrow> bytes \<Rightarrow> ('w, bytes, cli_error) io" where
  "parse_secret_key_file_contents E W path raw =
     (let trimmed = trim (text_of raw) in
      if utf8_valid raw \<and> (take 1 trimmed = ''{'' \<or> looks_like_plaintext_hex_secret trimmed)
      then io_lift (parse_secret_key_material E (text_of raw))
      else decrypt_secret_key_file E W path raw)"

definition load_secret_key :: "'z cli_env_scheme \<Rightarrow> 'w world_ops \<Rightarrow> process_env \<Rightarrow> ('w, bytes, cli_error) io" where
  "load_secret_key E W vars =
     (case vars ''PRIMS_SECRET_KEY_FILE'' of
        Some path \<Rightarrow>
          io_bind (io_reads (\<lambda>w. map_err (SecretFileUnreadable path) (fs_read W path w))) (\<lambda>raw.
            parse_secret_key_file_contents E W path raw)
      | None \<Rightarrow> (case vars ''PRIMS_SECRET_KEY_HEX'' of
            Some value \<Rightarrow> io_lift (parse_secret_key_material E value)
          | None \<Rightarrow> io_lift (Inl KeyVariablesMissing)))"

section \<open>Writing a key\<close>

definition prompt_new_passphrase :: "'w world_ops \<Rightarrow> ('w, string, cli_error) io" where
  "prompt_new_passphrase W =
     io_bind (io_context PromptFailed (prompt_password W (''Mot de passe du fichier chiffr'' @ [CHR 0xC3, CHR 0xA9] @ '': ''))) (\<lambda>first.
     io_bind (io_context PromptFailed (prompt_password W ''Confirme le mot de passe: '')) (\<lambda>second.
     io_lift (if trim first = [] then Inl EmptyPassphrase
              else if first \<noteq> second then Inl PassphraseMismatch
              else Inr first)))"

definition write_encrypted_secret_key_file :: "'z cli_env_scheme \<Rightarrow> 'w world_ops \<Rightarrow> string \<Rightarrow> bytes \<Rightarrow> ('w, unit, cli_error) io" where
  "write_encrypted_secret_key_file E W path key =
     io_bind (prompt_new_passphrase W) (\<lambda>passphrase.
     let plaintext = bytes_of (hex_encode E key) in
     io_bind (io_lift (map_err EncryptFailed (age_encrypt E passphrase plaintext))) (\<lambda>ciphertext.
     io_bind (io_context (SecretFileNotCreated path) (fs_create_new W path)) (\<lambda>_.
     io_bind (io_context (SecretFileNotWritten path) (fs_write_all W path (bytes_of ciphertext))) (\<lambda>_.
     if ciphertext \<noteq> [] \<and> last ciphertext = CHR 10 then io_lift (Inr ())
     else io_context (SecretFileNotWritten path) (fs_write_all W path [10])))))"

definition generate_key_command :: "'z cli_env_scheme \<Rightarrow> 'w world_ops \<Rightarrow> string option \<Rightarrow> ('w, cli_output, cli_error) io" where
  "generate_key_command E W encrypted_file w =
     (let (w1, random) = os_random W w; pair = generate_keypair E random in
      case encrypted_file of
        Some path \<Rightarrow> io_bind (write_encrypted_secret_key_file E W path (secret_key pair)) (\<lambda>_.
          io_lift (Inr (PrintEncryptedKey (hex_encode E (public_key pair)) path))) w1
      | None \<Rightarrow> (w1, Inr (PrintKey (hex_encode E (public_key pair)) (hex_encode E (secret_key pair)))))"

section \<open>Calling the RPC interface\<close>

definition interpret_payload :: "nat \<Rightarrow> json \<Rightarrow> (json, cli_error) result" where
  "interpret_payload status reply =
     (case json_get ''result'' reply of
        Some r \<Rightarrow> Inr r
      | None \<Rightarrow> (case json_get ''error'' reply of
            Some e \<Rightarrow> Inl (RpcFailed (Option.bind (json_get ''code'' e) as_i64)
              (case get_str ''message'' e of Some m \<Rightarrow> m | None \<Rightarrow> ''unknown RPC error''))
          | None \<Rightarrow> Inl (UnexpectedPayload status reply)))"

definition cli_rpc_call :: "'w world_ops \<Rightarrow> (json \<Rightarrow> ('a, string) result) \<Rightarrow> string \<Rightarrow> string \<Rightarrow> json \<Rightarrow> ('w, 'a, cli_error) io" where
  "cli_rpc_call W de rpc_url meth params =
     io_bind (io_context (HttpFailed rpc_url meth) (http_post W rpc_url (jsonrpc_request meth params))) (\<lambda>(status, body).
     io_lift (and_then (map_err ResponseNotJson body) (\<lambda>payload.
              and_then (interpret_payload status payload) (\<lambda>r. map_err (ResultMismatch meth) (de r)))))"

definition load_sender_context :: "'z cli_env_scheme \<Rightarrow> 'w world_ops \<Rightarrow> process_env \<Rightarrow> string \<Rightarrow> ('w, SenderContext, cli_error) io" where
  "load_sender_context E W vars rpc_url =
     io_bind (load_secret_key E W vars) (\<lambda>key.
     let pub = signing_public E key; address_hex = hex_encode E pub in
     io_bind (cli_rpc_call W (de_balance E) rpc_url ''get_balance'' (JObj [(''address'', JStr address_hex)])) (\<lambda>balance.
     io_lift (Inr \<lparr>sc_secret_key = key, sc_public_key = pub, sc_address_hex = address_hex,
       sc_next_nonce = saturating_add (cb_nonce balance) 1\<rparr>)))"

fun tx_type_view :: "TransactionType \<Rightarrow> string \<times> u64 option" where
  "tx_type_view Transfer = (''Transfer'', None)"
| "tx_type_view (Stake duration) = (''Stake'', Some duration)"
| "tx_type_view Unstake = (''Unstake'', None)"
| "tx_type_view PublicToAnon = (''PublicToAnon'', None)"
| "tx_type_view AnonToPublic = (''AnonToPublic'', None)"
| "tx_type_view DeployContract = (''DeployContract'', None)"
| "tx_type_view CallContract = (''CallContract'', None)"

definition submitted_transaction :: "SenderContext \<Rightarrow> TransactionType \<Rightarrow> bytes \<Rightarrow> u64 \<Rightarrow> u16 \<Rightarrow> u16 \<Rightarrow> bytes option \<Rightarrow> Transaction" where
  "submitted_transaction sender ty to amount source_shard destination_shard data =
     \<lparr>tx_type = ty, tx_from = sc_public_key sender, tx_to = to, tx_amount = amount, tx_fee = FIXED_TRANSACTION_FEE,
      tx_nonce = sc_next_nonce sender, tx_source_shard = source_shard, tx_destination_shard = destination_shard,
      tx_signature = [], tx_data = data\<rparr>"

definition submit_transaction :: "'z cli_env_scheme \<Rightarrow> 'w world_ops \<Rightarrow> string \<Rightarrow> SenderContext \<Rightarrow> TransactionType \<Rightarrow> bytes \<Rightarrow> u64
    \<Rightarrow> u16 \<Rightarrow> u16 \<Rightarrow> bytes option \<Rightarrow> ('w, TransactionSubmissionOutput, cli_error) io" where
  "submit_transaction E W rpc_url sender ty to amount source_shard destination_shard data =
     (let (tx_type_name, duration) = tx_type_view ty;
          transaction = submitted_transaction sender ty to amount source_shard destination_shard data in
      io_bind (io_lift (map_err SignFailed (sign_transaction E transaction (sc_secret_key sender)))) (\<lambda>signature.
      io_bind (io_lift (map_err BincodeFailed (serialize (bc_transaction E) (transaction\<lparr>tx_signature := signature\<rparr>)))) (\<lambda>tx_bytes.
      io_bind (cli_rpc_call W (de_send E) rpc_url ''send_transaction'' (JObj [(''hex_tx'', JStr (hex_encode E tx_bytes))])) (\<lambda>response.
      io_lift (Inr \<lparr>so_rpc_url = rpc_url, so_from = sc_address_hex sender, so_to = hex_encode E to, so_tx_type = tx_type_name,
        so_stake_duration = duration, so_amount = amount, so_fee = FIXED_TRANSACTION_FEE, so_nonce = tx_nonce transaction,
        so_source_shard = source_shard, so_destination_shard = destination_shard, so_accepted = sr_accepted response,
        so_tx_hash = sr_tx_hash response, so_mempool_size = sr_mempool_size response\<rparr>)))))"

section \<open>Commands\<close>

definition balance_command :: "'z cli_env_scheme \<Rightarrow> 'w world_ops \<Rightarrow> string \<Rightarrow> string \<Rightarrow> ('w, cli_output, cli_error) io" where
  "balance_command E W rpc_url address =
     io_bind (io_lift (decode_hex_vec E ''address'' address)) (\<lambda>address_bytes.
     io_bind (cli_rpc_call W (de_balance E) rpc_url ''get_balance'' (JObj [(''address'', JStr (hex_encode E address_bytes))])) (\<lambda>response.
     io_lift (Inr (PrintBalance response))))"

definition list_validators_command :: "'z cli_env_scheme \<Rightarrow> 'w world_ops \<Rightarrow> string \<Rightarrow> ('w, cli_output, cli_error) io" where
  "list_validators_command E W rpc_url =
     io_bind (cli_rpc_call W (de_validators E) rpc_url ''get_validators'' (JObj [])) (\<lambda>validators.
     io_lift (Inr (PrintValidators validators)))"

definition send_command :: "'z cli_env_scheme \<Rightarrow> 'w world_ops \<Rightarrow> process_env \<Rightarrow> string \<Rightarrow> string \<Rightarrow> u64 \<Rightarrow> bool \<Rightarrow> u16 \<Rightarrow> u16
    \<Rightarrow> ('w, cli_output, cli_error) io" where
  "send_command E W vars rpc_url to amount anon source_shard destination_shard =
     io_bind (load_sender_context E W vars rpc_url) (\<lambda>sender.
     io_bind (io_lift (decode_hex_vec E ''to'' to)) (\<lambda>recipient.
     io_bind (submit_transaction E W rpc_url sender (if anon then PublicToAnon else Transfer) recipient amount
         source_shard destination_shard (Some (bytes_of (if anon then ''prims-cli-send-anon'' else ''prims-cli-send'')))) (\<lambda>out.
     io_lift (Inr (PrintSubmission out)))))"

definition stake_command :: "'z cli_env_scheme \<Rightarrow> 'w world_ops \<Rightarrow> process_env \<Rightarrow> string \<Rightarrow> u64 \<Rightarrow> u64 \<Rightarrow> ('w, cli_output, cli_error) io" where
  "stake_command E W vars rpc_url amount duration =
     io_bind (load_sender_context E W vars rpc_url) (\<lambda>sender.
     io_bind (submit_transaction E W rpc_url sender (Stake duration) (sc_public_key sender) amount DEFAULT_SHARD_ID DEFAULT_SHARD_ID
         (Some (bytes_of (''prims-cli-stake:'' @ decimal (unat duration))))) (\<lambda>out.
     io_lift (Inr (PrintSubmission out))))"

definition unstake_command :: "'z cli_env_scheme \<Rightarrow> 'w world_ops \<Rightarrow> process_env \<Rightarrow> string \<Rightarrow> ('w, cli_output, cli_error) io" where
  "unstake_command E W vars rpc_url =
     io_bind (load_sender_context E W vars rpc_url) (\<lambda>sender.
     io_bind (submit_transaction E W rpc_url sender Unstake (sc_public_key sender) 0 DEFAULT_SHARD_ID DEFAULT_SHARD_ID
         (Some (bytes_of ''prims-cli-unstake''))) (\<lambda>out.
     io_lift (Inr (PrintSubmission out))))"

definition create_contract_command :: "'z cli_env_scheme \<Rightarrow> 'w world_ops \<Rightarrow> process_env \<Rightarrow> string \<Rightarrow> string \<Rightarrow> ('w, cli_output, cli_error) io" where
  "create_contract_command E W vars rpc_url wasm_file =
     io_bind (load_sender_context E W vars rpc_url) (\<lambda>sender.
     io_bind (io_reads (\<lambda>w. map_err (WasmUnreadable wasm_file) (fs_read W wasm_file w))) (\<lambda>code_wasm.
     if code_wasm = [] then io_lift (Inl EmptyWasm) else
     let contract_address = derive_contract_address E (sc_public_key sender) code_wasm in
     io_bind (submit_transaction E W rpc_url sender DeployContract contract_address 0 DEFAULT_SHARD_ID DEFAULT_SHARD_ID
         (Some code_wasm)) (\<lambda>out.
     io_lift (Inr (PrintDeployment out (hex_encode E contract_address) wasm_file (length code_wasm))))))"

definition call_contract_command :: "'z cli_env_scheme \<Rightarrow> 'w world_ops \<Rightarrow> process_env \<Rightarrow> string \<Rightarrow> string \<Rightarrow> string \<Rightarrow> string \<Rightarrow> u64
    \<Rightarrow> ('w, cli_output, cli_error) io" where
  "call_contract_command E W vars rpc_url address raw_method params gas_limit =
     io_bind (load_sender_context E W vars rpc_url) (\<lambda>sender.
     io_bind (io_lift (decode_hex_vec E ''address'' address)) (\<lambda>address_bytes.
     let meth = trim raw_method in
     if meth = [] then io_lift (Inl EmptyMethod) else
     if gas_limit = 0 then io_lift (Inl ZeroGasLimit) else
     io_bind (io_lift (map_err ParamsNotJson (json_from_str E params))) (\<lambda>params_json.
     io_bind (io_lift (map_err ParamsNotSerialized (json_to_vec E params_json))) (\<lambda>params_bytes.
     io_bind (io_lift (map_err BincodeFailed
         (serialize (bc_payload E) \<lparr>p_method = meth, p_params = params_bytes, p_gas_limit = gas_limit\<rparr>))) (\<lambda>payload_bytes.
     io_bind (submit_transaction E W rpc_url sender CallContract address_bytes 0 DEFAULT_SHARD_ID DEFAULT_SHARD_ID
         (Some payload_bytes)) (\<lambda>out.
     io_lift (Inr (PrintCall out (hex_encode E address_bytes) meth params_json gas_limit))))))))"

definition cli_main :: "'z cli_env_scheme \<Rightarrow> 'w world_ops \<Rightarrow> process_env \<Rightarrow> Commands \<Rightarrow> ('w, cli_output, cli_error) io" where
  "cli_main E W vars command =
     (let rpc_url = (case vars ''PRIMS_RPC_URL'' of Some url \<Rightarrow> url | None \<Rightarrow> DEFAULT_RPC_URL) in
      case command of
        GenerateKey encrypted_file \<Rightarrow> generate_key_command E W encrypted_file
      | Balance address \<Rightarrow> balance_command E W rpc_url address
      | Send to amount anon source_shard destination_shard \<Rightarrow>
          send_command E W vars rpc_url to amount anon source_shard destination_shard
      | StakeCommand amount duration \<Rightarrow> stake_command E W vars rpc_url amount duration
      | UnstakeCommand \<Rightarrow> unstake_command E W vars rpc_url
      | ListValidators \<Rightarrow> list_validators_command E W rpc_url
      | CreateContract wasm_file \<Rightarrow> create_contract_command E W vars rpc_url wasm_file
      | CallContractCommand address meth params gas_limit \<Rightarrow>
          call_contract_command E W vars rpc_url address meth params gas_limit)"

end
