(* ===== verification/Explorer.thy ===== *)
theory Explorer
  imports Cli
begin

text \<open>
  \<open>src/src/bin/prims-explorer.rs\<close>: the web site of the test network. It shows what the RPC
  interface answers and runs a faucet that signs transfers with the key of the environment.
  Handlers return the page they render as a value; the texts of the pages are askama templates,
  which a parameter renders. A rendered JSON answer is kept as the value that is printed, an
  error as the value whose message is printed.
\<close>

section \<open>Data\<close>

datatype explorer_error =
    RequestFailed string
  | UndecodableReply string
  | RpcError "int option" string
  | UnexpectedReply nat json
  | KeyPathUnreadable string string
  | KeyPathNotUtf8 string
  | KeyEmpty
  | KeyJsonError string
  | KeyJsonWithoutFields
  | BadHexField string string
  | FieldNot32Bytes string
  | AmountInvalid
  | ShardInvalid string
  | FaucetOff faucet_reason
  | RecipientNot32Bytes
  | BalanceWithoutNonce json
  | FaucetSignFailed crypto_error
  | FaucetEncodeFailed string
and faucet_reason =
    NoFaucetKey
  | InvalidFaucetConfig explorer_error

record FaucetConfig =
  fc_secret_key :: bytes
  fc_public_key :: bytes
  fc_amount :: u64
  fc_source_shard :: u16
  fc_destination_shard :: u16

datatype FaucetMode =
    Disabled faucet_reason
  | Enabled FaucetConfig

record ExplorerState =
  ex_rpc_url :: string
  ex_faucet_mode :: FaucetMode

datatype json_view =
    ShownJson json
  | ShownError explorer_error
  | FaucetInactive

record HomeTemplate =
  ht_rpc_url :: string
  ht_faucet_enabled :: bool
  ht_faucet_status :: "faucet_reason option"
  ht_faucet_sender_address :: string
  ht_faucet_amount :: u64
  ht_faucet_account_json :: json_view
  ht_info_json :: json_view
  ht_validators_json :: json_view
  ht_note_commitments_json :: json_view

record AddressTemplate =
  at_rpc_url :: string
  at_address :: string
  at_balance_json :: json_view

record FaucetTemplate =
  ft_rpc_url :: string
  ft_address :: string
  ft_success :: bool
  ft_response_json :: json_view

datatype page =
    HomePage HomeTemplate
  | AddressPage AddressTemplate
  | FaucetPage FaucetTemplate

section \<open>Configuration\<close>

definition explorer_decode_hex_vec :: "'z api_env_scheme \<Rightarrow> string \<Rightarrow> string \<Rightarrow> (bytes, explorer_error) result" where
  "explorer_decode_hex_vec E label value = map_err (BadHexField label) (hex_decode E (strip_hex_prefix (trim value)))"

definition explorer_decode_hex_32 :: "'z api_env_scheme \<Rightarrow> string \<Rightarrow> string \<Rightarrow> (bytes, explorer_error) result" where
  "explorer_decode_hex_32 E label value =
     and_then (explorer_decode_hex_vec E label value) (\<lambda>bs. try_into_array 32 (FieldNot32Bytes label) bs)"

definition explorer_parse_secret_key_material :: "'z cli_env_scheme \<Rightarrow> string \<Rightarrow> (bytes, explorer_error) result" where
  "explorer_parse_secret_key_material E input =
     (let trimmed = trim input in
      if trimmed = [] then Inl KeyEmpty
      else if take 1 trimmed = ''{'' then
        and_then (map_err KeyJsonError (json_from_str E trimmed)) (\<lambda>json_value.
          case get_str ''secret_key'' json_value of
            Some key \<Rightarrow> explorer_decode_hex_32 E ''secret_key'' key
          | None \<Rightarrow> (case get_str ''secret_key_hex'' json_value of
                Some key \<Rightarrow> explorer_decode_hex_32 E ''secret_key_hex'' key
              | None \<Rightarrow> Inl KeyJsonWithoutFields))
      else explorer_decode_hex_32 E ''secret_key'' trimmed)"

definition faucet_amount_from_env :: "process_env \<Rightarrow> (u64, explorer_error) result" where
  "faucet_amount_from_env vars =
     (case vars ''PRIMS_FAUCET_AMOUNT'' of
        Some raw \<Rightarrow> ok_or AmountInvalid (map_option of_nat (parse_uint 64 (bytes_of raw)))
      | None \<Rightarrow> Inr 100)"

definition shard_from_env :: "process_env \<Rightarrow> string \<Rightarrow> (u16, explorer_error) result" where
  "shard_from_env vars name =
     (case vars name of
        Some raw \<Rightarrow> ok_or (ShardInvalid name) (map_option of_nat (parse_uint 16 (bytes_of raw)))
      | None \<Rightarrow> Inr DEFAULT_SHARD_ID)"

definition faucet_secret_key :: "'z cli_env_scheme \<Rightarrow> process_env \<Rightarrow> (string \<Rightarrow> (bytes, string) result) \<Rightarrow> (bytes option, explorer_error) result" where
  "faucet_secret_key E vars rd =
     (case vars ''PRIMS_SECRET_KEY_FILE'' of
        Some path \<Rightarrow>
          and_then (map_err (KeyPathUnreadable path) (rd path)) (\<lambda>raw.
            if \<not> utf8_valid raw then Inl (KeyPathNotUtf8 path)
            else and_then (explorer_parse_secret_key_material E (text_of raw)) (\<lambda>k. Inr (Some k)))
      | None \<Rightarrow> (case vars ''PRIMS_SECRET_KEY_HEX'' of
            Some value \<Rightarrow> and_then (explorer_parse_secret_key_material E value) (\<lambda>k. Inr (Some k))
          | None \<Rightarrow> Inr None))"

definition load_faucet_config :: "'z cli_env_scheme \<Rightarrow> process_env \<Rightarrow> (string \<Rightarrow> (bytes, string) result) \<Rightarrow> (FaucetConfig option, explorer_error) result" where
  "load_faucet_config E vars rd =
     and_then (faucet_secret_key E vars rd) (\<lambda>key_opt. case key_opt of
         None \<Rightarrow> Inr None
       | Some key \<Rightarrow>
           and_then (faucet_amount_from_env vars) (\<lambda>amount.
           and_then (shard_from_env vars ''PRIMS_FAUCET_SOURCE_SHARD'') (\<lambda>source.
           and_then (shard_from_env vars ''PRIMS_FAUCET_DESTINATION_SHARD'') (\<lambda>destination.
             Inr (Some \<lparr>fc_secret_key = key, fc_public_key = signing_public E key, fc_amount = amount,
               fc_source_shard = source, fc_destination_shard = destination\<rparr>)))))"

definition faucet_mode_from_env :: "'z cli_env_scheme \<Rightarrow> process_env \<Rightarrow> (string \<Rightarrow> (bytes, string) result) \<Rightarrow> FaucetMode" where
  "faucet_mode_from_env E vars rd =
     (case load_faucet_config E vars rd of
        Inr (Some cfg) \<Rightarrow> Enabled cfg
      | Inr None \<Rightarrow> Disabled NoFaucetKey
      | Inl e \<Rightarrow> Disabled (InvalidFaucetConfig e))"

fun faucet_mode_amount :: "process_env \<Rightarrow> FaucetMode \<Rightarrow> u64" where
  "faucet_mode_amount vars (Disabled reason) = (case faucet_amount_from_env vars of Inr n \<Rightarrow> n | Inl _ \<Rightarrow> 100)"
| "faucet_mode_amount vars (Enabled cfg) = fc_amount cfg"

definition explorer_state :: "'z cli_env_scheme \<Rightarrow> process_env \<Rightarrow> (string \<Rightarrow> (bytes, string) result) \<Rightarrow> ExplorerState" where
  "explorer_state E vars rd =
     \<lparr>ex_rpc_url = (case vars ''PRIMS_RPC_URL'' of Some url \<Rightarrow> url | None \<Rightarrow> ''http://127.0.0.1:7002''),
      ex_faucet_mode = faucet_mode_from_env E vars rd\<rparr>"

section \<open>Calling the RPC interface\<close>

definition explorer_interpret :: "nat \<Rightarrow> json \<Rightarrow> (json, explorer_error) result" where
  "explorer_interpret status reply =
     (case json_get ''result'' reply of
        Some r \<Rightarrow> Inr r
      | None \<Rightarrow> (case json_get ''error'' reply of
            Some e \<Rightarrow> Inl (RpcError (Option.bind (json_get ''code'' e) as_i64)
              (case get_str ''message'' e of Some m \<Rightarrow> m | None \<Rightarrow> ''unknown RPC error''))
          | None \<Rightarrow> Inl (UnexpectedReply status reply)))"

definition explorer_rpc_call :: "'w world_ops \<Rightarrow> string \<Rightarrow> string \<Rightarrow> json \<Rightarrow> ('w, json, explorer_error) io" where
  "explorer_rpc_call W rpc_url meth params =
     io_bind (io_context RequestFailed (http_post W rpc_url (jsonrpc_request meth params))) (\<lambda>(status, body).
     io_lift (and_then (map_err UndecodableReply body) (explorer_interpret status)))"

definition pretty_json_or_error :: "(json, explorer_error) result \<Rightarrow> json_view" where
  "pretty_json_or_error r = (case r of Inr v \<Rightarrow> ShownJson v | Inl e \<Rightarrow> ShownError e)"

text \<open>A call whose error is shown on the page.\<close>

definition shown_call :: "'w world_ops \<Rightarrow> string \<Rightarrow> string \<Rightarrow> json \<Rightarrow> 'w \<Rightarrow> 'w \<times> json_view" where
  "shown_call W rpc_url meth params w =
     (let (w', r) = explorer_rpc_call W rpc_url meth params w in (w', pretty_json_or_error r))"

definition render_template :: "(page \<Rightarrow> (string, string) result) \<Rightarrow> page \<Rightarrow> (string, nat \<times> string) result" where
  "render_template render p = map_err (\<lambda>e. (500, ''Template render error: '' @ e)) (render p)"

section \<open>The faucet\<close>

definition faucet_transaction :: "FaucetConfig \<Rightarrow> bytes \<Rightarrow> u64 \<Rightarrow> Transaction" where
  "faucet_transaction cfg recipient current_nonce =
     \<lparr>tx_type = Transfer, tx_from = fc_public_key cfg, tx_to = recipient, tx_amount = fc_amount cfg, tx_fee = FIXED_TRANSACTION_FEE,
      tx_nonce = saturating_add current_nonce 1, tx_source_shard = fc_source_shard cfg,
      tx_destination_shard = fc_destination_shard cfg, tx_signature = [], tx_data = None\<rparr>"

definition json_nat :: "nat \<Rightarrow> json" where
  "json_nat n = JInt (int n)"

definition submit_faucet_transfer :: "'z cli_env_scheme \<Rightarrow> 'w world_ops \<Rightarrow> ExplorerState \<Rightarrow> string \<Rightarrow> ('w, json, explorer_error) io" where
  "submit_faucet_transfer E W state recipient_address =
     (case ex_faucet_mode state of
        Disabled reason \<Rightarrow> io_lift (Inl (FaucetOff reason))
      | Enabled cfg \<Rightarrow>
          io_bind (io_lift (explorer_decode_hex_vec E ''address'' recipient_address)) (\<lambda>recipient.
          if length recipient \<noteq> 32 then io_lift (Inl RecipientNot32Bytes) else
          let faucet_address = hex_encode E (fc_public_key cfg) in
          io_bind (explorer_rpc_call W (ex_rpc_url state) ''get_balance'' (JObj [(''address'', JStr faucet_address)])) (\<lambda>faucet_balance.
          io_bind (io_lift (ok_or (BalanceWithoutNonce faucet_balance)
              (Option.bind (json_get ''nonce'' faucet_balance) as_u64))) (\<lambda>current_nonce.
          let transaction = faucet_transaction cfg recipient current_nonce in
          io_bind (io_lift (map_err FaucetSignFailed (sign_transaction E transaction (fc_secret_key cfg)))) (\<lambda>signature.
          io_bind (io_lift (map_err FaucetEncodeFailed
              (serialize (bc_transaction E) (transaction\<lparr>tx_signature := signature\<rparr>)))) (\<lambda>tx_bytes.
          io_bind (explorer_rpc_call W (ex_rpc_url state) ''send_transaction''
              (JObj [(''hex_tx'', JStr (hex_encode E tx_bytes))])) (\<lambda>rpc_result.
          io_lift (Inr (JObj [(''amount'', json_nat (unat (fc_amount cfg))),
            (''destination_shard'', json_nat (unat (fc_destination_shard cfg))), (''fee'', json_nat (unat FIXED_TRANSACTION_FEE)),
            (''from'', JStr faucet_address), (''nonce'', json_nat (unat (tx_nonce transaction))), (''rpc_result'', rpc_result),
            (''source_shard'', json_nat (unat (fc_source_shard cfg))), (''to'', JStr (hex_encode E recipient))])))))))))"

section \<open>Handlers\<close>

definition home_page :: "'z cli_env_scheme \<Rightarrow> 'w world_ops \<Rightarrow> process_env \<Rightarrow> ExplorerState \<Rightarrow> 'w \<Rightarrow> 'w \<times> page" where
  "home_page E W vars state w =
     (let url = ex_rpc_url state;
          (w1, info) = shown_call W url ''get_info'' (JObj []) w;
          (w2, validators) = shown_call W url ''get_validators'' (JObj []) w1;
          (w3, commitments) = shown_call W url ''get_note_commitments'' (JObj []) w2 in
      case ex_faucet_mode state of
        Disabled reason \<Rightarrow>
          (w3, HomePage \<lparr>ht_rpc_url = url, ht_faucet_enabled = False, ht_faucet_status = Some reason,
            ht_faucet_sender_address = [], ht_faucet_amount = faucet_mode_amount vars (ex_faucet_mode state),
            ht_faucet_account_json = FaucetInactive, ht_info_json = info, ht_validators_json = validators,
            ht_note_commitments_json = commitments\<rparr>)
      | Enabled cfg \<Rightarrow>
          (let sender = hex_encode E (fc_public_key cfg);
               (w4, account) = shown_call W url ''get_balance'' (JObj [(''address'', JStr sender)]) w3 in
           (w4, HomePage \<lparr>ht_rpc_url = url, ht_faucet_enabled = True, ht_faucet_status = None,
             ht_faucet_sender_address = sender, ht_faucet_amount = fc_amount cfg, ht_faucet_account_json = account,
             ht_info_json = info, ht_validators_json = validators, ht_note_commitments_json = commitments\<rparr>)))"

definition home :: "'z cli_env_scheme \<Rightarrow> 'w world_ops \<Rightarrow> process_env \<Rightarrow> (page \<Rightarrow> (string, string) result) \<Rightarrow> ExplorerState
    \<Rightarrow> ('w, string, nat \<times> string) io" where
  "home E W vars render state w = (let (w', p) = home_page E W vars state w in (w', render_template render p))"

definition address_handler :: "'w world_ops \<Rightarrow> (page \<Rightarrow> (string, string) result) \<Rightarrow> ExplorerState \<Rightarrow> string
    \<Rightarrow> ('w, string, nat \<times> string) io" where
  "address_handler W render state address w =
     (let (w', balance) = shown_call W (ex_rpc_url state) ''get_balance'' (JObj [(''address'', JStr address)]) w in
      (w', render_template render (AddressPage \<lparr>at_rpc_url = ex_rpc_url state, at_address = address, at_balance_json = balance\<rparr>)))"

definition faucet :: "'z cli_env_scheme \<Rightarrow> 'w world_ops \<Rightarrow> (page \<Rightarrow> (string, string) result) \<Rightarrow> ExplorerState \<Rightarrow> string
    \<Rightarrow> ('w, string, nat \<times> string) io" where
  "faucet E W render state address w =
     (let (w', outcome) = submit_faucet_transfer E W state address w in
      (w', render_template render (FaucetPage \<lparr>ft_rpc_url = ex_rpc_url state, ft_address = address, ft_success = is_ok outcome,
         ft_response_json = pretty_json_or_error outcome\<rparr>)))"

text \<open>The router.\<close>

datatype web_request =
    GetHome
  | GetAddress string
  | PostFaucet string

fun explorer_route :: "'z cli_env_scheme \<Rightarrow> 'w world_ops \<Rightarrow> process_env \<Rightarrow> (page \<Rightarrow> (string, string) result) \<Rightarrow> ExplorerState
    \<Rightarrow> web_request \<Rightarrow> ('w, string, nat \<times> string) io" where
  "explorer_route E W vars render state GetHome = home E W vars render state"
| "explorer_route E W vars render state (GetAddress address) = address_handler W render state address"
| "explorer_route E W vars render state (PostFaucet address) = faucet E W render state address"

end
