(* ===== verification/Pages.thy ===== *)
theory Pages
  imports Explorer
begin

text \<open>
  The pages of the web site, \<open>src/src/bin/prims-explorer.rs\<close>: the three askama templates, line by
  line, the texts that fill them, and the messages of the errors that are shown. A template is a
  list of pieces; \<open>Hole\<close> is an expression in double braces, which askama escapes because the
  templates have the extension \<open>html\<close>. Texts are in UTF-8, one character per byte. What comes
  from libraries is the record \<open>displays\<close>: the escaper, the printer of JSON, the messages of the
  errors of the standard library and of crates, and whether the last line end of a template is kept.
\<close>

section \<open>Texts\<close>

abbreviation e_acute :: string where "e_acute \<equiv> [CHR 0xC3, CHR 0xA9]"
abbreviation E_acute :: string where "E_acute \<equiv> [CHR 0xC3, CHR 0x89]"
abbreviation e_grave :: string where "e_grave \<equiv> [CHR 0xC3, CHR 0xA8]"
abbreviation a_grave :: string where "a_grave \<equiv> [CHR 0xC3, CHR 0xA0]"
abbreviation o_circ :: string where "o_circ \<equiv> [CHR 0xC3, CHR 0xB4]"
abbreviation oe_lig :: string where "oe_lig \<equiv> [CHR 0xC5, CHR 0x93]"
abbreviation apos :: string where "apos \<equiv> [CHR 0xE2, CHR 0x80, CHR 0x99]"
abbreviation larrow :: string where "larrow \<equiv> [CHR 0xE2, CHR 0x86, CHR 0x90]"

record displays =
  escape_html :: "string \<Rightarrow> string"
  json_pretty :: "json \<Rightarrow> (string, string) result"
  cause_text :: "explorer_error \<Rightarrow> string"
  http_status_text :: "nat \<Rightarrow> string"
  last_newline :: string

definition signed_decimal :: "int \<Rightarrow> string" where
  "signed_decimal i = (if i < 0 then ''-'' @ decimal (nat (- i)) else decimal (nat i))"

definition pretty_or :: "displays \<Rightarrow> string \<Rightarrow> json \<Rightarrow> string" where
  "pretty_or D fallback v = (case json_pretty D v of Inr s \<Rightarrow> s | Inl _ \<Rightarrow> fallback)"

definition unshowable_payload :: string where
  "unshowable_payload = ''<payload non affichable>''"

definition unshowable_result :: string where
  "unshowable_result = ''<r'' @ e_acute @ ''sultat JSON non affichable>''"

fun error_text :: "displays \<Rightarrow> explorer_error \<Rightarrow> string"
  and reason_text :: "displays \<Rightarrow> faucet_reason \<Rightarrow> string" where
  "error_text D (RequestFailed e) = ''HTTP request failed: '' @ e"
| "error_text D (UndecodableReply e) = ''Failed to decode JSON-RPC response: '' @ e"
| "error_text D (RpcError code message) =
     ''RPC error '' @ (case code of Some v \<Rightarrow> signed_decimal v | None \<Rightarrow> ''?'') @ '': '' @ message"
| "error_text D (UnexpectedReply status reply) =
     ''Unexpected JSON-RPC payload (HTTP '' @ http_status_text D status @ ''): '' @ pretty_or D unshowable_payload reply"
| "error_text D (KeyPathUnreadable path e) = ''impossible de lire PRIMS_SECRET_KEY_FILE='' @ path @ '': '' @ e"
| "error_text D (KeyPathNotUtf8 path) =
     ''contenu non UTF-8 pour PRIMS_SECRET_KEY_FILE='' @ path @ '': '' @ cause_text D (KeyPathNotUtf8 path)"
| "error_text D KeyEmpty = ''cl'' @ e_acute @ '' priv'' @ e_acute @ ''e vide''"
| "error_text D (KeyJsonError e) = ''contenu JSON de cl'' @ e_acute @ '' priv'' @ e_acute @ ''e invalide: '' @ e"
| "error_text D KeyJsonWithoutFields = ''le JSON fourni ne contient ni champ secret_key ni champ secret_key_hex''"
| "error_text D (BadHexField label e) = label @ '' invalide: '' @ e"
| "error_text D (FieldNot32Bytes label) =
     label @ '' doit contenir exactement 32 octets apr'' @ e_grave @ ''s d'' @ e_acute @ ''codage hexad'' @ e_acute @ ''cimal''"
| "error_text D AmountInvalid = ''PRIMS_FAUCET_AMOUNT invalide: '' @ cause_text D AmountInvalid"
| "error_text D (ShardInvalid name) = name @ '' invalide: '' @ cause_text D (ShardInvalid name)"
| "error_text D (FaucetOff reason) = reason_text D reason"
| "error_text D RecipientNot32Bytes =
     ''l'' @ apos @ ''adresse destinataire doit contenir exactement 32 octets hexad'' @ e_acute @ ''cimaux''"
| "error_text D (BalanceWithoutNonce balance) =
     ''r'' @ e_acute @ ''ponse get_balance inattendue pour le faucet: '' @ pretty_or D unshowable_payload balance"
| "error_text D (FaucetSignFailed e) =
     e_acute @ ''chec de signature de la transaction faucet: '' @ cause_text D (FaucetSignFailed e)"
| "error_text D (FaucetEncodeFailed e) =
     e_acute @ ''chec de s'' @ e_acute @ ''rialisation bincode de la transaction faucet: '' @ e"
| "reason_text D NoFaucetKey =
     ''Aucune cl'' @ e_acute @ '' faucet fournie : d'' @ e_acute @ ''finis PRIMS_SECRET_KEY_FILE ou PRIMS_SECRET_KEY_HEX pour activer le service de distribution de tokens de test.''"
| "reason_text D (InvalidFaucetConfig e) = ''Configuration faucet invalide : '' @ error_text D e"

text \<open>\<open>pretty_json_or_error\<close> prints an answer or its error; the faucet page prints an error bare.\<close>

fun view_text :: "displays \<Rightarrow> json_view \<Rightarrow> string" where
  "view_text D (ShownJson v) = pretty_or D unshowable_result v"
| "view_text D (ShownError e) = ''Erreur: '' @ error_text D e"
| "view_text D FaucetInactive = ''Faucet inactif''"

fun response_text :: "displays \<Rightarrow> json_view \<Rightarrow> string" where
  "response_text D (ShownError e) = error_text D e"
| "response_text D v = view_text D v"

definition status_text :: "displays \<Rightarrow> faucet_reason option \<Rightarrow> string" where
  "status_text D r = (case r of Some reason \<Rightarrow> reason_text D reason | None \<Rightarrow> ''Faucet actif'')"

definition faucet_status_message :: "bool \<Rightarrow> string" where
  "faucet_status_message success =
     (if success then ''Transaction faucet construite, sign'' @ e_acute @ ''e et envoy'' @ e_acute @ ''e au n'' @ oe_lig @ ''ud.''
      else ''Le faucet n'' @ apos @ ''a pas pu envoyer la transaction.'')"

section \<open>Templates\<close>

datatype piece =
    Text string
  | Line string
  | Hole string

fun piece_html :: "displays \<Rightarrow> piece \<Rightarrow> string" where
  "piece_html D (Text s) = s"
| "piece_html D (Line s) = s @ [CHR 0x0A]"
| "piece_html D (Hole s) = escape_html D s"

definition template_html :: "displays \<Rightarrow> piece list \<Rightarrow> string" where
  "template_html D ps = concat (map (piece_html D) ps) @ last_newline D"

definition home_template :: "displays \<Rightarrow> HomeTemplate \<Rightarrow> piece list" where
  "home_template D t =
     [Line '''',
      Line ''<!DOCTYPE html>'',
      Line ''<html lang=\"fr\">'',
      Line ''<head>'',
      Line ''    <meta charset=\"utf-8\">'',
      Line ''    <title>Prims Testnet</title>'',
      Line ''    <style>'',
      Line ''        body { font-family: -apple-system, BlinkMacSystemFont, sans-serif; max-width: 1040px; margin: 40px auto; padding: 0 16px; line-height: 1.55; color: #1f2328; }'',
      Line ''        h1, h2, h3 { margin-bottom: 0.4em; }'',
      Line ''        .card { border: 1px solid #d0d7de; border-radius: 14px; padding: 18px; margin: 18px 0; background: #fff; }'',
      Line ''        .grid { display: grid; grid-template-columns: repeat(auto-fit, minmax(320px, 1fr)); gap: 18px; }'',
      Line ''        input[type=\"text\"] { width: 100%; padding: 10px; box-sizing: border-box; margin: 8px 0 12px; border: 1px solid #d0d7de; border-radius: 10px; }'',
      Line ''        button { padding: 10px 14px; cursor: pointer; border: 1px solid #d0d7de; border-radius: 10px; background: #f6f8fa; }'',
      Line ''        pre { white-space: pre-wrap; word-break: break-word; background: #f6f8fa; padding: 12px; border-radius: 10px; overflow-x: auto; }'',
      Line ''        code { background: #f6f8fa; padding: 2px 6px; border-radius: 6px; }'',
      Line ''        .muted { color: #59636e; }'',
      Line ''        .ok { color: #0a7f3f; font-weight: 600; }'',
      Line ''        .warn { color: #9a6700; font-weight: 600; }'',
      Line ''    </style>'',
      Line ''</head>'',
      Line ''<body>'',
      Line ''    <h1>Prims Testnet</h1>'',
      Line ''    <p class=\"muted\">'',
      Line (''        Site web simple pour le testnet Prims : informations du n'' @ oe_lig @ ''ud, recherche de solde, instructions de d'' @ e_acute @ ''marrage et faucet de test.''),
      Line ''    </p>'',
      Line '''',
      Line ''    <div class=\"card\">'',
      Line (''        <h2>'' @ E_acute @ ''tat du service</h2>''),
      Text (''        <p>Endpoint RPC utilis'' @ e_acute @ '' : <strong>''),
      Hole (ht_rpc_url t),
      Line ''</strong></p>'',
      Text ''        <p>Montant du faucet : <strong>'',
      Hole (decimal (unat (ht_faucet_amount t))),
      Line ''</strong> token(s) de test par demande.</p>'',
      Text ''        ''] @
     (if ht_faucet_enabled t then
       [Line '''',
        Line ''        <p class=\"ok\">Faucet actif</p>'',
        Text ''        <p class=\"muted\">Adresse publique du faucet : <code>'',
        Hole (ht_faucet_sender_address t),
        Line ''</code></p>'',
        Line (''        <h3>'' @ E_acute @ ''tat du compte faucet</h3>''),
        Text ''        <pre>'',
        Hole (view_text D (ht_faucet_account_json t)),
        Line ''</pre>'',
        Text ''        '']
      else
       [Line '''',
        Line (''        <p class=\"warn\">Faucet d'' @ e_acute @ ''sactiv'' @ e_acute @ ''</p>''),
        Text ''        <pre>'',
        Hole (status_text D (ht_faucet_status t)),
        Line ''</pre>'',
        Text ''        '']) @
     [Line '''',
      Line ''    </div>'',
      Line '''',
      Line ''    <div class=\"card\">'',
      Line ''        <h2>Instructions testnet</h2>'',
      Line ''        <ol>'',
      Line (''            <li>D'' @ e_acute @ ''marrer le n'' @ oe_lig @ ''ud principal Prims et laisser l'' @ apos @ ''API RPC disponible sur <code>127.0.0.1:7002</code> ou sur l'' @ apos @ ''URL d'' @ e_acute @ ''finie dans <code>PRIMS_RPC_URL</code>.</li>''),
      Line (''            <li>D'' @ e_acute @ ''marrer ce site web avec <code>cargo run --bin prims-explorer</code>.</li>''),
      Line (''            <li>Utiliser une adresse publique Ed25519 hexad'' @ e_acute @ ''cimale sur 32 octets pour consulter le solde ou demander des tokens de test.</li>''),
      Line (''            <li>Pour activer le faucet, d'' @ e_acute @ ''finir <code>PRIMS_SECRET_KEY_FILE</code> ou <code>PRIMS_SECRET_KEY_HEX</code> avant de lancer le site. Il est recommand'' @ e_acute @ '' d'' @ apos @ ''utiliser un fichier local hors d'' @ e_acute @ ''p'' @ o_circ @ ''t.</li>''),
      Line (''            <li>Optionnel : r'' @ e_acute @ ''gler <code>PRIMS_FAUCET_AMOUNT</code>, <code>PRIMS_FAUCET_SOURCE_SHARD</code> et <code>PRIMS_FAUCET_DESTINATION_SHARD</code>.</li>''),
      Line ''        </ol>'',
      Line ''        <p class=\"muted\">'',
      Line (''            S'' @ e_acute @ ''curit'' @ e_acute @ '' : ne jamais commiter de cl'' @ e_acute @ '' priv'' @ e_acute @ ''e, mot de passe, token GitHub ou fichier sensible dans le d'' @ e_acute @ ''p'' @ o_circ @ ''t.''),
      Line ''        </p>'',
      Line ''    </div>'',
      Line '''',
      Line ''    <div class=\"grid\">'',
      Line ''        <div class=\"card\">'',
      Line ''            <h2>Recherche de solde</h2>'',
      Line ''            <form action=\"/address\" method=\"get\">'',
      Line ''                <label for=\"address\">Adresse publique</label>'',
      Line (''                <input id=\"address\" name=\"address\" type=\"text\" placeholder=\"Adresse hexad'' @ e_acute @ ''cimale 32 octets\" required>''),
      Line ''                <button type=\"submit\">Voir le solde</button>'',
      Line ''            </form>'',
      Line ''        </div>'',
      Line '''',
      Line ''        <div class=\"card\">'',
      Line ''            <h2>Faucet testnet</h2>'',
      Line ''            <form action=\"/faucet\" method=\"post\">'',
      Line ''                <label for=\"faucet-address\">Adresse destinataire</label>'',
      Line (''                <input id=\"faucet-address\" name=\"address\" type=\"text\" placeholder=\"Adresse hexad'' @ e_acute @ ''cimale 32 octets\" required>''),
      Text ''                <button type=\"submit\">Recevoir '',
      Hole (decimal (unat (ht_faucet_amount t))),
      Line '' token(s) de test</button>'',
      Line ''            </form>'',
      Line ''            <p class=\"muted\">'',
      Line (''                Le faucet construit une transaction <code>Transfer</code> sign'' @ e_acute @ ''e, puis l'' @ apos @ ''envoie au n'' @ oe_lig @ ''ud via <code>send_transaction</code>.''),
      Line ''            </p>'',
      Line ''        </div>'',
      Line ''    </div>'',
      Line '''',
      Line ''    <div class=\"grid\">'',
      Line ''        <div class=\"card\">'',
      Line (''            <h2>Informations du n'' @ oe_lig @ ''ud</h2>''),
      Text ''            <pre>'',
      Hole (view_text D (ht_info_json t)),
      Line ''</pre>'',
      Line ''        </div>'',
      Line '''',
      Line ''        <div class=\"card\">'',
      Line ''            <h2>Validateurs</h2>'',
      Text ''            <pre>'',
      Hole (view_text D (ht_validators_json t)),
      Line ''</pre>'',
      Line ''        </div>'',
      Line ''    </div>'',
      Line '''',
      Line ''    <div class=\"card\">'',
      Line ''        <h2>Commitments anonymes</h2>'',
      Text ''        <pre>'',
      Hole (view_text D (ht_note_commitments_json t)),
      Line ''</pre>'',
      Line ''    </div>'',
      Line ''</body>'',
      Text ''</html>'']"

definition address_template :: "displays \<Rightarrow> AddressTemplate \<Rightarrow> piece list" where
  "address_template D t =
     [Line '''',
      Line ''<!DOCTYPE html>'',
      Line ''<html lang=\"fr\">'',
      Line ''<head>'',
      Line ''    <meta charset=\"utf-8\">'',
      Line ''    <title>Prims Testnet - Adresse</title>'',
      Line ''    <style>'',
      Line ''        body { font-family: -apple-system, BlinkMacSystemFont, sans-serif; max-width: 960px; margin: 40px auto; padding: 0 16px; line-height: 1.55; color: #1f2328; }'',
      Line ''        .card { border: 1px solid #d0d7de; border-radius: 14px; padding: 18px; margin: 18px 0; background: #fff; }'',
      Line ''        pre { white-space: pre-wrap; word-break: break-word; background: #f6f8fa; padding: 12px; border-radius: 10px; overflow-x: auto; }'',
      Line ''        a { text-decoration: none; }'',
      Line ''        .muted { color: #59636e; }'',
      Line ''    </style>'',
      Line ''</head>'',
      Line ''<body>'',
      Line (''    <p><a href=\"/\">'' @ larrow @ '' Retour '' @ a_grave @ '' l'' @ apos @ ''accueil</a></p>''),
      Line (''    <h1>Solde d'' @ apos @ ''une adresse</h1>''),
      Text (''    <p class=\"muted\">Endpoint RPC utilis'' @ e_acute @ '' : <strong>''),
      Hole (at_rpc_url t),
      Line ''</strong></p>'',
      Line '''',
      Line ''    <div class=\"card\">'',
      Line ''        <h2>Adresse</h2>'',
      Text ''        <pre>'',
      Hole (at_address t),
      Line ''</pre>'',
      Line ''    </div>'',
      Line '''',
      Line ''    <div class=\"card\">'',
      Line (''        <h2>R'' @ e_acute @ ''ponse RPC get_balance</h2>''),
      Text ''        <pre>'',
      Hole (view_text D (at_balance_json t)),
      Line ''</pre>'',
      Line ''    </div>'',
      Line ''</body>'',
      Text ''</html>'']"

definition faucet_template :: "displays \<Rightarrow> FaucetTemplate \<Rightarrow> piece list" where
  "faucet_template D t =
     [Line '''',
      Line ''<!DOCTYPE html>'',
      Line ''<html lang=\"fr\">'',
      Line ''<head>'',
      Line ''    <meta charset=\"utf-8\">'',
      Line ''    <title>Prims Testnet - Faucet</title>'',
      Line ''    <style>'',
      Line ''        body { font-family: -apple-system, BlinkMacSystemFont, sans-serif; max-width: 960px; margin: 40px auto; padding: 0 16px; line-height: 1.55; color: #1f2328; }'',
      Line ''        .card { border: 1px solid #d0d7de; border-radius: 14px; padding: 18px; margin: 18px 0; background: #fff; }'',
      Line ''        pre { white-space: pre-wrap; word-break: break-word; background: #f6f8fa; padding: 12px; border-radius: 10px; overflow-x: auto; }'',
      Line ''        a { text-decoration: none; }'',
      Line ''        .muted { color: #59636e; }'',
      Line ''        .ok { color: #0a7f3f; font-weight: 600; }'',
      Line ''        .warn { color: #9a6700; font-weight: 600; }'',
      Line ''    </style>'',
      Line ''</head>'',
      Line ''<body>'',
      Line (''    <p><a href=\"/\">'' @ larrow @ '' Retour '' @ a_grave @ '' l'' @ apos @ ''accueil</a></p>''),
      Line (''    <h1>R'' @ e_acute @ ''sultat du faucet</h1>''),
      Text (''    <p class=\"muted\">Endpoint RPC utilis'' @ e_acute @ '' : <strong>''),
      Hole (ft_rpc_url t),
      Line ''</strong></p>'',
      Line '''',
      Line ''    <div class=\"card\">'',
      Line ''        <h2>Adresse destinataire</h2>'',
      Text ''        <pre>'',
      Hole (ft_address t),
      Line ''</pre>'',
      Line ''    </div>'',
      Line '''',
      Line ''    <div class=\"card\">'',
      Line ''        <h2>Statut</h2>'',
      Text ''        ''] @
     (if ft_success t then
       [Line '''',
        Line (''        <p class=\"ok\">Demande trait'' @ e_acute @ ''e</p>''),
        Text ''        '']
      else
       [Line '''',
        Line (''        <p class=\"warn\">Demande refus'' @ e_acute @ ''e</p>''),
        Text ''        '']) @
     [Line '''',
      Text ''        <pre>'',
      Hole (faucet_status_message (ft_success t)),
      Line ''</pre>'',
      Line ''    </div>'',
      Line '''',
      Line ''    <div class=\"card\">'',
      Line (''        <h2>D'' @ e_acute @ ''tails</h2>''),
      Text ''        <pre>'',
      Hole (response_text D (ft_response_json t)),
      Line ''</pre>'',
      Line ''    </div>'',
      Line ''</body>'',
      Text ''</html>'']"

fun page_html :: "displays \<Rightarrow> page \<Rightarrow> string" where
  "page_html D (HomePage t) = template_html D (home_template D t)"
| "page_html D (AddressPage t) = template_html D (address_template D t)"
| "page_html D (FaucetPage t) = template_html D (faucet_template D t)"

text \<open>
  The site with its pages. Rendering writes strings and numbers into a string, which does not fail, so
  the answer 500 of \<open>render_template\<close> does not occur here. Requests that no route of the program takes,
  and those that axum refuses because a parameter is missing, are answered by axum and left out.
\<close>

definition site_response :: "'z cli_env_scheme \<Rightarrow> 'w world_ops \<Rightarrow> process_env \<Rightarrow> displays \<Rightarrow> ExplorerState \<Rightarrow> web_request
    \<Rightarrow> ('w, string, nat \<times> string) io" where
  "site_response E W vars D state req = explorer_route E W vars (Inr \<circ> page_html D) state req"

end
