(* ===== verification/ApiLaws.thy ===== *)
theory ApiLaws
  imports Api
begin

text \<open>
  What the JSON-RPC interface guarantees: which transactions reach the mempool and what a
  refused one leaves behind, that a stored block is served under its height and its hash, and
  that the reported chain height is the maximum.
\<close>

section \<open>Hexadecimal strings\<close>

lemma hex_digit_not_space: "is_hex_digit c \<Longrightarrow> \<not> is_whitespace c"
  by (auto simp: is_hex_digit_def is_whitespace_def)

lemma dropWhile_none: "list_all (\<lambda>c. \<not> P c) s \<Longrightarrow> dropWhile P s = s"
  by (cases s) auto

lemma trim_hex: "list_all is_hex_digit s \<Longrightarrow> trim s = s"
  using dropWhile_none [of is_whitespace s] dropWhile_none [of is_whitespace "rev s"]
  by (simp add: trim_def list_all_iff hex_digit_not_space)

lemma strip_0x_hex: "list_all is_hex_digit s \<Longrightarrow> strip_0x s = s"
proof -
  assume hex: "list_all is_hex_digit s"
  have "take 2 s \<noteq> ''0x''"
  proof
    assume "take 2 s = ''0x''"
    then have "CHR ''x'' \<in> set s" using set_take_subset [of 2 s] by simp
    with hex show False by (auto simp: list_all_iff is_hex_digit_def)
  qed
  then show ?thesis by (simp add: strip_0x_def)
qed

lemma decode_encode_hex: "hex_spec E \<Longrightarrow> decode_hex E (encode_hex E bs) field = Inr bs"
  by (simp add: decode_hex_def encode_hex_def hex_spec_def trim_hex strip_0x_hex)

section \<open>Submission\<close>

lemma check_submission_Inr:
  "check_submission E st hex_tx = Inr (t, acc) \<longleftrightarrow>
     (\<exists>bs. decode_hex E hex_tx ''hex_tx'' = Inr bs \<and> deserialize (bc_transaction E) bs = Inr t \<and>
       validate_transaction_size E t = Inr () \<and> length (tx_from t) = 32 \<and> verify_transaction E t (tx_from t) = Inr True \<and>
       get_account E (tx_from t) (rs_storage st) = Inr acc \<and> validate_transaction_nonce t acc = Inr ())"
  by (auto simp: check_submission_def result_simps split: if_splits)

lemma admit_call_error: "admit_call W E t acc s = Some (s', Inl e) \<Longrightarrow> s' = s"
proof (cases "admit_call_payload E t acc")
  case (Inr p)
  assume "admit_call W E t acc s = Some (s', Inl e)"
  then obtain r where r: "execute_contract_call W E \<lparr>ctx_contract_address = tx_to t, ctx_caller = tx_from t,
      ctx_block_height = 0, ctx_shard_id = tx_destination_shard t\<rparr> (p_method p) (p_params p) (p_gas_limit p) s = Some (s', r)"
    and e: "(case r of Inl d \<Rightarrow> Inl (validation_error (CallFailed d)) | Inr _ \<Rightarrow> Inr ()) = (Inl e :: unit rpc_result)"
    using Inr by (auto simp: admit_call_def)
  from e obtain d where "r = Inl d" by (cases r) auto
  with call_error_unchanged r show ?thesis by blast
qed (simp add: admit_call_def)

lemma admit_error_unchanged: "admit W E t acc s = Some (s', Inl e) \<Longrightarrow> s' = s"
  by (auto simp: admit_def dest: admit_call_error split: TransactionType.splits)

lemma admit_storage: "admit W E t acc s = Some (s', r) \<Longrightarrow> tx_type t \<noteq> CallContract \<Longrightarrow> s' = s"
  by (auto simp: admit_def split: TransactionType.splits)

lemma check_fee_Inr: "check_fee t acc = Inr u \<longleftrightarrow> tx_fee t = FIXED_TRANSACTION_FEE \<and> tx_fee t \<le> sender_balance acc"
  by (auto simp: check_fee_def not_less)

text \<open>
  What a sender must hold and provide, by type of transaction: a deployment and a call move no
  amount and pay the fee, with code or a callable payload; unstaking pays the fee, its amount is not
  compared with anything; every other type pays a positive amount and the fee.
\<close>

definition paid_for :: "'z env_scheme \<Rightarrow> u64 \<Rightarrow> Transaction \<Rightarrow> bool" where
  "paid_for E balance t \<longleftrightarrow> tx_fee t = FIXED_TRANSACTION_FEE \<and>
     (case tx_type t of
        DeployContract \<Rightarrow> unat (tx_fee t) \<le> unat balance \<and> tx_amount t = 0 \<and> tx_to t \<noteq> [] \<and>
          (case tx_data t of Some code \<Rightarrow> code \<noteq> [] | None \<Rightarrow> False)
      | CallContract \<Rightarrow> unat (tx_fee t) \<le> unat balance \<and> tx_amount t = 0 \<and> tx_to t \<noteq> [] \<and>
          (case tx_data t of None \<Rightarrow> False
           | Some bs \<Rightarrow> (case deserialize (bc_payload E) bs of Inl _ \<Rightarrow> False | Inr p \<Rightarrow> trim (p_method p) \<noteq> [] \<and> p_gas_limit p \<noteq> 0))
      | Unstake \<Rightarrow> unat (tx_fee t) \<le> unat balance
      | _ \<Rightarrow> 0 < unat (tx_amount t) \<and> unat (tx_amount t) + unat (tx_fee t) \<le> unat balance)"

lemma validate_balance_paid:
  "validate_transaction_balance t acc = Inr () \<Longrightarrow>
   tx_fee t = FIXED_TRANSACTION_FEE \<and> 0 < unat (tx_amount t) \<and> unat (tx_amount t) + unat (tx_fee t) \<le> unat (sender_balance acc)"
  by (auto simp: validate_transaction_balance_def sender_balance_def Let_def result_simps checked_add_Some_iff
    word_less_nat_alt not_less unat_gt_0 split: if_splits)

lemma admit_paid:
  assumes "admit W E t acc s = Some (s', Inr u)"
  shows "paid_for E (sender_balance acc) t"
proof (cases "tx_type t")
  case DeployContract
  with assms show ?thesis
    by (auto simp: admit_def admit_deploy_def paid_for_def result_simps check_fee_Inr word_le_nat_alt split: if_splits)
next
  case CallContract
  then obtain p where "admit_call_payload E t acc = Inr p"
    using assms by (cases "admit_call_payload E t acc") (auto simp: admit_def admit_call_def)
  with CallContract show ?thesis
    by (auto simp: admit_call_payload_def paid_for_def result_simps check_fee_Inr word_le_nat_alt split: if_splits)
next
  case Unstake
  with assms show ?thesis by (auto simp: admit_def paid_for_def check_fee_Inr word_le_nat_alt)
qed (use assms validate_balance_paid [of t acc] in \<open>auto simp: admit_def paid_for_def result_simps\<close>)

text \<open>
  C5. Submission over RPC is sound and atomic. It never panics; a refused transaction changes
  neither mempool nor storage; an accepted one decodes from the given hex string, is below the size
  limit, carries a valid signature of its 32-byte sender and a nonce above the stored one, and is
  paid for from the stored balance as its type requires, a transfer or a stake with amount and fee
  together; it is appended to the mempool partition of its sender, the answer gives its hash and
  the size of the mempool, and only a contract call changes the storage.
\<close>

theorem send_transaction_sound:
  assumes "send_transaction W E st hex_tx = Some r"
  shows "\<exists>st' res. r = Inr (st', res) \<and> (case res of
      Inl e \<Rightarrow> st' = st
    | Inr resp \<Rightarrow> (\<exists>t acc bs. decode_hex E hex_tx ''hex_tx'' = Inr bs \<and> deserialize (bc_transaction E) bs = Inr t \<and>
        validate_transaction_size E t = Inr () \<and> length (tx_from t) = 32 \<and> verify_transaction E t (tx_from t) = Inr True \<and>
        get_account E (tx_from t) (rs_storage st) = Inr acc \<and> validate_transaction_nonce t acc = Inr () \<and>
        paid_for E (sender_balance acc) t \<and>
        (\<exists>h. hash_transaction E t = Inr h \<and>
           resp = \<lparr>sr_accepted = True, sr_tx_hash = encode_hex E h, sr_mempool_size = mempool_len (rs_mempool st')\<rparr>) \<and>
        rs_mempool st' = add_transaction (rs_mempool st) t \<and> rs_rate_limiter st' = rs_rate_limiter st \<and>
        (tx_type t = CallContract \<or> rs_storage st' = rs_storage st)))"
proof (cases "check_submission E st hex_tx")
  case (Inl e)
  with assms show ?thesis by (auto simp: send_transaction_def)
next
  case (Inr x)
  obtain t acc where x: "x = (t, acc)" by (cases x)
  have c: "check_submission E st hex_tx = Inr (t, acc)" using Inr x by simp
  obtain s' a where a: "admit W E t acc (rs_storage st) = Some (s', a)"
    using assms c by (auto simp: send_transaction_def split: option.splits)
  show ?thesis
  proof (cases a)
    case (Inl e)
    with a have "s' = rs_storage st" using admit_error_unchanged by blast
    with assms c a Inl show ?thesis by (auto simp: send_transaction_def)
  next
    case (Inr u)
    obtain h where h: "hash_transaction E t = Inr h"
      using c unfolding check_submission_Inr
      by (auto simp: validate_transaction_size_def hash_transaction_def result_simps)
    have "tx_type t = CallContract \<or> s' = rs_storage st" using admit_storage [OF a] by blast
    moreover have "paid_for E (sender_balance acc) t" using admit_paid a Inr by blast
    ultimately show ?thesis
      using assms c a Inr h c [unfolded check_submission_Inr]
      by (auto simp: send_transaction_def Let_def)
  qed
qed

text \<open>
  The nonce is compared with the stored account only: an accepted submission that leaves the
  storage unchanged is accepted again, so the mempool fills with copies of one transaction.
\<close>

theorem send_transaction_replay:
  assumes "send_transaction W E st hex_tx = Some (Inr (st', Inr resp))" and "rs_storage st' = rs_storage st"
  shows "\<exists>st'' resp'. send_transaction W E st' hex_tx = Some (Inr (st'', Inr resp')) \<and> sr_tx_hash resp' = sr_tx_hash resp"
proof -
  have "check_submission E st' hex_tx = check_submission E st hex_tx"
    unfolding check_submission_def assms(2) ..
  with assms show ?thesis
    by (auto simp: send_transaction_def Let_def result_simps split: sum.splits option.splits prod.splits)
qed

section \<open>Chain height\<close>

lemma parse_block_key: "parse_block_height_key (block_key h) = Some h"
proof -
  have "\<forall>b \<in> set (block_key h). b < 128"
    using decimal_bytes [of "unat h"] by (auto simp: block_key_def prefix_defs bytes_of_append word_less_nat_alt)
      (auto simp: bytes_of_def)
  then show ?thesis
    by (simp add: parse_block_height_key_def utf8_ascii) (simp add: block_key_def bytes_of_append parse_uint_decimal unat_u64 [simplified])
qed

lemma latest_loop_max:
  assumes "\<forall>e \<in> set es. \<exists>h. fst e = block_key h"
  shows "case latest_loop acc es of
      None \<Rightarrow> acc = None \<and> es = []
    | Some m \<Rightarrow> (acc = Some m \<or> block_key m \<in> fst ` set es) \<and> (\<forall>a. acc = Some a \<longrightarrow> a \<le> m) \<and>
        (\<forall>h. block_key h \<in> fst ` set es \<longrightarrow> h \<le> m)"
  using assms
proof (induction es arbitrary: acc)
  case Nil
  show ?case by (simp split: option.splits)
next
  case (Cons e es)
  obtain k v where e: "e = (k, v)" by (cases e)
  obtain h where h: "k = block_key h" using Cons.prems e by auto
  define a where "a = (case acc of Some c \<Rightarrow> max c h | None \<Rightarrow> h)"
  define acc' where "acc' = Some a"
  have step: "latest_loop acc (e # es) = latest_loop acc' es"
    by (simp add: e h parse_block_key acc'_def a_def)
  have a: "acc' = Some a" "h \<le> a" "\<forall>c. acc = Some c \<longrightarrow> c \<le> a" "a = h \<or> acc = Some a"
    by (auto simp: acc'_def a_def max_def split: option.splits)
  obtain m where m: "latest_loop acc' es = Some m" using Cons.IH [of acc'] Cons.prems a(1) by (auto split: option.splits)
  have "m = a \<or> block_key m \<in> fst ` set es" "a \<le> m" "\<forall>h. block_key h \<in> fst ` set es \<longrightarrow> h \<le> m"
    using Cons.IH [of acc'] Cons.prems a(1) m by auto
  with a step m e h show ?case by (auto simp: block_key_inj)
qed

text \<open>
  The reported chain height is the greatest stored one: when only block records live under
  the block prefix, \<open>latest_block_height\<close> is \<open>None\<close> exactly for a chain without blocks
  and otherwise the maximum of the stored heights, although the keys are iterated in
  lexicographic order.
\<close>

theorem latest_block_height_max:
  assumes "storage_ok s" and "\<forall>k. prefix (bytes_of BLOCK_PREFIX) k \<and> content s k \<noteq> None \<longrightarrow> (\<exists>h. k = block_key h)"
  shows "\<exists>latest. latest_block_height s = Inr latest \<and> (case latest of
      None \<Rightarrow> \<forall>h. content s (block_key h) = None
    | Some m \<Rightarrow> content s (block_key m) \<noteq> None \<and> (\<forall>h. content s (block_key h) \<noteq> None \<longrightarrow> h \<le> m))"
proof -
  let ?p = "bytes_of BLOCK_PREFIX"
  obtain es where es: "storage_iter ?p s = Inr es" "map_of es = (\<lambda>k. if prefix ?p k then content s k else None)"
    using storage_iter_content [OF assms(1), of ?p] by (elim exE conjE)
  have keys: "k \<in> fst ` set es \<longleftrightarrow> prefix ?p k \<and> content s k \<noteq> None" for k
    using es(2) by (metis (no_types, lifting) map_of_eq_None_iff)
  have pre: "prefix ?p (block_key h)" for h by (simp add: block_key_def bytes_of_append)
  have "\<forall>e \<in> set es. \<exists>h. fst e = block_key h" using keys assms(2) by blast
  from latest_loop_max [OF this, of None] have "case latest_loop None es of
      None \<Rightarrow> \<forall>h. content s (block_key h) = None
    | Some m \<Rightarrow> content s (block_key m) \<noteq> None \<and> (\<forall>h. content s (block_key h) \<noteq> None \<longrightarrow> h \<le> m)"
    using keys pre by (auto split: option.splits)
  with es(1) show ?thesis by (simp add: latest_block_height_def)
qed

section \<open>Serving blocks\<close>

lemma block_not_index: "block_key h \<noteq> height_index_key x"
  by (simp add: block_key_def bytes_of_append key_defs prefix_defs) (simp add: bytes_of_def)

lemma save_block_content:
  assumes "storage_ok s" and "save_block E block s = Inr (s', Inr hash)"
    and "roundtrips (bc_block E) block" and "roundtrips (bc_u64 E) (h_height (b_header block))"
  obtains b n where "hash_block_header E (b_header block) = Inr hash" "storage_ok s'"
    "deserialize (bc_block E) b = Inr block" "deserialize (bc_u64 E) n = Inr (h_height (b_header block))"
    "content s' = (content s)(block_key (h_height (b_header block)) \<mapsto> b, height_index_key hash \<mapsto> n)"
proof -
  let ?h = "h_height (b_header block)"
  obtain b where b: "serialize (bc_block E) block = Inr b" "deserialize (bc_block E) b = Inr block"
    using assms(3) by (elim roundtripsE)
  obtain n where n: "serialize (bc_u64 E) ?h = Inr n" "deserialize (bc_u64 E) n = Inr ?h"
    using assms(4) by (elim roundtripsE)
  obtain s1 where s1: "put_encoded (bc_block E) (block_key ?h) block s = (s1, Inr ())" "storage_ok s1"
    "content s1 = (content s)(block_key ?h \<mapsto> b)"
    using put_encoded_content [OF assms(1) b(1), of "block_key ?h"] by (elim exE conjE)
  obtain hh where hh: "hash_block_header E (b_header block) = Inr hh" using assms(2)
    by (auto simp: save_block_def result_simps)
  obtain s2 where s2: "put_encoded (bc_u64 E) (height_index_key hh) ?h s1 = (s2, Inr ())" "storage_ok s2"
    "content s2 = (content s1)(height_index_key hh \<mapsto> n)"
    using put_encoded_content [OF s1(2) n(1), of "height_index_key hh"] by (elim exE conjE)
  have "s' = s2" "hash = hh"
    using assms(2) hh s1(1) s2(1) by (auto simp: save_block_def st_bind_Inr st_lift_def result_simps)
  with that [of b n] hh s1(3) s2(2,3) b(2) n(2) show thesis by simp
qed

text \<open>
  C36. A stored block is served: after \<open>save_block\<close> the method \<open>get_block\<close> returns the view
  of that block under its height and under the hexadecimal form of the returned hash, and the
  view carries that hash.
\<close>

theorem saved_block_served:
  assumes "hex_spec E" and "storage_ok s" and "save_block E block s = Inr (s', Inr hash)"
    and "roundtrips (bc_block E) block" and "roundtrips (bc_u64 E) (h_height (b_header block))"
  shows "\<exists>view. block_to_rpc E block = Inr view \<and> br_hash view = encode_hex E hash \<and>
    rpc_get_block E (st\<lparr>rs_storage := s'\<rparr>) \<lparr>gb_height = Some (h_height (b_header block)), gb_hash = None\<rparr> = Inr (Inr (Some view)) \<and>
    rpc_get_block E (st\<lparr>rs_storage := s'\<rparr>) \<lparr>gb_height = None, gb_hash = Some (encode_hex E hash)\<rparr> = Inr (Inr (Some view))"
proof -
  let ?h = "h_height (b_header block)"
  obtain b n where c: "hash_block_header E (b_header block) = Inr hash" "storage_ok s'"
    "deserialize (bc_block E) b = Inr block" "deserialize (bc_u64 E) n = Inr ?h"
    "content s' = (content s)(block_key ?h \<mapsto> b, height_index_key hash \<mapsto> n)"
    using save_block_content [OF assms(2-5)] .
  obtain view where view: "block_to_rpc E block = Inr view" "br_hash view = encode_hex E hash"
    using c(1) by (simp add: block_to_rpc_def Let_def)
  have g: "get_block E ?h s' = Inr (Some block)"
    using c(3,5) block_not_index by (simp add: get_block_def get_decoded_content [OF c(2)] result_simps)
  have "storage_get (height_index_key hash) s' = Inr (Some n)"
    using c(5) by (simp add: storage_get_content [OF c(2)])
  with g view c(4) decode_encode_hex [OF assms(1), of hash "''hash''"] show ?thesis
    by (simp add: rpc_get_block_def rpc_block_at_def)
qed

section \<open>A sample interface\<close>

definition nibble :: "nat \<Rightarrow> char" where
  "nibble n = (if n < 10 then char_of (48 + n) else char_of (87 + n))"

definition unnibble :: "char \<Rightarrow> nat" where
  "unnibble c = (if of_char c < (58 :: nat) then of_char c - 48 else of_char c - 87)"

definition sample_hex_encode :: "bytes \<Rightarrow> string" where
  "sample_hex_encode bs = concat (map (\<lambda>b. [nibble (unat b div 16), nibble (unat b mod 16)]) bs)"

fun sample_hex_decode :: "string \<Rightarrow> string + bytes" where
  "sample_hex_decode [] = Inr []"
| "sample_hex_decode [c] = Inl ''odd length''"
| "sample_hex_decode (c # d # s) = and_then (sample_hex_decode s) (\<lambda>bs. Inr (of_nat (16 * unnibble c + unnibble d) # bs))"

lemma nibble: "n < 16 \<Longrightarrow> unnibble (nibble n) = n \<and> is_hex_digit (nibble n)"
  by (auto simp: nibble_def unnibble_def is_hex_digit_def)

lemma sample_hex: "sample_hex_decode (sample_hex_encode bs) = Inr bs \<and> list_all is_hex_digit (sample_hex_encode bs)"
proof (induction bs)
  case (Cons b bs)
  have "unat b < 256" using unsigned_less [of b] by simp
  then have "unnibble (nibble (unat b div 16)) = unat b div 16 \<and> is_hex_digit (nibble (unat b div 16))"
    "unnibble (nibble (unat b mod 16)) = unat b mod 16 \<and> is_hex_digit (nibble (unat b mod 16))"
    by (intro nibble; simp)+
  with Cons show ?case by (simp add: sample_hex_encode_def)
qed (simp add: sample_hex_encode_def)

definition with_hex :: "env \<Rightarrow> api_env" where
  "with_hex E = env.extend E (api_env.fields sample_hex_encode sample_hex_decode)"

lemma with_hex_spec: "hex_spec (with_hex E)"
  using sample_hex by (simp add: hex_spec_def with_hex_def env.defs api_env.defs)

definition signed_sample :: Transaction where
  "signed_sample = (sample_tx 5)\<lparr>tx_signature := replicate 32 1 @ sample_digest [1]\<rparr>"

definition submit_env :: api_env where
  "submit_env = with_hex (sample_env\<lparr>bc_transaction := const_codec signed_sample, bc_account := const_codec (sample_account 100 4)\<rparr>)"

definition submit_state :: "(db_log, unit) RpcState" where
  "submit_state = \<lparr>rs_storage = sample_storage\<lparr>db := [(account_key (replicate 32 1), Some [1])]\<rparr>,
     rs_mempool = with_partition_count 1, rs_rate_limiter = ()\<rparr>"

lemma submit_account: "get_account submit_env (replicate 32 1) (rs_storage submit_state) = Inr (Some (sample_account 100 4))"
proof -
  have ok: "storage_ok (rs_storage submit_state)" using sample_storage_ok by (simp add: submit_state_def)
  have "content (rs_storage submit_state) (account_key (replicate 32 1)) = Some [1]"
    by (simp add: content_def submit_state_def sample_storage_def log_engine_def log_entries_def log_apply_def)
  then show ?thesis
    by (simp add: get_account_def get_decoded_content [OF ok] submit_env_def with_hex_def env.defs api_env.defs const_codec_def)
qed

lemma submit_checked:
  "check_submission submit_env submit_state (encode_hex submit_env [1]) = Inr (signed_sample, Some (sample_account 100 4))"
proof -
  have f: "serialize (bc_transaction submit_env) = (\<lambda>_. Inr [1])" "deserialize (bc_transaction submit_env) [1] = Inr signed_sample"
    "verifying_key_ok submit_env = (\<lambda>_. True)" "verifying_verify submit_env = (\<lambda>pk m s. s = pk @ sample_digest m)"
    by (simp_all add: submit_env_def with_hex_def env.defs api_env.defs const_codec_def sample_env_def)
  have t: "tx_from signed_sample = replicate 32 1" "tx_nonce signed_sample = 5"
      "tx_signature signed_sample = replicate 32 1 @ sample_digest [1]"
    by (simp_all add: signed_sample_def sample_tx_def)
  have "hex_spec submit_env" by (simp add: submit_env_def with_hex_spec)
  then have "decode_hex submit_env (encode_hex submit_env [1]) ''hex_tx'' = Inr [1]" by (rule decode_encode_hex)
  moreover have "validate_transaction_size submit_env signed_sample = Inr ()"
    by (simp add: validate_transaction_size_def f MAX_TRANSACTION_SIZE_BYTES_def)
  moreover have "verify_transaction submit_env signed_sample (tx_from signed_sample) = Inr True"
    by (simp add: verify_transaction_def unsigned_transaction_bytes_def f t try_into_array_def sample_digest_def)
  moreover have "validate_transaction_nonce signed_sample (Some (sample_account 100 4)) = Inr ()"
    by (simp add: validate_transaction_nonce_def t sample_account_def)
  ultimately show ?thesis
    using submit_account f(2) t(1) unfolding check_submission_Inr by (intro exI [of _ "[1]"]) simp
qed

lemma submit_accepted:
  "\<exists>st' resp. send_transaction W submit_env submit_state (encode_hex submit_env [1]) = Some (Inr (st', Inr resp)) \<and>
     rs_storage st' = rs_storage submit_state"
proof -
  have "admit W submit_env signed_sample (Some (sample_account 100 4)) s = Some (s, Inr ())" for s :: "db_log RocksDbStorage"
    by (simp add: admit_def signed_sample_def sample_tx_def validate_transaction_balance_def FIXED_TRANSACTION_FEE_def
      checked_add_def sample_account_def)
  moreover have "\<exists>h. hash_transaction submit_env signed_sample = Inr h"
    by (simp add: hash_transaction_def submit_env_def with_hex_def env.defs api_env.defs const_codec_def)
  ultimately show ?thesis by (auto simp: send_transaction_def submit_checked Let_def)
qed

theorem send_transaction_sound_witness:
  "\<exists>st' resp. send_transaction (script_engine []) submit_env submit_state (encode_hex submit_env [1]) = Some (Inr (st', Inr resp)) \<and>
     (\<exists>t. rs_mempool st' = add_transaction (rs_mempool submit_state) t \<and> paid_for submit_env 100 t)"
proof -
  obtain st' resp where a: "send_transaction (script_engine []) submit_env submit_state (encode_hex submit_env [1]) = Some (Inr (st', Inr resp))"
    using submit_accepted by blast
  from send_transaction_sound [OF this] obtain t acc where
    t: "rs_mempool st' = add_transaction (rs_mempool submit_state) t" "paid_for submit_env (sender_balance acc) t"
    "get_account submit_env (tx_from t) (rs_storage submit_state) = Inr acc" "\<exists>bs. decode_hex submit_env (encode_hex submit_env [1]) ''hex_tx'' = Inr bs \<and>
      deserialize (bc_transaction submit_env) bs = Inr t" by auto
  have "t = signed_sample" using t(4)
    by (auto simp: submit_env_def with_hex_def env.defs api_env.defs const_codec_def)
  with t(3) submit_account have "sender_balance acc = 100" by (auto simp: signed_sample_def sample_tx_def sender_balance_def sample_account_def)
  with t(1,2) a show ?thesis by auto
qed

definition two_blocks :: "db_log RocksDbStorage" where
  "two_blocks = sample_storage\<lparr>db := [(block_key 10, Some []), (block_key 9, Some [])]\<rparr>"

lemma two_blocks_content: "content two_blocks = [block_key 9 \<mapsto> [], block_key 10 \<mapsto> []]"
  by (simp add: content_def two_blocks_def sample_storage_def log_engine_def log_entries_def log_apply_def
    map_of_btree_insert btree_ok_insert fun_eq_iff)

theorem latest_block_height_max_witness:
  "\<exists>m. latest_block_height two_blocks = Inr (Some m) \<and> 10 \<le> m"
proof -
  have ok: "storage_ok two_blocks" using sample_storage_ok by (simp add: two_blocks_def)
  have keys: "\<forall>k. prefix (bytes_of BLOCK_PREFIX) k \<and> content two_blocks k \<noteq> None \<longrightarrow> (\<exists>h. k = block_key h)"
    by (auto simp: two_blocks_content split: if_splits)
  have "content two_blocks (block_key 10) \<noteq> None" by (simp add: two_blocks_content)
  with latest_block_height_max [OF ok keys] show ?thesis by (fastforce split: option.splits)
qed

definition serve_env :: api_env where
  "serve_env = with_hex (sample_env\<lparr>bc_block := const_codec sample_block, bc_u64 := const_codec 1\<rparr>)"

theorem saved_block_served_witness:
  "\<exists>s' hash view. save_block serve_env sample_block sample_storage = Inr (s', Inr hash) \<and>
     rpc_get_block serve_env (submit_state\<lparr>rs_storage := s'\<rparr>) \<lparr>gb_height = None, gb_hash = Some (encode_hex serve_env hash)\<rparr> = Inr (Inr (Some view))"
proof -
  have f: "serialize (bc_block serve_env) sample_block = Inr [1]" "serialize (bc_u64 serve_env) 1 = Inr [1]"
    and rt: "roundtrips (bc_block serve_env) sample_block" "roundtrips (bc_u64 serve_env) (h_height (b_header sample_block))"
    and height: "h_height (b_header sample_block) = 1"
    by (simp_all add: serve_env_def with_hex_def env.defs api_env.defs const_codec_def roundtrips_def
      sample_block_def sample_header_def)
  have hex: "hex_spec serve_env" unfolding serve_env_def by (rule with_hex_spec)
  obtain hash where h: "hash_block_header serve_env (b_header sample_block) = Inr hash"
    by (simp add: hash_block_header_def serve_env_def with_hex_def env.defs api_env.defs sample_env_def field_codec_def)
  obtain s1 where s1: "put_encoded (bc_block serve_env) (block_key 1) sample_block sample_storage = (s1, Inr ())" "storage_ok s1"
    using put_encoded_content [OF sample_storage_ok f(1), of "block_key 1"] by blast
  obtain s2 where "put_encoded (bc_u64 serve_env) (height_index_key hash) 1 s1 = (s2, Inr ())"
    using put_encoded_content [OF s1(2) f(2), of "height_index_key hash"] by blast
  then have sv: "save_block serve_env sample_block sample_storage = Inr (s2, Inr hash)"
    using h s1(1) by (simp add: save_block_def height st_bind_Inr st_lift_def)
  from saved_block_served [OF hex sample_storage_ok sv rt] sv show ?thesis by blast
qed

section \<open>Reading is harmless\<close>

text \<open>
  Only \<open>send_transaction\<close> changes anything but the rate limiter: every other method, and
  every request the rate limiter refuses, leaves storage and mempool as they were.
\<close>

theorem rpc_reads_only:
  assumes "rpc_call W E L J st req = Some (Inr (st', r))"
    and "snd (limiter_check L (rs_rate_limiter st)) = False \<or> (\<forall>j. req \<noteq> ReqSendTransaction j)"
  shows "rs_storage st' = rs_storage st \<and> rs_mempool st' = rs_mempool st"
  using assms
  by (cases req) (auto simp: rpc_call_def check_rate_limit_def answer_def result_simps split: prod.splits if_splits sum.splits)

theorem rpc_reads_only_witness:
  "\<exists>st'. rpc_call (script_engine []) serve_env \<lparr>limiter_per_second = (\<lambda>_. ()), limiter_check = (\<lambda>_. ((), False))\<rparr>
      \<lparr>parse_get_block = (\<lambda>_. Inl []), parse_hash = (\<lambda>_. Inl []), parse_send = (\<lambda>_. Inl []), parse_address = (\<lambda>_. Inl [])\<rparr>
      submit_state (ReqGetInfo :: unit rpc_request) = Some (Inr (st', Inl rate_limit_exceeded)) \<and>
    rs_mempool st' = rs_mempool submit_state"
  using rpc_reads_only [of "script_engine []" serve_env "\<lparr>limiter_per_second = (\<lambda>_. ()), limiter_check = (\<lambda>_. ((), False))\<rparr>"
    "\<lparr>parse_get_block = (\<lambda>_. Inl []), parse_hash = (\<lambda>_. Inl []), parse_send = (\<lambda>_. Inl []), parse_address = (\<lambda>_. Inl [])\<rparr>"
    submit_state "ReqGetInfo :: unit rpc_request"]
  by (simp add: rpc_call_def check_rate_limit_def)

end
