(* ===== verification/ClientLaws.thy ===== *)
theory ClientLaws
  imports Explorer ApiLaws NodeLaws
begin

text \<open>
  What the command line client and the web site guarantee: key material is read the same way by
  all programs, an encrypted key file gives back its key, and a transaction that a client builds
  from the answers of the RPC interface is accepted by that interface.
\<close>

section \<open>Text\<close>

lemma text_of_bytes_of: "text_of (bytes_of s) = s"
  by (simp add: text_of_def bytes_of_def unat_of_char comp_def)

lemma trim_starts:
  assumes "s \<noteq> []" and "\<not> is_whitespace (hd s)"
  shows "trim s \<noteq> [] \<and> hd (trim s) = hd s"
proof -
  obtain c t where s: "s = c # t" "\<not> is_whitespace c" using assms by (cases s) auto
  have "dropWhile is_whitespace (rev s) \<noteq> []" "last (dropWhile is_whitespace (rev s)) = c"
    using s by (auto simp: dropWhile_append split: if_splits)
  then show ?thesis using s by (simp add: trim_def hd_rev)
qed

lemma hex_not_prefixed:
  assumes "list_all is_hex_digit s"
  shows "strip_hex_prefix s = s"
proof -
  have "CHR ''x'' \<notin> set s" "CHR ''X'' \<notin> set s" using assms by (auto simp: list_all_iff is_hex_digit_def)
  then have "take 2 s \<noteq> ''0x''" "take 2 s \<noteq> ''0X''" using set_take_subset [of 2 s] by auto
  then show ?thesis by (simp add: strip_hex_prefix_def)
qed

lemma hex_not_brace: "list_all is_hex_digit s \<Longrightarrow> take 1 s \<noteq> ''{''"
  by (cases s) (auto simp: is_hex_digit_def)

lemma decode_hex_vec_encode: "hex_spec E \<Longrightarrow> decode_hex_vec E label (hex_encode E bs) = Inr bs"
  by (simp add: decode_hex_vec_def hex_spec_def trim_hex hex_not_prefixed)

lemma parse_encoded_key:
  "hex_spec E \<Longrightarrow> length k = 32 \<Longrightarrow> parse_secret_key_material E (hex_encode E k) = Inr k"
  using hex_not_brace [of "hex_encode E k"]
  by (simp add: parse_secret_key_material_def cli_decode_hex_32_def decode_hex_vec_encode try_into_array_def hex_spec_def trim_hex)

lemma parsed_key_length: "parse_secret_key_material E s = Inr k \<Longrightarrow> length k = 32"
  by (auto simp: parse_secret_key_material_def cli_decode_hex_32_def Let_def result_simps split: if_splits option.splits)

section \<open>One reading of key material\<close>

text \<open>The network module uses the same crates as the clients.\<close>

definition same_crates :: "('k, 'y) net_env_scheme \<Rightarrow> 'z cli_env_scheme \<Rightarrow> bool" where
  "same_crates N E \<longleftrightarrow> net_hex_decode N = hex_decode E \<and>
     (\<forall>text field. json_string_field N text field = and_then (json_from_str E text) (\<lambda>j. Inr (get_str field j)))"

lemma decode_32_agree:
  assumes "same_crates N E"
  shows "cli_decode_hex_32 E l v = Inr k \<longleftrightarrow> explorer_decode_hex_32 E l' v = Inr k"
    and "decode_hex_32 N l'' v = Inr k \<longleftrightarrow> cli_decode_hex_32 E l v = Inr k"
  using assms
  by (auto simp: cli_decode_hex_32_def explorer_decode_hex_32_def decode_hex_vec_def explorer_decode_hex_vec_def
    decode_hex_32_def same_crates_def result_simps)

text \<open>
  All three programs read key material alike: for every text, the command line client, the
  web site and the node's network identity accept the same texts and read the same key from
  them, whether plain hexadecimal with or without a prefix or JSON with either field.
\<close>

theorem key_parsers_agree:
  assumes "same_crates N E" and "hex_decode E [] = Inr []" and "utf8_valid (bytes_of s)"
  shows "(explorer_parse_secret_key_material E s = Inr k \<longleftrightarrow> parse_secret_key_material E s = Inr k) \<and>
    (parse_network_secret_key_file_contents N (bytes_of s) = Inr k \<longleftrightarrow> parse_secret_key_material E s = Inr k)"
proof -
  have empty: "cli_decode_hex_32 E l [] \<noteq> Inr k" for l
    using assms(2) by (simp add: cli_decode_hex_32_def decode_hex_vec_def trim_def strip_hex_prefix_def try_into_array_def)
  have field: "json_string_field N t f = and_then (json_from_str E t) (\<lambda>j. Inr (get_str f j))" for t f
    using assms(1) by (simp add: same_crates_def)
  note agree = decode_32_agree [OF assms(1)]
  have a: "explorer_decode_hex_32 E l v = Inr k \<longleftrightarrow> cli_decode_hex_32 E l v = Inr k" for l v using agree(1) by blast
  have b: "decode_hex_32 N l v = Inr k \<longleftrightarrow> cli_decode_hex_32 E l' v = Inr k" for l l' v using agree(2) by blast
  show ?thesis
  proof (cases "take 1 (trim s) = ''{''")
    case True
    then have "trim s \<noteq> []" by auto
    with True assms(3) show ?thesis
      by (cases "json_from_str E (trim s)")
        (simp_all add: explorer_parse_secret_key_material_def parse_secret_key_material_def Let_def
          parse_network_secret_key_file_contents_def text_of_bytes_of field a b split: option.splits)
  next
    case False
    have e: "parse_secret_key_material E s = cli_decode_hex_32 E ''secret_key'' (trim s)"
      using False by (simp add: parse_secret_key_material_def Let_def)
    have n: "parse_network_secret_key_file_contents N (bytes_of s) = decode_hex_32 N ''PRIMS_NETWORK_SECRET_KEY_FILE'' (trim s)"
      using False assms(3) by (simp add: parse_network_secret_key_file_contents_def text_of_bytes_of Let_def)
    have x: "explorer_parse_secret_key_material E s =
        (if trim s = [] then Inl KeyEmpty else explorer_decode_hex_32 E ''secret_key'' (trim s))"
      using False by (simp add: explorer_parse_secret_key_material_def Let_def)
    show ?thesis
    proof (cases "trim s = []")
      case True
      then show ?thesis using empty b [of "''PRIMS_NETWORK_SECRET_KEY_FILE''" "[]" "''secret_key''"] by (simp add: e n x)
    next
      case False
      then show ?thesis using a [of "''secret_key''" "trim s"] b [of "''PRIMS_NETWORK_SECRET_KEY_FILE''" "trim s" "''secret_key''"]
        by (simp add: e n x)
    qed
  qed
qed

section \<open>Encrypted key files\<close>

text \<open>
  The \<open>age\<close> crate: an armoured text starts with a dash, is ASCII, and decrypts under its
  passphrase, with or without a final line break.
\<close>

definition age_spec :: "'z cli_env_scheme \<Rightarrow> bool" where
  "age_spec E \<longleftrightarrow> (\<forall>pw pt. \<exists>ct. age_encrypt E pw pt = Inr ct \<and> ct \<noteq> [] \<and> hd ct = CHR ''-'' \<and>
     age_decrypt E pw (bytes_of ct) = Inr pt \<and> age_decrypt E pw (bytes_of ct @ [10]) = Inr pt)"

text \<open>A world with working files in which the user types the same password at every prompt.\<close>

definition terminal_spec :: "'w world_ops \<Rightarrow> ('w \<Rightarrow> string \<rightharpoonup> bytes) \<Rightarrow> string \<Rightarrow> bool" where
  "terminal_spec W view pw \<longleftrightarrow>
     (\<forall>p w b. view w p = Some b \<longrightarrow> fs_read W p w = Inr b) \<and>
     (\<forall>p w. view w p = None \<longrightarrow> (\<exists>w'. fs_create_new W p w = (w', Inr ()) \<and> view w' = (view w)(p \<mapsto> []))) \<and>
     (\<forall>p bs w b. view w p = Some b \<longrightarrow> (\<exists>w'. fs_write_all W p bs w = (w', Inr ()) \<and> view w' = (view w)(p \<mapsto> b @ bs))) \<and>
     (\<forall>q w. \<exists>w'. prompt_password W q w = (w', Inr pw) \<and> view w' = view w) \<and>
     (\<forall>w. view (fst (os_random W w)) = view w \<and> length (snd (os_random W w)) = 32)"

lemma terminal_prompt:
  assumes "terminal_spec W view pw"
  obtains w' where "prompt_password W q w = (w', Inr pw)" and "view w' = view w"
  using assms unfolding terminal_spec_def by blast

lemma terminal_write:
  assumes "terminal_spec W view pw" and "view w p = Some b"
  obtains w' where "fs_write_all W p bs w = (w', Inr ())" and "view w' = (view w)(p \<mapsto> b @ bs)"
  using assms unfolding terminal_spec_def by blast

lemma dash_text:
  assumes "ct \<noteq> []" and "hd ct = CHR ''-''"
  shows "take 1 (trim ct) \<noteq> ''{''" and "\<not> looks_like_plaintext_hex_secret (trim ct)"
proof -
  have d: "\<not> is_whitespace (CHR ''-'')" by (simp add: is_whitespace_def)
  have t: "trim ct \<noteq> []" "hd (trim ct) = CHR ''-''" using trim_starts [OF assms(1)] assms(2) d by simp_all
  then show "take 1 (trim ct) \<noteq> ''{''" by (cases "trim ct") auto
  have u: "trim (trim ct) \<noteq> []" "hd (trim (trim ct)) = CHR ''-''" using trim_starts [OF t(1)] t(2) d by simp_all
  then have "strip_hex_prefix (trim (trim ct)) = trim (trim ct)"
    by (cases "trim (trim ct)") (auto simp: strip_hex_prefix_def numeral_2_eq_2)
  moreover have "\<not> is_ascii_hexdigit (CHR ''-'')" by (simp add: is_ascii_hexdigit_def)
  ultimately show "\<not> looks_like_plaintext_hex_secret (trim ct)"
    using u by (cases "trim (trim ct)") (auto simp: looks_like_plaintext_hex_secret_def)
qed

lemma hex_bytes_ascii: "list_all is_hex_digit s \<Longrightarrow> utf8_valid (bytes_of s)"
proof (rule utf8_ascii, rule ballI)
  fix b assume hex: "list_all is_hex_digit s" and "b \<in> set (bytes_of s)"
  then obtain c where c: "is_hex_digit c" "b = of_char c" by (auto simp: bytes_of_def list_all_iff)
  then have n: "(of_char c :: nat) < 128" by (auto simp: is_hex_digit_def)
  then show "b < 128" using c(2) by (simp add: word_less_nat_alt unat_of_char)
qed

lemma prompt_new_ok:
  assumes "terminal_spec W view pw" and "trim pw \<noteq> []"
  obtains w' where "prompt_new_passphrase W w = (w', Inr pw)" and "view w' = view w"
proof -
  obtain w1 where 1: "prompt_password W (''Mot de passe du fichier chiffr'' @ [CHR 0xC3, CHR 0xA9] @ '': '') w = (w1, Inr pw)"
      "view w1 = view w"
    using terminal_prompt [OF assms(1)] by blast
  obtain w2 where 2: "prompt_password W ''Confirme le mot de passe: '' w1 = (w2, Inr pw)" "view w2 = view w1"
    using terminal_prompt [OF assms(1)] by blast
  from 1 2 assms(2) that show ?thesis
    by (simp add: prompt_new_passphrase_def io_bind_def io_context_def)
qed

lemma write_encrypted_ok:
  assumes "terminal_spec W view pw" and "trim pw \<noteq> []" and "age_spec E" and "view w path = None"
  shows "\<exists>w' ct. write_encrypted_secret_key_file E W path key w = (w', Inr ()) \<and> view w' path = Some (bytes_of ct) \<and>
    ct \<noteq> [] \<and> hd ct = CHR ''-'' \<and> age_decrypt E pw (bytes_of ct) = Inr (bytes_of (hex_encode E key))"
proof -
  obtain w1 where 1: "prompt_new_passphrase W w = (w1, Inr pw)" "view w1 = view w" using prompt_new_ok [OF assms(1,2)] .
  obtain ct where ct: "age_encrypt E pw (bytes_of (hex_encode E key)) = Inr ct" "ct \<noteq> []" "hd ct = CHR ''-''"
      "age_decrypt E pw (bytes_of ct) = Inr (bytes_of (hex_encode E key))"
      "age_decrypt E pw (bytes_of ct @ [10]) = Inr (bytes_of (hex_encode E key))"
    using assms(3) unfolding age_spec_def by blast
  obtain w2 where 2: "fs_create_new W path w1 = (w2, Inr ())" "view w2 = (view w1)(path \<mapsto> [])"
    using assms(1,4) 1(2) unfolding terminal_spec_def by metis
  obtain w3 where 3: "fs_write_all W path (bytes_of ct) w2 = (w3, Inr ())" "view w3 = (view w2)(path \<mapsto> [] @ bytes_of ct)"
    by (rule terminal_write [OF assms(1), of w2 path "[]" "bytes_of ct"]) (simp_all add: 2(2))
  show ?thesis
  proof (cases "last ct = CHR 10")
    case True
    with ct 1 2 3 show ?thesis
      by (intro exI [of _ w3] exI [of _ ct])
        (simp add: write_encrypted_secret_key_file_def io_bind_def io_context_def Let_def)
  next
    case False
    have "view w3 path = Some (bytes_of ct)" using 3(2) by simp
    then obtain w4 where 4: "fs_write_all W path [10] w3 = (w4, Inr ())" "view w4 = (view w3)(path \<mapsto> bytes_of ct @ [10])"
      using terminal_write [OF assms(1)] by blast
    have "bytes_of (ct @ [CHR 10]) = bytes_of ct @ [10]" by (simp add: bytes_of_def)
    with False ct 1 2 3 4 show ?thesis
      by (intro exI [of _ w4] exI [of _ "ct @ [CHR 10]"])
        (simp add: write_encrypted_secret_key_file_def io_bind_def io_context_def Let_def)
  qed
qed

text \<open>
  C19. A generated key survives its encrypted file: \<open>generate-key --encrypted-file\<close> to a new path
  with a non-blank password succeeds, and a later command whose environment names that file and
  whose user types the same password signs with exactly the generated key, the one whose public
  key was printed.
\<close>

theorem encrypted_key_roundtrip:
  assumes "terminal_spec W view pw" and "trim pw \<noteq> []" and "age_spec E" and "hex_spec E" and "view w path = None"
    and "vars ''PRIMS_SECRET_KEY_FILE'' = Some path"
  shows "\<exists>w' w'' key. cli_main E W vars0 (GenerateKey (Some path)) w =
      (w', Inr (PrintEncryptedKey (hex_encode E (signing_public E key)) path)) \<and>
    load_secret_key E W vars w' = (w'', Inr key)"
proof -
  obtain w0 key where r: "os_random W w = (w0, key)" by (cases "os_random W w")
  have "view (fst (os_random W w)) = view w \<and> length (snd (os_random W w)) = 32" using assms(1) by (simp add: terminal_spec_def)
  with r have w0: "view w0 = view w" "length key = 32" by simp_all
  have "view w0 path = None" using w0(1) assms(5) by simp
  from write_encrypted_ok [OF assms(1-3) this, of key] obtain w1 ct where 1:
      "write_encrypted_secret_key_file E W path key w0 = (w1, Inr ())" "view w1 path = Some (bytes_of ct)"
      "ct \<noteq> []" "hd ct = CHR ''-''" "age_decrypt E pw (bytes_of ct) = Inr (bytes_of (hex_encode E key))"
    by (elim exE conjE)
  have g: "cli_main E W vars0 (GenerateKey (Some path)) w = (w1, Inr (PrintEncryptedKey (hex_encode E (signing_public E key)) path))"
    using r 1(1) by (simp add: cli_main_def generate_key_command_def generate_keypair_def io_bind_Inr)
  have rd: "fs_read W path w1 = Inr (bytes_of ct)" using assms(1) 1(2) unfolding terminal_spec_def by blast
  obtain w2 where 2: "prompt_password W (''Mot de passe pour '' @ path @ '': '') w1 = (w2, Inr pw)"
    using terminal_prompt [OF assms(1)] by blast
  have hex: "list_all is_hex_digit (hex_encode E key)" using assms(4) by (simp add: hex_spec_def)
  have p: "prompt_existing_passphrase W path w1 = (w2, Inr pw)"
    using 2 assms(2) by (simp add: prompt_existing_passphrase_def io_bind_def io_context_def)
  have "decrypt_secret_key_file E W path (bytes_of ct) w1 = (w2, Inr key)"
    using p 1(5) hex_bytes_ascii [OF hex] parse_encoded_key [OF assms(4) w0(2)]
    by (simp add: decrypt_secret_key_file_def io_bind_Inr text_of_bytes_of)
  then have "load_secret_key E W vars w1 = (w2, Inr key)"
    using dash_text [OF 1(3,4)] assms(6) rd
    by (simp add: load_secret_key_def io_bind_reads parse_secret_key_file_contents_def text_of_bytes_of Let_def)
  with g show ?thesis by blast
qed

section \<open>Clients and the RPC interface\<close>

text \<open>The method names of the clients and the methods that the server registers.\<close>

fun route :: "string \<Rightarrow> json \<Rightarrow> json rpc_request option" where
  "route meth params =
     (if meth = ''get_balance'' then Some (ReqGetBalance params)
      else if meth = ''send_transaction'' then Some (ReqSendTransaction params)
      else if meth = ''get_info'' then Some ReqGetInfo
      else if meth = ''get_validators'' then Some ReqGetValidators
      else if meth = ''get_note_commitments'' then Some ReqGetNoteCommitments
      else None)"

text \<open>
  A world in which a server with the state \<open>server\<close> answers at the address: a successful answer
  of the RPC module reaches the client as the \<open>result\<close> of a JSON-RPC reply.
\<close>

definition serves :: "('m, 'g) wasmtime \<Rightarrow> 'z cli_env_scheme \<Rightarrow> 'l governor \<Rightarrow> json rpc_parser \<Rightarrow> (rpc_response \<Rightarrow> json)
    \<Rightarrow> 'w world_ops \<Rightarrow> ('w \<Rightarrow> ('d, 'l) RpcState) \<Rightarrow> string \<Rightarrow> bool" where
  "serves M E L J render W server url \<longleftrightarrow>
     (\<forall>meth params req w st' resp. route meth params = Some req \<longrightarrow>
        rpc_call M E L J (server w) req = Some (Inr (st', Inr resp)) \<longrightarrow>
        (\<exists>w'. http_post W url (jsonrpc_request meth params) w = (w', Inr (200, Inr (jsonrpc_result (render resp)))) \<and> server w' = st'))"

text \<open>The derived parsers of the server and deserialisers of the clients fit together.\<close>

definition wire_spec :: "'z cli_env_scheme \<Rightarrow> json rpc_parser \<Rightarrow> (rpc_response \<Rightarrow> json) \<Rightarrow> bool" where
  "wire_spec E J render \<longleftrightarrow>
     (\<forall>a. parse_address J (JObj [(''address'', JStr a)]) = Inr \<lparr>ap_address = a\<rparr>) \<and>
     (\<forall>h. parse_send J (JObj [(''hex_tx'', JStr h)]) = Inr \<lparr>st_hex_tx = h\<rparr>) \<and>
     (\<forall>b. de_balance E (render (RespBalance b)) = Inr \<lparr>cb_address = bl_address b, cb_found = bl_found b, cb_balance = bl_balance b,
        cb_nonce = bl_nonce b, cb_note_commitment_count = bl_note_commitment_count b, cb_viewing_hint = None\<rparr>) \<and>
     (\<forall>b. json_get ''nonce'' (render (RespBalance b)) = Some (JInt (int (unat (bl_nonce b))))) \<and>
     (\<forall>r. de_send E (render (RespSend r)) = Inr r)"

definition unlimited :: "'l governor \<Rightarrow> bool" where
  "unlimited L \<longleftrightarrow> (\<forall>l. snd (limiter_check L l))"

text \<open>Calls that only the rate limiter notices.\<close>

definition same_chain :: "('d, 'l) RpcState \<Rightarrow> ('d, 'l) RpcState \<Rightarrow> bool" where
  "same_chain a b \<longleftrightarrow> rs_storage a = rs_storage b \<and> rs_mempool a = rs_mempool b"

lemma unlimited_check:
  assumes "unlimited L"
  obtains st' where "check_rate_limit L st = (st', Inr ())" and "same_chain st st'"
proof -
  obtain l where "limiter_check L (rs_rate_limiter st) = (l, True)"
    using assms unfolding unlimited_def by (metis prod.collapse)
  with that show ?thesis by (simp add: check_rate_limit_def same_chain_def)
qed

lemma interpret_result: "interpret_payload status (jsonrpc_result r) = Inr r" "explorer_interpret status (jsonrpc_result r) = Inr r"
  by (simp_all add: interpret_payload_def explorer_interpret_def jsonrpc_result_def)

text \<open>
  What both clients rely on from their call function: a \<open>result\<close> is returned as it is, an
  \<open>error\<close> object is an error.
\<close>

locale rpc_client =
  fixes W :: "'w world_ops"
    and url :: string
    and call :: "string \<Rightarrow> json \<Rightarrow> ('w, json, 'e) io"
  assumes call_result: "http_post W url (jsonrpc_request meth params) w = (w', Inr (status, Inr (jsonrpc_result r))) \<Longrightarrow>
      call meth params w = (w', Inr r)"
    and call_error: "http_post W url (jsonrpc_request meth params) w = (w', Inr (status, Inr (jsonrpc_error code message))) \<Longrightarrow>
      \<exists>e. call meth params w = (w', Inl e)"
begin

lemma served_call:
  assumes "serves M E L J render W server url" and "route meth params = Some req"
    and "rpc_call M E L J (server w) req = Some (Inr (st', Inr resp))"
  obtains w' where "call meth params w = (w', Inr (render resp))" and "server w' = st'"
proof -
  obtain w' where "http_post W url (jsonrpc_request meth params) w = (w', Inr (200, Inr (jsonrpc_result (render resp))))"
      "server w' = st'"
    using assms unfolding serves_def by blast
  with call_result that show thesis by blast
qed

lemma error_never_result:
  "http_post W url (jsonrpc_request meth params) w = (w', Inr (status, Inr (jsonrpc_error code message))) \<Longrightarrow>
   \<not> is_ok (snd (call meth params w))"
  using call_error by (fastforce simp: result_simps)

end

lemma interpret_error: "\<exists>e. interpret_payload status (jsonrpc_error c m) = Inl e" "\<exists>e. explorer_interpret status (jsonrpc_error c m) = Inl e"
  by (simp_all add: interpret_payload_def explorer_interpret_def jsonrpc_error_def)

interpretation cli: rpc_client W url "cli_rpc_call W Inr url" for W url
proof unfold_locales
  fix meth params w w' status r
  assume "http_post W url (jsonrpc_request meth params) w = (w', Inr (status, Inr (jsonrpc_result r)))"
  then show "cli_rpc_call W Inr url meth params w = (w', Inr r)"
    by (simp add: cli_rpc_call_def io_bind_def io_context_def interpret_result)
next
  fix meth params w w' status code message
  assume "http_post W url (jsonrpc_request meth params) w = (w', Inr (status, Inr (jsonrpc_error code message)))"
  then show "\<exists>e. cli_rpc_call W Inr url meth params w = (w', Inl e)"
    using interpret_error(1) [of status code message] by (auto simp: cli_rpc_call_def io_bind_def io_context_def)
qed

interpretation site: rpc_client W url "explorer_rpc_call W url" for W url
proof unfold_locales
  fix meth params w w' status r
  assume "http_post W url (jsonrpc_request meth params) w = (w', Inr (status, Inr (jsonrpc_result r)))"
  then show "explorer_rpc_call W url meth params w = (w', Inr r)"
    by (simp add: explorer_rpc_call_def io_bind_def io_context_def interpret_result)
next
  fix meth params w w' status code message
  assume "http_post W url (jsonrpc_request meth params) w = (w', Inr (status, Inr (jsonrpc_error code message)))"
  then show "\<exists>e. explorer_rpc_call W url meth params w = (w', Inl e)"
    using interpret_error(2) [of status code message] by (auto simp: explorer_rpc_call_def io_bind_def io_context_def)
qed

lemma cli_call_decoded:
  assumes "cli_rpc_call W Inr url meth params w = (w', Inr j)" and "de j = Inr x"
  shows "cli_rpc_call W de url meth params w = (w', Inr x)"
  using assms by (auto simp: cli_rpc_call_def io_bind_def result_simps split: prod.splits sum.splits)

lemma serves_cli:
  assumes "serves M E L J render W server url" and "route meth params = Some req"
    and "rpc_call M E L J (server w) req = Some (Inr (st', Inr resp))" and "de (render resp) = Inr x"
  obtains w' where "cli_rpc_call W de url meth params w = (w', Inr x)" and "server w' = st'"
proof (rule cli.served_call [OF assms(1-3)])
  fix w' assume c: "cli_rpc_call W Inr url meth params w = (w', Inr (render resp))" and s: "server w' = st'"
  have "cli_rpc_call W de url meth params w = (w', Inr x)" by (rule cli_call_decoded [where j = "render resp"]) (fact c assms(4))+
  from that [OF this s] show thesis .
qed

lemma served_balance:
  assumes "hex_spec E" and "wire_spec E J render" and "unlimited L"
    and "get_account E a (rs_storage st) = Inr (Some acc)"
  shows "\<exists>st'. rpc_call M E L J st (ReqGetBalance (JObj [(''address'', JStr (hex_encode E a))])) =
      Some (Inr (st', Inr (RespBalance (account_to_rpc E a acc)))) \<and> same_chain st st'"
proof -
  obtain st' where st': "check_rate_limit L st = (st', Inr ())" "same_chain st st'" using unlimited_check [OF assms(3)] .
  have "decode_hex E (hex_encode E a) ''address'' = Inr a"
    using decode_encode_hex [OF assms(1)] by (simp add: encode_hex_def)
  with st' assms(2,4) show ?thesis
    by (simp add: rpc_call_def wire_spec_def answer_def rpc_get_balance_def same_chain_def)
qed

text \<open>Transactions whose admission is the balance check alone.\<close>

fun is_payment :: "TransactionType \<Rightarrow> bool" where
  "is_payment Transfer = True"
| "is_payment PublicToAnon = True"
| "is_payment (Stake d) = True"
| "is_payment _ = False"

definition payable :: "Transaction \<Rightarrow> Account \<Rightarrow> bool" where
  "payable t acc \<longleftrightarrow> is_payment (tx_type t) \<and> tx_amount t \<noteq> 0 \<and> tx_fee t = FIXED_TRANSACTION_FEE \<and>
     unat (tx_amount t) + 1 \<le> unat (a_balance acc) \<and> a_nonce acc < tx_nonce t"

lemma payable_admitted:
  assumes "payable t acc"
  shows "admit M E t (Some acc) s = Some (s, Inr ())" "validate_transaction_nonce t (Some acc) = Inr ()"
proof -
  obtain c where c: "checked_add (tx_amount t) FIXED_TRANSACTION_FEE = Some c"
  proof (cases "checked_add (tx_amount t) FIXED_TRANSACTION_FEE")
    case None
    then have "2 ^ 64 \<le> unat (tx_amount t) + 1" by (simp add: checked_add_None_iff FIXED_TRANSACTION_FEE_def)
    moreover have "unat (a_balance acc) < 2 ^ 64" using unsigned_less [of "a_balance acc"] by simp
    ultimately show ?thesis using assms by (simp add: payable_def)
  qed blast
  then have "unat c = unat (tx_amount t) + 1" unfolding checked_add_Some_iff by (simp add: FIXED_TRANSACTION_FEE_def)
  then have "\<not> a_balance acc < c" using assms by (simp add: payable_def word_less_nat_alt)
  with c assms show "admit M E t (Some acc) s = Some (s, Inr ())"
    by (cases "tx_type t") (simp_all add: admit_def validate_transaction_balance_def payable_def)
  show "validate_transaction_nonce t (Some acc) = Inr ()"
    using assms by (simp add: validate_transaction_nonce_def payable_def not_le)
qed

lemma encoded_transaction:
  assumes "roundtrips (bc_transaction E) t" and "validate_transaction_size E t = Inr ()"
  obtains bs where "serialize (bc_transaction E) t = Inr bs" and "deserialize (bc_transaction E) bs = Inr t"
    and "length bs < MAX_TRANSACTION_SIZE_BYTES"
  using assms by (elim roundtripsE) (simp add: validate_transaction_size_def split: if_splits)

lemma served_payment:
  assumes "hex_spec E" and "wire_spec E J render" and "unlimited L"
    and "get_account E (tx_from t) (rs_storage st) = Inr (Some acc)" and "payable t acc"
    and "serialize (bc_transaction E) t = Inr bs" and "deserialize (bc_transaction E) bs = Inr t"
    and "length bs < MAX_TRANSACTION_SIZE_BYTES" and "length (tx_from t) = 32" and "verify_transaction E t (tx_from t) = Inr True"
  shows "\<exists>st' h. rpc_call M E L J st (ReqSendTransaction (JObj [(''hex_tx'', JStr (hex_encode E bs))])) =
      Some (Inr (st', Inr (RespSend \<lparr>sr_accepted = True, sr_tx_hash = h, sr_mempool_size = mempool_len (rs_mempool st')\<rparr>))) \<and>
    hash_transaction E t = Inr (sha256 E bs) \<and> h = hex_encode E (sha256 E bs) \<and>
    rs_storage st' = rs_storage st \<and> rs_mempool st' = add_transaction (rs_mempool st) t"
proof -
  obtain st1 where st1: "check_rate_limit L st = (st1, Inr ())" "same_chain st st1" using unlimited_check [OF assms(3)] .
  have acc: "get_account E (tx_from t) (rs_storage st1) = Inr (Some acc)" using assms(4) st1(2) by (simp add: same_chain_def)
  have d: "decode_hex E (hex_encode E bs) ''hex_tx'' = Inr bs" using decode_encode_hex [OF assms(1)] by (simp add: encode_hex_def)
  have size: "validate_transaction_size E t = Inr ()" using assms(6,8) by (simp add: validate_transaction_size_def not_le)
  have "check_submission E st1 (hex_encode E bs) = Inr (t, Some acc)"
    unfolding check_submission_Inr using d size acc assms(7,9,10) payable_admitted(2) [OF assms(5)]
    by (intro exI [of _ bs]) simp
  moreover have h: "hash_transaction E t = Inr (sha256 E bs)" using assms(6) by (simp add: hash_transaction_def)
  ultimately have "send_transaction M E st1 (hex_encode E bs) = Some (Inr (st1\<lparr>rs_mempool := add_transaction (rs_mempool st1) t\<rparr>,
      Inr \<lparr>sr_accepted = True, sr_tx_hash = hex_encode E (sha256 E bs), sr_mempool_size = mempool_len (add_transaction (rs_mempool st1) t)\<rparr>))"
    by (simp add: send_transaction_def payable_admitted(1) [OF assms(5)] Let_def encode_hex_def)
  with st1 h assms(2) show ?thesis by (simp add: rpc_call_def wire_spec_def same_chain_def)
qed

section \<open>Payments from the command line\<close>

text \<open>The sender the client builds from its key and the stored account.\<close>

definition sender_of :: "'z api_env_scheme \<Rightarrow> bytes \<Rightarrow> Account \<Rightarrow> SenderContext" where
  "sender_of E key acc = \<lparr>sc_secret_key = key, sc_public_key = signing_public E key,
     sc_address_hex = hex_encode E (signing_public E key), sc_next_nonce = a_nonce acc + 1\<rparr>"

definition cli_payment :: "'z api_env_scheme \<Rightarrow> bytes \<Rightarrow> Account \<Rightarrow> bool \<Rightarrow> bytes \<Rightarrow> u64 \<Rightarrow> u16 \<Rightarrow> u16 \<Rightarrow> Transaction" where
  "cli_payment E key acc anon to amount source_shard destination_shard =
     submitted_transaction (sender_of E key acc) (if anon then PublicToAnon else Transfer) to amount source_shard destination_shard
       (Some (bytes_of (if anon then ''prims-cli-send-anon'' else ''prims-cli-send'')))"

lemma next_nonce: "a \<noteq> - 1 \<Longrightarrow> saturating_add a 1 = a + 1 \<and> a < a + 1" for a :: u64
proof -
  assume "a \<noteq> - 1"
  then have "unat a \<noteq> unat (- 1 :: u64)" by (metis unat_inj)
  moreover have "unat (- 1 :: u64) = 2 ^ 64 - 1" by (simp add: unsigned_minus_1_eq_mask mask_eq_exp_minus_1)
  moreover have "unat a < 2 ^ 64" using unsigned_less [of a] by simp
  ultimately have "unat a + 1 < 2 ^ 64" by linarith
  then show ?thesis by (simp add: saturating_add_def word_less_nat_alt unat_word_ariths)
qed

lemma key_from_environment:
  assumes "vars ''PRIMS_SECRET_KEY_FILE'' = None" and "vars ''PRIMS_SECRET_KEY_HEX'' = Some text"
  shows "load_secret_key E W vars w = (w, parse_secret_key_material E text)"
  using assms by (simp add: load_secret_key_def)

lemma sender_context_ok:
  assumes "serves M E L J render W server url" and "wire_spec E J render" and "unlimited L" and "hex_spec E"
    and "load_secret_key E W vars w = (w, Inr key)"
    and "get_account E (signing_public E key) (rs_storage (server w)) = Inr (Some acc)" and "a_nonce acc \<noteq> - 1"
  obtains w' where "load_sender_context E W vars url w = (w', Inr (sender_of E key acc))" and "same_chain (server w) (server w')"
proof -
  let ?pk = "signing_public E key"
  obtain st' where st': "rpc_call M E L J (server w) (ReqGetBalance (JObj [(''address'', JStr (hex_encode E ?pk))])) =
      Some (Inr (st', Inr (RespBalance (account_to_rpc E ?pk acc))))" "same_chain (server w) st'"
    using served_balance [OF assms(4,2,3,6)] by blast
  have rt: "route ''get_balance'' (JObj [(''address'', JStr (hex_encode E ?pk))]) =
      Some (ReqGetBalance (JObj [(''address'', JStr (hex_encode E ?pk))]))" by simp
  have de: "de_balance E (render (RespBalance (account_to_rpc E ?pk acc))) =
      Inr \<lparr>cb_address = encode_hex E ?pk, cb_found = True, cb_balance = a_balance acc, cb_nonce = a_nonce acc,
        cb_note_commitment_count = length (note_commitments (a_anonymous_state acc)), cb_viewing_hint = None\<rparr>" (is "_ = Inr ?b")
    using assms(2) by (simp add: wire_spec_def account_to_rpc_def)
  obtain w' where w': "cli_rpc_call W (de_balance E) url ''get_balance'' (JObj [(''address'', JStr (hex_encode E ?pk))]) w = (w', Inr ?b)"
      "server w' = st'"
    using serves_cli [where de = "de_balance E" and render = render, OF assms(1) rt st'(1) de] .
  have "load_sender_context E W vars url w = (w', Inr (sender_of E key acc))"
    using w'(1) assms(5) next_nonce [OF assms(7)]
    by (simp add: load_sender_context_def io_bind_def Let_def sender_of_def)
  with that w'(2) st'(2) show ?thesis by blast
qed

lemma served_submission:
  assumes "serves M E L J render W server url" and "wire_spec E J render" and "unlimited L" and "hex_spec E"
    and "get_account E (tx_from t) (rs_storage (server w)) = Inr (Some acc)" and "payable t acc"
    and "serialize (bc_transaction E) t = Inr bs" and "deserialize (bc_transaction E) bs = Inr t"
    and "length bs < MAX_TRANSACTION_SIZE_BYTES" and "length (tx_from t) = 32" and "verify_transaction E t (tx_from t) = Inr True"
  obtains w' h n where "cli_rpc_call W (de_send E) url ''send_transaction'' (JObj [(''hex_tx'', JStr (hex_encode E bs))]) w =
      (w', Inr \<lparr>sr_accepted = True, sr_tx_hash = h, sr_mempool_size = n\<rparr>)"
    and "rs_storage (server w') = rs_storage (server w)" and "rs_mempool (server w') = add_transaction (rs_mempool (server w)) t"
proof -
  let ?req = "JObj [(''hex_tx'', JStr (hex_encode E bs))]"
  obtain st' h where st': "rpc_call M E L J (server w) (ReqSendTransaction ?req) =
      Some (Inr (st', Inr (RespSend \<lparr>sr_accepted = True, sr_tx_hash = h, sr_mempool_size = mempool_len (rs_mempool st')\<rparr>)))"
      "rs_storage st' = rs_storage (server w)" "rs_mempool st' = add_transaction (rs_mempool (server w)) t"
    using served_payment [OF assms(4,2,3,5-11)] by blast
  let ?r = "\<lparr>sr_accepted = True, sr_tx_hash = h, sr_mempool_size = mempool_len (rs_mempool st')\<rparr>"
  have rt: "route ''send_transaction'' ?req = Some (ReqSendTransaction ?req)" by simp
  have de: "de_send E (render (RespSend ?r)) = Inr ?r" using assms(2) by (simp add: wire_spec_def)
  obtain w' where "cli_rpc_call W (de_send E) url ''send_transaction'' ?req w = (w', Inr ?r)" "server w' = st'"
    using serves_cli [where de = "de_send E" and render = render, OF assms(1) rt st'(1) de] .
  with that st'(2,3) show thesis by simp
qed

text \<open>
  C15. A payment from the command line reaches the mempool: against a running node that stores the
  sender's account with enough balance, \<open>send\<close> succeeds and prints an accepted transaction with
  the stored nonce plus one, and the node has queued exactly that transaction, signed by the
  key of the environment, and changed nothing in its storage.
\<close>

theorem cli_send_accepted:
  assumes "serves M E L J render W server url" and "wire_spec E J render" and "unlimited L" and "hex_spec E" and "ed25519_spec E"
    and "vars ''PRIMS_RPC_URL'' = Some url" and "vars ''PRIMS_SECRET_KEY_FILE'' = None"
    and "vars ''PRIMS_SECRET_KEY_HEX'' = Some text" and "parse_secret_key_material E text = Inr key"
    and "get_account E (signing_public E key) (rs_storage (server w)) = Inr (Some acc)" and "a_nonce acc \<noteq> - 1"
    and "decode_hex_vec E ''to'' to = Inr recipient" and "amount \<noteq> 0" and "unat amount + 1 \<le> unat (a_balance acc)"
    and "sign_transaction E (cli_payment E key acc anon recipient amount src dst) key = Inr sig"
    and "t = (cli_payment E key acc anon recipient amount src dst)\<lparr>tx_signature := sig\<rparr>"
    and "roundtrips (bc_transaction E) t" and "validate_transaction_size E t = Inr ()"
  shows "\<exists>w' out. cli_main E W vars (Send to amount anon src dst) w = (w', Inr (PrintSubmission out)) \<and>
    so_accepted out \<and> so_nonce out = a_nonce acc + 1 \<and> so_amount out = amount \<and> so_to out = hex_encode E recipient \<and>
    verify_transaction E t (signing_public E key) = Inr True \<and>
    rs_mempool (server w') = add_transaction (rs_mempool (server w)) t \<and> rs_storage (server w') = rs_storage (server w)"
proof -
  have len: "length key = 32" using parsed_key_length assms(9) .
  have lk: "load_secret_key E W vars w = (w, Inr key)" by (simp add: key_from_environment [OF assms(7,8)] assms(9))
  obtain w1 where w1: "load_sender_context E W vars url w = (w1, Inr (sender_of E key acc))" "same_chain (server w) (server w1)"
    using sender_context_ok [OF assms(1-4) lk assms(10,11)] .
  obtain bs where bs: "serialize (bc_transaction E) t = Inr bs" "deserialize (bc_transaction E) bs = Inr t"
    and small: "length bs < MAX_TRANSACTION_SIZE_BYTES"
    using encoded_transaction [OF assms(17,18)] .
  have sndr: "tx_from t = signing_public E key" by (simp add: assms(16) cli_payment_def submitted_transaction_def sender_of_def)
  have ver: "verify_transaction E t (tx_from t) = Inr True" 
    using sign_then_verify [OF assms(5) len assms(15)] sndr assms(16) by simp
  have pk32: "length (tx_from t) = 32" unfolding sndr using assms(5) len by (simp add: ed25519_spec_def)
  have pay: "payable t acc"
    using assms(13,14) next_nonce [OF assms(11)] by (simp add: payable_def assms(16) cli_payment_def submitted_transaction_def sender_of_def)
  have acc: "get_account E (tx_from t) (rs_storage (server w1)) = Inr (Some acc)"
    using assms(10) w1(2) sndr by (simp add: same_chain_def)
  obtain w2 h n where w2: "cli_rpc_call W (de_send E) url ''send_transaction'' (JObj [(''hex_tx'', JStr (hex_encode E bs))]) w1 =
      (w2, Inr \<lparr>sr_accepted = True, sr_tx_hash = h, sr_mempool_size = n\<rparr>)"
      "rs_storage (server w2) = rs_storage (server w1)" "rs_mempool (server w2) = add_transaction (rs_mempool (server w1)) t"
    using served_submission [OF assms(1-4) acc pay bs small pk32 ver] .
  have key: "sc_secret_key (sender_of E key acc) = key" by (simp add: sender_of_def)
  have sub: "submit_transaction E W url (sender_of E key acc) (if anon then PublicToAnon else Transfer) recipient amount src dst
      (Some (bytes_of (if anon then ''prims-cli-send-anon'' else ''prims-cli-send''))) w1 =
      (w2, Inr \<lparr>so_rpc_url = url, so_from = sc_address_hex (sender_of E key acc), so_to = hex_encode E recipient,
        so_tx_type = fst (tx_type_view (if anon then PublicToAnon else Transfer)),
        so_stake_duration = snd (tx_type_view (if anon then PublicToAnon else Transfer)), so_amount = amount,
        so_fee = FIXED_TRANSACTION_FEE, so_nonce = a_nonce acc + 1, so_source_shard = src, so_destination_shard = dst,
        so_accepted = True, so_tx_hash = h, so_mempool_size = n\<rparr>)"
    using assms(15) bs(1) w2(1)
    by (simp add: submit_transaction_def cli_payment_def [symmetric] key assms(16) [symmetric] io_bind_def
      case_prod_beta Let_def) (simp add: cli_payment_def submitted_transaction_def sender_of_def)
  show ?thesis
    using w1 sub assms(6,12) w2(2,3) ver sndr
    by (auto simp: cli_main_def send_command_def io_bind_Inr same_chain_def)
qed

section \<open>The faucet\<close>

definition faucet_ready :: "'z cli_env_scheme \<Rightarrow> FaucetConfig \<Rightarrow> Account \<Rightarrow> bool" where
  "faucet_ready E cfg acc \<longleftrightarrow> length (fc_secret_key cfg) = 32 \<and> fc_public_key cfg = signing_public E (fc_secret_key cfg) \<and>
     fc_amount cfg \<noteq> 0 \<and> unat (fc_amount cfg) + 1 \<le> unat (a_balance acc) \<and> a_nonce acc \<noteq> - 1"

text \<open>The signed transaction of a request, which the node can decode and which is small enough.\<close>

definition faucet_signed :: "'z cli_env_scheme \<Rightarrow> FaucetConfig \<Rightarrow> Account \<Rightarrow> bytes \<Rightarrow> Transaction \<Rightarrow> bool" where
  "faucet_signed E cfg acc recipient t \<longleftrightarrow>
     (\<exists>sig. sign_transaction E (faucet_transaction cfg recipient (a_nonce acc)) (fc_secret_key cfg) = Inr sig \<and>
        t = (faucet_transaction cfg recipient (a_nonce acc))\<lparr>tx_signature := sig\<rparr>) \<and>
     roundtrips (bc_transaction E) t \<and> validate_transaction_size E t = Inr ()"

lemma faucet_transfer_ok:
  assumes "serves M E L J render W server (ex_rpc_url state)" and "wire_spec E J render" and "unlimited L" and "hex_spec E"
    and "ed25519_spec E" and "ex_faucet_mode state = Enabled cfg" and "faucet_ready E cfg acc"
    and "get_account E (fc_public_key cfg) (rs_storage (server w)) = Inr (Some acc)"
    and "explorer_decode_hex_vec E ''address'' address = Inr recipient" and "length recipient = 32"
    and "faucet_signed E cfg acc recipient t"
  shows "\<exists>w' v. submit_faucet_transfer E W state address w = (w', Inr v) \<and>
    rs_mempool (server w') = add_transaction (rs_mempool (server w)) t \<and> rs_storage (server w') = rs_storage (server w)"
proof -
  obtain sig where sig: "sign_transaction E (faucet_transaction cfg recipient (a_nonce acc)) (fc_secret_key cfg) = Inr sig"
      "t = (faucet_transaction cfg recipient (a_nonce acc))\<lparr>tx_signature := sig\<rparr>"
    and rt: "roundtrips (bc_transaction E) t" and size: "validate_transaction_size E t = Inr ()"
    using assms(11) unfolding faucet_signed_def by blast
  obtain bs where bs: "serialize (bc_transaction E) t = Inr bs" "deserialize (bc_transaction E) bs = Inr t"
    and small: "length bs < MAX_TRANSACTION_SIZE_BYTES"
    using encoded_transaction [OF rt size] .
  let ?pk = "fc_public_key cfg"
  have pk: "?pk = signing_public E (fc_secret_key cfg)" "length (fc_secret_key cfg) = 32" "a_nonce acc \<noteq> - 1"
    using assms(7) by (simp_all add: faucet_ready_def)
  have fields: "tx_from t = ?pk" "payable t acc"
    using assms(7) next_nonce [OF pk(3)] by (simp_all add: sig(2) faucet_transaction_def payable_def faucet_ready_def)
  have ver: "verify_transaction E t (tx_from t) = Inr True"
    using sign_then_verify [OF assms(5) pk(2) sig(1)] fields(1) pk(1) sig(2) by simp
  have pk32: "length (tx_from t) = 32" using fields(1) pk assms(5) by (simp add: ed25519_spec_def)
  let ?bal = "JObj [(''address'', JStr (hex_encode E ?pk))]" and ?req = "JObj [(''hex_tx'', JStr (hex_encode E bs))]"
  obtain st1 where st1: "rpc_call M E L J (server w) (ReqGetBalance ?bal) = Some (Inr (st1, Inr (RespBalance (account_to_rpc E ?pk acc))))"
      "same_chain (server w) st1"
    using served_balance [OF assms(4,2,3,8)] by blast
  have r1: "route ''get_balance'' ?bal = Some (ReqGetBalance ?bal)" by simp
  obtain w1 where w1: "explorer_rpc_call W (ex_rpc_url state) ''get_balance'' ?bal w =
      (w1, Inr (render (RespBalance (account_to_rpc E ?pk acc))))" "server w1 = st1"
    using site.served_call [OF assms(1) r1 st1(1)] .
  have nonce: "Option.bind (json_get ''nonce'' (render (RespBalance (account_to_rpc E ?pk acc)))) as_u64 = Some (a_nonce acc)"
  proof -
    have "json_get ''nonce'' (render (RespBalance (account_to_rpc E ?pk acc))) = Some (JInt (int (unat (a_nonce acc))))"
      using assms(2) by (simp add: wire_spec_def account_to_rpc_def)
    then show ?thesis using as_u64_unat [of "a_nonce acc"] by (simp del: as_u64.simps)
  qed
  have acc: "get_account E (tx_from t) (rs_storage (server w1)) = Inr (Some acc)"
    using assms(8) st1(2) w1(2) fields(1) by (simp add: same_chain_def)
  obtain st2 h where st2: "rpc_call M E L J (server w1) (ReqSendTransaction ?req) =
      Some (Inr (st2, Inr (RespSend \<lparr>sr_accepted = True, sr_tx_hash = h, sr_mempool_size = mempool_len (rs_mempool st2)\<rparr>)))"
      "rs_storage st2 = rs_storage (server w1)" "rs_mempool st2 = add_transaction (rs_mempool (server w1)) t"
    using served_payment [OF assms(4,2,3) acc fields(2) bs small pk32 ver] by blast
  have r2: "route ''send_transaction'' ?req = Some (ReqSendTransaction ?req)" by simp
  obtain w2 where w2: "explorer_rpc_call W (ex_rpc_url state) ''send_transaction'' ?req w1 =
      (w2, Inr (render (RespSend \<lparr>sr_accepted = True, sr_tx_hash = h, sr_mempool_size = mempool_len (rs_mempool st2)\<rparr>)))" "server w2 = st2"
    using site.served_call [OF assms(1) r2 st2(1)] .
  have "\<exists>v. submit_faucet_transfer E W state address w = (w2, Inr v)"
    using assms(6,9,10) w1(1) nonce sig(1) sig(2) [symmetric] bs(1) w2(1)
    by (simp add: submit_faucet_transfer_def Let_def io_bind_Inr)
  with w2(2) st2(2,3) w1(2) st1(2) show ?thesis by (auto simp: same_chain_def)
qed

text \<open>
  The faucet pays, but reuses its nonce: two requests to an enabled and funded faucet both
  succeed and the node queues both transfers, each of the configured amount to its recipient;
  because the nonce is taken from the stored account, which a queued transaction does not
  change, both carry the same nonce, so at most one of them can ever pass the nonce check once
  the other is applied.
\<close>

theorem faucet_twice:
  assumes "serves M E L J render W server (ex_rpc_url state)" and "wire_spec E J render" and "unlimited L" and "hex_spec E"
    and "ed25519_spec E" and "ex_faucet_mode state = Enabled cfg" and "faucet_ready E cfg acc"
    and "get_account E (fc_public_key cfg) (rs_storage (server w)) = Inr (Some acc)"
    and "explorer_decode_hex_vec E ''address'' a1 = Inr r1" and "length r1 = 32" and "faucet_signed E cfg acc r1 t1"
    and "explorer_decode_hex_vec E ''address'' a2 = Inr r2" and "length r2 = 32" and "faucet_signed E cfg acc r2 t2"
  shows "\<exists>w1 w2 v1 v2. submit_faucet_transfer E W state a1 w = (w1, Inr v1) \<and> submit_faucet_transfer E W state a2 w1 = (w2, Inr v2) \<and>
    rs_mempool (server w2) = add_transaction (add_transaction (rs_mempool (server w)) t1) t2 \<and>
    tx_to t1 = r1 \<and> tx_to t2 = r2 \<and> tx_amount t1 = fc_amount cfg \<and> tx_amount t2 = fc_amount cfg \<and>
    tx_nonce t1 = a_nonce acc + 1 \<and> tx_nonce t2 = tx_nonce t1"
proof -
  obtain w1 v1 where 1: "submit_faucet_transfer E W state a1 w = (w1, Inr v1)"
      "rs_mempool (server w1) = add_transaction (rs_mempool (server w)) t1" "rs_storage (server w1) = rs_storage (server w)"
    using faucet_transfer_ok [OF assms(1-11)] by blast
  have acc: "get_account E (fc_public_key cfg) (rs_storage (server w1)) = Inr (Some acc)" using assms(8) 1(3) by simp
  obtain w2 v2 where 2: "submit_faucet_transfer E W state a2 w1 = (w2, Inr v2)"
      "rs_mempool (server w2) = add_transaction (rs_mempool (server w1)) t2"
    using faucet_transfer_ok [OF assms(1-7) acc assms(12-14)] by blast
  have n: "saturating_add (a_nonce acc) 1 = a_nonce acc + 1" using next_nonce assms(7) by (simp add: faucet_ready_def)
  have "tx_to t = r \<and> tx_amount t = fc_amount cfg \<and> tx_nonce t = a_nonce acc + 1" if "faucet_signed E cfg acc r t" for r t
    using that n by (auto simp: faucet_signed_def faucet_transaction_def)
  from this [OF assms(11)] this [OF assms(14)] 1 2 show ?thesis by auto
qed

section \<open>A sample client\<close>

lemma bytes_of_text_of: "bytes_of (text_of bs) = bs"
proof -
  have "of_char (char_of (unat b)) = b" for b :: u8
  proof -
    have "unat b < 256" using unsigned_less [of b] by simp
    then have "(of_char (char_of (unat b)) :: nat) = unat b" by simp
    moreover have "of_char (char_of (unat b)) = (of_nat (of_char (char_of (unat b) :: char)) :: u8)"
      by (rule of_nat_of_char [symmetric])
    ultimately show ?thesis by simp
  qed
  then show ?thesis by (simp add: text_of_def bytes_of_def comp_def)
qed

definition sample_encrypt :: "string \<Rightarrow> bytes \<Rightarrow> (string, string) result" where
  "sample_encrypt pw pt = Inr (''-'' @ text_of pt @ ''-'')"

definition sample_decrypt :: "string \<Rightarrow> bytes \<Rightarrow> (bytes, string) result" where
  "sample_decrypt pw b = Inr (butlast (tl (if last b = 10 then butlast b else b)))"

fun sample_render :: "rpc_response \<Rightarrow> json" where
  "sample_render (RespBalance b) = JObj [(''address'', JStr (bl_address b)), (''balance'', JInt (int (unat (bl_balance b)))),
     (''found'', JBool (bl_found b)), (''nonce'', JInt (int (unat (bl_nonce b)))),
     (''note_commitment_count'', JInt (int (bl_note_commitment_count b)))]"
| "sample_render (RespSend r) = JObj [(''accepted'', JBool (sr_accepted r)), (''mempool_size'', JInt (int (sr_mempool_size r))),
     (''tx_hash'', JStr (sr_tx_hash r))]"
| "sample_render _ = JNull"

fun sample_de_balance :: "json \<Rightarrow> (CliBalanceResponse, string) result" where
  "sample_de_balance (JObj [(_, JStr a), (_, JInt b), (_, JBool f), (_, JInt n), (_, JInt c)]) =
     Inr \<lparr>cb_address = a, cb_found = f, cb_balance = of_int b, cb_nonce = of_int n, cb_note_commitment_count = nat c,
       cb_viewing_hint = None\<rparr>"
| "sample_de_balance _ = Inl ''invalid type''"

fun sample_de_send :: "json \<Rightarrow> (RpcSendTransactionResponse, string) result" where
  "sample_de_send (JObj [(_, JBool a), (_, JInt m), (_, JStr h)]) = Inr \<lparr>sr_accepted = a, sr_tx_hash = h, sr_mempool_size = nat m\<rparr>"
| "sample_de_send _ = Inl ''invalid type''"

definition sample_parser :: "json rpc_parser" where
  "sample_parser = \<lparr>parse_get_block = (\<lambda>_. Inl []), parse_hash = (\<lambda>_. Inl []),
     parse_send = (\<lambda>j. case get_str ''hex_tx'' j of Some h \<Rightarrow> Inr \<lparr>st_hex_tx = h\<rparr> | None \<Rightarrow> Inl ''missing field''),
     parse_address = (\<lambda>j. case get_str ''address'' j of Some a \<Rightarrow> Inr \<lparr>ap_address = a\<rparr> | None \<Rightarrow> Inl ''missing field'')\<rparr>"

definition with_cli :: "api_env \<Rightarrow> cli_env" where
  "with_cli E = api_env.extend E (cli_env.fields (\<lambda>_. Inl ''no JSON'') (\<lambda>_. Inl ''no JSON'') sample_encrypt sample_decrypt
     sample_de_balance (\<lambda>_. Inr []) sample_de_send)"

lemmas with_cli_defs = with_cli_def with_hex_def env.defs api_env.defs cli_env.defs

lemma with_cli_wire: "wire_spec (with_cli E) sample_parser sample_render"
  by (simp add: wire_spec_def with_cli_defs sample_parser_def get_str_def)

lemma with_cli_hex: "hex_spec (with_cli (with_hex E))"
  using with_hex_spec [of E] by (simp add: hex_spec_def with_cli_defs)

lemma with_cli_age: "age_spec (with_cli E)"
proof -
  have "bytes_of (''-'' @ text_of pt @ ''-'') = [45] @ pt @ [45]" for pt
    by (simp only: bytes_of_append bytes_of_text_of) (simp add: bytes_of_def)
  then show ?thesis by (simp add: age_spec_def with_cli_defs sample_encrypt_def sample_decrypt_def butlast_append)
qed

definition sample_terminal :: "(string \<rightharpoonup> bytes) world_ops" where
  "sample_terminal = \<lparr>fs_read = (\<lambda>p w. case w p of Some b \<Rightarrow> Inr b | None \<Rightarrow> Inl ''not found''),
     fs_create_new = (\<lambda>p w. if w p = None then (w(p \<mapsto> []), Inr ()) else (w, Inl ''exists'')),
     fs_write_all = (\<lambda>p bs w. (w(p \<mapsto> (case w p of Some b \<Rightarrow> b | None \<Rightarrow> []) @ bs), Inr ())),
     prompt_password = (\<lambda>q w. (w, Inr ''secret'')), http_post = (\<lambda>u j w. (w, Inl ''offline'')), os_random = (\<lambda>w. (w, replicate 32 1))\<rparr>"

lemma sample_terminal_spec: "terminal_spec sample_terminal (\<lambda>w. w) ''secret''"
  by (simp add: terminal_spec_def sample_terminal_def)

theorem encrypted_key_roundtrip_witness:
  "\<exists>w' w'' key. cli_main (with_cli (with_hex sample_env)) sample_terminal (\<lambda>_. None) (GenerateKey (Some ''key.age'')) Map.empty =
      (w', Inr (PrintEncryptedKey (hex_encode (with_cli (with_hex sample_env)) (signing_public (with_cli (with_hex sample_env)) key)) ''key.age'')) \<and>
    load_secret_key (with_cli (with_hex sample_env)) sample_terminal [''PRIMS_SECRET_KEY_FILE'' \<mapsto> ''key.age''] w' = (w'', Inr key)"
proof -
  have pw: "trim ''secret'' \<noteq> []" using trim_starts [of "''secret''"] by (simp add: is_whitespace_def)
  show ?thesis
    by (rule encrypted_key_roundtrip [OF sample_terminal_spec pw with_cli_age with_cli_hex]) simp_all
qed

definition sample_net_keys :: "unit net_env" where
  "sample_net_keys = env.extend sample_env (net_env.fields (message_codec Ping) sample_hex_decode (\<lambda>_ _. Inl ''no JSON'')
     (\<lambda>_. Inr ()) ())"

theorem key_parsers_agree_witness:
  "parse_network_secret_key_file_contents sample_net_keys (bytes_of (sample_hex_encode (replicate 32 7))) = Inr (replicate 32 7) \<and>
   explorer_parse_secret_key_material (with_cli (with_hex sample_env)) (sample_hex_encode (replicate 32 7)) = Inr (replicate 32 7)"
proof -
  let ?E = "with_cli (with_hex sample_env)" and ?k = "replicate 32 (7 :: u8)"
  have same: "same_crates sample_net_keys ?E" by (simp add: same_crates_def sample_net_keys_def net_env.defs with_cli_defs)
  have e: "hex_encode ?E = sample_hex_encode" "hex_decode ?E [] = Inr []" by (simp_all add: with_cli_defs)
  have u: "utf8_valid (bytes_of (sample_hex_encode ?k))" using hex_bytes_ascii sample_hex by blast
  have "parse_secret_key_material ?E (sample_hex_encode ?k) = Inr ?k"
    using parse_encoded_key [OF with_cli_hex [of sample_env], of ?k] e(1) by simp
  with key_parsers_agree [OF same e(2) u] show ?thesis by blast
qed

section \<open>A sample network of client and server\<close>

definition open_governor :: "unit governor" where
  "open_governor = \<lparr>limiter_per_second = (\<lambda>_. ()), limiter_check = (\<lambda>_. ((), True))\<rparr>"

definition loopback_post :: "cli_env \<Rightarrow> json \<Rightarrow> (db_log, unit) RpcState \<Rightarrow> (db_log, unit) RpcState \<times> (http_response, string) result" where
  "loopback_post E body st =
     (case Option.bind (get_str ''method'' body) (\<lambda>m. Option.bind (json_get ''params'' body) (route m)) of
        None \<Rightarrow> (st, Inl ''unknown method'')
      | Some req \<Rightarrow> (case rpc_call (script_engine []) E open_governor sample_parser st req of
            Some (Inr (st', Inr resp)) \<Rightarrow> (st', Inr (200, Inr (jsonrpc_result (sample_render resp))))
          | _ \<Rightarrow> (st, Inl ''failed'')))"

definition loopback :: "cli_env \<Rightarrow> (db_log, unit) RpcState world_ops" where
  "loopback E = \<lparr>fs_read = (\<lambda>p w. Inl ''not found''), fs_create_new = (\<lambda>p w. (w, Inl ''read only'')),
     fs_write_all = (\<lambda>p bs w. (w, Inl ''read only'')), prompt_password = (\<lambda>q w. (w, Inl ''no terminal'')),
     http_post = (\<lambda>url body w. loopback_post E body w), os_random = (\<lambda>w. (w, replicate 32 1))\<rparr>"

lemma loopback_serves: "serves (script_engine []) E open_governor sample_parser sample_render (loopback E) (\<lambda>w. w) url"
  by (simp add: serves_def loopback_def loopback_post_def jsonrpc_request_def get_str_def del: route.simps)

definition pay_env :: "Transaction \<Rightarrow> cli_env" where
  "pay_env t = with_cli (with_hex (sample_env\<lparr>bc_transaction := const_codec t, bc_account := const_codec (sample_account 100 4)\<rparr>))"

lemma pay_env_specs: "hex_spec (pay_env t)" "wire_spec (pay_env t) sample_parser sample_render" "unlimited open_governor"
    "ed25519_spec (pay_env t)"
  using sample_env_ed25519
  by (simp_all add: pay_env_def with_cli_hex with_cli_wire) (simp_all add: unlimited_def open_governor_def ed25519_spec_def with_cli_defs)

lemma pay_account: "get_account (pay_env t) (replicate 32 1) (rs_storage submit_state) = Inr (Some (sample_account 100 4))"
proof -
  have ok: "storage_ok (rs_storage submit_state)" using sample_storage_ok by (simp add: submit_state_def)
  have "content (rs_storage submit_state) (account_key (replicate 32 1)) = Some [1]"
    by (simp add: content_def submit_state_def sample_storage_def log_engine_def log_entries_def log_apply_def)
  then show ?thesis
    by (simp add: get_account_def get_decoded_content [OF ok] pay_env_def with_cli_defs const_codec_def)
qed

lemma pay_env_codec: "roundtrips (bc_transaction (pay_env t)) t" "validate_transaction_size (pay_env t) u = Inr ()"
    "sign_transaction (pay_env t) u key = Inr (key @ sample_digest [1])" "signing_public (pay_env t) key = key"
  by (simp_all add: roundtrips_def validate_transaction_size_def sign_transaction_def unsigned_transaction_bytes_def pay_env_def
    with_cli_defs const_codec_def MAX_TRANSACTION_SIZE_BYTES_def sample_env_def)

definition paid :: Transaction where
  "paid = \<lparr>tx_type = Transfer, tx_from = replicate 32 1, tx_to = replicate 32 2, tx_amount = 42, tx_fee = FIXED_TRANSACTION_FEE,
     tx_nonce = 5, tx_source_shard = 0, tx_destination_shard = 0, tx_signature = replicate 32 1 @ sample_digest [1],
     tx_data = Some (bytes_of ''prims-cli-send'')\<rparr>"

lemma encoded_text: "hex_encode (pay_env t) = sample_hex_encode" "decode_hex_vec (pay_env t) l (sample_hex_encode bs) = Inr bs"
  using decode_hex_vec_encode [OF pay_env_specs(1) [of t], of l bs] by (simp_all add: pay_env_def with_cli_defs)

theorem cli_send_accepted_witness:
  "\<exists>w' out. cli_main (pay_env paid) (loopback (pay_env paid)) [''PRIMS_RPC_URL'' \<mapsto> ''http://node'', ''PRIMS_SECRET_KEY_HEX'' \<mapsto> sample_hex_encode (replicate 32 1)]
      (Send (sample_hex_encode (replicate 32 2)) 42 False 0 0) submit_state = (w', Inr (PrintSubmission out)) \<and>
    so_accepted out \<and> so_nonce out = 5 \<and> rs_mempool w' = add_transaction (rs_mempool submit_state) paid"
proof -
  let ?E = "pay_env paid" and ?k = "replicate 32 (1 :: u8)" and ?acc = "sample_account 100 4"
  let ?vars = "[''PRIMS_RPC_URL'' \<mapsto> ''http://node'', ''PRIMS_SECRET_KEY_HEX'' \<mapsto> sample_hex_encode ?k]"
  have key: "parse_secret_key_material ?E (sample_hex_encode ?k) = Inr ?k"
    using parse_encoded_key [OF pay_env_specs(1) [of paid], of ?k] encoded_text(1) by simp
  have acc: "get_account ?E (signing_public ?E ?k) (rs_storage submit_state) = Inr (Some ?acc)"
    using pay_account by (simp add: pay_env_codec(4))
  have t: "paid = (cli_payment ?E ?k ?acc False (replicate 32 2) 42 0 0)\<lparr>tx_signature := ?k @ sample_digest [1]\<rparr>"
    by (simp add: paid_def cli_payment_def submitted_transaction_def sender_of_def pay_env_codec(4) sample_account_def)
  have v: "?vars ''PRIMS_RPC_URL'' = Some ''http://node''" "?vars ''PRIMS_SECRET_KEY_FILE'' = None"
      "?vars ''PRIMS_SECRET_KEY_HEX'' = Some (sample_hex_encode ?k)" "a_nonce ?acc \<noteq> - 1" "(42 :: u64) \<noteq> 0"
      "unat (42 :: u64) + 1 \<le> unat (a_balance ?acc)"
    by (simp_all add: sample_account_def)
  have five: "a_nonce ?acc + 1 = 5" by (simp add: sample_account_def)
  from cli_send_accepted [where server = "\<lambda>w. w" and w = submit_state and vars = ?vars, OF loopback_serves pay_env_specs(2,3,1,4) v(1-3)
      key acc v(4) encoded_text(2) v(5,6) pay_env_codec(3) t pay_env_codec(1,2)]
  show ?thesis unfolding five by (elim exE conjE) (intro exI conjI)
qed

definition sample_faucet :: FaucetConfig where
  "sample_faucet = \<lparr>fc_secret_key = replicate 32 1, fc_public_key = replicate 32 1, fc_amount = 42, fc_source_shard = 0,
     fc_destination_shard = 0\<rparr>"

definition sample_site :: ExplorerState where
  "sample_site = \<lparr>ex_rpc_url = ''http://node'', ex_faucet_mode = Enabled sample_faucet\<rparr>"

definition given :: Transaction where
  "given = paid\<lparr>tx_data := None\<rparr>"

theorem faucet_twice_witness:
  "\<exists>w1 w2 v1 v2. submit_faucet_transfer (pay_env given) (loopback (pay_env given)) sample_site (sample_hex_encode (replicate 32 2)) submit_state = (w1, Inr v1) \<and>
     submit_faucet_transfer (pay_env given) (loopback (pay_env given)) sample_site (sample_hex_encode (replicate 32 2)) w1 = (w2, Inr v2) \<and>
     rs_mempool w2 = add_transaction (add_transaction (rs_mempool submit_state) given) given"
proof -
  let ?E = "pay_env given" and ?acc = "sample_account 100 4"
  have f: "fc_public_key sample_faucet = replicate 32 1" "fc_secret_key sample_faucet = replicate 32 1" by (simp_all add: sample_faucet_def)
  have ready: "faucet_ready ?E sample_faucet ?acc"
    by (simp add: faucet_ready_def sample_faucet_def pay_env_codec(4) sample_account_def)
  have acc: "get_account ?E (fc_public_key sample_faucet) (rs_storage submit_state) = Inr (Some ?acc)" using pay_account f by simp
  have d: "explorer_decode_hex_vec ?E l (sample_hex_encode bs) = Inr bs" for l bs
    using encoded_text(2) [of given l bs] by (simp add: decode_hex_vec_def explorer_decode_hex_vec_def result_simps)
  have t: "given = (faucet_transaction sample_faucet (replicate 32 2) (a_nonce ?acc))\<lparr>tx_signature := replicate 32 1 @ sample_digest [1]\<rparr>"
    by (simp add: given_def paid_def faucet_transaction_def sample_faucet_def sample_account_def saturating_add_def)
  have sg: "faucet_signed ?E sample_faucet ?acc (replicate 32 2) given"
    unfolding faucet_signed_def using t pay_env_codec [of given] by (simp add: f(2))
  have s: "ex_rpc_url sample_site = ''http://node''" "ex_faucet_mode sample_site = Enabled sample_faucet" "length (replicate 32 (2 :: u8)) = 32"
    by (simp_all add: sample_site_def)
  from faucet_twice [where server = "\<lambda>w. w" and w = submit_state, OF loopback_serves pay_env_specs(2,3,1,4) s(2) ready acc d s(3) sg d s(3) sg]
  show ?thesis by (elim exE conjE) blast
qed

end
