(* ===== verification/PageLaws.thy ===== *)
theory PageLaws
  imports Pages ClientLaws
begin

text \<open>
  What visitors, the node and the configuration can put into the pages of the web site: texts,
  and no markup. \<open>tags\<close> reads the tags of a page; the tags of the three templates are fixed.
\<close>

section \<open>Tags of a text\<close>

text \<open>Scanning outside (\<open>None\<close>) or inside a tag read so far; the state at the end and the complete tags.\<close>

fun scan :: "string option \<Rightarrow> string \<Rightarrow> string option \<times> string list" where
  "scan st [] = (st, [])"
| "scan None (c # cs) = (if c = CHR ''<'' then scan (Some []) cs else scan None cs)"
| "scan (Some t) (c # cs) = (if c = CHR ''>'' then (let (st, ts) = scan None cs in (st, t # ts)) else scan (Some (t @ [c])) cs)"

definition tags :: "string \<Rightarrow> string list" where
  "tags s = snd (scan None s)"

definition balanced :: "string \<Rightarrow> bool" where
  "balanced s \<longleftrightarrow> fst (scan None s) = None"

lemma scan_append: "scan st (xs @ ys) = (let (st1, a) = scan st xs; (st2, b) = scan st1 ys in (st2, a @ b))"
  by (induction st xs rule: scan.induct) (auto simp: Let_def split: prod.splits)

lemma tags_append: "balanced s \<Longrightarrow> tags (s @ s') = tags s @ tags s'" "balanced s \<Longrightarrow> balanced s' \<Longrightarrow> balanced (s @ s')"
  by (auto simp: tags_def balanced_def scan_append Let_def split: prod.splits)

lemma no_tags: "CHR ''<'' \<notin> set s \<Longrightarrow> scan None s = (None, [])"
  by (induction s) auto

section \<open>Escaped holes\<close>

text \<open>The documented effect of the HTML escaper; a kept line end is no markup either.\<close>

definition escape_spec :: "displays \<Rightarrow> bool" where
  "escape_spec D \<longleftrightarrow> (\<forall>s. set (escape_html D s) \<inter> set ''<>'' = {}) \<and> CHR ''<'' \<notin> set (last_newline D)"

fun piece_tags :: "piece \<Rightarrow> string list" where
  "piece_tags (Text s) = tags s"
| "piece_tags (Line s) = tags s"
| "piece_tags (Hole s) = []"

fun closed_piece :: "piece \<Rightarrow> bool" where
  "closed_piece (Text s) = balanced s"
| "closed_piece (Line s) = balanced s"
| "closed_piece (Hole s) = True"

lemma closed_piece_html:
  assumes "escape_spec D" and "closed_piece p"
  shows "balanced (piece_html D p) \<and> tags (piece_html D p) = piece_tags p"
proof (cases p)
  case (Line s)
  have nl: "balanced [CHR 0x0A]" "tags [CHR 0x0A] = []" by (simp_all add: balanced_def tags_def)
  with Line assms(2) show ?thesis by (simp add: tags_append)
next
  case (Hole s)
  have "CHR ''<'' \<notin> set (escape_html D s)" using assms(1) by (auto simp: escape_spec_def)
  with Hole show ?thesis by (simp add: balanced_def tags_def no_tags)
qed (use assms in simp)

text \<open>The tags of a filled template are those of its own text.\<close>

lemma template_tags:
  assumes "escape_spec D" and "list_all closed_piece ps"
  shows "tags (template_html D ps) = concat (map piece_tags ps)"
proof -
  have "balanced (concat (map (piece_html D) ps)) \<and> tags (concat (map (piece_html D) ps)) = concat (map piece_tags ps)"
    using assms(2)
  proof (induction ps)
    case (Cons p ps)
    with closed_piece_html [OF assms(1), of p] show ?case by (simp add: tags_append)
  qed (simp add: balanced_def tags_def)
  moreover have "tags (last_newline D) = []" using assms(1) by (simp add: escape_spec_def tags_def no_tags)
  ultimately show ?thesis by (simp add: template_html_def tags_append)
qed

section \<open>The three templates\<close>

lemma home_closed: "list_all closed_piece (home_template D t)"
  by (simp add: home_template_def balanced_def)

lemma address_closed: "list_all closed_piece (address_template D t)"
  by (simp add: address_template_def balanced_def)

lemma faucet_closed: "list_all closed_piece (faucet_template D t)"
  by (simp add: faucet_template_def balanced_def)

text \<open>The tags of the templates, read off the templates themselves with every field left blank.\<close>

definition plain :: displays where
  "plain = \<lparr>escape_html = (\<lambda>_. []), json_pretty = (\<lambda>_. Inr []), cause_text = (\<lambda>_. []), http_status_text = (\<lambda>_. []), last_newline = []\<rparr>"

definition blank_home :: "bool \<Rightarrow> HomeTemplate" where
  "blank_home b = \<lparr>ht_rpc_url = [], ht_faucet_enabled = b, ht_faucet_status = None, ht_faucet_sender_address = [],
     ht_faucet_amount = 0, ht_faucet_account_json = FaucetInactive, ht_info_json = FaucetInactive,
     ht_validators_json = FaucetInactive, ht_note_commitments_json = FaucetInactive\<rparr>"

definition blank_address :: AddressTemplate where
  "blank_address = \<lparr>at_rpc_url = [], at_address = [], at_balance_json = FaucetInactive\<rparr>"

definition blank_faucet :: "bool \<Rightarrow> FaucetTemplate" where
  "blank_faucet b = \<lparr>ft_rpc_url = [], ft_address = [], ft_success = b, ft_response_json = FaucetInactive\<rparr>"

fun blank_page :: "web_request \<Rightarrow> bool \<Rightarrow> page" where
  "blank_page GetHome b = HomePage (blank_home b)"
| "blank_page (GetAddress a) b = AddressPage blank_address"
| "blank_page (PostFaucet a) b = FaucetPage (blank_faucet b)"

lemma plain_spec: "escape_spec plain"
  by (simp add: escape_spec_def plain_def)

lemma home_tags: "escape_spec D \<Longrightarrow> tags (page_html D (HomePage t)) = tags (page_html plain (HomePage (blank_home (ht_faucet_enabled t))))"
  by (simp add: template_tags home_closed plain_spec) (simp add: home_template_def blank_home_def)

lemma address_tags: "escape_spec D \<Longrightarrow> tags (page_html D (AddressPage t)) = tags (page_html plain (AddressPage blank_address))"
  by (simp add: template_tags address_closed plain_spec) (simp add: address_template_def)

lemma faucet_tags: "escape_spec D \<Longrightarrow> tags (page_html D (FaucetPage t)) = tags (page_html plain (FaucetPage (blank_faucet (ft_success t))))"
  by (simp add: template_tags faucet_closed plain_spec) (simp add: faucet_template_def blank_faucet_def)

text \<open>No element of the templates runs scripts.\<close>

lemma blank_no_script: "\<forall>t \<in> set (tags (page_html plain (blank_page req b))). take 6 t \<noteq> ''script''"
  by (cases req; cases b) (simp_all add: template_tags home_closed address_closed faucet_closed plain_spec,
    simp_all add: home_template_def address_template_def faucet_template_def blank_home_def blank_faucet_def tags_def)

section \<open>Every response\<close>

fun page_fits :: "ExplorerState \<Rightarrow> web_request \<Rightarrow> bool \<Rightarrow> page \<Rightarrow> bool" where
  "page_fits state GetHome b (HomePage t) \<longleftrightarrow> b = ht_faucet_enabled t \<and> b = (\<exists>cfg. ex_faucet_mode state = Enabled cfg)"
| "page_fits state (GetAddress a) b (AddressPage t) \<longleftrightarrow> True"
| "page_fits state (PostFaucet a) b (FaucetPage t) \<longleftrightarrow> b = ft_success t"
| "page_fits state req b p \<longleftrightarrow> False"

lemma home_page_fits: "\<exists>b. page_fits state GetHome b (snd (home_page E W vars state w))"
  by (auto simp: home_page_def Let_def split: prod.splits FaucetMode.splits)

lemma site_renders: "\<exists>p b. snd (site_response E W vars D state req w) = Inr (page_html D p) \<and> page_fits state req b p"
proof (cases req)
  case GetHome
  obtain b where "page_fits state GetHome b (snd (home_page E W vars state w))" using home_page_fits [of state E W vars w] ..
  with GetHome show ?thesis
    by (intro exI [of _ "snd (home_page E W vars state w)"] exI [of _ b])
      (simp add: site_response_def home_def render_template_def case_prod_beta Let_def del: page_html.simps)
next
  case (GetAddress a)
  then show ?thesis
    by (auto simp: site_response_def address_handler_def render_template_def simp del: page_html.simps split: prod.splits)
next
  case (PostFaucet a)
  then show ?thesis
    by (auto simp: site_response_def faucet_def render_template_def simp del: page_html.simps split: prod.splits)
qed

lemma fitting_tags: "escape_spec D \<Longrightarrow> page_fits state req b p \<Longrightarrow> tags (page_html D p) = tags (page_html plain (blank_page req b))"
  using home_tags [of D] address_tags [of D] faucet_tags [of D]
  by (cases req; cases p) (simp_all del: page_html.simps)

text \<open>
  C39. Nothing can be injected into the web site: every request is answered by a page, and the tags
  of that page are those of its template, in the variant for an active or inactive faucet or for
  a granted or refused request. The address a visitor sends, what the node answers, error
  messages and the configuration do not change them, and no tag opens a script.
\<close>

theorem site_pages_inert:
  assumes "escape_spec D" and "site_response E W vars D state req w = (w', r)"
  shows "\<exists>body b. r = Inr body \<and> tags body = tags (page_html plain (blank_page req b)) \<and>
    (req = GetHome \<longrightarrow> b = (\<exists>cfg. ex_faucet_mode state = Enabled cfg)) \<and> (\<forall>t \<in> set (tags body). take 6 t \<noteq> ''script'')"
proof -
  obtain p b where p: "r = Inr (page_html D p)" "page_fits state req b p"
    using site_renders [of E W vars D state req w] assms(2) by auto
  have "req = GetHome \<longrightarrow> b = (\<exists>cfg. ex_faucet_mode state = Enabled cfg)" using p(2) by (cases p) auto
  with p fitting_tags [OF assms(1) p(2)] blank_no_script [of req b] show ?thesis
    by (intro exI [of _ "page_html D p"] exI [of _ b]) (simp del: page_html.simps)
qed

fun entity :: "char \<Rightarrow> string" where
  "entity c = (if c = CHR ''<'' then ''&lt;'' else if c = CHR ''>'' then ''&gt;'' else if c = CHR ''&'' then ''&amp;''
     else if c = CHR 0x22 then ''&quot;'' else if c = CHR 0x27 then ''&#39;'' else [c])"

definition entity_displays :: displays where
  "entity_displays = plain\<lparr>escape_html := (\<lambda>s. concat (map entity s))\<rparr>"

lemma entity_displays_spec: "escape_spec entity_displays"
  by (auto simp: escape_spec_def entity_displays_def plain_def split: if_splits)

definition hostile_site :: ExplorerState where
  "hostile_site = \<lparr>ex_rpc_url = ''<b>'', ex_faucet_mode = Disabled NoFaucetKey\<rparr>"

theorem site_pages_inert_witness:
  "\<exists>w' body. site_response (with_cli (with_hex sample_env)) sample_terminal (\<lambda>_. None) entity_displays hostile_site
      (GetAddress ''<script>'') Map.empty = (w', Inr body) \<and> (\<forall>t \<in> set (tags body). take 6 t \<noteq> ''script'')"
proof -
  let ?r = "site_response (with_cli (with_hex sample_env)) sample_terminal (\<lambda>_. None) entity_displays hostile_site
      (GetAddress ''<script>'') Map.empty"
  have "?r = (fst ?r, snd ?r)" by (rule prod.collapse [symmetric])
  note inert = site_pages_inert [OF entity_displays_spec this]
  then obtain body where "snd ?r = Inr body" "\<forall>t \<in> set (tags body). take 6 t \<noteq> ''script''" by (elim exE conjE)
  then show ?thesis by (intro exI [of _ "fst ?r"] exI [of _ body]) (metis prod.collapse)
qed

end
