(* ===== verification/Lifecycle.thy ===== *)
theory Lifecycle
  imports ApiLaws NodeLaws
begin

text \<open>
  The life of a node as a whole. \<open>main.rs\<close> starts the RPC server (\<open>api/mod.rs\<close>) and the event loop
  on one shared mempool; only the RPC server has the database. From then on the node changes by
  calls of RPC methods and by swarm events, in any order, each of them one step; nothing in the program
  produces blocks or executes transfers. The history of the transactions that arrived, and how, is
  kept beside the state.
\<close>

section \<open>States and steps\<close>

datatype arrival =
    ByRpc (arrival_tx: Transaction)
  | ByGossip (arrival_tx: Transaction)

record ('d, 'l, 'w, 'p) live_node =
  ln_rpc :: "('d, 'l) RpcState"
  ln_loop :: "('w, 'p) node_state"
  ln_arrived :: "arrival list"

abbreviation ln_storage :: "('d, 'l, 'w, 'p) live_node \<Rightarrow> 'd RocksDbStorage" where
  "ln_storage nd \<equiv> rs_storage (ln_rpc nd)"

abbreviation ln_mempool :: "('d, 'l, 'w, 'p) live_node \<Rightarrow> Mempool" where
  "ln_mempool nd \<equiv> rs_mempool (ln_rpc nd)"

text \<open>The transaction that an answered request brought into the node.\<close>

fun rpc_arrivals :: "'z api_env_scheme \<Rightarrow> 'j rpc_parser \<Rightarrow> ('d, 'l) RpcState \<Rightarrow> 'j rpc_request \<Rightarrow> rpc_response rpc_result
    \<Rightarrow> arrival list" where
  "rpc_arrivals E J st (ReqSendTransaction j) (Inr resp) =
     (case parse_send J j of
        Inl _ \<Rightarrow> []
      | Inr q \<Rightarrow> (case check_submission E st (st_hex_tx q) of Inl _ \<Rightarrow> [] | Inr (t, acc) \<Rightarrow> [ByRpc t]))"
| "rpc_arrivals E J st req r = []"

text \<open>The event loop works on the mempool it shares with the RPC server.\<close>

inductive node_step :: "('m, 'g) wasmtime \<Rightarrow> 'z api_env_scheme \<Rightarrow> 'l governor \<Rightarrow> 'j rpc_parser \<Rightarrow> ('k, 'y) net_env_scheme
    \<Rightarrow> ('k, 'w, 'p, 'a, 'i) swarm_ops \<Rightarrow> ('d, 'l, 'w, 'p) live_node \<Rightarrow> ('d, 'l, 'w, 'p) live_node \<Rightarrow> bool"
  for M E L J N S where
  call: "rpc_call M E L J (ln_rpc nd) req = Some (Inr (rpc, r)) \<Longrightarrow>
    node_step M E L J N S nd (nd\<lparr>ln_rpc := rpc, ln_arrived := ln_arrived nd @ rpc_arrivals E J (ln_rpc nd) req r\<rparr>)"
| event: "handle_event N S publish clock ((ln_loop nd)\<lparr>ns_mempool := ln_mempool nd\<rparr>) ev = Inr (st, ls) \<Longrightarrow>
    node_step M E L J N S nd (nd\<lparr>ln_loop := st, ln_rpc := (ln_rpc nd)\<lparr>rs_mempool := ns_mempool st\<rparr>,
      ln_arrived := ln_arrived nd @ map ByGossip (gossiped N ev)\<rparr>)"

text \<open>A node that starts: an empty mempool, an intact database, nothing arrived yet.\<close>

definition node_start :: "('d, 'l, 'w, 'p) live_node \<Rightarrow> bool" where
  "node_start nd \<longleftrightarrow> storage_ok (ln_storage nd) \<and> (\<exists>k. ln_mempool nd = with_partition_count k) \<and> ln_arrived nd = []"

section \<open>What holds of a node\<close>

text \<open>
  The part of the database that a running node leaves alone: every key but those of contract
  records and contract slots.
\<close>

definition contract_data :: "bytes \<Rightarrow> bool" where
  "contract_data k \<longleftrightarrow> prefix (bytes_of CONTRACT_CODE_PREFIX) k \<or> prefix (bytes_of CONTRACT_STORAGE_PREFIX) k"

definition same_ledger :: "'d RocksDbStorage \<Rightarrow> 'd RocksDbStorage \<Rightarrow> bool" where
  "same_ledger s s' \<longleftrightarrow> storage_ok s \<and> storage_ok s' \<and> (\<forall>k. \<not> contract_data k \<longrightarrow> content s' k = content s k)"

text \<open>What the RPC interface checked of a transaction, against the accounts of a database.\<close>

definition submission_checked :: "'z env_scheme \<Rightarrow> 'd RocksDbStorage \<Rightarrow> Transaction \<Rightarrow> bool" where
  "submission_checked E s t \<longleftrightarrow> length (tx_from t) = 32 \<and> verify_transaction E t (tx_from t) = Inr True \<and>
     validate_transaction_size E t = Inr () \<and>
     (\<exists>acc. get_account E (tx_from t) s = Inr acc \<and> validate_transaction_nonce t acc = Inr () \<and> paid_for E (sender_balance acc) t)"

definition checked_arrivals :: "'z env_scheme \<Rightarrow> 'd RocksDbStorage \<Rightarrow> arrival list \<Rightarrow> bool" where
  "checked_arrivals E s as \<longleftrightarrow> (\<forall>t. ByRpc t \<in> set as \<longrightarrow> submission_checked E s t)"

text \<open>The mempool holds what arrived, each sender's transactions in the order of their arrival.\<close>

definition pool_holds :: "Mempool \<Rightarrow> Transaction list \<Rightarrow> bool" where
  "pool_holds m arrived \<longleftrightarrow> mempool_inv m \<and> mset (pending_transactions m) = mset arrived \<and>
     (\<forall>s. from_sender s (pending_transactions m) = from_sender s arrived)"

definition node_inv :: "'z env_scheme \<Rightarrow> 'd RocksDbStorage \<Rightarrow> ('d, 'l, 'w, 'p) live_node \<Rightarrow> bool" where
  "node_inv E s nd \<longleftrightarrow> same_ledger s (ln_storage nd) \<and> pool_holds (ln_mempool nd) (map arrival_tx (ln_arrived nd)) \<and>
     checked_arrivals E s (ln_arrived nd)"

section \<open>The ledger\<close>

lemma ledger_keys: "\<not> contract_data (block_key h)" "\<not> contract_data (account_key a)"
  by (simp_all add: contract_data_def block_key_def bytes_of_append key_defs prefix_defs) (simp_all add: bytes_of_def)

lemma contract_keys: "contract_data (contract_key a)" "prefix (contract_storage_prefix a) k \<Longrightarrow> contract_data k"
  by (auto simp: contract_data_def key_defs prefix_def)

lemma same_ledger_refl: "storage_ok s \<Longrightarrow> same_ledger s s"
  by (simp add: same_ledger_def)

lemma same_ledger_trans: "same_ledger s s' \<Longrightarrow> same_ledger s' s'' \<Longrightarrow> same_ledger s s''"
  by (simp add: same_ledger_def)

lemma same_ledger_reads:
  assumes "same_ledger s s'"
  shows "get_block E h s' = get_block E h s" and "get_account E a s' = get_account E a s"
  using assms ledger_keys by (simp_all add: same_ledger_def get_block_def get_account_def get_decoded_content)

lemma submission_checked_cong: "same_ledger s s' \<Longrightarrow> submission_checked E s' t \<longleftrightarrow> submission_checked E s t"
  by (simp add: submission_checked_def same_ledger_reads)

lemma call_keeps_ledger:
  assumes "storage_ok s" and "execute_contract_call W E ctx meth params limit s = Some (s', r)"
  shows "same_ledger s s'"
  using assms(2)
proof (cases rule: call_ends)
  case failed
  with assms(1) show ?thesis by (simp add: same_ledger_refl)
next
  case completed
  from call_touches [OF assms(1) assms(2) [unfolded completed(4)]] assms(1) contract_keys show ?thesis
    unfolding same_ledger_def by metis
qed

lemma admit_keeps_ledger:
  assumes "storage_ok s" and "admit W E t acc s = Some (s', r)"
  shows "same_ledger s s'"
proof (cases "s' = s")
  case True
  with assms(1) show ?thesis by (simp add: same_ledger_refl)
next
  case False
  then have "tx_type t = CallContract" using admit_storage assms(2) by blast
  with assms(2) have c: "admit_call W E t acc s = Some (s', r)" by (simp add: admit_def)
  with False obtain p where "admit_call_payload E t acc = Inr p"
    by (cases "admit_call_payload E t acc") (auto simp: admit_call_def)
  with c obtain r' where "execute_contract_call W E \<lparr>ctx_contract_address = tx_to t, ctx_caller = tx_from t,
      ctx_block_height = 0, ctx_shard_id = tx_destination_shard t\<rparr> (p_method p) (p_params p) (p_gas_limit p) s = Some (s', r')"
    by (auto simp: admit_call_def)
  with assms(1) show ?thesis by (rule call_keeps_ledger)
qed

section \<open>Requests\<close>

lemma send_transaction_accepted:
  assumes "send_transaction W E st hex_tx = Some (Inr (st', Inr resp))"
  obtains t acc s' u where "check_submission E st hex_tx = Inr (t, acc)" "admit W E t acc (rs_storage st) = Some (s', Inr u)"
    "rs_storage st' = s'" "rs_mempool st' = add_transaction (rs_mempool st) t"
proof -
  obtain t acc where c: "check_submission E st hex_tx = Inr (t, acc)"
    using assms by (cases "check_submission E st hex_tx") (auto simp: send_transaction_def)
  obtain s' a where a: "admit W E t acc (rs_storage st) = Some (s', a)"
    using assms c by (cases "admit W E t acc (rs_storage st)") (auto simp: send_transaction_def)
  obtain u where u: "a = Inr u" using assms c a by (cases a) (auto simp: send_transaction_def)
  with assms c a that show thesis by (auto simp: send_transaction_def Let_def result_simps)
qed

lemma send_transaction_refused: "send_transaction W E st hex_tx = Some (Inr (st', Inl e)) \<Longrightarrow> st' = st"
  by (auto simp: send_transaction_def Let_def result_simps dest!: admit_error_unchanged
    split: sum.splits option.splits prod.splits)

text \<open>The state that a method sees behind the rate limiter.\<close>

lemma rpc_call_cases:
  assumes "rpc_call M E L J st req = Some (Inr (st', r))"
  obtains (limited) "rs_storage st' = rs_storage st" "rs_mempool st' = rs_mempool st" "\<exists>e. r = Inl e"
  | (run) st1 where "rs_storage st1 = rs_storage st" "rs_mempool st1 = rs_mempool st" "rpc_method M E J st1 req = Some (Inr (st', r))"
proof (cases "check_rate_limit L st")
  case (Pair st1 a)
  have same: "rs_storage st1 = rs_storage st" "rs_mempool st1 = rs_mempool st"
    using Pair by (auto simp: check_rate_limit_def split: prod.splits if_splits)
  with Pair assms limited run show thesis by (cases a) (auto simp: rpc_call_def)
qed

lemma answer_Some: "answer f st x = Some (Inr (st', r)) \<Longrightarrow> st' = st"
  by (auto simp: answer_def result_simps)

lemma rpc_method_send:
  assumes "rpc_method M E J st (ReqSendTransaction j) = Some (Inr (st', r))"
  obtains (refused) "st' = st" "\<exists>e. r = Inl e"
  | (accepted) q resp where "parse_send J j = Inr q" "send_transaction M E st (st_hex_tx q) = Some (Inr (st', Inr resp))" "r = Inr (RespSend resp)"
proof (cases "parse_send J j")
  case (Inr q)
  then obtain x where x: "send_transaction M E st (st_hex_tx q) = Some (Inr (st', x))" "r = and_then x (\<lambda>y. Inr (RespSend y))"
    using assms by (auto simp: result_simps)
  show thesis
  proof (cases x)
    case (Inl e)
    with x send_transaction_refused [of M E st "st_hex_tx q" st' e] refused show thesis by simp
  next
    case (Inr resp)
    with x \<open>parse_send J j = Inr q\<close> accepted show thesis by simp
  qed
qed (use assms refused in auto)

lemma rpc_arrivals_other: "(\<And>j. req \<noteq> ReqSendTransaction j) \<Longrightarrow> rpc_arrivals E J st req r = []"
  by (cases req) auto

text \<open>
  Any answered request: the mempool grows by the arrivals, they are checked, and the ledger stays.
\<close>

lemma rpc_call_effect:
  assumes "storage_ok (rs_storage st)" and "rpc_call M E L J st req = Some (Inr (st', r))"
  shows "rs_mempool st' = foldl add_transaction (rs_mempool st) (map arrival_tx (rpc_arrivals E J st req r)) \<and>
    checked_arrivals E (rs_storage st) (rpc_arrivals E J st req r) \<and> same_ledger (rs_storage st) (rs_storage st')"
  using assms(2)
proof (cases rule: rpc_call_cases)
  case limited
  then show ?thesis using assms(1) by (cases req) (auto simp: checked_arrivals_def same_ledger_refl)
next
  case (run st1)
  show ?thesis
  proof (cases "\<exists>j. req = ReqSendTransaction j")
    case False
    then have "st' = st1" using run(3) by (cases req) (auto dest: answer_Some split: sum.splits)
    with run False assms(1) show ?thesis by (simp add: rpc_arrivals_other checked_arrivals_def same_ledger_refl)
  next
    case True
    then obtain j where req: "req = ReqSendTransaction j" ..
    from run(3) [unfolded req] show ?thesis
    proof (cases rule: rpc_method_send)
      case refused
      then show ?thesis using run req assms(1) by (auto simp: checked_arrivals_def same_ledger_refl)
    next
      case (accepted q resp)
      from accepted(2) obtain t acc s' u where t: "check_submission E st1 (st_hex_tx q) = Inr (t, acc)"
        "admit M E t acc (rs_storage st1) = Some (s', Inr u)" "rs_storage st' = s'"
        "rs_mempool st' = add_transaction (rs_mempool st1) t" by (rule send_transaction_accepted)
      have c: "check_submission E st (st_hex_tx q) = Inr (t, acc)" using t(1) run(1) by (simp add: check_submission_Inr)
      then have "submission_checked E (rs_storage st) t"
        using admit_paid [OF t(2)] by (auto simp: check_submission_Inr submission_checked_def)
      with c t run(1,2) accepted req admit_keeps_ledger [of "rs_storage st" M E t acc s' "Inr u"] assms(1)
      show ?thesis by (simp add: checked_arrivals_def)
    qed
  qed
qed

lemma pool_holds_arrive: "pool_holds m ts \<Longrightarrow> pool_holds (foldl add_transaction m as) (ts @ as)"
proof (induction as arbitrary: m ts)
  case (Cons a as)
  have "pool_holds (add_transaction m a) (ts @ [a])"
    using Cons.prems add_transaction_inv [of m a] add_transaction_pending [where m = m and t = a]
    by (auto simp: pool_holds_def)
  from Cons.IH [OF this] show ?case by simp
qed simp

section \<open>Every run of a node\<close>

lemma checked_arrivals_append: "checked_arrivals E s (as @ bs) \<longleftrightarrow> checked_arrivals E s as \<and> checked_arrivals E s bs"
  by (auto simp: checked_arrivals_def)

lemma node_start_inv: "node_start nd \<Longrightarrow> node_inv E (ln_storage nd) nd"
  by (auto simp: node_start_def node_inv_def pool_holds_def with_partition_count_inv pending_transactions_eq
    checked_arrivals_def same_ledger_refl) (simp_all add: with_partition_count_def Let_def)

lemma node_step_inv:
  assumes "node_step M E L J N S nd nd'" and "node_inv E s nd"
  shows "node_inv E s nd'"
  using assms(1)
proof cases
  case (call req rpc r)
  have led: "same_ledger s (ln_storage nd)" and ok: "storage_ok (ln_storage nd)"
    using assms(2) by (simp_all add: node_inv_def same_ledger_def)
  note eff = rpc_call_effect [OF ok call(2)]
  have "checked_arrivals E s (rpc_arrivals E J (ln_rpc nd) req r)"
    using eff submission_checked_cong [OF led, of E] by (simp add: checked_arrivals_def)
  moreover have "pool_holds (rs_mempool rpc) (map arrival_tx (ln_arrived nd @ rpc_arrivals E J (ln_rpc nd) req r))"
    using assms(2) eff by (simp add: node_inv_def pool_holds_arrive)
  moreover have "same_ledger s (rs_storage rpc)" using eff same_ledger_trans [OF led] by blast
  ultimately show ?thesis using assms(2) call(1) by (simp add: node_inv_def checked_arrivals_append)
next
  case (event publish clock ev st ls)
  have "ns_mempool st = foldl add_transaction (ln_mempool nd) (gossiped N ev)"
    using handle_event_effect [OF event(2)] by simp
  then have "pool_holds (ns_mempool st) (map arrival_tx (ln_arrived nd @ map ByGossip (gossiped N ev)))"
    using assms(2) by (simp add: node_inv_def pool_holds_arrive comp_def)
  moreover have "checked_arrivals E s (ln_arrived nd @ map ByGossip (gossiped N ev))"
    using assms(2) by (auto simp: node_inv_def checked_arrivals_def)
  ultimately show ?thesis using assms(2) event(1) by (simp add: node_inv_def)
qed

lemma node_run_inv:
  assumes "(node_step M E L J N S)\<^sup>*\<^sup>* nd0 nd" and "node_start nd0"
  shows "node_inv E (ln_storage nd0) nd"
  using assms(1)
proof (induction rule: rtranclp_induct)
  case base
  show ?case by (rule node_start_inv [OF assms(2)])
next
  case (step nd nd')
  show ?case by (rule node_step_inv [OF step(2) step.IH])
qed

text \<open>
  C1. Over every interleaving of RPC requests and network events, from a start on an intact
  database: the mempool holds exactly the transactions that arrived, none lost and none doubled, and
  each sender's in the order of their arrival; every transaction that came by RPC is below the size
  limit, signed by its sender, and its nonce and cost fit the sender's account; the blocks and
  accounts that can be read are those of the start, because of the whole database only contract
  records and contract slots ever change. (What came by gossip is not checked by the program.)
\<close>

theorem node_history:
  assumes "(node_step M E L J N S)\<^sup>*\<^sup>* nd0 nd" and "node_start nd0"
  shows "mset (pending_transactions (ln_mempool nd)) = mset (map arrival_tx (ln_arrived nd)) \<and>
    (\<forall>s. from_sender s (pending_transactions (ln_mempool nd)) = from_sender s (map arrival_tx (ln_arrived nd))) \<and>
    (\<forall>t. ByRpc t \<in> set (ln_arrived nd) \<longrightarrow>
       length (tx_from t) = 32 \<and> verify_transaction E t (tx_from t) = Inr True \<and> validate_transaction_size E t = Inr () \<and>
       (\<exists>acc. get_account E (tx_from t) (ln_storage nd) = Inr acc \<and> validate_transaction_nonce t acc = Inr () \<and>
          paid_for E (sender_balance acc) t)) \<and>
    (\<forall>h. get_block E h (ln_storage nd) = get_block E h (ln_storage nd0)) \<and>
    (\<forall>a. get_account E a (ln_storage nd) = get_account E a (ln_storage nd0)) \<and>
    (\<forall>k. \<not> contract_data k \<longrightarrow> content (ln_storage nd) k = content (ln_storage nd0) k)"
proof -
  have inv: "node_inv E (ln_storage nd0) nd" by (rule node_run_inv [OF assms])
  then have led: "same_ledger (ln_storage nd0) (ln_storage nd)" by (simp add: node_inv_def)
  have "submission_checked E (ln_storage nd) t" if "ByRpc t \<in> set (ln_arrived nd)" for t
    using that inv submission_checked_cong [OF led, of E] by (simp add: node_inv_def checked_arrivals_def)
  with inv led same_ledger_reads [OF led, of E] show ?thesis
    by (simp add: node_inv_def pool_holds_def submission_checked_def same_ledger_def)
qed

section \<open>A sample run\<close>

definition life_parser :: "string rpc_parser" where
  "life_parser = \<lparr>parse_get_block = (\<lambda>_. Inl []), parse_hash = (\<lambda>_. Inl []),
     parse_send = (\<lambda>j. Inr \<lparr>st_hex_tx = j\<rparr>), parse_address = (\<lambda>_. Inl [])\<rparr>"

definition life_governor :: "unit governor" where
  "life_governor = \<lparr>limiter_per_second = (\<lambda>_. ()), limiter_check = (\<lambda>_. ((), True))\<rparr>"

definition life_start :: "(db_log, unit, unit, nat) live_node" where
  "life_start = \<lparr>ln_rpc = submit_state, ln_loop = sample_loop_state, ln_arrived = []\<rparr>"

abbreviation life_step :: "(db_log, unit, unit, nat) live_node \<Rightarrow> (db_log, unit, unit, nat) live_node \<Rightarrow> bool" where
  "life_step \<equiv> node_step (script_engine []) submit_env life_governor life_parser sample_net_env sample_swarm"

definition life_submitted :: "(db_log, unit, unit, nat) live_node" where
  "life_submitted = life_start\<lparr>ln_rpc := submit_state\<lparr>rs_mempool := add_transaction (with_partition_count 1) signed_sample\<rparr>,
     ln_arrived := [ByRpc signed_sample]\<rparr>"

lemma life_call: "life_step life_start life_submitted"
proof -
  let ?st = "submit_state\<lparr>rs_mempool := add_transaction (with_partition_count 1) signed_sample\<rparr>"
  have ad: "admit W submit_env signed_sample (Some (sample_account 100 4)) s = Some (s, Inr ())" for W and s :: "db_log RocksDbStorage"
    by (simp add: admit_def signed_sample_def sample_tx_def validate_transaction_balance_def FIXED_TRANSACTION_FEE_def
      checked_add_def sample_account_def)
  have same: "submit_state\<lparr>rs_storage := rs_storage submit_state, rs_mempool := add_transaction (rs_mempool submit_state) signed_sample\<rparr> = ?st"
    "submit_state\<lparr>rs_rate_limiter := ()\<rparr> = submit_state"
    by (simp_all add: submit_state_def)
  obtain h where h: "hash_transaction submit_env signed_sample = Inr h"
    by (simp add: hash_transaction_def submit_env_def with_hex_def env.defs api_env.defs const_codec_def)
  obtain resp where send: "send_transaction (script_engine []) submit_env submit_state (encode_hex submit_env [1]) = Some (Inr (?st, Inr resp))"
    using same by (simp add: send_transaction_def submit_checked ad h Let_def)
  have "rpc_call (script_engine []) submit_env life_governor life_parser (ln_rpc life_start) (ReqSendTransaction (encode_hex submit_env [1])) =
      Some (Inr (?st, Inr (RespSend resp)))"
    by (simp add: rpc_call_def check_rate_limit_def life_governor_def life_parser_def life_start_def same(2) send)
  from node_step.call [OF this] show ?thesis
    by (simp add: life_submitted_def life_parser_def life_start_def submit_checked)
qed

lemma life_gossip: "\<exists>nd. life_step life_submitted nd \<and> ln_arrived nd = [ByRpc signed_sample, ByGossip (sample_tx 5)]"
proof -
  obtain nt where nt: "blockchain_transaction_to_network_transaction sample_env (sample_tx 5) = Inr nt" "nt_payload nt = to_be_bytes 8 (5 :: u64)"
    by (simp add: blockchain_transaction_to_network_transaction_def hash_transaction_def sample_env_def field_codec_def sample_tx_def)
  have d: "deserialize (bc_transaction sample_net_env) (to_be_bytes 8 (5 :: u64)) = Inr (sample_tx 5)"
    by (simp add: sample_net_env_def env.defs net_env.defs sample_env_def field_codec_def from_be_to_be)
  have m: "from_bytes sample_net_env [1] = Inr (NewTransaction nt)"
    using nt(1) by (simp add: from_bytes_def sample_net_env_def env.defs net_env.defs message_codec_def)
  have g: "gossiped sample_net_env (GossipMessage 3 [1]) = [sample_tx 5]" using m nt(2) d by simp
  obtain st ls where "handle_event sample_net_env sample_swarm None None ((ln_loop life_submitted)\<lparr>ns_mempool := ln_mempool life_submitted\<rparr>)
      (GossipMessage 3 [1]) = Inr (st, ls)"
    using m nt(2) d by (simp add: handle_message_def)
  from node_step.event [OF this] show ?thesis unfolding g by (fastforce simp: life_submitted_def)
qed

text \<open>A transaction is submitted by RPC and another one arrives by gossip.\<close>

theorem node_history_witness:
  "\<exists>nd. life_step\<^sup>*\<^sup>* life_start nd \<and> ln_arrived nd = [ByRpc signed_sample, ByGossip (sample_tx 5)] \<and>
     mset (pending_transactions (ln_mempool nd)) = {#signed_sample, sample_tx 5#} \<and>
     get_account submit_env (replicate 32 1) (ln_storage nd) = Inr (Some (sample_account 100 4))"
proof -
  obtain nd where nd: "life_step life_submitted nd" "ln_arrived nd = [ByRpc signed_sample, ByGossip (sample_tx 5)]"
    using life_gossip by blast
  have run: "life_step\<^sup>*\<^sup>* life_start nd" using life_call nd(1) by (meson converse_rtranclp_into_rtranclp r_into_rtranclp)
  have start: "node_start life_start"
    using sample_storage_ok by (auto simp: node_start_def life_start_def submit_state_def)
  from node_history [OF run start] nd(2) submit_account run show ?thesis by (auto simp: life_start_def)
qed

end
