(* ===== verification/Startup.thy ===== *)
theory Startup
  imports Lifecycle Files
begin

text \<open>
  Starting a node: \<open>network/gossip.rs\<close>, \<open>network/behaviour.rs\<close>, the swarm that \<open>PrimsNode::new\<close>
  builds (\<open>network/node.rs\<close>) and the part of \<open>main.rs\<close> before its loop. The behaviours of libp2p,
  the transport, directories, the database and the listener of the RPC server are parameters.
\<close>

section \<open>Gossip and behaviour\<close>

record ('k, 'g, 'm, 'q, 'p) libp2p_ops =
  gs_new :: "'k \<Rightarrow> (string + 'g)"
  gs_subscribe :: "'g \<Rightarrow> string \<Rightarrow> 'g \<times> (string + bool)"
  mdns_new :: "'p \<Rightarrow> (string + 'm)"
  kad_new :: "'p \<Rightarrow> 'q"
  key_to_peer_id :: "'k \<Rightarrow> 'p"

definition blocks_topic :: string where
  "blocks_topic = BLOCKS_TOPIC_NAME"

definition transactions_topic :: string where
  "transactions_topic = TRANSACTIONS_TOPIC_NAME"

definition votes_topic :: string where
  "votes_topic = VOTES_TOPIC_NAME"

text \<open>\<open>subscribe(..)?\<close>: the behaviour afterwards, or the error.\<close>

definition subscribed :: "('k, 'g, 'm, 'q, 'p) libp2p_ops \<Rightarrow> string \<Rightarrow> 'g \<Rightarrow> ('g, string) result" where
  "subscribed B topic g = (case gs_subscribe B g topic of (g', Inr _) \<Rightarrow> Inr g' | (g', Inl e) \<Rightarrow> Inl e)"

definition build_gossipsub :: "('k, 'g, 'm, 'q, 'p) libp2p_ops \<Rightarrow> 'k \<Rightarrow> ('g, string) result" where
  "build_gossipsub B local_key =
     and_then (gs_new B local_key) (\<lambda>behaviour.
     and_then (subscribed B blocks_topic behaviour) (\<lambda>behaviour.
     and_then (subscribed B transactions_topic behaviour) (\<lambda>behaviour.
     subscribed B votes_topic behaviour)))"

record ('g, 'm, 'q) PrimsBehaviour =
  pb_gossipsub :: 'g
  pb_mdns :: 'm
  pb_kademlia :: 'q

definition PrimsBehaviour_new :: "('k, 'g, 'm, 'q, 'p) libp2p_ops \<Rightarrow> 'k \<Rightarrow> 'p \<Rightarrow> (('g, 'm, 'q) PrimsBehaviour, string) result" where
  "PrimsBehaviour_new B local_key peer =
     and_then (build_gossipsub B local_key) (\<lambda>gossipsub.
     and_then (mdns_new B peer) (\<lambda>mdns.
       Inr \<lparr>pb_gossipsub = gossipsub, pb_mdns = mdns, pb_kademlia = kad_new B peer\<rparr>))"

section \<open>The swarm\<close>

record ('k, 'b, 'w, 'g, 'm, 'q) transport_ops =
  tcp_builder :: "'k \<Rightarrow> (string + 'b)"
  built_with :: "'b \<Rightarrow> ('g, 'm, 'q) PrimsBehaviour \<Rightarrow> 'w"
  behaviour_of :: "'w \<Rightarrow> ('g, 'm, 'q) PrimsBehaviour"
  with_gossipsub :: "'w \<Rightarrow> 'g \<Rightarrow> 'w"

text \<open>The \<open>SwarmBuilder\<close> chain of \<open>PrimsNode::new\<close>, for the field \<open>sw_build\<close> of the swarm operations.\<close>

definition build_swarm :: "('k, 'g, 'm, 'q, 'p) libp2p_ops \<Rightarrow> ('k, 'b, 'w, 'g, 'm, 'q) transport_ops \<Rightarrow> 'k \<Rightarrow> (string + 'w)" where
  "build_swarm B T local_key =
     and_then (tcp_builder T local_key) (\<lambda>builder.
     and_then (PrimsBehaviour_new B local_key (key_to_peer_id B local_key)) (\<lambda>behaviour.
       Inr (built_with T builder behaviour)))"

definition swarm_subscribe :: "('k, 'g, 'm, 'q, 'p) libp2p_ops \<Rightarrow> ('k, 'b, 'w, 'g, 'm, 'q) transport_ops \<Rightarrow> string \<Rightarrow> 'w \<Rightarrow> ('w, string) result" where
  "swarm_subscribe B T topic w =
     and_then (subscribed B topic (pb_gossipsub (behaviour_of T w))) (\<lambda>g. Inr (with_gossipsub T w g))"

section \<open>Paths\<close>

text \<open>
  \<open>Path::parent\<close> on the components of a path: empty components and inner dots are skipped. The
  parent is written with single separators.
\<close>

definition path_components :: "string \<Rightarrow> string list" where
  "path_components s =
     (let cs = filter (\<lambda>c. c \<noteq> []) (split_char CHR ''/'' s) in
      if take 1 s = ''/'' then filter (\<lambda>c. c \<noteq> ''.'') cs
      else (case cs of [] \<Rightarrow> [] | c # cs' \<Rightarrow> c # filter (\<lambda>c. c \<noteq> ''.'') cs'))"

fun join_path :: "string list \<Rightarrow> string" where
  "join_path [] = []"
| "join_path [c] = c"
| "join_path (c # cs) = c @ ''/'' @ join_path cs"

definition path_parent :: "string \<Rightarrow> string option" where
  "path_parent s =
     (let cs = path_components s in
      if cs = [] then None else Some ((if take 1 s = ''/'' then ''/'' else []) @ join_path (butlast cs)))"

section \<open>The start of \<open>main\<close>\<close>

record ('o, 'd) host_ops =
  dir_create_all :: "string \<Rightarrow> ('o, unit, string) io"
  rocksdb_open :: "string \<Rightarrow> ('o, 'd RocksDbStorage, string) io"
  rpc_listen :: "string \<Rightarrow> ('o, string, string) io"

datatype start_error =
    StartNode node_error
  | StartDirectory string
  | StartDatabase string
  | StartPanic string
  | StartServer string
  | StartSubscription string

record ('d, 'l, 'w, 'p) running_node =
  rn_loop :: "('w, 'p) node_state"
  rn_rpc :: "('d, 'l) RpcState"
  rn_rpc_address :: string
  rn_storage_path :: string
  rn_publish_message :: "string option"

definition env_or :: "process_env \<Rightarrow> string \<Rightarrow> string \<Rightarrow> string" where
  "env_or vars name fallback = (case vars name of Some v \<Rightarrow> v | None \<Rightarrow> fallback)"

definition ensure_parent :: "('o, 'd) host_ops \<Rightarrow> string \<Rightarrow> ('o, unit, start_error) io" where
  "ensure_parent H path =
     (case path_parent path of
        Some parent \<Rightarrow> if parent = [] then io_lift (Inr ()) else io_context StartDirectory (dir_create_all H parent)
      | None \<Rightarrow> io_lift (Inr ()))"

definition start_node :: "('k, 'z) net_env_scheme \<Rightarrow> process_env \<Rightarrow> (string \<Rightarrow> string + bytes) \<Rightarrow> ('k, 'g, 'm, 'q, 'p) libp2p_ops
    \<Rightarrow> ('k, 'b, 'w, 'g, 'm, 'q) transport_ops \<Rightarrow> ('k, 'w, 'p, 'a, 'i) swarm_ops \<Rightarrow> 'l governor \<Rightarrow> nat option \<Rightarrow> ('o, 'd) host_ops
    \<Rightarrow> ('o, ('d, 'l, 'w, 'p) running_node, start_error) io" where
  "start_node E vars rd B T S L parallelism H =
     io_bind (io_lift (map_err StartNode
       (PrimsNode_new E vars rd (S\<lparr>sw_build := build_swarm B T\<rparr>) (NetworkConfig_default vars)))) (\<lambda>node.
     let rpc_bind_address = env_or vars ''PRIMS_RPC_ADDRESS'' ''127.0.0.1:7002'';
         storage_path = env_or vars ''PRIMS_DB_PATH'' ''./data/prims-rocksdb'' in
     io_bind (ensure_parent H storage_path) (\<lambda>_.
     io_bind (io_context StartDatabase (rocksdb_open H storage_path)) (\<lambda>storage.
     let mempool = Mempool_default parallelism in
     io_bind (io_lift (map_err StartPanic (RpcState_new L storage mempool))) (\<lambda>rpc.
     io_bind (io_context StartServer (rpc_listen H rpc_bind_address)) (\<lambda>rpc_local_addr.
     io_lift (and_then (map_err StartSubscription (swarm_subscribe B T TESTNET_TOPIC (swarm node))) (\<lambda>w.
       Inr \<lparr>rn_loop = \<lparr>ns_node = node\<lparr>swarm := w\<rparr>, ns_mempool = mempool, ns_message_sent = False\<rparr>, rn_rpc = rpc,
            rn_rpc_address = rpc_local_addr, rn_storage_path = storage_path,
            rn_publish_message = vars ''PRIMS_PUBLISH_MESSAGE''\<rparr>)))))))"

section \<open>A started node\<close>

text \<open>
  What gossipsub and the swarm promise about subscriptions: a new behaviour has none, a
  subscription adds its topic, and the other operations of the swarm keep the behaviour.
\<close>

definition gossip_spec :: "('k, 'g, 'm, 'q, 'p) libp2p_ops \<Rightarrow> ('k, 'b, 'w, 'g, 'm, 'q) transport_ops \<Rightarrow> ('k, 'w, 'p, 'a, 'i) swarm_ops
    \<Rightarrow> ('g \<Rightarrow> string set) \<Rightarrow> bool" where
  "gossip_spec B T S topics \<longleftrightarrow>
     (\<forall>k g. gs_new B k = Inr g \<longrightarrow> topics g = {}) \<and>
     (\<forall>g t g' b. gs_subscribe B g t = (g', Inr b) \<longrightarrow> topics g' = insert t (topics g)) \<and>
     (\<forall>b p. behaviour_of T (built_with T b p) = p) \<and>
     (\<forall>w g. pb_gossipsub (behaviour_of T (with_gossipsub T w g)) = g) \<and>
     (\<forall>w a w'. sw_listen_on S w a = Inr w' \<longrightarrow> behaviour_of T w' = behaviour_of T w) \<and>
     (\<forall>w a. behaviour_of T (sw_add_external_address S w a) = behaviour_of T w) \<and>
     (\<forall>w a w'. sw_dial S w a = Inr w' \<longrightarrow> behaviour_of T w' = behaviour_of T w)"

lemma subscribed_topics: "gossip_spec B T S topics \<Longrightarrow> subscribed B t g = Inr g' \<Longrightarrow> topics g' = insert t (topics g)"
  by (auto simp: gossip_spec_def subscribed_def split: prod.splits sum.splits)

lemma build_gossipsub_topics:
  assumes "gossip_spec B T S topics" and "build_gossipsub B k = Inr g"
  shows "topics g = {blocks_topic, transactions_topic, votes_topic}"
proof -
  obtain g0 g1 g2 where "gs_new B k = Inr g0" "subscribed B blocks_topic g0 = Inr g1" "subscribed B transactions_topic g1 = Inr g2"
    "subscribed B votes_topic g2 = Inr g"
    using assms(2) by (auto simp: build_gossipsub_def result_simps)
  moreover from this(1) have "topics g0 = {}" using assms(1) by (simp add: gossip_spec_def)
  ultimately show ?thesis using subscribed_topics [OF assms(1)] by auto
qed

lemma dial_seeds_behaviour:
  "gossip_spec B T S topics \<Longrightarrow> dial_seeds S w seeds = Inr w' \<Longrightarrow> behaviour_of T w' = behaviour_of T w"
  by (induction S w seeds rule: dial_seeds.induct) (auto simp: result_simps gossip_spec_def)

lemma sw_build_irrelevant:
  "dial_seeds (S\<lparr>sw_build := f\<rparr>) w seeds = dial_seeds S w seeds"
  by (induction S w seeds rule: dial_seeds.induct) simp_all

lemma new_behaviour_gossip: "PrimsBehaviour_new B k p = Inr b \<Longrightarrow> build_gossipsub B k = Inr (pb_gossipsub b)"
  by (auto simp: PrimsBehaviour_new_def result_simps)

lemma new_node_topics:
  assumes "gossip_spec B T S topics" and "PrimsNode_new E vars rd (S\<lparr>sw_build := build_swarm B T\<rparr>) cfg = Inr node"
  shows "topics (pb_gossipsub (behaviour_of T (swarm node))) = {blocks_topic, transactions_topic, votes_topic} \<and>
    config node = cfg \<and> peer_penalties node = Map.empty"
proof -
  have "\<exists>k. PrimsBehaviour_new B k (key_to_peer_id B k) = Inr (behaviour_of T (swarm node))"
    and n: "config node = cfg" "peer_penalties node = Map.empty"
    using assms by (cases "external_address cfg"; auto simp: PrimsNode_new_def build_swarm_def result_simps sw_build_irrelevant
      gossip_spec_def dest!: dial_seeds_behaviour [OF assms(1)])+
  then obtain k where p: "PrimsBehaviour_new B k (key_to_peer_id B k) = Inr (behaviour_of T (swarm node))" by blast
  with build_gossipsub_topics [OF assms(1) new_behaviour_gossip [OF p]] n show ?thesis by simp
qed

lemma start_node_steps:
  assumes "start_node E vars rd B T S L parallelism H w = (w', Inr rn)"
  obtains node storage v v' w1 where
    "PrimsNode_new E vars rd (S\<lparr>sw_build := build_swarm B T\<rparr>) (NetworkConfig_default vars) = Inr node"
    "rocksdb_open H (env_or vars ''PRIMS_DB_PATH'' ''./data/prims-rocksdb'') v = (v', Inr storage)"
    "swarm_subscribe B T TESTNET_TOPIC (swarm node) = Inr w1"
    "rn_loop rn = \<lparr>ns_node = node\<lparr>swarm := w1\<rparr>, ns_mempool = Mempool_default parallelism, ns_message_sent = False\<rparr>"
    "RpcState_new L storage (Mempool_default parallelism) = Inr (rn_rpc rn)"
  using assms unfolding start_node_def Let_def
  by (elim io_bind_success)
    (auto simp: result_simps io_context_def split: prod.splits elim!: io_bind_success)

text \<open>
  C38. A node that starts is ready: it listens to the three topics its publish operations use and
  to the topic of the test network, nothing else; the RPC interface holds the database that was
  opened at the configured path, the event loop has none; both share one empty mempool, with as many
  partitions as the machine has processors; no peer is penalised and no message sent. This is a
  state from which the runs of a node are considered.
\<close>

theorem start_node_ready:
  assumes "gossip_spec B T S topics" and "start_node E vars rd B T S L parallelism H w = (w', Inr rn)"
    and "\<forall>path v v' s. rocksdb_open H path v = (v', Inr s) \<longrightarrow> storage_ok s"
  shows "topics (pb_gossipsub (behaviour_of T (swarm (ns_node (rn_loop rn))))) =
      {BLOCKS_TOPIC_NAME, TRANSACTIONS_TOPIC_NAME, VOTES_TOPIC_NAME, TESTNET_TOPIC} \<and>
    ns_mempool (rn_loop rn) = rs_mempool (rn_rpc rn) \<and> \<not> ns_message_sent (rn_loop rn) \<and>
    peer_penalties (ns_node (rn_loop rn)) = Map.empty \<and> config (ns_node (rn_loop rn)) = NetworkConfig_default vars \<and>
    (\<exists>v v'. rocksdb_open H (env_or vars ''PRIMS_DB_PATH'' ''./data/prims-rocksdb'') v = (v', Inr (rs_storage (rn_rpc rn)))) \<and>
    rs_mempool (rn_rpc rn) = with_partition_count (case parallelism of None \<Rightarrow> 1 | Some n \<Rightarrow> n) \<and>
    pending_transactions (rs_mempool (rn_rpc rn)) = [] \<and>
    node_start \<lparr>ln_rpc = rn_rpc rn, ln_loop = rn_loop rn, ln_arrived = []\<rparr>"
proof -
  obtain node storage v v' w1 where node: "PrimsNode_new E vars rd (S\<lparr>sw_build := build_swarm B T\<rparr>) (NetworkConfig_default vars) = Inr node"
    and db: "rocksdb_open H (env_or vars ''PRIMS_DB_PATH'' ''./data/prims-rocksdb'') v = (v', Inr storage)"
    and sub: "swarm_subscribe B T TESTNET_TOPIC (swarm node) = Inr w1"
    and loop: "rn_loop rn = \<lparr>ns_node = node\<lparr>swarm := w1\<rparr>, ns_mempool = Mempool_default parallelism, ns_message_sent = False\<rparr>"
    and rpc: "RpcState_new L storage (Mempool_default parallelism) = Inr (rn_rpc rn)"
    using assms(2) by (rule start_node_steps)
  have "rn_rpc rn = with_rate_limit L storage (Mempool_default parallelism) DEFAULT_RPC_RATE_LIMIT_PER_SECOND"
    using rpc by (simp add: RpcState_new_def split: if_splits)
  then have st: "rs_storage (rn_rpc rn) = storage" "rs_mempool (rn_rpc rn) = Mempool_default parallelism"
    by (simp_all add: with_rate_limit_def)
  have "topics (pb_gossipsub (behaviour_of T w1)) = insert TESTNET_TOPIC (topics (pb_gossipsub (behaviour_of T (swarm node))))"
    using sub subscribed_topics [OF assms(1)] assms(1) by (auto simp: swarm_subscribe_def result_simps gossip_spec_def)
  moreover have "pending_transactions (with_partition_count k) = []" for k
    by (simp add: pending_transactions_eq with_partition_count_def Let_def)
  ultimately show ?thesis using new_node_topics [OF assms(1) node] assms(3) db st loop
    by (auto simp: node_start_def Mempool_default_def blocks_topic_def transactions_topic_def votes_topic_def)
qed

text \<open>
  The penalties of \<open>network/connection.rs\<close> have no effect in a running node: whatever peers send,
  the event loop registers nothing, so a peer is accepted exactly as at the start.
\<close>

lemma publish_pending_penalties:
  assumes "publish_pending S clock m st = Inr (st', ls)"
  shows "peer_penalties (ns_node st') = peer_penalties (ns_node st)"
proof -
  obtain ms where ms: "clock = Some ms" using assms by (cases clock) (simp_all add: publish_pending_def)
  obtain w r where w: "sw_publish S (swarm (ns_node st)) TESTNET_TOPIC (bytes_of (decimal ms @ ''|'' @ m)) = (w, r)"
    by (cases "sw_publish S (swarm (ns_node st)) TESTNET_TOPIC (bytes_of (decimal ms @ ''|'' @ m))")
  with assms ms show ?thesis by (cases r) (auto simp: publish_pending_def)
qed

lemma handle_event_penalties:
  assumes "handle_event E S publish clock st ev = Inr (st', ls)"
  shows "peer_penalties (ns_node st') = peer_penalties (ns_node st)"
  using assms
  by (cases ev) (auto simp: handle_message_def result_simps dest: publish_pending_penalties
    split: if_splits option.splits sum.splits Message.splits)

theorem penalties_never_registered:
  assumes "event_loop E S publish st evs = Inr (st', ls)"
  shows "peer_penalties (ns_node st') = peer_penalties (ns_node st)"
  using assms
  by (induction E S publish st evs arbitrary: ls rule: event_loop.induct)
    (auto simp: result_simps dest: handle_event_penalties)

definition list_gossip :: "(unit, string list, unit, unit, nat) libp2p_ops" where
  "list_gossip = \<lparr>gs_new = (\<lambda>_. Inr []), gs_subscribe = (\<lambda>g t. (t # g, Inr True)), mdns_new = (\<lambda>_. Inr ()),
     kad_new = (\<lambda>_. ()), key_to_peer_id = (\<lambda>_. 0)\<rparr>"

definition bare_transport :: "(unit, unit, (string list, unit, unit) PrimsBehaviour, string list, unit, unit) transport_ops" where
  "bare_transport = \<lparr>tcp_builder = (\<lambda>_. Inr ()), built_with = (\<lambda>_ b. b), behaviour_of = (\<lambda>w. w),
     with_gossipsub = (\<lambda>w g. w\<lparr>pb_gossipsub := g\<rparr>)\<rparr>"

definition bare_swarm :: "(unit, (string list, unit, unit) PrimsBehaviour, nat, unit, unit) swarm_ops" where
  "bare_swarm = \<lparr>sw_build = (\<lambda>_. Inl []), sw_parse_address = (\<lambda>_. Inr ()), sw_listen_on = (\<lambda>w _. Inr w),
     sw_add_external_address = (\<lambda>w _. w), sw_dial = (\<lambda>w _. Inr w), sw_local_peer_id = (\<lambda>_. 0),
     sw_publish = (\<lambda>w _ _. (w, Inr ()))\<rparr>"

definition bare_host :: "(string list, db_log) host_ops" where
  "bare_host = \<lparr>dir_create_all = (\<lambda>p w. (p # w, Inr ())), rocksdb_open = (\<lambda>_ w. (w, Inr sample_storage)),
     rpc_listen = (\<lambda>a w. (w, Inr a))\<rparr>"

definition bare_governor :: "unit governor" where
  "bare_governor = \<lparr>limiter_per_second = (\<lambda>_. ()), limiter_check = (\<lambda>_. ((), True))\<rparr>"

lemma list_gossip_spec: "gossip_spec list_gossip bare_transport bare_swarm set"
  by (simp add: gossip_spec_def list_gossip_def bare_transport_def bare_swarm_def)

theorem start_node_ready_witness:
  "\<exists>rn. start_node sample_net_env (\<lambda>_. None) (\<lambda>_. Inl []) list_gossip bare_transport bare_swarm bare_governor (Some 4) bare_host [] =
       ([''./data''], Inr rn) \<and>
     set (pb_gossipsub (swarm (ns_node (rn_loop rn)))) = {BLOCKS_TOPIC_NAME, TRANSACTIONS_TOPIC_NAME, VOTES_TOPIC_NAME, TESTNET_TOPIC}"
proof -
  obtain node where node: "PrimsNode_new sample_net_env (\<lambda>_. None) (\<lambda>_. Inl []) (bare_swarm\<lparr>sw_build := build_swarm list_gossip bare_transport\<rparr>)
      (NetworkConfig_default (\<lambda>_. None)) = Inr node"
    by (simp add: PrimsNode_new_def load_network_identity_keypair_def build_swarm_def PrimsBehaviour_new_def build_gossipsub_def
      subscribed_def list_gossip_def bare_transport_def bare_swarm_def NetworkConfig_default_def)
  have parent: "path_parent ''./data/prims-rocksdb'' = Some ''./data''"
    by code_simp
  obtain rn where run: "start_node sample_net_env (\<lambda>_. None) (\<lambda>_. Inl []) list_gossip bare_transport bare_swarm bare_governor
      (Some 4) bare_host [] = ([''./data''], Inr rn)"
    using node parent
    by (simp add: start_node_def io_bind_def io_context_def Let_def env_or_def bare_host_def RpcState_new_def
      DEFAULT_RPC_RATE_LIMIT_PER_SECOND_def swarm_subscribe_def subscribed_def list_gossip_def bare_transport_def ensure_parent_def)
  have "\<forall>path v v' s. rocksdb_open bare_host path v = (v', Inr s) \<longrightarrow> storage_ok s" by (simp add: bare_host_def sample_storage_ok)
  from start_node_ready [OF list_gossip_spec run this] run show ?thesis by (simp add: bare_transport_def)
qed

end
