(* ===== verification/Proposer.thy ===== *)
theory Proposer
  imports Votes
begin

text \<open>
  Proposer selection and block proposal (\<open>src/src/consensus/mod.rs\<close>, lines 581 to 640 and
  695 to 740). The \<open>anyhow\<close> errors are the constructors of \<open>ProposerError\<close>. The draw is
  compared with a reference that gives every unit of stake one number: selection by seed is total,
  independent of the order of the validator list, and proportional to stake up to the bias of
  reducing a 128-bit number modulo the total stake, which is bounded.
\<close>

datatype ProposerError =
    NoEligibleValidators
  | ZeroTotalStake
  | SelectionFailed
  | ZeroMaxTransactions
  | HeaderSerialization string

section \<open>Selection\<close>

definition proposer_seed :: "'z env_scheme \<Rightarrow> bytes \<Rightarrow> u64 \<Rightarrow> bytes panics" where
  "proposer_seed E previous_block_hash height =
     try_into_array 32 ''sha256 must always return exactly 32 bytes''
       (sha256 E (previous_block_hash @ to_be_bytes 8 height))"

fun select_loop :: "u128 \<Rightarrow> u128 \<Rightarrow> Validator list \<Rightarrow> (Validator, ProposerError) result" where
  "select_loop draw cumulative [] = Inl SelectionFailed"
| "select_loop draw cumulative (v # vs) =
     (let cumulative' = cumulative + ucast (v_stake v)
      in if draw < cumulative' then Inr v else select_loop draw cumulative' vs)"

definition eligible_validators :: "Validator list \<Rightarrow> Validator list" where
  "eligible_validators validators = sort_key v_address (filter (\<lambda>v. v_stake v > 0) validators)"

definition select_proposer_by_seed :: "Validator list \<Rightarrow> bytes \<Rightarrow> (Validator, ProposerError) result" where
  "select_proposer_by_seed validators seed =
     (if filter (\<lambda>v. v_stake v > 0) validators = [] then Inl NoEligibleValidators else
      let eligible = eligible_validators validators;
          total_stake = sum_list (map (\<lambda>v. ucast (v_stake v)) eligible) :: u128
      in if total_stake = 0 then Inl ZeroTotalStake
         else select_loop (from_be_bytes (take 16 seed) mod total_stake) 0 eligible)"

definition select_proposer :: "'z env_scheme \<Rightarrow> Validator list \<Rightarrow> bytes \<Rightarrow> u64
    \<Rightarrow> (Validator, ProposerError) result panics" where
  "select_proposer E validators previous_block_hash height =
     and_then (proposer_seed E previous_block_hash height)
       (\<lambda>seed. Inr (select_proposer_by_seed validators seed))"

section \<open>Proposal\<close>

definition consensus_unsigned_header_bytes ::
  "'z env_scheme \<Rightarrow> BlockHeader \<Rightarrow> (bytes, ProposerError) result" where
  "consensus_unsigned_header_bytes E header =
     map_err HeaderSerialization (serialize (bc_header E) (header\<lparr>h_signature := []\<rparr>))"

definition sign_block_header :: "'z env_scheme \<Rightarrow> BlockHeader \<Rightarrow> bytes \<Rightarrow> (bytes, ProposerError) result" where
  "sign_block_header E header sk =
     and_then (consensus_unsigned_header_bytes E header) (\<lambda>message. Inr (signing_sign E sk message))"

text \<open>The mempool after the call comes first: it is drained even when signing fails.\<close>

definition propose_block :: "'z env_scheme \<Rightarrow> Validator \<Rightarrow> bytes \<Rightarrow> bytes \<Rightarrow> u64 \<Rightarrow> u64 \<Rightarrow> Mempool \<Rightarrow> nat
    \<Rightarrow> (Mempool \<times> (Block, ProposerError) result) panics" where
  "propose_block E proposer sk previous_block_hash height timestamp mempool max_transactions =
     (if max_transactions = 0 then Inr (mempool, Inl ZeroMaxTransactions) else
      let (transactions, mempool') = take_for_block mempool max_transactions in
      and_then (calculate_merkle_root E transactions) (\<lambda>root.
      let header = \<lparr>h_version = 1, h_previous_hash = previous_block_hash, h_merkle_root = root,
            h_timestamp = timestamp, h_height = height, h_validator = v_address proposer, h_signature = []\<rparr>
      in Inr (mempool', and_then (sign_block_header E header sk) (\<lambda>signature.
           Inr \<lparr>b_header = header\<lparr>h_signature := signature\<rparr>, b_transactions = transactions, b_receipts = []\<rparr>))))"

section \<open>The reference draw\<close>

text \<open>
  Unit \<open>d\<close> of the stake, counted through the list, belongs to one validator.
\<close>

fun stake_owner :: "nat \<Rightarrow> Validator list \<Rightarrow> Validator option" where
  "stake_owner d [] = None"
| "stake_owner d (v # vs) = (if d < unat (v_stake v) then Some v else stake_owner (d - unat (v_stake v)) vs)"

lemma stake_owner_None: "stake_owner d vs = None \<longleftrightarrow> active_stake vs \<le> d"
  by (induction d vs rule: stake_owner.induct) auto

lemma stake_owner_Some: "stake_owner d vs = Some v \<Longrightarrow> v \<in> set vs \<and> v_stake v > 0"
  by (induction d vs rule: stake_owner.induct) (auto simp: word_less_nat_alt split: if_splits)

lemma select_loop_owner:
  assumes "unat cumulative \<le> unat draw" and "unat cumulative + active_stake vs < 2 ^ 128"
  shows "select_loop draw cumulative vs = ok_or SelectionFailed (stake_owner (unat draw - unat cumulative) vs)"
  using assms
proof (induction vs arbitrary: cumulative)
  case (Cons v vs)
  let ?c = "cumulative + ucast (v_stake v)"
  have c: "unat ?c = unat cumulative + unat (v_stake v)"
    using Cons.prems(2) by (simp add: unat_word_ariths unat_ucast_up)
  show ?case
  proof (cases "draw < ?c")
    case True
    with c have "unat draw - unat cumulative < unat (v_stake v)"
      using Cons.prems(1) by (simp add: word_less_nat_alt)
    with True show ?thesis by (simp add: Let_def)
  next
    case False
    then have le: "unat ?c \<le> unat draw" by (simp add: word_less_nat_alt)
    then have "\<not> unat draw - unat cumulative < unat (v_stake v)" using c by simp
    moreover have "unat draw - unat ?c = unat draw - unat cumulative - unat (v_stake v)" using c by simp
    ultimately show ?thesis
      using False Cons.IH [OF le] Cons.prems(2) c by (simp add: Let_def add.assoc)
  qed
qed simp

text \<open>Every validator owns as many numbers as it has stake.\<close>

lemma stake_owner_count:
  "distinct vs \<Longrightarrow> u \<in> set vs \<Longrightarrow> card {d. d < active_stake vs \<and> stake_owner d vs = Some u} = unat (v_stake u)"
proof (induction vs)
  case (Cons v vs)
  let ?s = "unat (v_stake v)"
  let ?A = "{d. d < ?s \<and> v = u}"
  let ?B = "{d. d < active_stake vs \<and> stake_owner d vs = Some u}"
  have split: "{d. d < active_stake (v # vs) \<and> stake_owner d (v # vs) = Some u} = ?A \<union> (+) ?s ` ?B"
  proof (intro set_eqI iffI)
    fix d assume d: "d \<in> {d. d < active_stake (v # vs) \<and> stake_owner d (v # vs) = Some u}"
    show "d \<in> ?A \<union> (+) ?s ` ?B"
    proof (cases "d < ?s")
      case False
      with d have "d - ?s \<in> ?B" "d = ?s + (d - ?s)" by auto
      then show ?thesis by blast
    qed (use d in simp)
  qed auto
  have "card ((+) ?s ` ?B) = card ?B" by (rule card_image) simp
  moreover have "?A \<inter> (+) ?s ` ?B = {}" by auto
  ultimately have sum: "card {d. d < active_stake (v # vs) \<and> stake_owner d (v # vs) = Some u} = card ?A + card ?B"
    unfolding split by (subst card_Un_disjoint) auto
  show ?case
  proof (cases "v = u")
    case True
    with Cons.prems(1) have "?B = {}" by (auto dest: stake_owner_Some)
    then have "card ?B = 0" by (simp only: card.empty)
    with sum True show ?thesis by simp
  next
    case False
    with Cons.prems have "card ?B = unat (v_stake u)" by (intro Cons.IH) auto
    with sum False show ?thesis by simp
  qed
qed simp

lemma length_eligible: "length (eligible_validators vs) \<le> length vs"
  by (simp add: eligible_validators_def)

lemma set_eligible: "set (eligible_validators vs) = {v \<in> set vs. v_stake v > 0}"
  by (simp add: eligible_validators_def)

lemma active_stake_eligible: "active_stake (eligible_validators vs) = active_stake vs"
proof -
  have "active_stake (eligible_validators vs) = active_stake (filter (\<lambda>v. v_stake v > 0) vs)"
    unfolding active_stake_def eligible_validators_def
    by (metis (no_types, lifting) mset_map mset_sort sum_mset_sum_list)
  also have "\<dots> = active_stake vs" using sum_active [of vs] by (simp add: active_stake_def)
  finally show ?thesis .
qed

lemma active_stake_pos: "v \<in> set vs \<Longrightarrow> v_stake v > 0 \<Longrightarrow> 0 < active_stake vs"
  by (induction vs) (auto simp: word_less_nat_alt)

text \<open>Selection by seed is the reference draw, for every seed.\<close>

lemma select_proposer_by_seed_owner:
  assumes "length vs < 2 ^ 64" and "\<exists>v \<in> set vs. v_stake v > 0"
  shows "select_proposer_by_seed vs seed = ok_or SelectionFailed
    (stake_owner (unat (from_be_bytes (take 16 seed) :: u128) mod active_stake vs) (eligible_validators vs))"
proof -
  let ?T = "sum_list (map (\<lambda>v. ucast (v_stake v)) (eligible_validators vs)) :: u128"
  have len: "length (eligible_validators vs) < 2 ^ 64" using length_eligible [of vs] assms(1) by simp
  have T: "unat ?T = active_stake vs" using stake_sum_u128(1) [OF len] active_stake_eligible by simp
  have "0 < active_stake vs" using assms(2) active_stake_pos by blast
  then have T0: "?T \<noteq> 0" using T by auto
  have "select_loop (from_be_bytes (take 16 seed) mod ?T) 0 (eligible_validators vs) =
      ok_or SelectionFailed (stake_owner (unat (from_be_bytes (take 16 seed) mod ?T) - unat (0 :: u128)) (eligible_validators vs))"
    by (rule select_loop_owner) (use stake_sum_u128(2) [OF len] in simp_all)
  then show ?thesis
    using assms(2) T0 T
    by (auto simp: select_proposer_by_seed_def Let_def filter_empty_conv unat_mod)
qed

lemma select_proposer_by_seed_perm:
  assumes "distinct_active vs" and "mset vs' = mset vs"
  shows "select_proposer_by_seed vs' seed = select_proposer_by_seed vs seed"
proof -
  have ms: "mset (filter (\<lambda>v. v_stake v > 0) vs') = mset (filter (\<lambda>v. v_stake v > 0) vs)"
    using assms(2) by simp
  have "eligible_validators vs = eligible_validators vs'"
    unfolding eligible_validators_def
    using assms(1) by (intro sort_key_mset_eq ms [symmetric]) (simp add: distinct_active_def)
  moreover have "filter (\<lambda>v. v_stake v > 0) vs' = [] \<longleftrightarrow> filter (\<lambda>v. v_stake v > 0) vs = []"
    using ms by (metis mset_zero_iff)
  ultimately show ?thesis by (simp add: select_proposer_by_seed_def)
qed

lemma select_proposer_by_seed_active:
  assumes "length vs < 2 ^ 64" and "\<exists>v \<in> set vs. v_stake v > 0"
  shows "\<exists>v. select_proposer_by_seed vs seed = Inr v \<and> v \<in> set vs \<and> v_stake v > 0"
proof -
  have "0 < active_stake vs" using assms(2) active_stake_pos by blast
  then have "unat (from_be_bytes (take 16 seed) :: u128) mod active_stake vs < active_stake vs" by simp
  then obtain v where v: "stake_owner (unat (from_be_bytes (take 16 seed) :: u128) mod active_stake vs)
      (eligible_validators vs) = Some v"
    using stake_owner_None [of _ "eligible_validators vs"] active_stake_eligible [of vs]
    by (metis leD option.exhaust)
  with stake_owner_Some [OF v] show ?thesis
    using select_proposer_by_seed_owner [OF assms, of seed] by (simp add: set_eligible)
qed

text \<open>
  The numbers below \<open>N\<close> fall into the residue classes modulo \<open>T\<close> evenly up to one, and so
  the seeds fall to the units of stake.
\<close>

lemma residue_class_count:
  assumes "d < T"
  shows "N div T \<le> card {n. n < N \<and> n mod T = d}" and "card {n. n < N \<and> n mod T = d} \<le> N div T + 1"
proof -
  let ?f = "\<lambda>k. d + k * T" and ?C = "{n. n < N \<and> n mod T = (d :: nat)}"
  have inj: "inj_on ?f A" for A using assms by (auto simp: inj_on_def)
  have "?f ` {..<N div T} \<subseteq> ?C"
  proof (clarsimp simp: assms)
    fix k assume "k < N div T"
    then have "Suc k * T \<le> (N div T) * T" by (intro mult_right_mono) simp_all
    also have "\<dots> \<le> N" by (rule div_times_less_eq_dividend)
    finally show "d + k * T < N" using assms by simp
  qed
  from card_mono [OF _ this] inj [of "{..<N div T}"] show "N div T \<le> card ?C" by (simp add: card_image)
  have "?C \<subseteq> ?f ` {..N div T}"
  proof
    fix n assume n: "n \<in> ?C"
    then have "n = ?f (n div T)" using mod_mult_div_eq [of n T] by (simp add: mult.commute)
    moreover have "n div T \<le> N div T" using n by (simp add: div_le_mono)
    ultimately show "n \<in> ?f ` {..N div T}" by blast
  qed
  from card_mono [OF _ this] inj [of "{..N div T}"] show "card ?C \<le> N div T + 1" by (simp add: card_image)
qed

lemma residue_set_count:
  assumes "D \<subseteq> {..<T}"
  shows "card D * (N div T) \<le> card {n. n < N \<and> n mod T \<in> D}" and "card {n. n < N \<and> n mod T \<in> D} \<le> card D * (N div T + 1)"
proof -
  have fin: "finite D" using assms finite_subset by blast
  have "{n. n < N \<and> n mod T \<in> D} = (\<Union>d \<in> D. {n. n < N \<and> n mod T = d})" by blast
  then have "card {n. n < N \<and> n mod T \<in> D} = (\<Sum>d \<in> D. card {n. n < N \<and> n mod T = d})"
    using fin by (simp only:) (rule card_UN_disjoint, auto)
  moreover have "of_nat (card D) * (N div T) \<le> (\<Sum>d \<in> D. card {n. n < N \<and> n mod T = d})"
    by (rule sum_bounded_below) (use assms residue_class_count(1) in blast)
  moreover have "(\<Sum>d \<in> D. card {n. n < N \<and> n mod T = d}) \<le> of_nat (card D) * (N div T + 1)"
    by (rule sum_bounded_above) (use assms residue_class_count(2) in blast)
  ultimately show "card D * (N div T) \<le> card {n. n < N \<and> n mod T \<in> D}"
    "card {n. n < N \<and> n mod T \<in> D} \<le> card D * (N div T + 1)" by simp_all
qed

lemma card_words_unat: "card {w :: 'w::len word. P (unat w)} = card {n. n < 2 ^ LENGTH('w) \<and> P n}"
proof -
  have "unat ` {w :: 'w word. P (unat w)} = {n. n < 2 ^ LENGTH('w) \<and> P n}"
  proof (intro set_eqI iffI)
    fix n assume n: "n \<in> {n. n < 2 ^ LENGTH('w) \<and> P n}"
    then have "unat (of_nat n :: 'w word) = n" by (simp add: unat_of_nat take_bit_nat_eq_self)
    with n show "n \<in> unat ` {w :: 'w word. P (unat w)}" by (intro image_eqI [of _ _ "of_nat n"]) simp_all
  qed (auto simp: unsigned_less)
  moreover have "inj_on unat {w :: 'w word. P (unat w)}" by (auto intro: inj_onI unat_inj)
  ultimately show ?thesis by (metis card_image)
qed

text \<open>The 16-byte seeds that select a validator.\<close>

definition selecting_seeds :: "Validator list \<Rightarrow> bytes \<Rightarrow> Validator \<Rightarrow> u128 set" where
  "selecting_seeds vs rest v = {w. select_proposer_by_seed vs (to_be_bytes 16 w @ rest) = Inr v}"

lemma selecting_seeds_share:
  assumes "length vs < 2 ^ 64" and "distinct_active vs" and "v \<in> set vs" "v_stake v > 0"
  shows "unat (v_stake v) * (2 ^ 128 div active_stake vs) \<le> card (selecting_seeds vs rest v)"
    and "card (selecting_seeds vs rest v) \<le> unat (v_stake v) * (2 ^ 128 div active_stake vs + 1)"
proof -
  let ?T = "active_stake vs" and ?vs = "eligible_validators vs"
  let ?D = "{d. d < active_stake ?vs \<and> stake_owner d ?vs = Some v}"
  have T: "0 < ?T" using assms(3,4) by (rule active_stake_pos)
  have "distinct ?vs" using assms(2) by (simp add: eligible_validators_def distinct_active_def distinct_map)
  with assms(3,4) have D: "card ?D = unat (v_stake v)" by (intro stake_owner_count) (simp_all add: set_eligible)
  have sub: "?D \<subseteq> {..<?T}" by (auto simp: active_stake_eligible)
  have "select_proposer_by_seed vs (to_be_bytes 16 w @ rest) = ok_or SelectionFailed (stake_owner (unat w mod ?T) ?vs)" for w :: u128
    using select_proposer_by_seed_owner [OF assms(1), of "to_be_bytes 16 w @ rest"] assms(3,4)
    by (auto simp: from_be_to_be)
  then have "selecting_seeds vs rest v = {w. unat w mod ?T \<in> ?D}"
    using T by (auto simp: selecting_seeds_def ok_or_Inr active_stake_eligible)
  then have "card (selecting_seeds vs rest v) = card {n. n < 2 ^ 128 \<and> n mod ?T \<in> ?D}"
    using card_words_unat [where 'w = 128 and P = "\<lambda>n. n mod ?T \<in> ?D"] by simp
  with residue_set_count [OF sub, of "2 ^ 128"] D
  show "unat (v_stake v) * (2 ^ 128 div ?T) \<le> card (selecting_seeds vs rest v)"
    "card (selecting_seeds vs rest v) \<le> unat (v_stake v) * (2 ^ 128 div ?T + 1)" by simp_all
qed

text \<open>
  C10. Proposer selection by seed: it does not depend on the order of the validator list; as soon
  as there is an active validator it returns the owner of the unit of stake whose number is the
  first 128 bits of the seed modulo the total stake, and \<open>NoEligibleValidators\<close> otherwise, so the
  remaining error branches are dead; and of the \<open>2 ^ 128\<close> values of these bits, whatever the rest
  of the seed, each unit of stake of a validator brings it \<open>2 ^ 128\<close> divided by the total stake,
  rounded down or one more: selection is proportional to stake up to that modulo bias.
\<close>

theorem select_proposer_by_seed_correct:
  assumes "length vs < 2 ^ 64" and "distinct_active vs" and "mset vs' = mset vs"
  shows "select_proposer_by_seed vs' seed = select_proposer_by_seed vs seed \<and>
    (if \<exists>v \<in> set vs. v_stake v > 0
     then \<exists>v. select_proposer_by_seed vs seed = Inr v \<and> v \<in> set vs \<and> v_stake v > 0 \<and>
       stake_owner (unat (from_be_bytes (take 16 seed) :: u128) mod active_stake vs) (eligible_validators vs) = Some v
     else select_proposer_by_seed vs seed = Inl NoEligibleValidators) \<and>
    (v \<in> set vs \<and> v_stake v > 0 \<longrightarrow>
       unat (v_stake v) * (2 ^ 128 div active_stake vs) \<le> card (selecting_seeds vs rest v) \<and>
       card (selecting_seeds vs rest v) \<le> unat (v_stake v) * (2 ^ 128 div active_stake vs + 1))"
proof -
  have "if \<exists>v \<in> set vs. v_stake v > 0
     then \<exists>v. select_proposer_by_seed vs seed = Inr v \<and> v \<in> set vs \<and> v_stake v > 0 \<and>
       stake_owner (unat (from_be_bytes (take 16 seed) :: u128) mod active_stake vs) (eligible_validators vs) = Some v
     else select_proposer_by_seed vs seed = Inl NoEligibleValidators"
  proof (cases "\<exists>v \<in> set vs. v_stake v > 0")
    case True
    from select_proposer_by_seed_active [OF assms(1) True, of seed] select_proposer_by_seed_owner [OF assms(1) True, of seed] True
    show ?thesis by (auto simp: ok_or_Inr)
  next
    case False
    then show ?thesis by (auto simp: select_proposer_by_seed_def filter_empty_conv)
  qed
  with select_proposer_by_seed_perm [OF assms(2,3)] selecting_seeds_share [OF assms(1,2)] show ?thesis by simp
qed

theorem select_proposer_by_seed_correct_witness:
  "select_proposer_by_seed (rev sample_validators) (replicate 32 5) = select_proposer_by_seed sample_validators (replicate 32 5) \<and>
   35 * (2 ^ 128 div 100) \<le> card (selecting_seeds sample_validators [] \<lparr>v_address = replicate 32 2, v_stake = 35, v_locked_until = 200\<rparr>)"
proof -
  have "length sample_validators < 2 ^ 64" "distinct_active sample_validators"
    "active_stake sample_validators = 100"
    by (simp_all add: sample_validators_def distinct_active_def)
  with select_proposer_by_seed_correct [of sample_validators "rev sample_validators" "replicate 32 5"
      "\<lparr>v_address = replicate 32 2, v_stake = 35, v_locked_until = 200\<rparr>" "[]"]
  show ?thesis by (simp add: sample_validators_def)
qed

section \<open>Proposing\<close>

lemma proposed_block:
  assumes "ed25519_spec E" and "length sk = 32" and "v_address proposer = signing_public E sk"
    and "propose_block E proposer sk prev height timestamp m n = Inr (m', Inr block)"
  obtains ts where "take_for_block m n = (ts, m')" "b_transactions block = ts" "h_previous_hash (b_header block) = prev"
    "h_height (b_header block) = height" "h_timestamp (b_header block) = timestamp"
    "calculate_merkle_root E ts = Inr (h_merkle_root (b_header block))" "validate_block_signature E (b_header block) = Inr ()"
proof -
  obtain ts p where ts: "take_for_block m n = (ts, p)" by fastforce
  obtain root message where run: "calculate_merkle_root E ts = Inr root" "m' = p"
      and msg: "serialize (bc_header E) \<lparr>h_version = 1, h_previous_hash = prev, h_merkle_root = root,
            h_timestamp = timestamp, h_height = height, h_validator = v_address proposer, h_signature = []\<rparr> = Inr message"
      and block: "block = \<lparr>b_header = \<lparr>h_version = 1, h_previous_hash = prev, h_merkle_root = root,
            h_timestamp = timestamp, h_height = height, h_validator = v_address proposer,
            h_signature = signing_sign E sk message\<rparr>, b_transactions = ts, b_receipts = []\<rparr>"
    using assms(4) ts by (auto simp: propose_block_def Let_def result_simps sign_block_header_def
        consensus_unsigned_header_bytes_def split: if_splits)
  have "validate_block_signature E (b_header block) = Inr ()"
    using assms(1-3) msg by (simp add: validate_block_signature_Inr block ed25519_spec_def)
  with that ts run show thesis by (simp add: block)
qed

text \<open>
  C11. A proposed block is a valid block: when the proposer signs with the secret key of its
  own address and the block stays below the size limit, \<open>validate_block\<close> accepts it on
  top of the hash it was built on. Its transactions were taken from the mempool, which keeps
  the others, and it carries the height and timestamp it was asked for.
\<close>

theorem propose_block_valid:
  assumes "ed25519_spec E" and "length sk = 32" and "v_address proposer = signing_public E sk"
    and "propose_block E proposer sk prev height timestamp m n = Inr (m', Inr block)"
    and "validate_block_size E block = Inr ()"
  shows "validate_block E block prev = Inr (Inr ()) \<and> h_height (b_header block) = height \<and>
    h_timestamp (b_header block) = timestamp \<and> length (b_transactions block) \<le> n \<and>
    mset (b_transactions block) + mset (pending_transactions m') = mset (pending_transactions m)"
proof -
  obtain ts where b: "take_for_block m n = (ts, m')" "b_transactions block = ts" "h_previous_hash (b_header block) = prev"
      "h_height (b_header block) = height" "h_timestamp (b_header block) = timestamp"
      "calculate_merkle_root E ts = Inr (h_merkle_root (b_header block))" "validate_block_signature E (b_header block) = Inr ()"
    using proposed_block [OF assms(1-4)] .
  then show ?thesis
    using assms(5) mempool_pool.draw_pending [OF b(1)] mempool_pool.draw_bound [OF b(1)] by (simp add: validate_block_Inr)
qed

definition sample_proposal :: Block where
  "sample_proposal = \<lparr>b_header = \<lparr>h_version = 1, h_previous_hash = [], h_merkle_root = replicate 32 8,
      h_timestamp = 4, h_height = 9, h_validator = replicate 32 7,
      h_signature = replicate 32 7 @ replicate 32 8\<rparr>, b_transactions = [sample_tx 1], b_receipts = []\<rparr>"

theorem propose_block_valid_witness:
  "validate_block sample_env sample_proposal [] = Inr (Inr ()) \<and> h_height (b_header sample_proposal) = 9"
proof -
  let ?v = "\<lparr>v_address = replicate 32 7, v_stake = 5, v_locked_until = 0\<rparr>"
  have take: "take_for_block sample_pool 1 = ([sample_tx 1], sample_pool\<lparr>partitions := [[sample_tx 2]]\<rparr>)"
    by (simp add: take_for_block_def mempool_is_empty_iff pending_transactions_eq sample_pool_partitions
        MAX_TRANSACTIONS_PER_ADDRESS_PER_BLOCK_def sample_tx_def)
  have run: "propose_block sample_env ?v (replicate 32 7) [] 9 4 sample_pool 1 =
      Inr (sample_pool\<lparr>partitions := [[sample_tx 2]]\<rparr>, Inr sample_proposal)"
    by (simp add: propose_block_def take [unfolded One_nat_def] calculate_merkle_root_def hash_transaction_def merkle_loop.simps
        sign_block_header_def consensus_unsigned_header_bytes_def sample_env_def field_codec_def
        sample_digest_def sha256_def sample_proposal_def Let_def)
  have size: "validate_block_size sample_env sample_proposal = Inr ()"
    by (simp add: validate_block_size_def sample_env_def field_codec_def MAX_BLOCK_SIZE_BYTES_def)
  have address: "v_address ?v = signing_public sample_env (replicate 32 7)" by (simp add: sample_env_def)
  from propose_block_valid [OF sample_env_ed25519 _ address run size] show ?thesis by simp
qed

end
