(* ===== verification/ConsensusTests.thy ===== *)
theory ConsensusTests
  imports Finality Rewards Proposer Text
begin

text \<open>
  The unit tests of \<open>src/src/consensus/mod.rs\<close> as scenarios of the model: each test function is a
  predicate that runs the same calls and states the same assertions, with \<open>expect\<close> and an assertion
  that fails both counted as failure. Key pairs, which the tests generate at random, and the
  parallelism of the machine are arguments. That the scenarios hold for every signature scheme
  and every choice of distinct keys ties the model to the behaviour that the repository tests.
  Left out are the tests that change a signature or a signed payload, since the refusal of a forged
  signature is a property of Ed25519, the test that calls a function twice, and the limit on the
  running time.
\<close>

section \<open>Fixtures\<close>

definition test_validators :: "Validator list" where
  "test_validators =
     [\<lparr>v_address = bytes_of ''alice'', v_stake = 10, v_locked_until = 100\<rparr>,
      \<lparr>v_address = bytes_of ''bob'', v_stake = 20, v_locked_until = 200\<rparr>,
      \<lparr>v_address = bytes_of ''carol'', v_stake = 30, v_locked_until = 300\<rparr>]"

definition test_transaction :: "u64 \<Rightarrow> Transaction" where
  "test_transaction nonce =
     \<lparr>tx_type = Transfer, tx_from = replicate 32 1, tx_to = replicate 32 2, tx_amount = 42,
      tx_fee = FIXED_TRANSACTION_FEE, tx_nonce = nonce, tx_source_shard = 0, tx_destination_shard = 0,
      tx_signature = replicate 64 9, tx_data = Some (bytes_of ''pending'')\<rparr>"

definition seed_from_u128 :: "u128 \<Rightarrow> bytes" where
  "seed_from_u128 v = to_be_bytes 16 v @ replicate 16 0"

definition validator_from_pair :: "'z env_scheme \<Rightarrow> bytes \<Rightarrow> u64 \<Rightarrow> Validator" where
  "validator_from_pair E sk stake = \<lparr>v_address = signing_public E sk, v_stake = stake, v_locked_until = 1800000000\<rparr>"

text \<open>Voting and collecting, each with \<open>expect\<close>, for a list of voters.\<close>

fun cast_votes :: "'z consensus_env_scheme \<Rightarrow> Validator list \<Rightarrow> u64 \<Rightarrow> bytes \<Rightarrow> (bytes \<times> bool) list \<Rightarrow> VoteCollector
    \<Rightarrow> (VoteCollector, VoteError) result" where
  "cast_votes E vs h block_hash [] c = Inr c"
| "cast_votes E vs h block_hash ((sk, approve) # votes) c =
     and_then (create_signed_vote E h block_hash approve sk) (\<lambda>vote.
     and_then (collect_vote E c vote vs) (cast_votes E vs h block_hash votes))"

text \<open>A tally after casting votes into a new collector.\<close>

definition passes_tally :: "'z consensus_env_scheme \<Rightarrow> Validator list \<Rightarrow> u64 \<Rightarrow> bytes \<Rightarrow> (bytes \<times> bool) list
    \<Rightarrow> (VoteCollector \<Rightarrow> VoteTally \<Rightarrow> bool) \<Rightarrow> bool" where
  "passes_tally E vs h block_hash votes P =
     passes (cast_votes E vs h block_hash votes VoteCollector_new) (\<lambda>collector.
     passes (collector_tally collector vs) (\<lambda>r. passes r (P collector)))"

section \<open>Proposer selection\<close>

definition select_proposer_rejects_empty_validator_set :: "'z env_scheme \<Rightarrow> bool" where
  "select_proposer_rejects_empty_validator_set E =
     passes (select_proposer E [] (replicate 32 7) 1) (\<lambda>r. \<not> is_ok r)"

definition select_proposer_ignores_zero_stake_validators :: "'z env_scheme \<Rightarrow> bool" where
  "select_proposer_ignores_zero_stake_validators E =
     (let validators = [\<lparr>v_address = bytes_of ''alice'', v_stake = 0, v_locked_until = 100\<rparr>,
                        \<lparr>v_address = bytes_of ''bob'', v_stake = 50, v_locked_until = 200\<rparr>] in
      passes (select_proposer E validators (replicate 32 9) 1) (\<lambda>r.
      passes r (\<lambda>selected. v_address selected = bytes_of ''bob'')))"

definition select_proposer_by_seed_respects_weighted_ranges :: bool where
  "select_proposer_by_seed_respects_weighted_ranges =
     list_all (\<lambda>(draw, name). passes (select_proposer_by_seed test_validators (seed_from_u128 draw))
         (\<lambda>selected. v_address selected = bytes_of name))
       [(0, ''alice''), (10, ''bob''), (29, ''bob''), (30, ''carol''), (59, ''carol'')]"

definition select_proposer_is_independent_of_input_order :: "'z env_scheme \<Rightarrow> bool" where
  "select_proposer_is_independent_of_input_order E =
     passes (select_proposer E test_validators (replicate 32 11) 7) (\<lambda>r. passes r (\<lambda>selected_from_original.
     passes (select_proposer E (rev test_validators) (replicate 32 11) 7) (\<lambda>r. passes r (\<lambda>selected_from_reversed.
       selected_from_original = selected_from_reversed))))"

section \<open>Mempool\<close>

definition with_sender :: "string \<Rightarrow> u64 \<Rightarrow> Transaction" where
  "with_sender name nonce = (test_transaction nonce)\<lparr>tx_from := bytes_of name\<rparr>"

definition mempool_uses_explicit_partition_count :: bool where
  "mempool_uses_explicit_partition_count =
     (let mempool = with_partition_count 4 in partition_count mempool = 4 \<and> mempool_is_empty mempool)"

definition mempool_keeps_same_sender_fifo_within_a_partition :: bool where
  "mempool_keeps_same_sender_fifo_within_a_partition =
     (let mempool = foldl add_transaction (with_partition_count 4) [with_sender ''alice'' 1, with_sender ''alice'' 2, with_sender ''bob'' 3] in
      map tx_nonce (filter (\<lambda>t. tx_from t = bytes_of ''alice'') (fst (take_for_block mempool 3))) = [1, 2])"

definition mempool_pending_and_take_for_block_work_across_partition_tasks :: bool where
  "mempool_pending_and_take_for_block_work_across_partition_tasks =
     (let mempool = foldl add_transaction (with_partition_count 4) [with_sender ''alice'' 1, with_sender ''bob'' 2, with_sender ''carol'' 3];
          pending_nonces = map tx_nonce (pending_transactions mempool);
          (selected, mempool') = take_for_block mempool 2 in
      length pending_nonces = 3 \<and> 1 \<in> set pending_nonces \<and> 2 \<in> set pending_nonces \<and> 3 \<in> set pending_nonces \<and>
      length selected = 2 \<and> mempool_len mempool' = 1)"

definition mempool_limits_sender_to_one_hundred_transactions_per_block :: bool where
  "mempool_limits_sender_to_one_hundred_transactions_per_block =
     (let mempool = foldl (\<lambda>m nonce. add_transaction m (with_sender ''alice'' (of_nat nonce))) (with_partition_count 4) [1..<102];
          (selected, mempool') = take_for_block mempool 101 in
      length selected = 100 \<and> length (filter (\<lambda>t. tx_from t = bytes_of ''alice'') selected) = 100 \<and>
      mempool_len mempool' = 1 \<and> tx_nonce (pending_transactions mempool' ! 0) = 101)"

section \<open>Votes\<close>

definition vote_collector_aggregates_weighted_votes :: "'z consensus_env_scheme \<Rightarrow> bytes \<Rightarrow> bytes \<Rightarrow> bytes \<Rightarrow> bool" where
  "vote_collector_aggregates_weighted_votes E a b c =
     (let validators = [validator_from_pair E a 10, validator_from_pair E b 20, validator_from_pair E c 30] in
      passes_tally E validators 6 (replicate 32 3) [(a, True), (b, False), (c, True)] (\<lambda>_ tally.
        approve_stake tally = 40 \<and> reject_stake tally = 20 \<and> total_votes tally = 3))"

definition vote_collector_rejects_duplicate_vote_from_same_validator :: "'z consensus_env_scheme \<Rightarrow> bytes \<Rightarrow> bool" where
  "vote_collector_rejects_duplicate_vote_from_same_validator E k =
     (let validators = [validator_from_pair E k 25] in
      passes (create_signed_vote E 7 (replicate 32 4) True k) (\<lambda>vote.
      passes (collect_vote E VoteCollector_new vote validators) (\<lambda>collector.
        collect_vote E collector vote validators = Inl DuplicateVote)))"

definition vote_collector_rejects_unknown_validator :: "'z consensus_env_scheme \<Rightarrow> bytes \<Rightarrow> bytes \<Rightarrow> bool" where
  "vote_collector_rejects_unknown_validator E k other =
     (let validators = [validator_from_pair E k 25] in
      passes (create_signed_vote E 8 (replicate 32 5) True other) (\<lambda>vote.
        collect_vote E VoteCollector_new vote validators = Inl UnknownValidator))"

definition verify_vote_rejects_invalid_voter_key_length :: "'z consensus_env_scheme \<Rightarrow> bytes \<Rightarrow> bool" where
  "verify_vote_rejects_invalid_voter_key_length E k =
     passes (create_signed_vote E 9 (replicate 32 6) True k) (\<lambda>vote.
       verify_vote E (vote\<lparr>cv_voter := butlast (cv_voter vote)\<rparr>) = Inl InvalidVoterKeyLength)"

definition verify_vote_rejects_invalid_signature_length :: "'z consensus_env_scheme \<Rightarrow> bytes \<Rightarrow> bool" where
  "verify_vote_rejects_invalid_signature_length E k =
     passes (create_signed_vote E 9 (replicate 32 6) True k) (\<lambda>vote.
       verify_vote E (vote\<lparr>cv_signature := butlast (cv_signature vote)\<rparr>) = Inl InvalidSignatureLength)"

section \<open>Finality and fork choice\<close>

definition block_is_not_finalized_at_exact_two_thirds :: "'z consensus_env_scheme \<Rightarrow> bytes \<Rightarrow> bytes \<Rightarrow> bytes \<Rightarrow> bool" where
  "block_is_not_finalized_at_exact_two_thirds E a b c =
     (let validators = [validator_from_pair E a 20, validator_from_pair E b 20, validator_from_pair E c 20] in
      passes_tally E validators 10 (replicate 32 7) [(a, True), (b, True), (c, False)] (\<lambda>_ tally.
        approve_stake tally = 40 \<and> \<not> is_block_finalized tally validators))"

definition block_is_finalized_above_two_thirds_of_weighted_votes :: "'z consensus_env_scheme \<Rightarrow> bytes \<Rightarrow> bytes \<Rightarrow> bytes \<Rightarrow> bool" where
  "block_is_finalized_above_two_thirds_of_weighted_votes E a b c =
     (let validators = [validator_from_pair E a 10, validator_from_pair E b 20, validator_from_pair E c 31] in
      passes_tally E validators 11 (replicate 32 8) [(a, True), (b, True), (c, True)] (\<lambda>_ tally.
        approve_stake tally = 61 \<and> is_block_finalized tally validators))"

definition block_is_not_finalized_when_no_active_stake_exists :: bool where
  "block_is_not_finalized_when_no_active_stake_exists \<longleftrightarrow>
     \<not> is_block_finalized \<lparr>approve_stake = 10, reject_stake = 0, total_votes = 1\<rparr>
         [\<lparr>v_address = bytes_of ''nobody'', v_stake = 0, v_locked_until = 0\<rparr>]"

definition cumulative_chain_weight_sums_approve_stake :: bool where
  "cumulative_chain_weight_sums_approve_stake \<longleftrightarrow>
     cumulative_chain_weight [\<lparr>approve_stake = 40, reject_stake = 20, total_votes = 3\<rparr>,
       \<lparr>approve_stake = 61, reject_stake = 0, total_votes = 3\<rparr>] = 101"

definition test_fork :: "u8 \<Rightarrow> u64 \<Rightarrow> u128 \<Rightarrow> ChainFork" where
  "test_fork b height w = \<lparr>tip_hash = replicate 32 b, fork_height = height, cumulative_stake_weight = w\<rparr>"

definition choose_heaviest_chain_prefers_higher_cumulative_stake :: bool where
  "choose_heaviest_chain_prefers_higher_cumulative_stake \<longleftrightarrow>
     (case choose_heaviest_chain [test_fork 1 10 100, test_fork 2 9 120, test_fork 3 11 90] of
        Some selected \<Rightarrow> tip_hash selected = replicate 32 2 \<and> cumulative_stake_weight selected = 120 | None \<Rightarrow> False)"

definition choose_heaviest_chain_breaks_tie_with_height_then_hash :: bool where
  "choose_heaviest_chain_breaks_tie_with_height_then_hash \<longleftrightarrow>
     (case choose_heaviest_chain [test_fork 1 10 150, test_fork 2 12 150, test_fork 3 12 150] of
        Some selected \<Rightarrow> tip_hash selected = replicate 32 3 \<and> fork_height selected = 12 | None \<Rightarrow> False)"

definition choose_heaviest_chain_returns_none_for_empty_input :: bool where
  "choose_heaviest_chain_returns_none_for_empty_input \<longleftrightarrow> choose_heaviest_chain [] = None"

section \<open>Slashing\<close>

text \<open>Two votes of one key, both with \<open>expect\<close>.\<close>

definition passes_votes :: "'z consensus_env_scheme \<Rightarrow> bytes \<Rightarrow> u64 \<Rightarrow> u8 \<Rightarrow> bool \<Rightarrow> u64 \<Rightarrow> u8 \<Rightarrow> bool
    \<Rightarrow> (ConsensusVote \<Rightarrow> ConsensusVote \<Rightarrow> bool) \<Rightarrow> bool" where
  "passes_votes E k h1 b1 approve1 h2 b2 approve2 P =
     passes (create_signed_vote E h1 (replicate 32 b1) approve1 k) (\<lambda>fv.
     passes (create_signed_vote E h2 (replicate 32 b2) approve2 k) (P fv))"

definition detect_double_vote_accepts_valid_conflicting_votes :: "'z consensus_env_scheme \<Rightarrow> bytes \<Rightarrow> bool" where
  "detect_double_vote_accepts_valid_conflicting_votes E k =
     passes_votes E k 12 9 True 12 8 True (\<lambda>fv sv.
       passes (detect_double_vote E fv sv) (\<lambda>proof. first_vote proof = fv \<and> second_vote proof = sv))"

definition detect_double_vote_rejects_same_block_hash :: "'z consensus_env_scheme \<Rightarrow> bytes \<Rightarrow> bool" where
  "detect_double_vote_rejects_same_block_hash E k =
     passes_votes E k 13 7 True 13 7 False (\<lambda>fv sv. detect_double_vote E fv sv = Inl SameBlockHash)"

definition detect_double_vote_rejects_different_heights :: "'z consensus_env_scheme \<Rightarrow> bytes \<Rightarrow> bool" where
  "detect_double_vote_rejects_different_heights E k =
     passes_votes E k 14 6 True 15 5 True (\<lambda>fv sv. detect_double_vote E fv sv = Inl DifferentHeights)"

definition slash_validator_for_double_vote_reduces_stake :: "'z consensus_env_scheme \<Rightarrow> bytes \<Rightarrow> bool" where
  "slash_validator_for_double_vote_reduces_stake E k =
     (let validator = validator_from_pair E k 1000 in
      passes_votes E k 17 2 True 17 1 True (\<lambda>fv sv.
      passes (detect_double_vote E fv sv) (\<lambda>proof.
      passes (slash_validator_for_double_vote validator proof 1500) (\<lambda>slashed.
        v_address slashed = v_address validator \<and> v_locked_until slashed = v_locked_until validator \<and> v_stake slashed = 850))))"

definition slash_validator_for_double_vote_rejects_invalid_penalty_bps :: "'z consensus_env_scheme \<Rightarrow> bytes \<Rightarrow> bool" where
  "slash_validator_for_double_vote_rejects_invalid_penalty_bps E k =
     passes_votes E k 18 11 True 18 12 True (\<lambda>fv sv.
     passes (detect_double_vote E fv sv) (\<lambda>proof.
       slash_validator_for_double_vote (validator_from_pair E k 1000) proof 0 = Inl InvalidPenaltyBps))"

definition slash_validator_for_double_vote_rejects_mismatched_validator :: "'z consensus_env_scheme \<Rightarrow> bytes \<Rightarrow> bytes \<Rightarrow> bool" where
  "slash_validator_for_double_vote_rejects_mismatched_validator E a b =
     passes_votes E b 19 13 True 19 14 True (\<lambda>fv sv.
     passes (detect_double_vote E fv sv) (\<lambda>proof.
       slash_validator_for_double_vote (validator_from_pair E a 1000) proof 500 = Inl ValidatorDoesNotMatchProof))"

section \<open>Rewards\<close>

definition total_transaction_fees_sums_fees_across_transactions :: bool where
  "total_transaction_fees_sums_fees_across_transactions \<longleftrightarrow>
     total_transaction_fees [test_transaction 1, test_transaction 2, test_transaction 3] = Inr (FIXED_TRANSACTION_FEE * 3)"

definition annualized_inflation_reward_matches_two_percent_for_one_year :: bool where
  "annualized_inflation_reward_matches_two_percent_for_one_year \<longleftrightarrow>
     annualized_inflation_reward 10000 SECONDS_PER_YEAR = 200"

definition reward_of :: "bytes \<Rightarrow> ValidatorReward list \<Rightarrow> u64 option" where
  "reward_of address rewards = map_option vr_amount (find (\<lambda>r. vr_validator r = address) rewards)"

definition distribute_voting_rewards_splits_pool_across_voting_validators_only :: "'z consensus_env_scheme \<Rightarrow> bytes \<Rightarrow> bytes \<Rightarrow> bytes \<Rightarrow> bool" where
  "distribute_voting_rewards_splits_pool_across_voting_validators_only E a b c =
     (let validators = [validator_from_pair E a 25, validator_from_pair E b 75, validator_from_pair E c 100] in
      passes (cast_votes E validators 20 (replicate 32 21) [(a, True), (b, True)] VoteCollector_new) (\<lambda>collector.
      passes (distribute_voting_rewards validators collector [test_transaction 1, test_transaction 2] SECONDS_PER_YEAR) (\<lambda>rewards.
        length rewards = 2 \<and> reward_of (signing_public E c) rewards = None \<and>
        (case (reward_of (signing_public E a) rewards, reward_of (signing_public E b) rewards) of
           (Some amount_a, Some amount_b) \<Rightarrow> amount_a + amount_b = 6 \<and>
             (amount_a = 2 \<and> amount_b = 4 \<or> amount_a = 1 \<and> amount_b = 5)
         | _ \<Rightarrow> False))))"

definition distribute_voting_rewards_rejects_empty_vote_set :: "'z env_scheme \<Rightarrow> bytes \<Rightarrow> bool" where
  "distribute_voting_rewards_rejects_empty_vote_set E k \<longleftrightarrow>
     distribute_voting_rewards [validator_from_pair E k 50] VoteCollector_new [test_transaction 1] SECONDS_PER_YEAR = Inl NoVotingStake"

section \<open>Simulations\<close>

definition four_validator_simulation_covers_selection_fork_and_slashing :: "'z consensus_env_scheme \<Rightarrow> bytes \<Rightarrow> bytes \<Rightarrow> bytes \<Rightarrow> bytes \<Rightarrow> bool" where
  "four_validator_simulation_covers_selection_fork_and_slashing E a b c d =
     (let validators = [validator_from_pair E a 40, validator_from_pair E b 30, validator_from_pair E c 20, validator_from_pair E d 10] in
      passes (select_proposer E validators (replicate 32 42) 21) (\<lambda>r. passes r (\<lambda>selected.
        list_ex (\<lambda>v. v_address v = v_address selected) validators)) \<and>
      passes_tally E validators 21 (replicate 32 1) [(a, True), (b, True), (c, True)] (\<lambda>_ winning_tally.
        approve_stake winning_tally = 90 \<and> is_block_finalized winning_tally validators \<and>
      passes_tally E validators 21 (replicate 32 2) [(d, True)] (\<lambda>_ losing_tally.
        approve_stake losing_tally = 10 \<and> \<not> is_block_finalized losing_tally validators \<and>
        (case choose_heaviest_chain [test_fork 1 21 (cumulative_chain_weight [winning_tally]),
            test_fork 2 21 (cumulative_chain_weight [losing_tally])] of
           Some selected \<Rightarrow> tip_hash selected = replicate 32 1 \<and> cumulative_stake_weight selected = 90 | None \<Rightarrow> False))) \<and>
      passes_votes E d 21 1 True 21 2 True (\<lambda>fv sv.
      passes (detect_double_vote E fv sv) (\<lambda>proof.
      passes (slash_validator_for_double_vote (validators ! 3) proof 2500) (\<lambda>slashed. v_stake slashed = 8))))"

definition byzantine_thirty_three_percent_attack_does_not_break_finalization :: "'z consensus_env_scheme \<Rightarrow> bytes \<Rightarrow> bytes \<Rightarrow> bytes \<Rightarrow> bool" where
  "byzantine_thirty_three_percent_attack_does_not_break_finalization E a b c =
     (let validators = [validator_from_pair E a 34, validator_from_pair E b 33, validator_from_pair E c 33] in
      passes_tally E validators 23 (replicate 32 7) [(a, True), (b, True)] (\<lambda>_ honest_tally.
        approve_stake honest_tally = 67 \<and> is_block_finalized honest_tally validators \<and>
      passes_tally E validators 23 (replicate 32 8) [(c, True)] (\<lambda>_ byzantine_tally.
        approve_stake byzantine_tally = 33 \<and> \<not> is_block_finalized byzantine_tally validators \<and>
        (case choose_heaviest_chain [test_fork 7 23 (cumulative_chain_weight [honest_tally]),
            test_fork 8 23 (cumulative_chain_weight [byzantine_tally])] of
           Some selected \<Rightarrow> tip_hash selected = replicate 32 7 \<and> cumulative_stake_weight selected = 67 | None \<Rightarrow> False))))"

section \<open>Proposals\<close>

text \<open>\<open>propose_block\<close> with \<open>expect\<close>: assertions on the mempool afterwards and on the block.\<close>

definition passes_proposal :: "'z env_scheme \<Rightarrow> bytes \<Rightarrow> u64 \<Rightarrow> u8 \<Rightarrow> u64 \<Rightarrow> u64 \<Rightarrow> Mempool \<Rightarrow> nat \<Rightarrow> (Mempool \<Rightarrow> Block \<Rightarrow> bool) \<Rightarrow> bool" where
  "passes_proposal E k stake prev height timestamp mempool n P =
     passes (propose_block E (validator_from_pair E k stake) k (replicate 32 prev) height timestamp mempool n) (\<lambda>(mempool', r).
     passes r (P mempool'))"

definition propose_block_builds_signed_block_from_mempool :: "'z env_scheme \<Rightarrow> bytes \<Rightarrow> nat option \<Rightarrow> bool" where
  "propose_block_builds_signed_block_from_mempool E k parallelism =
     (let mempool = foldl add_transaction (Mempool_default parallelism) [test_transaction 1, test_transaction 2] in
      passes_proposal E k 100000 7 2 1710000123 mempool 10 (\<lambda>mempool' block.
        h_height (b_header block) = 2 \<and> h_previous_hash (b_header block) = replicate 32 7 \<and>
        h_validator (b_header block) = v_address (validator_from_pair E k 100000) \<and> length (b_transactions block) = 2 \<and>
        mempool_is_empty mempool' \<and> passes (validate_block E block (replicate 32 7)) is_ok))"

definition propose_block_respects_transaction_limit_and_keeps_rest_in_mempool :: "'z env_scheme \<Rightarrow> bytes \<Rightarrow> nat option \<Rightarrow> bool" where
  "propose_block_respects_transaction_limit_and_keeps_rest_in_mempool E k parallelism =
     (let mempool = foldl add_transaction (Mempool_default parallelism) [test_transaction 1, test_transaction 2, test_transaction 3] in
      passes_proposal E k 100000 8 3 1710000456 mempool 2 (\<lambda>mempool' block.
        length (b_transactions block) = 2 \<and> mempool_len mempool' = 1 \<and> tx_nonce (pending_transactions mempool' ! 0) = 3))"

text \<open>The search for one sender in each of the needed partitions, which fails at ten thousand candidates.\<close>

function search_senders :: "Mempool \<Rightarrow> string \<Rightarrow> nat list \<Rightarrow> nat \<Rightarrow> bytes option list \<Rightarrow> bytes option list option" where
  "search_senders mempool prefix needed candidate senders_by_partition =
     (if list_all (\<lambda>p. senders_by_partition ! p \<noteq> None) needed then Some senders_by_partition
      else let sender = bytes_of (prefix @ decimal candidate);
               partition = partition_for_address mempool sender;
               senders_by_partition' = (if senders_by_partition ! partition = None then senders_by_partition[partition := Some sender]
                                        else senders_by_partition)
           in if candidate + 1 < 10000 then search_senders mempool prefix needed (candidate + 1) senders_by_partition' else None)"
  by pat_completeness auto
termination
  by (relation "measure (\<lambda>(_, _, _, candidate, _). 10000 - candidate)") auto

declare search_senders.simps [simp del]

definition propose_block_can_pull_transactions_from_all_partitions :: "'z env_scheme \<Rightarrow> bytes \<Rightarrow> bool" where
  "propose_block_can_pull_transactions_from_all_partitions E k =
     (case search_senders (with_partition_count 4) ''sender-'' [0, 1, 2, 3] 0 (replicate 4 None) of
        None \<Rightarrow> False
      | Some senders_by_partition \<Rightarrow>
          let mempool = foldl (\<lambda>m (nonce, sender). add_transaction m ((test_transaction (of_nat nonce))\<lparr>tx_from := the sender\<rparr>))
                (with_partition_count 4) (List.enumerate 1 senders_by_partition) in
          passes_proposal E k 100000 9 5 1710000999 mempool 4 (\<lambda>mempool' block.
            let selected_nonces = map tx_nonce (b_transactions block) in
            length (b_transactions block) = 4 \<and> 1 \<in> set selected_nonces \<and> 2 \<in> set selected_nonces \<and>
            3 \<in> set selected_nonces \<and> 4 \<in> set selected_nonces \<and> mempool_is_empty mempool'))"

definition dex_transaction :: "u64 \<Rightarrow> bytes option \<Rightarrow> Transaction" where
  "dex_transaction nonce sender = (test_transaction nonce)\<lparr>tx_from := the sender, tx_to := bytes_of ''dex-pool''\<rparr>"

definition propose_block_does_not_preserve_global_submission_order :: "'z env_scheme \<Rightarrow> bytes \<Rightarrow> bool" where
  "propose_block_does_not_preserve_global_submission_order E k =
     (case search_senders (with_partition_count 4) ''sandwich-sender-'' [0, 1, 3] 0 (replicate 4 None) of
        None \<Rightarrow> False
      | Some senders_by_partition \<Rightarrow>
          let attacker_before = dex_transaction 1 (senders_by_partition ! 0);
              victim = dex_transaction 2 (senders_by_partition ! 3);
              attacker_after = dex_transaction 3 (senders_by_partition ! 1);
              mempool = foldl add_transaction (with_partition_count 4) [attacker_before, victim, attacker_after] in
          passes_proposal E k 100000 10 6 1710001111 mempool 3 (\<lambda>_ block.
            let selected_nonces = map tx_nonce (b_transactions block) in
            selected_nonces = [1, 3, 2] \<and> selected_nonces \<noteq> [1, 2, 3] \<and>
            (case (position (\<lambda>nonce. nonce = 1) selected_nonces, position (\<lambda>nonce. nonce = 2) selected_nonces,
                  position (\<lambda>nonce. nonce = 3) selected_nonces) of
               (Some attacker_before_index, Some victim_index, Some attacker_after_index) \<Rightarrow>
                 \<not> (attacker_before_index < victim_index \<and> victim_index < attacker_after_index)
             | _ \<Rightarrow> False)))"

definition create_and_verify_vote_roundtrip :: "'z consensus_env_scheme \<Rightarrow> bytes \<Rightarrow> nat option \<Rightarrow> bool" where
  "create_and_verify_vote_roundtrip E k parallelism =
     passes_proposal E k 100000 1 4 1710000789 (Mempool_default parallelism) 1 (\<lambda>_ block.
     passes (hash_block_header E (b_header block)) (\<lambda>block_hash.
     passes (create_signed_vote E (h_height (b_header block)) block_hash True k) (\<lambda>vote. verify_vote E vote = Inr True)))"

definition finalization_benchmark :: "'z consensus_env_scheme \<Rightarrow> bytes \<Rightarrow> bytes \<Rightarrow> bytes \<Rightarrow> bytes \<Rightarrow> nat option \<Rightarrow> bool" where
  "finalization_benchmark E a b c d parallelism =
     (let validators = [validator_from_pair E a 40, validator_from_pair E b 30, validator_from_pair E c 20, validator_from_pair E d 10] in
      passes (select_proposer E validators (replicate 32 55) 22) (\<lambda>r. passes r (\<lambda>proposer.
      let sk = (if v_address proposer = signing_public E a then a else if v_address proposer = signing_public E b then b
                else if v_address proposer = signing_public E c then c else d);
          mempool = foldl (\<lambda>m nonce. add_transaction m (test_transaction (of_nat nonce))) (Mempool_default parallelism) [1..<101] in
      passes (propose_block E proposer sk (replicate 32 9) 22 1710001111 mempool 100) (\<lambda>(_, r). passes r (\<lambda>block.
      passes (hash_block_header E (b_header block)) (\<lambda>block_hash.
        passes_tally E validators 22 block_hash [(a, True), (b, True), (c, True), (d, True)] (\<lambda>_ tally.
          is_block_finalized tally validators)))))))"

end
