(* ===== verification/ShardingTests.thy ===== *)
theory ShardingTests
  imports Beacon CrossShard ConsensusTests
begin

text \<open>
  The unit tests of \<open>src/src/sharding/mod.rs\<close> as scenarios of the model, in the form of
  \<open>ConsensusTests\<close>: configuration, committees, state roots, consensus in a shard, and the phases of a
  cross-shard transaction. Key pairs and the codec of transactions are arguments.
\<close>

unbundle bit_operations_syntax

section \<open>Fixtures\<close>

definition validator_with_id :: "u8 \<Rightarrow> u64 \<Rightarrow> Validator" where
  "validator_with_id i stake = \<lparr>v_address = replicate 32 i, v_stake = stake, v_locked_until = 1710000000\<rparr>"

definition shard_validator_from_pair :: "'z env_scheme \<Rightarrow> bytes \<Rightarrow> u64 \<Rightarrow> Validator" where
  "shard_validator_from_pair E sk stake = \<lparr>v_address = signing_public E sk, v_stake = stake, v_locked_until = 1710000000\<rparr>"

definition sample_cross_shard_transaction :: "u16 \<Rightarrow> u16 \<Rightarrow> u64 \<Rightarrow> Transaction" where
  "sample_cross_shard_transaction source_shard destination_shard nonce =
     \<lparr>tx_type = Transfer, tx_from = replicate 32 1, tx_to = replicate 32 2, tx_amount = 42, tx_fee = FIXED_TRANSACTION_FEE,
      tx_nonce = nonce, tx_source_shard = source_shard, tx_destination_shard = destination_shard,
      tx_signature = replicate 64 9, tx_data = Some (bytes_of ''cross-shard'')\<rparr>"

definition shard_block :: "bytes \<Rightarrow> Block" where
  "shard_block merkle_root =
     \<lparr>b_header = \<lparr>h_version = 1, h_previous_hash = replicate 32 0, h_merkle_root = merkle_root, h_timestamp = 1710000000,
        h_height = 1, h_validator = replicate 32 7, h_signature = replicate 64 6\<rparr>,
      b_transactions = [], b_receipts = []\<rparr>"

text \<open>A checked configuration and the beacon chain built from it.\<close>

definition passes_beacon :: "u16 \<Rightarrow> Validator list \<Rightarrow> (BeaconChain \<Rightarrow> bool) \<Rightarrow> bool" where
  "passes_beacon n validators P = passes (ShardingConfig_new n) (\<lambda>cfg. passes (BeaconChain_new cfg validators) P)"

section \<open>Configuration\<close>

definition custom_shard_count_must_be_a_power_of_two :: bool where
  "custom_shard_count_must_be_a_power_of_two \<longleftrightarrow> ShardingConfig_new 63 = Inl (ShardCountMustBePowerOfTwo 63)"

definition governance_can_update_shard_count_to_another_power_of_two :: bool where
  "governance_can_update_shard_count_to_another_power_of_two \<longleftrightarrow>
     passes (apply_governance_update ShardingConfig_default 128) (\<lambda>cfg. shard_count cfg = 128)"

section \<open>Committees\<close>

definition beacon_chain_assigns_all_active_validators_to_committees :: bool where
  "beacon_chain_assigns_all_active_validators_to_committees =
     passes_beacon 4 [validator_with_id 1 10, validator_with_id 2 20, validator_with_id 3 30, validator_with_id 4 0] (\<lambda>beacon_chain.
       let committees = committees_for_epoch beacon_chain 0;
           assigned_addresses = sort (concat (map validator_addresses committees)) in
       length committees = 4 \<and> length assigned_addresses = 3 \<and> replicate 32 1 \<in> set assigned_addresses \<and>
       replicate 32 2 \<in> set assigned_addresses \<and> replicate 32 3 \<in> set assigned_addresses \<and>
       replicate 32 4 \<notin> set assigned_addresses)"

definition epoch_changes_assignment_score :: bool where
  "epoch_changes_assignment_score \<longleftrightarrow> assignment_score 0 (replicate 32 7) \<noteq> assignment_score 1 (replicate 32 7)"

section \<open>State roots\<close>

definition shard_state_roots_are_initialized_and_updatable :: bool where
  "shard_state_roots_are_initialized_and_updatable =
     passes_beacon 2 [validator_with_id 1 10, validator_with_id 2 20] (\<lambda>beacon_chain.
       state_root_for_shard beacon_chain 0 0 = Some EMPTY_SHARD_STATE_ROOT \<and>
       passes (store_shard_state_root beacon_chain 0 0 (replicate SHARD_STATE_ROOT_LENGTH 9)) (\<lambda>beacon_chain.
         state_root_for_shard beacon_chain 0 0 = Some (replicate SHARD_STATE_ROOT_LENGTH 9)))"

definition beacon_chain_updates_shard_state_root_from_block :: bool where
  "beacon_chain_updates_shard_state_root_from_block =
     passes_beacon 2 [validator_with_id 1 10, validator_with_id 2 20] (\<lambda>beacon_chain.
     passes (update_shard_state_root_from_block beacon_chain 0 1 (shard_block (replicate SHARD_STATE_ROOT_LENGTH 7))) (\<lambda>beacon_chain.
       state_root_for_shard beacon_chain 0 1 = Some (replicate SHARD_STATE_ROOT_LENGTH 7)))"

definition beacon_chain_tracks_shard_state_updates_across_epochs :: bool where
  "beacon_chain_tracks_shard_state_updates_across_epochs =
     passes_beacon 2 [validator_with_id 1 10, validator_with_id 2 20] (\<lambda>beacon_chain.
     passes (update_shard_state_root_from_block beacon_chain 0 0 (shard_block (replicate SHARD_STATE_ROOT_LENGTH 3))) (\<lambda>beacon_chain.
     passes (advance_epoch beacon_chain) (\<lambda>beacon_chain.
     passes (update_shard_state_root_from_block beacon_chain 1 0 (shard_block (replicate SHARD_STATE_ROOT_LENGTH 4))) (\<lambda>beacon_chain.
       state_root_for_shard beacon_chain 0 0 = Some (replicate SHARD_STATE_ROOT_LENGTH 3) \<and>
       state_root_for_shard beacon_chain 1 0 = Some (replicate SHARD_STATE_ROOT_LENGTH 4) \<and>
       state_root_for_shard beacon_chain 1 1 = Some EMPTY_SHARD_STATE_ROOT))))"

definition storing_state_root_rejects_invalid_shard_id :: bool where
  "storing_state_root_rejects_invalid_shard_id =
     passes_beacon 2 [validator_with_id 1 10] (\<lambda>beacon_chain.
       store_shard_state_root beacon_chain 0 2 (replicate SHARD_STATE_ROOT_LENGTH 1) = Inl (InvalidShardId 2 2))"

text \<open>Root updates of shards of epoch 0, each with \<open>expect\<close>.\<close>

fun update_roots :: "(u16 \<times> u8) list \<Rightarrow> BeaconChain \<Rightarrow> (BeaconChain, BeaconChainError) result" where
  "update_roots [] beacon_chain = Inr beacon_chain"
| "update_roots ((shard, b) # updates) beacon_chain =
     and_then (update_shard_state_root_from_block beacon_chain 0 shard (shard_block (replicate 32 b))) (update_roots updates)"

definition compromised_shard_state_root_does_not_affect_other_shards :: bool where
  "compromised_shard_state_root_does_not_affect_other_shards =
     passes_beacon 4 [validator_with_id 1 10, validator_with_id 2 20, validator_with_id 3 30, validator_with_id 4 40] (\<lambda>beacon_chain.
     passes (update_roots [(0, 10), (1, 11), (2, 12), (3, 13), (1, 99)] beacon_chain) (\<lambda>beacon_chain.
       state_root_for_shard beacon_chain 0 0 = Some (replicate 32 10) \<and>
       state_root_for_shard beacon_chain 0 1 = Some (replicate 32 99) \<and>
       state_root_for_shard beacon_chain 0 2 = Some (replicate 32 12) \<and>
       state_root_for_shard beacon_chain 0 3 = Some (replicate 32 13)))"

section \<open>Consensus in a shard\<close>

text \<open>The beacon chain of four keys on two shards and the consensus of shard 0.\<close>

definition passes_shard :: "'z env_scheme \<Rightarrow> bytes \<Rightarrow> bytes \<Rightarrow> bytes \<Rightarrow> bytes \<Rightarrow> (BeaconChain \<Rightarrow> ShardConsensus \<Rightarrow> bool) \<Rightarrow> bool" where
  "passes_shard E a b c d P =
     passes_beacon 2 [shard_validator_from_pair E a 10, shard_validator_from_pair E b 20, shard_validator_from_pair E c 30,
        shard_validator_from_pair E d 40] (\<lambda>beacon_chain. passes (consensus_for_shard beacon_chain 0 0) (P beacon_chain))"

definition beacon_chain_builds_shard_consensus_from_committee :: "'z env_scheme \<Rightarrow> bytes \<Rightarrow> bytes \<Rightarrow> bytes \<Rightarrow> bytes \<Rightarrow> bool" where
  "beacon_chain_builds_shard_consensus_from_committee E a b c d =
     passes_shard E a b c d (\<lambda>beacon_chain shard_consensus.
       (case committee_for_shard beacon_chain 0 0 of
          Some assignment \<Rightarrow> sort (map v_address (committee shard_consensus)) = sort (validator_addresses assignment)
        | None \<Rightarrow> False) \<and> shard_vote_count shard_consensus = 0)"

fun committee_votes :: "'z consensus_env_scheme \<Rightarrow> bytes list \<Rightarrow> bytes list \<Rightarrow> ShardConsensus
    \<Rightarrow> (ShardConsensus, ShardConsensusError) result option" where
  "committee_votes E pairs [] shard_consensus = Some (Inr shard_consensus)"
| "committee_votes E pairs (address # addresses) shard_consensus =
     (case find (\<lambda>pair. signing_public E pair = address) pairs of
        None \<Rightarrow> None
      | Some pair \<Rightarrow>
          (case create_signed_vote E 12 (replicate 32 7) True pair of
             Inl _ \<Rightarrow> None
           | Inr vote \<Rightarrow>
               (case shard_collect_vote E shard_consensus vote of
                  Inl e \<Rightarrow> Some (Inl e)
                | Inr shard_consensus' \<Rightarrow> committee_votes E pairs addresses shard_consensus')))"

definition shard_consensus_finalizes_block_with_its_committee_votes ::
  "'z consensus_env_scheme \<Rightarrow> bytes \<Rightarrow> bytes \<Rightarrow> bytes \<Rightarrow> bytes \<Rightarrow> bool" where
  "shard_consensus_finalizes_block_with_its_committee_votes E a b c d =
     passes_shard E a b c d (\<lambda>_ shard_consensus.
       case committee_votes E [a, b, c, d] (map v_address (committee shard_consensus)) shard_consensus of
         None \<Rightarrow> False
       | Some r \<Rightarrow> passes r (\<lambda>shard_consensus.
           passes (shard_tally shard_consensus) (\<lambda>r. passes r (\<lambda>tally.
             total_votes tally = length (committee shard_consensus))) \<and>
           passes (shard_is_finalized shard_consensus) (\<lambda>r. passes r (\<lambda>final. final))))"

definition shard_consensus_rejects_vote_from_validator_outside_committee ::
  "'z consensus_env_scheme \<Rightarrow> bytes \<Rightarrow> bytes \<Rightarrow> bytes \<Rightarrow> bytes \<Rightarrow> bool" where
  "shard_consensus_rejects_vote_from_validator_outside_committee E a b c d =
     passes_shard E a b c d (\<lambda>_ shard_consensus.
       case find (\<lambda>pair. signing_public E pair \<notin> set (map v_address (committee shard_consensus))) [a, b, c, d] of
         None \<Rightarrow> False
       | Some outsider_pair \<Rightarrow> passes (create_signed_vote E 13 (replicate 32 8) True outsider_pair) (\<lambda>vote.
           shard_collect_vote E shard_consensus vote = Inl (SC_Vote UnknownValidator)))"

section \<open>Cross-shard transactions\<close>

definition two_ids :: "Validator list" where
  "two_ids = [validator_with_id 1 10, validator_with_id 2 20]"

definition four_ids :: "Validator list" where
  "four_ids = [validator_with_id 1 10, validator_with_id 2 20, validator_with_id 3 30, validator_with_id 4 40]"

definition prepare_rejects_same_shard_transaction :: "'z env_scheme \<Rightarrow> bool" where
  "prepare_rejects_same_shard_transaction E = passes_beacon 4 two_ids (\<lambda>beacon_chain.
     prepare_cross_shard_transaction E beacon_chain (sample_cross_shard_transaction 1 1 7) = Inl NotCrossShard)"

definition prepare_rejects_invalid_source_shard :: "'z env_scheme \<Rightarrow> bool" where
  "prepare_rejects_invalid_source_shard E = passes_beacon 4 two_ids (\<lambda>beacon_chain.
     prepare_cross_shard_transaction E beacon_chain (sample_cross_shard_transaction 4 1 7) =
       Inl (XS_BeaconChain (InvalidShardId 4 4)))"

definition prepare_rejects_invalid_destination_shard :: "'z env_scheme \<Rightarrow> bool" where
  "prepare_rejects_invalid_destination_shard E = passes_beacon 4 two_ids (\<lambda>beacon_chain.
     prepare_cross_shard_transaction E beacon_chain (sample_cross_shard_transaction 1 4 7) =
       Inl (XS_BeaconChain (InvalidShardId 4 4)))"

definition cross_shard_transaction_prepare_validate_commit_generates_receipts :: "'z env_scheme \<Rightarrow> bool" where
  "cross_shard_transaction_prepare_validate_commit_generates_receipts E = passes_beacon 4 four_ids (\<lambda>beacon_chain.
     passes (prepare_cross_shard_transaction E beacon_chain (sample_cross_shard_transaction 0 3 9)) (\<lambda>execution.
       source_prepared execution \<and> \<not> destination_validated execution \<and> \<not> xs_committed execution \<and>
       length (xs_receipts execution) = 1 \<and> r_phase (xs_receipts execution ! 0) = Prepare \<and>
       length (r_proof (xs_receipts execution ! 0)) = RECEIPT_PROOF_LENGTH \<and>
     passes (validate_cross_shard_transaction beacon_chain execution) (\<lambda>execution.
       destination_validated execution \<and> length (xs_receipts execution) = 2 \<and>
       r_phase (xs_receipts execution ! 1) = Validate \<and> length (r_proof (xs_receipts execution ! 1)) = RECEIPT_PROOF_LENGTH \<and>
     passes (commit_cross_shard_transaction beacon_chain execution) (\<lambda>execution.
       xs_committed execution \<and> length (xs_receipts execution) = 3 \<and>
       map r_phase (xs_receipts execution) = [Prepare, Validate, Commit] \<and>
       list_all (\<lambda>receipt. r_tx_hash receipt = xs_tx_hash execution) (xs_receipts execution)))))"

definition cross_shard_commit_requires_destination_validation :: "'z env_scheme \<Rightarrow> bool" where
  "cross_shard_commit_requires_destination_validation E = passes_beacon 4 two_ids (\<lambda>beacon_chain.
     passes (prepare_cross_shard_transaction E beacon_chain (sample_cross_shard_transaction 0 1 11)) (\<lambda>execution.
       commit_cross_shard_transaction beacon_chain execution = Inl DestinationShardNotValidated))"

text \<open>The first two and all three phases, each with \<open>expect\<close>.\<close>

definition passes_validated :: "'z env_scheme \<Rightarrow> Validator list \<Rightarrow> Transaction \<Rightarrow> (BeaconChain \<Rightarrow> CrossShardExecution \<Rightarrow> bool) \<Rightarrow> bool" where
  "passes_validated E validators transaction P = passes_beacon 4 validators (\<lambda>beacon_chain.
     passes (prepare_cross_shard_transaction E beacon_chain transaction) (\<lambda>execution.
     passes (validate_cross_shard_transaction beacon_chain execution) (P beacon_chain)))"

definition passes_committed :: "'z env_scheme \<Rightarrow> Validator list \<Rightarrow> Transaction \<Rightarrow> (BeaconChain \<Rightarrow> CrossShardExecution \<Rightarrow> bool) \<Rightarrow> bool" where
  "passes_committed E validators transaction P = passes_validated E validators transaction (\<lambda>beacon_chain execution.
     passes (commit_cross_shard_transaction beacon_chain execution) (P beacon_chain))"

definition beacon_chain_validates_cross_shard_proofs_and_global_finality :: "'z env_scheme \<Rightarrow> bool" where
  "beacon_chain_validates_cross_shard_proofs_and_global_finality E =
     passes_committed E four_ids (sample_cross_shard_transaction 0 3 21) (\<lambda>beacon_chain execution.
       is_ok (validate_cross_shard_execution_proofs beacon_chain execution) \<and>
       passes (is_cross_shard_execution_globally_finalized beacon_chain execution) (\<lambda>final. final))"

definition cross_shard_global_finality_is_false_until_commit_phase :: "'z env_scheme \<Rightarrow> bool" where
  "cross_shard_global_finality_is_false_until_commit_phase E =
     passes_validated E two_ids (sample_cross_shard_transaction 1 2 22) (\<lambda>beacon_chain execution.
       is_ok (validate_cross_shard_execution_proofs beacon_chain execution) \<and>
       passes (is_cross_shard_execution_globally_finalized beacon_chain execution) (\<lambda>final. \<not> final))"

definition flip_proof_byte :: "CrossShardReceipt \<Rightarrow> CrossShardReceipt" where
  "flip_proof_byte receipt = receipt\<lparr>r_proof := (r_proof receipt)[0 := (r_proof receipt ! 0) XOR 0xFF]\<rparr>"

definition beacon_chain_rejects_tampered_cross_shard_receipt_proof :: "'z env_scheme \<Rightarrow> bool" where
  "beacon_chain_rejects_tampered_cross_shard_receipt_proof E =
     passes_committed E four_ids (sample_cross_shard_transaction 0 3 23) (\<lambda>beacon_chain execution.
       validate_cross_shard_execution_proofs beacon_chain
         (execution\<lparr>xs_receipts := (xs_receipts execution)[1 := flip_proof_byte (xs_receipts execution ! 1)]\<rparr>) =
       Inl (InvalidReceiptProof Validate))"

definition receipts_can_be_included_in_block :: "'z env_scheme \<Rightarrow> bool" where
  "receipts_can_be_included_in_block E =
     passes_committed E two_ids (sample_cross_shard_transaction 1 2 13) (\<lambda>_ execution.
       let block = include_receipts_in_block (shard_block (replicate 32 1)) execution in
       length (b_receipts block) = 3 \<and> r_phase (b_receipts block ! 0) = Prepare \<and> r_phase (b_receipts block ! 1) = Validate \<and>
       r_phase (b_receipts block ! 2) = Commit \<and>
       list_all (\<lambda>receipt. length (r_proof receipt) = RECEIPT_PROOF_LENGTH) (b_receipts block))"

end
