(* ===== verification/ConsensusRuns.thy ===== *)
theory ConsensusRuns
  imports ConsensusTests
begin

text \<open>
  The scenarios of \<open>ConsensusTests\<close> hold, for every signature scheme with the laws of Ed25519, every
  hash with 32 bytes and every choice of different keys.
\<close>

section \<open>The scenarios hold\<close>

text \<open>Votes can be encoded, and the generated keys are different keys of 32 bytes.\<close>

definition test_setting :: "'z consensus_env_scheme \<Rightarrow> bytes list \<Rightarrow> bool" where
  "test_setting E ks \<longleftrightarrow> ed25519_spec E \<and> sha256_spec E \<and> (\<forall>v. \<exists>b. serialize (bc_vote E) v = Inr b) \<and>
     list_all (\<lambda>k. length k = 32) ks \<and> distinct (map (signing_public E) ks)"

definition signed_vote :: "'z consensus_env_scheme \<Rightarrow> u64 \<Rightarrow> bytes \<Rightarrow> bool \<Rightarrow> bytes \<Rightarrow> ConsensusVote" where
  "signed_vote E h block_hash approve sk = projr (create_signed_vote E h block_hash approve sk)"

lemma signed_vote:
  assumes "test_setting E ks" and "sk \<in> set ks"
  shows "create_signed_vote E h x approve sk = Inr (signed_vote E h x approve sk) \<and>
    verify_vote E (signed_vote E h x approve sk) = Inr True \<and> cv_voter (signed_vote E h x approve sk) = signing_public E sk \<and>
    cv_height (signed_vote E h x approve sk) = h \<and> cv_block_hash (signed_vote E h x approve sk) = x \<and>
    cv_approve (signed_vote E h x approve sk) = approve \<and> length (cv_signature (signed_vote E h x approve sk)) = 64 \<and>
    length (signing_public E sk) = 32"
proof -
  have spec: "ed25519_spec E" "length sk = 32" "\<forall>v. \<exists>b. serialize (bc_vote E) v = Inr b"
    using assms by (auto simp: test_setting_def list_all_iff)
  obtain v where v: "create_signed_vote E h x approve sk = Inr v" "length (cv_signature v) = 64"
  proof -
    let ?u = "\<lparr>cv_height = h, cv_block_hash = x, cv_voter = signing_public E sk, cv_approve = approve, cv_signature = []\<rparr>"
    obtain b where "serialize (bc_vote E) ?u = Inr b" using spec(3) by blast
    with that spec(1,2) show thesis by (simp add: create_signed_vote_def unsigned_vote_bytes_def ed25519_spec_def)
  qed
  from create_signed_vote_verifies [OF spec(1,2) v(1)] v spec(1,2) show ?thesis
    by (simp add: signed_vote_def ed25519_spec_def)
qed

lemma test_senders:
  "bytes_of ''alice'' = [97, 108, 105, 99, 101]" "bytes_of ''bob'' = [98, 111, 98]" "bytes_of ''carol'' = [99, 97, 114, 111, 108]"
  "unat (address_hash [97, 108, 105, 99, 101]) mod 4 = 0" "unat (address_hash [98, 111, 98]) mod 4 = 1"
  "unat (address_hash [99, 97, 114, 111, 108]) mod 4 = 1"
  by (simp_all add: bytes_of_def address_hash_def)

lemma replicate_4: "replicate 4 x = [x, x, x, x]"
  by (simp add: numeral_eq_Suc)

lemmas mempool_run = with_sender_def test_senders with_partition_count_def add_transaction_def partition_for_address_def
  take_for_block_def mempool_is_empty_iff mempool_len_eq pending_transactions_eq replicate_4 Let_def
  MAX_TRANSACTIONS_PER_ADDRESS_PER_BLOCK_def

lemma mempool_scenarios:
  "mempool_uses_explicit_partition_count" "mempool_keeps_same_sender_fifo_within_a_partition"
  "mempool_pending_and_take_for_block_work_across_partition_tasks"
proof -
  show "mempool_uses_explicit_partition_count"
    by (simp add: mempool_uses_explicit_partition_count_def mempool_run)
  show "mempool_keeps_same_sender_fifo_within_a_partition"
    by (simp add: mempool_keeps_same_sender_fifo_within_a_partition_def mempool_run test_transaction_def)
  show "mempool_pending_and_take_for_block_work_across_partition_tasks"
    by (simp add: mempool_pending_and_take_for_block_work_across_partition_tasks_def mempool_run test_transaction_def)
qed

lemma fork_scenarios:
  "block_is_not_finalized_when_no_active_stake_exists" "cumulative_chain_weight_sums_approve_stake"
  "choose_heaviest_chain_prefers_higher_cumulative_stake" "choose_heaviest_chain_breaks_tie_with_height_then_hash"
  "choose_heaviest_chain_returns_none_for_empty_input"
proof -
  show "block_is_not_finalized_when_no_active_stake_exists"
    by (simp add: block_is_not_finalized_when_no_active_stake_exists_def is_block_finalized_def total_active_stake_def)
  show "cumulative_chain_weight_sums_approve_stake"
    by (simp add: cumulative_chain_weight_sums_approve_stake_def cumulative_chain_weight_def)
  show "choose_heaviest_chain_prefers_higher_cumulative_stake"
    by (simp add: choose_heaviest_chain_prefers_higher_cumulative_stake_def choose_heaviest_chain_def fork_key_def test_fork_def)
  show "choose_heaviest_chain_breaks_tie_with_height_then_hash"
    by (simp add: choose_heaviest_chain_breaks_tie_with_height_then_hash_def choose_heaviest_chain_def fork_key_def test_fork_def
      replicate_32_le less_le_not_le)
  show "choose_heaviest_chain_returns_none_for_empty_input"
    by (simp add: choose_heaviest_chain_returns_none_for_empty_input_def choose_heaviest_chain_def)
qed

lemma reward_scenarios:
  "total_transaction_fees_sums_fees_across_transactions" "annualized_inflation_reward_matches_two_percent_for_one_year"
proof -
  show "total_transaction_fees_sums_fees_across_transactions"
    by (simp add: total_transaction_fees_sums_fees_across_transactions_def total_transaction_fees_def test_transaction_def
      FIXED_TRANSACTION_FEE_def checked_add_def)
  show "annualized_inflation_reward_matches_two_percent_for_one_year"
    by (simp add: annualized_inflation_reward_matches_two_percent_for_one_year_def annualized_inflation_reward_def
      SECONDS_PER_YEAR_def ANNUAL_INFLATION_BPS_def)
qed

lemma draw_scenarios: "select_proposer_by_seed_respects_weighted_ranges"
  by code_simp

lemma collect_signed:
  assumes "test_setting E ks" and "sk \<in> set ks"
  shows "collect_vote E c (signed_vote E h x approve sk) vs =
    (if validator_stake vs (signing_public E sk) = None then Inl UnknownValidator
     else if has_voted c (signing_public E sk) then Inl DuplicateVote
     else Inr (c\<lparr>votes_by_voter := (signing_public E sk, signed_vote E h x approve sk) # votes_by_voter c\<rparr>))"
  using signed_vote [OF assms, of h x approve] by (simp add: collect_vote_def)

lemmas vote_run = validator_from_pair_def validator_stake_def has_voted_def VoteCollector_new_def collector_tally_def
  VoteTally_default_def checked_add_def is_block_finalized_def total_active_stake_def passes_tally_def passes_votes_def
  detect_double_vote_def Let_def

lemma collector_scenarios:
  assumes "test_setting E [a, b, c]"
  shows "vote_collector_aggregates_weighted_votes E a b c" "vote_collector_rejects_duplicate_vote_from_same_validator E a"
    "vote_collector_rejects_unknown_validator E a b" "verify_vote_rejects_invalid_voter_key_length E a"
    "verify_vote_rejects_invalid_signature_length E a"
proof -
  have ne: "signing_public E a \<noteq> signing_public E b" "signing_public E a \<noteq> signing_public E c" "signing_public E b \<noteq> signing_public E c"
    using assms by (auto simp: test_setting_def)
  note run = signed_vote [OF assms] collect_signed [OF assms] vote_run ne ne [symmetric]
  show "vote_collector_aggregates_weighted_votes E a b c"
    by (simp add: vote_collector_aggregates_weighted_votes_def run)
  show "vote_collector_rejects_duplicate_vote_from_same_validator E a"
    by (simp add: vote_collector_rejects_duplicate_vote_from_same_validator_def run)
  show "vote_collector_rejects_unknown_validator E a b"
    by (simp add: vote_collector_rejects_unknown_validator_def run)
  show "verify_vote_rejects_invalid_voter_key_length E a"
    by (simp add: verify_vote_rejects_invalid_voter_key_length_def run verify_vote_def try_into_array_def)
  have "verifying_key_ok E (signing_public E a)"
    using assms by (auto simp: test_setting_def ed25519_spec_def)
  then show "verify_vote_rejects_invalid_signature_length E a"
    by (simp add: verify_vote_rejects_invalid_signature_length_def run verify_vote_def try_into_array_def)
qed

lemma finality_scenarios:
  assumes "test_setting E [a, b, c]"
  shows "block_is_not_finalized_at_exact_two_thirds E a b c" "block_is_finalized_above_two_thirds_of_weighted_votes E a b c"
    "byzantine_thirty_three_percent_attack_does_not_break_finalization E a b c"
proof -
  have ne: "signing_public E a \<noteq> signing_public E b" "signing_public E a \<noteq> signing_public E c" "signing_public E b \<noteq> signing_public E c"
    using assms by (auto simp: test_setting_def)
  note run = signed_vote [OF assms] collect_signed [OF assms] vote_run ne ne [symmetric]
  show "block_is_not_finalized_at_exact_two_thirds E a b c"
    by (simp add: block_is_not_finalized_at_exact_two_thirds_def run)
  show "block_is_finalized_above_two_thirds_of_weighted_votes E a b c"
    by (simp add: block_is_finalized_above_two_thirds_of_weighted_votes_def run)
  show "byzantine_thirty_three_percent_attack_does_not_break_finalization E a b c"
    by (simp add: byzantine_thirty_three_percent_attack_does_not_break_finalization_def run choose_heaviest_chain_def fork_key_def
      test_fork_def cumulative_chain_weight_def)
qed

lemma slashing_scenarios:
  assumes "test_setting E [a, b]"
  shows "detect_double_vote_accepts_valid_conflicting_votes E a" "detect_double_vote_rejects_same_block_hash E a"
    "detect_double_vote_rejects_different_heights E a" "slash_validator_for_double_vote_reduces_stake E a"
    "slash_validator_for_double_vote_rejects_invalid_penalty_bps E a"
    "slash_validator_for_double_vote_rejects_mismatched_validator E a b"
proof -
  have ne: "signing_public E a \<noteq> signing_public E b" using assms by (auto simp: test_setting_def)
  note run = signed_vote [OF assms] vote_run ne ne [symmetric]
  show "detect_double_vote_accepts_valid_conflicting_votes E a"
    by (simp add: detect_double_vote_accepts_valid_conflicting_votes_def run)
  show "detect_double_vote_rejects_same_block_hash E a"
    by (simp add: detect_double_vote_rejects_same_block_hash_def run)
  show "detect_double_vote_rejects_different_heights E a"
    by (simp add: detect_double_vote_rejects_different_heights_def run)
  show "slash_validator_for_double_vote_reduces_stake E a"
    by (simp add: slash_validator_for_double_vote_reduces_stake_def slash_validator_for_double_vote_def run)
  show "slash_validator_for_double_vote_rejects_invalid_penalty_bps E a"
    by (simp add: slash_validator_for_double_vote_rejects_invalid_penalty_bps_def slash_validator_for_double_vote_def run)
  show "slash_validator_for_double_vote_rejects_mismatched_validator E a b"
    by (simp add: slash_validator_for_double_vote_rejects_mismatched_validator_def slash_validator_for_double_vote_def run)
qed

lemma distribution_scenarios:
  assumes "test_setting E [a, b, c]"
  shows "distribute_voting_rewards_splits_pool_across_voting_validators_only E a b c"
    "distribute_voting_rewards_rejects_empty_vote_set E a"
proof -
  have ne: "signing_public E a \<noteq> signing_public E b" "signing_public E a \<noteq> signing_public E c" "signing_public E b \<noteq> signing_public E c"
    using assms by (auto simp: test_setting_def)
  note run = signed_vote [OF assms] collect_signed [OF assms] vote_run ne ne [symmetric]
  note pay = distribute_voting_rewards_def reward_participants_def total_transaction_fees_def annualized_inflation_reward_def
    SECONDS_PER_YEAR_def ANNUAL_INFLATION_BPS_def FIXED_TRANSACTION_FEE_def test_transaction_def
  show "distribute_voting_rewards_splits_pool_across_voting_validators_only E a b c"
    by (cases "signing_public E a \<le> signing_public E b")
      (simp_all add: distribute_voting_rewards_splits_pool_across_voting_validators_only_def run pay reward_of_def numeral_eq_Suc [of num.One])
  show "distribute_voting_rewards_rejects_empty_vote_set E a"
    by (simp add: distribute_voting_rewards_rejects_empty_vote_set_def run pay)
qed

section \<open>A mempool with one sender\<close>

lemma take_loop_one_sender:
  assumes "\<forall>t \<in> set ts. tx_from t = s" and "length sel \<le> n" and "or_zero c s \<le> MAX_TRANSACTIONS_PER_ADDRESS_PER_BLOCK"
  shows "take_loop n c sel rem ts =
    (let k = min (n - length sel) (MAX_TRANSACTIONS_PER_ADDRESS_PER_BLOCK - or_zero c s) in (sel @ take k ts, rem @ drop k ts))"
  using assms
proof (induction ts arbitrary: c sel rem)
  case (Cons t ts)
  have s: "tx_from t = s" using Cons.prems by simp
  consider "length sel = n" | "length sel < n" "or_zero c s < MAX_TRANSACTIONS_PER_ADDRESS_PER_BLOCK"
    | "length sel < n" "or_zero c s = MAX_TRANSACTIONS_PER_ADDRESS_PER_BLOCK"
    using Cons.prems by linarith
  then show ?case
  proof cases
    case 1
    with Cons show ?thesis by (simp add: Let_def)
  next
    case 2
    then have k: "min (n - length sel) (MAX_TRANSACTIONS_PER_ADDRESS_PER_BLOCK - or_zero c s) =
        Suc (min (n - Suc (length sel)) (MAX_TRANSACTIONS_PER_ADDRESS_PER_BLOCK - Suc (or_zero c s)))"
      by simp
    show ?thesis
      using Cons.IH [of "sel @ [t]" "c(s \<mapsto> Suc (or_zero c s))" rem] Cons.prems 2 s unfolding k
      by (simp add: Let_def del: fun_upd_apply)
  next
    case 3
    with Cons.IH [of sel "c(s \<mapsto> or_zero c s)" "rem @ [t]"] Cons.prems s show ?thesis
      by (simp add: Let_def del: fun_upd_apply)
  qed
qed simp

lemma take_partitions_empty: "take_partitions n sel (replicate k []) = (sel, replicate k [])"
  by (induction k) simp_all

lemma take_partitions_one:
  assumes "\<forall>t \<in> set ts. tx_from t = s" and "0 < n"
  shows "take_partitions n [] (replicate i [] @ ts # replicate j []) =
    (take (min n MAX_TRANSACTIONS_PER_ADDRESS_PER_BLOCK) ts, replicate i [] @ drop (min n MAX_TRANSACTIONS_PER_ADDRESS_PER_BLOCK) ts # replicate j [])"
proof (induction i)
  case 0
  then show ?case
    using assms take_loop_one_sender [OF assms(1), of "[]" n Map.empty "[]"] by (simp add: take_partitions_empty Let_def)
qed (use assms in \<open>simp add: Let_def\<close>)

definition one_sender_pool :: "nat \<Rightarrow> bytes \<Rightarrow> Transaction list \<Rightarrow> Mempool" where
  "one_sender_pool k s ts = foldl add_transaction (with_partition_count k) ts"

lemma same_partition_pool:
  assumes "\<forall>t \<in> set ts. partition_for_address (with_partition_count k) (tx_from t) = i" and "i < max k 1"
  shows "partitions (foldl add_transaction (with_partition_count k) ts) = replicate i [] @ ts # replicate (max k 1 - Suc i) []"
proof -
  let ?k = "max k 1" and ?pool = "\<lambda>ts. foldl add_transaction (with_partition_count k) ts"
  have partition_count: "partition_count (with_partition_count k) = ?k" by (simp add: with_partition_count_def Let_def)
  have "partition_count (?pool ts) = ?k \<and> partitions (?pool ts) = (replicate ?k [])[i := ts]"
    using assms(1)
  proof (induction ts rule: rev_induct)
    case Nil
    have "(replicate ?k ([] :: Transaction list))[i := []] = replicate ?k []" using assms(2) by (simp add: list_update_same_conv)
    then show ?case by (simp add: with_partition_count_def Let_def)
  next
    case (snoc t ts)
    define m where "m = ?pool ts"
    have m: "partition_count m = ?k" "partitions m = (replicate ?k [])[i := ts]" using snoc by (simp_all add: m_def)
    have "partition_for_address m (tx_from t) = i"
      using snoc.prems m(1) partition_count by (auto simp: partition_for_address_def)
    with m assms(2) have "partition_count (add_transaction m t) = ?k \<and> partitions (add_transaction m t) = (replicate ?k [])[i := ts @ [t]]"
      by (simp add: add_transaction_def Let_def)
    then show ?case by (simp add: m_def)
  qed
  then show ?thesis using assms(2) by (simp add: upd_conv_take_nth_drop)
qed

lemma partition_bound: "partition_for_address (with_partition_count k) s < max k 1"
  by (auto simp: partition_for_address_def with_partition_count_def Let_def)

lemma one_sender_partitions:
  assumes "\<forall>t \<in> set ts. tx_from t = s"
  shows "\<exists>i j. partitions (one_sender_pool k s ts) = replicate i [] @ ts # replicate j []"
  using same_partition_pool [OF _ partition_bound, of ts k s] assms by (auto simp: one_sender_pool_def)

lemma one_sender_take:
  assumes "\<forall>t \<in> set ts. tx_from t = s" and "0 < n" and "ts \<noteq> []"
  obtains m where "take_for_block (one_sender_pool k s ts) n = (take (min n MAX_TRANSACTIONS_PER_ADDRESS_PER_BLOCK) ts, m)"
    and "pending_transactions m = drop (min n MAX_TRANSACTIONS_PER_ADDRESS_PER_BLOCK) ts"
proof -
  obtain i j where p: "partitions (one_sender_pool k s ts) = replicate i [] @ ts # replicate j []"
    using one_sender_partitions [OF assms(1)] by blast
  have "\<not> mempool_is_empty (one_sender_pool k s ts)" using assms(3) by (simp add: mempool_is_empty_iff pending_transactions_eq p)
  then show thesis
    using that assms(2) take_partitions_one [OF assms(1,2), of i j]
    by (simp add: take_for_block_def p pending_transactions_eq)
qed

lemma limit_scenario: "mempool_limits_sender_to_one_hundred_transactions_per_block"
proof -
  define ts where "ts = map (\<lambda>n. with_sender ''alice'' (of_nat n)) [1..<102]"
  let ?s = "bytes_of ''alice''"
  have s: "\<forall>t \<in> set ts. tx_from t = ?s" by (simp add: with_sender_def ts_def)
  have pool: "foldl (\<lambda>m nonce. add_transaction m (with_sender ''alice'' (of_nat nonce))) (with_partition_count 4) [1..<102] =
      one_sender_pool 4 ?s ts"
    by (simp add: one_sender_pool_def foldl_map ts_def)
  have ts: "ts \<noteq> []" "length ts = 101" "drop 100 ts = [with_sender ''alice'' 101]"
    by (simp_all add: ts_def drop_map drop_upt upt_conv_Cons)
  obtain m where m: "take_for_block (one_sender_pool 4 ?s ts) 101 = (take 100 ts, m)" "pending_transactions m = drop 100 ts"
    using one_sender_take [OF s _ ts(1), of 101 4] by (auto simp: MAX_TRANSACTIONS_PER_ADDRESS_PER_BLOCK_def)
  have "filter (\<lambda>t. tx_from t = ?s) (take 100 ts) = take 100 ts"
    using s by (intro filter_True) (meson in_set_takeD)
  moreover have "mempool_len m = 1" using m(2) ts(3) by (simp add: mempool_len_eq pending_transactions_eq)
  moreover have "tx_nonce (with_sender ''alice'' 101) = 101" by (simp add: with_sender_def test_transaction_def)
  ultimately show ?thesis
    using m ts unfolding mempool_limits_sender_to_one_hundred_transactions_per_block_def pool by simp
qed

section \<open>Proposals\<close>

text \<open>Transactions and headers can be encoded, and the block of the test is below the size limit.\<close>

definition propose_setting :: "'z env_scheme \<Rightarrow> bytes \<Rightarrow> bool" where
  "propose_setting E k \<longleftrightarrow> ed25519_spec E \<and> length k = 32 \<and> (\<forall>t. \<exists>b. serialize (bc_transaction E) t = Inr b) \<and>
     (\<forall>h. \<exists>b. serialize (bc_header E) h = Inr b) \<and>
     (\<forall>block. b_transactions block = [test_transaction 1, test_transaction 2] \<and> b_receipts block = [] \<longrightarrow>
        validate_block_size E block = Inr ())"

lemma hashes_ok:
  assumes "\<forall>t. \<exists>b. serialize (bc_transaction E) t = Inr b"
  shows "\<exists>root. calculate_merkle_root E ts = Inr root"
proof -
  have h: "\<exists>h. hash_transaction E t = Inr h" for t using assms [rule_format, of t] by (auto simp: hash_transaction_def)
  have "\<exists>hs. try_map (hash_transaction E) ts = Inr hs"
    by (induction ts) (use h in \<open>fastforce simp: result_simps\<close>)+
  then show ?thesis by (auto simp: calculate_merkle_root_def)
qed

lemma proposal_made:
  assumes "\<forall>t. \<exists>b. serialize (bc_transaction E) t = Inr b" and "\<forall>h. \<exists>b. serialize (bc_header E) h = Inr b"
    and "take_for_block m n = (ts, m')" and "0 < n"
  shows "\<exists>block. propose_block E v k prev height timestamp m n = Inr (m', Inr block) \<and> b_transactions block = ts \<and>
    b_receipts block = [] \<and> h_height (b_header block) = height \<and> h_previous_hash (b_header block) = prev \<and>
    h_validator (b_header block) = v_address v"
proof -
  obtain root where "calculate_merkle_root E ts = Inr root" using hashes_ok [OF assms(1)] by blast
  moreover obtain b where "serialize (bc_header E) \<lparr>h_version = 1, h_previous_hash = prev, h_merkle_root = root,
            h_timestamp = timestamp, h_height = height, h_validator = v_address v, h_signature = []\<rparr> = Inr b" using assms(2) by blast
  ultimately show ?thesis
    using assms(3,4) by (simp add: propose_block_def sign_block_header_def consensus_unsigned_header_bytes_def)
qed

lemma default_pool: "foldl add_transaction (Mempool_default p) ts = one_sender_pool (case p of Some n \<Rightarrow> n | None \<Rightarrow> 1) s ts"
  by (simp add: Mempool_default_def one_sender_pool_def)

lemma test_sender: "\<forall>t \<in> set (map test_transaction ns). tx_from t = replicate 32 1"
  by (simp add: test_transaction_def)

lemma proposal_scenarios:
  assumes "propose_setting E k"
  shows "propose_block_builds_signed_block_from_mempool E k p"
    "propose_block_respects_transaction_limit_and_keeps_rest_in_mempool E k p"
proof -
  note enc = assms [unfolded propose_setting_def, THEN conjunct2, THEN conjunct2, THEN conjunct1]
    assms [unfolded propose_setting_def, THEN conjunct2, THEN conjunct2, THEN conjunct2, THEN conjunct1]
  let ?v = "validator_from_pair E k 100000"
  show "propose_block_builds_signed_block_from_mempool E k p"
  proof -
    let ?ts = "[test_transaction 1, test_transaction 2]"
    obtain m where m: "take_for_block (foldl add_transaction (Mempool_default p) ?ts) 10 = (?ts, m)" "pending_transactions m = []"
      using one_sender_take [OF test_sender [of "[1, 2]"], of 10 "case p of Some n \<Rightarrow> n | None \<Rightarrow> 1"]
      by (auto simp: default_pool [of p _ "replicate 32 1"] MAX_TRANSACTIONS_PER_ADDRESS_PER_BLOCK_def simp del: foldl_Cons)
    obtain block where b: "propose_block E ?v k (replicate 32 7) 2 1710000123 (foldl add_transaction (Mempool_default p) ?ts) 10 =
        Inr (m, Inr block)" "b_transactions block = ?ts" "b_receipts block = []" "h_height (b_header block) = 2"
        "h_previous_hash (b_header block) = replicate 32 7" "h_validator (b_header block) = v_address ?v"
      using proposal_made [OF enc m(1), of ?v k "replicate 32 7" 2 1710000123] by auto
    have spec: "ed25519_spec E" "length k = 32" "v_address ?v = signing_public E k" "validate_block_size E block = Inr ()"
      using assms b(2,3) by (simp_all add: propose_setting_def validator_from_pair_def)
    have "validate_block E block (replicate 32 7) = Inr (Inr ())"
      using proposed_block [OF spec(1-3) b(1)] spec(4) by (metis validate_block_Inr)
    with b m(2) show ?thesis
      unfolding propose_block_builds_signed_block_from_mempool_def passes_proposal_def Let_def
      by (simp add: mempool_is_empty_iff del: foldl_Cons)
  qed
  show "propose_block_respects_transaction_limit_and_keeps_rest_in_mempool E k p"
  proof -
    let ?ts = "[test_transaction 1, test_transaction 2, test_transaction 3]"
    obtain m where m: "take_for_block (foldl add_transaction (Mempool_default p) ?ts) 2 = (take 2 ?ts, m)"
        "pending_transactions m = [test_transaction 3]"
      using one_sender_take [OF test_sender [of "[1, 2, 3]"], of 2 "case p of Some n \<Rightarrow> n | None \<Rightarrow> 1"]
      by (auto simp: default_pool [of p _ "replicate 32 1"] MAX_TRANSACTIONS_PER_ADDRESS_PER_BLOCK_def simp del: foldl_Cons)
    obtain block where "propose_block E ?v k (replicate 32 8) 3 1710000456 (foldl add_transaction (Mempool_default p) ?ts) 2 =
        Inr (m, Inr block)" "b_transactions block = take 2 ?ts"
      using proposal_made [OF enc m(1), of ?v k "replicate 32 8" 3 1710000456] by auto
    moreover have "mempool_len m = 1" using m(2) by (simp add: mempool_len_eq pending_transactions_eq)
    ultimately show ?thesis
      using m(2) unfolding propose_block_respects_transaction_limit_and_keeps_rest_in_mempool_def passes_proposal_def Let_def
      by (simp add: test_transaction_def del: foldl_Cons)
  qed
qed

section \<open>Selection and simulations\<close>

lemma selection_succeeds:
  assumes "sha256_spec E" and "length vs < 2 ^ 64" and "\<exists>v \<in> set vs. v_stake v > 0"
  obtains v where "select_proposer E vs prev h = Inr (Inr v)" "v \<in> set (eligible_validators vs)"
    "\<forall>ws. eligible_validators ws = eligible_validators vs \<longrightarrow> select_proposer E ws prev h = Inr (Inr v)"
proof -
  obtain seed where seed: "proposer_seed E prev h = Inr seed"
    using assms(1) by (simp add: proposer_seed_def sha256_def sha256_spec_def try_into_array_def)
  let ?d = "unat (from_be_bytes (take 16 seed) :: u128) mod active_stake vs"
  have pos: "0 < active_stake vs" using assms(3) active_stake_pos by blast
  then have "?d < active_stake vs" by simp
  then have "stake_owner ?d (eligible_validators vs) \<noteq> None"
    using stake_owner_None [of ?d "eligible_validators vs"] by (simp add: active_stake_eligible not_le)
  then obtain v where v: "stake_owner ?d (eligible_validators vs) = Some v" by blast
  have sel: "select_proposer_by_seed vs seed = Inr v"
    using select_proposer_by_seed_owner [OF assms(2,3), of seed] v by simp
  have same: "select_proposer_by_seed ws seed = Inr v" if "eligible_validators ws = eligible_validators vs" for ws
  proof -
    have "filter (\<lambda>v. v_stake v > 0) us = [] \<longleftrightarrow> set (eligible_validators us) = {}" for us
      by (auto simp: set_eligible filter_empty_conv)
    with that sel show ?thesis by (simp add: select_proposer_by_seed_def split: if_splits)
  qed
  show thesis
  proof (rule that [of v])
    show "select_proposer E vs prev h = Inr (Inr v)" using seed sel by (simp add: select_proposer_def)
    show "v \<in> set (eligible_validators vs)" using stake_owner_Some [OF v] by simp
    show "\<forall>ws. eligible_validators ws = eligible_validators vs \<longrightarrow> select_proposer E ws prev h = Inr (Inr v)"
      using seed same by (simp add: select_proposer_def)
  qed
qed

lemma selection_scenarios:
  assumes "sha256_spec E"
  shows "select_proposer_rejects_empty_validator_set E" "select_proposer_ignores_zero_stake_validators E"
    "select_proposer_is_independent_of_input_order E"
proof -
  obtain seed where "proposer_seed E (replicate 32 7) 1 = Inr seed"
    using assms by (simp add: proposer_seed_def sha256_def sha256_spec_def try_into_array_def)
  then show "select_proposer_rejects_empty_validator_set E"
    by (simp add: select_proposer_rejects_empty_validator_set_def select_proposer_def select_proposer_by_seed_def)
  let ?vs = "[\<lparr>v_address = bytes_of ''alice'', v_stake = 0, v_locked_until = 100\<rparr>, \<lparr>v_address = bytes_of ''bob'', v_stake = 50, v_locked_until = 200\<rparr>]"
  obtain v where "select_proposer E ?vs (replicate 32 9) 1 = Inr (Inr v)" "v \<in> set (eligible_validators ?vs)"
    using selection_succeeds [OF assms, of ?vs "replicate 32 9" 1] by auto
  then show "select_proposer_ignores_zero_stake_validators E"
    by (simp add: select_proposer_ignores_zero_stake_validators_def eligible_validators_def)
  have rev: "eligible_validators (rev test_validators) = eligible_validators test_validators"
    by (simp add: eligible_validators_def test_validators_def test_senders)
  have "length test_validators < 2 ^ 64" "\<exists>v \<in> set test_validators. v_stake v > 0" by (simp_all add: test_validators_def)
  from selection_succeeds [OF assms this, of "replicate 32 11" 7] obtain v
    where "select_proposer E test_validators (replicate 32 11) 7 = Inr (Inr v)"
      "\<forall>ws. eligible_validators ws = eligible_validators test_validators \<longrightarrow> select_proposer E ws (replicate 32 11) 7 = Inr (Inr v)" .
  with rev show "select_proposer_is_independent_of_input_order E"
    by (simp add: select_proposer_is_independent_of_input_order_def)
qed

lemma simulation_scenario:
  assumes "test_setting E [a, b, c, d]"
  shows "four_validator_simulation_covers_selection_fork_and_slashing E a b c d"
proof -
  let ?vs = "[validator_from_pair E a 40, validator_from_pair E b 30, validator_from_pair E c 20, validator_from_pair E d 10]"
  have sha: "sha256_spec E" using assms by (simp add: test_setting_def)
  have ne: "signing_public E a \<noteq> signing_public E b" "signing_public E a \<noteq> signing_public E c" "signing_public E b \<noteq> signing_public E c"
    "signing_public E a \<noteq> signing_public E d" "signing_public E b \<noteq> signing_public E d" "signing_public E c \<noteq> signing_public E d"
    using assms by (auto simp: test_setting_def)
  note run = signed_vote [OF assms] collect_signed [OF assms] vote_run ne ne [symmetric]
  obtain v where "select_proposer E ?vs (replicate 32 42) 21 = Inr (Inr v)" "v \<in> set (eligible_validators ?vs)"
    using selection_succeeds [OF sha, of ?vs "replicate 32 42" 21] by (auto simp: validator_from_pair_def)
  then have "passes (select_proposer E ?vs (replicate 32 42) 21) (\<lambda>r. passes r (\<lambda>selected. list_ex (\<lambda>v. v_address v = v_address selected) ?vs))"
    by (auto simp: set_eligible)
  then show ?thesis
    unfolding four_validator_simulation_covers_selection_fork_and_slashing_def Let_def
    by (simp add: run choose_heaviest_chain_def fork_key_def test_fork_def cumulative_chain_weight_def slash_validator_for_double_vote_def)
qed

section \<open>Senders of given partitions\<close>

lemma decimal_digits:
  "decimal 0 = ''0''" "decimal (Suc 0) = ''1''" "decimal (Suc (Suc 0)) = ''2''" "decimal (Suc (Suc (Suc 0))) = ''3''"
  "decimal 1 = ''1''" "decimal 2 = ''2''" "decimal 3 = ''3''"
  by (simp_all add: decimal.simps digit_def char_of_def bit_0)

lemma search_results:
  "search_senders (with_partition_count 4) ''sender-'' [0, 1, 2, 3] 0 (replicate 4 None) =
     Some (map (\<lambda>n. Some (bytes_of (''sender-'' @ decimal n))) [0, 1, 2, 3])"
  "search_senders (with_partition_count 4) ''sandwich-sender-'' [0, 1, 3] 0 (replicate 4 None) =
     Some (map (\<lambda>n. Some (bytes_of (''sandwich-sender-'' @ decimal n))) [2, 3, 0, 1])"
  by (simp_all add: search_senders.simps replicate_4 with_partition_count_def partition_for_address_def bytes_of_def address_hash_def
    decimal_digits Let_def)

lemma search_partitions:
  "list_all (\<lambda>n. partition_for_address (with_partition_count 4) (bytes_of (''sender-'' @ decimal n)) = n) [0, 1, 2, 3]"
  "list_all (\<lambda>n. partition_for_address (with_partition_count 4) (bytes_of (''sandwich-sender-'' @ decimal n)) = (n + 2) mod 4) [0, 1, 2, 3]"
  by (simp_all add: partition_for_address_def with_partition_count_def bytes_of_def address_hash_def decimal_digits)

text \<open>Transactions in different partitions come out in the order of the partitions.\<close>

lemma partition_for_address_update [simp]: "partition_for_address (m\<lparr>partitions := ps\<rparr>) s = partition_for_address m s"
  by (simp add: partition_for_address_def)

lemma spread_take:
  assumes "map (\<lambda>t. partition_for_address (with_partition_count 4) (tx_from t)) ts = [0, 1, 2, 3]"
  shows "take_for_block (foldl add_transaction (with_partition_count 4) ts) 4 = (ts, with_partition_count 4)"
proof -
  obtain t0 t1 t2 t3 where ts: "ts = [t0, t1, t2, t3]" and p: "partition_for_address (with_partition_count 4) (tx_from t0) = 0"
    "partition_for_address (with_partition_count 4) (tx_from t1) = 1" "partition_for_address (with_partition_count 4) (tx_from t2) = 2"
    "partition_for_address (with_partition_count 4) (tx_from t3) = 3"
    using assms by (auto simp: map_eq_Cons_conv)
  have "foldl add_transaction (with_partition_count 4) ts = (with_partition_count 4)\<lparr>partitions := [[t0], [t1], [t2], [t3]]\<rparr>"
    using p by (simp add: ts add_transaction_def) (simp add: with_partition_count_def replicate_4)
  then show ?thesis
    by (simp add: ts take_for_block_def mempool_is_empty_iff pending_transactions_eq with_partition_count_def replicate_4
      MAX_TRANSACTIONS_PER_ADDRESS_PER_BLOCK_def)
qed

lemma dex_take:
  assumes "partition_for_address (with_partition_count 4) (tx_from a) = 0" "partition_for_address (with_partition_count 4) (tx_from b) = 1"
    "partition_for_address (with_partition_count 4) (tx_from v) = 3"
  shows "take_for_block (foldl add_transaction (with_partition_count 4) [a, v, b]) 3 = ([a, b, v], with_partition_count 4)"
proof -
  have "foldl add_transaction (with_partition_count 4) [a, v, b] = (with_partition_count 4)\<lparr>partitions := [[a], [b], [], [v]]\<rparr>"
    using assms by (simp add: add_transaction_def) (simp add: with_partition_count_def replicate_4)
  then show ?thesis
    by (simp add: take_for_block_def mempool_is_empty_iff pending_transactions_eq with_partition_count_def replicate_4
      MAX_TRANSACTIONS_PER_ADDRESS_PER_BLOCK_def)
qed

lemma spread_scenarios:
  assumes "\<forall>t. \<exists>b. serialize (bc_transaction E) t = Inr b" and "\<forall>h. \<exists>b. serialize (bc_header E) h = Inr b"
  shows "propose_block_can_pull_transactions_from_all_partitions E k" "propose_block_does_not_preserve_global_submission_order E k"
proof -
  let ?v = "validator_from_pair E k 100000"
  show "propose_block_can_pull_transactions_from_all_partitions E k"
  proof -
    define ts where "ts = map (\<lambda>n. (test_transaction (of_nat (Suc n)))\<lparr>tx_from := bytes_of (''sender-'' @ decimal n)\<rparr>) [0, 1, 2, 3]"
    have "map (\<lambda>t. partition_for_address (with_partition_count 4) (tx_from t)) ts = [0, 1, 2, 3]"
      using search_partitions(1) by (simp add: ts_def)
    from proposal_made [OF assms spread_take [OF this], of ?v k "replicate 32 9" 5 1710000999] obtain block
      where "propose_block E ?v k (replicate 32 9) 5 1710000999 (foldl add_transaction (with_partition_count 4) ts) 4 =
          Inr (with_partition_count 4, Inr block)" "b_transactions block = ts" by auto
    then show ?thesis
      unfolding propose_block_can_pull_transactions_from_all_partitions_def search_results passes_proposal_def Let_def
      by (simp add: ts_def test_transaction_def mempool_is_empty_iff pending_transactions_eq with_partition_count_def)
  qed
  show "propose_block_does_not_preserve_global_submission_order E k"
  proof -
    let ?s = "\<lambda>n. Some (bytes_of (''sandwich-sender-'' @ decimal n))"
    let ?ts = "[dex_transaction 1 (?s 2), dex_transaction 2 (?s 1), dex_transaction 3 (?s 3)]"
    have "take_for_block (foldl add_transaction (with_partition_count 4) ?ts) 3 =
        ([dex_transaction 1 (?s 2), dex_transaction 3 (?s 3), dex_transaction 2 (?s 1)], with_partition_count 4)"
      using search_partitions(2) by (intro dex_take) (simp_all add: dex_transaction_def)
    from proposal_made [OF assms this, of ?v k "replicate 32 10" 6 1710001111] obtain block
      where "propose_block E ?v k (replicate 32 10) 6 1710001111 (foldl add_transaction (with_partition_count 4) ?ts) 3 =
          Inr (with_partition_count 4, Inr block)"
        "b_transactions block = [dex_transaction 1 (?s 2), dex_transaction 3 (?s 3), dex_transaction 2 (?s 1)]" by auto
    then show ?thesis
      unfolding propose_block_does_not_preserve_global_submission_order_def search_results passes_proposal_def Let_def
      by (simp add: dex_transaction_def test_transaction_def)
  qed
qed

section \<open>Proposal, votes and finality together\<close>

lemma header_hash:
  assumes "\<forall>h. \<exists>b. serialize (bc_header E) h = Inr b"
  shows "\<exists>x. hash_block_header E header = Inr x"
  using assms [rule_format, of header] by (auto simp: hash_block_header_def)

lemma roundtrip_scenario:
  assumes "test_setting E [k]" and "propose_setting E k"
  shows "create_and_verify_vote_roundtrip E k p"
proof -
  have enc: "\<forall>t. \<exists>b. serialize (bc_transaction E) t = Inr b" "\<forall>h. \<exists>b. serialize (bc_header E) h = Inr b"
    using assms(2) by (simp_all add: propose_setting_def)
  have "take_for_block (Mempool_default p) 1 = ([], Mempool_default p)"
    by (simp add: take_for_block_def mempool_is_empty_iff pending_transactions_eq Mempool_default_def with_partition_count_def Let_def)
  from proposal_made [OF enc this, of "validator_from_pair E k 100000" k "replicate 32 1" 4 1710000789] obtain block
    where b: "propose_block E (validator_from_pair E k 100000) k (replicate 32 1) 4 1710000789 (Mempool_default p) 1 =
      Inr (Mempool_default p, Inr block)" by auto
  obtain x where x: "hash_block_header E (b_header block) = Inr x" using header_hash [OF enc(2)] by blast
  from signed_vote [OF assms(1)] b x show ?thesis
    by (simp add: create_and_verify_vote_roundtrip_def passes_proposal_def)
qed

lemma benchmark_scenario:
  assumes "test_setting E [a, b, c, d]" and "propose_setting E a"
  shows "finalization_benchmark E a b c d p"
proof -
  have enc: "\<forall>t. \<exists>b. serialize (bc_transaction E) t = Inr b" "\<forall>h. \<exists>b. serialize (bc_header E) h = Inr b"
    using assms(2) by (simp_all add: propose_setting_def)
  let ?vs = "[validator_from_pair E a 40, validator_from_pair E b 30, validator_from_pair E c 20, validator_from_pair E d 10]"
  have sha: "sha256_spec E" using assms by (simp add: test_setting_def)
  have ne: "signing_public E a \<noteq> signing_public E b" "signing_public E a \<noteq> signing_public E c" "signing_public E b \<noteq> signing_public E c"
    "signing_public E a \<noteq> signing_public E d" "signing_public E b \<noteq> signing_public E d" "signing_public E c \<noteq> signing_public E d"
    using assms by (auto simp: test_setting_def)
  note run = signed_vote [OF assms(1)] collect_signed [OF assms(1)] vote_run ne ne [symmetric]
  obtain v where v: "select_proposer E ?vs (replicate 32 55) 22 = Inr (Inr v)"
    using selection_succeeds [OF sha, of ?vs "replicate 32 55" 22] by (auto simp: validator_from_pair_def)
  define ts where "ts = map (\<lambda>n. test_transaction (of_nat n)) [1..<101]"
  have pool: "foldl (\<lambda>m nonce. add_transaction m (test_transaction (of_nat nonce))) (Mempool_default p) [1..<101] =
      foldl add_transaction (Mempool_default p) ts"
    by (simp only: ts_def foldl_map)
  obtain m ts' where "take_for_block (foldl add_transaction (Mempool_default p) ts) 100 = (ts', m)" by fastforce
  then have "\<exists>block. propose_block E v sk (replicate 32 9) 22 1710001111
      (foldl add_transaction (Mempool_default p) ts) 100 = Inr (m, Inr block)" for sk
    using proposal_made [OF enc, of _ 100 ts' m v sk "replicate 32 9" 22 1710001111] by auto
  then obtain block where block: "propose_block E v sk (replicate 32 9) 22 1710001111
      (foldl add_transaction (Mempool_default p) ts) 100 = Inr (m, Inr (block sk))" for sk by metis
  have "\<exists>x. hash_block_header E (b_header (block sk)) = Inr x" for sk by (rule header_hash [OF enc(2)])
  then obtain hash where hash: "hash_block_header E (b_header (block sk)) = Inr (hash sk)" for sk by metis
  have "passes_tally E ?vs 22 x [(a, True), (b, True), (c, True), (d, True)] (\<lambda>_ tally. is_block_finalized tally ?vs)" for x
    by (simp add: run)
  then show ?thesis
    unfolding finalization_benchmark_def Let_def pool v by (simp add: block hash)
qed

section \<open>Order within a partition\<close>

lemma sandwich_take:
  assumes "partition_for_address (with_partition_count k) (tx_from a) = i" "partition_for_address (with_partition_count k) (tx_from v) = i"
    "partition_for_address (with_partition_count k) (tx_from b) = i" and "3 \<le> n"
  shows "\<exists>m. take_for_block (foldl add_transaction (with_partition_count k) [a, v, b]) n = ([a, v, b], m)"
proof -
  let ?m = "foldl add_transaction (with_partition_count k) [a, v, b]"
  have loop: "take_loop n Map.empty [] [] [a, v, b] = ([a, v, b], [])"
    using assms(4) by (simp add: MAX_TRANSACTIONS_PER_ADDRESS_PER_BLOCK_def Let_def)
  have "take_partitions n [] (replicate i [] @ [a, v, b] # replicate j []) = ([a, v, b], replicate (i + Suc j) [])" for j
    using assms(4) loop by (induction i) (simp_all add: take_partitions_empty Let_def del: take_loop.simps(2))
  moreover have p: "partitions ?m = replicate i [] @ [a, v, b] # replicate (max k 1 - Suc i) []"
    using assms partition_bound [of k "tx_from a"] by (intro same_partition_pool) auto
  ultimately have "take_partitions n [] (partitions ?m) = ([a, v, b], replicate (i + Suc (max k 1 - Suc i)) [])" by simp
  moreover have "\<not> mempool_is_empty ?m" by (simp add: mempool_is_empty_iff pending_transactions_eq p del: foldl_Cons)
  ultimately show ?thesis using assms(4) unfolding take_for_block_def by (simp del: foldl_Cons)
qed

text \<open>
  Transactions of one partition keep their order of submission in the block, so that a transaction
  between two of an attacker whose address falls in the victim's partition stays between them.
\<close>

lemma sandwich_in_partition:
  assumes "\<forall>t. \<exists>b. serialize (bc_transaction E) t = Inr b" and "\<forall>h. \<exists>b. serialize (bc_header E) h = Inr b"
    and "partition_for_address (with_partition_count k) (tx_from attacker_before) = i"
    and "partition_for_address (with_partition_count k) (tx_from victim) = i"
    and "partition_for_address (with_partition_count k) (tx_from attacker_after) = i" and "3 \<le> n"
  shows "\<exists>m block. propose_block E v sk prev height timestamp
      (foldl add_transaction (with_partition_count k) [attacker_before, victim, attacker_after]) n = Inr (m, Inr block) \<and>
    b_transactions block = [attacker_before, victim, attacker_after]"
proof -
  obtain m where "take_for_block (foldl add_transaction (with_partition_count k) [attacker_before, victim, attacker_after]) n =
      ([attacker_before, victim, attacker_after], m)"
    using sandwich_take [OF assms(3-6)] by blast
  from proposal_made [OF assms(1,2) this, of v sk prev height timestamp] assms(6) show ?thesis by auto
qed

text \<open>With four partitions, the senders \<open>bob\<close> and \<open>carol\<close> share one, and so \<open>carol\<close> is sandwiched.\<close>

lemma carol_sandwiched:
  "\<exists>m block. propose_block sample_env (validator_from_pair sample_env [] 1) [] [] 1 1
      (foldl add_transaction (with_partition_count 4) [with_sender ''bob'' 1, with_sender ''carol'' 1, with_sender ''bob'' 2]) 3 =
        Inr (m, Inr block) \<and>
    b_transactions block = [with_sender ''bob'' 1, with_sender ''carol'' 1, with_sender ''bob'' 2]"
  by (rule sandwich_in_partition [where i = 1])
    (simp_all add: sample_env_def field_codec_def with_sender_def test_senders partition_for_address_def with_partition_count_def)

section \<open>The tests pass\<close>

lemma test_setting_fewer:
  assumes "test_setting E [a, b, c, d]"
  shows "test_setting E [a, b, c]" "test_setting E [a, b]" "test_setting E [a]" "sha256_spec E"
  using assms by (auto simp: test_setting_def)

lemma sample_settings:
  "test_setting sample_consensus_env [replicate 32 1, replicate 32 2, replicate 32 3, replicate 32 4]"
  "propose_setting sample_consensus_env (replicate 32 1)"
proof -
  have "replicate 32 x = replicate 32 y \<longleftrightarrow> x = y" for x y :: u8 by (auto dest: arg_cong [where f = hd])
  then show "test_setting sample_consensus_env [replicate 32 1, replicate 32 2, replicate 32 3, replicate 32 4]"
    using sample_env_ed25519 sample_env_sha256
    by (simp add: test_setting_def ed25519_spec_def sha256_spec_def sample_consensus_env_def sample_env_def env.extend_def env.defs field_codec_def)
  show "propose_setting sample_consensus_env (replicate 32 1)"
    using sample_env_ed25519
    by (simp add: propose_setting_def ed25519_spec_def sample_consensus_env_def sample_env_def env.extend_def env.defs field_codec_def
      validate_block_size_def result_simps MAX_BLOCK_SIZE_BYTES_def)
qed

text \<open>
  The consensus layer has the outcomes that the unit tests modelled in \<open>ConsensusTests\<close> assert, whatever the signature scheme and
  hash are and whichever different keys are drawn: proposals take, leave and order the transactions
  of the mempool as tested, selection follows the weights, votes are counted once and only from known
  validators, a block is final above two thirds of the stake and not at two thirds, a double vote is
  detected and slashed, rewards go to voters only, and the simulations of four validators and of an
  attacker with a third of the stake end with the honest fork.
\<close>

theorem consensus_tests_pass:
  assumes "test_setting E [a, b, c, d]" and "propose_setting E a"
  shows "propose_block_builds_signed_block_from_mempool E a p \<and>
    propose_block_respects_transaction_limit_and_keeps_rest_in_mempool E a p \<and>
    propose_block_can_pull_transactions_from_all_partitions E a \<and>
    propose_block_does_not_preserve_global_submission_order E a \<and>
    create_and_verify_vote_roundtrip E a p \<and>
    select_proposer_rejects_empty_validator_set E \<and>
    select_proposer_ignores_zero_stake_validators E \<and>
    select_proposer_by_seed_respects_weighted_ranges \<and>
    select_proposer_is_independent_of_input_order E \<and>
    vote_collector_aggregates_weighted_votes E a b c \<and>
    vote_collector_rejects_duplicate_vote_from_same_validator E a \<and>
    vote_collector_rejects_unknown_validator E a b \<and>
    verify_vote_rejects_invalid_voter_key_length E a \<and>
    verify_vote_rejects_invalid_signature_length E a \<and>
    block_is_not_finalized_at_exact_two_thirds E a b c \<and>
    block_is_finalized_above_two_thirds_of_weighted_votes E a b c \<and>
    detect_double_vote_accepts_valid_conflicting_votes E a \<and>
    detect_double_vote_rejects_same_block_hash E a \<and>
    detect_double_vote_rejects_different_heights E a \<and>
    slash_validator_for_double_vote_reduces_stake E a \<and>
    slash_validator_for_double_vote_rejects_invalid_penalty_bps E a \<and>
    slash_validator_for_double_vote_rejects_mismatched_validator E a b \<and>
    distribute_voting_rewards_splits_pool_across_voting_validators_only E a b c \<and>
    distribute_voting_rewards_rejects_empty_vote_set E a \<and>
    four_validator_simulation_covers_selection_fork_and_slashing E a b c d \<and>
    byzantine_thirty_three_percent_attack_does_not_break_finalization E a b c \<and>
    finalization_benchmark E a b c d p \<and>
    mempool_uses_explicit_partition_count \<and>
    mempool_keeps_same_sender_fifo_within_a_partition \<and>
    mempool_pending_and_take_for_block_work_across_partition_tasks \<and>
    mempool_limits_sender_to_one_hundred_transactions_per_block \<and>
    block_is_not_finalized_when_no_active_stake_exists \<and>
    cumulative_chain_weight_sums_approve_stake \<and>
    choose_heaviest_chain_prefers_higher_cumulative_stake \<and>
    choose_heaviest_chain_breaks_tie_with_height_then_hash \<and>
    choose_heaviest_chain_returns_none_for_empty_input \<and>
    total_transaction_fees_sums_fees_across_transactions \<and>
    annualized_inflation_reward_matches_two_percent_for_one_year"
proof -
  note few = test_setting_fewer [OF assms(1)]
  have enc: "\<forall>t. \<exists>b. serialize (bc_transaction E) t = Inr b" "\<forall>h. \<exists>b. serialize (bc_header E) h = Inr b"
    using assms(2) by (simp_all add: propose_setting_def)
  show ?thesis
    by (intro conjI proposal_scenarios [OF assms(2)] spread_scenarios [OF enc] roundtrip_scenario [OF few(3) assms(2)]
      selection_scenarios [OF few(4)] draw_scenarios collector_scenarios [OF few(1)] finality_scenarios [OF few(1)]
      slashing_scenarios [OF few(2)] distribution_scenarios [OF few(1)] simulation_scenario [OF assms(1)]
      benchmark_scenario [OF assms] mempool_scenarios limit_scenario fork_scenarios reward_scenarios)
qed

theorem consensus_tests_pass_witness:
  "finalization_benchmark sample_consensus_env (replicate 32 1) (replicate 32 2) (replicate 32 3) (replicate 32 4) (Some 4) \<and>
   four_validator_simulation_covers_selection_fork_and_slashing sample_consensus_env (replicate 32 1) (replicate 32 2) (replicate 32 3) (replicate 32 4) \<and>
   propose_block_builds_signed_block_from_mempool sample_consensus_env (replicate 32 1) (Some 4) \<and>
   distribute_voting_rewards_splits_pool_across_voting_validators_only sample_consensus_env (replicate 32 1) (replicate 32 2) (replicate 32 3)"
  using consensus_tests_pass [OF sample_settings, of "Some 4"] by blast

end
