(* ===== verification/ShardingRuns.thy ===== *)
theory ShardingRuns
  imports ShardingTests ConsensusRuns
begin

text \<open>
  The scenarios of \<open>ShardingTests\<close> hold for every codec of transactions and every choice of different keys.
\<close>

unbundle bit_operations_syntax

section \<open>A new beacon chain\<close>

lemma config_new: "ShardingConfig_new 2 = Inr \<lparr>shard_count = 2\<rparr>" "ShardingConfig_new 4 = Inr \<lparr>shard_count = 4\<rparr>"
  by code_simp+

text \<open>What the tests observe of a beacon chain, and how each operation changes it.\<close>

definition beacon_at :: "BeaconChain \<Rightarrow> u16 \<Rightarrow> u64 \<Rightarrow> (u64 \<Rightarrow> u16 \<Rightarrow> bytes option) \<Rightarrow> bool" where
  "beacon_at bc n e R \<longleftrightarrow> beacon_inv bc \<and> shard_count (config bc) = n \<and> current_epoch bc = e \<and> state_root_for_shard bc = R"

lemma passes_beaconI:
  assumes "n \<in> {2, 4 :: u16}"
    and "\<And>bc. beacon_at bc n 0 (\<lambda>e i. if e = 0 \<and> i < n then Some EMPTY_SHARD_STATE_ROOT else None) \<Longrightarrow>
      bc_validators bc = sort_validators vs \<Longrightarrow>
      \<forall>i < unat n. committee_for_shard bc 0 (of_nat i) = Some \<lparr>sc_epoch = 0, sc_shard_id = of_nat i,
        validator_addresses = map v_address (round_robin (unat n) 0 i (shuffled_validators 0 (active_validators bc)))\<rparr> \<Longrightarrow> P bc"
  shows "passes_beacon n vs P"
proof -
  let ?bc = "\<lparr>config = \<lparr>shard_count = n\<rparr>, bc_validators = sort_validators vs, current_epoch = 0,
       shard_committees = [], shard_state_roots = []\<rparr>"
  have inv: "beacon_inv ?bc" using assms(1) by (auto simp: beacon_inv_def roots_ok_def)
  from rebuild_epoch_result [OF inv, of 0] obtain bc where bc: "rebuild_epoch ?bc 0 = Inr bc" "beacon_inv bc"
    "config bc = \<lparr>shard_count = n\<rparr>" "bc_validators bc = sort_validators vs" "current_epoch bc = 0"
    "\<forall>i < unat n. committee_for_shard bc 0 (of_nat i) = Some \<lparr>sc_epoch = 0, sc_shard_id = of_nat i,
       validator_addresses = map v_address (round_robin (unat n) 0 i (shuffled_validators 0 (active_validators ?bc)))\<rparr>"
    "\<forall>e i. state_root_for_shard bc e i = (case state_root_for_shard ?bc e i of Some v \<Rightarrow> Some v
       | None \<Rightarrow> if e = 0 \<and> i < n then Some EMPTY_SHARD_STATE_ROOT else None)" by auto
  have "P bc" by (rule assms(2)) (use bc in \<open>simp_all add: beacon_at_def active_validators_def state_root_for_shard_def fun_eq_iff\<close>)
  with bc(1) show ?thesis using assms(1) by (auto simp: passes_beacon_def config_new BeaconChain_new_def)
qed

lemma passes_storeI:
  assumes "beacon_at bc n e R" and "i < n" and "length root = 32"
    and "\<And>bc'. beacon_at bc' n e (\<lambda>e' i'. if e' = f \<and> i' = i then Some root else R e' i') \<Longrightarrow> P bc'"
  shows "passes (store_shard_state_root bc f i root) P"
proof -
  obtain bc' where st: "store_shard_state_root bc f i root = Inr bc'" using assms(1-3) by (simp add: store_cases beacon_at_def)
  have roots: "roots_ok (shard_state_roots bc)" using assms(1) by (simp add: beacon_inv_def beacon_at_def)
  have "current_epoch bc' = current_epoch bc" using st by (auto simp: store_cases split: option.splits)
  with store_roots [OF roots st] assms(1) have "P bc'"
    by (intro assms(4)) (auto simp: beacon_inv_def state_root_for_shard_map beacon_at_def fun_eq_iff)
  with st show ?thesis by simp
qed

lemma passes_updateI:
  assumes "beacon_at bc n e R" and "i < n" and "length root = 32"
    and "\<And>bc'. beacon_at bc' n e (\<lambda>e' i'. if e' = f \<and> i' = i then Some root else R e' i') \<Longrightarrow> P bc'"
  shows "passes (update_shard_state_root_from_block bc f i (shard_block root)) P"
  using passes_storeI [OF assms] by (simp add: update_shard_state_root_from_block_def shard_block_def)

lemma passes_advanceI:
  assumes "beacon_at bc n e R"
    and "\<And>bc'. beacon_at bc' n (e + 1) (\<lambda>e' i. case R e' i of Some v \<Rightarrow> Some v
      | None \<Rightarrow> if e' = e + 1 \<and> i < n then Some EMPTY_SHARD_STATE_ROOT else None) \<Longrightarrow> P bc'"
  shows "passes (advance_epoch bc) P"
proof -
  have bc: "beacon_inv bc" "current_epoch bc = e" "shard_count (config bc) = n" "state_root_for_shard bc = R"
    using assms(1) by (simp_all add: beacon_at_def)
  from rebuild_epoch_result [OF bc(1), of "e + 1"] obtain bc' where bc': "rebuild_epoch bc (e + 1) = Inr bc'" "beacon_inv bc'"
    "config bc' = config bc" "current_epoch bc' = e + 1"
    "\<forall>e' i. state_root_for_shard bc' e' i = (case R e' i of Some v \<Rightarrow> Some v
       | None \<Rightarrow> if e' = e + 1 \<and> i < n then Some EMPTY_SHARD_STATE_ROOT else None)"
    unfolding bc(3,4) by auto
  then have "P bc'" using bc(3) by (intro assms(2)) (simp add: beacon_at_def fun_eq_iff)
  with bc' bc show ?thesis by (simp add: advance_epoch_def)
qed

section \<open>Configuration and scores\<close>

lemma config_scenarios:
  "custom_shard_count_must_be_a_power_of_two" "governance_can_update_shard_count_to_another_power_of_two"
  by code_simp+

lemma score_scenario: "epoch_changes_assignment_score"
  unfolding epoch_changes_assignment_score_def assignment_score_def splitmix64_inj absorb_inj xor_left_inj by simp

section \<open>State roots\<close>

lemma observed_root: "beacon_at bc n e R \<Longrightarrow> state_root_for_shard bc e' i = R e' i"
  by (simp add: beacon_at_def)

lemma root_scenarios:
  "shard_state_roots_are_initialized_and_updatable" "beacon_chain_updates_shard_state_root_from_block"
  "beacon_chain_tracks_shard_state_updates_across_epochs" "storing_state_root_rejects_invalid_shard_id"
proof -
  show "shard_state_roots_are_initialized_and_updatable"
    unfolding shard_state_roots_are_initialized_and_updatable_def SHARD_STATE_ROOT_LENGTH_def
    by (intro passes_beaconI conjI, simp, simp add: observed_root, rule passes_storeI, assumption) (simp_all add: observed_root)
  show "beacon_chain_updates_shard_state_root_from_block"
    unfolding beacon_chain_updates_shard_state_root_from_block_def SHARD_STATE_ROOT_LENGTH_def
    by (intro passes_beaconI, simp, rule passes_updateI, assumption) (simp_all add: observed_root)
  show "beacon_chain_tracks_shard_state_updates_across_epochs"
    unfolding beacon_chain_tracks_shard_state_updates_across_epochs_def SHARD_STATE_ROOT_LENGTH_def
    by (intro passes_beaconI, simp, rule passes_updateI, assumption, simp, simp, rule passes_advanceI, assumption,
      rule passes_updateI, assumption) (simp_all add: observed_root)
  show "storing_state_root_rejects_invalid_shard_id"
    unfolding storing_state_root_rejects_invalid_shard_id_def
    by (intro passes_beaconI) (simp_all add: store_shard_state_root_def validate_shard_id_def beacon_at_def)
qed

lemma passes_and_then: "passes (and_then r f) P = passes r (\<lambda>x. passes (f x) P)"
  by (cases r) simp_all

lemma passes_update_rootsI:
  assumes "beacon_at bc n e R" and "\<forall>(i, b) \<in> set us. i < n"
    and "\<And>bc'. beacon_at bc' n e (foldl (\<lambda>R (i, b) e' i'. if e' = 0 \<and> i' = i then Some (replicate 32 b) else R e' i') R us) \<Longrightarrow> P bc'"
  shows "passes (update_roots us bc) P"
  using assms
proof (induction us arbitrary: bc R)
  case (Cons u us)
  obtain i b where u: "u = (i, b)" by (cases u)
  show ?case
    unfolding u update_roots.simps passes_and_then
    using Cons.prems by (intro passes_updateI [OF Cons.prems(1)]) (auto simp: u intro: Cons.IH)
qed simp

lemma compromised_scenario: "compromised_shard_state_root_does_not_affect_other_shards"
  unfolding compromised_shard_state_root_does_not_affect_other_shards_def
  by (intro passes_beaconI, simp, rule passes_update_rootsI, assumption) (simp_all add: observed_root)

section \<open>Committees\<close>

lemma mset_sort_validators: "mset (sort_validators vs) = mset vs"
  by (simp add: sort_validators_def)

lemma mset_shuffled_filter: "mset (shuffled_validators e vs) = mset (filter (\<lambda>v. v_stake v > 0) vs)"
  by (simp add: shuffled_validators_def)

lemma mset_three:
  assumes "mset xs = {#a, b, c#}"
  obtains x y z where "xs = [x, y, z]"
  using that arg_cong [OF assms, of size] by (auto simp: length_Suc_conv eval_nat_numeral)

lemma mset_two:
  assumes "mset xs = {#a, b#}"
  obtains "xs = [a, b]" | "xs = [b, a]"
proof -
  have "length xs = 2" using arg_cong [OF assms, of size] by simp
  then obtain x y where "xs = [x, y]" by (auto simp: length_Suc_conv numeral_2_eq_2)
  with assms that show thesis by (auto simp: add_eq_conv_ex)
qed

lemma mset_four:
  assumes "mset xs = {#a, b, c, d#}"
  obtains w x y z where "xs = [w, x, y, z]"
  using that arg_cong [OF assms, of size] by (auto simp: length_Suc_conv eval_nat_numeral)

lemma ids_distinct: "(replicate 32 x = replicate 32 y) = (x = (y :: u8))"
  by (auto dest: arg_cong [where f = hd])

lemma committee_scenario: "beacon_chain_assigns_all_active_validators_to_committees"
proof -
  let ?vs = "[validator_with_id 1 10, validator_with_id 2 20, validator_with_id 3 30, validator_with_id 4 0]"
  let ?ws = "shuffled_validators 0 (filter (\<lambda>v. v_stake v > 0) (sort_validators ?vs))"
  have ms: "mset ?ws = {#validator_with_id 1 10, validator_with_id 2 20, validator_with_id 3 30#}"
    unfolding mset_shuffled_filter mset_filter mset_sort_validators by (simp add: validator_with_id_def)
  then obtain x y z where ws: "?ws = [x, y, z]" by (rule mset_three)
  let ?g = "\<lambda>i. \<lparr>sc_epoch = 0, sc_shard_id = of_nat i :: u16, validator_addresses = map v_address (round_robin 4 0 i ?ws)\<rparr>"
  have sorted: "sort_key (\<lambda>a. (sc_epoch a, sc_shard_id a)) (map ?g [0..<4]) = map ?g [0..<4]"
    by (intro sort_key_id_if_sorted) (simp add: upt_rec)
  have addresses: "set_mset (mset (map v_address ?ws)) = {replicate 32 1, replicate 32 2, replicate 32 3}"
    unfolding mset_map ms by (simp add: validator_with_id_def)
  have "map ?g [0..<4] = [?g 0, ?g 1, ?g 2, ?g 3]" by (simp add: upt_rec numeral_2_eq_2 numeral_3_eq_3)
  moreover have "\<exists>bc. BeaconChain_new \<lparr>shard_count = 4\<rparr> ?vs = Inr bc \<and> committees_for_epoch bc 0 = map ?g [0..<4]"
    by (simp add: BeaconChain_new_def rebuild_epoch_def replace_committees_for_epoch_def initialize_state_roots_for_epoch_def
        active_validators_def build_committee_assignments_eq committees_for_epoch_def sorted)
  ultimately obtain bc where bc: "BeaconChain_new \<lparr>shard_count = 4\<rparr> ?vs = Inr bc"
      "committees_for_epoch bc 0 = [?g 0, ?g 1, ?g 2, ?g 3]" by auto
  have "k \<in> {v_address x, v_address y, v_address z} \<longleftrightarrow> k \<in> {replicate 32 1, replicate 32 2, replicate 32 3}" for k
    using addresses by (simp add: ws)
  from this [of "replicate 32 1"] this [of "replicate 32 2"] this [of "replicate 32 3"] this [of "replicate 32 4"] bc
  show ?thesis
    unfolding beacon_chain_assigns_all_active_validators_to_committees_def passes_beacon_def
    by (simp add: config_new ids_distinct ws)
qed

section \<open>Cross-shard transactions\<close>

lemma phases_run:
  assumes "beacon_at bc 4 e R" and "s < 4" "d < 4" "s \<noteq> d" and "\<forall>t. \<exists>b. serialize (bc_transaction E) t = Inr b"
    and tx: "tx = sample_cross_shard_transaction s d n"
  shows "\<exists>h. prepare_cross_shard_transaction E bc tx = Inr (xs_state tx h [Prepare]) \<and>
    validate_cross_shard_transaction bc (xs_state tx h [Prepare]) = Inr (xs_state tx h [Prepare, Validate]) \<and>
    commit_cross_shard_transaction bc (xs_state tx h [Prepare]) = Inl DestinationShardNotValidated \<and>
    commit_cross_shard_transaction bc (xs_state tx h [Prepare, Validate]) = Inr (xs_state tx h [Prepare, Validate, Commit]) \<and>
    route_ok bc tx"
proof -
  have route: "route_ok bc tx" using assms(1-4) by (simp add: tx route_ok_def beacon_at_def sample_cross_shard_transaction_def)
  obtain h where "build_cross_shard_transaction_hash E tx = Inr h"
    using assms(5) [rule_format, of tx] by (auto simp: build_cross_shard_transaction_hash_def)
  with route show ?thesis
    by (intro exI [of _ h])
      (simp add: prepare_cross_shard_transaction_def validate_cross_shard_transaction_def commit_cross_shard_transaction_def xs_state_def)
qed

lemma refusal_scenarios:
  "prepare_rejects_same_shard_transaction E" "prepare_rejects_invalid_source_shard E" "prepare_rejects_invalid_destination_shard E"
proof -
  have le: "\<not> (4 :: u16) \<le> 1" by (simp add: word_le_nat_alt)
  note run = prepare_cross_shard_transaction_def validate_cross_shard_route_def validate_shard_id_def beacon_at_def
    sample_cross_shard_transaction_def is_cross_shard_def le
  show "prepare_rejects_same_shard_transaction E"
    unfolding prepare_rejects_same_shard_transaction_def by (intro passes_beaconI) (simp_all add: run)
  show "prepare_rejects_invalid_source_shard E"
    unfolding prepare_rejects_invalid_source_shard_def by (intro passes_beaconI) (simp_all add: run)
  show "prepare_rejects_invalid_destination_shard E"
    unfolding prepare_rejects_invalid_destination_shard_def by (intro passes_beaconI) (simp_all add: run)
qed

lemma passes_phasesI:
  assumes "\<forall>t. \<exists>b. serialize (bc_transaction E) t = Inr b" and "s < 4" "d < 4" "s \<noteq> d"
    and "tx = sample_cross_shard_transaction s d n"
  shows "(\<And>bc h. route_ok bc tx \<Longrightarrow> P bc (xs_state tx h [Prepare, Validate])) \<Longrightarrow> passes_validated E vs tx P"
    and "(\<And>bc h. route_ok bc tx \<Longrightarrow> P bc (xs_state tx h [Prepare, Validate, Commit])) \<Longrightarrow> passes_committed E vs tx P"
proof -
  note run = phases_run [OF _ assms(2-4) assms(1) assms(5)]
  show "passes_validated E vs tx P" if "\<And>bc h. route_ok bc tx \<Longrightarrow> P bc (xs_state tx h [Prepare, Validate])"
    unfolding passes_validated_def by (intro passes_beaconI) (use that in \<open>auto dest!: run\<close>)
  show "passes_committed E vs tx P" if "\<And>bc h. route_ok bc tx \<Longrightarrow> P bc (xs_state tx h [Prepare, Validate, Commit])"
    unfolding passes_committed_def passes_validated_def by (intro passes_beaconI) (use that in \<open>auto dest!: run\<close>)
qed

lemma length_receipt_proof: "length (build_receipt_proof h phase s d) = RECEIPT_PROOF_LENGTH"
  by (simp add: build_receipt_proof_def RECEIPT_PROOF_LENGTH_def)

lemma flipped_proof:
  assumes "p \<noteq> []"
  shows "p[0 := (p ! 0) XOR 0xFF] \<noteq> (p :: bytes)"
proof -
  have "bit (x XOR 0xFF) 0 \<noteq> bit x 0" for x :: u8 by (simp add: bit_xor_iff)
  then have "(p ! 0) XOR 0xFF \<noteq> p ! 0" by metis
  with assms show ?thesis by (metis length_greater_0_conv nth_list_update_eq)
qed

lemma phase_scenarios:
  assumes "\<forall>t. \<exists>b. serialize (bc_transaction E) t = Inr b"
  shows "cross_shard_transaction_prepare_validate_commit_generates_receipts E"
    "cross_shard_commit_requires_destination_validation E"
    "beacon_chain_validates_cross_shard_proofs_and_global_finality E"
    "cross_shard_global_finality_is_false_until_commit_phase E"
    "receipts_can_be_included_in_block E"
proof -
  note seen = xs_state_def build_cross_shard_receipt_def length_receipt_proof
  have final: "is_cross_shard_execution_globally_finalized bc (xs_state tx h phases) = Inr (phases = [Prepare, Validate, Commit])"
    if "route_ok bc tx" "phases \<in> {[Prepare, Validate], [Prepare, Validate, Commit]}" for bc tx h phases
    using that xs_state_proofs [OF that(1), of phases h] by (auto simp: is_cross_shard_execution_globally_finalized_def xs_state_def)
  show "cross_shard_transaction_prepare_validate_commit_generates_receipts E"
    unfolding cross_shard_transaction_prepare_validate_commit_generates_receipts_def
    by (intro passes_beaconI, simp) (drule phases_run [OF _ _ _ _ assms refl, of _ 0 _ 0 3 9], auto simp: seen)
  show "cross_shard_commit_requires_destination_validation E"
    unfolding cross_shard_commit_requires_destination_validation_def
    by (intro passes_beaconI, simp) (drule phases_run [OF _ _ _ _ assms refl, of _ 0 _ 0 1 11], auto)
  show "beacon_chain_validates_cross_shard_proofs_and_global_finality E"
    unfolding beacon_chain_validates_cross_shard_proofs_and_global_finality_def
    by (rule passes_phasesI(2) [OF assms _ _ _ refl]) (simp_all add: xs_state_proofs final)
  show "cross_shard_global_finality_is_false_until_commit_phase E"
    unfolding cross_shard_global_finality_is_false_until_commit_phase_def
    by (rule passes_phasesI(1) [OF assms _ _ _ refl]) (simp_all add: xs_state_proofs final)
  show "receipts_can_be_included_in_block E"
    unfolding receipts_can_be_included_in_block_def
    by (rule passes_phasesI(2) [OF assms _ _ _ refl]) (simp_all add: seen include_receipts_in_block_def shard_block_def)
qed

lemma tampered_scenario:
  assumes "\<forall>t. \<exists>b. serialize (bc_transaction E) t = Inr b"
  shows "beacon_chain_rejects_tampered_cross_shard_receipt_proof E"
  unfolding beacon_chain_rejects_tampered_cross_shard_receipt_proof_def
proof (rule passes_phasesI(2) [OF assms _ _ _ refl])
  let ?tx = "sample_cross_shard_transaction 0 3 23"
  fix bc h assume route: "route_ok bc ?tx"
  let ?r = "build_cross_shard_receipt ?tx h"
  let ?ex = "(xs_state ?tx h [Prepare, Validate, Commit])\<lparr>xs_receipts := [?r Prepare, flip_proof_byte (?r Validate), ?r Commit]\<rparr>"
  have "build_receipt_proof h Validate 0 3 \<noteq> []"
    using length_receipt_proof [of h Validate 0 3] by (auto simp: RECEIPT_PROOF_LENGTH_def)
  from flipped_proof [OF this] have "r_proof (flip_proof_byte (?r Validate)) \<noteq> build_receipt_proof h Validate 0 3"
    by (simp add: flip_proof_byte_def build_cross_shard_receipt_def sample_cross_shard_transaction_def)
  then have "receipts_loop bc ?ex (zip (xs_receipts ?ex) [Prepare, Validate, Commit]) = Inl (InvalidReceiptProof Validate)"
    using route by (simp add: validate_cross_shard_receipt_def xs_state_def)
      (simp add: build_cross_shard_receipt_def flip_proof_byte_def sample_cross_shard_transaction_def)
  with route have "validate_cross_shard_execution_proofs bc ?ex = Inl (InvalidReceiptProof Validate)"
    by (simp add: validate_cross_shard_execution_proofs_def expected_receipt_phases_def xs_state_def)
  then show "validate_cross_shard_execution_proofs bc ((xs_state ?tx h [Prepare, Validate, Commit])\<lparr>xs_receipts :=
      (xs_receipts (xs_state ?tx h [Prepare, Validate, Commit]))
        [1 := flip_proof_byte (xs_receipts (xs_state ?tx h [Prepare, Validate, Commit]) ! 1)]\<rparr>) = Inl (InvalidReceiptProof Validate)"
    by (simp add: xs_state_def)
qed simp_all

section \<open>Consensus in a shard\<close>

lemma shard_committee:
  assumes "test_setting E [a, b, c, d]"
    and vs: "vs = [shard_validator_from_pair E a 10, shard_validator_from_pair E b 20, shard_validator_from_pair E c 30,
      shard_validator_from_pair E d 40]"
    and "beacon_at bc 2 0 R" and "bc_validators bc = sort_validators vs"
    and committees: "\<forall>i < unat (2 :: u16). committee_for_shard bc 0 (of_nat i) = Some \<lparr>sc_epoch = 0, sc_shard_id = of_nat i,
        validator_addresses = map v_address (round_robin (unat (2 :: u16)) 0 i (shuffled_validators 0 (active_validators bc)))\<rparr>"
  shows "\<exists>sh assignment x y. consensus_for_shard bc 0 0 = Inr sh \<and> collector sh = VoteCollector_new \<and> committee sh = [x, y] \<and>
    x \<in> set vs \<and> y \<in> set vs \<and> x \<noteq> y \<and> committee_for_shard bc 0 0 = Some assignment \<and>
    mset (validator_addresses assignment) = {#v_address x, v_address y#}"
proof -
  let ?ws = "shuffled_validators 0 (active_validators bc)"
  have active: "mset (active_validators bc) = mset vs"
    by (simp add: active_validators_def assms(4) mset_filter mset_sort_validators) (simp add: vs shard_validator_from_pair_def)
  have "mset ?ws = mset (filter (\<lambda>v. v_stake v > 0) vs)"
    unfolding mset_shuffled_filter mset_filter active by simp
  then have ws_mset: "mset ?ws = mset vs" by (simp add: vs shard_validator_from_pair_def)
  then obtain w0 w1 w2 w3 where ws: "?ws = [w0, w1, w2, w3]" by (simp add: vs) (erule mset_four)
  have dist: "distinct (map v_address vs)" using assms(1) by (auto simp: test_setting_def vs shard_validator_from_pair_def)
  have "distinct (map v_address ?ws)"
    using dist ws_mset by (metis mset_eq_imp_distinct_iff mset_map)
  then have addr: "v_address w0 \<noteq> v_address w2" "distinct ?ws" by (auto simp: ws)
  have inj: "inj_on v_address (set vs)" using dist by (simp add: distinct_map)
  have in_vs: "w0 \<in> set vs" "w2 \<in> set vs" using mset_eq_setD [OF ws_mset] by (auto simp: ws)
  let ?as = "\<lparr>sc_epoch = 0, sc_shard_id = 0, validator_addresses = [v_address w0, v_address w2]\<rparr>"
  have as: "committee_for_shard bc 0 0 = Some ?as"
    using committees [rule_format, of 0] by (simp add: ws)
  let ?members = "filter (\<lambda>v. v_address v \<in> {v_address w0, v_address w2}) (active_validators bc)"
  have "mset ?members = filter_mset (\<lambda>v. v \<in> {w0, w2}) (mset ?ws)"
    unfolding mset_filter active ws_mset using inj in_vs
    by (intro filter_mset_cong refl) (auto dest: inj_onD)
  also have "\<dots> = {#w0, w2#}" using addr by (auto simp: ws)
  finally have members: "mset ?members = {#w0, w2#}" .
  let ?sh = "ShardConsensus_new 0 0 (sort_validators ?members)"
  have run: "consensus_for_shard bc 0 0 = Inr ?sh"
    using as assms(3) by (simp add: consensus_for_shard_def validators_for_shard_def validate_shard_id_def beacon_at_def)
  have "mset (committee ?sh) = {#w0, w2#}" using members by (simp add: ShardConsensus_new_def mset_sort_validators)
  then consider "committee ?sh = [w0, w2]" | "committee ?sh = [w2, w0]" by (rule mset_two)
  then show ?thesis
  proof cases
    case 1
    with run as in_vs addr show ?thesis
      by (intro exI [of _ ?sh] exI [of _ ?as] exI [of _ w0] exI [of _ w2]) (auto simp: ShardConsensus_new_def)
  next
    case 2
    with run as in_vs addr show ?thesis
      by (intro exI [of _ ?sh] exI [of _ ?as] exI [of _ w2] exI [of _ w0]) (auto simp: ShardConsensus_new_def)
  qed
qed

lemma passes_shardI:
  assumes "test_setting E [a, b, c, d]"
    and "\<And>bc sh assignment x y. collector sh = VoteCollector_new \<Longrightarrow> committee sh = [x, y] \<Longrightarrow>
      x = shard_validator_from_pair E a 10 \<or> x = shard_validator_from_pair E b 20 \<or> x = shard_validator_from_pair E c 30 \<or>
      x = shard_validator_from_pair E d 40 \<Longrightarrow>
      y = shard_validator_from_pair E a 10 \<or> y = shard_validator_from_pair E b 20 \<or> y = shard_validator_from_pair E c 30 \<or>
      y = shard_validator_from_pair E d 40 \<Longrightarrow>
      x \<noteq> y \<Longrightarrow> committee_for_shard bc 0 0 = Some assignment \<Longrightarrow>
      mset (validator_addresses assignment) = {#v_address x, v_address y#} \<Longrightarrow> P bc sh"
  shows "passes_shard E a b c d P"
  unfolding passes_shard_def
proof (intro passes_beaconI)
  fix bc assume bc: "beacon_at bc 2 0 (\<lambda>e i. if e = 0 \<and> i < 2 then Some EMPTY_SHARD_STATE_ROOT else None)"
    "bc_validators bc = sort_validators [shard_validator_from_pair E a 10, shard_validator_from_pair E b 20,
      shard_validator_from_pair E c 30, shard_validator_from_pair E d 40]"
    "\<forall>i < unat (2 :: u16). committee_for_shard bc 0 (of_nat i) = Some \<lparr>sc_epoch = 0, sc_shard_id = of_nat i,
        validator_addresses = map v_address (round_robin (unat (2 :: u16)) 0 i (shuffled_validators 0 (active_validators bc)))\<rparr>"
  from shard_committee [OF assms(1) refl bc] obtain sh assignment x y where sh: "consensus_for_shard bc 0 0 = Inr sh"
    "collector sh = VoteCollector_new" "committee sh = [x, y]"
    "x = shard_validator_from_pair E a 10 \<or> x = shard_validator_from_pair E b 20 \<or> x = shard_validator_from_pair E c 30 \<or>
      x = shard_validator_from_pair E d 40"
    "y = shard_validator_from_pair E a 10 \<or> y = shard_validator_from_pair E b 20 \<or> y = shard_validator_from_pair E c 30 \<or>
      y = shard_validator_from_pair E d 40" "x \<noteq> y" "committee_for_shard bc 0 0 = Some assignment"
    "mset (validator_addresses assignment) = {#v_address x, v_address y#}" by auto
  from assms(2) [OF sh(2-8)] sh(1) show "passes (consensus_for_shard bc 0 0) (P bc)" by simp
qed simp

lemma shard_scenarios:
  assumes "test_setting E [a, b, c, d]"
  shows "beacon_chain_builds_shard_consensus_from_committee E a b c d"
    "shard_consensus_finalizes_block_with_its_committee_votes E a b c d"
    "shard_consensus_rejects_vote_from_validator_outside_committee E a b c d"
proof -
  have ne: "signing_public E a \<noteq> signing_public E b" "signing_public E a \<noteq> signing_public E c" "signing_public E b \<noteq> signing_public E c"
    "signing_public E a \<noteq> signing_public E d" "signing_public E b \<noteq> signing_public E d" "signing_public E c \<noteq> signing_public E d"
    using assms by (auto simp: test_setting_def)
  note run = signed_vote [OF assms] collect_signed [OF assms] vote_run ne ne [symmetric] shard_validator_from_pair_def
    shard_collect_vote_def shard_tally_def shard_is_finalized_def
  show "beacon_chain_builds_shard_consensus_from_committee E a b c d"
    unfolding beacon_chain_builds_shard_consensus_from_committee_def
  proof (rule passes_shardI [OF assms])
    fix bc :: BeaconChain and sh :: ShardConsensus and assignment :: ShardCommitteeAssignment and x y :: Validator
    assume sh: "collector sh = VoteCollector_new" "committee sh = [x, y]" and as: "committee_for_shard bc 0 0 = Some assignment"
      "mset (validator_addresses assignment) = {#v_address x, v_address y#}"
    have "sort (validator_addresses assignment) = sort (map v_address [x, y])"
      by (rule properties_for_sort) (use as(2) linear [of "v_address x" "v_address y"] in auto)
    with sh as(1) show "(case committee_for_shard bc 0 0 of
          Some assignment \<Rightarrow> sort (map v_address (committee sh)) = sort (validator_addresses assignment) | None \<Rightarrow> False) \<and>
        shard_vote_count sh = 0"
      by (simp add: shard_vote_count_def collector_len_def VoteCollector_new_def)
  qed
  show "shard_consensus_finalizes_block_with_its_committee_votes E a b c d"
    unfolding shard_consensus_finalizes_block_with_its_committee_votes_def
    by (rule passes_shardI [OF assms]) (elim disjE; simp add: run)
  show "shard_consensus_rejects_vote_from_validator_outside_committee E a b c d"
    unfolding shard_consensus_rejects_vote_from_validator_outside_committee_def
    by (rule passes_shardI [OF assms]) (elim disjE; simp add: run)
qed

section \<open>The tests pass\<close>

text \<open>
  The sharding layer has the outcomes that the unit tests modelled in \<open>ShardingTests\<close> assert, for every codec of transactions and
  whichever different keys are drawn: shard counts are powers of two, every active validator is in one
  committee, a state root changes in its own shard and epoch only, the committee of a shard finalises
  a block with its votes and refuses a vote from outside, and a cross-shard transaction runs through
  its three phases in order, with receipts that verify until a byte of a proof is changed.
\<close>

theorem sharding_tests_pass:
  assumes "test_setting E [a, b, c, d]" and "\<forall>t. \<exists>b. serialize (bc_transaction E) t = Inr b"
  shows "custom_shard_count_must_be_a_power_of_two \<and>
    governance_can_update_shard_count_to_another_power_of_two \<and>
    beacon_chain_assigns_all_active_validators_to_committees \<and>
    epoch_changes_assignment_score \<and>
    shard_state_roots_are_initialized_and_updatable \<and>
    beacon_chain_updates_shard_state_root_from_block \<and>
    beacon_chain_tracks_shard_state_updates_across_epochs \<and>
    storing_state_root_rejects_invalid_shard_id \<and>
    compromised_shard_state_root_does_not_affect_other_shards \<and>
    beacon_chain_builds_shard_consensus_from_committee E a b c d \<and>
    shard_consensus_finalizes_block_with_its_committee_votes E a b c d \<and>
    shard_consensus_rejects_vote_from_validator_outside_committee E a b c d \<and>
    prepare_rejects_same_shard_transaction E \<and>
    prepare_rejects_invalid_source_shard E \<and>
    prepare_rejects_invalid_destination_shard E \<and>
    cross_shard_transaction_prepare_validate_commit_generates_receipts E \<and>
    cross_shard_commit_requires_destination_validation E \<and>
    beacon_chain_validates_cross_shard_proofs_and_global_finality E \<and>
    cross_shard_global_finality_is_false_until_commit_phase E \<and>
    beacon_chain_rejects_tampered_cross_shard_receipt_proof E \<and>
    receipts_can_be_included_in_block E"
  by (intro conjI config_scenarios committee_scenario score_scenario root_scenarios compromised_scenario shard_scenarios [OF assms(1)]
    refusal_scenarios phase_scenarios [OF assms(2)] tampered_scenario [OF assms(2)])

theorem sharding_tests_pass_witness:
  "shard_consensus_finalizes_block_with_its_committee_votes sample_consensus_env (replicate 32 1) (replicate 32 2) (replicate 32 3) (replicate 32 4) \<and>
   shard_consensus_rejects_vote_from_validator_outside_committee sample_consensus_env (replicate 32 1) (replicate 32 2) (replicate 32 3) (replicate 32 4) \<and>
   beacon_chain_rejects_tampered_cross_shard_receipt_proof sample_consensus_env"
proof -
  have "\<forall>t. \<exists>b. serialize (bc_transaction sample_consensus_env) t = Inr b"
    using sample_settings(2) by (simp add: propose_setting_def)
  from sharding_tests_pass [OF sample_settings(1) this] show ?thesis by blast
qed

end
