(* ===== verification/Spending.thy ===== *)
theory Spending
  imports Privacy
begin

text \<open>
  Anonymous payments of \<open>src/src/privacy/mod.rs\<close> from end to end: the transfer circuit composed with the
  note tree whose root is its public input, with the proof system, and with the transaction that
  carries a proof. Completeness: a transfer that passes the native check becomes a transaction that
  verifies. Soundness: a transaction that verifies spends notes of the tree; the sums stay modulo
  \<open>2 ^ 64\<close>. Groth16 is a parameter with its two documented properties as hypotheses.
\<close>

text \<open>The content of a note: value, owner and blinding.\<close>

type_synonym note_opening = "u64 \<times> bytes \<times> bytes"

fun opening_ok :: "note_opening \<Rightarrow> bool" where
  "opening_ok (v, pk, r) \<longleftrightarrow> length pk = 32 \<and> length r = 32"

fun opening_preimage :: "note_opening \<Rightarrow> bytes" where
  "opening_preimage (v, pk, r) = to_le_bytes 8 v @ pk @ r"

fun opening_commitment :: "'z env_scheme \<Rightarrow> note_opening \<Rightarrow> bytes" where
  "opening_commitment E (v, pk, r) = compute_commitment E v pk r"

definition spent_opening :: "'z env_scheme \<Rightarrow> ZkNoteInputWitness \<Rightarrow> note_opening" where
  "spent_opening E x = (zi_value x, derive_note_recipient_public_key E (zi_spending_private_key x), zi_blinding x)"

definition created_opening :: "ZkNoteOutputWitness \<Rightarrow> note_opening" where
  "created_opening x = (zo_value x, zo_recipient_public_key x, zo_blinding x)"

lemma opening_preimage_inj: "opening_ok a \<Longrightarrow> opening_ok b \<Longrightarrow> opening_preimage a = opening_preimage b \<Longrightarrow> a = b"
  by (cases a; cases b) (simp add: to_le_bytes_inj)

lemma opening_commitment_digest: "opening_commitment E a = sha256_digest E (opening_preimage a)"
  by (cases a) (simp add: compute_commitment_def)

lemma opening_binding:
  assumes "inj_on (sha256_digest E) P" and "opening_preimage a \<in> P" "opening_preimage b \<in> P"
    and "opening_ok a" "opening_ok b" and "opening_commitment E a = opening_commitment E b"
  shows "a = b"
  using assms opening_preimage_inj [of a b] by (auto simp: opening_commitment_digest dest: inj_onD)

text \<open>Every byte string whose digest the argument compares.\<close>

definition spend_preimages :: "'z env_scheme \<Rightarrow> note_opening list \<Rightarrow> ZkTransferWitness \<Rightarrow> bytes set" where
  "spend_preimages E notes wit = tree_preimages E (map (opening_commitment E) notes) \<union>
     (\<Union>x \<in> set (zw_inputs wit). proof_preimages E (zi_merkle_proof x)) \<union>
     opening_preimage ` (set notes \<union> spent_opening E ` set (zw_inputs wit))"

lemma spent_note:
  assumes "sha256_spec E" and "notes \<noteq> []" and "list_all opening_ok notes"
    and "inj_on (sha256_digest E) (spend_preimages E notes wit)" and "x \<in> set (zw_inputs wit)"
    and "length (zi_blinding x) = 32" and "\<forall>s \<in> set (siblings (zi_merkle_proof x)). length s = 32"
    and "circuit_input_ok E (tree_root E (from_commitments (map (opening_commitment E) notes))) x"
  shows "spent_opening E x \<in> set notes"
proof -
  let ?P = "spend_preimages E notes wit" and ?t = "from_commitments (map (opening_commitment E) notes)"
  have in_P: "tree_preimages E (leaves ?t) \<subseteq> ?P" "proof_preimages E (zi_merkle_proof x) \<subseteq> ?P"
    "opening_preimage (spent_opening E x) \<in> ?P" "\<And>n. n \<in> set notes \<Longrightarrow> opening_preimage n \<in> ?P"
    using assms(5) by (auto simp: spend_preimages_def from_commitments_def)
  have "verify_proof E (tree_root E ?t) (zi_merkle_proof x)"
    using assms(8) by (auto simp: circuit_input_ok_def verify_proof_def compute_note_merkle_root_from_proof_def)
  then have "leaf (zi_merkle_proof x) \<in> set (leaves ?t)"
    using assms(2) by (intro verified_leaf [OF assms(1) _ assms(4) in_P(1,2) assms(7)]) (simp_all add: from_commitments_def)
  then obtain n where n: "n \<in> set notes" "opening_commitment E n = opening_commitment E (spent_opening E x)"
    using assms(8) by (auto simp: from_commitments_def circuit_input_ok_def spent_opening_def)
  have "opening_ok (spent_opening E x)"
    using assms(1,6) by (simp add: spent_opening_def derive_note_recipient_public_key_def sha256_spec_def)
  with opening_binding [OF assms(4) in_P(4) [OF n(1)] in_P(3) _ _ n(2)] n(1) assms(3) show ?thesis
    by (auto simp: list_all_iff)
qed

lemma word_sums:
  fixes xs ys :: "u64 list"
  assumes "sum_list xs = sum_list ys + fee"
  shows "(\<Sum>x\<leftarrow>xs. unat x) mod 2 ^ 64 = ((\<Sum>y\<leftarrow>ys. unat y) + unat fee) mod 2 ^ 64"
proof -
  have sum: "unat (sum_list zs) = (\<Sum>z\<leftarrow>zs. unat z) mod 2 ^ 64" for zs :: "u64 list"
    by (induction zs) (simp_all add: unat_word_ariths mod_add_right_eq)
  have "unat (sum_list xs) = unat (sum_list ys + fee)" by (simp add: assms)
  then show ?thesis by (simp add: sum unat_word_ariths mod_add_left_eq)
qed

text \<open>
  An assignment that satisfies every constraint against the root of a tree of notes opens only notes of
  that tree, each with the value, the owner and the blinding it was committed with. This holds without
  the native check, which only an honest prover runs.
\<close>

lemma zk_circuit_sound:
  assumes "sha256_spec E" and "notes \<noteq> []" and "list_all opening_ok notes"
    and "inj_on (sha256_digest E) (spend_preimages E notes wit)"
    and "\<forall>x \<in> set (zw_inputs wit). length (zi_blinding x) = 32 \<and> (\<forall>s \<in> set (siblings (zi_merkle_proof x)). length s = 32)"
    and "zp_merkle_root pub = tree_root E (from_commitments (map (opening_commitment E) notes))"
    and "length (zp_output_commitments pub) = length (zw_outputs wit)" and "list_all constraint_holds (circuit_constraints E pub wit)"
  shows "(\<forall>x \<in> set (zw_inputs wit). spent_opening E x \<in> set notes) \<and>
    zp_output_commitments pub = map (opening_commitment E \<circ> created_opening) (zw_outputs wit) \<and>
    (\<Sum>x\<leftarrow>zw_inputs wit. unat (zi_value x)) mod 2 ^ 64 =
      ((\<Sum>y\<leftarrow>zw_outputs wit. unat (zo_value y)) + unat (zp_fee pub)) mod 2 ^ 64 \<and>
    ((\<Sum>x\<leftarrow>zw_inputs wit. unat (zi_value x)) < 2 ^ 64 \<and> (\<Sum>y\<leftarrow>zw_outputs wit. unat (zo_value y)) + unat (zp_fee pub) < 2 ^ 64 \<longrightarrow>
      (\<Sum>x\<leftarrow>zw_inputs wit. unat (zi_value x)) = (\<Sum>y\<leftarrow>zw_outputs wit. unat (zo_value y)) + unat (zp_fee pub))"
proof -
  note holds = assms(8) [unfolded circuit_constraints_hold]
  have "\<forall>x \<in> set (zw_inputs wit). spent_opening E x \<in> set notes"
    using holds assms(5) by (auto simp: list_all_iff assms(6) intro: spent_note [OF assms(1-4)])
  moreover have "zp_output_commitments pub = map (opening_commitment E \<circ> created_opening) (zw_outputs wit)"
    using holds assms(7) by (intro nth_equalityI) (simp_all add: created_opening_def)
  moreover have "(\<Sum>x\<leftarrow>zw_inputs wit. unat (zi_value x)) mod 2 ^ 64 =
      ((\<Sum>y\<leftarrow>zw_outputs wit. unat (zo_value y)) + unat (zp_fee pub)) mod 2 ^ 64"
    using word_sums [of "map zi_value (zw_inputs wit)" "map zo_value (zw_outputs wit)" "zp_fee pub"] holds by (simp add: o_def)
  ultimately show ?thesis by auto
qed

section \<open>The proof system\<close>

text \<open>
  A pair of keys is made for circuits of one shape \<open>S\<close>. Completeness: from a satisfied constraint system of
  this shape a proof is created, it can be encoded, and it verifies for the public inputs. Soundness: what
  verifies has a satisfying assignment of this shape. This is an idealisation: Groth16 is sound only against
  adversaries of bounded power and when nobody knows the secrets of the setup, and false proofs exist but
  are not found. The theorems on payments are relative to it.
\<close>

definition groth16_complete :: "'z env_scheme \<Rightarrow> ('p, 'pk, 'vk, 'pvk, 'f) groth16 \<Rightarrow> 'pk \<Rightarrow> 'vk
    \<Rightarrow> (ZkTransferPublicInputs \<times> ZkTransferWitness) set \<Rightarrow> bool" where
  "groth16_complete E G pk vk S \<longleftrightarrow> (\<forall>pub wit rng. (pub, wit) \<in> S \<and> list_all constraint_holds (circuit_constraints E pub wit) \<longrightarrow>
     (\<exists>fs. zk_transfer_public_inputs_to_field_elements G pub = Inr fs \<and>
       (\<exists>pf. create_random_proof G (Inr (circuit_constraints E pub wit)) pk rng = Inr pf \<and> roundtrips (proof_codec G) pf \<and>
         groth_verify G (prepare_key G vk) pf fs = Inr True)))"

definition groth16_sound :: "'z env_scheme \<Rightarrow> ('p, 'pk, 'vk, 'pvk, 'f) groth16 \<Rightarrow> 'vk
    \<Rightarrow> (ZkTransferPublicInputs \<times> ZkTransferWitness) set \<Rightarrow> bool" where
  "groth16_sound E G vk S \<longleftrightarrow> (\<forall>pub fs pf. zk_transfer_public_inputs_to_field_elements G pub = Inr fs \<and>
     groth_verify G (prepare_key G vk) pf fs = Inr True \<longrightarrow>
     (\<exists>wit. (pub, wit) \<in> S \<and> list_all constraint_holds (circuit_constraints E pub wit)))"

text \<open>A shape fixes the number of outputs; digests, blindings and siblings are arrays of 32 bytes.\<close>

definition shape_ok :: "(ZkTransferPublicInputs \<times> ZkTransferWitness) set \<Rightarrow> bool" where
  "shape_ok S \<longleftrightarrow> (\<forall>(pub, wit) \<in> S. length (zp_output_commitments pub) = length (zw_outputs wit) \<and>
     (\<forall>x \<in> set (zw_inputs wit). length (zi_blinding x) = 32 \<and> (\<forall>s \<in> set (siblings (zi_merkle_proof x)). length s = 32)))"

lemma completed_payment:
  assumes "groth16_complete E G pk vk S" and "(pub, wit) \<in> S" and "verify_zk_transfer_public_inputs E pub wit = Inr ()"
  shows "\<exists>pf t. generate_zk_transfer_proof E G pk pub wit rng = Inr pf \<and> AnonTransaction_new G pub pf = Inr t \<and> public_inputs t = pub \<and>
    verify_zk_transfer_proof G vk pub pf = Inr True \<and> anon_verify G t vk = Inr True \<and>
    verify_with_prepared_key G t (prepare_zk_transfer_verifying_key G vk) = Inr True"
proof -
  note run = accepted_constraints [OF assms(3)]
  obtain fs pf where pf: "zk_transfer_public_inputs_to_field_elements G pub = Inr fs"
    "create_random_proof G (Inr (circuit_constraints E pub wit)) pk rng = Inr pf" "roundtrips (proof_codec G) pf"
    "groth_verify G (prepare_key G vk) pf fs = Inr True"
    using assms(1,2) run unfolding groth16_complete_def by blast
  have "generate_zk_transfer_proof E G pk pub wit rng = Inr pf"
    using assms(3) run pf(2) by (simp add: generate_zk_transfer_proof_def)
  moreover have "verify_zk_transfer_proof G vk pub pf = Inr True"
    using pf(1,4) by (simp add: verify_zk_transfer_proof_def verify_zk_transfer_proof_with_prepared_key_def
        prepare_zk_transfer_verifying_key_def)
  ultimately show ?thesis
    using anon_transaction_roundtrip [OF pf(3), of pub vk] by (auto simp: prepared_key_agrees)
qed

text \<open>
  C27. Anonymous payments are complete: when the native check accepts public inputs and a witness of the shape
  of the keys, the circuit generates its constraints, they hold, a proof is generated for every randomness, the transaction built from it carries exactly
  these public inputs, and it verifies, with the verifying key and with the prepared one.
\<close>

theorem anon_transaction_complete:
  assumes "groth16_complete E G pk vk S" and "(pub, wit) \<in> S" and "verify_zk_transfer_public_inputs E pub wit = Inr ()"
  shows "\<exists>pf t. generate_constraints E \<lparr>zc_public_inputs = pub, zc_witness = wit\<rparr> = Inr (circuit_constraints E pub wit) \<and>
    list_all constraint_holds (circuit_constraints E pub wit) \<and>
    generate_zk_transfer_proof E G pk pub wit rng = Inr pf \<and> AnonTransaction_new G pub pf = Inr t \<and> public_inputs t = pub \<and> anon_verify G t vk = Inr True \<and>
    verify_with_prepared_key G t (prepare_zk_transfer_verifying_key G vk) = Inr True"
  using completed_payment [OF assms] accepted_constraints [OF assms(3)] by blast

text \<open>
  C14. Anonymous payments are sound: behind a transaction that verifies against the root of a tree of notes there is
  a satisfying assignment of the circuit in which two of the hashed byte strings collide, or which spends only notes of that tree, each with the value
  and the owner it was committed with, where the owner is derived from the spending key; its outputs open the
  published commitments, and the values balance modulo \<open>2 ^ 64\<close>, hence exactly while the sums stay below it.
\<close>

theorem anon_transaction_sound:
  assumes "sha256_spec E" and "groth16_sound E G vk S" and "shape_ok S" and "notes \<noteq> []" and "list_all opening_ok notes"
    and "at_merkle_root t = tree_root E (from_commitments (map (opening_commitment E) notes))" and "anon_verify G t vk = Inr True"
  shows "\<exists>wit. (public_inputs t, wit) \<in> S \<and> list_all constraint_holds (circuit_constraints E (public_inputs t) wit) \<and>
    (\<not> inj_on (sha256_digest E) (spend_preimages E notes wit) \<or>
    (\<forall>x \<in> set (zw_inputs wit). spent_opening E x \<in> set notes) \<and>
    at_output_commitments t = map (opening_commitment E \<circ> created_opening) (zw_outputs wit) \<and>
    (\<Sum>x\<leftarrow>zw_inputs wit. unat (zi_value x)) mod 2 ^ 64 = ((\<Sum>y\<leftarrow>zw_outputs wit. unat (zo_value y)) + unat (at_fee t)) mod 2 ^ 64 \<and>
    ((\<Sum>x\<leftarrow>zw_inputs wit. unat (zi_value x)) < 2 ^ 64 \<and> (\<Sum>y\<leftarrow>zw_outputs wit. unat (zo_value y)) + unat (at_fee t) < 2 ^ 64 \<longrightarrow>
      (\<Sum>x\<leftarrow>zw_inputs wit. unat (zi_value x)) = (\<Sum>y\<leftarrow>zw_outputs wit. unat (zo_value y)) + unat (at_fee t)))"
proof -
  obtain pf fs where "zk_transfer_public_inputs_to_field_elements G (public_inputs t) = Inr fs"
    "groth_verify G (prepare_key G vk) pf fs = Inr True"
    using assms(7) by (auto simp: anon_verify_def verify_zk_transfer_proof_def verify_zk_transfer_proof_with_prepared_key_def
        prepare_zk_transfer_verifying_key_def result_simps)
  then obtain wit where wit: "(public_inputs t, wit) \<in> S" "list_all constraint_holds (circuit_constraints E (public_inputs t) wit)"
    using assms(2) unfolding groth16_sound_def by blast
  then have shape: "length (zp_output_commitments (public_inputs t)) = length (zw_outputs wit)"
      "\<forall>x \<in> set (zw_inputs wit). length (zi_blinding x) = 32 \<and> (\<forall>s \<in> set (siblings (zi_merkle_proof x)). length s = 32)"
    using assms(3) by (auto simp: shape_ok_def)
  have "zp_merkle_root (public_inputs t) = tree_root E (from_commitments (map (opening_commitment E) notes))"
    using assms(6) by (simp add: public_inputs_def)
  note sound = zk_circuit_sound [OF assms(1,4,5) _ shape(2) this shape(1) wit(2)]
  have "zp_output_commitments (public_inputs t) = at_output_commitments t" "zp_fee (public_inputs t) = at_fee t"
    by (simp_all add: public_inputs_def)
  with wit sound show ?thesis by (metis (no_types, lifting))
qed

section \<open>A concrete payment\<close>

text \<open>A note of value 70 in a tree of one leaf, spent into a note of value 65 with fee 5.\<close>

definition paid_notes :: "note_opening list" where
  "paid_notes = [(70, replicate 32 48, replicate 32 31)]"

definition paid_inputs :: ZkTransferPublicInputs where
  "paid_inputs = \<lparr>zp_merkle_root = replicate 32 54, zp_fee = 5, zp_output_commitments = [replicate 32 72]\<rparr>"

definition paid_witness :: ZkTransferWitness where
  "paid_witness = \<lparr>zw_inputs = [sample_zk_input], zw_outputs = [sample_zk_output]\<rparr>"

lemmas paid_simps = paid_notes_def paid_inputs_def paid_witness_def sample_zk_input_def sample_zk_output_def

text \<open>A proof system for this one payment: it proves nothing else.\<close>

definition paid_fields :: "ZkTransferPublicInputs \<Rightarrow> (bytes + u64) list" where
  "paid_fields pub = Inl (zp_merkle_root pub) # Inr (zp_fee pub) # map Inl (zp_output_commitments pub)"

definition paid_groth :: "(unit, unit, unit, unit, bytes + u64) groth16" where
  "paid_groth = \<lparr>proof_codec = \<lparr>serialize = \<lambda>_. Inr [], deserialize = \<lambda>_. Inr ()\<rparr>, prepare_key = id,
     create_random_proof = \<lambda>_ _ _. Inr (), groth_verify = \<lambda>_ _ fs. Inr (fs = paid_fields paid_inputs),
     digest_input = \<lambda>c. Some [Inl c], u64_input = \<lambda>v. Some [Inr v]\<rparr>"

lemma paid_root: "tree_root sample_env (from_commitments (map (opening_commitment sample_env) paid_notes)) = zp_merkle_root paid_inputs"
  by (simp add: tree_root_def from_commitments_def compute_root_from_leaves_def note_levels.simps compute_commitment_def
    hash_leaf_def leaf_prefix_def paid_simps sample_env_def sample_digest_def)

lemma paid_accepted: "verify_zk_transfer_public_inputs sample_env paid_inputs paid_witness = Inr ()"
  unfolding verify_zk_iff
  by (simp add: zk_input_ok_def zk_output_ok_def replicate_nonzero compute_note_merkle_root_from_proof_def compute_commitment_def
    hash_leaf_def leaf_prefix_def derive_note_recipient_public_key_def paid_simps sample_env_def sample_digest_def)

lemma paid_injective: "inj_on (sha256_digest sample_env) (spend_preimages sample_env paid_notes paid_witness)"
  by (simp add: spend_preimages_def tree_preimages_def proof_preimages_def combined_def spent_opening_def inj_on_def hash_leaf_def
    leaf_prefix_def node_prefix_def compute_commitment_def derive_note_recipient_public_key_def paid_simps
    sample_env_def sample_digest_def)

lemma paid_encoding: "zk_transfer_public_inputs_to_field_elements paid_groth pub = Inr (paid_fields pub)"
proof -
  have "digest_inputs paid_groth cs = Inr (map Inl cs)" for cs by (induction cs) (simp_all add: paid_groth_def)
  then show ?thesis by (simp add: zk_transfer_public_inputs_to_field_elements_def paid_fields_def) (simp add: paid_groth_def)
qed

lemma paid_verify: "groth_verify paid_groth k p fs = Inr (fs = paid_fields paid_inputs)"
  by (simp add: paid_groth_def)

lemma paid_fields_inj: "paid_fields a = paid_fields b \<Longrightarrow> a = b"
  by (cases a; cases b) (simp add: paid_fields_def inj_map_eq_map)

lemma paid_shape: "shape_ok {(paid_inputs, paid_witness)}"
  by (simp add: shape_ok_def paid_simps)

lemma paid_complete: "groth16_complete sample_env paid_groth () () {(paid_inputs, paid_witness)}"
  unfolding groth16_complete_def by (simp add: paid_encoding) (simp add: paid_groth_def roundtrips_def)

lemma paid_sound: "groth16_sound sample_env paid_groth () {(paid_inputs, paid_witness)}"
proof -
  have "list_all constraint_holds (circuit_constraints sample_env paid_inputs paid_witness)"
    using accepted_constraints [OF paid_accepted] by simp
  then show ?thesis
    unfolding groth16_sound_def by (auto simp: paid_encoding paid_verify dest: paid_fields_inj)
qed

theorem anon_transaction_complete_witness:
  "\<exists>pf t. generate_zk_transfer_proof sample_env paid_groth () paid_inputs paid_witness [] = Inr pf \<and>
    AnonTransaction_new paid_groth paid_inputs pf = Inr t \<and> anon_verify paid_groth t () = Inr True"
  using anon_transaction_complete [OF paid_complete _ paid_accepted, of "[]"] by auto

theorem anon_transaction_sound_witness:
  "spent_opening sample_env ` set (zw_inputs paid_witness) \<subseteq> set paid_notes \<and>
   (\<Sum>x\<leftarrow>zw_inputs paid_witness. unat (zi_value x)) mod 2 ^ 64 =
     ((\<Sum>y\<leftarrow>zw_outputs paid_witness. unat (zo_value y)) + unat (5 :: u64)) mod 2 ^ 64"
proof -
  let ?t = "\<lparr>at_merkle_root = replicate 32 54, at_fee = 5, at_output_commitments = [replicate 32 72], at_proof = []\<rparr>"
  have pub: "public_inputs ?t = paid_inputs" by (simp add: public_inputs_def paid_simps)
  have "anon_verify paid_groth ?t () = Inr True"
    by (simp add: anon_verify_def decode_proof_def pub verify_zk_transfer_proof_def verify_zk_transfer_proof_with_prepared_key_def
        paid_encoding) (simp add: paid_groth_def)
  moreover have "paid_notes \<noteq> []" "list_all opening_ok paid_notes" by (simp_all add: paid_simps)
  moreover have "at_merkle_root ?t = tree_root sample_env (from_commitments (map (opening_commitment sample_env) paid_notes))"
    unfolding paid_root by (simp add: paid_inputs_def)
  ultimately show ?thesis
    using anon_transaction_sound [OF sample_env_sha256 paid_sound paid_shape, of paid_notes ?t] paid_injective by (auto simp: pub)
qed

end
