(* ===== verification/PrivacyTests.thy ===== *)
theory PrivacyTests
  imports Conversion
begin

text \<open>
  The unit tests of \<open>src/src/privacy/mod.rs\<close> and \<open>src/src/privacy/conversion.rs\<close> as scenarios of the model:
  each test function is a predicate that runs the same calls and states the same assertions. The keys of a
  Groth16 setup and the randomness of a proof, which the tests make from seeded generators, are arguments.
  Left out are the tests that a proof is refused after its public inputs or its bytes were changed, which is the
  business of Groth16 and its encoding. The round trip of two transactions through bincode is in \<open>LedgerTests\<close>.
\<close>

unbundle bit_operations_syntax

section \<open>Fixtures\<close>

definition sample_utxo_id :: "u32 \<Rightarrow> UtxoId" where
  "sample_utxo_id index = \<lparr>u_tx_hash = replicate 32 (ucast index), u_output_index = index\<rparr>"

definition sample_recipient_public_key :: "u8 \<Rightarrow> bytes" where
  "sample_recipient_public_key seed = replicate 32 seed"

definition sample_blinding :: "u8 \<Rightarrow> bytes" where
  "sample_blinding seed = replicate 32 seed"

definition sample_spending_private_key :: "u8 \<Rightarrow> bytes" where
  "sample_spending_private_key seed = replicate 32 seed"

definition sample_viewing_key :: "u8 \<Rightarrow> bytes" where
  "sample_viewing_key seed = replicate 32 seed"

definition test_zk_input :: "u64 \<Rightarrow> u8 \<Rightarrow> u8 \<Rightarrow> NoteMerkleProof \<Rightarrow> ZkNoteInputWitness" where
  "test_zk_input value spending_key_seed blinding_seed merkle_proof =
     \<lparr>zi_value = value, zi_spending_private_key = sample_spending_private_key spending_key_seed,
      zi_blinding = sample_blinding blinding_seed, zi_merkle_proof = merkle_proof\<rparr>"

definition test_zk_output :: "u64 \<Rightarrow> u8 \<Rightarrow> u8 \<Rightarrow> ZkNoteOutputWitness" where
  "test_zk_output value recipient_seed blinding_seed =
     \<lparr>zo_value = value, zo_recipient_public_key = sample_recipient_public_key recipient_seed,
      zo_blinding = sample_blinding blinding_seed\<rparr>"

text \<open>A note for the owner of a spending key, and one for a recipient.\<close>

definition owned_note :: "'z env_scheme \<Rightarrow> u64 \<Rightarrow> u8 \<Rightarrow> u8 \<Rightarrow> (Note, NoteError) result" where
  "owned_note E value key_seed blinding_seed =
     Note_new E value (derive_note_recipient_public_key E (sample_spending_private_key key_seed)) (sample_blinding blinding_seed)"

definition plain_note :: "'z env_scheme \<Rightarrow> u64 \<Rightarrow> u8 \<Rightarrow> u8 \<Rightarrow> (Note, NoteError) result" where
  "plain_note E value recipient_seed blinding_seed =
     Note_new E value (sample_recipient_public_key recipient_seed) (sample_blinding blinding_seed)"

text \<open>Building all notes of a vector, each with \<open>expect\<close>.\<close>

fun passes_notes :: "(Note, NoteError) result list \<Rightarrow> (Note list \<Rightarrow> bool) \<Rightarrow> bool" where
  "passes_notes [] P = P []"
| "passes_notes (r # rs) P = passes r (\<lambda>note. passes_notes rs (\<lambda>notes. P (note # notes)))"

text \<open>The tree of an input note and a filler note, with the proof for the first.\<close>

definition passes_tree :: "'z env_scheme \<Rightarrow> (Note, NoteError) result \<Rightarrow> (Note, NoteError) result
    \<Rightarrow> (Note \<Rightarrow> Note \<Rightarrow> NoteMerkleTree \<Rightarrow> NoteMerkleProof \<Rightarrow> bool) \<Rightarrow> bool" where
  "passes_tree E input filler P =
     passes input (\<lambda>note. passes filler (\<lambda>filler_note.
       let tree = from_notes [note, filler_note] in
       passes (generate_proof E tree 0) (P note filler_note tree)))"

definition output_commitments_of :: "'z env_scheme \<Rightarrow> ZkNoteOutputWitness list \<Rightarrow> bytes list" where
  "output_commitments_of E outs = map (\<lambda>x. compute_commitment E (zo_value x) (zo_recipient_public_key x) (zo_blinding x)) outs"

text \<open>\<open>bytes[0] ^= 0x01\<close>\<close>

definition flip_first :: "bytes \<Rightarrow> bytes" where
  "flip_first b = b[0 := b ! 0 XOR 1]"

definition flip_sibling :: "NoteMerkleProof \<Rightarrow> NoteMerkleProof" where
  "flip_sibling p = p\<lparr>siblings := (siblings p)[0 := flip_first (siblings p ! 0)]\<rparr>"

section \<open>The UTXO model\<close>

definition utxo_transaction_consumes_inputs_and_creates_outputs :: bool where
  "utxo_transaction_consumes_inputs_and_creates_outputs =
     (let transaction = \<lparr>u_inputs = [\<lparr>previous_output = sample_utxo_id 0\<rparr>], u_outputs = [\<lparr>uo_amount = 40\<rparr>, \<lparr>uo_amount = 55\<rparr>], u_fee = 5\<rparr> in
      input_count transaction = 1 \<and> output_count transaction = 2 \<and> validate_basic transaction = Inr ())"

definition utxo_transaction_requires_at_least_one_input :: bool where
  "utxo_transaction_requires_at_least_one_input =
     (validate_basic \<lparr>u_inputs = [], u_outputs = [\<lparr>uo_amount = 50\<rparr>], u_fee = 1\<rparr> = Inl UtxoMissingInputs)"

definition utxo_transaction_requires_at_least_one_output :: bool where
  "utxo_transaction_requires_at_least_one_output =
     (validate_basic \<lparr>u_inputs = [\<lparr>previous_output = sample_utxo_id 1\<rparr>], u_outputs = [], u_fee = 1\<rparr> = Inl UtxoMissingOutputs)"

definition utxo_transaction_rejects_zero_value_outputs :: bool where
  "utxo_transaction_rejects_zero_value_outputs =
     (validate_basic \<lparr>u_inputs = [\<lparr>previous_output = sample_utxo_id 2\<rparr>], u_outputs = [\<lparr>uo_amount = 0\<rparr>], u_fee = 1\<rparr> = Inl ZeroOutputAmount)"

section \<open>Notes\<close>

definition note_commitment_changes_when_value_changes :: "'z env_scheme \<Rightarrow> bool" where
  "note_commitment_changes_when_value_changes E =
     (let recipient = sample_recipient_public_key 7; blinding = sample_blinding 9 in
      compute_commitment E 42 recipient blinding \<noteq> compute_commitment E 43 recipient blinding)"

definition note_creation_builds_commitment_from_value_and_recipient :: "'z env_scheme \<Rightarrow> bool" where
  "note_creation_builds_commitment_from_value_and_recipient E =
     (let recipient = sample_recipient_public_key 5; blinding = sample_blinding 8 in
      passes (Note_new E 99 recipient blinding) (\<lambda>note. commitment note = compute_commitment E 99 recipient blinding))"

definition note_creation_rejects_zero_value :: "'z env_scheme \<Rightarrow> bool" where
  "note_creation_rejects_zero_value E =
     (Note_new E 0 (sample_recipient_public_key 5) (sample_blinding 8) = Inl ZeroValue)"

definition note_creation_rejects_zero_recipient_public_key :: "'z env_scheme \<Rightarrow> bool" where
  "note_creation_rejects_zero_recipient_public_key E =
     (Note_new E 10 (replicate 32 0) (sample_blinding 8) = Inl InvalidRecipientPublicKey)"

definition note_creation_rejects_zero_blinding :: "'z env_scheme \<Rightarrow> bool" where
  "note_creation_rejects_zero_blinding E =
     (Note_new E 10 (sample_recipient_public_key 5) (replicate 32 0) = Inl InvalidBlinding)"

definition viewable_note_matches_its_viewing_key :: "'z env_scheme \<Rightarrow> bool" where
  "viewable_note_matches_its_viewing_key E =
     (let viewing_key = replicate 32 81; other_viewing_key = replicate 32 82 in
      passes (ViewableNote_new E 42 (sample_recipient_public_key 83) viewing_key (sample_blinding 84) 1) (\<lambda>note.
        is_visible_to E note viewing_key \<and> \<not> is_visible_to E note other_viewing_key \<and> vn_shard_id note = 1))"

definition viewable_note_rejects_zero_viewing_key :: "'z env_scheme \<Rightarrow> bool" where
  "viewable_note_rejects_zero_viewing_key E =
     (ViewableNote_new E 42 (sample_recipient_public_key 85) (replicate 32 0) (sample_blinding 86) 0 = Inl InvalidViewingKey)"

section \<open>The note tree\<close>

definition note_merkle_tree_empty_root_is_deterministic :: "'z env_scheme \<Rightarrow> bool" where
  "note_merkle_tree_empty_root_is_deterministic E =
     (let first = tree_root E NoteMerkleTree_new; second = tree_root E NoteMerkleTree_new in
      first = second \<and> first \<noteq> replicate 32 0)"

definition note_merkle_tree_root_changes_when_notes_change :: "'z env_scheme \<Rightarrow> bool" where
  "note_merkle_tree_root_changes_when_notes_change E =
     passes_notes [plain_note E 10 1 11, plain_note E 20 2 12] (\<lambda>first_notes.
     passes_notes [plain_note E 10 1 11, plain_note E 21 2 12] (\<lambda>second_notes.
       tree_root E (from_notes first_notes) \<noteq> tree_root E (from_notes second_notes)))"

definition note_merkle_tree_append_matches_from_notes :: "'z env_scheme \<Rightarrow> bool" where
  "note_merkle_tree_append_matches_from_notes E =
     passes_notes [plain_note E 15 4 14, plain_note E 25 5 15, plain_note E 35 6 16] (\<lambda>notes.
       let appended = foldl tree_append NoteMerkleTree_new notes in
       leaf_count appended = length notes \<and> tree_root E appended = tree_root E (from_notes notes))"

definition note_merkle_tree_generates_valid_proof_for_existing_leaf :: "'z env_scheme \<Rightarrow> bool" where
  "note_merkle_tree_generates_valid_proof_for_existing_leaf E =
     passes_notes [plain_note E 11 7 17, plain_note E 22 8 18, plain_note E 33 9 19] (\<lambda>notes.
       let tree = from_notes notes; root = tree_root E tree in
       passes (generate_proof E tree 1) (\<lambda>p. leaf p = commitment (notes ! 1) \<and> verify_proof E root p))"

definition note_merkle_tree_rejects_out_of_bounds_leaf_index :: "'z env_scheme \<Rightarrow> bool" where
  "note_merkle_tree_rejects_out_of_bounds_leaf_index E =
     passes_notes [plain_note E 44 10 20] (\<lambda>notes. generate_proof E (from_notes notes) 1 = Inl (LeafIndexOutOfBounds 1 1))"

section \<open>Zk transfers\<close>

definition zk_transfer_reference_verifier_accepts_balanced_valid_witness :: "'z env_scheme \<Rightarrow> bool" where
  "zk_transfer_reference_verifier_accepts_balanced_valid_witness E =
     passes_tree E (owned_note E 70 21 31) (plain_note E 5 22 32) (\<lambda>_ _ tree merkle_proof.
       let outputs = [test_zk_output 40 41 51, test_zk_output 25 42 52] in
       verify_zk_transfer_public_inputs E
         \<lparr>zp_merkle_root = tree_root E tree, zp_fee = 5, zp_output_commitments = output_commitments_of E outputs\<rparr>
         \<lparr>zw_inputs = [test_zk_input 70 21 31 merkle_proof], zw_outputs = outputs\<rparr> = Inr ())"

definition zk_transfer_reference_verifier_rejects_amount_imbalance :: "'z env_scheme \<Rightarrow> bool" where
  "zk_transfer_reference_verifier_rejects_amount_imbalance E =
     passes_tree E (owned_note E 70 23 33) (plain_note E 6 24 34) (\<lambda>_ _ tree merkle_proof.
       let outputs = [test_zk_output 40 43 53, test_zk_output 26 44 54] in
       verify_zk_transfer_public_inputs E
         \<lparr>zp_merkle_root = tree_root E tree, zp_fee = 5, zp_output_commitments = output_commitments_of E outputs\<rparr>
         \<lparr>zw_inputs = [test_zk_input 70 23 33 merkle_proof], zw_outputs = outputs\<rparr> = Inl (AmountImbalance 70 66 5))"

definition zk_transfer_reference_verifier_rejects_invalid_merkle_proof :: "'z env_scheme \<Rightarrow> bool" where
  "zk_transfer_reference_verifier_rejects_invalid_merkle_proof E =
     passes_tree E (owned_note E 70 25 35) (plain_note E 7 26 36) (\<lambda>_ _ tree merkle_proof.
       let outputs = [test_zk_output 40 45 55, test_zk_output 25 46 56] in
       verify_zk_transfer_public_inputs E
         \<lparr>zp_merkle_root = tree_root E tree, zp_fee = 5, zp_output_commitments = output_commitments_of E outputs\<rparr>
         \<lparr>zw_inputs = [test_zk_input 70 25 35 (flip_sibling merkle_proof)], zw_outputs = outputs\<rparr> = Inl (InvalidMerkleProof 0))"

definition zk_transfer_circuit_accepts_valid_witness :: "'z env_scheme \<Rightarrow> bool" where
  "zk_transfer_circuit_accepts_valid_witness E =
     passes_tree E (owned_note E 70 61 71) (plain_note E 9 62 72) (\<lambda>_ _ tree merkle_proof.
       let outputs = [test_zk_output 40 63 73, test_zk_output 25 64 74] in
       passes (generate_constraints E
         \<lparr>zc_public_inputs = \<lparr>zp_merkle_root = tree_root E tree, zp_fee = 5, zp_output_commitments = output_commitments_of E outputs\<rparr>,
          zc_witness = \<lparr>zw_inputs = [test_zk_input 70 61 71 merkle_proof], zw_outputs = outputs\<rparr>\<rparr>) (list_all constraint_holds))"

definition zk_transfer_circuit_rejects_invalid_public_output_commitment :: "'z env_scheme \<Rightarrow> bool" where
  "zk_transfer_circuit_rejects_invalid_public_output_commitment E =
     passes_tree E (owned_note E 70 65 75) (plain_note E 10 66 76) (\<lambda>_ _ tree merkle_proof.
       let outputs = [test_zk_output 40 67 77, test_zk_output 25 68 78];
           output_commitments = output_commitments_of E outputs in
       generate_constraints E
         \<lparr>zc_public_inputs = \<lparr>zp_merkle_root = tree_root E tree, zp_fee = 5,
            zp_output_commitments = output_commitments[0 := flip_first (output_commitments ! 0)]\<rparr>,
          zc_witness = \<lparr>zw_inputs = [test_zk_input 70 65 75 merkle_proof], zw_outputs = outputs\<rparr>\<rparr> = Inl Unsatisfiable)"

section \<open>Proofs and anonymous transactions\<close>

text \<open>The reference circuit and a proof for it.\<close>

definition passes_reference_proof :: "'z env_scheme \<Rightarrow> ('p, 'pk, 'vk, 'pvk, 'f) groth16 \<Rightarrow> 'pk \<Rightarrow> bytes
    \<Rightarrow> (ZkTransferPublicInputs \<Rightarrow> 'p \<Rightarrow> bool) \<Rightarrow> bool" where
  "passes_reference_proof E G pk rng P =
     passes (build_reference_zk_transfer_setup_circuit E) (\<lambda>(circuit, _).
       passes (generate_zk_transfer_proof E G pk (zc_public_inputs circuit) (zc_witness circuit) rng) (P (zc_public_inputs circuit)))"

definition zk_transfer_groth16_proof_verifies_with_matching_public_inputs ::
    "'z env_scheme \<Rightarrow> ('p, 'pk, 'vk, 'pvk, 'f) groth16 \<Rightarrow> 'pk \<Rightarrow> 'vk \<Rightarrow> bytes \<Rightarrow> bool" where
  "zk_transfer_groth16_proof_verifies_with_matching_public_inputs E G pk vk rng =
     passes_reference_proof E G pk rng (\<lambda>inputs p. passes (verify_zk_transfer_proof G vk inputs p) (\<lambda>ok. ok))"

definition anon_transaction_verifies_with_matching_public_inputs ::
    "'z env_scheme \<Rightarrow> ('p, 'pk, 'vk, 'pvk, 'f) groth16 \<Rightarrow> 'pk \<Rightarrow> 'vk \<Rightarrow> bytes \<Rightarrow> bool" where
  "anon_transaction_verifies_with_matching_public_inputs E G pk vk rng =
     passes_reference_proof E G pk rng (\<lambda>inputs p.
       passes (AnonTransaction_new G inputs p) (\<lambda>anon_transaction.
         public_inputs anon_transaction = inputs \<and> passes (anon_verify G anon_transaction vk) (\<lambda>ok. ok)))"

definition zk_transfer_proof_generation_and_verification_succeeds ::
    "'z env_scheme \<Rightarrow> ('p, 'pk, 'vk, 'pvk, 'f) groth16 \<Rightarrow> 'pk \<Rightarrow> 'vk \<Rightarrow> bytes \<Rightarrow> bool" where
  "zk_transfer_proof_generation_and_verification_succeeds E G pk vk rng =
     passes_reference_proof E G pk rng (\<lambda>inputs p.
       passes (AnonTransaction_new G inputs p) (\<lambda>anon_transaction.
         passes (verify_with_prepared_key G anon_transaction (prepare_zk_transfer_verifying_key G vk)) (\<lambda>ok. ok)))"

text \<open>
  Two notes of one value: spending either gives the same public inputs. The assertion that the two proofs are
  different bytes is left out: it depends on the randomness of Groth16.
\<close>

definition passes_anonymous_spend :: "'z env_scheme \<Rightarrow> ('p, 'pk, 'vk, 'pvk, 'f) groth16 \<Rightarrow> 'pk \<Rightarrow> 'vk \<Rightarrow> bytes
    \<Rightarrow> ZkTransferPublicInputs \<Rightarrow> ZkTransferWitness \<Rightarrow> (AnonTransaction \<Rightarrow> bool) \<Rightarrow> bool" where
  "passes_anonymous_spend E G pk vk rng inputs witness P =
     passes (generate_zk_transfer_proof E G pk inputs witness rng) (\<lambda>p.
     passes (AnonTransaction_new G inputs p) (\<lambda>anon_transaction.
       passes (anon_verify G anon_transaction vk) (\<lambda>ok. ok) \<and> P anon_transaction))"

definition anon_transaction_public_inputs_do_not_reveal_which_same_value_note_was_spent ::
    "'z env_scheme \<Rightarrow> ('p, 'pk, 'vk, 'pvk, 'f) groth16 \<Rightarrow> 'pk \<Rightarrow> 'vk \<Rightarrow> 'pk \<Rightarrow> 'vk \<Rightarrow> bytes \<Rightarrow> bytes \<Rightarrow> bool" where
  "anon_transaction_public_inputs_do_not_reveal_which_same_value_note_was_spent E G pk1 vk1 pk2 vk2 rng1 rng2 =
     passes (owned_note E 70 87 89) (\<lambda>first_note. passes (owned_note E 70 88 90) (\<lambda>second_note.
       let tree = from_notes [first_note, second_note] in
       passes (generate_proof E tree 0) (\<lambda>first_merkle_proof. passes (generate_proof E tree 1) (\<lambda>second_merkle_proof.
         let outputs = [test_zk_output 40 91 92, test_zk_output 25 93 94];
             inputs = \<lparr>zp_merkle_root = tree_root E tree, zp_fee = 5, zp_output_commitments = output_commitments_of E outputs\<rparr>;
             first_witness = \<lparr>zw_inputs = [test_zk_input 70 87 89 first_merkle_proof], zw_outputs = outputs\<rparr>;
             second_witness = \<lparr>zw_inputs = [test_zk_input 70 88 90 second_merkle_proof], zw_outputs = outputs\<rparr> in
         verify_zk_transfer_public_inputs E inputs first_witness = Inr () \<and>
         verify_zk_transfer_public_inputs E inputs second_witness = Inr () \<and>
         passes_anonymous_spend E G pk1 vk1 rng1 inputs first_witness (\<lambda>first_anon_transaction.
         passes_anonymous_spend E G pk2 vk2 rng2 inputs second_witness (\<lambda>second_anon_transaction.
           public_inputs first_anon_transaction = public_inputs second_anon_transaction \<and>
           list_all (\<lambda>c. c \<noteq> commitment first_note \<and> c \<noteq> commitment second_note) (at_output_commitments first_anon_transaction)))))))"

section \<open>Conversion\<close>

definition conversion_account :: "u64 \<Rightarrow> Account" where
  "conversion_account balance =
     \<lparr>a_balance = balance, a_nonce = 7, a_code_hash = None, a_anonymous_state = AnonymousAccountState_default\<rparr>"

definition public_to_anon_burns_public_balance_and_creates_note_commitment :: "'z env_scheme \<Rightarrow> bool" where
  "public_to_anon_burns_public_balance_and_creates_note_commitment E =
     passes (convert_public_to_anon E (conversion_account 100)
         \<lparr>pa_amount = 40, pa_recipient_public_key = replicate 32 11, pa_viewing_key = sample_viewing_key 12,
          pa_blinding = sample_blinding 13, pa_shard_id = DEFAULT_SHARD_ID\<rparr> []) (\<lambda>result.
       a_balance (pac_account result) = 60 \<and>
       viewing_hint (a_anonymous_state (pac_account result)) = Some (vn_viewing_hint (pac_viewable_note result)) \<and>
       note_commitments (a_anonymous_state (pac_account result)) = [commitment (vn_note (pac_viewable_note result))] \<and>
       pac_merkle_root result = tree_root E (from_commitments [commitment (vn_note (pac_viewable_note result))]))"

definition public_to_anon_rejects_insufficient_public_balance :: "'z env_scheme \<Rightarrow> bool" where
  "public_to_anon_rejects_insufficient_public_balance E =
     (convert_public_to_anon E (conversion_account 10)
         \<lparr>pa_amount = 40, pa_recipient_public_key = replicate 32 21, pa_viewing_key = sample_viewing_key 22,
          pa_blinding = sample_blinding 23, pa_shard_id = DEFAULT_SHARD_ID\<rparr> [] = Inl (InsufficientPublicBalance 10 40))"

definition anon_to_public_consumes_note_and_credits_public_balance :: "'z env_scheme \<Rightarrow> bool" where
  "anon_to_public_consumes_note_and_credits_public_balance E =
     passes_tree E (owned_note E 55 31 32) (plain_note E 7 41 42) (\<lambda>note filler tree merkle_proof.
     passes (from_note E note (sample_viewing_key 33) DEFAULT_SHARD_ID) (\<lambda>viewable_note.
     passes (convert_anon_to_public E
         \<lparr>a_balance = 9, a_nonce = 8, a_code_hash = None, a_anonymous_state =
            \<lparr>viewing_hint = Some (vn_viewing_hint viewable_note), note_commitments = [commitment note]\<rparr>\<rparr>
         \<lparr>ap_amount = 55, ap_spending_private_key = sample_spending_private_key 31, ap_blinding = sample_blinding 32,
          ap_merkle_proof = merkle_proof, ap_shard_id = None\<rparr>
         [commitment note, commitment filler]) (\<lambda>result.
       a_balance (apc_account result) = 64 \<and> note_commitments (a_anonymous_state (apc_account result)) = [] \<and>
       viewing_hint (a_anonymous_state (apc_account result)) = None \<and> apc_consumed_commitment result = commitment note \<and>
       apc_merkle_root result = tree_root E (from_commitments [commitment filler]))))"

definition anon_to_public_rejects_spending_same_note_twice_after_state_update :: "'z env_scheme \<Rightarrow> bool" where
  "anon_to_public_rejects_spending_same_note_twice_after_state_update E =
     passes_tree E (owned_note E 55 41 42) (plain_note E 7 43 44) (\<lambda>note filler tree merkle_proof.
     passes (from_note E note (sample_viewing_key 45) DEFAULT_SHARD_ID) (\<lambda>viewable_note.
       let request = \<lparr>ap_amount = 55, ap_spending_private_key = sample_spending_private_key 41,
             ap_blinding = sample_blinding 42, ap_merkle_proof = merkle_proof, ap_shard_id = None\<rparr>;
           commitments = [commitment note, commitment filler] in
       passes (convert_anon_to_public E
         \<lparr>a_balance = 9, a_nonce = 8, a_code_hash = None, a_anonymous_state =
            \<lparr>viewing_hint = Some (vn_viewing_hint viewable_note), note_commitments = [commitment note]\<rparr>\<rparr>
         request commitments) (\<lambda>first_result.
         a_balance (apc_account first_result) = 64 \<and> note_commitments (a_anonymous_state (apc_account first_result)) = [] \<and>
         convert_anon_to_public E (apc_account first_result) request commitments = Inl MissingTrackedCommitment)))"

definition anon_to_public_rejects_invalid_ownership_proof :: "'z env_scheme \<Rightarrow> bool" where
  "anon_to_public_rejects_invalid_ownership_proof E =
     passes_tree E (owned_note E 20 61 62) (plain_note E 8 71 72) (\<lambda>note filler tree merkle_proof.
     passes (ok_or () (compute_viewing_hint E (sample_viewing_key 63))) (\<lambda>hint.
       convert_anon_to_public E
         \<lparr>a_balance = 3, a_nonce = 2, a_code_hash = None, a_anonymous_state =
            \<lparr>viewing_hint = Some hint, note_commitments = [commitment note]\<rparr>\<rparr>
         \<lparr>ap_amount = 20, ap_spending_private_key = sample_spending_private_key 61, ap_blinding = sample_blinding 62,
          ap_merkle_proof = merkle_proof\<lparr>leaf := commitment filler\<rparr>, ap_shard_id = None\<rparr>
         [commitment note, commitment filler] = Inl InvalidOwnershipProof))"

definition anon_to_public_rejects_invalid_merkle_proof :: "'z env_scheme \<Rightarrow> bool" where
  "anon_to_public_rejects_invalid_merkle_proof E =
     passes_tree E (owned_note E 20 51 52) (plain_note E 8 61 62) (\<lambda>note filler tree merkle_proof.
     passes (ok_or () (compute_viewing_hint E (sample_viewing_key 53))) (\<lambda>hint.
       convert_anon_to_public E
         \<lparr>a_balance = 3, a_nonce = 2, a_code_hash = None, a_anonymous_state =
            \<lparr>viewing_hint = Some hint, note_commitments = [commitment note]\<rparr>\<rparr>
         \<lparr>ap_amount = 20, ap_spending_private_key = sample_spending_private_key 51, ap_blinding = sample_blinding 52,
          ap_merkle_proof = flip_sibling merkle_proof, ap_shard_id = None\<rparr>
         [commitment note, commitment filler] = Inl ConvInvalidMerkleProof))"

end
