(* ===== verification/PrivacyRuns.thy ===== *)
theory PrivacyRuns
  imports PrivacyTests Spending
begin

text \<open>
  The scenarios of \<open>PrivacyTests\<close> hold, for every hash with 32 bytes that has no collision among the strings the
  tests hash, and every proof system that is complete for the circuits of the tests.
\<close>

unbundle bit_operations_syntax

section \<open>The setting\<close>

text \<open>The strings whose digests the tests compare: contents of notes, leaves, inner nodes and viewing keys.\<close>

definition plain_string :: "u64 \<Rightarrow> u8 \<Rightarrow> u8 \<Rightarrow> bytes" where
  "plain_string v k r = to_le_bytes 8 v @ replicate 32 k @ replicate 32 r"

definition owned_string :: "'z env_scheme \<Rightarrow> u64 \<Rightarrow> u8 \<Rightarrow> u8 \<Rightarrow> bytes" where
  "owned_string E v k r = to_le_bytes 8 v @ derive_note_recipient_public_key E (replicate 32 k) @ replicate 32 r"

definition leaf_string :: "'z env_scheme \<Rightarrow> bytes \<Rightarrow> bytes" where
  "leaf_string E s = leaf_prefix @ sha256_digest E s"

definition node_string :: "'z env_scheme \<Rightarrow> bytes \<Rightarrow> bytes \<Rightarrow> bytes" where
  "node_string E s t = node_prefix @ sha256_digest E (leaf_string E s) @ sha256_digest E (leaf_string E t)"

definition flipped_node_string :: "'z env_scheme \<Rightarrow> bytes \<Rightarrow> bytes \<Rightarrow> bytes" where
  "flipped_node_string E s t = node_prefix @ sha256_digest E (leaf_string E s) @ flip_first (sha256_digest E (leaf_string E t))"

definition viewing_string :: "u8 \<Rightarrow> bytes" where
  "viewing_string k = bytes_of ''prims-viewing-key'' @ replicate 32 k"

definition compared_strings :: "'z env_scheme \<Rightarrow> bytes list" where
  "compared_strings E =
     [plain_string 42 7 9, plain_string 43 7 9, plain_string 20 2 12, plain_string 21 2 12,
      leaf_string E (plain_string 20 2 12), leaf_string E (plain_string 21 2 12),
      node_string E (plain_string 10 1 11) (plain_string 20 2 12), node_string E (plain_string 10 1 11) (plain_string 21 2 12),
      node_string E (owned_string E 70 25 35) (plain_string 7 26 36), flipped_node_string E (owned_string E 70 25 35) (plain_string 7 26 36),
      node_string E (owned_string E 20 51 52) (plain_string 8 61 62), flipped_node_string E (owned_string E 20 51 52) (plain_string 8 61 62),
      owned_string E 20 61 62, plain_string 8 71 72, viewing_string 81, viewing_string 82,
      owned_string E 70 87 89, owned_string E 70 88 90, plain_string 40 91 92, plain_string 25 93 94]"

text \<open>The seeds of the spending keys.\<close>

definition owner_seeds :: "u8 set" where
  "owner_seeds = {21, 23, 25, 31, 41, 51, 61, 65, 87, 88}"

text \<open>No collision among these, and neither the key of an owner nor the root of the empty tree is zero.\<close>

definition privacy_setting :: "'z env_scheme \<Rightarrow> bool" where
  "privacy_setting E \<longleftrightarrow> sha256_spec E \<and> inj_on (sha256_digest E) (set (compared_strings E)) \<and> hash_empty_tree E \<noteq> zero32 \<and>
     (\<forall>k \<in> owner_seeds. derive_note_recipient_public_key E (replicate 32 k) \<noteq> zero32)"

lemmas fixtures = sample_recipient_public_key_def sample_blinding_def sample_spending_private_key_def sample_viewing_key_def
  test_zk_input_def test_zk_output_def

lemma owned_note_ok:
  assumes "privacy_setting E" and "k \<in> owner_seeds" and "v \<noteq> 0" "b \<noteq> 0"
  shows "owned_note E v k b = Inr \<lparr>commitment = sha256_digest E (owned_string E v k b)\<rparr>"
  using assms by (simp add: owned_note_def Note_new_def fixtures replicate_nonzero privacy_setting_def compute_commitment_def owned_string_def)

lemma plain_note_ok:
  "v \<noteq> 0 \<Longrightarrow> k \<noteq> 0 \<Longrightarrow> b \<noteq> 0 \<Longrightarrow> plain_note E v k b = Inr \<lparr>commitment = sha256_digest E (plain_string v k b)\<rparr>"
  by (simp add: plain_note_def Note_new_def fixtures replicate_nonzero compute_commitment_def plain_string_def)

lemma two_leaves_root: "tree_root E (from_notes [a, b]) = hash_internal E (hash_leaf E (commitment a)) (hash_leaf E (commitment b))"
  by (simp add: tree_root_def from_notes_def compute_root_from_leaves_def note_levels.simps build_next_level_def)

lemma two_leaves_proof:
  "generate_proof E (from_notes [a, b]) 0 = Inr \<lparr>leaf_index = 0, leaf = commitment a, siblings = [hash_leaf E (commitment b)]\<rparr>"
  "generate_proof E (from_notes [a, b]) 1 = Inr \<lparr>leaf_index = 1, leaf = commitment b, siblings = [hash_leaf E (commitment a)]\<rparr>"
  by (simp_all add: generate_proof_def from_notes_def proof_loop.simps build_next_level_def sibling_at_def)

lemma passes_tree_ok:
  "passes_tree E (Inr a) (Inr b) P = P a b (from_notes [a, b]) \<lparr>leaf_index = 0, leaf = commitment a, siblings = [hash_leaf E (commitment b)]\<rparr>"
  by (simp add: passes_tree_def two_leaves_proof)

lemma digest_differs:
  assumes "privacy_setting E" and "a \<in> set (compared_strings E)" "b \<in> set (compared_strings E)" and "a \<noteq> b"
  shows "sha256_digest E a \<noteq> sha256_digest E b"
  using assms by (auto simp: privacy_setting_def dest: inj_onD)

lemma flip_first_neq: "length b = 32 \<Longrightarrow> flip_first b \<noteq> b"
proof -
  assume len: "length b = 32"
  then have "flip_first b ! 0 \<noteq> b ! 0" by (simp add: flip_first_def xor_neq)
  then show ?thesis by metis
qed

lemma length_flip_first [simp]: "length (flip_first b) = length b"
  by (simp add: flip_first_def)

lemma string_facts:
  assumes "privacy_setting E"
  shows "length (sha256_digest E s) = 32" and "length (derive_note_recipient_public_key E k) = 32"
    and "plain_string v a r = plain_string w b q \<longleftrightarrow> v = w \<and> a = b \<and> r = q"
    and "owned_string E v c r = plain_string w b q \<longleftrightarrow> v = w \<and> derive_note_recipient_public_key E (replicate 32 c) = replicate 32 b \<and> r = q"
    and "viewing_string a = viewing_string b \<longleftrightarrow> a = b"
  using assms by (auto simp: privacy_setting_def sha256_spec_def derive_note_recipient_public_key_def plain_string_def owned_string_def
      viewing_string_def to_le_bytes_inj)

section \<open>The scenarios hold\<close>

lemma utxo_scenarios:
  "utxo_transaction_consumes_inputs_and_creates_outputs" "utxo_transaction_requires_at_least_one_input"
  "utxo_transaction_requires_at_least_one_output" "utxo_transaction_rejects_zero_value_outputs"
  by (simp_all add: utxo_transaction_consumes_inputs_and_creates_outputs_def utxo_transaction_requires_at_least_one_input_def
      utxo_transaction_requires_at_least_one_output_def utxo_transaction_rejects_zero_value_outputs_def
      input_count_def output_count_def validate_basic_def)

lemma note_scenarios:
  "note_creation_builds_commitment_from_value_and_recipient E" "note_creation_rejects_zero_value E"
  "note_creation_rejects_zero_recipient_public_key E" "note_creation_rejects_zero_blinding E"
  "viewable_note_rejects_zero_viewing_key E" "note_merkle_tree_append_matches_from_notes E"
  "note_merkle_tree_rejects_out_of_bounds_leaf_index E"
  by (simp_all add: note_creation_builds_commitment_from_value_and_recipient_def note_creation_rejects_zero_value_def
      note_creation_rejects_zero_recipient_public_key_def note_creation_rejects_zero_blinding_def viewable_note_rejects_zero_viewing_key_def
      note_merkle_tree_append_matches_from_notes_def note_merkle_tree_rejects_out_of_bounds_leaf_index_def plain_note_ok Let_def
      Note_new_def ViewableNote_new_def from_note_def compute_viewing_hint_def fixtures replicate_nonzero zero32_def [symmetric]
      tree_append_def NoteMerkleTree_new_def leaf_count_def from_notes_def generate_proof_def)

lemma passes_generated_proof:
  assumes "i < length (leaves t)"
  shows "passes (generate_proof E t i) (\<lambda>p. leaf p = leaves t ! i \<and> verify_proof E (tree_root E t) p)"
proof (cases "generate_proof E t i")
  case (Inl e) with assms show ?thesis by (simp add: generate_proof_def)
next
  case (Inr p) with generated_proof_verifies [OF this] show ?thesis by simp
qed

lemma valid_proof_scenario: "note_merkle_tree_generates_valid_proof_for_existing_leaf E"
  using passes_generated_proof [of 1 "from_notes [n1, n2, n3]" E for n1 n2 n3]
  by (simp add: note_merkle_tree_generates_valid_proof_for_existing_leaf_def plain_note_ok from_notes_def)

lemma digest_scenarios:
  assumes "privacy_setting E"
  shows "note_commitment_changes_when_value_changes E" "viewable_note_matches_its_viewing_key E"
    "note_merkle_tree_empty_root_is_deterministic E" "note_merkle_tree_root_changes_when_notes_change E"
proof -
  note differ = digest_differs [OF assms] and facts = string_facts [OF assms]
  show "note_commitment_changes_when_value_changes E"
    using differ [of "plain_string 42 7 9" "plain_string 43 7 9"]
    by (simp add: note_commitment_changes_when_value_changes_def compute_commitment_def fixtures compared_strings_def facts) (simp add: plain_string_def)
  show "viewable_note_matches_its_viewing_key E"
    using differ [of "viewing_string 82" "viewing_string 81"]
    by (simp add: viewable_note_matches_its_viewing_key_def ViewableNote_new_def Note_new_def from_note_def is_visible_to_def
        compute_viewing_hint_def fixtures replicate_nonzero compared_strings_def facts) (simp add: viewing_string_def)
  show "note_merkle_tree_empty_root_is_deterministic E"
    using assms by (simp add: note_merkle_tree_empty_root_is_deterministic_def NoteMerkleTree_new_def tree_root_def
        compute_root_from_leaves_def privacy_setting_def zero32_def)
  have "sha256_digest E (plain_string 20 2 12) \<noteq> sha256_digest E (plain_string 21 2 12)"
    by (rule differ) (simp_all add: compared_strings_def facts)
  then have "sha256_digest E (leaf_string E (plain_string 20 2 12)) \<noteq> sha256_digest E (leaf_string E (plain_string 21 2 12))"
    by (intro differ) (simp_all add: compared_strings_def leaf_string_def)
  then have "sha256_digest E (node_string E (plain_string 10 1 11) (plain_string 20 2 12)) \<noteq>
      sha256_digest E (node_string E (plain_string 10 1 11) (plain_string 21 2 12))"
    by (intro differ) (simp_all add: compared_strings_def node_string_def)
  then show "note_merkle_tree_root_changes_when_notes_change E"
    by (simp add: note_merkle_tree_root_changes_when_notes_change_def plain_note_ok two_leaves_root hash_internal_def hash_leaf_def
        node_string_def leaf_string_def)
qed

lemma owner_keys: "k \<in> owner_seeds \<Longrightarrow> replicate 32 k \<noteq> zero32"
  by (auto simp: owner_seeds_def replicate_nonzero)

lemma owned_commitment:
  "compute_commitment E v (derive_note_recipient_public_key E (replicate 32 k)) (replicate 32 b) = sha256_digest E (owned_string E v k b)"
  by (simp add: compute_commitment_def owned_string_def)

lemma owner_key_nonzero: "privacy_setting E \<Longrightarrow> k \<in> owner_seeds \<Longrightarrow> derive_note_recipient_public_key E (replicate 32 k) \<noteq> zero32"
  by (simp add: privacy_setting_def)

lemma checked_add_0: "checked_add 0 (v :: u64) = Some v"
proof -
  have "unat v < 2 ^ 64" using unsigned_less [of v] by simp
  then show ?thesis by (simp add: checked_add_def)
qed

text \<open>The native check on the single input of the tests.\<close>

lemma test_transfer:
  assumes "privacy_setting E" and "k \<in> owner_seeds" and "v \<noteq> 0" "b \<noteq> 0"
    and "leaf p = sha256_digest E (owned_string E v k b)" and "outs \<noteq> []" "length cs = length outs"
  shows "verify_zk_transfer_public_inputs E \<lparr>zp_merkle_root = root, zp_fee = fee, zp_output_commitments = cs\<rparr>
      \<lparr>zw_inputs = [test_zk_input v k b p], zw_outputs = outs\<rparr> =
    (if compute_note_merkle_root_from_proof E p \<noteq> root then Inl (InvalidMerkleProof 0)
     else and_then (zk_outputs_loop E cs 0 0 outs) (\<lambda>total. and_then (ok_or ZkAmountOverflow (checked_add total fee)) (\<lambda>expected.
       if v \<noteq> expected then Inl (AmountImbalance v total fee) else Inr ())))"
  using assms owner_keys owner_key_nonzero [OF assms(1,2)]
  by (simp add: verify_zk_transfer_public_inputs_def fixtures Note_new_def replicate_nonzero owned_commitment checked_add_0
      cong: if_cong)

lemma proof_root:
  "compute_note_merkle_root_from_proof E \<lparr>leaf_index = 0, leaf = c, siblings = [s]\<rparr> = hash_internal E (hash_leaf E c) s"
  "compute_note_merkle_root_from_proof E \<lparr>leaf_index = Suc 0, leaf = c, siblings = [s]\<rparr> = hash_internal E s (hash_leaf E c)"
  by (simp_all add: compute_note_merkle_root_from_proof_def)

lemma length_output_commitments [simp]: "length (output_commitments_of E outs) = length outs"
  by (simp add: output_commitments_of_def)

text \<open>With the commitments of two outputs published.\<close>

lemma test_transfer_two:
  assumes "privacy_setting E" and "k \<in> owner_seeds" and "v \<noteq> 0" "b \<noteq> 0"
    and "leaf p = sha256_digest E (owned_string E v k b)" and "x \<noteq> 0" "y \<noteq> 0" "l \<noteq> 0" "m \<noteq> 0" "c \<noteq> 0" "d \<noteq> 0"
  shows "verify_zk_transfer_public_inputs E \<lparr>zp_merkle_root = root, zp_fee = fee,
        zp_output_commitments = output_commitments_of E [test_zk_output x l c, test_zk_output y m d]\<rparr>
      \<lparr>zw_inputs = [test_zk_input v k b p], zw_outputs = [test_zk_output x l c, test_zk_output y m d]\<rparr> =
    (if compute_note_merkle_root_from_proof E p \<noteq> root then Inl (InvalidMerkleProof 0)
     else and_then (ok_or ZkAmountOverflow (checked_add x y)) (\<lambda>total. and_then (ok_or ZkAmountOverflow (checked_add total fee)) (\<lambda>expected.
       if v \<noteq> expected then Inl (AmountImbalance v total fee) else Inr ())))"
proof -
  have "and_then (ok_or ZkAmountOverflow (checked_add x y)) Inr = ok_or ZkAmountOverflow (checked_add x y)"
    by (cases "checked_add x y") simp_all
  then have "zk_outputs_loop E (output_commitments_of E [test_zk_output x l c, test_zk_output y m d]) 0 0
      [test_zk_output x l c, test_zk_output y m d] = ok_or ZkAmountOverflow (checked_add x y)"
    using assms(6-) by (simp add: output_commitments_of_def fixtures Note_new_def replicate_nonzero checked_add_0)
  with assms show ?thesis by (simp only: test_transfer list.distinct length_output_commitments not_False_eq_True)
qed

lemmas zk_run = passes_tree_ok owned_note_ok plain_note_ok owner_seeds_def two_leaves_root test_transfer_two proof_root
  checked_add_def Let_def

lemma verifier_scenarios:
  assumes "privacy_setting E"
  shows "zk_transfer_reference_verifier_accepts_balanced_valid_witness E" "zk_transfer_reference_verifier_rejects_amount_imbalance E"
  using assms
  by (simp_all add: zk_transfer_reference_verifier_accepts_balanced_valid_witness_def
      zk_transfer_reference_verifier_rejects_amount_imbalance_def zk_run)

lemma circuit_scenarios:
  assumes "privacy_setting E"
  shows "zk_transfer_circuit_accepts_valid_witness E" "zk_transfer_circuit_rejects_invalid_public_output_commitment E"
proof -
  let ?c = "\<lambda>k b filler. \<lparr>leaf_index = 0, leaf = sha256_digest E (owned_string E 70 k b), siblings = [hash_leaf E (sha256_digest E filler)]\<rparr>"
  let ?outs = "[test_zk_output 40 63 73, test_zk_output 25 64 74]"
  let ?pub = "\<lparr>zp_merkle_root = hash_internal E (hash_leaf E (sha256_digest E (owned_string E 70 61 71))) (hash_leaf E (sha256_digest E (plain_string 9 62 72))),
      zp_fee = 5, zp_output_commitments = output_commitments_of E ?outs\<rparr>"
  have "verify_zk_transfer_public_inputs E ?pub \<lparr>zw_inputs = [test_zk_input 70 61 71 (?c 61 71 (plain_string 9 62 72))], zw_outputs = ?outs\<rparr> = Inr ()"
    using assms by (simp add: zk_run)
  from accepted_constraints [OF this] show "zk_transfer_circuit_accepts_valid_witness E"
    using assms by (simp add: zk_transfer_circuit_accepts_valid_witness_def passes_tree_ok owned_note_ok plain_note_ok owner_seeds_def
        two_leaves_root Let_def)
  have "flip_first (sha256_digest E x) \<noteq> sha256_digest E x" for x
    using string_facts(1) [OF assms] by (simp add: flip_first_neq)
  then show "zk_transfer_circuit_rejects_invalid_public_output_commitment E"
    using assms by (simp add: zk_transfer_circuit_rejects_invalid_public_output_commitment_def zk_run test_transfer generate_constraints_def
        output_commitments_of_def test_zk_output_def sample_recipient_public_key_def sample_blinding_def Note_new_def replicate_nonzero
        compute_commitment_def)
qed

text \<open>A changed sibling changes the recomputed root.\<close>

lemma flipped_root:
  assumes "privacy_setting E" and "node_string E s t \<in> set (compared_strings E)" "flipped_node_string E s t \<in> set (compared_strings E)"
  shows "hash_internal E (hash_leaf E (sha256_digest E s)) (flip_first (hash_leaf E (sha256_digest E t))) \<noteq>
    hash_internal E (hash_leaf E (sha256_digest E s)) (hash_leaf E (sha256_digest E t))"
proof -
  have "flip_first (sha256_digest E (leaf_string E t)) \<noteq> sha256_digest E (leaf_string E t)"
    using string_facts(1) [OF assms(1)] by (simp add: flip_first_neq)
  then have "sha256_digest E (flipped_node_string E s t) \<noteq> sha256_digest E (node_string E s t)"
    by (intro digest_differs [OF assms(1,3,2)]) (simp add: node_string_def flipped_node_string_def)
  then show ?thesis by (simp add: hash_internal_def hash_leaf_def node_string_def flipped_node_string_def leaf_string_def)
qed

lemma flipped_sibling_proof: "flip_sibling \<lparr>leaf_index = i, leaf = c, siblings = [s]\<rparr> = \<lparr>leaf_index = i, leaf = c, siblings = [flip_first s]\<rparr>"
  by (simp add: flip_sibling_def)

lemma flipped_scenario:
  assumes "privacy_setting E"
  shows "zk_transfer_reference_verifier_rejects_invalid_merkle_proof E"
  using flipped_root [OF assms, of "owned_string E 70 25 35" "plain_string 7 26 36"] assms
  by (simp add: zk_transfer_reference_verifier_rejects_invalid_merkle_proof_def zk_run flipped_sibling_proof compared_strings_def)

lemma from_commitments_of_notes: "from_commitments (map commitment notes) = from_notes notes"
  by (simp add: from_commitments_def from_notes_def)

text \<open>Spending a note of the tests against the tree of two notes.\<close>

lemma test_conversion:
  assumes "privacy_setting E" and "k \<in> owner_seeds" and "v \<noteq> 0" "b \<noteq> 0"
  shows "convert_anon_to_public E account \<lparr>ap_amount = v, ap_spending_private_key = sample_spending_private_key k,
      ap_blinding = sample_blinding b, ap_merkle_proof = p, ap_shard_id = s\<rparr> [c, d] =
    (let own = sha256_digest E (owned_string E v k b) in
     if leaf p \<noteq> own then Inl InvalidOwnershipProof
     else if compute_note_merkle_root_from_proof E p \<noteq> hash_internal E (hash_leaf E c) (hash_leaf E d) then Inl ConvInvalidMerkleProof
     else and_then (ok_or MissingTrackedCommitment (position (\<lambda>stored. stored = own) (note_commitments (a_anonymous_state account)))) (\<lambda>i.
       and_then (ok_or MissingTreeCommitment (position (\<lambda>stored. stored = own) [c, d])) (\<lambda>j.
       and_then (ok_or BalanceOverflow (checked_add (a_balance account) v)) (\<lambda>balance.
       let tracked = remove_nth i (note_commitments (a_anonymous_state account)) in
         Inr \<lparr>apc_account = account\<lparr>a_balance := balance, a_anonymous_state :=
                 \<lparr>viewing_hint = (if tracked = [] then None else viewing_hint (a_anonymous_state account)), note_commitments = tracked\<rparr>\<rparr>,
              apc_consumed_commitment = own, apc_merkle_root = tree_root E (from_commitments (remove_nth j [c, d]))\<rparr>))))"
proof -
  have root: "tree_root E (from_commitments [c, d]) = hash_internal E (hash_leaf E c) (hash_leaf E d)"
    using two_leaves_root [of E "\<lparr>commitment = c\<rparr>" "\<lparr>commitment = d\<rparr>"] by (simp add: from_commitments_def from_notes_def)
  show ?thesis
    using assms(3,4) owner_key_nonzero [OF assms(1,2)]
    by (simp add: convert_anon_to_public_def fixtures Note_new_def replicate_nonzero owned_commitment verify_proof_def root
        compute_note_merkle_root_from_proof_def Let_def cong: if_cong)
qed

lemmas conversion_run = passes_tree_ok owned_note_ok plain_note_ok owner_seeds_def test_conversion proof_root
  from_note_def compute_viewing_hint_def remove_nth_def checked_add_def Let_def

lemma conversion_scenarios:
  assumes "privacy_setting E"
  shows "public_to_anon_burns_public_balance_and_creates_note_commitment E" "public_to_anon_rejects_insufficient_public_balance E"
    "anon_to_public_consumes_note_and_credits_public_balance E" "anon_to_public_rejects_spending_same_note_twice_after_state_update E"
    "anon_to_public_rejects_invalid_ownership_proof E" "anon_to_public_rejects_invalid_merkle_proof E"
proof -
  show "public_to_anon_burns_public_balance_and_creates_note_commitment E" "public_to_anon_rejects_insufficient_public_balance E"
    by (simp_all add: public_to_anon_burns_public_balance_and_creates_note_commitment_def public_to_anon_rejects_insufficient_public_balance_def
        convert_public_to_anon_def ViewableNote_new_def Note_new_def from_note_def compute_viewing_hint_def fixtures replicate_nonzero
        conversion_account_def AnonymousAccountState_default_def)
  show "anon_to_public_consumes_note_and_credits_public_balance E" "anon_to_public_rejects_spending_same_note_twice_after_state_update E"
    using assms by (simp_all add: anon_to_public_consumes_note_and_credits_public_balance_def
        anon_to_public_rejects_spending_same_note_twice_after_state_update_def conversion_run sample_viewing_key_def replicate_nonzero)
  have "sha256_digest E (owned_string E 20 61 62) \<noteq> sha256_digest E (plain_string 8 71 72)"
    by (rule digest_differs [OF assms]) (simp_all add: compared_strings_def string_facts [OF assms])
  then have "sha256_digest E (plain_string 8 71 72) \<noteq> sha256_digest E (owned_string E 20 61 62)" by (rule not_sym)
  then show "anon_to_public_rejects_invalid_ownership_proof E"
    using assms by (simp add: anon_to_public_rejects_invalid_ownership_proof_def conversion_run sample_viewing_key_def replicate_nonzero)
  show "anon_to_public_rejects_invalid_merkle_proof E"
    using assms flipped_root [OF assms, of "owned_string E 20 51 52" "plain_string 8 61 62"]
    by (simp add: anon_to_public_rejects_invalid_merkle_proof_def conversion_run flipped_sibling_proof sample_viewing_key_def replicate_nonzero
        compared_strings_def)
qed

section \<open>Proofs and transactions\<close>

text \<open>
  The circuits of the tests: one input whose path has one sibling, at the given index, and two outputs. The
  circuit reads the index, so that a pair of keys serves one index.
\<close>

definition test_shape :: "nat \<Rightarrow> (ZkTransferPublicInputs \<times> ZkTransferWitness) set" where
  "test_shape i = {(inputs, wit). length (zp_output_commitments inputs) = 2 \<and> length (zw_outputs wit) = 2 \<and>
     map (\<lambda>x. (leaf_index (zi_merkle_proof x), length (siblings (zi_merkle_proof x)))) (zw_inputs wit) = [(i, 1)]}"

lemma reference_shape:
  assumes "build_reference_zk_transfer_setup_circuit E = Inr (c, md)"
  shows "(zc_public_inputs c, zc_witness c) \<in> test_shape 0"
  using assms by (auto simp: build_reference_zk_transfer_setup_circuit_def result_simps Let_def generate_proof_def from_notes_def
      proof_loop.simps build_next_level_def reference_outputs_def test_shape_def)

lemma reference_scenarios:
  assumes "privacy_setting E" and "groth16_complete E G pk vk (test_shape 0)"
  shows "zk_transfer_groth16_proof_verifies_with_matching_public_inputs E G pk vk rng"
    "anon_transaction_verifies_with_matching_public_inputs E G pk vk rng"
    "zk_transfer_proof_generation_and_verification_succeeds E G pk vk rng"
proof -
  have "derive_note_recipient_public_key E (replicate 32 21) \<noteq> zero32"
    by (rule owner_key_nonzero [OF assms(1)]) (simp add: owner_seeds_def)
  from reference_circuit_ok [OF this] obtain c md where c: "build_reference_zk_transfer_setup_circuit E = Inr (c, md)"
    "verify_zk_transfer_public_inputs E (zc_public_inputs c) (zc_witness c) = Inr ()" by blast
  from completed_payment [OF assms(2) reference_shape [OF c(1)] c(2), of rng] c(1) show
    "zk_transfer_groth16_proof_verifies_with_matching_public_inputs E G pk vk rng"
    "anon_transaction_verifies_with_matching_public_inputs E G pk vk rng"
    "zk_transfer_proof_generation_and_verification_succeeds E G pk vk rng"
    by (auto simp: zk_transfer_groth16_proof_verifies_with_matching_public_inputs_def passes_reference_proof_def
        anon_transaction_verifies_with_matching_public_inputs_def zk_transfer_proof_generation_and_verification_succeeds_def)
qed

lemma passes_spend:
  assumes "groth16_complete E G pk vk S" and "(inputs, wit) \<in> S" and "verify_zk_transfer_public_inputs E inputs wit = Inr ()"
    and "\<And>t. public_inputs t = inputs \<Longrightarrow> P t"
  shows "passes_anonymous_spend E G pk vk rng inputs wit P"
  using completed_payment [OF assms(1-3), of rng] assms(4) by (auto simp: passes_anonymous_spend_def)

lemma anonymity_scenario:
  assumes "privacy_setting E" and "groth16_complete E G pk1 vk1 (test_shape 0)" "groth16_complete E G pk2 vk2 (test_shape 1)"
  shows "anon_transaction_public_inputs_do_not_reveal_which_same_value_note_was_spent E G pk1 vk1 pk2 vk2 rng1 rng2"
proof -
  let ?a = "sha256_digest E (owned_string E 70 87 89)" and ?b = "sha256_digest E (owned_string E 70 88 90)"
  let ?outs = "[test_zk_output 40 91 92, test_zk_output 25 93 94]"
  let ?pub = "\<lparr>zp_merkle_root = hash_internal E (hash_leaf E ?a) (hash_leaf E ?b), zp_fee = 5, zp_output_commitments = output_commitments_of E ?outs\<rparr>"
  let ?w1 = "\<lparr>zw_inputs = [test_zk_input 70 87 89 \<lparr>leaf_index = 0, leaf = ?a, siblings = [hash_leaf E ?b]\<rparr>], zw_outputs = ?outs\<rparr>"
  let ?w2 = "\<lparr>zw_inputs = [test_zk_input 70 88 90 \<lparr>leaf_index = Suc 0, leaf = ?b, siblings = [hash_leaf E ?a]\<rparr>], zw_outputs = ?outs\<rparr>"
  have spent: "owned_note E 70 87 89 = Inr \<lparr>commitment = ?a\<rparr>" "owned_note E 70 88 90 = Inr \<lparr>commitment = ?b\<rparr>"
    by (simp_all add: owned_note_ok [OF assms(1)] owner_seeds_def)
  have ok: "verify_zk_transfer_public_inputs E ?pub ?w1 = Inr ()" "verify_zk_transfer_public_inputs E ?pub ?w2 = Inr ()"
    using assms(1) by (simp_all add: test_transfer_two owner_seeds_def proof_root checked_add_def)
  have shape: "(?pub, ?w1) \<in> test_shape 0" "(?pub, ?w2) \<in> test_shape 1"
    by (simp_all add: test_shape_def test_zk_input_def)
  have outs: "output_commitments_of E ?outs = [sha256_digest E (plain_string 40 91 92), sha256_digest E (plain_string 25 93 94)]"
    by (simp add: output_commitments_of_def fixtures compute_commitment_def plain_string_def)
  have "sha256_digest E s \<noteq> sha256_digest E t"
    if "s \<in> {owned_string E 70 87 89, owned_string E 70 88 90}" "t \<in> {plain_string 40 91 92, plain_string 25 93 94}" for s t
    using that by (intro digest_differs [OF assms(1)]) (auto simp: compared_strings_def string_facts [OF assms(1)])
  then have "list_all (\<lambda>c. c \<noteq> ?a \<and> c \<noteq> ?b) (zp_output_commitments ?pub)"
    by (simp add: outs not_sym)
  then have hidden: "list_all (\<lambda>c. c \<noteq> ?a \<and> c \<noteq> ?b) (at_output_commitments t)" if "public_inputs t = ?pub" for t
    using arg_cong [OF that, of zp_output_commitments] by (simp add: public_inputs_def)
  have "passes_anonymous_spend E G pk1 vk1 rng1 ?pub ?w1 (\<lambda>t. passes_anonymous_spend E G pk2 vk2 rng2 ?pub ?w2 (\<lambda>u.
      public_inputs t = public_inputs u \<and> list_all (\<lambda>c. c \<noteq> ?a \<and> c \<noteq> ?b) (at_output_commitments t)))"
    using hidden by (intro passes_spend [OF assms(2) shape(1) ok(1)] passes_spend [OF assms(3) shape(2) ok(2)]) simp
  with ok show ?thesis
    by (simp add: anon_transaction_public_inputs_do_not_reveal_which_same_value_note_was_spent_def spent two_leaves_proof [unfolded One_nat_def]
        two_leaves_root Let_def)
qed

section \<open>The unit tests pass\<close>

text \<open>
  The unit tests of the privacy module and of the conversion pass, for every hash without a collision among the
  strings they compare and every proof system that is complete for their circuits.
\<close>

theorem privacy_tests_pass:
  assumes "privacy_setting E" and "groth16_complete E G pk vk (test_shape 0)" "groth16_complete E G pk' vk' (test_shape 1)"
  shows "utxo_transaction_consumes_inputs_and_creates_outputs \<and> utxo_transaction_requires_at_least_one_input \<and>
    utxo_transaction_requires_at_least_one_output \<and> utxo_transaction_rejects_zero_value_outputs \<and>
    note_commitment_changes_when_value_changes E \<and> note_creation_builds_commitment_from_value_and_recipient E \<and>
    note_creation_rejects_zero_value E \<and> note_creation_rejects_zero_recipient_public_key E \<and> note_creation_rejects_zero_blinding E \<and>
    viewable_note_matches_its_viewing_key E \<and> viewable_note_rejects_zero_viewing_key E \<and>
    note_merkle_tree_empty_root_is_deterministic E \<and> note_merkle_tree_root_changes_when_notes_change E \<and>
    note_merkle_tree_append_matches_from_notes E \<and> note_merkle_tree_generates_valid_proof_for_existing_leaf E \<and>
    note_merkle_tree_rejects_out_of_bounds_leaf_index E \<and>
    zk_transfer_reference_verifier_accepts_balanced_valid_witness E \<and> zk_transfer_reference_verifier_rejects_amount_imbalance E \<and>
    zk_transfer_reference_verifier_rejects_invalid_merkle_proof E \<and> zk_transfer_circuit_accepts_valid_witness E \<and>
    zk_transfer_circuit_rejects_invalid_public_output_commitment E \<and>
    zk_transfer_groth16_proof_verifies_with_matching_public_inputs E G pk vk rng \<and>
    anon_transaction_verifies_with_matching_public_inputs E G pk vk rng \<and>
    zk_transfer_proof_generation_and_verification_succeeds E G pk vk rng \<and>
    anon_transaction_public_inputs_do_not_reveal_which_same_value_note_was_spent E G pk vk pk' vk' rng rng' \<and>
    public_to_anon_burns_public_balance_and_creates_note_commitment E \<and> public_to_anon_rejects_insufficient_public_balance E \<and>
    anon_to_public_consumes_note_and_credits_public_balance E \<and> anon_to_public_rejects_spending_same_note_twice_after_state_update E \<and>
    anon_to_public_rejects_invalid_ownership_proof E \<and> anon_to_public_rejects_invalid_merkle_proof E"
  using utxo_scenarios note_scenarios [of E] valid_proof_scenario [of E] digest_scenarios [OF assms(1)] verifier_scenarios [OF assms(1)]
    flipped_scenario [OF assms(1)] circuit_scenarios [OF assms(1)] conversion_scenarios [OF assms(1)]
    reference_scenarios [OF assms(1,2)] anonymity_scenario [OF assms]
  by (intro conjI)

text \<open>A proof system without secrets.\<close>

definition open_groth :: "(unit, unit, unit, unit, bytes + u64) groth16" where
  "open_groth = paid_groth\<lparr>groth_verify := \<lambda>_ _ _. Inr True\<rparr>"

text \<open>The values of the hash on the strings of the tests.\<close>

lemma spread_values:
  "spread (plain_string 42 7 9) = 29213"
  "spread (plain_string 43 7 9) = 9980"
  "spread (plain_string 20 2 12) = 25331"
  "spread (plain_string 21 2 12) = 6098"
  "spread (plain_string 10 1 11) = 52797"
  "spread (plain_string 7 26 36) = 37792"
  "spread (plain_string 8 61 62) = 639"
  "spread (plain_string 8 71 72) = 10879"
  "spread (plain_string 40 91 92) = 5727"
  "spread (plain_string 25 93 94) = 34126"
  "spread (bytes_of ''prims-note-owner'' @ replicate 32 21) = 43871"
  "spread (bytes_of ''prims-note-owner'' @ replicate 32 23) = 12127"
  "spread (bytes_of ''prims-note-owner'' @ replicate 32 25) = 45919"
  "spread (bytes_of ''prims-note-owner'' @ replicate 32 31) = 16223"
  "spread (bytes_of ''prims-note-owner'' @ replicate 32 41) = 54111"
  "spread (bytes_of ''prims-note-owner'' @ replicate 32 51) = 26463"
  "spread (bytes_of ''prims-note-owner'' @ replicate 32 61) = 64351"
  "spread (bytes_of ''prims-note-owner'' @ replicate 32 65) = 863"
  "spread (bytes_of ''prims-note-owner'' @ replicate 32 87) = 44895"
  "spread (bytes_of ''prims-note-owner'' @ replicate 32 88) = 61791"
  "spread (to_le_bytes 8 (70 :: u64) @ spread_bytes 45919 @ replicate 32 35) = 19393"
  "spread (to_le_bytes 8 (20 :: u64) @ spread_bytes 26463 @ replicate 32 52) = 48499"
  "spread (to_le_bytes 8 (20 :: u64) @ spread_bytes 64351 @ replicate 32 62) = 33459"
  "spread (to_le_bytes 8 (70 :: u64) @ spread_bytes 44895 @ replicate 32 89) = 12161"
  "spread (to_le_bytes 8 (70 :: u64) @ spread_bytes 61791 @ replicate 32 90) = 63905"
  "spread (leaf_prefix @ spread_bytes 25331) = 11581"
  "spread (leaf_prefix @ spread_bytes 6098) = 54429"
  "spread (leaf_prefix @ spread_bytes 52797) = 5981"
  "spread (leaf_prefix @ spread_bytes 37792) = 55165"
  "spread (leaf_prefix @ spread_bytes 639) = 28285"
  "spread (leaf_prefix @ spread_bytes 19393) = 49389"
  "spread (leaf_prefix @ spread_bytes 48499) = 12525"
  "spread (node_prefix @ spread_bytes 5981 @ spread_bytes 11581) = 12689"
  "spread (node_prefix @ spread_bytes 5981 @ spread_bytes 54429) = 50177"
  "spread (node_prefix @ spread_bytes 49389 @ spread_bytes 55165) = 57281"
  "spread (node_prefix @ spread_bytes 12525 @ spread_bytes 28285) = 7729"
  "spread (node_prefix @ spread_bytes 49389 @ flip_first (spread_bytes 55165)) = 40930"
  "spread (node_prefix @ spread_bytes 12525 @ flip_first (spread_bytes 28285)) = 56914"
  "spread (viewing_string 81) = 41545"
  "spread (viewing_string 82) = 58441"
  "spread (bytes_of ''prims-note-merkle-empty'') = 7743"
  by code_simp+

lemma spread_nonzero: "spread_bytes h = zero32 \<longleftrightarrow> h = 0"
proof -
  have zero: "zero32 = spread_bytes 0" by (simp add: zero32_def spread_bytes_def numeral_eq_Suc)
  show ?thesis unfolding zero by (rule spread_bytes_inj)
qed

lemmas spread_eval = spread_digest spread_values spread_bytes_inj spread_nonzero

lemma spread_setting: "privacy_setting spread_env"
proof -
  have "sha256_spec spread_env" by (rule spread_env_spec)
  moreover have "distinct (map (sha256_digest spread_env) (compared_strings spread_env))"
    by (simp add: compared_strings_def owned_string_def leaf_string_def node_string_def flipped_node_string_def
        derive_note_recipient_public_key_def spread_eval)
  then have "inj_on (sha256_digest spread_env) (set (compared_strings spread_env))" by (simp add: distinct_map)
  moreover have "hash_empty_tree spread_env \<noteq> zero32" by (simp add: hash_empty_tree_def spread_eval)
  moreover have "\<forall>k \<in> owner_seeds. derive_note_recipient_public_key spread_env (replicate 32 k) \<noteq> zero32"
    by (simp add: owner_seeds_def derive_note_recipient_public_key_def spread_eval)
  ultimately show ?thesis by (simp add: privacy_setting_def)
qed

lemma open_groth_complete: "groth16_complete spread_env open_groth () () S"
proof -
  have "zk_transfer_public_inputs_to_field_elements open_groth pub = Inr (paid_fields pub)" for pub
  proof -
    have "digest_inputs open_groth cs = Inr (map Inl cs)" for cs by (induction cs) (simp_all add: open_groth_def paid_groth_def)
    then show ?thesis
      by (simp add: zk_transfer_public_inputs_to_field_elements_def paid_fields_def) (simp add: open_groth_def paid_groth_def)
  qed
  then show ?thesis unfolding groth16_complete_def by simp (simp add: open_groth_def paid_groth_def roundtrips_def)
qed

theorem privacy_tests_pass_witness:
  "zk_transfer_reference_verifier_rejects_invalid_merkle_proof spread_env \<and> anon_to_public_rejects_invalid_ownership_proof spread_env \<and>
   anon_transaction_public_inputs_do_not_reveal_which_same_value_note_was_spent spread_env open_groth () () () () [] []"
  using privacy_tests_pass [OF spread_setting open_groth_complete open_groth_complete, of "[]" "[]"] by (elim conjE, intro conjI)

end
