(* ===== verification/Bincode.thy ===== *)
theory Bincode
  imports Hash
begin

text \<open>
  A concrete instance of the codec parameters: the documented layout of bincode 1 (integers of fixed width with
  the low byte first, lengths as 64-bit integers, variants as 32-bit integers, fields in the order in which they
  are declared) for the serde types of \<open>src/src/blockchain/types.rs\<close>. The theories of the development do not depend on this
  layout; it shows that the hypothesis \<open>roundtrips\<close> can be met for every value, and the unit tests that
  mention sizes and encodings are run on it.
\<close>

section \<open>The interface\<close>

text \<open>
  A writer and a reader of a prefix of the input, and the values that they agree on. A reader leaves
  the rest of the input, as \<open>bincode::deserialize\<close> accepts trailing bytes.
\<close>

type_synonym 'a reader = "bytes \<Rightarrow> ('a \<times> bytes) option"

definition bincode_codec :: "('a \<Rightarrow> bytes) \<Rightarrow> 'a reader \<Rightarrow> 'a codec" where
  "bincode_codec enc dec = \<lparr>serialize = \<lambda>x. Inr (enc x),
     deserialize = \<lambda>bs. case dec bs of Some (x, _) \<Rightarrow> Inr x | None \<Rightarrow> Inl ''unexpected end of input''\<rparr>"

locale wire_format =
  fixes enc :: "'a \<Rightarrow> bytes" and dec :: "'a reader" and fits :: "'a \<Rightarrow> bool"
  assumes dec_enc: "fits x \<Longrightarrow> dec (enc x @ r) = Some (x, r)"
begin

lemma roundtrips_codec: "fits x \<Longrightarrow> roundtrips (bincode_codec enc dec) x"
  using dec_enc [of x "[]"] by (simp add: roundtrips_def bincode_codec_def)

lemma enc_prefix_free: "fits x \<Longrightarrow> fits y \<Longrightarrow> enc x @ r = enc y @ s \<Longrightarrow> x = y \<and> r = s"
  by (metis dec_enc option.inject prod.inject)

end

section \<open>Integers, vectors and options\<close>

definition dec_word :: "nat \<Rightarrow> ('w::len word) reader" where
  "dec_word n bs = (if length bs < n then None else Some (from_be_bytes (rev (take n bs)), drop n bs))"

lemma from_rev_to_le:
  fixes w :: "'w::len word"
  assumes "LENGTH('w) \<le> 8 * n"
  shows "from_be_bytes (rev (to_le_bytes n w)) = w"
proof -
  have "rev (to_le_bytes n w) = to_be_bytes n w" by (simp add: to_le_bytes_def to_be_bytes_def rev_map)
  with from_be_to_be [OF assms] show ?thesis by simp
qed

lemma dec_word_le:
  fixes w :: "'w::len word"
  shows "LENGTH('w) \<le> 8 * n \<Longrightarrow> dec_word n (to_le_bytes n w @ r) = Some (w, r)"
  by (simp add: dec_word_def from_rev_to_le)

interpretation wire_u16: wire_format "to_le_bytes 2 :: u16 \<Rightarrow> bytes" "dec_word 2" "\<lambda>_. True"
  by unfold_locales (simp add: dec_word_le)

interpretation wire_u32: wire_format "to_le_bytes 4 :: u32 \<Rightarrow> bytes" "dec_word 4" "\<lambda>_. True"
  by unfold_locales (simp add: dec_word_le)

interpretation wire_u64: wire_format "to_le_bytes 8 :: u64 \<Rightarrow> bytes" "dec_word 8" "\<lambda>_. True"
  by unfold_locales (simp add: dec_word_le)

definition enc_byte :: "u8 \<Rightarrow> bytes" where
  "enc_byte b = [b]"

fun dec_byte :: "u8 reader" where
  "dec_byte [] = None"
| "dec_byte (b # bs) = Some (b, bs)"

interpretation wire_byte: wire_format enc_byte dec_byte "\<lambda>_. True"
  by unfold_locales (simp add: enc_byte_def)

fun dec_times :: "'a reader \<Rightarrow> nat \<Rightarrow> 'a list reader" where
  "dec_times dec 0 bs = Some ([], bs)"
| "dec_times dec (Suc n) bs = Option.bind (dec bs) (\<lambda>(x, r). Option.bind (dec_times dec n r) (\<lambda>(xs, s). Some (x # xs, s)))"

definition enc_seq :: "('a \<Rightarrow> bytes) \<Rightarrow> 'a list \<Rightarrow> bytes" where
  "enc_seq enc xs = to_le_bytes 8 (of_nat (length xs) :: u64) @ concat (map enc xs)"

definition dec_seq :: "'a reader \<Rightarrow> 'a list reader" where
  "dec_seq dec bs = Option.bind (dec_word 8 bs) (\<lambda>(n :: u64, r). dec_times dec (unat n) r)"

definition seq_fits :: "('a \<Rightarrow> bool) \<Rightarrow> 'a list \<Rightarrow> bool" where
  "seq_fits fits xs \<longleftrightarrow> length xs < 2 ^ 64 \<and> list_all fits xs"

definition enc_option :: "('a \<Rightarrow> bytes) \<Rightarrow> 'a option \<Rightarrow> bytes" where
  "enc_option enc x = (case x of None \<Rightarrow> [0] | Some y \<Rightarrow> 1 # enc y)"

definition dec_option :: "'a reader \<Rightarrow> 'a option reader" where
  "dec_option dec bs = Option.bind (dec_byte bs) (\<lambda>(tag, r).
     if tag = 0 then Some (None, r) else if tag = 1 then map_option (map_prod Some id) (dec r) else None)"

context wire_format
begin

lemma dec_times_enc: "list_all fits xs \<Longrightarrow> dec_times dec (length xs) (concat (map enc xs) @ r) = Some (xs, r)"
  by (induction xs) (simp_all add: dec_enc)

lemma dec_seq_enc: "seq_fits fits xs \<Longrightarrow> dec_seq dec (enc_seq enc xs @ r) = Some (xs, r)"
  by (simp add: seq_fits_def dec_seq_def enc_seq_def wire_u64.dec_enc unat_of_nat dec_times_enc)

lemma dec_option_enc: "pred_option fits x \<Longrightarrow> dec_option dec (enc_option enc x @ r) = Some (x, r)"
  by (cases x) (simp_all add: dec_option_def enc_option_def dec_enc)

end

text \<open>\<open>Vec<u8>\<close> and \<open>String\<close>.\<close>

abbreviation enc_bytes :: "bytes \<Rightarrow> bytes" where
  "enc_bytes \<equiv> enc_seq enc_byte"

abbreviation dec_bytes :: "bytes reader" where
  "dec_bytes \<equiv> dec_seq dec_byte"

abbreviation bytes_fit :: "bytes \<Rightarrow> bool" where
  "bytes_fit \<equiv> seq_fits (\<lambda>_. True)"

interpretation wire_bytes: wire_format enc_bytes dec_bytes bytes_fit
  by unfold_locales (rule wire_byte.dec_seq_enc)

lemma length_enc_bytes [simp]: "length (enc_bytes b) = 8 + length b"
proof -
  have "concat (map enc_byte b) = b" by (induction b) (simp_all add: enc_byte_def)
  then show ?thesis by (simp add: enc_seq_def)
qed

lemma bytes_fit [simp]: "bytes_fit b \<longleftrightarrow> length b < 2 ^ 64"
  by (simp add: seq_fits_def list_all_iff)

section \<open>The types of the chain\<close>

fun enc_tx_type :: "TransactionType \<Rightarrow> bytes" where
  "enc_tx_type Transfer = to_le_bytes 4 (0 :: u32)"
| "enc_tx_type (Stake duration) = to_le_bytes 4 (1 :: u32) @ to_le_bytes 8 duration"
| "enc_tx_type Unstake = to_le_bytes 4 (2 :: u32)"
| "enc_tx_type PublicToAnon = to_le_bytes 4 (3 :: u32)"
| "enc_tx_type AnonToPublic = to_le_bytes 4 (4 :: u32)"
| "enc_tx_type DeployContract = to_le_bytes 4 (5 :: u32)"
| "enc_tx_type CallContract = to_le_bytes 4 (6 :: u32)"

definition dec_tx_type :: "TransactionType reader" where
  "dec_tx_type bs = Option.bind (dec_word 4 bs) (\<lambda>(tag :: u32, r).
     if tag = 1 then map_option (map_prod Stake id) (dec_word 8 r)
     else map_option (\<lambda>k. (k, r)) (map_of [(0, Transfer), (2, Unstake), (3, PublicToAnon), (4, AnonToPublic), (5, DeployContract),
       (6, CallContract)] tag))"

interpretation wire_tx_type: wire_format enc_tx_type dec_tx_type "\<lambda>_. True"
proof
  fix k r
  show "dec_tx_type (enc_tx_type k @ r) = Some (k, r)"
    by (cases k) (simp_all add: dec_tx_type_def dec_word_le)
qed

fun enc_phase :: "CrossShardPhase \<Rightarrow> bytes" where
  "enc_phase Prepare = to_le_bytes 4 (0 :: u32)"
| "enc_phase Validate = to_le_bytes 4 (1 :: u32)"
| "enc_phase Commit = to_le_bytes 4 (2 :: u32)"

definition dec_phase :: "CrossShardPhase reader" where
  "dec_phase bs = Option.bind (dec_word 4 bs) (\<lambda>(tag :: u32, r).
     map_option (\<lambda>k. (k, r)) (map_of [(0, Prepare), (1, Validate), (2, Commit)] tag))"

interpretation wire_phase: wire_format enc_phase dec_phase "\<lambda>_. True"
proof
  fix k r
  show "dec_phase (enc_phase k @ r) = Some (k, r)"
    by (cases k) (simp_all add: dec_phase_def dec_word_le)
qed

definition enc_transaction :: "Transaction \<Rightarrow> bytes" where
  "enc_transaction t = enc_tx_type (tx_type t) @ enc_bytes (tx_from t) @ enc_bytes (tx_to t) @ to_le_bytes 8 (tx_amount t) @
     to_le_bytes 8 (tx_fee t) @ to_le_bytes 8 (tx_nonce t) @ to_le_bytes 2 (tx_source_shard t) @ to_le_bytes 2 (tx_destination_shard t) @
     enc_bytes (tx_signature t) @ enc_option enc_bytes (tx_data t)"

definition dec_transaction :: "Transaction reader" where
  "dec_transaction bs =
     Option.bind (dec_tx_type bs) (\<lambda>(ty, bs). Option.bind (dec_bytes bs) (\<lambda>(from, bs). Option.bind (dec_bytes bs) (\<lambda>(to, bs).
     Option.bind (dec_word 8 bs) (\<lambda>(amount, bs). Option.bind (dec_word 8 bs) (\<lambda>(fee, bs). Option.bind (dec_word 8 bs) (\<lambda>(nonce, bs).
     Option.bind (dec_word 2 bs) (\<lambda>(source, bs). Option.bind (dec_word 2 bs) (\<lambda>(destination, bs).
     Option.bind (dec_bytes bs) (\<lambda>(signature, bs). Option.bind (dec_option dec_bytes bs) (\<lambda>(data, bs).
       Some (\<lparr>tx_type = ty, tx_from = from, tx_to = to, tx_amount = amount, tx_fee = fee, tx_nonce = nonce, tx_source_shard = source,
         tx_destination_shard = destination, tx_signature = signature, tx_data = data\<rparr>, bs)))))))))))"

definition transaction_fits :: "Transaction \<Rightarrow> bool" where
  "transaction_fits t \<longleftrightarrow> bytes_fit (tx_from t) \<and> bytes_fit (tx_to t) \<and> bytes_fit (tx_signature t) \<and> pred_option bytes_fit (tx_data t)"

lemmas wire_reads = wire_tx_type.dec_enc wire_phase.dec_enc wire_bytes.dec_enc wire_bytes.dec_option_enc wire_bytes.dec_seq_enc
  dec_word_le

interpretation wire_transaction: wire_format enc_transaction dec_transaction transaction_fits
  by unfold_locales (simp add: enc_transaction_def dec_transaction_def transaction_fits_def wire_reads del: bytes_fit)

definition enc_header :: "BlockHeader \<Rightarrow> bytes" where
  "enc_header h = to_le_bytes 4 (h_version h) @ enc_bytes (h_previous_hash h) @ enc_bytes (h_merkle_root h) @
     to_le_bytes 8 (h_timestamp h) @ to_le_bytes 8 (h_height h) @ enc_bytes (h_validator h) @ enc_bytes (h_signature h)"

definition dec_header :: "BlockHeader reader" where
  "dec_header bs =
     Option.bind (dec_word 4 bs) (\<lambda>(version, bs). Option.bind (dec_bytes bs) (\<lambda>(previous, bs). Option.bind (dec_bytes bs) (\<lambda>(root, bs).
     Option.bind (dec_word 8 bs) (\<lambda>(timestamp, bs). Option.bind (dec_word 8 bs) (\<lambda>(height, bs).
     Option.bind (dec_bytes bs) (\<lambda>(validator, bs). Option.bind (dec_bytes bs) (\<lambda>(signature, bs).
       Some (\<lparr>h_version = version, h_previous_hash = previous, h_merkle_root = root, h_timestamp = timestamp, h_height = height,
         h_validator = validator, h_signature = signature\<rparr>, bs))))))))"

definition header_fits :: "BlockHeader \<Rightarrow> bool" where
  "header_fits h \<longleftrightarrow> bytes_fit (h_previous_hash h) \<and> bytes_fit (h_merkle_root h) \<and> bytes_fit (h_validator h) \<and> bytes_fit (h_signature h)"

interpretation wire_header: wire_format enc_header dec_header header_fits
  by unfold_locales (simp add: enc_header_def dec_header_def header_fits_def wire_reads del: bytes_fit)

definition enc_receipt :: "CrossShardReceipt \<Rightarrow> bytes" where
  "enc_receipt r = enc_bytes (r_tx_hash r) @ to_le_bytes 2 (r_source_shard r) @ to_le_bytes 2 (r_destination_shard r) @
     enc_phase (r_phase r) @ enc_bytes (r_proof r)"

definition dec_receipt :: "CrossShardReceipt reader" where
  "dec_receipt bs =
     Option.bind (dec_bytes bs) (\<lambda>(tx_hash, bs). Option.bind (dec_word 2 bs) (\<lambda>(source, bs). Option.bind (dec_word 2 bs) (\<lambda>(destination, bs).
     Option.bind (dec_phase bs) (\<lambda>(phase, bs). Option.bind (dec_bytes bs) (\<lambda>(receipt_proof, bs).
       Some (\<lparr>r_tx_hash = tx_hash, r_source_shard = source, r_destination_shard = destination, r_phase = phase, r_proof = receipt_proof\<rparr>, bs))))))"

definition receipt_fits :: "CrossShardReceipt \<Rightarrow> bool" where
  "receipt_fits r \<longleftrightarrow> bytes_fit (r_tx_hash r) \<and> bytes_fit (r_proof r)"

interpretation wire_receipt: wire_format enc_receipt dec_receipt receipt_fits
  by unfold_locales (simp add: enc_receipt_def dec_receipt_def receipt_fits_def wire_reads del: bytes_fit)

definition enc_block :: "Block \<Rightarrow> bytes" where
  "enc_block b = enc_header (b_header b) @ enc_seq enc_transaction (b_transactions b) @ enc_seq enc_receipt (b_receipts b)"

definition dec_block :: "Block reader" where
  "dec_block bs =
     Option.bind (dec_header bs) (\<lambda>(header, bs). Option.bind (dec_seq dec_transaction bs) (\<lambda>(transactions, bs).
     Option.bind (dec_seq dec_receipt bs) (\<lambda>(receipts, bs).
       Some (\<lparr>b_header = header, b_transactions = transactions, b_receipts = receipts\<rparr>, bs))))"

definition block_fits :: "Block \<Rightarrow> bool" where
  "block_fits b \<longleftrightarrow> header_fits (b_header b) \<and> seq_fits transaction_fits (b_transactions b) \<and> seq_fits receipt_fits (b_receipts b)"

interpretation wire_block: wire_format enc_block dec_block block_fits
  by unfold_locales (simp add: enc_block_def dec_block_def block_fits_def wire_header.dec_enc wire_transaction.dec_seq_enc
      wire_receipt.dec_seq_enc)

definition enc_account :: "Account \<Rightarrow> bytes" where
  "enc_account a = to_le_bytes 8 (a_balance a) @ to_le_bytes 8 (a_nonce a) @ enc_option enc_bytes (a_code_hash a) @
     enc_option enc_bytes (viewing_hint (a_anonymous_state a)) @ enc_seq enc_bytes (note_commitments (a_anonymous_state a))"

definition dec_account :: "Account reader" where
  "dec_account bs =
     Option.bind (dec_word 8 bs) (\<lambda>(balance, bs). Option.bind (dec_word 8 bs) (\<lambda>(nonce, bs).
     Option.bind (dec_option dec_bytes bs) (\<lambda>(code_hash, bs). Option.bind (dec_option dec_bytes bs) (\<lambda>(hint, bs).
     Option.bind (dec_seq dec_bytes bs) (\<lambda>(commitments, bs).
       Some (\<lparr>a_balance = balance, a_nonce = nonce, a_code_hash = code_hash,
         a_anonymous_state = \<lparr>viewing_hint = hint, note_commitments = commitments\<rparr>\<rparr>, bs))))))"

definition account_fits :: "Account \<Rightarrow> bool" where
  "account_fits a \<longleftrightarrow> pred_option bytes_fit (a_code_hash a) \<and> pred_option bytes_fit (viewing_hint (a_anonymous_state a)) \<and>
     seq_fits bytes_fit (note_commitments (a_anonymous_state a))"

interpretation wire_account: wire_format enc_account dec_account account_fits
  by unfold_locales (simp add: enc_account_def dec_account_def account_fits_def wire_reads del: bytes_fit)

definition enc_contract :: "Contract \<Rightarrow> bytes" where
  "enc_contract c = enc_bytes (c_code_wasm c) @ enc_bytes (c_storage_root c)"

definition dec_contract :: "Contract reader" where
  "dec_contract bs =
     Option.bind (dec_bytes bs) (\<lambda>(code, bs). Option.bind (dec_bytes bs) (\<lambda>(root, bs).
       Some (\<lparr>c_code_wasm = code, c_storage_root = root\<rparr>, bs)))"

definition contract_fits :: "Contract \<Rightarrow> bool" where
  "contract_fits c \<longleftrightarrow> bytes_fit (c_code_wasm c) \<and> bytes_fit (c_storage_root c)"

interpretation wire_contract: wire_format enc_contract dec_contract contract_fits
  by unfold_locales (simp add: enc_contract_def dec_contract_def contract_fits_def wire_reads del: bytes_fit)

definition enc_validator :: "Validator \<Rightarrow> bytes" where
  "enc_validator v = enc_bytes (v_address v) @ to_le_bytes 8 (v_stake v) @ to_le_bytes 8 (v_locked_until v)"

definition dec_validator :: "Validator reader" where
  "dec_validator bs =
     Option.bind (dec_bytes bs) (\<lambda>(address, bs). Option.bind (dec_word 8 bs) (\<lambda>(stake, bs). Option.bind (dec_word 8 bs) (\<lambda>(locked, bs).
       Some (\<lparr>v_address = address, v_stake = stake, v_locked_until = locked\<rparr>, bs))))"

interpretation wire_validator: wire_format enc_validator dec_validator "\<lambda>v. bytes_fit (v_address v)"
  by unfold_locales (simp add: enc_validator_def dec_validator_def wire_reads del: bytes_fit)

text \<open>A \<open>String\<close> is its bytes; the texts of the model have characters below 128 where they are encoded.\<close>

definition enc_payload :: "ContractCallPayload \<Rightarrow> bytes" where
  "enc_payload p = enc_bytes (bytes_of (p_method p)) @ enc_bytes (p_params p) @ to_le_bytes 8 (p_gas_limit p)"

definition dec_payload :: "ContractCallPayload reader" where
  "dec_payload bs =
     Option.bind (dec_bytes bs) (\<lambda>(m, bs). if list_all (\<lambda>b. b < 128) m
       then Option.bind (dec_bytes bs) (\<lambda>(params, bs). Option.bind (dec_word 8 bs) (\<lambda>(gas, bs).
         Some (\<lparr>p_method = map (\<lambda>b. char_of (unat b)) m, p_params = params, p_gas_limit = gas\<rparr>, bs)))
       else None)"

definition payload_fits :: "ContractCallPayload \<Rightarrow> bool" where
  "payload_fits p \<longleftrightarrow> list_all (\<lambda>c. of_char c < (128 :: nat)) (p_method p) \<and> length (p_method p) < 2 ^ 64 \<and> bytes_fit (p_params p)"

lemma ascii_bytes:
  assumes "list_all (\<lambda>c. of_char c < (128 :: nat)) m"
  shows "list_all (\<lambda>b. b < 128) (bytes_of m)" and "map (\<lambda>b. char_of (unat b)) (bytes_of m) = m"
proof -
  show "list_all (\<lambda>b. b < 128) (bytes_of m)"
    using assms by (simp add: bytes_of_def list_all_iff word_less_nat_alt unat_of_char)
  show "map (\<lambda>b. char_of (unat b)) (bytes_of m) = m"
    by (simp add: bytes_of_def unat_of_char o_def)
qed

interpretation wire_payload: wire_format enc_payload dec_payload payload_fits
proof
  fix p r
  assume fits: "payload_fits p"
  then have "bytes_fit (bytes_of (p_method p))" "bytes_fit (p_params p)" by (simp_all add: payload_fits_def)
  with fits show "dec_payload (enc_payload p @ r) = Some (p, r)"
    by (simp add: enc_payload_def dec_payload_def payload_fits_def wire_reads ascii_bytes del: bytes_fit)
qed

section \<open>The instance\<close>

definition bincode_env :: "'z env_scheme \<Rightarrow> 'z env_scheme" where
  "bincode_env E = E\<lparr>bc_transaction := bincode_codec enc_transaction dec_transaction, bc_header := bincode_codec enc_header dec_header,
     bc_block := bincode_codec enc_block dec_block, bc_account := bincode_codec enc_account dec_account,
     bc_contract := bincode_codec enc_contract dec_contract, bc_payload := bincode_codec enc_payload dec_payload,
     bc_validator := bincode_codec enc_validator dec_validator, bc_u64 := bincode_codec (to_le_bytes 8) (dec_word 8)\<rparr>"

lemma bincode_env_sel [simp]:
  "sha256_digest (bincode_env E) = sha256_digest E" "signing_public (bincode_env E) = signing_public E"
  "signing_sign (bincode_env E) = signing_sign E" "verifying_key_ok (bincode_env E) = verifying_key_ok E"
  "verifying_verify (bincode_env E) = verifying_verify E"
  by (simp_all add: bincode_env_def)

lemma bincode_env_serialize [simp]:
  "serialize (bc_transaction (bincode_env E)) t = Inr (enc_transaction t)" "serialize (bc_header (bincode_env E)) h = Inr (enc_header h)"
  "serialize (bc_block (bincode_env E)) b = Inr (enc_block b)"
  by (simp_all add: bincode_env_def bincode_codec_def)

lemma bincode_env_spec [simp]: "sha256_spec (bincode_env E) = sha256_spec E" "ed25519_spec (bincode_env E) = ed25519_spec E"
  by (simp_all add: sha256_spec_def ed25519_spec_def)

text \<open>The codecs of this instance round-trip every value whose lengths can be written, whatever the rest of the parameters is.\<close>

lemma bincode_roundtrips:
  "transaction_fits t \<Longrightarrow> roundtrips (bc_transaction (bincode_env E)) t"
  "header_fits h \<Longrightarrow> roundtrips (bc_header (bincode_env E)) h"
  "block_fits b \<Longrightarrow> roundtrips (bc_block (bincode_env E)) b"
  "account_fits a \<Longrightarrow> roundtrips (bc_account (bincode_env E)) a"
  "contract_fits c \<Longrightarrow> roundtrips (bc_contract (bincode_env E)) c"
  "payload_fits p \<Longrightarrow> roundtrips (bc_payload (bincode_env E)) p"
  "bytes_fit (v_address v) \<Longrightarrow> roundtrips (bc_validator (bincode_env E)) v"
  "roundtrips (bc_u64 (bincode_env E)) n"
  by (simp_all add: bincode_env_def wire_transaction.roundtrips_codec wire_header.roundtrips_codec wire_block.roundtrips_codec
      wire_account.roundtrips_codec wire_contract.roundtrips_codec wire_payload.roundtrips_codec wire_validator.roundtrips_codec
      wire_u64.roundtrips_codec del: bytes_fit)

end
