(* ===== verification/LedgerTests.thy ===== *)
theory LedgerTests
  imports Validation Bincode
begin

text \<open>
  The unit tests of \<open>src/src/blockchain/types.rs\<close>, \<open>src/src/blockchain/hash.rs\<close>, \<open>src/src/blockchain/validation.rs\<close> and
  \<open>src/src/crypto/mod.rs\<close> as scenarios of the model: each test function is a predicate that runs the same
  calls and states the same assertions. The secret key, which the tests draw at random, is an argument. Left out
  are the tests that only call a function twice, those that change a signed payload or a signature, and the
  test that random keys are not zero.
\<close>

unbundle bit_operations_syntax

section \<open>Encodings\<close>

text \<open>\<open>serialize\<close>, \<open>deserialize\<close> and the comparison, with \<open>expect\<close> on both.\<close>

definition passes_roundtrip :: "'a codec \<Rightarrow> 'a \<Rightarrow> bool" where
  "passes_roundtrip c x = passes (serialize c x) (\<lambda>encoded. passes (deserialize c encoded) (\<lambda>decoded. decoded = x))"

definition block_structures_roundtrip_with_bincode :: "'z env_scheme \<Rightarrow> bool" where
  "block_structures_roundtrip_with_bincode E =
     (let tx = \<lparr>tx_type = Transfer, tx_from = [1, 2, 3], tx_to = [4, 5, 6], tx_amount = 42, tx_fee = FIXED_TRANSACTION_FEE, tx_nonce = 7,
            tx_source_shard = 1, tx_destination_shard = 2, tx_signature = [9, 9, 9], tx_data = Some [8, 8]\<rparr>;
          receipt = \<lparr>r_tx_hash = replicate 32 5, r_source_shard = 1, r_destination_shard = 2, r_phase = Prepare,
            r_proof = replicate RECEIPT_PROOF_LENGTH 4\<rparr>;
          header = \<lparr>h_version = 1, h_previous_hash = replicate 32 0, h_merkle_root = replicate 32 1, h_timestamp = 1710000000, h_height = 1,
            h_validator = replicate 32 7, h_signature = replicate 64 6\<rparr>;
          block = \<lparr>b_header = header, b_transactions = [tx], b_receipts = [receipt]\<rparr>;
          account = \<lparr>a_balance = 1000, a_nonce = 2, a_code_hash = Some (replicate 32 3), a_anonymous_state =
            \<lparr>viewing_hint = Some (replicate 32 4), note_commitments = [replicate 32 5, replicate 32 6]\<rparr>\<rparr> in
      passes_roundtrip (bc_block E) block \<and> passes_roundtrip (bc_account E) account)"

definition validator_structure_roundtrip_with_bincode :: "'z env_scheme \<Rightarrow> bool" where
  "validator_structure_roundtrip_with_bincode E =
     passes_roundtrip (bc_validator E) \<lparr>v_address = replicate 32 9, v_stake = 100000, v_locked_until = 1710086400\<rparr>"

definition wasm_magic :: "u8 \<Rightarrow> bytes" where
  "wasm_magic version = [0, 97, 115, 109, 1, 0, 0, version]"

definition contract_structure_roundtrip_with_bincode :: "'z env_scheme \<Rightarrow> bool" where
  "contract_structure_roundtrip_with_bincode E =
     passes_roundtrip (bc_contract E) \<lparr>c_code_wasm = wasm_magic 0, c_storage_root = replicate 32 8\<rparr>"

definition call_contract_transaction_roundtrip_with_bincode :: "'z env_scheme \<Rightarrow> bool" where
  "call_contract_transaction_roundtrip_with_bincode E =
     (let payload = \<lparr>p_method = ''increment'', p_params = bytes_of ''{\"delta\":1}'', p_gas_limit = 50000\<rparr> in
      passes (serialize (bc_payload E) payload) (\<lambda>data.
        let tx = \<lparr>tx_type = CallContract, tx_from = replicate 32 1, tx_to = replicate 32 2, tx_amount = 0, tx_fee = FIXED_TRANSACTION_FEE,
              tx_nonce = 3, tx_source_shard = DEFAULT_SHARD_ID, tx_destination_shard = DEFAULT_SHARD_ID, tx_signature = replicate 64 7,
              tx_data = Some data\<rparr> in
        passes (serialize (bc_transaction E) tx) (\<lambda>encoded_tx. passes (deserialize (bc_transaction E) encoded_tx) (\<lambda>decoded_tx.
          decoded_tx = tx \<and>
          passes (ok_or () (tx_data decoded_tx)) (\<lambda>bytes. passes (deserialize (bc_payload E) bytes) (\<lambda>decoded_payload.
            decoded_payload = payload))))))"

definition special_transactions_roundtrip_with_bincode :: "'z env_scheme \<Rightarrow> bool" where
  "special_transactions_roundtrip_with_bincode E =
     (let stake_tx = \<lparr>tx_type = Stake 86400, tx_from = replicate 32 1, tx_to = replicate 32 0, tx_amount = 50000,
            tx_fee = FIXED_TRANSACTION_FEE, tx_nonce = 1, tx_source_shard = DEFAULT_SHARD_ID, tx_destination_shard = DEFAULT_SHARD_ID,
            tx_signature = replicate 64 7, tx_data = None\<rparr>;
          unstake_tx = \<lparr>tx_type = Unstake, tx_from = replicate 32 1, tx_to = replicate 32 0, tx_amount = 0,
            tx_fee = FIXED_TRANSACTION_FEE, tx_nonce = 2, tx_source_shard = DEFAULT_SHARD_ID, tx_destination_shard = DEFAULT_SHARD_ID,
            tx_signature = replicate 64 8, tx_data = None\<rparr> in
      passes_roundtrip (bc_transaction E) stake_tx \<and> passes_roundtrip (bc_transaction E) unstake_tx)"

definition conversion_transaction_types_roundtrip_with_bincode :: "'z env_scheme \<Rightarrow> bool" where
  "conversion_transaction_types_roundtrip_with_bincode E =
     (let public_to_anon_tx = \<lparr>tx_type = PublicToAnon, tx_from = replicate 32 1, tx_to = replicate 32 2, tx_amount = 42,
            tx_fee = FIXED_TRANSACTION_FEE, tx_nonce = 9, tx_source_shard = DEFAULT_SHARD_ID, tx_destination_shard = DEFAULT_SHARD_ID,
            tx_signature = replicate 64 3, tx_data = Some (bytes_of ''public-to-anon'')\<rparr>;
          anon_to_public_tx = \<lparr>tx_type = AnonToPublic, tx_from = replicate 32 4, tx_to = replicate 32 5, tx_amount = 24,
            tx_fee = FIXED_TRANSACTION_FEE, tx_nonce = 10, tx_source_shard = DEFAULT_SHARD_ID, tx_destination_shard = DEFAULT_SHARD_ID,
            tx_signature = replicate 64 6, tx_data = Some (bytes_of ''anon-to-public'')\<rparr> in
      passes_roundtrip (bc_transaction E) public_to_anon_tx \<and> passes_roundtrip (bc_transaction E) anon_to_public_tx)"

definition cross_shard_detection_matches_shard_ids :: bool where
  "cross_shard_detection_matches_shard_ids =
     (let local_tx = \<lparr>tx_type = Transfer, tx_from = replicate 32 1, tx_to = replicate 32 2, tx_amount = 10, tx_fee = FIXED_TRANSACTION_FEE,
            tx_nonce = 1, tx_source_shard = 3, tx_destination_shard = 3, tx_signature = replicate 64 9, tx_data = None\<rparr>;
          cross_tx = local_tx\<lparr>tx_destination_shard := 4\<rparr> in
      \<not> is_cross_shard local_tx \<and> is_cross_shard cross_tx)"

section \<open>Hashes\<close>

definition hash_sample_transaction :: Transaction where
  "hash_sample_transaction =
     \<lparr>tx_type = Transfer, tx_from = [1, 2, 3], tx_to = [4, 5, 6], tx_amount = 42, tx_fee = FIXED_TRANSACTION_FEE, tx_nonce = 7,
      tx_source_shard = 0, tx_destination_shard = 0, tx_signature = [9, 9, 9], tx_data = Some [8, 8]\<rparr>"

definition sha256_differs_for_distinct_inputs :: "'z env_scheme \<Rightarrow> bool" where
  "sha256_differs_for_distinct_inputs E = (sha256 E (bytes_of ''alpha'') \<noteq> sha256 E (bytes_of ''beta''))"

definition merkle_root_empty_transactions_matches_sha256_empty :: "'z env_scheme \<Rightarrow> bool" where
  "merkle_root_empty_transactions_matches_sha256_empty E =
     passes (calculate_merkle_root E []) (\<lambda>root. root = sha256 E [])"

definition merkle_root_single_transaction_matches_transaction_hash :: "'z env_scheme \<Rightarrow> bool" where
  "merkle_root_single_transaction_matches_transaction_hash E =
     passes (calculate_merkle_root E [hash_sample_transaction]) (\<lambda>root. passes (hash_transaction E hash_sample_transaction) (\<lambda>h. root = h))"

definition hash_transaction_changes_when_payload_changes :: "'z env_scheme \<Rightarrow> bool" where
  "hash_transaction_changes_when_payload_changes E =
     (let tampered = hash_sample_transaction\<lparr>tx_amount := tx_amount hash_sample_transaction + 1\<rparr> in
      passes (hash_transaction E hash_sample_transaction) (\<lambda>h. passes (hash_transaction E tampered) (\<lambda>h'. h \<noteq> h')))"

definition derive_contract_address_changes_when_sender_or_code_changes :: "'z env_scheme \<Rightarrow> bool" where
  "derive_contract_address_changes_when_sender_or_code_changes E =
     (let code_a = wasm_magic 0; code_b = wasm_magic 1; sender_a = replicate 32 1; sender_b = replicate 32 2 in
      derive_contract_address E sender_a code_a \<noteq> derive_contract_address E sender_b code_a \<and>
      derive_contract_address E sender_a code_a \<noteq> derive_contract_address E sender_a code_b)"

definition merkle_root_changes_when_transaction_order_changes :: "'z env_scheme \<Rightarrow> bool" where
  "merkle_root_changes_when_transaction_order_changes E =
     (let tx1 = hash_sample_transaction; tx2 = hash_sample_transaction\<lparr>tx_nonce := tx_nonce hash_sample_transaction + 1\<rparr> in
      passes (calculate_merkle_root E [tx1, tx2]) (\<lambda>ordered. passes (calculate_merkle_root E [tx2, tx1]) (\<lambda>reversed. ordered \<noteq> reversed)))"

section \<open>Signatures\<close>

definition crypto_sample_transaction :: Transaction where
  "crypto_sample_transaction =
     \<lparr>tx_type = Transfer, tx_from = replicate 32 1, tx_to = replicate 32 2, tx_amount = 42, tx_fee = FIXED_TRANSACTION_FEE, tx_nonce = 7,
      tx_source_shard = 0, tx_destination_shard = 0, tx_signature = [], tx_data = Some (bytes_of ''hello-prims'')\<rparr>"

definition sign_and_verify_transaction_roundtrip :: "'z env_scheme \<Rightarrow> bytes \<Rightarrow> bool" where
  "sign_and_verify_transaction_roundtrip E random =
     (let pair = generate_keypair E random in
      passes (sign_transaction E crypto_sample_transaction (secret_key pair)) (\<lambda>signature.
      passes (verify_transaction E (crypto_sample_transaction\<lparr>tx_signature := signature\<rparr>) (public_key pair)) (\<lambda>ok. ok)))"

section \<open>Validation\<close>

definition ledger_transaction_with_data :: "bytes \<Rightarrow> Transaction" where
  "ledger_transaction_with_data data =
     \<lparr>tx_type = Transfer, tx_from = replicate 32 1, tx_to = replicate 32 2, tx_amount = 42, tx_fee = FIXED_TRANSACTION_FEE, tx_nonce = 7,
      tx_source_shard = 0, tx_destination_shard = 0, tx_signature = replicate 64 9, tx_data = Some data\<rparr>"

definition ledger_transaction :: Transaction where
  "ledger_transaction = ledger_transaction_with_data (bytes_of ''hello-prims'')"

definition ledger_transaction_with_data_len :: "nat \<Rightarrow> Transaction" where
  "ledger_transaction_with_data_len data_len = ledger_transaction_with_data (replicate data_len 0)"

definition ledger_account :: "u64 \<Rightarrow> u64 \<Rightarrow> Account" where
  "ledger_account balance nonce =
     \<lparr>a_balance = balance, a_nonce = nonce, a_code_hash = None, a_anonymous_state = AnonymousAccountState_default\<rparr>"

definition sign_ledger_header :: "'z env_scheme \<Rightarrow> BlockHeader \<Rightarrow> bytes \<Rightarrow> (bytes, BlockValidationError) result" where
  "sign_ledger_header E header sk =
     and_then (unsigned_block_header_bytes E header) (\<lambda>message. Inr (signing_sign E sk message))"

definition build_valid_block :: "'z env_scheme \<Rightarrow> bytes \<Rightarrow> (Block \<Rightarrow> bytes \<Rightarrow> bool) \<Rightarrow> bool" where
  "build_valid_block E random P =
     (let keypair = generate_keypair E random; previous_hash = replicate 32 7; transactions = [ledger_transaction] in
      passes (calculate_merkle_root E transactions) (\<lambda>merkle_root.
        let header = \<lparr>h_version = 1, h_previous_hash = previous_hash, h_merkle_root = merkle_root, h_timestamp = 1710000000, h_height = 1,
              h_validator = public_key keypair, h_signature = []\<rparr> in
        passes (sign_ledger_header E header (secret_key keypair)) (\<lambda>signature.
          P \<lparr>b_header = header\<lparr>h_signature := signature\<rparr>, b_transactions = transactions, b_receipts = []\<rparr> previous_hash)))"

definition oversized_block :: Block where
  "oversized_block =
     \<lparr>b_header = \<lparr>h_version = 1, h_previous_hash = replicate 32 0, h_merkle_root = replicate 32 0, h_timestamp = 1710000000, h_height = 1,
        h_validator = replicate 32 7, h_signature = replicate 64 6\<rparr>,
      b_transactions = replicate 12 (ledger_transaction_with_data_len 900000), b_receipts = []\<rparr>"

definition validate_block_accepts_valid_block :: "'z env_scheme \<Rightarrow> bytes \<Rightarrow> bool" where
  "validate_block_accepts_valid_block E random =
     build_valid_block E random (\<lambda>block previous_hash. validate_block E block previous_hash = Inr (Inr ()))"

definition validate_block_rejects_invalid_previous_hash :: "'z env_scheme \<Rightarrow> bytes \<Rightarrow> bool" where
  "validate_block_rejects_invalid_previous_hash E random =
     build_valid_block E random (\<lambda>block _. validate_block E block (replicate 32 0) = Inr (Inl InvalidPreviousHash))"

definition validate_block_rejects_invalid_merkle_root :: "'z env_scheme \<Rightarrow> bytes \<Rightarrow> bool" where
  "validate_block_rejects_invalid_merkle_root E random =
     build_valid_block E random (\<lambda>block previous_hash.
       let root = h_merkle_root (b_header block); root' = root[0 := root ! 0 XOR 255] in
       validate_block E (block\<lparr>b_header := (b_header block)\<lparr>h_merkle_root := root'\<rparr>\<rparr>) previous_hash = Inr (Inl InvalidMerkleRoot))"

definition validate_block_size_accepts_small_block :: "'z env_scheme \<Rightarrow> bytes \<Rightarrow> bool" where
  "validate_block_size_accepts_small_block E random =
     build_valid_block E random (\<lambda>block _. validate_block_size E block = Inr ())"

definition validate_block_size_rejects_oversized_block :: "'z env_scheme \<Rightarrow> bool" where
  "validate_block_size_rejects_oversized_block E =
     passes (serialize (bc_block E) oversized_block) (\<lambda>encoded.
       MAX_BLOCK_SIZE_BYTES \<le> length encoded \<and>
       validate_block_size E oversized_block = Inl (BlockTooLarge (length encoded) MAX_BLOCK_SIZE_BYTES))"

definition validate_transaction_nonce_accepts_first_transaction_for_new_account :: bool where
  "validate_transaction_nonce_accepts_first_transaction_for_new_account = (validate_transaction_nonce ledger_transaction None = Inr ())"

definition validate_transaction_nonce_accepts_strictly_greater_nonce :: bool where
  "validate_transaction_nonce_accepts_strictly_greater_nonce =
     (validate_transaction_nonce ledger_transaction (Some (ledger_account 1000 6)) = Inr ())"

definition validate_transaction_nonce_rejects_same_nonce :: bool where
  "validate_transaction_nonce_rejects_same_nonce =
     (validate_transaction_nonce ledger_transaction (Some (ledger_account 1000 7)) = Inl (NonceNotStrictlyGreater 7 7))"

definition validate_transaction_nonce_rejects_lower_nonce :: bool where
  "validate_transaction_nonce_rejects_lower_nonce =
     (validate_transaction_nonce ledger_transaction (Some (ledger_account 1000 8)) = Inl (NonceNotStrictlyGreater 8 7))"

definition validate_transaction_balance_accepts_sufficient_balance :: bool where
  "validate_transaction_balance_accepts_sufficient_balance =
     (validate_transaction_balance ledger_transaction (Some (ledger_account 43 0)) = Inr ())"

definition validate_transaction_balance_accepts_exact_balance :: bool where
  "validate_transaction_balance_accepts_exact_balance =
     (validate_transaction_balance ledger_transaction (Some (ledger_account 43 0)) = Inr ())"

definition validate_transaction_balance_rejects_zero_amount :: bool where
  "validate_transaction_balance_rejects_zero_amount =
     (validate_transaction_balance (ledger_transaction\<lparr>tx_amount := 0\<rparr>) (Some (ledger_account 1000 0)) = Inl AmountMustBePositive)"

definition validate_transaction_balance_rejects_insufficient_balance :: bool where
  "validate_transaction_balance_rejects_insufficient_balance =
     (validate_transaction_balance ledger_transaction (Some (ledger_account 42 0)) = Inl (InsufficientBalance 42 43))"

definition validate_transaction_balance_rejects_missing_account_with_zero_balance :: bool where
  "validate_transaction_balance_rejects_missing_account_with_zero_balance =
     (validate_transaction_balance ledger_transaction None = Inl (InsufficientBalance 0 43))"

definition validate_transaction_balance_rejects_overflow :: bool where
  "validate_transaction_balance_rejects_overflow =
     (let transaction = ledger_transaction\<lparr>tx_amount := - 1, tx_fee := FIXED_TRANSACTION_FEE\<rparr> in
      validate_transaction_balance transaction (Some (ledger_account (- 1) 0)) = Inl AmountOverflow)"

definition validate_transaction_size_accepts_small_transaction :: "'z env_scheme \<Rightarrow> bool" where
  "validate_transaction_size_accepts_small_transaction E = (validate_transaction_size E ledger_transaction = Inr ())"

definition validate_transaction_size_rejects_oversized_transaction :: "'z env_scheme \<Rightarrow> bool" where
  "validate_transaction_size_rejects_oversized_transaction E =
     (let transaction = ledger_transaction_with_data_len MAX_TRANSACTION_SIZE_BYTES in
      passes (serialize (bc_transaction E) transaction) (\<lambda>encoded.
        MAX_TRANSACTION_SIZE_BYTES \<le> length encoded \<and>
        validate_transaction_size E transaction = Inl (TransactionTooLarge (length encoded) MAX_TRANSACTION_SIZE_BYTES)))"

end
