(* ===== verification/LedgerRuns.thy ===== *)
theory LedgerRuns
  imports LedgerTests
begin

text \<open>
  The scenarios of \<open>LedgerTests\<close> hold with the layout of bincode, for every signature scheme with the laws of
  Ed25519, every key of 32 bytes and every hash of 32 bytes that has no collision among the strings the tests compare.
\<close>

unbundle bit_operations_syntax

section \<open>The setting\<close>

text \<open>The transactions whose hashes the tests compare, and the strings that are hashed.\<close>

definition tampered_transaction :: Transaction where
  "tampered_transaction = hash_sample_transaction\<lparr>tx_amount := tx_amount hash_sample_transaction + 1\<rparr>"

definition next_transaction :: Transaction where
  "next_transaction = hash_sample_transaction\<lparr>tx_nonce := tx_nonce hash_sample_transaction + 1\<rparr>"

definition address_string :: "'z env_scheme \<Rightarrow> u8 \<Rightarrow> u8 \<Rightarrow> bytes" where
  "address_string E k version = bytes_of ''prims-contract'' @ replicate 32 k @ sha256_digest E (wasm_magic version)"

definition pair_string :: "'z env_scheme \<Rightarrow> Transaction \<Rightarrow> Transaction \<Rightarrow> bytes" where
  "pair_string E s t = sha256_digest E (enc_transaction s) @ sha256_digest E (enc_transaction t)"

definition ledger_strings :: "'z env_scheme \<Rightarrow> bytes list" where
  "ledger_strings E = [bytes_of ''alpha'', bytes_of ''beta'', enc_transaction hash_sample_transaction, enc_transaction tampered_transaction,
     enc_transaction next_transaction, pair_string E hash_sample_transaction next_transaction,
     pair_string E next_transaction hash_sample_transaction, wasm_magic 0, wasm_magic 1,
     address_string E 1 0, address_string E 2 0, address_string E 1 1]"

definition ledger_setting :: "'z env_scheme \<Rightarrow> bool" where
  "ledger_setting E \<longleftrightarrow> sha256_spec E \<and> ed25519_spec E \<and> inj_on (sha256_digest E) (set (ledger_strings E))"

section \<open>Encodings\<close>

lemma passes_roundtrip_iff: "passes_roundtrip c x = roundtrips c x"
  by (auto simp: passes_roundtrip_def roundtrips_def passes_def split: sum.splits)

lemmas fits_simps = transaction_fits_def header_fits_def receipt_fits_def block_fits_def account_fits_def contract_fits_def
  seq_fits_def RECEIPT_PROOF_LENGTH_def

lemma encoding_scenarios:
  "block_structures_roundtrip_with_bincode (bincode_env E)" "validator_structure_roundtrip_with_bincode (bincode_env E)"
  "contract_structure_roundtrip_with_bincode (bincode_env E)" "special_transactions_roundtrip_with_bincode (bincode_env E)"
  "conversion_transaction_types_roundtrip_with_bincode (bincode_env E)"
  by (simp_all add: block_structures_roundtrip_with_bincode_def validator_structure_roundtrip_with_bincode_def
      contract_structure_roundtrip_with_bincode_def special_transactions_roundtrip_with_bincode_def
      conversion_transaction_types_roundtrip_with_bincode_def passes_roundtrip_iff bincode_roundtrips fits_simps wasm_magic_def)

lemma payload_scenario: "call_contract_transaction_roundtrip_with_bincode (bincode_env E)"
proof -
  let ?p = "\<lparr>p_method = ''increment'', p_params = bytes_of ''{\"delta\":1}'', p_gas_limit = 50000\<rparr>"
  have p: "roundtrips (bc_payload (bincode_env E)) ?p"
    by (rule bincode_roundtrips) (simp add: payload_fits_def)
  then obtain d where d: "serialize (bc_payload (bincode_env E)) ?p = Inr d" "deserialize (bc_payload (bincode_env E)) d = Inr ?p"
    by (elim roundtripsE)
  have "length d < 2 ^ 64" using d(1) by (auto simp: bincode_env_def bincode_codec_def enc_payload_def)
  then have "roundtrips (bc_transaction (bincode_env E)) (t\<lparr>tx_data := Some d\<rparr>)" if "transaction_fits t" for t
    using that by (intro bincode_roundtrips) (simp add: transaction_fits_def)
  then have "\<exists>b. serialize (bc_transaction (bincode_env E)) (t\<lparr>tx_data := Some d\<rparr>) = Inr b \<and>
      deserialize (bc_transaction (bincode_env E)) b = Inr (t\<lparr>tx_data := Some d\<rparr>)" if "transaction_fits t" for t
    using that by (metis roundtripsE)
  from this [of "\<lparr>tx_type = CallContract, tx_from = replicate 32 1, tx_to = replicate 32 2, tx_amount = 0, tx_fee = FIXED_TRANSACTION_FEE,
      tx_nonce = 3, tx_source_shard = DEFAULT_SHARD_ID, tx_destination_shard = DEFAULT_SHARD_ID, tx_signature = replicate 64 7, tx_data = None\<rparr>"] d
  show ?thesis by (auto simp: call_contract_transaction_roundtrip_with_bincode_def transaction_fits_def)
qed

section \<open>Hashes and signatures\<close>

lemma ledger_differs:
  assumes "ledger_setting E" and "a \<in> set (ledger_strings E)" "b \<in> set (ledger_strings E)" and "a \<noteq> b"
  shows "sha256_digest E a \<noteq> sha256_digest E b"
  using assms by (auto simp: ledger_setting_def dest: inj_onD)

lemma hash_transaction_bincode: "hash_transaction (bincode_env E) t = Inr (sha256_digest E (enc_transaction t))"
  by (simp add: hash_transaction_def sha256_def)

lemma encodings_differ:
  "enc_transaction hash_sample_transaction \<noteq> enc_transaction tampered_transaction"
  "enc_transaction hash_sample_transaction \<noteq> enc_transaction next_transaction"
proof -
  have fits: "transaction_fits hash_sample_transaction" "transaction_fits tampered_transaction" "transaction_fits next_transaction"
    by (simp_all add: transaction_fits_def hash_sample_transaction_def tampered_transaction_def next_transaction_def)
  have "hash_sample_transaction \<noteq> tampered_transaction" "hash_sample_transaction \<noteq> next_transaction"
    by (simp_all add: hash_sample_transaction_def tampered_transaction_def next_transaction_def)
  with fits wire_transaction.enc_prefix_free [where r = "[]" and s = "[]"] show
    "enc_transaction hash_sample_transaction \<noteq> enc_transaction tampered_transaction"
    "enc_transaction hash_sample_transaction \<noteq> enc_transaction next_transaction" by auto
qed

lemma two_transactions_root:
  "calculate_merkle_root (bincode_env E) [s, t] = Inr (sha256_digest E (pair_string E s t))"
  by (simp add: calculate_merkle_root_def hash_transaction_bincode merkle_loop.simps merkle_next_level_def sha256_def pair_string_def)

lemma one_transaction_root:
  "calculate_merkle_root (bincode_env E) [t] = Inr (sha256_digest E (enc_transaction t))"
  by (simp add: calculate_merkle_root_def hash_transaction_bincode merkle_loop.simps)

lemma hash_scenarios:
  assumes "ledger_setting E"
  shows "sha256_differs_for_distinct_inputs (bincode_env E)" "merkle_root_empty_transactions_matches_sha256_empty (bincode_env E)"
    "merkle_root_single_transaction_matches_transaction_hash (bincode_env E)" "hash_transaction_changes_when_payload_changes (bincode_env E)"
    "derive_contract_address_changes_when_sender_or_code_changes (bincode_env E)"
    "merkle_root_changes_when_transaction_order_changes (bincode_env E)"
proof -
  note differ = ledger_differs [OF assms]
  have len: "length (sha256_digest E x) = 32" for x using assms by (simp add: ledger_setting_def sha256_spec_def)
  show "sha256_differs_for_distinct_inputs (bincode_env E)"
    using differ [of "bytes_of ''alpha''" "bytes_of ''beta''"]
    by (simp add: sha256_differs_for_distinct_inputs_def sha256_def ledger_strings_def) (simp add: bytes_of_def)
  show "merkle_root_empty_transactions_matches_sha256_empty (bincode_env E)"
    by (simp add: merkle_root_empty_transactions_matches_sha256_empty_def calculate_merkle_root_def)
  show "merkle_root_single_transaction_matches_transaction_hash (bincode_env E)"
    by (simp add: merkle_root_single_transaction_matches_transaction_hash_def one_transaction_root hash_transaction_bincode)
  have tx: "sha256_digest E (enc_transaction hash_sample_transaction) \<noteq> sha256_digest E (enc_transaction tampered_transaction)"
    by (intro differ encodings_differ) (simp_all add: ledger_strings_def)
  then show "hash_transaction_changes_when_payload_changes (bincode_env E)"
    by (simp add: hash_transaction_changes_when_payload_changes_def hash_transaction_bincode tampered_transaction_def)
  have "sha256_digest E (wasm_magic 0) \<noteq> sha256_digest E (wasm_magic 1)"
    by (intro differ) (simp_all add: ledger_strings_def wasm_magic_def)
  then have "sha256_digest E (address_string E 1 0) \<noteq> sha256_digest E (address_string E 1 1)"
    by (intro differ) (simp_all add: ledger_strings_def address_string_def)
  moreover have "sha256_digest E (address_string E 1 0) \<noteq> sha256_digest E (address_string E 2 0)"
    by (intro differ) (simp_all add: ledger_strings_def address_string_def)
  ultimately show "derive_contract_address_changes_when_sender_or_code_changes (bincode_env E)"
    by (simp add: derive_contract_address_changes_when_sender_or_code_changes_def derive_contract_address_def contract_code_hash_def
        sha256_def address_string_def)
  have "sha256_digest E (enc_transaction hash_sample_transaction) \<noteq> sha256_digest E (enc_transaction next_transaction)"
    by (intro differ encodings_differ) (simp_all add: ledger_strings_def)
  then have "sha256_digest E (pair_string E hash_sample_transaction next_transaction) \<noteq>
      sha256_digest E (pair_string E next_transaction hash_sample_transaction)"
    by (intro differ) (simp_all add: ledger_strings_def pair_string_def len)
  then show "merkle_root_changes_when_transaction_order_changes (bincode_env E)"
    by (simp add: merkle_root_changes_when_transaction_order_changes_def two_transactions_root next_transaction_def)
qed

lemma signature_scenario:
  assumes "ed25519_spec E" and "length random = 32"
  shows "sign_and_verify_transaction_roundtrip (bincode_env E) random"
proof -
  obtain s where s: "sign_transaction (bincode_env E) crypto_sample_transaction random = Inr s"
    by (simp add: sign_transaction_def unsigned_transaction_bytes_def)
  with sign_then_verify [of "bincode_env E" random] assms show ?thesis
    by (simp add: sign_and_verify_transaction_roundtrip_def generate_keypair_def)
qed

section \<open>Validation\<close>

lemma length_ledger_transaction: "length (enc_transaction (ledger_transaction_with_data d)) = 193 + length d"
  by (simp add: enc_transaction_def ledger_transaction_with_data_def enc_option_def)

lemma length_enc_header:
  "length (enc_header h) = 52 + length (h_previous_hash h) + length (h_merkle_root h) + length (h_validator h) + length (h_signature h)"
  by (simp add: enc_header_def)

lemma size_scenarios:
  "validate_block_size_rejects_oversized_block (bincode_env E)" "validate_transaction_size_accepts_small_transaction (bincode_env E)"
  "validate_transaction_size_rejects_oversized_transaction (bincode_env E)"
proof -
  have "length (enc_block oversized_block) = 10802544"
    by (simp add: oversized_block_def enc_block_def length_enc_header enc_seq_def length_concat sum_list_replicate
        ledger_transaction_with_data_len_def length_ledger_transaction)
  then show "validate_block_size_rejects_oversized_block (bincode_env E)"
    by (simp add: validate_block_size_rejects_oversized_block_def validate_block_size_def MAX_BLOCK_SIZE_BYTES_def)
  show "validate_transaction_size_accepts_small_transaction (bincode_env E)"
    by (simp add: validate_transaction_size_accepts_small_transaction_def validate_transaction_size_def ledger_transaction_def
        length_ledger_transaction MAX_TRANSACTION_SIZE_BYTES_def)
  show "validate_transaction_size_rejects_oversized_transaction (bincode_env E)"
    by (simp add: validate_transaction_size_rejects_oversized_transaction_def validate_transaction_size_def
        ledger_transaction_with_data_len_def length_ledger_transaction MAX_TRANSACTION_SIZE_BYTES_def)
qed

lemma transaction_scenarios:
  "validate_transaction_nonce_accepts_first_transaction_for_new_account" "validate_transaction_nonce_accepts_strictly_greater_nonce"
  "validate_transaction_nonce_rejects_same_nonce" "validate_transaction_nonce_rejects_lower_nonce"
  "validate_transaction_balance_accepts_sufficient_balance" "validate_transaction_balance_accepts_exact_balance"
  "validate_transaction_balance_rejects_zero_amount" "validate_transaction_balance_rejects_insufficient_balance"
  "validate_transaction_balance_rejects_missing_account_with_zero_balance" "validate_transaction_balance_rejects_overflow"
  "cross_shard_detection_matches_shard_ids"
  by (simp_all add: validate_transaction_nonce_accepts_first_transaction_for_new_account_def
      validate_transaction_nonce_accepts_strictly_greater_nonce_def validate_transaction_nonce_rejects_same_nonce_def
      validate_transaction_nonce_rejects_lower_nonce_def validate_transaction_balance_accepts_sufficient_balance_def
      validate_transaction_balance_accepts_exact_balance_def validate_transaction_balance_rejects_zero_amount_def
      validate_transaction_balance_rejects_insufficient_balance_def
      validate_transaction_balance_rejects_missing_account_with_zero_balance_def validate_transaction_balance_rejects_overflow_def
      cross_shard_detection_matches_shard_ids_def validate_transaction_nonce_def validate_transaction_balance_def ledger_transaction_def
      ledger_transaction_with_data_def ledger_account_def FIXED_TRANSACTION_FEE_def checked_add_def is_cross_shard_def
      unsigned_minus_1_eq_mask mask_eq_exp_minus_1)

text \<open>The block of the tests.\<close>

definition ledger_header :: "'z env_scheme \<Rightarrow> bytes \<Rightarrow> bytes \<Rightarrow> BlockHeader" where
  "ledger_header E random signature = \<lparr>h_version = 1, h_previous_hash = replicate 32 7,
     h_merkle_root = sha256_digest E (enc_transaction ledger_transaction), h_timestamp = 1710000000, h_height = 1,
     h_validator = signing_public E random, h_signature = signature\<rparr>"

lemma build_valid_block_run:
  "build_valid_block (bincode_env E) random P =
    P \<lparr>b_header = ledger_header E random (signing_sign E random (enc_header (ledger_header E random []))),
       b_transactions = [ledger_transaction], b_receipts = []\<rparr> (replicate 32 7)"
  by (simp add: build_valid_block_def one_transaction_root sign_ledger_header_def unsigned_block_header_bytes_def generate_keypair_def
      ledger_header_def Let_def)

lemma block_scenarios:
  assumes "sha256_spec E" and "ed25519_spec E" and "length random = 32"
  shows "validate_block_accepts_valid_block (bincode_env E) random" "validate_block_rejects_invalid_previous_hash (bincode_env E) random"
    "validate_block_rejects_invalid_merkle_root (bincode_env E) random" "validate_block_size_accepts_small_block (bincode_env E) random"
proof -
  have digest: "length (sha256_digest E x) = 32" for x using assms(1) by (simp add: sha256_spec_def)
  have key: "length (signing_public E random) = 32" "verifying_key_ok E (signing_public E random)"
    "length (signing_sign E random m) = 64" "verifying_verify E (signing_public E random) m (signing_sign E random m)" for m
    using assms(2,3) by (simp_all add: ed25519_spec_def)
  have size: "validate_block_size (bincode_env E) \<lparr>b_header = h, b_transactions = [ledger_transaction], b_receipts = []\<rparr> = Inr ()"
    if "length (h_previous_hash h) = 32" "length (h_merkle_root h) = 32" "length (h_validator h) = 32" "length (h_signature h) = 64" for h
    using that by (simp add: validate_block_size_def enc_block_def length_enc_header enc_seq_def ledger_transaction_def
        length_ledger_transaction MAX_BLOCK_SIZE_BYTES_def)
  have unsigned: "(ledger_header E random s)\<lparr>h_signature := []\<rparr> = ledger_header E random []" for s by (simp add: ledger_header_def)
  let ?h = "ledger_header E random (signing_sign E random (enc_header (ledger_header E random [])))"
  have ok: "length (h_previous_hash ?h) = 32" "length (h_merkle_root ?h) = 32" "length (h_validator ?h) = 32" "length (h_signature ?h) = 64"
    by (simp_all add: ledger_header_def digest key)
  show "validate_block_size_accepts_small_block (bincode_env E) random"
    using size [OF ok] by (simp add: validate_block_size_accepts_small_block_def build_valid_block_run)
  have "validate_block_signature (bincode_env E) ?h = Inr ()"
    by (simp add: validate_block_signature_def unsigned_block_header_bytes_def try_into_array_def unsigned)
      (simp add: ledger_header_def key)
  then show "validate_block_accepts_valid_block (bincode_env E) random"
    using size [OF ok] by (simp add: validate_block_accepts_valid_block_def build_valid_block_run validate_block_def one_transaction_root)
      (simp add: ledger_header_def)
  have "replicate 32 7 \<noteq> (replicate 32 0 :: bytes)" by simp
  then show "validate_block_rejects_invalid_previous_hash (bincode_env E) random"
    using size [OF ok] by (simp add: validate_block_rejects_invalid_previous_hash_def build_valid_block_run validate_block_def)
      (simp add: ledger_header_def)
  let ?r = "sha256_digest E (enc_transaction ledger_transaction)"
  have "?r[0 := ?r ! 0 XOR 255] ! 0 \<noteq> ?r ! 0" by (simp add: digest xor_neq)
  then have "?r[0 := ?r ! 0 XOR 255] \<noteq> ?r" by metis
  moreover have "validate_block_size (bincode_env E) \<lparr>b_header = ?h\<lparr>h_merkle_root := ?r[0 := ?r ! 0 XOR 255]\<rparr>,
      b_transactions = [ledger_transaction], b_receipts = []\<rparr> = Inr ()"
    using ok by (intro size) (simp_all add: digest)
  ultimately show "validate_block_rejects_invalid_merkle_root (bincode_env E) random"
    by (simp add: validate_block_rejects_invalid_merkle_root_def build_valid_block_run validate_block_def one_transaction_root Let_def)
      (simp add: ledger_header_def one_transaction_root)
qed

section \<open>The unit tests pass\<close>

text \<open>
  The unit tests of the block types, the hashes, the signatures and the validation pass, for every signature scheme,
  every key and every hash without a collision among the strings they compare.
\<close>

theorem ledger_tests_pass:
  assumes "ledger_setting E" and "length random = 32"
  shows "block_structures_roundtrip_with_bincode (bincode_env E) \<and>
    validator_structure_roundtrip_with_bincode (bincode_env E) \<and>
    contract_structure_roundtrip_with_bincode (bincode_env E) \<and>
    call_contract_transaction_roundtrip_with_bincode (bincode_env E) \<and>
    special_transactions_roundtrip_with_bincode (bincode_env E) \<and>
    conversion_transaction_types_roundtrip_with_bincode (bincode_env E) \<and>
    cross_shard_detection_matches_shard_ids \<and>
    sha256_differs_for_distinct_inputs (bincode_env E) \<and>
    merkle_root_empty_transactions_matches_sha256_empty (bincode_env E) \<and>
    merkle_root_single_transaction_matches_transaction_hash (bincode_env E) \<and>
    hash_transaction_changes_when_payload_changes (bincode_env E) \<and>
    derive_contract_address_changes_when_sender_or_code_changes (bincode_env E) \<and>
    merkle_root_changes_when_transaction_order_changes (bincode_env E) \<and>
    sign_and_verify_transaction_roundtrip (bincode_env E) random \<and>
    validate_block_accepts_valid_block (bincode_env E) random \<and>
    validate_block_rejects_invalid_previous_hash (bincode_env E) random \<and>
    validate_block_rejects_invalid_merkle_root (bincode_env E) random \<and>
    validate_block_size_accepts_small_block (bincode_env E) random \<and>
    validate_block_size_rejects_oversized_block (bincode_env E) \<and>
    validate_transaction_nonce_accepts_first_transaction_for_new_account \<and>
    validate_transaction_nonce_accepts_strictly_greater_nonce \<and>
    validate_transaction_nonce_rejects_same_nonce \<and>
    validate_transaction_nonce_rejects_lower_nonce \<and>
    validate_transaction_balance_accepts_sufficient_balance \<and>
    validate_transaction_balance_accepts_exact_balance \<and>
    validate_transaction_balance_rejects_zero_amount \<and>
    validate_transaction_balance_rejects_insufficient_balance \<and>
    validate_transaction_balance_rejects_missing_account_with_zero_balance \<and>
    validate_transaction_balance_rejects_overflow \<and>
    validate_transaction_size_accepts_small_transaction (bincode_env E) \<and>
    validate_transaction_size_rejects_oversized_transaction (bincode_env E)"
proof -
  have spec: "sha256_spec E" "ed25519_spec E" using assms(1) by (simp_all add: ledger_setting_def)
  show ?thesis
    using encoding_scenarios [of E] payload_scenario [of E] hash_scenarios [OF assms(1)] signature_scenario [OF spec(2) assms(2)]
      size_scenarios [of E] transaction_scenarios block_scenarios [OF spec assms(2)]
    by (intro conjI)
qed

lemma ledger_spread_values:
  "spread (bytes_of ''alpha'') = 11640"
  "spread (bytes_of ''beta'') = 12983"
  "spread (enc_transaction hash_sample_transaction) = 37995"
  "spread (enc_transaction tampered_transaction) = 14986"
  "spread (enc_transaction next_transaction) = 22666"
  "spread (spread_bytes 37995 @ spread_bytes 22666) = 58231"
  "spread (spread_bytes 22666 @ spread_bytes 37995) = 41847"
  "spread (wasm_magic 0) = 4833"
  "spread (wasm_magic 1) = 4834"
  "spread (bytes_of ''prims-contract'' @ replicate 32 1 @ spread_bytes 4833) = 50697"
  "spread (bytes_of ''prims-contract'' @ replicate 32 2 @ spread_bytes 4833) = 2057"
  "spread (bytes_of ''prims-contract'' @ replicate 32 1 @ spread_bytes 4834) = 17913"
  by code_simp+

lemma spread_ledger_setting: "ledger_setting spread_env"
proof -
  have "distinct (map (sha256_digest spread_env) (ledger_strings spread_env))"
    by (simp add: ledger_strings_def pair_string_def address_string_def spread_digest ledger_spread_values spread_bytes_inj)
  then have "inj_on (sha256_digest spread_env) (set (ledger_strings spread_env))" by (simp add: distinct_map)
  with spread_env_spec show ?thesis by (simp add: ledger_setting_def)
qed

theorem ledger_tests_pass_witness:
  "merkle_root_changes_when_transaction_order_changes (bincode_env spread_env) \<and>
   validate_block_accepts_valid_block (bincode_env spread_env) (replicate 32 3) \<and>
   validate_block_rejects_invalid_merkle_root (bincode_env spread_env) (replicate 32 3)"
  using ledger_tests_pass [OF spread_ledger_setting, of "replicate 32 3"] by simp

end
