(* ===== verification/StorageTests.thy ===== *)
theory StorageTests
  imports NoteIndex Bincode
begin

text \<open>
  The unit tests of \<open>src/src/storage\<close> (\<open>mod.rs\<close>, \<open>keys.rs\<close>, \<open>checksum.rs\<close>) as scenarios of the model: each test function is a predicate
  that runs the same calls on the opened database and states the same assertions. The database, which the tests
  open in a new directory, and what opening the directory again gives are arguments; removing the
  directory at the end of a test and the test of the backend's name are left out.
\<close>

unbundle bit_operations_syntax

section \<open>Fixtures\<close>

text \<open>An operation with \<open>expect\<close>, followed by assertions on its result in the storage it leaves.\<close>

definition passes_op :: "('s, 'a) storage_op \<Rightarrow> 's \<Rightarrow> ('a \<Rightarrow> 's \<Rightarrow> bool) \<Rightarrow> bool" where
  "passes_op m s P = (case m s of (s', Inr x) \<Rightarrow> P x s' | (s', Inl _) \<Rightarrow> False)"

text \<open>The same for an operation that may panic.\<close>

definition passes_save :: "('s \<times> ('a, storage_error) result) panics \<Rightarrow> ('a \<Rightarrow> 's \<Rightarrow> bool) \<Rightarrow> bool" where
  "passes_save r P = passes r (\<lambda>(s', r'). passes r' (\<lambda>x. P x s'))"

definition storage_sample_transaction :: Transaction where
  "storage_sample_transaction =
     \<lparr>tx_type = Transfer, tx_from = [1, 2, 3], tx_to = [4, 5, 6], tx_amount = 42, tx_fee = FIXED_TRANSACTION_FEE, tx_nonce = 7,
      tx_source_shard = 0, tx_destination_shard = 0, tx_signature = [9, 9, 9], tx_data = Some [8, 8]\<rparr>"

definition storage_sample_block :: Block where
  "storage_sample_block =
     \<lparr>b_header = \<lparr>h_version = 1, h_previous_hash = replicate 32 0, h_merkle_root = replicate 32 1, h_timestamp = 1710000000, h_height = 1,
        h_validator = replicate 32 7, h_signature = replicate 64 6\<rparr>,
      b_transactions = [storage_sample_transaction], b_receipts = []\<rparr>"

definition storage_sample_validator :: Validator where
  "storage_sample_validator = \<lparr>v_address = replicate 32 3, v_stake = 50000, v_locked_until = 1710086400\<rparr>"

definition empty_module :: bytes where
  "empty_module = [0, 97, 115, 109, 1, 0, 0, 0]"

definition storage_sample_contract :: "'z env_scheme \<Rightarrow> Contract" where
  "storage_sample_contract E = \<lparr>c_code_wasm = empty_module, c_storage_root = sha256 E []\<rparr>"

definition storage_sample_account :: "u64 \<Rightarrow> u64 \<Rightarrow> u8 \<Rightarrow> Account" where
  "storage_sample_account balance nonce code =
     \<lparr>a_balance = balance, a_nonce = nonce, a_code_hash = Some (replicate 32 code), a_anonymous_state = AnonymousAccountState_default\<rparr>"

section \<open>Contracts\<close>

definition deploy_contract_persists_code_and_contract_account :: "'z env_scheme \<Rightarrow> 'd RocksDbStorage \<Rightarrow> bool" where
  "deploy_contract_persists_code_and_contract_account E storage =
     (let sender = replicate 32 9; code_wasm = empty_module in
      passes_op (deploy_contract E sender code_wasm) storage (\<lambda>address storage.
      passes (get_contract E address storage) (\<lambda>found. passes (ok_or () found) (\<lambda>contract.
      passes (get_account E address storage) (\<lambda>found. passes (ok_or () found) (\<lambda>account.
        c_code_wasm contract = code_wasm \<and> c_storage_root contract = sha256 E [] \<and>
        a_code_hash account = Some (contract_code_hash E (c_code_wasm contract)) \<and> a_balance account = 0 \<and> a_nonce account = 0))))))"

definition deploy_contract_rejects_empty_bytecode :: "'z env_scheme \<Rightarrow> 'd RocksDbStorage \<Rightarrow> bool" where
  "deploy_contract_rejects_empty_bytecode E storage =
     (snd (deploy_contract E (replicate 32 7) [] storage) = Inl EmptyBytecode)"

definition deploy_contract_rejects_same_sender_and_code_twice :: "'z env_scheme \<Rightarrow> 'd RocksDbStorage \<Rightarrow> bool" where
  "deploy_contract_rejects_same_sender_and_code_twice E storage =
     (let sender = replicate 32 5; code_wasm = empty_module in
      passes_op (deploy_contract E sender code_wasm) storage (\<lambda>first_address storage.
        snd (deploy_contract E sender code_wasm storage) = Inl ContractAddressExists \<and>
        first_address = derive_contract_address E sender code_wasm))"

definition contract_storage_roundtrip_updates_storage_root :: "'z env_scheme \<Rightarrow> 'd RocksDbStorage \<Rightarrow> bool" where
  "contract_storage_roundtrip_updates_storage_root E storage =
     (let initial_contract = storage_sample_contract E; address = bytes_of ''contract-1'' in
      passes_op (update_contract E address initial_contract) storage (\<lambda>_ storage.
      passes_op (set_contract_storage E address (bytes_of ''counter'') (bytes_of ''1'')) storage (\<lambda>_ storage.
      passes_op (set_contract_storage E address (bytes_of ''owner'') (bytes_of ''alice'')) storage (\<lambda>_ storage.
        get_contract_storage E address (bytes_of ''counter'') storage = Inr (Some (bytes_of ''1'')) \<and>
        passes (get_contract E address storage) (\<lambda>found. passes (ok_or () found) (\<lambda>stored_contract.
          c_code_wasm stored_contract = c_code_wasm initial_contract \<and>
          c_storage_root stored_contract \<noteq> c_storage_root initial_contract \<and>
          length (c_storage_root stored_contract) = 32))))))"

section \<open>Validators, keys, blocks and accounts\<close>

definition saves_and_reads_validator :: "'z env_scheme \<Rightarrow> 'd RocksDbStorage \<Rightarrow> bool" where
  "saves_and_reads_validator E storage =
     passes_op (save_validator E storage_sample_validator) storage (\<lambda>_ storage.
       get_validator E (v_address storage_sample_validator) storage = Inr (Some storage_sample_validator))"

definition persists_validator_after_restart ::
    "'z env_scheme \<Rightarrow> ('d RocksDbStorage \<Rightarrow> 'd RocksDbStorage) \<Rightarrow> 'd RocksDbStorage \<Rightarrow> bool" where
  "persists_validator_after_restart E reopen storage =
     passes_op (save_validator E storage_sample_validator) storage (\<lambda>_ storage.
       get_validator E (v_address storage_sample_validator) (reopen storage) = Inr (Some storage_sample_validator))"

definition storage_put_get_delete_and_iter :: "'d RocksDbStorage \<Rightarrow> bool" where
  "storage_put_get_delete_and_iter storage =
     (let alice = account_key (bytes_of ''alice''); bob = account_key (bytes_of ''bob''); block = block_key 1 in
      passes_op (storage_put alice (bytes_of ''100'')) storage (\<lambda>_ storage.
      passes_op (storage_put bob (bytes_of ''250'')) storage (\<lambda>_ storage.
      passes_op (storage_put block (bytes_of ''block-1'')) storage (\<lambda>_ storage.
        storage_get alice storage = Inr (Some (bytes_of ''100'')) \<and> storage_get bob storage = Inr (Some (bytes_of ''250'')) \<and>
        storage_get (bytes_of ''missing'') storage = Inr None \<and>
        passes (storage_iter (bytes_of ACCOUNT_PREFIX) storage) (\<lambda>accounts.
          length accounts = 2 \<and> (\<exists>(key, value) \<in> set accounts. key = alice \<and> value = bytes_of ''100'') \<and>
          (\<exists>(key, value) \<in> set accounts. key = bob \<and> value = bytes_of ''250'')) \<and>
        passes_op (storage_delete alice) storage (\<lambda>_ storage. storage_get alice storage = Inr None)))))"

definition storage_high_level_block_transaction_account_roundtrip :: "'z env_scheme \<Rightarrow> 'd RocksDbStorage \<Rightarrow> bool" where
  "storage_high_level_block_transaction_account_roundtrip E storage =
     (let block = storage_sample_block; tx = b_transactions block ! 0; account = storage_sample_account 1000 2 3; alice = bytes_of ''alice'' in
      passes_save (save_block E block storage) (\<lambda>block_hash storage.
      passes_save (save_transaction E tx storage) (\<lambda>tx_hash storage.
      passes_op (update_account E alice account) storage (\<lambda>_ storage.
        get_block E (h_height (b_header block)) storage = Inr (Some block) \<and>
        get_transaction E tx_hash storage = Inr (Some tx) \<and>
        get_account E alice storage = Inr (Some account) \<and>
        passes (storage_get (height_index_key block_hash) storage) (\<lambda>found. passes (ok_or () found) (\<lambda>stored_height.
          passes (deserialize (bc_u64 E) stored_height) (\<lambda>decoded_height. decoded_height = h_height (b_header block))))))))"

definition storage_persists_after_restart ::
    "'z env_scheme \<Rightarrow> ('d RocksDbStorage \<Rightarrow> 'd RocksDbStorage) \<Rightarrow> 'd RocksDbStorage \<Rightarrow> bool" where
  "storage_persists_after_restart E reopen storage =
     (let block = storage_sample_block; tx = b_transactions block ! 0; account = storage_sample_account 5000 9 4; alice = bytes_of ''alice'' in
      passes_save (save_transaction E tx storage) (\<lambda>tx_hash storage.
      passes_save (save_block E block storage) (\<lambda>_ storage.
      passes_op (update_account E alice account) storage (\<lambda>_ storage.
        let reopened = reopen storage in
        get_block E (h_height (b_header block)) reopened = Inr (Some block) \<and>
        get_transaction E tx_hash reopened = Inr (Some tx) \<and>
        get_account E alice reopened = Inr (Some account)))))"

section \<open>Notes\<close>

definition storage_saves_and_scans_viewable_notes_by_viewing_key :: "'z storage_env_scheme \<Rightarrow> 'd RocksDbStorage \<Rightarrow> bool" where
  "storage_saves_and_scans_viewable_notes_by_viewing_key E storage =
     (let alice_viewing_key = replicate 32 21; bob_viewing_key = replicate 32 22 in
      passes (ViewableNote_new E 40 (replicate 32 31) alice_viewing_key (replicate 32 41) 0) (\<lambda>alice_note.
      passes (ViewableNote_new E 50 (replicate 32 32) bob_viewing_key (replicate 32 42) 1) (\<lambda>bob_note.
      passes_op (save_viewable_note E alice_note) storage (\<lambda>_ storage.
      passes_op (save_viewable_note E bob_note) storage (\<lambda>_ storage.
      passes (find_notes_for_viewing_key E alice_viewing_key storage) (\<lambda>scanned.
        get_viewable_note E (commitment (vn_note alice_note)) storage = Inr (Some alice_note) \<and>
        length scanned = 1 \<and> scanned ! 0 = alice_note))))))"

definition storage_persists_note_merkle_root_globally_and_by_shard ::
    "'z storage_env_scheme \<Rightarrow> ('d RocksDbStorage \<Rightarrow> 'd RocksDbStorage) \<Rightarrow> 'd RocksDbStorage \<Rightarrow> bool" where
  "storage_persists_note_merkle_root_globally_and_by_shard E reopen storage =
     (let global_root = replicate 32 7; shard_root = replicate 32 8 in
      passes_op (save_note_merkle_root E None global_root) storage (\<lambda>_ storage.
      passes_op (save_note_merkle_root E (Some 2) shard_root) storage (\<lambda>_ storage.
        let reopened = reopen storage in
        get_note_merkle_root E None reopened = Inr (Some global_root) \<and>
        get_note_merkle_root E (Some 2) reopened = Inr (Some shard_root))))"

section \<open>Keys and checksums\<close>

definition storage_key_prefixes_match_roadmap :: bool where
  "storage_key_prefixes_match_roadmap \<longleftrightarrow>
     block_key 42 = bytes_of ''b:42'' \<and> height_index_key (bytes_of ''hash'') = bytes_of ''h:hash'' \<and>
     transaction_key (bytes_of ''tx'') = bytes_of ''t:tx'' \<and> account_key (bytes_of ''addr'') = bytes_of ''a:addr'' \<and>
     stake_key (bytes_of ''validator'') = bytes_of ''s:validator'' \<and> contract_key (bytes_of ''contract'') = bytes_of ''c:contract'' \<and>
     contract_code_key (bytes_of ''contract'') = bytes_of ''c:contract'' \<and>
     contract_storage_prefix (bytes_of ''contract'') = bytes_of ''m:contract:'' \<and>
     contract_storage_key (bytes_of ''contract'') (bytes_of ''balance'') = bytes_of ''m:contract:balance'' \<and>
     anonymous_note_key (bytes_of ''commitment'') = bytes_of ''n:commitment'' \<and>
     viewing_hint_prefix (bytes_of ''hint'') = bytes_of ''v:hint:'' \<and>
     viewing_hint_note_key (bytes_of ''hint'') (bytes_of ''commitment'') = bytes_of ''v:hint:commitment'' \<and>
     note_merkle_root_key None = bytes_of ''r:global'' \<and> note_merkle_root_key (Some 7) = bytes_of ''r:shard:7''"

definition critical_data :: bytes where
  "critical_data = bytes_of ''prims-critical-data''"

definition checksum_roundtrip_preserves_payload :: "'z storage_env_scheme \<Rightarrow> bool" where
  "checksum_roundtrip_preserves_payload E =
     passes (wrap_payload E critical_data) (\<lambda>encoded. passes (unwrap_payload E encoded) (\<lambda>decoded. decoded = critical_data))"

definition checksum_detects_corruption :: "'z storage_env_scheme \<Rightarrow> bool" where
  "checksum_detects_corruption E =
     passes (wrap_payload E critical_data) (\<lambda>encoded.
       let last_index = length encoded - 1 in
       unwrap_payload E (encoded[last_index := encoded ! last_index XOR 0x01]) = Inl ChecksumMismatch)"

end
