(* ===== verification/StorageRuns.thy ===== *)
theory StorageRuns
  imports StorageTests
begin

text \<open>
  The scenarios of \<open>StorageTests\<close> hold on an empty database that satisfies \<open>rocksdb_spec\<close> and keeps its contents
  when it is opened again, with the layout of bincode for the types of the chain.
\<close>

unbundle bit_operations_syntax

section \<open>The setting\<close>

text \<open>A new database, and opening the directory again.\<close>

definition fresh_storage :: "'d RocksDbStorage \<Rightarrow> bool" where
  "fresh_storage s \<longleftrightarrow> storage_ok s \<and> content s = Map.empty"

definition durable :: "('d RocksDbStorage \<Rightarrow> 'd RocksDbStorage) \<Rightarrow> bool" where
  "durable reopen \<longleftrightarrow> (\<forall>s. storage_ok s \<longrightarrow> storage_ok (reopen s) \<and> content (reopen s) = content s)"

text \<open>Notes of arrays of 32 bytes can be encoded, and the strings whose digests the tests compare do not collide.\<close>

definition slots_string :: "'z env_scheme \<Rightarrow> bytes" where
  "slots_string E = slots_payload E [(bytes_of ''counter'', bytes_of ''1''), (bytes_of ''owner'', bytes_of ''alice'')]"

definition note_string :: "u64 \<Rightarrow> u8 \<Rightarrow> u8 \<Rightarrow> bytes" where
  "note_string v k r = to_le_bytes 8 v @ replicate 32 k @ replicate 32 r"

definition hint_string :: "u8 \<Rightarrow> bytes" where
  "hint_string k = bytes_of ''prims-viewing-key'' @ replicate 32 k"

definition damaged_data :: bytes where
  "damaged_data = bytes_of ''prims-critical-dat'' @ [0x60]"

definition storage_strings :: "'z env_scheme \<Rightarrow> bytes list" where
  "storage_strings E = [[], slots_string E, note_string 40 31 41, note_string 50 32 42, hint_string 21, hint_string 22,
     critical_data, damaged_data]"

text \<open>The layout of a checked payload: two vectors of bytes.\<close>

definition enc_checked :: "CheckedPayload \<Rightarrow> bytes" where
  "enc_checked c = enc_bytes (checksum c) @ enc_bytes (payload c)"

definition dec_checked :: "CheckedPayload reader" where
  "dec_checked bs = Option.bind (dec_bytes bs) (\<lambda>(c, bs). Option.bind (dec_bytes bs) (\<lambda>(p, bs). Some (\<lparr>checksum = c, payload = p\<rparr>, bs)))"

interpretation wire_checked: wire_format enc_checked dec_checked "\<lambda>c. bytes_fit (checksum c) \<and> bytes_fit (payload c)"
  by unfold_locales (simp add: enc_checked_def dec_checked_def wire_reads del: bytes_fit)

definition storage_setting :: "'z storage_env_scheme \<Rightarrow> bool" where
  "storage_setting E \<longleftrightarrow> sha256_spec E \<and>
     (\<forall>v. length (commitment (vn_note v)) = 32 \<and> length (vn_viewing_hint v) = 32 \<longrightarrow> roundtrips (bc_viewable_note E) v) \<and>
     (\<forall>r. length r = 32 \<longrightarrow> roundtrips (bc_note_root E) r) \<and>
     bc_checked E = bincode_codec enc_checked dec_checked \<and> inj_on (sha256_digest E) (set (storage_strings E))"

section \<open>Running operations\<close>

lemma passes_put:
  assumes "storage_ok s" and "\<And>s'. storage_ok s' \<Longrightarrow> content s' = (content s)(k \<mapsto> v) \<Longrightarrow> P () s'"
  shows "passes_op (storage_put k v) s P"
  using storage_put_content [OF assms(1), of k v] assms(2) by (auto simp: passes_op_def)

lemma passes_delete:
  assumes "storage_ok s" and "\<And>s'. storage_ok s' \<Longrightarrow> content s' = (content s)(k := None) \<Longrightarrow> P () s'"
  shows "passes_op (storage_delete k) s P"
  using storage_delete_content [OF assms(1), of k] assms(2) by (auto simp: passes_op_def)

lemma passes_encoded:
  assumes "storage_ok s" and "roundtrips c v"
    and "\<And>s' b. storage_ok s' \<Longrightarrow> content s' = (content s)(k \<mapsto> b) \<Longrightarrow> deserialize c b = Inr v \<Longrightarrow> P () s'"
  shows "passes_op (put_encoded c k v) s P"
proof -
  obtain b where "serialize c v = Inr b" "deserialize c b = Inr v" using assms(2) by (elim roundtripsE)
  with put_encoded_content [OF assms(1), of c v b k] assms(3) show ?thesis by (auto simp: passes_op_def)
qed

lemma get_decoded_stored: "storage_ok s \<Longrightarrow> content s k = Some b \<Longrightarrow> deserialize c b = Inr v \<Longrightarrow> get_decoded c k s = Inr (Some v)"
  by (simp add: get_decoded_content)

lemma passes_ran:
  fixes m :: "('s, unit) storage_op"
  shows "ran m s = Inr s' \<Longrightarrow> P () s' \<Longrightarrow> passes_op m s P"
  by (auto simp: passes_op_def ran_def split: prod.splits sum.splits)

lemma sample_values_fit:
  "roundtrips (bc_validator (bincode_env E)) storage_sample_validator"
  "roundtrips (bc_block (bincode_env E)) storage_sample_block"
  "roundtrips (bc_transaction (bincode_env E)) storage_sample_transaction"
  "roundtrips (bc_account (bincode_env E)) (storage_sample_account m n k)"
  by (intro bincode_roundtrips; simp add: storage_sample_validator_def storage_sample_block_def storage_sample_transaction_def
      storage_sample_account_def transaction_fits_def header_fits_def block_fits_def account_fits_def seq_fits_def
      AnonymousAccountState_default_def)+

section \<open>The scenarios hold\<close>

lemma validator_scenarios:
  assumes "fresh_storage s" and "durable reopen"
  shows "saves_and_reads_validator (bincode_env E) s" "persists_validator_after_restart (bincode_env E) reopen s"
  using assms
  by (auto simp: saves_and_reads_validator_def persists_validator_after_restart_def save_validator_def get_validator_def fresh_storage_def
      durable_def intro!: passes_encoded sample_values_fit get_decoded_stored)

lemma fresh_reads: "fresh_storage s \<Longrightarrow> get_decoded c k s = Inr None"
  by (simp add: fresh_storage_def get_decoded_content)

lemma deployed:
  assumes "sha256_spec E" and "fresh_storage s" and "sender \<noteq> []"
  obtains s' where "deploy_contract (bincode_env E) sender empty_module s = (s', Inr (derive_contract_address (bincode_env E) sender empty_module))"
    and "get_contract (bincode_env E) (derive_contract_address (bincode_env E) sender empty_module) s' = Inr (Some (fresh_contract (bincode_env E) empty_module))"
    and "get_account (bincode_env E) (derive_contract_address (bincode_env E) sender empty_module) s' = Inr (Some (fresh_account (bincode_env E) empty_module))"
    and "deploy_contract (bincode_env E) sender empty_module s' = (s', Inl ContractAddressExists)"
proof -
  have rt: "roundtrips (bc_contract (bincode_env E)) (fresh_contract (bincode_env E) empty_module)"
    "roundtrips (bc_account (bincode_env E)) (fresh_account (bincode_env E) empty_module)"
    using assms(1) by (simp_all add: bincode_roundtrips contract_fits_def account_fits_def fresh_contract_def fresh_account_def empty_module_def
        sha256_def contract_code_hash_def sha256_spec_def seq_fits_def AnonymousAccountState_default_def)
  have "storage_ok s" "empty_module \<noteq> []" using assms(2) by (simp_all add: fresh_storage_def empty_module_def)
  moreover have "get_account (bincode_env E) a s = Inr None" "get_contract (bincode_env E) a s = Inr None" for a
    using assms(2) by (simp_all add: get_account_def get_contract_def fresh_reads)
  ultimately show thesis using deploy_contract_once [OF _ assms(3) _ rt refl, of s] that by blast
qed

lemma deployment_scenarios:
  assumes "sha256_spec E" and "fresh_storage s"
  shows "deploy_contract_persists_code_and_contract_account (bincode_env E) s" "deploy_contract_rejects_empty_bytecode (bincode_env E) s"
    "deploy_contract_rejects_same_sender_and_code_twice (bincode_env E) s"
proof -
  have "replicate 32 (k :: u8) \<noteq> []" for k by simp
  note run = deployed [OF assms this]
  obtain s1 where "deploy_contract (bincode_env E) (replicate 32 9) empty_module s = (s1, Inr (derive_contract_address (bincode_env E) (replicate 32 9) empty_module))"
    "get_contract (bincode_env E) (derive_contract_address (bincode_env E) (replicate 32 9) empty_module) s1 = Inr (Some (fresh_contract (bincode_env E) empty_module))"
    "get_account (bincode_env E) (derive_contract_address (bincode_env E) (replicate 32 9) empty_module) s1 = Inr (Some (fresh_account (bincode_env E) empty_module))"
    by (rule run)
  then show "deploy_contract_persists_code_and_contract_account (bincode_env E) s"
    by (simp add: deploy_contract_persists_code_and_contract_account_def passes_op_def fresh_contract_def fresh_account_def)
  show "deploy_contract_rejects_empty_bytecode (bincode_env E) s"
    by (simp add: deploy_contract_rejects_empty_bytecode_def deploy_contract_def st_lift_def)
  obtain s2 where "deploy_contract (bincode_env E) (replicate 32 5) empty_module s = (s2, Inr (derive_contract_address (bincode_env E) (replicate 32 5) empty_module))"
    "deploy_contract (bincode_env E) (replicate 32 5) empty_module s2 = (s2, Inl ContractAddressExists)"
    by (rule run)
  then show "deploy_contract_rejects_same_sender_and_code_twice (bincode_env E) s"
    by (simp add: deploy_contract_rejects_same_sender_and_code_twice_def passes_op_def)
qed

lemma two_entries:
  assumes "btree_ok es" and "map_of es = [a \<mapsto> x, b \<mapsto> y]" and "a \<noteq> b"
  shows "length es = 2 \<and> (a, x) \<in> set es \<and> (b, y) \<in> set es"
proof -
  have d: "distinct (map fst es)" using assms(1) by (rule btree_ok_distinct)
  have "fst ` set es = dom (map_of es)" by (simp add: dom_map_of_conv_image_fst)
  then have "fst ` set es = {a, b}" using assms(2) by auto
  moreover have "length es = card (fst ` set es)" using distinct_card [OF d] by simp
  ultimately have "length es = 2" using assms(3) by simp
  moreover have "(a, x) \<in> set es" "(b, y) \<in> set es"
    using assms(2,3) by (auto intro: map_of_SomeD)
  ultimately show ?thesis by simp
qed

lemma crud_scenario:
  assumes "fresh_storage s"
  shows "storage_put_get_delete_and_iter s"
proof -
  let ?alice = "account_key (bytes_of ''alice'')" and ?bob = "account_key (bytes_of ''bob'')" and ?block = "block_key 1"
  let ?m = "[?alice \<mapsto> bytes_of ''100'', ?bob \<mapsto> bytes_of ''250'', ?block \<mapsto> bytes_of ''block-1'']"
  have keys: "?alice \<noteq> ?bob" "?block \<noteq> ?alice" "?block \<noteq> ?bob" "bytes_of ''missing'' \<noteq> ?alice" "bytes_of ''missing'' \<noteq> ?bob"
    "bytes_of ''missing'' \<noteq> ?block"
    by (simp_all add: key_defs prefix_defs block_key_def bytes_of_def)
  have pre: "prefix (bytes_of ACCOUNT_PREFIX) ?alice" "prefix (bytes_of ACCOUNT_PREFIX) ?bob" "\<not> prefix (bytes_of ACCOUNT_PREFIX) ?block"
    by (simp_all add: key_defs prefix_defs block_key_def bytes_of_def)
  have "passes (storage_iter (bytes_of ACCOUNT_PREFIX) t) (\<lambda>accounts. length accounts = 2 \<and>
      (\<exists>(key, value) \<in> set accounts. key = ?alice \<and> value = bytes_of ''100'') \<and>
      (\<exists>(key, value) \<in> set accounts. key = ?bob \<and> value = bytes_of ''250''))" if t: "storage_ok t" "content t = ?m" for t
  proof -
    obtain es where es: "storage_iter (bytes_of ACCOUNT_PREFIX) t = Inr es" "btree_ok es"
      "map_of es = (\<lambda>k. if prefix (bytes_of ACCOUNT_PREFIX) k then content t k else None)"
      using storage_iter_content [OF t(1)] by blast
    have "map_of es = [?alice \<mapsto> bytes_of ''100'', ?bob \<mapsto> bytes_of ''250'']"
      using pre by (auto simp: es(3) t(2) fun_eq_iff)
    from two_entries [OF es(2) this keys(1)] es(1) show ?thesis by auto
  qed
  with assms keys show ?thesis
    unfolding storage_put_get_delete_and_iter_def Let_def fresh_storage_def
    by (auto intro!: passes_put passes_delete simp: storage_get_content)
qed

lemma passes_save_block:
  assumes "storage_ok s" and "sha256_spec E"
    and "\<And>s' b n. storage_ok s' \<Longrightarrow> deserialize (bc_block (bincode_env E)) b = Inr storage_sample_block \<Longrightarrow>
      deserialize (bc_u64 (bincode_env E)) n = Inr 1 \<Longrightarrow>
      content s' = (content s)(block_key 1 \<mapsto> b, height_index_key (sha256_digest E (enc_header (b_header storage_sample_block))) \<mapsto> n) \<Longrightarrow>
      P (sha256_digest E (enc_header (b_header storage_sample_block))) s'"
  shows "passes_save (save_block (bincode_env E) storage_sample_block s) P"
proof -
  let ?h = "sha256_digest E (enc_header (b_header storage_sample_block))"
  obtain b where b: "serialize (bc_block (bincode_env E)) storage_sample_block = Inr b" "deserialize (bc_block (bincode_env E)) b = Inr storage_sample_block"
    by (rule roundtripsE [OF sample_values_fit(2)])
  obtain n where n: "serialize (bc_u64 (bincode_env E)) 1 = Inr n" "deserialize (bc_u64 (bincode_env E)) n = Inr 1"
    by (rule roundtripsE [OF bincode_roundtrips(8)])
  obtain s1 where s1: "put_encoded (bc_block (bincode_env E)) (block_key 1) storage_sample_block s = (s1, Inr ())" "storage_ok s1"
    "content s1 = (content s)(block_key 1 \<mapsto> b)"
    using put_encoded_content [OF assms(1) b(1)] by blast
  obtain s2 where s2: "put_encoded (bc_u64 (bincode_env E)) (height_index_key ?h) 1 s1 = (s2, Inr ())" "storage_ok s2"
    "content s2 = (content s1)(height_index_key ?h \<mapsto> n)"
    using put_encoded_content [OF s1(2) n(1)] by blast
  have "h_height (b_header storage_sample_block) = 1" by (simp add: storage_sample_block_def)
  then have "save_block (bincode_env E) storage_sample_block s = Inr (s2, Inr ?h)"
    using s1(1) s2(1) by (simp add: save_block_def hash_block_header_def sha256_def st_bind_Inr st_lift_def)
  with assms(3) [OF s2(2) b(2) n(2)] s1(3) s2(3) show ?thesis by (simp add: passes_save_def)
qed

lemma passes_save_transaction:
  assumes "storage_ok s"
    and "\<And>s' b. storage_ok s' \<Longrightarrow> deserialize (bc_transaction (bincode_env E)) b = Inr storage_sample_transaction \<Longrightarrow>
      content s' = (content s)(transaction_key (sha256_digest E (enc_transaction storage_sample_transaction)) \<mapsto> b) \<Longrightarrow>
      P (sha256_digest E (enc_transaction storage_sample_transaction)) s'"
  shows "passes_save (save_transaction (bincode_env E) storage_sample_transaction s) P"
proof -
  let ?h = "sha256_digest E (enc_transaction storage_sample_transaction)"
  obtain b where b: "serialize (bc_transaction (bincode_env E)) storage_sample_transaction = Inr b"
    "deserialize (bc_transaction (bincode_env E)) b = Inr storage_sample_transaction"
    by (rule roundtripsE [OF sample_values_fit(3)])
  obtain s1 where s1: "put_encoded (bc_transaction (bincode_env E)) (transaction_key ?h) storage_sample_transaction s = (s1, Inr ())" "storage_ok s1"
    "content s1 = (content s)(transaction_key ?h \<mapsto> b)"
    using put_encoded_content [OF assms(1) b(1)] by blast
  then have "save_transaction (bincode_env E) storage_sample_transaction s = Inr (s1, Inr ?h)"
    by (simp add: save_transaction_def hash_transaction_def sha256_def st_bind_Inr st_lift_def)
  with assms(2) [OF s1(2) b(2) s1(3)] show ?thesis by (simp add: passes_save_def)
qed

lemma chain_keys:
  "block_key n \<noteq> transaction_key h" "block_key n \<noteq> account_key a" "block_key n \<noteq> height_index_key h"
  "transaction_key h \<noteq> account_key a" "transaction_key h \<noteq> height_index_key k" "account_key a \<noteq> height_index_key k"
  by (simp_all add: key_defs prefix_defs block_key_def bytes_of_def)

lemma chain_scenarios:
  assumes "sha256_spec E" and "fresh_storage s" and "durable reopen"
  shows "storage_high_level_block_transaction_account_roundtrip (bincode_env E) s" "storage_persists_after_restart (bincode_env E) reopen s"
proof -
  have ok: "storage_ok s" using assms(2) by (simp add: fresh_storage_def)
  have txs: "b_transactions storage_sample_block ! 0 = storage_sample_transaction" "h_height (b_header storage_sample_block) = 1"
    by (simp_all add: storage_sample_block_def)
  show "storage_high_level_block_transaction_account_roundtrip (bincode_env E) s"
    unfolding storage_high_level_block_transaction_account_roundtrip_def Let_def txs update_account_def get_block_def get_transaction_def get_account_def
    using ok assms(1) chain_keys chain_keys [symmetric]
    by (auto intro!: passes_save_block passes_save_transaction passes_encoded sample_values_fit get_decoded_stored simp: storage_get_content)
  show "storage_persists_after_restart (bincode_env E) reopen s"
    unfolding storage_persists_after_restart_def Let_def txs update_account_def get_block_def get_transaction_def get_account_def
    using ok assms(1,3) chain_keys chain_keys [symmetric]
    by (auto intro!: passes_save_block passes_save_transaction passes_encoded sample_values_fit get_decoded_stored simp: durable_def)
qed

lemma two_values:
  fixes s :: "'a RocksDbStorage"
  assumes "storage_ok s" and "durable reopen" and "j \<noteq> k" and "roundtrips c x" "roundtrips c y"
  shows "passes_op (put_encoded c j x) s (\<lambda>_ s. passes_op (put_encoded c k y) s (\<lambda>_ s.
    get_decoded c j (reopen s) = Inr (Some x) \<and> get_decoded c k (reopen s) = Inr (Some y)))"
proof (intro passes_encoded [OF assms(1,4)] passes_encoded [OF _ assms(5)])
  fix s1 s2 :: "'a RocksDbStorage" and b1 b2
  assume "storage_ok s2" and s1: "content s1 = (content s)(j \<mapsto> b1)" "deserialize c b1 = Inr x"
    and s2: "content s2 = (content s1)(k \<mapsto> b2)" "deserialize c b2 = Inr y"
  then have ok: "storage_ok (reopen s2)" "content (reopen s2) = content s2" using assms(2) by (simp_all add: durable_def)
  have "content (reopen s2) j = Some b1" "content (reopen s2) k = Some b2" using ok(2) s1(1) s2(1) assms(3) by simp_all
  with get_decoded_stored [OF ok(1) _ s1(2)] get_decoded_stored [OF ok(1) _ s2(2)]
  show "get_decoded c j (reopen s2) = Inr (Some x) \<and> get_decoded c k (reopen s2) = Inr (Some y)" by simp
qed

lemma root_scenario:
  assumes "storage_setting E" and "fresh_storage s" and "durable reopen"
  shows "storage_persists_note_merkle_root_globally_and_by_shard E reopen s"
proof -
  have rt: "roundtrips (bc_note_root E) (replicate 32 k)" for k using assms(1) by (simp add: storage_setting_def)
  have "note_merkle_root_key None \<noteq> note_merkle_root_key (Some 2)" by (simp only: note_merkle_root_key_inj) simp
  moreover have "storage_ok s" using assms(2) by (simp add: fresh_storage_def)
  ultimately show ?thesis
    unfolding storage_persists_note_merkle_root_globally_and_by_shard_def Let_def save_note_merkle_root_def get_note_merkle_root_def
    by (intro two_values assms(3) rt)
qed

lemma distinct_singleton: "set xs = {a} \<Longrightarrow> distinct xs \<Longrightarrow> xs = [a]"
  by (cases xs) (auto simp: subset_singleton_iff)

lemma storage_differs:
  assumes "storage_setting E" and "a \<in> set (storage_strings E)" "b \<in> set (storage_strings E)" and "a \<noteq> b"
  shows "sha256_digest E a \<noteq> sha256_digest E b"
  using assms by (auto simp: storage_setting_def dest: inj_onD)

lemma note_scenario:
  assumes "storage_setting E" and "fresh_storage s"
  shows "storage_saves_and_scans_viewable_notes_by_viewing_key E s"
proof -
  let ?c = "\<lambda>v k r. sha256_digest E (note_string v k r)" and ?h = "\<lambda>k. sha256_digest E (hint_string k)"
  let ?a = "\<lparr>vn_note = \<lparr>commitment = ?c 40 31 41\<rparr>, vn_viewing_hint = ?h 21, vn_shard_id = 0\<rparr>"
  let ?b = "\<lparr>vn_note = \<lparr>commitment = ?c 50 32 42\<rparr>, vn_viewing_hint = ?h 22, vn_shard_id = 1\<rparr>"
  have len: "length (sha256_digest E x) = 32" for x using assms(1) by (simp add: storage_setting_def sha256_spec_def)
  have zero: "replicate 32 k \<noteq> zero32" if "k \<noteq> 0" for k :: u8 using that by (simp add: zero32_def)
  have hint: "compute_viewing_hint E (replicate 32 k) = Some (?h k)" if "k \<noteq> 0" for k
    using zero [OF that] by (simp add: compute_viewing_hint_def hint_string_def)
  have made: "ViewableNote_new E 40 (replicate 32 31) (replicate 32 21) (replicate 32 41) 0 = Inr ?a"
    "ViewableNote_new E 50 (replicate 32 32) (replicate 32 22) (replicate 32 42) 1 = Inr ?b"
    by (simp_all add: ViewableNote_new_def Note_new_def from_note_def zero hint compute_commitment_def note_string_def)
  have ids: "note_id ?b \<noteq> note_id ?a" unfolding note_id_def
    using storage_differs [OF assms(1), of "note_string 50 32 42" "note_string 40 31 41"]
    by (simp add: storage_strings_def) (simp add: note_string_def)
  have hints: "?h 22 \<noteq> ?h 21"
    using storage_differs [OF assms(1), of "hint_string 22" "hint_string 21"] by (simp add: storage_strings_def) (simp add: hint_string_def)
  have rt: "roundtrips (bc_viewable_note E) ?a" "roundtrips (bc_viewable_note E) ?b"
    using assms(1) by (simp_all add: storage_setting_def len)
  have "note_index E {} s" using assms(2) by (simp add: note_index_def fresh_storage_def)
  from save_note_index [OF this rt(1)] obtain s1 where s1: "save_viewable_note E ?a s = (s1, Inr ())" "note_index E {?a} s1"
    by (auto simp: len)
  from save_note_index [OF s1(2) rt(2)] ids obtain s2 where s2: "save_viewable_note E ?b s1 = (s2, Inr ())" "note_index E {?b, ?a} s2"
    by (auto simp: len)
  have "inj_on note_id {?b, ?a}" using ids by auto
  from find_notes_index [OF s2(2) this, of "replicate 32 21"] assms(1) obtain res where
    res: "find_notes_for_viewing_key E (replicate 32 21) s2 = Inr res" "distinct res" "set res = {v \<in> {?b, ?a}. is_visible_to E v (replicate 32 21)}"
    by (auto simp: storage_setting_def)
  have "{v \<in> {?b, ?a}. is_visible_to E v (replicate 32 21)} = {?a}"
    using hints by (auto simp: is_visible_to_def hint)
  then have "set res = {?a}" using res(3) by simp
  then have "res = [?a]" using res(2) by (rule distinct_singleton)
  moreover have "get_viewable_note E (?c 40 31 41) s2 = Inr (Some ?a)"
    using s2(2) by (auto simp: note_index_def get_viewable_note_def note_id_def intro: get_decoded_stored)
  ultimately show ?thesis
    using s1(1) s2(1) res(1) by (simp add: storage_saves_and_scans_viewable_notes_by_viewing_key_def made passes_op_def)
qed

text \<open>The two slots that the test of contract storage writes, in key order.\<close>

lemma written_slots:
  assumes "storage_ok t" and "content t = [contract_key a \<mapsto> b0]" and "updated E a c [(bytes_of ''counter'', bytes_of ''1''), (bytes_of ''owner'', bytes_of ''alice'')] t u"
  shows "compute_contract_storage_root E a u = Inr (sha256 E (slots_string E))"
proof -
  let ?m = "[(bytes_of ''counter'', bytes_of ''1''), (bytes_of ''owner'', bytes_of ''alice'')]"
  obtain b where u: "storage_ok u" "content u = (content t ++ slot_writes a ?m)(contract_key a \<mapsto> b)"
    using assms(3) by (auto simp: updated_def)
  have "btree_ok ?m" by (simp add: bytes_of_def)
  moreover have "map_of ?m = contract_slots a u"
  proof (rule ext)
    fix k
    have "contract_slots a u k = (case map_of (rev ?m) k of Some v \<Rightarrow> Some v | None \<Rightarrow> None)"
      using contract_key_not_slot [symmetric]
      by (simp add: contract_slots_def u(2) assms(2) map_add_def slot_writes_slot split: option.splits)
    moreover have "bytes_of ''counter'' \<noteq> bytes_of ''owner''" by (simp add: bytes_of_def)
    ultimately show "map_of ?m k = contract_slots a u k" by (auto split: option.splits)
  qed
  ultimately have "compute_contract_storage_root E a u = Inr (sha256 E (slots_payload E ?m))"
    by (rule compute_root_slots [OF u(1)])
  then show ?thesis by (simp only: slots_string_def)
qed

lemma contract_storage_scenario:
  assumes "storage_setting E" and "fresh_storage s"
  shows "contract_storage_roundtrip_updates_storage_root (bincode_env E) s"
proof -
  let ?B = "bincode_env E" and ?a = "bytes_of ''contract-1''" and ?ws = "[(bytes_of ''counter'', bytes_of ''1''), (bytes_of ''owner'', bytes_of ''alice'')]"
  let ?c = "storage_sample_contract ?B"
  have len: "length (sha256_digest E x) = 32" for x using assms(1) by (simp add: storage_setting_def sha256_spec_def)
  have rt: "\<forall>x. roundtrips (bc_contract ?B) (?c\<lparr>c_storage_root := sha256 ?B x\<rparr>)" and rt0: "roundtrips (bc_contract ?B) ?c"
    by (simp_all add: bincode_roundtrips contract_fits_def storage_sample_contract_def empty_module_def sha256_def len)
  have "passes_op (set_contract_storage ?B ?a (bytes_of ''counter'') (bytes_of ''1'')) t (\<lambda>_ t.
      passes_op (set_contract_storage ?B ?a (bytes_of ''owner'') (bytes_of ''alice'')) t (\<lambda>_ t.
        get_contract_storage ?B ?a (bytes_of ''counter'') t = Inr (Some (bytes_of ''1'')) \<and>
        passes (get_contract ?B ?a t) (\<lambda>found. passes (ok_or () found) (\<lambda>stored_contract.
          c_code_wasm stored_contract = c_code_wasm ?c \<and> c_storage_root stored_contract \<noteq> c_storage_root ?c \<and>
          length (c_storage_root stored_contract) = 32))))"
    if t: "storage_ok t" "content t = [contract_key ?a \<mapsto> b0]" "deserialize (bc_contract ?B) b0 = Inr ?c" for t b0
  proof -
    have "get_contract ?B ?a t = Inr (Some ?c)" using t by (simp add: get_contract_def get_decoded_content)
    from sets_update [OF t(1) this rt, of ?ws] obtain u2 where
      "try_fold (\<lambda>s (k, v). ran (set_contract_storage ?B ?a k v) s) t ?ws = Inr u2" and up: "updated ?B ?a ?c ?ws t u2" by blast
    then obtain u1 where u: "ran (set_contract_storage ?B ?a (bytes_of ''counter'') (bytes_of ''1'')) t = Inr u1"
      "ran (set_contract_storage ?B ?a (bytes_of ''owner'') (bytes_of ''alice'')) u1 = Inr u2"
      by (auto simp: result_simps)
    have root: "compute_contract_storage_root ?B ?a u2 = Inr (sha256 ?B (slots_string ?B))" by (rule written_slots [OF t(1,2) up])
    have "length (slots_string ?B) \<noteq> 0" by (simp add: slots_string_def slots_payload_def sha256_def len)
    then have "slots_string E \<noteq> []" by (auto simp: slots_string_def slots_payload_def sha256_def)
    then have "sha256_digest E (slots_string E) \<noteq> sha256_digest E []"
      by (intro storage_differs [OF assms(1)]) (simp_all add: storage_strings_def)
    then have "sha256 ?B (slots_string ?B) \<noteq> c_storage_root ?c"
      by (simp add: storage_sample_contract_def sha256_def slots_string_def slots_payload_def)
    moreover have "bytes_of ''counter'' \<noteq> bytes_of ''owner''" by (simp add: bytes_of_def)
    ultimately show ?thesis
      using updated_reads [OF up rt] root by (intro passes_ran [OF u(1)] passes_ran [OF u(2)]) (auto simp: sha256_def len)
  qed
  with assms(2) rt0 show ?thesis
    unfolding contract_storage_roundtrip_updates_storage_root_def Let_def update_contract_def
    by (intro passes_encoded) (auto simp: fresh_storage_def)
qed

lemma key_scenario: "storage_key_prefixes_match_roadmap"
  unfolding storage_key_prefixes_match_roadmap_def by (intro conjI; code_simp)

lemma checksum_scenarios:
  assumes "storage_setting E"
  shows "checksum_roundtrip_preserves_payload E" "checksum_detects_corruption E"
proof -
  have E: "bc_checked E = bincode_codec enc_checked dec_checked" "sha256_spec E" using assms by (simp_all add: storage_setting_def)
  let ?c = "\<lambda>p. \<lparr>checksum = sha256 E critical_data, payload = p\<rparr>"
  have decoded: "deserialize (bc_checked E) (enc_checked (?c p)) = Inr (?c p)" if "length p = 19" for p
    using wire_checked.dec_enc [of "?c p" "[]"] that E by (simp add: bincode_codec_def sha256_def sha256_spec_def)
  have wrapped: "wrap_payload E critical_data = Inr (enc_checked (?c critical_data))"
    by (simp add: wrap_payload_def E(1) bincode_codec_def)
  have len: "length critical_data = 19" "length damaged_data = 19" by (simp_all add: critical_data_def damaged_data_def)
  from wrapped decoded [OF len(1)] show "checksum_roundtrip_preserves_payload E"
    by (simp add: checksum_roundtrip_preserves_payload_def unwrap_payload_def)
  have last: "critical_data = butlast critical_data @ [last critical_data]" "damaged_data = butlast critical_data @ [last critical_data XOR 1]"
    by (simp_all add: critical_data_def damaged_data_def bytes_of_def)
  have "(enc_checked (?c (xs @ [x])))[length (enc_checked (?c (xs @ [x]))) - 1 := y] = enc_checked (?c (xs @ [y]))" for xs x y
    by (simp add: enc_checked_def enc_seq_def enc_byte_def list_update_append)
  moreover have "enc_checked (?c (xs @ [x])) ! (length (enc_checked (?c (xs @ [x]))) - 1) = x" for xs x
    by (simp add: enc_checked_def enc_seq_def enc_byte_def nth_append)
  ultimately have damage: "(enc_checked (?c critical_data))[length (enc_checked (?c critical_data)) - 1 :=
      enc_checked (?c critical_data) ! (length (enc_checked (?c critical_data)) - 1) XOR 1] = enc_checked (?c damaged_data)"
    using last by metis
  have "critical_data \<noteq> damaged_data" by (simp add: critical_data_def damaged_data_def bytes_of_def)
  then have "sha256 E damaged_data \<noteq> sha256 E critical_data"
    using storage_differs [OF assms, of damaged_data critical_data] by (auto simp: sha256_def storage_strings_def)
  with decoded [OF len(2)] show "checksum_detects_corruption E"
    by (simp add: checksum_detects_corruption_def wrapped Let_def damage [unfolded One_nat_def] unwrap_payload_def)
qed

section \<open>The unit tests pass\<close>

text \<open>
  The unit tests of the storage pass on every new database that keeps its contents when it is opened again, for every hash
  without a collision among the strings they compare.
\<close>

theorem storage_tests_pass:
  assumes "storage_setting E" and "fresh_storage s" and "durable reopen"
  shows "deploy_contract_persists_code_and_contract_account (bincode_env E) s \<and>
    deploy_contract_rejects_empty_bytecode (bincode_env E) s \<and>
    deploy_contract_rejects_same_sender_and_code_twice (bincode_env E) s \<and>
    contract_storage_roundtrip_updates_storage_root (bincode_env E) s \<and>
    saves_and_reads_validator (bincode_env E) s \<and> persists_validator_after_restart (bincode_env E) reopen s \<and>
    storage_put_get_delete_and_iter s \<and> storage_high_level_block_transaction_account_roundtrip (bincode_env E) s \<and>
    storage_persists_after_restart (bincode_env E) reopen s \<and>
    storage_saves_and_scans_viewable_notes_by_viewing_key E s \<and>
    storage_persists_note_merkle_root_globally_and_by_shard E reopen s \<and>
    storage_key_prefixes_match_roadmap \<and> checksum_roundtrip_preserves_payload E \<and> checksum_detects_corruption E"
proof -
  have spec: "sha256_spec E" using assms(1) by (simp add: storage_setting_def)
  show ?thesis
    using deployment_scenarios [OF spec assms(2)] contract_storage_scenario [OF assms(1,2)] validator_scenarios [OF assms(2,3), of E]
      crud_scenario [OF assms(2)] chain_scenarios [OF spec assms(2,3)] note_scenario [OF assms(1,2)] root_scenario [OF assms] key_scenario
      checksum_scenarios [OF assms(1)]
    by (intro conjI)
qed

text \<open>Arrays of 32 bytes are written without a length.\<close>

definition enc_note :: "ViewableNote \<Rightarrow> bytes" where
  "enc_note v = commitment (vn_note v) @ vn_viewing_hint v @ to_le_bytes 2 (vn_shard_id v)"

definition dec_array :: "bytes reader" where
  "dec_array bs = (if length bs < 32 then None else Some (take 32 bs, drop 32 bs))"

definition dec_note :: "ViewableNote reader" where
  "dec_note bs = Option.bind (dec_array bs) (\<lambda>(c, bs). Option.bind (dec_array bs) (\<lambda>(hint, bs). Option.bind (dec_word 2 bs) (\<lambda>(shard, bs).
     Some (\<lparr>vn_note = \<lparr>commitment = c\<rparr>, vn_viewing_hint = hint, vn_shard_id = shard\<rparr>, bs))))"

interpretation wire_array: wire_format id dec_array "\<lambda>b. length b = 32"
  by unfold_locales (simp add: dec_array_def)

interpretation wire_note: wire_format enc_note dec_note "\<lambda>v. length (commitment (vn_note v)) = 32 \<and> length (vn_viewing_hint v) = 32"
  by unfold_locales (simp add: enc_note_def dec_note_def dec_word_le wire_array.dec_enc [unfolded id_def])

definition spread_storage_env :: storage_env where
  "spread_storage_env = env.extend spread_env (storage_env.fields (bincode_codec enc_note dec_note) (bincode_codec id dec_array)
     (bincode_codec enc_checked dec_checked))"

lemma storage_spread_values:
  "spread (bytes_of ''counter'') = 13238"
  "spread (bytes_of ''1'') = 267"
  "spread (bytes_of ''owner'') = 28365"
  "spread (bytes_of ''alice'') = 4762"
  "spread (spread_bytes 13238 @ spread_bytes 267 @ spread_bytes 28365 @ spread_bytes 4762) = 59591"
  "spread ([]) = 7"
  "spread (note_string 40 31 41) = 30815"
  "spread (note_string 50 32 42) = 3349"
  "spread (hint_string 21) = 10825"
  "spread (hint_string 22) = 27721"
  "spread critical_data = 52562"
  "spread damaged_data = 52561"
  by code_simp+

lemma spread_storage_setting: "storage_setting spread_storage_env"
proof -
  have env: "sha256_digest spread_storage_env x = spread_bytes (spread x)" for x
    by (simp add: spread_storage_env_def env.defs spread_env_def)
  have codecs: "bc_viewable_note spread_storage_env = bincode_codec enc_note dec_note" "bc_note_root spread_storage_env = bincode_codec id dec_array"
    "bc_checked spread_storage_env = bincode_codec enc_checked dec_checked"
    by (simp_all add: spread_storage_env_def env.defs storage_env.defs)
  have "sha256_spec spread_storage_env" using spread_env_spec(1) by (simp add: sha256_spec_def env spread_digest)
  moreover have "distinct (map (sha256_digest spread_storage_env) (storage_strings spread_storage_env))"
    by (simp add: storage_strings_def slots_string_def slots_payload_def sha256_def env storage_spread_values spread_bytes_inj)
  then have "inj_on (sha256_digest spread_storage_env) (set (storage_strings spread_storage_env))" by (simp add: distinct_map)
  ultimately show ?thesis
    using wire_note.roundtrips_codec wire_array.roundtrips_codec by (simp add: storage_setting_def codecs)
qed

lemma sample_storage_fresh: "fresh_storage sample_storage"
  using sample_storage_ok by (simp add: fresh_storage_def content_def fun_eq_iff sample_storage_def log_engine_def log_entries_def)

theorem storage_tests_pass_witness:
  "contract_storage_roundtrip_updates_storage_root (bincode_env spread_storage_env) sample_storage \<and>
   storage_put_get_delete_and_iter sample_storage \<and>
   storage_saves_and_scans_viewable_notes_by_viewing_key spread_storage_env sample_storage"
proof -
  have "durable id" by (simp add: durable_def)
  then show ?thesis using storage_tests_pass [OF spread_storage_setting sample_storage_fresh] by blast
qed

end
