(* ===== verification/VmTests.thy ===== *)
theory VmTests
  imports StorageTests Vm
begin

text \<open>
  The unit tests of \<open>src/src/vm/mod.rs\<close> as scenarios of the model: each test function is a predicate that runs
  the same calls and states the same assertions. The WASM engine, the new database and the trap that the engine
  reports when the fuel is used up are arguments; the guest modules are the texts of the tests.
\<close>

section \<open>Fixtures\<close>

definition vm_sample_account :: "u64 \<Rightarrow> u64 \<Rightarrow> Account" where
  "vm_sample_account balance nonce =
     \<lparr>a_balance = balance, a_nonce = nonce, a_code_hash = None, a_anonymous_state = AnonymousAccountState_default\<rparr>"

definition sample_contract_account :: "u64 \<Rightarrow> u64 \<Rightarrow> Account" where
  "sample_contract_account balance nonce =
     \<lparr>a_balance = balance, a_nonce = nonce, a_code_hash = Some (replicate 32 7), a_anonymous_state = AnonymousAccountState_default\<rparr>"

definition vm_sample_contract :: "'z env_scheme \<Rightarrow> Contract" where
  "vm_sample_contract E = \<lparr>c_code_wasm = empty_module, c_storage_root = sha256 E []\<rparr>"

definition sample_context :: WasmExecutionContext where
  "sample_context = \<lparr>ctx_contract_address = bytes_of ''contract-1'', ctx_caller = bytes_of ''caller-1'', ctx_block_height = 42,
     ctx_shard_id = DEFAULT_SHARD_ID\<rparr>"

text \<open>
  Guest modules, in the text format of WebAssembly. A raw string starts with a line end, and its last
  line is the indentation of the closing quote.
\<close>

definition wat_text :: "string list \<Rightarrow> bytes" where
  "wat_text ls = bytes_of (concat (map (\<lambda>l. CHR 0x0A # l) ls))"

definition finite_wat :: bytes where
  "finite_wat = wat_text [
     ''            (module'',
     ''              (func (export \"run\")'',
     ''                i32.const 1'',
     ''                drop'',
     ''                i32.const 2'',
     ''                drop))'',
     ''        '']"

definition endless_wat :: bytes where
  "endless_wat = wat_text [
     ''            (module'',
     ''              (func (export \"run\")'',
     ''                (loop'',
     ''                  br 0)))'',
     ''        '']"

definition increment_wat :: bytes where
  "increment_wat = wat_text [
     ''            (module'',
     ''              (import \"prims\" \"set_storage\" (func $set_storage (param i32 i32 i32 i32)))'',
     ''              (import \"prims\" \"emit_event\" (func $emit_event (param i32 i32 i32 i32)))'',
     ''              (memory (export \"memory\") 1)'',
     ''              (data (i32.const 0) \"counter\")'',
     ''              (data (i32.const 16) \"1\")'',
     ''              (data (i32.const 32) \"Incremented\")'',
     ''              (func (export \"increment\")'',
     ''                i32.const 0'',
     ''                i32.const 7'',
     ''                i32.const 16'',
     ''                i32.const 1'',
     ''                call $set_storage'',
     ''                i32.const 32'',
     ''                i32.const 11'',
     ''                i32.const 16'',
     ''                i32.const 1'',
     ''                call $emit_event))'',
     ''        '']"

definition trapping_wat :: bytes where
  "trapping_wat = wat_text [
     ''            (module'',
     ''              (import \"prims\" \"set_storage\" (func $set_storage (param i32 i32 i32 i32)))'',
     ''              (memory (export \"memory\") 1)'',
     ''              (data (i32.const 0) \"counter\")'',
     ''              (data (i32.const 16) \"1\")'',
     ''              (func (export \"increment_then_trap\")'',
     ''                i32.const 0'',
     ''                i32.const 7'',
     ''                i32.const 16'',
     ''                i32.const 1'',
     ''                call $set_storage'',
     ''                unreachable))'',
     ''        '']"

definition looping_wat :: bytes where
  "looping_wat = wat_text [
     ''            (module'',
     ''              (import \"prims\" \"set_storage\" (func $set_storage (param i32 i32 i32 i32)))'',
     ''              (memory (export \"memory\") 1)'',
     ''              (data (i32.const 0) \"counter\")'',
     ''              (data (i32.const 16) \"1\")'',
     ''              (func (export \"increment_then_loop\")'',
     ''                i32.const 0'',
     ''                i32.const 7'',
     ''                i32.const 16'',
     ''                i32.const 1'',
     ''                call $set_storage'',
     ''                (loop'',
     ''                  br 0)))'',
     ''        '']"

definition bad_memory_wat :: bytes where
  "bad_memory_wat = wat_text [
     ''            (module'',
     ''              (import \"prims\" \"set_storage\" (func $set_storage (param i32 i32 i32 i32)))'',
     ''              (memory (export \"memory\") 1)'',
     ''              (data (i32.const 0) \"counter\")'',
     ''              (data (i32.const 16) \"1\")'',
     ''              (func (export \"increment_then_bad_memory\")'',
     ''                i32.const 0'',
     ''                i32.const 7'',
     ''                i32.const 16'',
     ''                i32.const 1'',
     ''                call $set_storage'',
     ''                i32.const 0'',
     ''                i32.const 7'',
     ''                i32.const 65536'',
     ''                i32.const 4'',
     ''                call $set_storage))'',
     ''        '']"

definition negative_offset_wat :: bytes where
  "negative_offset_wat = wat_text [
     ''            (module'',
     ''              (import \"prims\" \"set_storage\" (func $set_storage (param i32 i32 i32 i32)))'',
     ''              (memory (export \"memory\") 1)'',
     ''              (data (i32.const 0) \"counter\")'',
     ''              (data (i32.const 16) \"1\")'',
     ''              (func (export \"increment_then_negative_offset\")'',
     ''                i32.const 0'',
     ''                i32.const 7'',
     ''                i32.const 16'',
     ''                i32.const 1'',
     ''                call $set_storage'',
     ''                i32.const -1'',
     ''                i32.const 7'',
     ''                i32.const 16'',
     ''                i32.const 1'',
     ''                call $set_storage))'',
     ''        '']"

text \<open>The exported function \<open>run\<close> of a module without imports: instantiation, then the call.\<close>

definition run_alone :: "('m, 'g) wasmtime \<Rightarrow> 'g \<Rightarrow> u64 \<Rightarrow> ('g \<times> u64, vm_error) result" where
  "run_alone W g fuel =
     (case wt_step W g fuel of
        (g1, fuel1, Returned) \<Rightarrow> Inr (g1, fuel1)
      | (g1, fuel1, Trapped message) \<Rightarrow> Inl (GuestTrap message)
      | (g1, fuel1, Calls c) \<Rightarrow> Inl (EngineError ''unknown import''))"

definition execute_exported_run :: "('m, 'g) wasmtime \<Rightarrow> bytes \<Rightarrow> u64 \<Rightarrow> (u64, vm_error) result" where
  "execute_exported_run W wat limit =
     and_then (set_fuel_limit limit (with_context sample_context)) (\<lambda>vm.
     and_then (new_metered_store W vm) (\<lambda>store.
     and_then (map_err EngineError (wt_module_new W wat)) (\<lambda>module.
     and_then (map_err EngineError (wt_instantiate W module)) (\<lambda>g.
     and_then (run_alone W g (store_fuel store)) (\<lambda>(inst, fuel1).
     and_then (map_err (FunctionUnresolved ''run'') (wt_get_typed_func W inst ''run'')) (\<lambda>run.
     and_then (run_alone W run fuel1) (\<lambda>(_, fuel2). remaining_fuel (store\<lparr>store_fuel := fuel2\<rparr>))))))))"

text \<open>The contract of a test: an account, and a record with the given module.\<close>

definition with_module :: "'z env_scheme \<Rightarrow> bytes \<Rightarrow> 'd RocksDbStorage \<Rightarrow> ('d RocksDbStorage \<Rightarrow> bool) \<Rightarrow> bool" where
  "with_module E wat storage P =
     passes_op (update_account E (bytes_of ''contract-1'') (sample_contract_account 0 0)) storage (\<lambda>_ storage.
     passes_op (update_contract E (bytes_of ''contract-1'') ((vm_sample_contract E)\<lparr>c_code_wasm := wat\<rparr>)) storage (\<lambda>_ storage. P storage))"

definition call_passes :: "('s \<times> ('a, 'e) result) option \<Rightarrow> ('a \<Rightarrow> 's \<Rightarrow> bool) \<Rightarrow> bool" where
  "call_passes r P = (case r of Some (s, Inr x) \<Rightarrow> P x s | _ \<Rightarrow> False)"

definition call_fails :: "('s \<times> ('a, 'e) result) option \<Rightarrow> ('e \<Rightarrow> 's \<Rightarrow> bool) \<Rightarrow> bool" where
  "call_fails r P = (case r of Some (s, Inl e) \<Rightarrow> P e s | _ \<Rightarrow> False)"

text \<open>After a failed call: the slot was not written, and the record has the storage root of before.\<close>

definition rolled_back :: "'z env_scheme \<Rightarrow> 'd RocksDbStorage \<Rightarrow> bool" where
  "rolled_back E storage \<longleftrightarrow>
     get_contract_storage E (bytes_of ''contract-1'') (bytes_of ''counter'') storage = Inr None \<and>
     passes (get_contract E (bytes_of ''contract-1'') storage) (\<lambda>found. passes (ok_or () found) (\<lambda>stored_contract.
       c_storage_root stored_contract = c_storage_root (vm_sample_contract E)))"

definition delta_params :: bytes where
  "delta_params = bytes_of ''{\"delta\":1}''"

section \<open>The machine\<close>

definition wasm_vm_new_starts_empty :: bool where
  "wasm_vm_new_starts_empty =
     (let vm = WasmVM_new in
      ctx_contract_address (vm_context vm) = [] \<and> get_caller vm = [] \<and> get_block_height vm = 0 \<and>
      vm_pending_transfers vm = [] \<and> vm_emitted_events vm = [] \<and> fuel_limit vm = DEFAULT_WASM_FUEL_LIMIT)"

definition set_fuel_limit_rejects_zero :: bool where
  "set_fuel_limit_rejects_zero = (set_fuel_limit 0 WasmVM_new = Inl FuelLimitZero)"

definition new_metered_store_starts_with_configured_fuel_limit :: "('m, 'g) wasmtime \<Rightarrow> bool" where
  "new_metered_store_starts_with_configured_fuel_limit W =
     passes (set_fuel_limit 1234 WasmVM_new) (\<lambda>vm.
       passes (new_metered_store W vm) (\<lambda>store. remaining_fuel store = Inr 1234))"

definition wasm_execution_consumes_fuel :: "('m, 'g) wasmtime \<Rightarrow> bool" where
  "wasm_execution_consumes_fuel W = passes (execute_exported_run W finite_wat 50) (\<lambda>remaining. remaining < 50)"

definition wasm_execution_traps_when_fuel_is_exhausted :: "('m, 'g) wasmtime \<Rightarrow> string \<Rightarrow> bool" where
  "wasm_execution_traps_when_fuel_is_exhausted W out_of_fuel =
     (execute_exported_run W endless_wat 10 = Inl (GuestTrap out_of_fuel))"

definition get_balance_reads_existing_and_missing_accounts :: "'z env_scheme \<Rightarrow> 'd RocksDbStorage \<Rightarrow> bool" where
  "get_balance_reads_existing_and_missing_accounts E storage =
     passes_op (update_account E (bytes_of ''alice'') (vm_sample_account 123 7)) storage (\<lambda>_ storage.
       get_balance E storage (bytes_of ''alice'') = Inr 123 \<and> get_balance E storage (bytes_of ''bob'') = Inr 0)"

definition transfer_queues_contract_transaction_when_balance_is_sufficient :: "'z env_scheme \<Rightarrow> 'd RocksDbStorage \<Rightarrow> bool" where
  "transfer_queues_contract_transaction_when_balance_is_sufficient E storage =
     passes_op (update_account E (bytes_of ''contract-1'') (sample_contract_account 500 9)) storage (\<lambda>_ storage.
     passes (vm_transfer E storage (bytes_of ''recipient-1'') 25 (Some [1, 2, 3]) (with_context sample_context)) (\<lambda>(vm, tx).
       tx_type tx = Transfer \<and> tx_from tx = bytes_of ''contract-1'' \<and> tx_to tx = bytes_of ''recipient-1'' \<and> tx_amount tx = 25 \<and>
       tx_fee tx = FIXED_TRANSACTION_FEE \<and> tx_nonce tx = 10 \<and> tx_source_shard tx = DEFAULT_SHARD_ID \<and>
       tx_destination_shard tx = DEFAULT_SHARD_ID \<and> tx_signature tx = [] \<and> tx_data tx = Some [1, 2, 3] \<and>
       vm_pending_transfers vm = [tx]))"

definition transfer_rejects_when_contract_balance_is_insufficient :: "'z env_scheme \<Rightarrow> 'd RocksDbStorage \<Rightarrow> bool" where
  "transfer_rejects_when_contract_balance_is_insufficient E storage =
     passes_op (update_account E (bytes_of ''contract-1'') (sample_contract_account 5 0)) storage (\<lambda>_ storage.
       case vm_transfer E storage (bytes_of ''recipient-1'') 10 None (with_context sample_context) of
         Inl (InsufficientContractBalance _ _) \<Rightarrow> True | _ \<Rightarrow> False)"

definition set_storage_and_get_storage_roundtrip_under_contract_namespace :: "'z env_scheme \<Rightarrow> 'd RocksDbStorage \<Rightarrow> bool" where
  "set_storage_and_get_storage_roundtrip_under_contract_namespace E storage =
     passes_op (update_account E (bytes_of ''contract-1'') (sample_contract_account 0 0)) storage (\<lambda>_ storage.
     passes_op (update_contract E (bytes_of ''contract-1'') (vm_sample_contract E)) storage (\<lambda>_ storage.
     passes (set_storage E storage (bytes_of ''counter'') (bytes_of ''1'') (with_context sample_context)) (\<lambda>vm.
       get_storage E storage (bytes_of ''counter'') vm = Inr (Some (bytes_of ''1'')) \<and>
       storage_get (contract_storage_key (bytes_of ''contract-1'') (bytes_of ''counter'')) storage = Inr None \<and>
       passes (get_contract E (bytes_of ''contract-1'') storage) (\<lambda>found. passes (ok_or () found) (\<lambda>stored_contract.
         c_code_wasm stored_contract = c_code_wasm (vm_sample_contract E) \<and>
         c_storage_root stored_contract = c_storage_root (vm_sample_contract E))))))"

definition set_storage_rejects_non_contract_accounts :: "'z env_scheme \<Rightarrow> 'd RocksDbStorage \<Rightarrow> bool" where
  "set_storage_rejects_non_contract_accounts E storage =
     passes_op (update_account E (bytes_of ''plain-account'') (vm_sample_account 0 0)) storage (\<lambda>_ storage.
       set_storage E storage (bytes_of ''counter'') (bytes_of ''1'')
         (with_context (sample_context\<lparr>ctx_contract_address := bytes_of ''plain-account''\<rparr>)) =
       Inl (ContractAccountRequired ''storage access''))"

definition emit_event_records_contract_event_metadata :: bool where
  "emit_event_records_contract_event_metadata =
     passes (emit_event (bytes_of ''Transfer'') (bytes_of ''{\"amount\":25}'') (with_context sample_context)) (\<lambda>vm.
       length (vm_emitted_events vm) = 1 \<and>
       (let event = vm_emitted_events vm ! 0 in
        ev_contract_address event = bytes_of ''contract-1'' \<and> ev_name event = bytes_of ''Transfer'' \<and>
        ev_data event = bytes_of ''{\"amount\":25}'' \<and> ev_block_height event = 42))"

section \<open>Contract calls\<close>

definition execute_contract_call_runs_export_and_updates_storage ::
    "('m, 'g) wasmtime \<Rightarrow> 'z env_scheme \<Rightarrow> 'd RocksDbStorage \<Rightarrow> bool" where
  "execute_contract_call_runs_export_and_updates_storage W E storage =
     with_module E increment_wat storage (\<lambda>storage.
     call_passes (execute_contract_call W E sample_context ''increment'' delta_params 50000 storage) (\<lambda>outcome storage.
       get_contract_storage E (bytes_of ''contract-1'') (bytes_of ''counter'') storage = Inr (Some (bytes_of ''1'')) \<and>
       out_remaining_fuel outcome < 50000 \<and> out_pending_transfers outcome = [] \<and> length (out_emitted_events outcome) = 1 \<and>
       ev_name (out_emitted_events outcome ! 0) = bytes_of ''Incremented'' \<and>
       ev_data (out_emitted_events outcome ! 0) = bytes_of ''1''))"

definition execute_contract_call_rolls_back_storage_on_trap ::
    "('m, 'g) wasmtime \<Rightarrow> 'z env_scheme \<Rightarrow> 'd RocksDbStorage \<Rightarrow> bool" where
  "execute_contract_call_rolls_back_storage_on_trap W E storage =
     with_module E trapping_wat storage (\<lambda>storage.
     call_fails (execute_contract_call W E sample_context ''increment_then_trap'' delta_params 50000 storage) (\<lambda>_ storage.
       rolled_back E storage))"

definition execute_contract_call_rolls_back_storage_when_fuel_is_exhausted ::
    "('m, 'g) wasmtime \<Rightarrow> 'z env_scheme \<Rightarrow> 'd RocksDbStorage \<Rightarrow> bool" where
  "execute_contract_call_rolls_back_storage_when_fuel_is_exhausted W E storage =
     with_module E looping_wat storage (\<lambda>storage.
     call_fails (execute_contract_call W E sample_context ''increment_then_loop'' delta_params 10 storage) (\<lambda>_ storage.
       rolled_back E storage))"

definition execute_contract_call_rolls_back_storage_on_out_of_bounds_memory_access ::
    "('m, 'g) wasmtime \<Rightarrow> 'z env_scheme \<Rightarrow> 'd RocksDbStorage \<Rightarrow> bool" where
  "execute_contract_call_rolls_back_storage_on_out_of_bounds_memory_access W E storage =
     with_module E bad_memory_wat storage (\<lambda>storage.
     call_fails (execute_contract_call W E sample_context ''increment_then_bad_memory'' delta_params 50000 storage) (\<lambda>error storage.
       error = MemoryOutOfBounds \<and> rolled_back E storage))"

definition execute_contract_call_rolls_back_storage_on_negative_memory_offset ::
    "('m, 'g) wasmtime \<Rightarrow> 'z env_scheme \<Rightarrow> 'd RocksDbStorage \<Rightarrow> bool" where
  "execute_contract_call_rolls_back_storage_on_negative_memory_offset W E storage =
     with_module E negative_offset_wat storage (\<lambda>storage.
     call_fails (execute_contract_call W E sample_context ''increment_then_negative_offset'' delta_params 50000 storage) (\<lambda>error storage.
       error = NegativeMemoryOffset \<and> rolled_back E storage))"

end
