(* ===== verification/VmRuns.thy ===== *)
theory VmRuns
  imports VmTests VmLaws StorageRuns
begin

text \<open>
  The scenarios of \<open>VmTests\<close> hold on every new database, with the layout of bincode, and every engine that
  runs the modules of the tests as WebAssembly prescribes.
\<close>

section \<open>What the modules do\<close>

text \<open>
  A guest that makes host calls in order, with a memory that it does not change, and then returns after at least
  \<open>n\<close> units of fuel, traps, or loops. Between two calls it executes a few instructions, for which sixteen units of fuel
  are enough; with less it may trap for want of fuel, with the trap \<open>out\<close>.
\<close>

datatype guest_end = Ends nat | Unreachable | Loops

definition starved :: "('m, 'g) wasmtime \<Rightarrow> string \<Rightarrow> 'g \<Rightarrow> u64 \<Rightarrow> bool" where
  "starved W out g fuel \<longleftrightarrow> unat fuel \<le> 16 \<and> snd (snd (wt_step W g fuel)) = Trapped out"

fun finishes :: "('m, 'g) wasmtime \<Rightarrow> string \<Rightarrow> guest_end \<Rightarrow> 'g \<Rightarrow> u64 \<Rightarrow> bool" where
  "finishes W out (Ends n) g fuel \<longleftrightarrow> starved W out g fuel \<or>
     (\<exists>g1 fuel1. wt_step W g fuel = (g1, fuel1, Returned) \<and> unat fuel1 + n \<le> unat fuel)"
| "finishes W out Unreachable g fuel \<longleftrightarrow> (\<exists>message. snd (snd (wt_step W g fuel)) = Trapped message)"
| "finishes W out Loops g fuel \<longleftrightarrow> snd (snd (wt_step W g fuel)) = Trapped out"

fun follows :: "('m, 'g) wasmtime \<Rightarrow> string \<Rightarrow> bytes \<Rightarrow> host_call list \<Rightarrow> guest_end \<Rightarrow> 'g \<Rightarrow> bool" where
  "follows W out mem [] fin g \<longleftrightarrow> (\<forall>fuel. finishes W out fin g fuel)"
| "follows W out mem (c # cs) fin g \<longleftrightarrow> (\<forall>fuel. starved W out g fuel \<or>
     (\<exists>g1 fuel1. wt_step W g fuel = (g1, fuel1, Calls c) \<and> unat fuel1 < unat fuel \<and> unat fuel \<le> unat fuel1 + 16 \<and>
        wt_export_memory W g1 = Some (Memory mem) \<and> follows W out mem cs fin (wt_answer W g1 NoValue)))"

text \<open>
  A module text compiles to a module without a start function whose export behaves in this way, with one page of
  memory that holds the data segments.
\<close>

definition holds :: "bytes \<Rightarrow> nat \<times> bytes \<Rightarrow> bool" where
  "holds mem = (\<lambda>(p, bs). take (length bs) (drop p mem) = bs)"

definition runs_module :: "('m, 'g) wasmtime \<Rightarrow> string \<Rightarrow> bytes \<Rightarrow> string \<Rightarrow> (nat \<times> bytes) list \<Rightarrow> host_call list \<Rightarrow> guest_end \<Rightarrow> bool" where
  "runs_module W out wat method segments cs fin \<longleftrightarrow> wt_engine_new W \<lparr>consume_fuel = True\<rparr> = Inr () \<and> wt_link W = Inr () \<and>
     (\<exists>m g. wt_module_new W wat = Inr m \<and> wt_instantiate W m = Inr g \<and>
        (\<forall>fuel. \<exists>g1. wt_step W g fuel = (g1, fuel, Returned) \<and>
           (\<exists>entry mem. wt_get_typed_func W g1 method = Inr entry \<and> length mem = 65536 \<and> list_all (holds mem) segments \<and>
              follows W out mem cs fin entry)))"

abbreviation counter_segments :: "(nat \<times> bytes) list" where
  "counter_segments \<equiv> [(0, bytes_of ''counter''), (16, bytes_of ''1'')]"

abbreviation increment_call :: host_call where
  "increment_call \<equiv> SetStorage 0 7 16 1"

definition runs_test_modules :: "('m, 'g) wasmtime \<Rightarrow> string \<Rightarrow> bool" where
  "runs_test_modules W out \<longleftrightarrow>
     runs_module W out finite_wat ''run'' [] [] (Ends 1) \<and>
     runs_module W out endless_wat ''run'' [] [] Loops \<and>
     runs_module W out increment_wat ''increment'' (counter_segments @ [(32, bytes_of ''Incremented'')])
       [increment_call, EmitEvent 32 11 16 1] (Ends 0) \<and>
     runs_module W out trapping_wat ''increment_then_trap'' counter_segments [increment_call] Unreachable \<and>
     runs_module W out looping_wat ''increment_then_loop'' counter_segments [increment_call] Loops \<and>
     runs_module W out bad_memory_wat ''increment_then_bad_memory'' counter_segments [increment_call, SetStorage 0 7 65536 4] (Ends 0) \<and>
     runs_module W out negative_offset_wat ''increment_then_negative_offset'' counter_segments [increment_call, SetStorage (- 1) 7 16 1] (Ends 0)"

section \<open>Runs of a guest\<close>

lemma wt_step_trap: "snd (snd (wt_step W g fuel)) = Trapped m \<Longrightarrow> run_guest W E s params vm g fuel = Some (Inl (GuestTrap m))"
  by (auto simp: run_guest.simps [of W E s params vm g fuel] split: prod.splits)

text \<open>A call that succeeds without changing the guest, and one that fails.\<close>

lemma follows_call:
  assumes "follows W out mem (c # cs) fin g" and "16 < unat fuel"
    and "\<And>g1. wt_export_memory W g1 = Some (Memory mem) \<Longrightarrow> call_host W E s params vm g1 c = Inr (vm', g1, NoValue)"
  obtains g' fuel' where "run_guest W E s params vm g fuel = run_guest W E s params vm' g' fuel'" and "follows W out mem cs fin g'"
    and "unat fuel' < unat fuel" and "unat fuel \<le> unat fuel' + 16"
proof -
  obtain g1 fuel1 where st: "wt_step W g fuel = (g1, fuel1, Calls c)" "unat fuel1 < unat fuel" "unat fuel \<le> unat fuel1 + 16"
    "wt_export_memory W g1 = Some (Memory mem)" "follows W out mem cs fin (wt_answer W g1 NoValue)"
    using assms(1,2) by (auto simp: starved_def dest!: spec [where x = fuel])
  have "run_guest W E s params vm g fuel = run_guest W E s params vm' (wt_answer W g1 NoValue) fuel1"
    by (simp add: run_guest.simps [of W E s params vm g fuel] st(1) assms(3) [OF st(4)])
  with st that show thesis by blast
qed

lemma follows_call_error:
  assumes "follows W out mem (c # cs) fin g" and "16 < unat fuel"
    and "\<And>g1. wt_export_memory W g1 = Some (Memory mem) \<Longrightarrow> call_host W E s params vm g1 c = Inl e"
  shows "run_guest W E s params vm g fuel = Some (Inl e)"
proof -
  obtain g1 fuel1 where st: "wt_step W g fuel = (g1, fuel1, Calls c)" "wt_export_memory W g1 = Some (Memory mem)"
    using assms(1,2) by (auto simp: starved_def dest!: spec [where x = fuel])
  then show ?thesis by (simp add: run_guest.simps [of W E s params vm g fuel] assms(3))
qed

lemma follows_end:
  assumes "follows W out mem [] (Ends n) g" and "16 < unat fuel"
  obtains g' fuel' where "run_guest W E s params vm g fuel = Some (Inr (vm, g', fuel'))" and "unat fuel' + n \<le> unat fuel"
proof -
  obtain g1 fuel1 where "wt_step W g fuel = (g1, fuel1, Returned)" "unat fuel1 + n \<le> unat fuel"
    using assms by (auto simp: starved_def dest!: spec [where x = fuel])
  with that show thesis by (simp add: run_guest.simps [of W E s params vm g fuel])
qed

lemma follows_trap:
  assumes "follows W out mem [] fin g" and "\<And>n. fin \<noteq> Ends n"
  obtains m where "run_guest W E s params vm g fuel = Some (Inl (GuestTrap m))"
proof -
  have "finishes W out fin g fuel" using assms(1) by simp
  then obtain m where "snd (snd (wt_step W g fuel)) = Trapped m" using assms(2) by (cases fin) auto
  with that show thesis by (auto dest: wt_step_trap)
qed

lemma follows_call_trap:
  assumes "follows W out mem [c] fin g" and "\<And>n. fin \<noteq> Ends n"
    and "\<And>g1. wt_export_memory W g1 = Some (Memory mem) \<Longrightarrow> call_host W E s params vm g1 c = Inr (vm', g1, NoValue)"
  obtains m where "run_guest W E s params vm g fuel = Some (Inl (GuestTrap m))"
proof -
  consider "starved W out g fuel" | g1 fuel1 where "wt_step W g fuel = (g1, fuel1, Calls c)"
    "wt_export_memory W g1 = Some (Memory mem)" "follows W out mem [] fin (wt_answer W g1 NoValue)"
    using assms(1) [unfolded follows.simps(2), THEN spec, of fuel] by blast
  then show thesis
  proof cases
    case 1
    with that show ?thesis by (auto simp: starved_def dest: wt_step_trap)
  next
    case (2 g1 fuel1)
    obtain m where "run_guest W E s params vm' (wt_answer W g1 NoValue) fuel1 = Some (Inl (GuestTrap m))"
      using follows_trap [OF 2(3) assms(2)] by blast
    with that show ?thesis by (simp add: run_guest.simps [of W E s params vm g fuel] 2(1) assms(3) [OF 2(2)])
  qed
qed

section \<open>Host calls of the modules\<close>

lemma held_read:
  assumes "wt_export_memory W g = Some (Memory mem)" and "holds mem (p, bs)" and "bs \<noteq> []" and "p < 2 ^ 31" and "length bs < 2 ^ 31"
  shows "read_memory W g (of_nat p) (of_nat (length bs)) = Inr bs"
proof -
  have eq: "take (length bs) (drop p mem) = bs" using assms(2) by (simp add: holds_def)
  then have "length (take (length bs) (drop p mem)) = length bs" by (rule arg_cong)
  with assms(3) have "p + length bs \<le> length mem" by (cases bs) (auto simp: min_def split: if_splits)
  with eq assms show ?thesis
    by (simp add: read_memory_def memory_from_caller_def signed_of_nat signed_take_bit_int_eq_self)
qed

lemma segment_reads:
  assumes "wt_export_memory W g = Some (Memory mem)" and "list_all (holds mem) counter_segments"
  shows "read_memory W g 0 7 = Inr (bytes_of ''counter'')" "read_memory W g 16 1 = Inr (bytes_of ''1'')"
  using held_read [OF assms(1), of 0 "bytes_of ''counter''"] held_read [OF assms(1), of 16 "bytes_of ''1''"] assms(2)
  by (simp_all add: bytes_of_def)

definition started :: "u64 \<Rightarrow> WasmVM" where
  "started limit = (with_context sample_context)\<lparr>vm_gas_config := \<lparr>gas_fuel_limit = limit\<rparr>\<rparr>"

definition incremented :: "u64 \<Rightarrow> WasmVM" where
  "incremented limit = (started limit)\<lparr>vm_staged_storage_writes := [(bytes_of ''counter'', bytes_of ''1'')]\<rparr>"

definition announced :: "u64 \<Rightarrow> WasmVM" where
  "announced limit = (incremented limit)\<lparr>vm_emitted_events := [\<lparr>ev_contract_address = bytes_of ''contract-1'',
     ev_name = bytes_of ''Incremented'', ev_data = bytes_of ''1'', ev_block_height = 42\<rparr>]\<rparr>"

lemma started_fields: "vm_context (started limit) = sample_context" "fuel_limit (started limit) = limit" "vm_staged_storage_writes (started limit) = []"
  "vm_context (incremented limit) = sample_context" "vm_emitted_events (incremented limit) = []"
  "ctx_contract_address sample_context = bytes_of ''contract-1''" "bytes_of ''contract-1'' \<noteq> []" "ctx_block_height sample_context = 42"
  by (simp_all add: started_def incremented_def with_context_def fuel_limit_def sample_context_def bytes_of_def)

text \<open>The database of a test: account and record of the contract, and no slots.\<close>

definition holds_contract :: "'z env_scheme \<Rightarrow> bytes \<Rightarrow> 'd RocksDbStorage \<Rightarrow> bool" where
  "holds_contract E wat t \<longleftrightarrow> storage_ok t \<and>
     get_account E (bytes_of ''contract-1'') t = Inr (Some (sample_contract_account 0 0)) \<and>
     get_contract E (bytes_of ''contract-1'') t = Inr (Some ((vm_sample_contract E)\<lparr>c_code_wasm := wat\<rparr>)) \<and>
     contract_slots (bytes_of ''contract-1'') t = Map.empty"

lemma with_moduleI:
  fixes s :: "'d RocksDbStorage"
  assumes "fresh_storage s" and "sha256_spec E" and "length wat < 2 ^ 64" and "\<And>t. holds_contract (bincode_env E) wat t \<Longrightarrow> P t"
  shows "with_module (bincode_env E) wat s P"
proof -
  let ?B = "bincode_env E" and ?a = "bytes_of ''contract-1''"
  have fits: "account_fits (sample_contract_account 0 0)" "contract_fits ((vm_sample_contract ?B)\<lparr>c_code_wasm := wat\<rparr>)"
    using assms(2,3) by (simp_all add: account_fits_def contract_fits_def sample_contract_account_def vm_sample_contract_def sha256_def
        sha256_spec_def seq_fits_def AnonymousAccountState_default_def)
  have "P t" if "storage_ok t" "content t = [account_key ?a \<mapsto> b0, contract_key ?a \<mapsto> b1]"
    "deserialize (bc_account ?B) b0 = Inr (sample_contract_account 0 0)"
    "deserialize (bc_contract ?B) b1 = Inr ((vm_sample_contract ?B)\<lparr>c_code_wasm := wat\<rparr>)" for t :: "'d RocksDbStorage" and b0 b1
  proof (intro assms(4) holds_contract_def [THEN iffD2] conjI)
    have keys: "account_key ?a \<noteq> contract_key ?a" "account_key ?a \<noteq> contract_storage_key ?a k" "contract_key ?a \<noteq> contract_storage_key ?a k" for k
      by (simp_all add: key_defs prefix_defs contract_storage_key_def bytes_of_def)
    then show "get_account ?B ?a t = Inr (Some (sample_contract_account 0 0))"
      "get_contract ?B ?a t = Inr (Some ((vm_sample_contract ?B)\<lparr>c_code_wasm := wat\<rparr>))"
      unfolding get_account_def get_contract_def using that by (auto intro!: get_decoded_stored)
    show "contract_slots ?a t = Map.empty" using keys [symmetric] that(2) by (simp add: contract_slots_def fun_eq_iff)
  qed (rule that(1))
  then show ?thesis
    using assms(1) unfolding with_module_def update_account_def update_contract_def fresh_storage_def
    by (auto intro!: passes_encoded bincode_roundtrips fits)
qed

lemma contract_account_found:
  assumes "holds_contract E wat t" and "vm_context vm = sample_context"
  shows "require_contract_address vm op = Inr (bytes_of ''contract-1'')"
    "require_contract_account E vm t op = Inr (sample_contract_account 0 0)"
  using assms by (simp_all add: holds_contract_def require_contract_account_def require_contract_address_def sample_contract_account_def started_fields)

lemma increment_host:
  assumes "holds_contract E wat t" and "list_all (holds mem) counter_segments" and "wt_export_memory W g = Some (Memory mem)"
  shows "call_host W E t params (started limit) g increment_call = Inr (incremented limit, g, NoValue)"
  using segment_reads [OF assms(3,2)]
  by (simp add: host_set_storage_def set_storage_def contract_account_found [OF assms(1)] started_fields incremented_def)

lemma announce_host:
  assumes "list_all (holds mem) (counter_segments @ [(32, bytes_of ''Incremented'')])" and "wt_export_memory W g = Some (Memory mem)"
  shows "call_host W E t params (incremented limit) g (EmitEvent 32 11 16 1) = Inr (announced limit, g, NoValue)"
proof -
  have "read_memory W g 32 11 = Inr (bytes_of ''Incremented'')"
    using held_read [OF assms(2), of 32 "bytes_of ''Incremented''"] assms(1) by (simp add: bytes_of_def)
  moreover have "read_memory W g 16 1 = Inr (bytes_of ''1'')" using segment_reads [OF assms(2)] assms(1) by simp
  moreover have "bytes_of ''Incremented'' \<noteq> []" by (simp add: bytes_of_def)
  ultimately show ?thesis
    by (simp add: host_emit_event_def emit_event_def require_contract_address_def started_fields announced_def)
qed

section \<open>Whole calls\<close>

definition started_store :: "u64 \<Rightarrow> wasm_store" where
  "started_store limit = \<lparr>store_engine = \<lparr>consume_fuel = True\<rparr>, store_fuel = limit\<rparr>"

lemma started_store: "wt_engine_new W \<lparr>consume_fuel = True\<rparr> = Inr () \<Longrightarrow> new_metered_store W (started limit) = Inr (started_store limit)"
  by (simp add: new_metered_store_Inr started_store_def started_fields)

lemma module_call:
  assumes "runs_module W out wat method segments cs fin" and "holds_contract E wat t" and "trim method \<noteq> []" and "limit \<noteq> 0"
  obtains entry mem where "length mem = 65536" and "list_all (holds mem) segments" and "follows W out mem cs fin entry"
    and "\<And>e. run_guest W E t params (started limit) entry limit = Some (Inl e) \<Longrightarrow>
      execute_contract_call W E sample_context method params limit t = Some (t, Inl e)"
    and "\<And>vm g fuel t'. run_guest W E t params (started limit) entry limit = Some (Inr (vm, g, fuel)) \<Longrightarrow>
      commit_contract_storage_batch E (bytes_of ''contract-1'') (vm_staged_storage_writes vm) t = (t', Inr ()) \<Longrightarrow>
      execute_contract_call W E sample_context method params limit t =
        Some (t', Inr \<lparr>out_remaining_fuel = fuel, out_pending_transfers = vm_pending_transfers vm, out_emitted_events = vm_emitted_events vm\<rparr>)"
proof -
  obtain m g where m: "wt_engine_new W \<lparr>consume_fuel = True\<rparr> = Inr ()" "wt_link W = Inr ()" "wt_module_new W wat = Inr m" "wt_instantiate W m = Inr g"
    and start: "\<forall>fuel. \<exists>g1. wt_step W g fuel = (g1, fuel, Returned) \<and> (\<exists>entry mem. wt_get_typed_func W g1 method = Inr entry \<and>
      length mem = 65536 \<and> list_all (holds mem) segments \<and> follows W out mem cs fin entry)"
    using assms(1) unfolding runs_module_def by blast
  obtain g1 entry mem where g1: "wt_step W g limit = (g1, limit, Returned)" "wt_get_typed_func W g1 method = Inr entry"
    and mem: "length mem = 65536" "list_all (holds mem) segments" "follows W out mem cs fin entry"
    using start [THEN spec, of limit] by blast
  have "set_fuel_limit limit (with_context sample_context) = Inr (started limit)"
    using assms(4) by (simp add: set_fuel_limit_def started_def with_context_def WasmGasConfig_default_def)
  then have "prepare_call W E t sample_context method limit = Inr (started limit, started_store limit, g)"
    using assms(2,3) m contract_account_found(2) [OF assms(2), of "started limit"]
    by (simp add: prepare_call_def holds_contract_def started_fields started_store)
  moreover have "run_guest W E t params (started limit) g limit = Some (Inr (started limit, g1, limit))"
    by (simp add: run_guest.simps [of W E t params "started limit" g limit] g1(1))
  ultimately show thesis
    by (intro that [OF mem]) (simp_all add: execute_contract_call_def call_guest_def started_fields started_store_def store_get_fuel_def g1(2) take_staged_storage_writes_def
        take_pending_transfers_def take_emitted_events_def)
qed

lemma holds_contract_rolled_back: "holds_contract E wat t \<Longrightarrow> rolled_back E t"
  by (auto simp: holds_contract_def rolled_back_def get_contract_storage_def storage_get_content contract_slots_def fun_eq_iff vm_sample_contract_def)

lemma call_fails_back:
  "execute_contract_call W E sample_context method params limit t = Some (t, Inl e) \<Longrightarrow> holds_contract E wat t \<Longrightarrow> Q e \<Longrightarrow>
   call_fails (execute_contract_call W E sample_context method params limit t) (\<lambda>error storage. Q error \<and> rolled_back E storage)"
  by (simp add: call_fails_def holds_contract_rolled_back)

lemma wat_lengths: "length increment_wat < 2 ^ 64" "length trapping_wat < 2 ^ 64" "length looping_wat < 2 ^ 64"
  "length bad_memory_wat < 2 ^ 64" "length negative_offset_wat < 2 ^ 64"
  by (simp_all add: wat_text_def increment_wat_def trapping_wat_def looping_wat_def bad_memory_wat_def negative_offset_wat_def)

lemma method_names: "trim ''increment'' \<noteq> []" "trim ''increment_then_trap'' \<noteq> []" "trim ''increment_then_loop'' \<noteq> []"
  "trim ''increment_then_bad_memory'' \<noteq> []" "trim ''increment_then_negative_offset'' \<noteq> []"
  by (simp_all add: trim_def is_whitespace_def)

lemma failing_reads:
  assumes "list_all (holds mem) counter_segments" and "length mem = 65536" and "wt_export_memory W g = Some (Memory mem)"
  shows "call_host W E t params vm g (SetStorage 0 7 65536 4) = Inl MemoryOutOfBounds"
    "call_host W E t params vm g (SetStorage (- 1) 7 16 1) = Inl NegativeMemoryOffset"
proof -
  have "read_memory W g 65536 4 = Inl MemoryOutOfBounds"
    using assms(2,3) by (simp add: read_memory_def memory_from_caller_def)
  then show "call_host W E t params vm g (SetStorage 0 7 65536 4) = Inl MemoryOutOfBounds"
    using segment_reads [OF assms(3,1)] by (simp add: host_set_storage_def)
  show "call_host W E t params vm g (SetStorage (- 1) 7 16 1) = Inl NegativeMemoryOffset"
    by (simp add: host_set_storage_def read_memory_def)
qed

text \<open>A module that increments the counter and then traps, loops, or makes a call that fails.\<close>

lemma trapping_call:
  assumes "runs_module W out wat method counter_segments [increment_call] fin" and "\<And>n. fin \<noteq> Ends n" and "holds_contract E wat t"
    and "trim method \<noteq> []" and "limit \<noteq> 0"
  shows "call_fails (execute_contract_call W E sample_context method params limit t) (\<lambda>_ storage. rolled_back E storage)"
proof -
  obtain entry mem where run: "list_all (holds mem) counter_segments" "follows W out mem [increment_call] fin entry"
    "\<And>e. run_guest W E t params (started limit) entry limit = Some (Inl e) \<Longrightarrow>
      execute_contract_call W E sample_context method params limit t = Some (t, Inl e)"
    using module_call [OF assms(1,3,4,5)] by metis
  obtain m where "run_guest W E t params (started limit) entry limit = Some (Inl (GuestTrap m))"
    using follows_call_trap [OF run(2) assms(2) increment_host [OF assms(3) run(1)]] by blast
  from call_fails_back [OF run(3) [OF this] assms(3), of "\<lambda>_. True"] show ?thesis by simp
qed

lemma increment_step:
  assumes "follows W out mem (increment_call # cs) fin g" and "holds_contract E wat t" and "list_all (holds mem) counter_segments"
  obtains g' fuel' where "run_guest W E t params (started 50000) g 50000 = run_guest W E t params (incremented 50000) g' fuel'"
    and "follows W out mem cs fin g'" and "unat fuel' < 50000" and "49984 \<le> unat fuel'"
proof -
  have fuel: "unat (50000 :: u64) = 50000" "16 < unat (50000 :: u64)" by simp_all
  show thesis
    by (rule follows_call [OF assms(1) fuel(2) increment_host [OF assms(2,3)]], assumption) (rule that, simp_all add: fuel(1))
qed

lemma failing_call:
  assumes "runs_module W out wat method counter_segments [increment_call, c] fin" and "holds_contract E wat t" and "trim method \<noteq> []"
    and "\<And>mem g vm. list_all (holds mem) counter_segments \<Longrightarrow> length mem = 65536 \<Longrightarrow> wt_export_memory W g = Some (Memory mem) \<Longrightarrow>
      call_host W E t params vm g c = Inl e"
  shows "call_fails (execute_contract_call W E sample_context method params 50000 t) (\<lambda>error storage. error = e \<and> rolled_back E storage)"
proof -
  have "(50000 :: u64) \<noteq> 0" by simp
  then obtain entry mem where run: "length mem = 65536" "list_all (holds mem) counter_segments" "follows W out mem [increment_call, c] fin entry"
    "\<And>e. run_guest W E t params (started 50000) entry 50000 = Some (Inl e) \<Longrightarrow>
      execute_contract_call W E sample_context method params 50000 t = Some (t, Inl e)"
    using module_call [OF assms(1,2,3)] by metis
  obtain g' fuel' where step: "run_guest W E t params (started 50000) entry 50000 = run_guest W E t params (incremented 50000) g' fuel'"
    "follows W out mem [c] fin g'" "49984 \<le> unat fuel'"
    by (rule increment_step [OF run(3) assms(2) run(2)])
  have "16 < unat fuel'" using step(3) by simp
  with step(1) have "run_guest W E t params (started 50000) entry 50000 = Some (Inl e)"
    using follows_call_error [OF step(2) _ assms(4) [OF run(2,1)]] by simp
  from call_fails_back [OF run(4) [OF this] assms(2), of "\<lambda>x. x = e"] show ?thesis by simp
qed

lemma failing_scenarios:
  assumes "runs_test_modules W out" and "fresh_storage s" and "sha256_spec E"
  shows "execute_contract_call_rolls_back_storage_on_trap W (bincode_env E) s"
    "execute_contract_call_rolls_back_storage_when_fuel_is_exhausted W (bincode_env E) s"
    "execute_contract_call_rolls_back_storage_on_out_of_bounds_memory_access W (bincode_env E) s"
    "execute_contract_call_rolls_back_storage_on_negative_memory_offset W (bincode_env E) s"
proof -
  from assms(1) have trap: "runs_module W out trapping_wat ''increment_then_trap'' counter_segments [increment_call] Unreachable"
    and loop: "runs_module W out looping_wat ''increment_then_loop'' counter_segments [increment_call] Loops"
    and bad: "runs_module W out bad_memory_wat ''increment_then_bad_memory'' counter_segments [increment_call, SetStorage 0 7 65536 4] (Ends 0)"
    and negative: "runs_module W out negative_offset_wat ''increment_then_negative_offset'' counter_segments [increment_call, SetStorage (- 1) 7 16 1] (Ends 0)"
    unfolding runs_test_modules_def by blast+
  show "execute_contract_call_rolls_back_storage_on_trap W (bincode_env E) s"
    unfolding execute_contract_call_rolls_back_storage_on_trap_def
    by (intro with_moduleI [OF assms(2,3)] wat_lengths trapping_call [OF trap] method_names) simp_all
  show "execute_contract_call_rolls_back_storage_when_fuel_is_exhausted W (bincode_env E) s"
    unfolding execute_contract_call_rolls_back_storage_when_fuel_is_exhausted_def
    by (intro with_moduleI [OF assms(2,3)] wat_lengths trapping_call [OF loop] method_names) simp_all
  show "execute_contract_call_rolls_back_storage_on_out_of_bounds_memory_access W (bincode_env E) s"
    unfolding execute_contract_call_rolls_back_storage_on_out_of_bounds_memory_access_def
    by (intro with_moduleI [OF assms(2,3)] wat_lengths failing_call [OF bad] method_names failing_reads)
  show "execute_contract_call_rolls_back_storage_on_negative_memory_offset W (bincode_env E) s"
    unfolding execute_contract_call_rolls_back_storage_on_negative_memory_offset_def
    by (intro with_moduleI [OF assms(2,3)] wat_lengths failing_call [OF negative] method_names failing_reads)
qed

lemma increment_scenario:
  fixes s :: "'d RocksDbStorage"
  assumes "runs_test_modules W out" and "fresh_storage s" and "sha256_spec E"
  shows "execute_contract_call_runs_export_and_updates_storage W (bincode_env E) s"
  unfolding execute_contract_call_runs_export_and_updates_storage_def
proof (intro with_moduleI [OF assms(2,3)] wat_lengths)
  fix t :: "'d RocksDbStorage"
  let ?B = "bincode_env E" and ?segments = "counter_segments @ [(32, bytes_of ''Incremented'')]"
  let ?c = "(vm_sample_contract ?B)\<lparr>c_code_wasm := increment_wat\<rparr>" and ?ws = "[(bytes_of ''counter'', bytes_of ''1'')]"
  assume t: "holds_contract ?B increment_wat t"
  have limit: "(50000 :: u64) \<noteq> 0" by simp
  have "runs_module W out increment_wat ''increment'' ?segments [increment_call, EmitEvent 32 11 16 1] (Ends 0)"
    using assms(1) unfolding runs_test_modules_def by blast
  from module_call [OF this t method_names(1) limit, of delta_params] obtain entry mem where
    mem: "list_all (holds mem) ?segments" "follows W out mem [increment_call, EmitEvent 32 11 16 1] (Ends 0) entry"
    and call: "\<And>vm g fuel t'. run_guest W ?B t delta_params (started 50000) entry 50000 = Some (Inr (vm, g, fuel)) \<Longrightarrow>
      commit_contract_storage_batch ?B (bytes_of ''contract-1'') (vm_staged_storage_writes vm) t = (t', Inr ()) \<Longrightarrow>
      execute_contract_call W ?B sample_context ''increment'' delta_params 50000 t =
        Some (t', Inr \<lparr>out_remaining_fuel = fuel, out_pending_transfers = vm_pending_transfers vm, out_emitted_events = vm_emitted_events vm\<rparr>)"
    by metis
  have segs: "list_all (holds mem) counter_segments" using mem(1) by simp
  obtain g1 fuel1 where s1: "run_guest W ?B t delta_params (started 50000) entry 50000 = run_guest W ?B t delta_params (incremented 50000) g1 fuel1"
    "follows W out mem [EmitEvent 32 11 16 1] (Ends 0) g1" "unat fuel1 < 50000" "49984 \<le> unat fuel1"
    by (rule increment_step [OF mem(2) t segs])
  have "16 < unat fuel1" using s1(4) by simp
  then obtain g2 fuel2 where s2: "run_guest W ?B t delta_params (incremented 50000) g1 fuel1 = run_guest W ?B t delta_params (announced 50000) g2 fuel2"
    "follows W out mem [] (Ends 0) g2" "unat fuel2 < unat fuel1" "unat fuel1 \<le> unat fuel2 + 16"
    using follows_call [OF s1(2) _ announce_host [OF mem(1)]] by metis
  have "16 < unat fuel2" using s2(4) s1(4) by simp
  then obtain g3 fuel3 where s3: "run_guest W ?B t delta_params (announced 50000) g2 fuel2 = Some (Inr (announced 50000, g3, fuel3))" "unat fuel3 \<le> unat fuel2"
    using follows_end [OF s2(2)] by (metis add_0_right)
  have rt: "\<forall>x. roundtrips (bc_contract ?B) (?c\<lparr>c_storage_root := sha256 ?B x\<rparr>)"
    using assms(3) wat_lengths by (simp add: bincode_roundtrips contract_fits_def sha256_def sha256_spec_def)
  obtain t' where t': "commit_contract_storage_batch ?B (bytes_of ''contract-1'') ?ws t = (t', Inr ())" "updated ?B (bytes_of ''contract-1'') ?c ?ws t t'"
    using commit_updates [of t ?B "bytes_of ''contract-1''" ?c ?ws] t rt by (auto simp: holds_contract_def)
  have fields: "vm_staged_storage_writes (announced 50000) = ?ws" "vm_pending_transfers (announced 50000) = []"
    by (simp_all add: announced_def incremented_def started_def with_context_def)
  have "get_contract_storage ?B (bytes_of ''contract-1'') (bytes_of ''counter'') t' = Inr (Some (bytes_of ''1''))"
    using updated_reads [OF t'(2) rt] by auto
  moreover have "fuel3 < 50000" using s3(2) s2(3) s1(3) by (simp add: word_less_nat_alt)
  ultimately show "call_passes (execute_contract_call W ?B sample_context ''increment'' delta_params 50000 t) (\<lambda>outcome storage.
      get_contract_storage ?B (bytes_of ''contract-1'') (bytes_of ''counter'') storage = Inr (Some (bytes_of ''1'')) \<and>
      out_remaining_fuel outcome < 50000 \<and> out_pending_transfers outcome = [] \<and> length (out_emitted_events outcome) = 1 \<and>
      ev_name (out_emitted_events outcome ! 0) = bytes_of ''Incremented'' \<and>
      ev_data (out_emitted_events outcome ! 0) = bytes_of ''1'')"
    using call [OF s3(1) [folded s2(1), folded s1(1)]] t'(1) fields by (simp add: call_passes_def) (simp add: announced_def)
qed

lemma module_alone:
  assumes "runs_module W out wat ''run'' segments [] fin" and "limit \<noteq> 0"
  obtains entry where "\<forall>fuel. finishes W out fin entry fuel"
    and "execute_exported_run W wat limit = and_then (run_alone W entry limit) (\<lambda>(_, remaining). Inr remaining)"
proof -
  obtain m g where m: "wt_engine_new W \<lparr>consume_fuel = True\<rparr> = Inr ()" "wt_link W = Inr ()" "wt_module_new W wat = Inr m" "wt_instantiate W m = Inr g"
    and start: "\<forall>fuel. \<exists>g1. wt_step W g fuel = (g1, fuel, Returned) \<and>
      (\<exists>entry mem. wt_get_typed_func W g1 ''run'' = Inr entry \<and> (\<forall>fuel. finishes W out fin entry fuel))"
    using assms(1) unfolding runs_module_def follows.simps by blast
  obtain g1 entry where "wt_step W g limit = (g1, limit, Returned)" "wt_get_typed_func W g1 ''run'' = Inr entry" "\<forall>fuel. finishes W out fin entry fuel"
    using start [THEN spec, of limit] by blast
  moreover have metered: "new_metered_store W vm = Inr \<lparr>store_engine = \<lparr>consume_fuel = True\<rparr>, store_fuel = fuel_limit vm\<rparr>" for vm
    using m(1) by (simp add: new_metered_store_Inr)
  ultimately show thesis
    using m assms(2) by (intro that [of entry]) (simp_all add: execute_exported_run_def set_fuel_limit_def with_context_def fuel_limit_def run_alone_def [of W g]
        metered remaining_fuel_def store_get_fuel_def)
qed

lemma fuel_scenarios:
  assumes "runs_test_modules W out"
  shows "new_metered_store_starts_with_configured_fuel_limit W" "wasm_execution_consumes_fuel W" "wasm_execution_traps_when_fuel_is_exhausted W out"
proof -
  have limit: "(50 :: u64) \<noteq> 0" "(10 :: u64) \<noteq> 0" by simp_all
  have finite: "runs_module W out finite_wat ''run'' [] [] (Ends 1)" and endless: "runs_module W out endless_wat ''run'' [] [] Loops"
    using assms unfolding runs_test_modules_def by blast+
  have "wt_engine_new W \<lparr>consume_fuel = True\<rparr> = Inr ()" using finite by (simp add: runs_module_def)
  then show "new_metered_store_starts_with_configured_fuel_limit W"
    by (simp add: new_metered_store_starts_with_configured_fuel_limit_def set_fuel_limit_def WasmVM_new_def with_context_def passes_def
      new_metered_store_def metered_engine_def Config_new_def Store_new_def store_set_fuel_def remaining_fuel_def store_get_fuel_def fuel_limit_def)
  obtain entry where entry: "\<forall>fuel. finishes W out (Ends 1) entry fuel"
    "execute_exported_run W finite_wat 50 = and_then (run_alone W entry 50) (\<lambda>(_, remaining). Inr remaining)"
    by (rule module_alone [OF finite limit(1)])
  obtain g1 fuel1 where "wt_step W entry 50 = (g1, fuel1, Returned)" "unat fuel1 < 50"
    using entry(1) [THEN spec, of 50] by (auto simp: starved_def)
  with entry(2) show "wasm_execution_consumes_fuel W"
    by (simp add: wasm_execution_consumes_fuel_def run_alone_def word_less_nat_alt)
  obtain entry where loop: "\<forall>fuel. finishes W out Loops entry fuel"
    "execute_exported_run W endless_wat 10 = and_then (run_alone W entry 10) (\<lambda>(_, remaining). Inr remaining)"
    by (rule module_alone [OF endless limit(2)])
  with loop(1) show "wasm_execution_traps_when_fuel_is_exhausted W out"
    by (auto simp: wasm_execution_traps_when_fuel_is_exhausted_def run_alone_def dest!: spec [where x = 10] split: prod.splits)
qed

section \<open>The machine\<close>

lemma machine_scenarios: "wasm_vm_new_starts_empty" "set_fuel_limit_rejects_zero" "emit_event_records_contract_event_metadata"
  by (simp_all add: wasm_vm_new_starts_empty_def set_fuel_limit_rejects_zero_def emit_event_records_contract_event_metadata_def WasmVM_new_def
      with_context_def get_caller_def get_block_height_def fuel_limit_def WasmGasConfig_default_def set_fuel_limit_def emit_event_def
      require_contract_address_def started_fields)
    (simp add: bytes_of_def)

lemma vm_values_fit: "account_fits (vm_sample_account b n)" "account_fits (sample_contract_account b n)"
  "sha256_spec E \<Longrightarrow> contract_fits (vm_sample_contract (bincode_env E))"
  by (simp_all add: account_fits_def contract_fits_def vm_sample_account_def sample_contract_account_def vm_sample_contract_def sha256_def
      sha256_spec_def empty_module_def seq_fits_def AnonymousAccountState_default_def)

lemma account_scenarios:
  assumes "fresh_storage s"
  shows "get_balance_reads_existing_and_missing_accounts (bincode_env E) s"
    "transfer_queues_contract_transaction_when_balance_is_sufficient (bincode_env E) s"
    "transfer_rejects_when_contract_balance_is_insufficient (bincode_env E) s"
    "set_storage_rejects_non_contract_accounts (bincode_env E) s"
proof -
  have saved: "passes_op (update_account (bincode_env E) a v) s P" if "account_fits v"
    "\<And>t. get_account (bincode_env E) a t = Inr (Some v) \<Longrightarrow> (\<And>b. account_key b \<noteq> account_key a \<Longrightarrow> get_account (bincode_env E) b t = Inr None) \<Longrightarrow> P () t"
    for a v P
    using assms that unfolding update_account_def get_account_def fresh_storage_def
    by (auto intro!: passes_encoded bincode_roundtrips simp: get_decoded_content)
  note simps = vm_transfer_def set_storage_def require_contract_account_def require_contract_address_def with_context_def sample_context_def
    sample_contract_account_def vm_sample_account_def FIXED_TRANSACTION_FEE_def checked_add_def Let_def bytes_of_def
  have "account_key (bytes_of ''bob'') \<noteq> account_key (bytes_of ''alice'')" by (simp add: key_defs prefix_defs bytes_of_def)
  then show "get_balance_reads_existing_and_missing_accounts (bincode_env E) s"
    unfolding get_balance_reads_existing_and_missing_accounts_def
    by (intro saved vm_values_fit) (simp add: get_balance_def vm_sample_account_def)
  show "transfer_queues_contract_transaction_when_balance_is_sufficient (bincode_env E) s"
    unfolding transfer_queues_contract_transaction_when_balance_is_sufficient_def
    by (intro saved vm_values_fit) (simp add: simps)
  show "transfer_rejects_when_contract_balance_is_insufficient (bincode_env E) s"
    unfolding transfer_rejects_when_contract_balance_is_insufficient_def
    by (intro saved vm_values_fit) (simp add: simps)
  show "set_storage_rejects_non_contract_accounts (bincode_env E) s"
    unfolding set_storage_rejects_non_contract_accounts_def
    by (intro saved vm_values_fit) (simp add: simps)
qed

lemma staged_scenario:
  assumes "fresh_storage s" and "sha256_spec E"
  shows "set_storage_and_get_storage_roundtrip_under_contract_namespace (bincode_env E) s"
proof -
  let ?B = "bincode_env E"
  have "with_module ?B empty_module s (\<lambda>storage.
     passes (set_storage ?B storage (bytes_of ''counter'') (bytes_of ''1'') (with_context sample_context)) (\<lambda>vm.
       get_storage ?B storage (bytes_of ''counter'') vm = Inr (Some (bytes_of ''1'')) \<and>
       storage_get (contract_storage_key (bytes_of ''contract-1'') (bytes_of ''counter'')) storage = Inr None \<and>
       passes (get_contract ?B (bytes_of ''contract-1'') storage) (\<lambda>found. passes (ok_or () found) (\<lambda>stored_contract.
         c_code_wasm stored_contract = c_code_wasm (vm_sample_contract ?B) \<and>
         c_storage_root stored_contract = c_storage_root (vm_sample_contract ?B)))))"
  proof (rule with_moduleI [OF assms], goal_cases)
    case (2 t)
    have fields: "vm_context (with_context sample_context) = sample_context" "vm_staged_storage_writes (with_context sample_context) = []"
      by (simp_all add: with_context_def)
    with 2 show ?case
      by (simp add: set_storage_def get_storage_def contract_account_found [OF 2])
        (auto simp: holds_contract_def storage_get_content contract_slots_def fun_eq_iff vm_sample_contract_def)
  qed (simp add: empty_module_def)
  then show ?thesis
    by (simp add: with_module_def set_storage_and_get_storage_roundtrip_under_contract_namespace_def vm_sample_contract_def)
qed

section \<open>The unit tests pass\<close>

text \<open>
  The unit tests of the virtual machine pass on every new database, for every engine that runs their modules as
  WebAssembly prescribes.
\<close>

theorem vm_tests_pass:
  assumes "runs_test_modules W out" and "fresh_storage s" and "sha256_spec E"
  shows "wasm_vm_new_starts_empty \<and> set_fuel_limit_rejects_zero \<and> emit_event_records_contract_event_metadata \<and>
    new_metered_store_starts_with_configured_fuel_limit W \<and> wasm_execution_consumes_fuel W \<and> wasm_execution_traps_when_fuel_is_exhausted W out \<and>
    get_balance_reads_existing_and_missing_accounts (bincode_env E) s \<and>
    transfer_queues_contract_transaction_when_balance_is_sufficient (bincode_env E) s \<and>
    transfer_rejects_when_contract_balance_is_insufficient (bincode_env E) s \<and>
    set_storage_and_get_storage_roundtrip_under_contract_namespace (bincode_env E) s \<and>
    set_storage_rejects_non_contract_accounts (bincode_env E) s \<and>
    execute_contract_call_runs_export_and_updates_storage W (bincode_env E) s \<and>
    execute_contract_call_rolls_back_storage_on_trap W (bincode_env E) s \<and>
    execute_contract_call_rolls_back_storage_when_fuel_is_exhausted W (bincode_env E) s \<and>
    execute_contract_call_rolls_back_storage_on_out_of_bounds_memory_access W (bincode_env E) s \<and>
    execute_contract_call_rolls_back_storage_on_negative_memory_offset W (bincode_env E) s"
  using machine_scenarios fuel_scenarios [OF assms(1)] account_scenarios [OF assms(2), of E] staged_scenario [OF assms(2,3)]
    increment_scenario [OF assms] failing_scenarios [OF assms]
  by (intro conjI)

text \<open>
  An engine for the witness: a guest is a list of host calls and an end, each call costs one unit of fuel, and
  one page holds the data segments of all modules. Its state tells whether the module is the endless one.
\<close>

definition padding :: "nat \<Rightarrow> bytes" where
  "padding n = replicate n 0"

lemma length_padding [simp]: "length (padding n) = n"
  by (simp add: padding_def)

definition test_page :: bytes where
  "test_page = bytes_of ''counter'' @ padding 9 @ bytes_of ''1'' @ padding 15 @ bytes_of ''Incremented'' @ padding 65493"

definition fuel_trap :: string where
  "fuel_trap = ''all fuel consumed by WebAssembly''"

definition test_program :: "bool \<Rightarrow> string \<Rightarrow> host_call list \<times> guest_end" where
  "test_program endless name =
     (if name = ''run'' then ([], if endless then Loops else Ends 1)
      else if name = ''increment'' then ([increment_call, EmitEvent 32 11 16 1], Ends 0)
      else if name = ''increment_then_trap'' then ([increment_call], Unreachable)
      else if name = ''increment_then_loop'' then ([increment_call], Loops)
      else if name = ''increment_then_bad_memory'' then ([increment_call, SetStorage 0 7 65536 4], Ends 0)
      else ([increment_call, SetStorage (- 1) 7 16 1], Ends 0))"

fun test_step :: "bool \<times> (host_call list \<times> guest_end) option \<Rightarrow> u64 \<Rightarrow> (bool \<times> (host_call list \<times> guest_end) option) \<times> u64 \<times> guest_event" where
  "test_step (b, None) fuel = ((b, None), fuel, Returned)"
| "test_step (b, Some (c # cs, fin)) fuel =
     (if fuel = 0 then ((b, None), 0, Trapped fuel_trap) else ((b, Some (cs, fin)), fuel - 1, Calls c))"
| "test_step (b, Some ([], Ends n)) fuel =
     (if unat fuel < n then ((b, None), 0, Trapped fuel_trap) else ((b, None), fuel - of_nat n, Returned))"
| "test_step (b, Some ([], Unreachable)) fuel = ((b, None), fuel, Trapped ''unreachable'')"
| "test_step (b, Some ([], Loops)) fuel = ((b, None), 0, Trapped fuel_trap)"

definition test_engine :: "(bool, bool \<times> (host_call list \<times> guest_end) option) wasmtime" where
  "test_engine = \<lparr>
     wt_engine_new = (\<lambda>config. Inr ()),
     wt_module_new = (\<lambda>code. Inr (code = endless_wat)),
     wt_link = Inr (),
     wt_instantiate = (\<lambda>m. Inr (m, None)),
     wt_get_typed_func = (\<lambda>g name. Inr (fst g, Some (test_program (fst g) name))),
     wt_step = test_step,
     wt_answer = (\<lambda>g v. g),
     wt_export_memory = (\<lambda>g. Some (Memory test_page)),
     wt_set_memory = (\<lambda>g m. g)\<rparr>"

lemma test_engine_simps:
  "wt_engine_new test_engine config = Inr ()" "wt_link test_engine = Inr ()" "wt_module_new test_engine code = Inr (code = endless_wat)" "wt_instantiate test_engine m = Inr (m, None)"
  "wt_get_typed_func test_engine g name = Inr (fst g, Some (test_program (fst g) name))" "wt_step test_engine = test_step"
  "wt_answer test_engine g v = g" "wt_export_memory test_engine g = Some (Memory test_page)"
  by (simp_all add: test_engine_def)

lemma test_engine_finishes:
  assumes "\<And>n. fin = Ends n \<Longrightarrow> n \<le> 16"
  shows "finishes test_engine fuel_trap fin (b, Some ([], fin)) fuel"
proof (cases fin)
  case (Ends n)
  have "unat (fuel - of_nat n) + n \<le> unat fuel" if "n \<le> unat fuel"
  proof -
    have "unat (of_nat n :: u64) = n" using assms [OF Ends] by (simp add: unat_of_nat take_bit_nat_eq_self)
    with that show ?thesis by (simp add: unat_sub word_le_nat_alt)
  qed
  with Ends assms [OF Ends] show ?thesis by (auto simp: test_engine_simps starved_def not_less)
qed (simp_all add: test_engine_simps)

lemma test_engine_follows:
  assumes "\<And>n. fin = Ends n \<Longrightarrow> n \<le> 16"
  shows "follows test_engine fuel_trap test_page cs fin (b, Some (cs, fin))"
proof (induction cs)
  case (Cons c cs)
  have "unat (fuel - 1) < unat fuel \<and> unat fuel \<le> unat (fuel - 1) + 16" if "fuel \<noteq> 0" for fuel :: u64
  proof -
    have "0 < unat fuel" using that by (simp add: unat_gt_0)
    with that show ?thesis by (simp add: unat_minus_one)
  qed
  with Cons show ?case by (simp add: test_engine_simps starved_def)
qed (use test_engine_finishes assms in auto)

lemma test_page_holds: "length test_page = 65536" "list_all (holds test_page) (counter_segments @ [(32, bytes_of ''Incremented'')])"
  by (simp_all add: test_page_def holds_def)

lemma test_engine_runs:
  assumes "test_program (code = endless_wat) name = (cs, fin)" and "\<And>n. fin = Ends n \<Longrightarrow> n \<le> 16"
    and "set segments \<subseteq> set (counter_segments @ [(32, bytes_of ''Incremented'')])"
  shows "runs_module test_engine fuel_trap code name segments cs fin"
proof -
  have "list_all (holds test_page) segments" using test_page_holds(2) assms(3) by (auto simp: list_all_iff)
  with test_page_holds(1) test_engine_follows [OF assms(2)] assms(1) show ?thesis
    unfolding runs_module_def by (auto simp: test_engine_simps)
qed

lemma test_modules_run: "runs_test_modules test_engine fuel_trap"
proof -
  have "length finite_wat \<noteq> length endless_wat" by (simp add: wat_text_def finite_wat_def endless_wat_def)
  then have "finite_wat \<noteq> endless_wat" by auto
  then show ?thesis
    unfolding runs_test_modules_def by (intro conjI test_engine_runs) (auto simp: test_program_def)
qed

theorem vm_tests_pass_witness:
  "execute_contract_call_runs_export_and_updates_storage test_engine (bincode_env spread_env) sample_storage \<and>
   execute_contract_call_rolls_back_storage_on_trap test_engine (bincode_env spread_env) sample_storage \<and>
   wasm_execution_traps_when_fuel_is_exhausted test_engine fuel_trap"
  using vm_tests_pass [OF test_modules_run sample_storage_fresh spread_env_spec(1)] by blast

end
