(* ===== verification/NetworkTests.thy ===== *)
theory NetworkTests
  imports NodeLaws Bincode
begin

text \<open>
  The unit tests of \<open>src/src/network/node.rs\<close>, \<open>src/src/network/connection.rs\<close> and \<open>src/src/network/config.rs\<close> as
  scenarios of the model: each test function is a predicate that runs the same calls and states the same
  assertions. The process environment, the file system, the libp2p swarm, the peer and the secret key are arguments.
  Left out is the test that one message survives bincode.
\<close>

section \<open>Connections and configuration\<close>

definition invalid_messages_trigger_temporary_ban :: bool where
  "invalid_messages_trigger_temporary_ban =
     (let limits = ConnectionLimits_default; now = 1000;
          (peer, banned1) = register_invalid_message now limits PeerPenalty_default;
          (peer, banned2) = register_invalid_message now limits peer;
          (peer, banned3) = register_invalid_message now limits peer in
      \<not> banned1 \<and> \<not> banned2 \<and> banned3 \<and> is_banned peer (now + 1))"

definition reconnect_delay_is_enforced :: bool where
  "reconnect_delay_is_enforced =
     (let limits = ConnectionLimits_default; now = 2000; peer = register_disconnect now PeerPenalty_default in
      \<not> can_reconnect peer (now + 1) limits \<and> can_reconnect peer (now + reconnect_delay_secs limits) limits)"

definition expired_ban_is_cleared :: bool where
  "expired_ban_is_cleared =
     (let limits = ConnectionLimits_default; now = 3000;
          peer = ((\<lambda>peer. fst (register_invalid_message now limits peer)) ^^ unat (max_invalid_messages limits)) PeerPenalty_default;
          cleared = clear_expired_ban (now + temporary_ban_secs limits) peer in
      is_banned peer (now + 1) \<and> \<not> is_banned cleared (now + temporary_ban_secs limits))"

definition default_config_contains_connection_limits :: "process_env \<Rightarrow> bool" where
  "default_config_contains_connection_limits vars =
     (let limits = connection_limits (NetworkConfig_default vars) in
      max_established_incoming limits = 32 \<and> max_established_outgoing limits = 32 \<and> reconnect_delay_secs limits = 5 \<and>
      temporary_ban_secs limits = 60 \<and> max_invalid_messages limits = 3)"

section \<open>The node\<close>

definition test_config :: "process_env \<Rightarrow> NetworkConfig" where
  "test_config vars = (NetworkConfig_default vars)\<lparr>listen_address := ''/ip4/127.0.0.1/tcp/0'', seed_nodes := []\<rparr>"

definition sample_chain_transaction :: Transaction where
  "sample_chain_transaction = \<lparr>tx_type = Transfer, tx_from = replicate 32 1, tx_to = replicate 32 2, tx_amount = 42,
     tx_fee = FIXED_TRANSACTION_FEE, tx_nonce = 7, tx_source_shard = 0, tx_destination_shard = 0, tx_signature = replicate 64 9,
     tx_data = Some (bytes_of ''network-transaction'')\<rparr>"

definition sample_chain_block :: Block where
  "sample_chain_block =
     \<lparr>b_header = \<lparr>h_version = 1, h_previous_hash = replicate 32 0, h_merkle_root = replicate 32 1, h_timestamp = 1710000000, h_height = 12,
        h_validator = replicate 32 7, h_signature = replicate 64 6\<rparr>,
      b_transactions = [sample_chain_transaction], b_receipts = []\<rparr>"

definition clean_peer_can_connect :: "('k, 'z) net_env_scheme \<Rightarrow> process_env \<Rightarrow> (string \<Rightarrow> string + bytes)
    \<Rightarrow> ('k, 'w, 'p, 'a, 'i) swarm_ops \<Rightarrow> 'p \<Rightarrow> bool" where
  "clean_peer_can_connect E vars read_file S peer =
     passes (PrimsNode_new E vars read_file S (test_config vars)) (\<lambda>node. snd (can_accept_peer peer 1000 node))"

text \<open>A number of invalid messages that do not lead to a ban.\<close>

fun tolerates :: "nat \<Rightarrow> 'p \<Rightarrow> u64 \<Rightarrow> ('w, 'p) PrimsNode \<Rightarrow> (('w, 'p) PrimsNode \<Rightarrow> bool) \<Rightarrow> bool" where
  "tolerates 0 peer now node P = P node"
| "tolerates (Suc k) peer now node P =
     (let (node', banned) = node_register_invalid_message peer now node in \<not> banned \<and> tolerates k peer now node' P)"

definition peer_is_temporarily_banned_after_invalid_messages :: "('k, 'z) net_env_scheme \<Rightarrow> process_env \<Rightarrow> (string \<Rightarrow> string + bytes)
    \<Rightarrow> ('k, 'w, 'p, 'a, 'i) swarm_ops \<Rightarrow> 'p \<Rightarrow> bool" where
  "peer_is_temporarily_banned_after_invalid_messages E vars read_file S peer =
     passes (PrimsNode_new E vars read_file S (test_config vars)) (\<lambda>node.
       let now = 2000 in
       tolerates (unat (max_invalid_messages (node_connection_limits node)) - 1) peer now node (\<lambda>node.
         let (node1, banned) = node_register_invalid_message peer now node;
             (node2, early) = can_accept_peer peer (now + 1) node1;
             (node3, later) = can_accept_peer peer (now + temporary_ban_secs (node_connection_limits node2)) node2 in
         banned \<and> \<not> early \<and> later))"

definition reconnect_delay_is_checked_by_node :: "('k, 'z) net_env_scheme \<Rightarrow> process_env \<Rightarrow> (string \<Rightarrow> string + bytes)
    \<Rightarrow> ('k, 'w, 'p, 'a, 'i) swarm_ops \<Rightarrow> 'p \<Rightarrow> bool" where
  "reconnect_delay_is_checked_by_node E vars read_file S peer =
     passes (PrimsNode_new E vars read_file S (test_config vars)) (\<lambda>node.
       let now = 3000; node = register_peer_disconnect peer now node;
           (node1, early) = can_accept_peer peer (now + 1) node;
           (node2, later) = can_accept_peer peer (now + reconnect_delay_secs (node_connection_limits node1)) node1 in
       \<not> early \<and> later)"

section \<open>Messages and keys\<close>

definition blockchain_block_to_network_block_preserves_height_and_transactions :: "'z env_scheme \<Rightarrow> bool" where
  "blockchain_block_to_network_block_preserves_height_and_transactions E =
     (let block = sample_chain_block in
      passes (blockchain_block_to_network_block E block) (\<lambda>network_block.
        nb_height network_block = h_height (b_header block) \<and>
        length (nb_transactions network_block) = length (b_transactions block) \<and>
        passes (serialize (bc_transaction E) (b_transactions block ! 0)) (\<lambda>bs. nt_payload (nb_transactions network_block ! 0) = bs) \<and>
        nb_hash network_block \<noteq> [] \<and> nt_id (nb_transactions network_block ! 0) \<noteq> []))"

definition consensus_vote_to_network_vote_preserves_signature_and_payload :: "'z consensus_env_scheme \<Rightarrow> bytes \<Rightarrow> bool" where
  "consensus_vote_to_network_vote_preserves_signature_and_payload E key =
     passes (create_signed_vote E 15 (replicate 32 4) True key) (\<lambda>vote.
       let network_vote = consensus_vote_to_network_vote vote in
       nv_height network_vote = cv_height vote \<and> nv_block_hash network_vote = cv_block_hash vote \<and> nv_voter network_vote = cv_voter vote \<and>
       nv_approve network_vote = cv_approve vote \<and> nv_signature network_vote = cv_signature vote)"

definition decode_hex_32_accepts_valid_32_byte_hex :: "('k, 'z) net_env_scheme \<Rightarrow> bool" where
  "decode_hex_32_accepts_valid_32_byte_hex E =
     (decode_hex_32 E ''TEST_KEY'' (concat (replicate 32 ''11'')) = Inr (replicate 32 0x11))"

definition decode_hex_32_rejects_invalid_length :: "('k, 'z) net_env_scheme \<Rightarrow> bool" where
  "decode_hex_32_rejects_invalid_length E =
     (decode_hex_32 E ''TEST_KEY'' (concat (replicate 31 ''11'')) = Inl (KeyNot32Bytes ''TEST_KEY''))"

definition decode_hex_32_rejects_non_hex_input :: "('k, 'z) net_env_scheme \<Rightarrow> bool" where
  "decode_hex_32_rejects_non_hex_input E =
     (case decode_hex_32 E ''TEST_KEY'' ''zz'' of Inl (KeyNotHex label _) \<Rightarrow> label = ''TEST_KEY'' | _ \<Rightarrow> False)"

end
