(* ===== verification/NetworkRuns.thy ===== *)
theory NetworkRuns
  imports NetworkTests
begin

text \<open>
  The scenarios of \<open>NetworkTests\<close> hold in an empty process environment, on every swarm that can be built and can
  listen on the local host, and with every decoder of hexadecimal text.
\<close>

unbundle bit_operations_syntax

section \<open>The setting\<close>

text \<open>The variables of the tests are not set, and the swarm opens its listener.\<close>

definition opens :: "('k, 'w, 'p, 'a, 'i) swarm_ops \<Rightarrow> string \<Rightarrow> bool" where
  "opens S address \<longleftrightarrow> (\<forall>key. \<exists>w. sw_build S key = Inr w) \<and>
     (\<exists>a. sw_parse_address S address = Inr a \<and> (\<forall>w. \<exists>w'. sw_listen_on S w a = Inr w'))"

text \<open>The hex crate reads what is printed and refuses other characters.\<close>

definition net_hex_spec :: "('k, 'z) net_env_scheme \<Rightarrow> bool" where
  "net_hex_spec E \<longleftrightarrow> (\<forall>bs. net_hex_decode E (bytes_to_hex bs) = Inr bs) \<and>
     (\<forall>s. (\<exists>c \<in> set s. c \<notin> set ''0123456789abcdefABCDEF'') \<longrightarrow> (\<exists>e. net_hex_decode E s = Inl e))"

section \<open>The scenarios hold\<close>

lemma funpow_three: "(f ^^ 3) x = f (f (f x))"
  by (simp add: numeral_3_eq_3)

lemma connection_scenarios: "invalid_messages_trigger_temporary_ban" "reconnect_delay_is_enforced" "expired_ban_is_cleared"
  by (simp_all add: funpow_three invalid_messages_trigger_temporary_ban_def reconnect_delay_is_enforced_def expired_ban_is_cleared_def
      register_invalid_message_def register_disconnect_def can_reconnect_def clear_expired_ban_def is_banned_def
      ConnectionLimits_default_def PeerPenalty_default_def saturating_add_def saturating_sub_def Let_def word_le_nat_alt word_less_nat_alt)

lemma default_limits:
  assumes "vars = Map.empty"
  shows "connection_limits (NetworkConfig_default vars) = ConnectionLimits_default" "external_address (NetworkConfig_default vars) = None"
  by (simp_all add: assms NetworkConfig_default_def ConnectionLimits_default_def parse_env_usize_def parse_env_u64_def parse_env_u32_def)

lemma config_scenario: "vars = Map.empty \<Longrightarrow> default_config_contains_connection_limits vars"
  by (simp add: default_config_contains_connection_limits_def default_limits ConnectionLimits_default_def)

lemma test_node:
  assumes "vars = Map.empty" and "opens S ''/ip4/127.0.0.1/tcp/0''"
  obtains node where "PrimsNode_new E vars read_file S (test_config vars) = Inr node"
    and "node_connection_limits node = ConnectionLimits_default" and "peer_penalties node = Map.empty"
proof -
  obtain w a where w: "sw_build S (keypair_generated E) = Inr w" "sw_parse_address S ''/ip4/127.0.0.1/tcp/0'' = Inr a"
    using assms(2) unfolding opens_def by blast
  moreover obtain w' where "sw_listen_on S w a = Inr w'" using assms(2) w(2) unfolding opens_def by auto
  moreover have "load_network_identity_keypair E vars read_file = Inr (keypair_generated E)"
    by (simp add: assms(1) load_network_identity_keypair_def)
  ultimately show thesis
    using that default_limits [OF assms(1)] by (simp add: PrimsNode_new_def test_config_def)
qed

lemma tolerates_two: "tolerates 2 peer now node P =
    (let (node1, banned1) = node_register_invalid_message peer now node; (node2, banned2) = node_register_invalid_message peer now node1 in
     \<not> banned1 \<and> \<not> banned2 \<and> P node2)"
  by (simp add: numeral_2_eq_2 split: prod.splits)

lemma node_scenarios:
  assumes "vars = Map.empty" and "opens S ''/ip4/127.0.0.1/tcp/0''"
  shows "clean_peer_can_connect E vars read_file S peer" "peer_is_temporarily_banned_after_invalid_messages E vars read_file S peer"
    "reconnect_delay_is_checked_by_node E vars read_file S peer"
proof -
  obtain node where node: "PrimsNode_new E vars read_file S (test_config vars) = Inr node"
    "node_connection_limits node = ConnectionLimits_default" "peer_penalties node = Map.empty"
    by (rule test_node [OF assms])
  note simps = node can_accept_peer_def penalty_of_def clear_expired_ban_def is_banned_def can_reconnect_def PeerPenalty_default_def
    node_register_invalid_message_def register_invalid_message_def register_peer_disconnect_def register_disconnect_def
    ConnectionLimits_default_def saturating_add_def saturating_sub_def Let_def word_le_nat_alt word_less_nat_alt
  show "clean_peer_can_connect E vars read_file S peer" by (simp add: clean_peer_can_connect_def simps)
  show "peer_is_temporarily_banned_after_invalid_messages E vars read_file S peer"
    by (simp add: peer_is_temporarily_banned_after_invalid_messages_def tolerates_two simps)
  show "reconnect_delay_is_checked_by_node E vars read_file S peer" by (simp add: reconnect_delay_is_checked_by_node_def simps)
qed

lemma block_scenario:
  assumes "sha256_spec E"
  shows "blockchain_block_to_network_block_preserves_height_and_transactions (bincode_env E)"
proof -
  have "bytes_to_hex (sha256_digest E x) \<noteq> []" for x
    using assms by (cases "sha256_digest E x") (auto simp: sha256_spec_def bytes_to_hex_def dest: spec [of _ x])
  then show ?thesis
    by (simp add: blockchain_block_to_network_block_preserves_height_and_transactions_def blockchain_block_to_network_block_def
        blockchain_transaction_to_network_transaction_def hash_block_header_def hash_transaction_def sha256_def sample_chain_block_def)
qed

lemma vote_scenario:
  assumes "\<forall>v. \<exists>b. serialize (bc_vote F) v = Inr b"
  shows "consensus_vote_to_network_vote_preserves_signature_and_payload F key"
proof -
  obtain b where "serialize (bc_vote F) \<lparr>cv_height = 15, cv_block_hash = replicate 32 4, cv_voter = signing_public F key, cv_approve = True,
      cv_signature = []\<rparr> = Inr b"
    using assms by blast
  then show ?thesis
    by (simp add: consensus_vote_to_network_vote_preserves_signature_and_payload_def create_signed_vote_def unsigned_vote_bytes_def
        consensus_vote_to_network_vote_def)
qed

lemma hex_scenarios:
  assumes "net_hex_spec E"
  shows "decode_hex_32_accepts_valid_32_byte_hex E" "decode_hex_32_rejects_invalid_length E" "decode_hex_32_rejects_non_hex_input E"
proof -
  have texts: "strip_hex_prefix (trim (concat (replicate 32 ''11''))) = bytes_to_hex (replicate 32 0x11)"
    "strip_hex_prefix (trim (concat (replicate 31 ''11''))) = bytes_to_hex (replicate 31 0x11)" "strip_hex_prefix (trim ''zz'') = ''zz''"
    by code_simp+
  have read: "net_hex_decode E (bytes_to_hex bs) = Inr bs" for bs using assms by (simp add: net_hex_spec_def)
  show "decode_hex_32_accepts_valid_32_byte_hex E" "decode_hex_32_rejects_invalid_length E"
    unfolding decode_hex_32_accepts_valid_32_byte_hex_def decode_hex_32_rejects_invalid_length_def decode_hex_32_def texts read
    by (simp_all add: try_into_array_def del: replicate.simps)
  have "\<exists>c \<in> set ''zz''. c \<notin> set ''0123456789abcdefABCDEF''" by simp
  then obtain e where "net_hex_decode E ''zz'' = Inl e" using assms unfolding net_hex_spec_def by blast
  then show "decode_hex_32_rejects_non_hex_input E"
    unfolding decode_hex_32_rejects_non_hex_input_def decode_hex_32_def texts by simp
qed

section \<open>The unit tests pass\<close>

text \<open>
  The unit tests of connections, configuration and node pass, for every swarm that opens its listener and
  every hash and signature scheme.
\<close>

theorem network_tests_pass:
  assumes "vars = Map.empty" and "opens S ''/ip4/127.0.0.1/tcp/0''" and "sha256_spec E" and "net_hex_spec N"
    and "\<forall>v. \<exists>b. serialize (bc_vote F) v = Inr b"
  shows "invalid_messages_trigger_temporary_ban \<and> reconnect_delay_is_enforced \<and> expired_ban_is_cleared \<and>
    default_config_contains_connection_limits vars \<and> clean_peer_can_connect N vars read_file S peer \<and>
    peer_is_temporarily_banned_after_invalid_messages N vars read_file S peer \<and>
    reconnect_delay_is_checked_by_node N vars read_file S peer \<and>
    blockchain_block_to_network_block_preserves_height_and_transactions (bincode_env E) \<and>
    consensus_vote_to_network_vote_preserves_signature_and_payload F key \<and>
    decode_hex_32_accepts_valid_32_byte_hex N \<and> decode_hex_32_rejects_invalid_length N \<and> decode_hex_32_rejects_non_hex_input N"
  using connection_scenarios config_scenario [OF assms(1)] node_scenarios [OF assms(1,2)] block_scenario [OF assms(3)] vote_scenario [OF assms(5)]
    hex_scenarios [OF assms(4)]
  by blast

text \<open>A decoder for the witness.\<close>

fun unhex :: "string \<Rightarrow> bytes" where
  "unhex (a # b # s) = of_nat (16 * length (takeWhile (\<lambda>c. c \<noteq> a) HEX) + length (takeWhile (\<lambda>c. c \<noteq> b) HEX)) # unhex s"
| "unhex _ = []"

definition hex_net_env :: "unit net_env" where
  "hex_net_env = sample_net_env\<lparr>net_hex_decode := \<lambda>s. if list_all (\<lambda>c. c \<in> set ''0123456789abcdefABCDEF'') s then Inr (unhex s) else Inl ''invalid''\<rparr>"

lemma HEX_index: "i < 16 \<Longrightarrow> length (takeWhile (\<lambda>c. c \<noteq> HEX ! i) HEX) = i"
proof -
  have "\<forall>i \<in> {..<16}. length (takeWhile (\<lambda>c. c \<noteq> HEX ! i) HEX) = i" by code_simp
  then show "i < 16 \<Longrightarrow> length (takeWhile (\<lambda>c. c \<noteq> HEX ! i) HEX) = i" by simp
qed

lemma HEX_digit: "i < 16 \<Longrightarrow> HEX ! i \<in> set ''0123456789abcdefABCDEF''"
proof -
  assume "i < 16"
  then have "HEX ! i \<in> set HEX" by (intro nth_mem) (simp add: HEX_def)
  moreover have "set HEX \<subseteq> set ''0123456789abcdefABCDEF''" by (simp add: HEX_def)
  ultimately show ?thesis by blast
qed

lemma unhex_hex: "unhex (bytes_to_hex bs) = bs \<and> list_all (\<lambda>c. c \<in> set ''0123456789abcdefABCDEF'') (bytes_to_hex bs)"
proof (induction bs)
  case (Cons b bs)
  have b: "unat b < 256" using unsigned_less [of b] by simp
  then have "(of_nat (16 * (unat b div 16) + unat b mod 16) :: u8) = b" by simp
  with Cons b show ?case
    by (simp add: bytes_to_hex_def byte_nibbles HEX_index HEX_digit del: set_simps of_nat_add of_nat_mult)
qed (simp add: bytes_to_hex_def)

lemma hex_net_spec: "net_hex_spec hex_net_env"
  using unhex_hex by (auto simp: net_hex_spec_def hex_net_env_def list_all_iff simp del: set_simps)

theorem network_tests_pass_witness:
  "peer_is_temporarily_banned_after_invalid_messages hex_net_env Map.empty (\<lambda>_. Inl []) sample_swarm 3 \<and>
   decode_hex_32_accepts_valid_32_byte_hex hex_net_env"
proof -
  have opened: "opens sample_swarm ''/ip4/127.0.0.1/tcp/0''" by (simp add: opens_def sample_swarm_def)
  have votes: "\<forall>v. \<exists>b. serialize (bc_vote sample_consensus_env) v = Inr b"
    by (simp add: sample_consensus_env_def env.extend_def env.defs field_codec_def)
  show ?thesis
    using network_tests_pass [OF refl opened spread_env_spec(1) hex_net_spec votes, of "\<lambda>_. Inl []" 3 "[]"] by (elim conjE) (intro conjI)
qed

end
