(* ===== verification/Spec2Isabelle.thy ===== *)
theory Spec2Isabelle
  imports NoteIndex Finality Rewards Beacon CrossShard Conversion SetupLaws Flood PageLaws Startup ShardingRuns Spending PrivacyRuns LedgerRuns
    StorageRuns VmRuns NetworkRuns
begin

text \<open>
  \<^bold>\<open>A verification library for prims.\<close>

  \<^bold>\<open>The program.\<close> \<open>prims\<close> is a prototype of a sharded proof-of-stake chain with public and
  anonymous value, WASM contracts, a JSON-RPC interface and a gossip network. Users submit
  transactions over JSON-RPC (\<open>src/src/api\<close>) or they arrive by gossip (\<open>src/src/main.rs\<close>,
  \<open>src/src/network\<close>); both put them into the mempool of \<open>src/src/consensus\<close>. A proposer drawn by
  stake takes transactions from the mempool, builds and signs a block, validators vote, and a
  block with more than two thirds of the stake is final. \<open>src/src/sharding\<close> assigns validators
  to shards and moves transactions between shards in three phases. \<open>src/src/privacy\<close> keeps notes
  in a Merkle tree and checks transfers of notes with a Groth16 circuit. \<open>src/src/storage\<close> writes
  everything to RocksDB, \<open>src/src/vm\<close> runs contracts against that storage. Four programs use the
  library: the node, the command line client, the setup ceremony of the circuit parameters and
  a web site with a faucet.

  \<^bold>\<open>Theories and sources.\<close>

  \<^item> \<open>Prelude\<close>, \<open>Text\<close>: what the sources use of the standard library. Machine integers are words
    (\<open>+\<close> wraps, as in a release build), \<open>usize\<close> is \<^typ>\<open>nat\<close>, byte strings are lists of bytes,
    \<open>Result\<close> is a sum with \<open>Inl\<close> the error, \<open>and_then\<close> is the question mark, a panic is \<open>Inl\<close> of
    the type \<open>panics\<close>. \<open>keyed_store\<close> is the interface of a table that returns the last value
    written. Collections \<open>result_simps\<close> and \<open>arith_simps\<close> carry most proofs.
  \<^item> \<open>Types\<close> (\<open>blockchain/types.rs\<close>): a record per struct, a datatype per enum, and the record
    \<open>env\<close> of third-party code. \<open>Samples\<close> holds concrete values for witnesses.
  \<^item> \<open>Hash\<close> (\<open>blockchain/hash.rs\<close>), \<open>Crypto\<close> (\<open>crypto/mod.rs\<close>), \<open>Validation\<close>
    (\<open>blockchain/validation.rs\<close>): digests, the Merkle root with its locale \<open>level_reduction\<close>,
    signatures, the checks of blocks and transactions, and what the acceptance of a chain of blocks binds.
  \<^item> \<open>Bincode\<close>: the layout of bincode for the types of the chain, an instance of the codec parameters with
    its locale \<open>wire_format\<close>. \<open>LedgerTests\<close> and \<open>LedgerRuns\<close> are the unit tests of types, hashes, signatures and
    validation.
  \<^item> \<open>Mempool\<close>, \<open>Votes\<close>, \<open>Finality\<close>, \<open>Rewards\<close>, \<open>Proposer\<close> (\<open>consensus/mod.rs\<close>): the partitioned
    mempool with the commands of a partition (locale \<open>tx_pool\<close>) and draws that submissions interrupt, votes,
    tally, finality, fork choice, slashing (locale \<open>weighted_quorum\<close>), rewards, proposer draw and block
    proposal. \<open>ConsensusTests\<close> has unit tests of the module as scenarios of the model, and
    \<open>ConsensusRuns\<close> proves that they hold.
  \<^item> \<open>Sharding\<close>, \<open>Committees\<close>, \<open>Beacon\<close>, \<open>CrossShard\<close> (\<open>sharding/mod.rs\<close>): configuration, committee
    assignment, the beacon chain, consensus in a shard, cross-shard transactions. \<open>ShardingTests\<close> and
    \<open>ShardingRuns\<close> are unit tests of the module and the proof that they pass.
  \<^item> \<open>NoteTree\<close>, \<open>Privacy\<close> (\<open>privacy/mod.rs\<close>), \<open>Conversion\<close> (\<open>privacy/conversion.rs\<close>): notes and
    their tree, the native check and the circuit of a transfer, anonymous transactions, moving
    value between the public and the anonymous side. \<open>Spending\<close> composes tree, circuit, proof system and
    transaction into an anonymous payment. \<open>PrivacyTests\<close> and \<open>PrivacyRuns\<close> are the unit tests of both modules.
  \<^item> \<open>Keys\<close> (\<open>storage/keys.rs\<close>), \<open>Storage\<close> (\<open>storage/mod.rs\<close>, \<open>storage/checksum.rs\<close>), \<open>StorageLaws\<close>,
    \<open>ContractStorage\<close>, \<open>NoteIndex\<close>: database keys, every typed access, and what they mean for the contents.
    \<open>StorageTests\<close> and \<open>StorageRuns\<close> are the unit tests of storage, keys and checksums.
  \<^item> \<open>Vm\<close>, \<open>VmLaws\<close> (\<open>vm/mod.rs\<close>): metered stores, the host functions, the guest as a parameter that calls
    them, and whole contract calls (locale \<open>host_invariant\<close>). \<open>VmTests\<close> has the unit tests with the text of their guest
    modules; \<open>VmRuns\<close> states what an engine does with these modules and proves the tests.
  \<^item> \<open>Api\<close>, \<open>ApiLaws\<close> (\<open>api/mod.rs\<close>): every RPC method and the dispatcher with its rate limit.
  \<^item> \<open>Network\<close>, \<open>Node\<close>, \<open>NodeLaws\<close> (\<open>network\<close>, \<open>main.rs\<close>): configuration, peer penalties, messages,
    node identity, publishing, and the event loop. \<open>NetworkTests\<close> and \<open>NetworkRuns\<close> are the unit tests of connections,
    configuration and node.
  \<^item> \<open>Lifecycle\<close> (\<open>main.rs\<close>, \<open>api/mod.rs\<close>): the running node as a step relation that interleaves RPC requests
    and network events on the shared mempool; the program has no step that produces blocks. \<open>Startup\<close> (\<open>main.rs\<close>, \<open>network/gossip.rs\<close>,
    \<open>network/behaviour.rs\<close>): from the command to the first event, ending in a state from which
    \<open>Lifecycle\<close> starts.
  \<^item> \<open>Files\<close>, \<open>Json\<close>: the disk with buffered writers, and JSON values, for the programs below.
  \<^item> \<open>Setup\<close>, \<open>SetupLaws\<close> (\<open>bin/prims-setup.rs\<close>): the ceremony commands on a disk.
  \<^item> \<open>Cli\<close>, \<open>Flood\<close> (\<open>bin/prims-cli.rs\<close>), \<open>Explorer\<close> (\<open>bin/prims-explorer.rs\<close>), \<open>ClientLaws\<close>: the
    commands of the client, the load generator, the web site, and their composition with the RPC
    interface (locale \<open>rpc_client\<close>, interpreted for both clients).
  \<^item> \<open>Pages\<close>, \<open>PageLaws\<close> (\<open>bin/prims-explorer.rs\<close>): the three page templates line by line with every
    message shown in them, and the scan of a page for its tags.

  State is passed explicitly: a mempool, a beacon chain, an RPC state, a node state is a record
  that the operation takes and returns. Definitions keep the names of the functions they
  translate, with a prefix where a name is taken.

  \<^bold>\<open>What is shown.\<close> The node: along every interleaving of requests and gossip the mempool holds exactly
  what arrived, senders keep their order, what came by RPC is signed, fresh and paid for, and blocks and
  accounts stay as they were; a start that succeeds opens the configured database and leads to such a history.
  Consensus: two final blocks at one height expose more than a third of the stake,
  the tally, fork choice, slashing and rewards are exact, the proposer is the owner of the drawn unit of
  stake and the draw is proportional to stake up to the bias of a remainder, the mempool neither
  loses nor repeats a transaction and serves every sender in order, also while a block is drawn, a
  proposed block is valid, and accepted chains with the same last hash agree. Sharding: committees
  are dealt round-robin to the shards, a beacon chain never panics and stays well formed, every reachable
  cross-shard execution has the receipts of its phases. Privacy:
  membership proofs are complete and binding, the native check is characterised, what it accepts
  becomes a transaction that verifies, a transaction that verifies spends notes of the tree (for an ideal
  proof system), conversion there and back restores an account up to its viewing hint. Storage and
  contracts: keys of different kinds never meet and it is stated which keys of one kind do, the batched
  commit equals single writes and records the recomputed root, calls are atomic and touch only
  the called contract, and a viewing key finds exactly its notes. Interfaces: over RPC only
  signed, fresh, paid-for transactions are accepted, stored blocks are served, published
  transactions are received (by gossip without any check), a payment from the command line reaches the
  mempool of the node, key files give back their keys and all programs read them alike, and a page of the
  web site has the tags of its template and no others, whatever is shown in it. Ceremony: the state file
  is a chained transcript whose last digest commits to all contributions. Tests: the unit tests that are modelled pass in
  every environment that satisfies the hypotheses below and has no collision among the strings that a test compares;
  where a test depends on an encoding, for the layout of bincode, which is proved to round-trip.

  \<^bold>\<open>Third-party code\<close> is a parameter of the definitions that use it, and its documented behaviour
  a named hypothesis: SHA-256 (\<open>sha256_spec\<close>; where binding is claimed, no collision among the
  inputs at hand), Ed25519 (\<open>ed25519_spec\<close>), bincode and the derived codecs (\<open>roundtrips\<close>), RocksDB
  (\<open>storage_ok\<close> over an engine specification, \<open>durable\<close> for opening it again), wasmtime (\<open>fuel_spec\<close>, \<open>memory_spec\<close>, and
  \<open>runs_test_modules\<close> for the modules of its tests), the hex crate (\<open>hex_spec\<close>, \<open>net_hex_spec\<close>), the age crate (\<open>age_spec\<close>), Groth16 (\<open>groth16_complete\<close>, \<open>groth16_sound\<close>) and the gadgets of arkworks, the rate limiter of
  governor, the libp2p swarm (\<open>swarm_ops\<close>, \<open>sent_spec\<close>), the HTTP connection between client and
  server (\<open>serves\<close>, \<open>wire_spec\<close>), the disk (\<open>disk_spec\<close>), the terminal (\<open>terminal_spec\<close>), the process
  environment, the clock, the gossip behaviour of libp2p (\<open>gossip_spec\<close>), the HTML escaper of askama
  (\<open>escape_spec\<close>) and the formatting of foreign error values (\<open>displays\<close>). Each hypothesis is met by a concrete instance in a witness.
  Two of them idealise: \<open>groth16_sound\<close> is perfect, not computational soundness, and \<open>storage_ok\<close> describes
  a database whose operations succeed, while theorems about failing operations do without it.

  \<^bold>\<open>Bounds and termination.\<close> No definition uses fuel. Loops of the sources are structural or have a
  termination proof; the run of a guest and the polling loops of \<open>flood\<close> are partial functions,
  and that they return is proved for engines that meter fuel and for clocks that advance.
  Lengths are below \<open>2 ^ 64\<close> where they are written as 64-bit integers, stated where it matters.

  \<^bold>\<open>Not modelled.\<close> Binding the listener of the web site, the argument parsers of clap and the lines
  that are printed before the event loop: they only call libraries. Answers that axum gives without a
  handler. The internals of libp2p, RocksDB, wasmtime, arkworks and the channels and tasks of tokio: a
  call of an operation is one step, except where \<open>Mempool\<close> interleaves its commands. Outside the web site error messages are values,
  not formatted texts. Of the unit tests those are left out that tamper with a
  signature or a proof, since Ed25519 and Groth16 are not assumed to be unforgeable there, that call a function twice
  to see the same value, that draw random keys, or that only call a library. Characters are
  code points below 256, and key files are read as ASCII.

  \<^bold>\<open>Findings.\<close> Some theorems state what the code does against its intention: repeated last
  transactions in a block, votes for different blocks counted together, a wrapping stake total,
  unauthenticated receipts, a circuit whose sums wrap and a note spent twice, replayed
  submissions, transfers of one call that ignore each other, a faucet that reuses its nonce, a
  public seed of the circuit parameters, a lost write of the ceremony state, penalties for peers
  that are never applied, and a mempool whose partitions keep the order that a sandwich needs.
\<close>

end
